(* ===== verification/Wire_Prelude.thy ===== *)
theory Wire_Prelude
  imports Main "HOL-Library.Word"
begin

text \<open>
  Shared vocabulary of the development: the machine integers of the Rust sources, the
  error values of \<open>core/src/error.rs\<close>, the shape of a fallible operation on a mutable
  receiver (\<open>&mut self -> Result<T>\<close>), and the loop combinators and lemmas over both.

  Error messages are values: every message the sources build with \<open>format!\<close> is one
  constructor of a reason type, carrying the numbers the message interpolates where control
  flow or a property looks at them.  A Rust panic (an index or slice out of range, an
  \<open>expect\<close> that fails, an \<open>unreachable!\<close>) is the error value \<open>Panic\<close>, so that its absence
  is something to prove.
\<close>

unbundle bit_operations_syntax

section \<open>Machine integers\<close>

type_synonym u8 = "8 word"
type_synonym u16 = "16 word"
type_synonym u32 = "32 word"
type_synonym u64 = "64 word"
type_synonym bytes = "u8 list"

text \<open>
  \<open>usize\<close> values are naturals.  Sizes of live buffers stay far below \<open>2 ^ 61\<close> bytes, so the
  sums over them cannot wrap; sizes that arrive from the wire can be any 64-bit value and
  there the wrap-around of a release build is written out with \<open>wrap64\<close>.
\<close>

definition wrap64 :: "nat \<Rightarrow> nat" where
  "wrap64 n = n mod 2 ^ 64"

definition div_ceil :: "nat \<Rightarrow> nat \<Rightarrow> nat" where
  "div_ceil n d = (n + (d - 1)) div d"

definition checked_add64 :: "nat \<Rightarrow> nat \<Rightarrow> nat option" where
  "checked_add64 a b = (if a + b < 2 ^ 64 then Some (a + b) else None)"

definition checked_mul64 :: "nat \<Rightarrow> nat \<Rightarrow> nat option" where
  "checked_mul64 a b = (if a * b < 2 ^ 64 then Some (a * b) else None)"

lemma wrap64_id [simp]: "n < 2 ^ 64 \<Longrightarrow> wrap64 n = n"
  by (simp add: wrap64_def)

lemma div_ceil_8: "div_ceil n 8 = (n + 7) div 8"
  by (simp add: div_ceil_def)

lemma div_ceil_8_mult [simp]: "div_ceil (8 * n) 8 = n" "div_ceil (n * 8) 8 = n"
  by (simp_all add: div_ceil_def)

lemma unat_two_power: "n < LENGTH('a::len) \<Longrightarrow> unat (2 ^ n :: 'a word) = 2 ^ n"
proof -
  assume n: "n < LENGTH('a)"
  have "(2::nat) ^ n < 2 ^ LENGTH('a)"
    using n by (intro power_strict_increasing) simp_all
  then have "unat (of_nat (2 ^ n) :: 'a word) = 2 ^ n"
    by (simp only: unsigned_of_nat take_bit_nat_eq_self of_nat_id)
  then show ?thesis by simp
qed

lemma unat_ucast_up:
  fixes b :: "'a::len word"
  assumes "LENGTH('a) \<le> LENGTH('b::len)"
  shows "unat (ucast b :: 'b word) = unat b"
proof -
  have "unat b < 2 ^ LENGTH('a)"
    by (rule unsigned_less)
  also have "\<dots> \<le> 2 ^ LENGTH('b)"
    using assms by (intro power_increasing) simp_all
  finally show ?thesis
    by (simp add: unsigned_ucast_eq take_bit_nat_eq_self)
qed

text \<open>A string literal as the bytes of its UTF-8 form.\<close>

definition ascii :: "string \<Rightarrow> bytes" where
  "ascii s = map (\<lambda>c. of_nat (of_char c)) s"

section \<open>Errors\<close>

datatype panic_reason =
    IndexOutOfBounds
  | SliceOutOfBounds
  | ArithmeticOverflow
  | Unreachable
  | ExpectFailed
  | AssertionFailed
  | CapacityOverflow

datatype incomplete_reason =
    SeekPastEnd nat nat        \<comment> \<open>seek to bit, buffered\<close>
  | NeedBits nat nat nat       \<comment> \<open>width, position, remaining\<close>
  | ClubRecordBeyond nat       \<comment> \<open>bytes buffered\<close>
  | ClubInfoNeeds nat nat      \<comment> \<open>bytes needed, buffered\<close>

text \<open>The kinds a \<open>BsnValue\<close> can be asked to have (\<open>bsn/typed.rs\<close>, \<open>bsn/codec.rs\<close>).\<close>

datatype value_label =
    LVoid | LBool | LInteger | LFourCc | LFloat32 | LFloat64 | LBytes | LString
  | LBitArray | LArray | LOptional | LChoice | LStruct

datatype bsn_reason =
    BitCountOutsideBuffer
  | WiderThan64
  | ValueDoesNotFit nat nat          \<comment> \<open>value, width\<close>
  | ByteCountOverflows
  | CommandIdTooWide
  | ServiceSlotTooWide
  | ExpectedKind value_label
  | IntegerDoesNotFit int
  | ExpectedStruct
  | MissingField
  | NotAStruct nat
  | LayoutFieldCount nat nat
  | LayoutFieldOutside nat nat
  | LayoutFieldRepeated nat
  | LayoutAlreadyRegistered nat
  | NotObfuscated nat
  | UnregisteredObfuscated nat
  | EnumValueUndeclared int nat
  | BitArrayOutsideBuffer
  | ChoiceUndeclared int
  | FillerStateRange
  | LayoutOmittedField
  | RequiredFieldMissing nat
  | NoNumericRange
  | NoElementType
  | LengthDoesNotFit
  | OutsideRange int int int         \<comment> \<open>value, minimum, maximum\<close>
  | FixedRangeDiffers
  | RangedValueTooWide
  | ExceedsMaximum int int           \<comment> \<open>decoded value, maximum\<close>
  | InType bsn_reason nat nat nat    \<comment> \<open>reason, type, first and last bit\<close>
  | InElement bsn_reason nat
  | InField bsn_reason nat nat       \<comment> \<open>reason, position, type\<close>
  | ClubFieldMissing nat
  | GeneratedStringTooLong nat nat   \<comment> \<open>length, maximum\<close>
  | GeneratedOmitsField nat
  | CategoryArrayCount nat
  | CategoryStringTooLong nat
  | CategoryVariant nat
  | CategoryFieldMissing
  | InboundOnly
  | InRoute bsn_reason nat nat nat nat \<comment> \<open>reason, slot, command, type, bits read\<close>

datatype metadata_reason =
    HeaderTruncated
  | TypeTableOverflows
  | SizeOverflows
  | UnknownTypeTag nat
  | NotInSchema nat
  | NotUnique nat
  | UnsupportedVersion
  | NoTypes
  | TypeCountUnreasonable
  | NoDumpRecords
  | SizeMismatch nat nat
  | NoNamedStrings
  | StringsOutsideRegion
  | StringsOverlapLiterals
  | DumpRecordNoEnd
  | StringRecordNoEnd
  | StringRecordUnaligned nat
  | StringOffsetOutside
  | StringNotTerminated
  | StringNotUtf8
  | DumpRecordEmpty nat
  | TypeCountExceedsU32
  | UnparsedBytes nat nat
  | TypeIdOutOfRange nat
  | RangeTruncated
  | RangeControlMissing
  | IndexCountMissing
  | IndexCountEncoding nat
  | IndexCountUnreasonable
  | UnknownIntegerEncoding nat
  | IntegerOverflows
  | IntegerTruncated
  | U32Truncated
  | OffsetOutsideRegion nat

datatype classic_reason =
    FieldNumberTooWide nat
  | FieldZero nat
  | LengthTooWide nat
  | TruncatedBytes nat
  | UnsupportedWireType nat nat nat
  | TruncatedVarint
  | VarintTooWide
  | VarintTooLong
  | TruncatedFixed nat
  | HeaderFieldTooWide nat           \<comment> \<open>field number\<close>
  | MissingHeaderFields "nat list"
  | NoLengthPrefix
  | HeaderLengthExceeds nat nat      \<comment> \<open>announced, available\<close>
  | BodySizeMismatch nat nat         \<comment> \<open>declared, actual\<close>
  | BodyExceedsSizeField
  | ClassicHeaderTooLong

datatype bgs_reason =
    BodyTooLong
  | HeaderTooLong
  | EmptyHeader
  | BodyExceedsLimit nat nat
  | NoHeaderPrefix
  | HeaderTruncatedMessage
  | BodyLengthMismatch
  | TextNotUtf8
  | BinaryNotUtf8
  | UnexpectedOpcode u8
  | UnexpectedText
  | CannotSend
  | BgsMessage bytes                 \<comment> \<open>message text\<close>
  | AttributeTwice bytes             \<comment> \<open>attribute name\<close>
  | AttributeNot bytes bytes         \<comment> \<open>attribute name, expected type\<close>
  | AttributeMissing bytes           \<comment> \<open>attribute name\<close>
  | NoLogonProfile bytes             \<comment> \<open>product name\<close>

datatype service_reason =
    UnsupportedChallenge "bytes option"
  | UnexpectedUrl
  | LogonFailed nat                  \<comment> \<open>error code\<close>

datatype transport_reason =
    ControlPayloadTooLong
  | ReservedBitsSet
  | InvalidPayloadLength
  | InvalidControlFrame
  | PayloadTooWide
  | ServerClosed
  | KeyNotBase64
  | KeyNotSixteenBytes nat
  | HeldWithoutAnswer
  | CloseReceived
  | ClosedDuringUpgrade
  | UpgradeHeadTooLong
  | UpgradeRejected bytes            \<comment> \<open>status line\<close>
  | InvalidAccept
  | UnexpectedSubprotocol
  | NoAddresses bytes nat            \<comment> \<open>host, port\<close>

datatype native_reason =
    ProtectionAlreadyEnabled
  | Rc4KeyLength
  | LengthIs nat nat                 \<comment> \<open>actual, expected\<close>
  | NonceGenerationFailed
  | HmacKeyRejected
  | NotPhaseOneResponse
  | ClientProofFailed
  | RepeatedThumbprint
  | ThumbprintFailed
  | RepeatedSessionModule
  | UnsupportedProofPhase
  | UnknownAuthModule
  | MissingAuthModule
  | ResumeRejected int               \<comment> \<open>choice\<close>
  | FinalModuleSet
  | UnknownFinalModule
  | InvalidProofPhase
  | ServerProofFailed
  | SeedNot64
  | NoServiceSlot
  | UnexpectedRoute "u8 option" u8   \<comment> \<open>slot, command\<close>
  | StructLacks bytes                \<comment> \<open>field name\<close>
  | ExpectedNative value_label
  | AliasWithoutElement
  | AliasCycle
  | NotAStructType nat
  | NoFieldNamed nat bytes
  | NotAnArrayType nat
  | ArrayWithoutElement nat
  | NotAChoiceType nat
  | NoVariantNamed nat bytes
  | NoVariantIndex nat int
  | ChoiceWithoutVariants nat
  | ChoiceWithoutIndices nat
  | OptionalWithoutInner nat
  | BitArrayDefault nat
  | AliasNotPeeled
  | ChecksumParameters
  | ChecksumTooEarly
  | NativeStringTooLong
  | NativeMessage bytes              \<comment> \<open>message text\<close>
  | NativeInRoute native_reason nat nat nat nat \<comment> \<open>reason, slot, command, type, bits read\<close>

datatype io_reason =
    UnexpectedEof
  | Interrupted
  | WouldBlock
  | TimedOut
  | InvalidData
  | OtherIo nat

datatype error =
    BgsWire bgs_reason
  | BsnWire bsn_reason
  | ClassicWire classic_reason
  | Metadata metadata_reason
  | Native native_reason
  | UnmappedNativeRoute u8 u8
  | NativeServerRejected int
  | NativeResumeRejected int int     \<comment> \<open>error, wait\<close>
  | IncompleteFrame incomplete_reason
  | Transport transport_reason
  | Io io_reason
  | ProtobufDecode
  | Authentication service_reason
  | Server service_reason
  | UrlParse
  | Panic panic_reason
  | StackOverflow
  | NoReturn

type_synonym 'a result = "error + 'a"

text \<open>The errors that are no values of the Rust program: a panic, running out of stack, and a loop that does not end.\<close>

fun aborting :: "error \<Rightarrow> bool" where
  "aborting (Panic _) = True"
| "aborting StackOverflow = True"
| "aborting NoReturn = True"
| "aborting _ = False"

definition aborts :: "'a result \<Rightarrow> bool" where
  "aborts v \<longleftrightarrow> (case v of Inl e \<Rightarrow> aborting e | Inr _ \<Rightarrow> False)"

lemma aborts_simps [simp]: "aborts (Inl e) = aborting e" "\<not> aborts (Inr x)"
  by (simp_all add: aborts_def)

section \<open>Results\<close>

text \<open>The \<open>?\<close> operator on a plain result.\<close>

definition rbind :: "'a result \<Rightarrow> ('a \<Rightarrow> 'b result) \<Rightarrow> 'b result" where
  "rbind m f = (case m of Inl e \<Rightarrow> Inl e | Inr x \<Rightarrow> f x)"

definition ok_or :: "error \<Rightarrow> 'a option \<Rightarrow> 'a result" where
  "ok_or e v = (case v of None \<Rightarrow> Inl e | Some x \<Rightarrow> Inr x)"

definition guard_or :: "error \<Rightarrow> bool \<Rightarrow> unit result" where
  "guard_or e b = (if b then Inr () else Inl e)"

fun rmap :: "('a \<Rightarrow> 'b result) \<Rightarrow> 'a list \<Rightarrow> 'b list result" where
  "rmap f [] = Inr []"
| "rmap f (x # xs) = rbind (f x) (\<lambda>y. rbind (rmap f xs) (\<lambda>ys. Inr (y # ys)))"

lemma rbind_simps [simp]:
  "rbind (Inr x) f = f x"
  "rbind (Inl e) f = Inl e"
  by (simp_all add: rbind_def)

lemma rbind_Inr_iff: "rbind m f = Inr y \<longleftrightarrow> (\<exists>x. m = Inr x \<and> f x = Inr y)"
  by (cases m) simp_all

lemma rbind_Inl_iff: "rbind m f = Inl e \<longleftrightarrow> m = Inl e \<or> (\<exists>x. m = Inr x \<and> f x = Inl e)"
  by (cases m) simp_all

lemma rbind_cong [fundef_cong]:
  "m = m' \<Longrightarrow> (\<And>x. m' = Inr x \<Longrightarrow> f x = f' x) \<Longrightarrow> rbind m f = rbind m' f'"
  by (cases m') simp_all

lemma ok_or_simps [simp]:
  "ok_or e (Some x) = Inr x"
  "ok_or e None = Inl e"
  by (simp_all add: ok_or_def)

lemma ok_or_Inr_iff [simp]: "ok_or e v = Inr x \<longleftrightarrow> v = Some x"
  by (cases v) simp_all

lemma ok_or_Inl_iff [simp]: "ok_or e v = Inl e' \<longleftrightarrow> v = None \<and> e' = e"
  by (cases v) auto

lemma guard_or_simps [simp]:
  "guard_or e True = Inr ()"
  "guard_or e False = Inl e"
  by (simp_all add: guard_or_def)

lemma guard_or_iff [simp]:
  "guard_or e b = Inr u \<longleftrightarrow> b"
  "guard_or e b = Inl e' \<longleftrightarrow> \<not> b \<and> e' = e"
  by (auto simp: guard_or_def)

lemma rmap_Inr_length: "rmap f xs = Inr ys \<Longrightarrow> length ys = length xs"
  by (induction xs arbitrary: ys) (auto simp: rbind_Inr_iff)

lemma rmap_Inr_nth: "rmap f xs = Inr ys \<Longrightarrow> i < length xs \<Longrightarrow> f (xs ! i) = Inr (ys ! i)"
  by (induction xs arbitrary: ys i) (auto simp: rbind_Inr_iff nth_Cons split: nat.splits)

lemma rmap_ok: "(\<And>x. x \<in> set xs \<Longrightarrow> f x = Inr (g x)) \<Longrightarrow> rmap f xs = Inr (map g xs)"
  by (induction xs) auto

lemma rmap_cong [fundef_cong]:
  "xs = ys \<Longrightarrow> (\<And>x. x \<in> set ys \<Longrightarrow> f x = g x) \<Longrightarrow> rmap f xs = rmap g ys"
proof (induction ys arbitrary: xs)
  case (Cons y ys)
  then show ?case by (auto intro!: rbind_cong)
qed simp

section \<open>Operations on a mutable receiver\<close>

text \<open>
  \<open>fn f(&mut self, ...) -> Result<T>\<close> is a function from the receiver to the result and the
  receiver it leaves behind; on an error the receiver keeps what was changed before it.
\<close>

type_synonym ('s, 'a) op = "'s \<Rightarrow> 'a result \<times> 's"

definition ret :: "'a \<Rightarrow> ('s, 'a) op" where
  "ret x s = (Inr x, s)"

definition fail :: "error \<Rightarrow> ('s, 'a) op" where
  "fail e s = (Inl e, s)"

definition bindM :: "('s, 'a) op \<Rightarrow> ('a \<Rightarrow> ('s, 'b) op) \<Rightarrow> ('s, 'b) op" where
  "bindM m f s = (case m s of (Inl e, s') \<Rightarrow> (Inl e, s') | (Inr x, s') \<Rightarrow> f x s')"

definition liftR :: "'a result \<Rightarrow> ('s, 'a) op" where
  "liftR r s = (r, s)"

definition getsM :: "('s \<Rightarrow> 'a) \<Rightarrow> ('s, 'a) op" where
  "getsM f s = (Inr (f s), s)"

definition modifyM :: "('s \<Rightarrow> 's) \<Rightarrow> ('s, unit) op" where
  "modifyM f s = (Inr (), f s)"

text \<open>\<open>map_err\<close>, where the closure may look at the receiver as the failure left it.\<close>

definition map_errM :: "('s \<Rightarrow> error \<Rightarrow> error) \<Rightarrow> ('s, 'a) op \<Rightarrow> ('s, 'a) op" where
  "map_errM f m s = (case m s of (Inl e, s') \<Rightarrow> (Inl (f s' e), s') | (Inr x, s') \<Rightarrow> (Inr x, s'))"

text \<open>\<open>for x in xs { ... }\<close> collecting the values pushed, and the loop with no result.\<close>

fun forM :: "'a list \<Rightarrow> ('a \<Rightarrow> ('s, 'b) op) \<Rightarrow> ('s, 'b list) op" where
  "forM [] f = ret []"
| "forM (x # xs) f = bindM (f x) (\<lambda>y. bindM (forM xs f) (\<lambda>ys. ret (y # ys)))"

fun loopM :: "'a list \<Rightarrow> ('a \<Rightarrow> 'b \<Rightarrow> ('s, 'b) op) \<Rightarrow> 'b \<Rightarrow> ('s, 'b) op" where
  "loopM [] f acc = ret acc"
| "loopM (x # xs) f acc = bindM (f x acc) (\<lambda>acc'. loopM xs f acc')"

lemma ret_apply [simp]: "ret x s = (Inr x, s)"
  by (simp add: ret_def)

lemma fail_apply [simp]: "fail e s = (Inl e, s)"
  by (simp add: fail_def)

lemma liftR_apply [simp]: "liftR r s = (r, s)"
  by (simp add: liftR_def)

lemma getsM_apply [simp]: "getsM f s = (Inr (f s), s)"
  by (simp add: getsM_def)

lemma modifyM_apply [simp]: "modifyM f s = (Inr (), f s)"
  by (simp add: modifyM_def)

lemma bindM_ok [simp]: "m s = (Inr x, s') \<Longrightarrow> bindM m f s = f x s'"
  by (simp add: bindM_def)

lemma bindM_err [simp]: "m s = (Inl e, s') \<Longrightarrow> bindM m f s = (Inl e, s')"
  by (simp add: bindM_def)

lemma bindM_Inr_iff:
  "bindM m f s = (Inr y, s'') \<longleftrightarrow> (\<exists>x s'. m s = (Inr x, s') \<and> f x s' = (Inr y, s''))"
  by (cases "m s"; cases "fst (m s)") (auto simp: bindM_def)

lemma bindM_Inl_iff:
  "bindM m f s = (Inl e, s'') \<longleftrightarrow>
     m s = (Inl e, s'') \<or> (\<exists>x s'. m s = (Inr x, s') \<and> f x s' = (Inl e, s''))"
  by (cases "m s"; cases "fst (m s)") (auto simp: bindM_def)

lemma bind_assoc: "bindM (bindM m f) g = bindM m (\<lambda>x. bindM (f x) g)"
  by (auto simp: fun_eq_iff bindM_def split: prod.splits sum.splits)

lemma bind_ret: "bindM (ret x) f = f x"
  by (simp add: fun_eq_iff)

lemma bindM_cong [fundef_cong]:
  assumes "m = m'" and "\<And>x s s'. m' s = (Inr x, s') \<Longrightarrow> f x = f' x"
  shows "bindM m f = bindM m' f'"
  using assms by (auto simp: bindM_def fun_eq_iff split: prod.splits sum.splits)

lemma map_errM_Inr_iff [simp]: "map_errM f m s = (Inr x, s') \<longleftrightarrow> m s = (Inr x, s')"
  by (cases "m s"; cases "fst (m s)") (auto simp: map_errM_def)

lemma map_errM_Inl_iff:
  "map_errM f m s = (Inl e', s') \<longleftrightarrow> (\<exists>e. m s = (Inl e, s') \<and> e' = f s' e)"
  by (cases "m s"; cases "fst (m s)") (auto simp: map_errM_def)

lemma forM_length: "forM xs f s = (Inr ys, s') \<Longrightarrow> length ys = length xs"
  by (induction xs arbitrary: s ys) (auto simp: bindM_Inr_iff)

lemma forM_cong [fundef_cong]:
  "xs = ys \<Longrightarrow> (\<And>x. x \<in> set ys \<Longrightarrow> f x = g x) \<Longrightarrow> forM xs f = forM ys g"
  by (induction ys arbitrary: xs) auto

lemma loopM_append: "loopM (xs @ ys) f acc = bindM (loopM xs f acc) (\<lambda>acc'. loopM ys f acc')"
proof (induction xs arbitrary: acc)
  case (Cons x xs)
  then show ?case by (auto simp: fun_eq_iff bindM_def split: prod.splits sum.splits)
qed (simp add: fun_eq_iff bindM_def)

lemma loopM_map: "loopM (map g ks) f = loopM ks (\<lambda>k. f (g k))"
  by (induction ks) (rule ext, simp)+

section \<open>Lists\<close>

lemma map_upt_shift: "map f [a..<a + n] = map (\<lambda>i. f (a + i)) [0..<n]"
  by (rule nth_equalityI) auto

lemma map_upt_append: "a \<le> b \<Longrightarrow> b \<le> c \<Longrightarrow> map f [a..<b] @ map f [b..<c] = map f [a..<c]"
  by (metis map_append upt_add_eq_append le_iff_add)

text \<open>A slice \<open>data[start..end]\<close> and \<open>data.get(start..end)\<close>.\<close>

definition slice_of :: "'a list \<Rightarrow> nat \<Rightarrow> nat \<Rightarrow> 'a list" where
  "slice_of xs a b = take (b - a) (drop a xs)"

definition get_slice :: "'a list \<Rightarrow> nat \<Rightarrow> nat \<Rightarrow> 'a list option" where
  "get_slice xs a b = (if a \<le> b \<and> b \<le> length xs then Some (slice_of xs a b) else None)"

definition get_at :: "'a list \<Rightarrow> nat \<Rightarrow> 'a option" where
  "get_at xs i = (if i < length xs then Some (xs ! i) else None)"

fun position_of :: "('a \<Rightarrow> bool) \<Rightarrow> 'a list \<Rightarrow> nat option" where
  "position_of P [] = None"
| "position_of P (x # xs) = (if P x then Some 0 else map_option Suc (position_of P xs))"

lemma position_of_less: "position_of P xs = Some i \<Longrightarrow> i < length xs \<and> P (xs ! i)"
  by (induction xs arbitrary: i) (auto split: if_splits)

lemma length_slice [simp]: "b \<le> length xs \<Longrightarrow> length (slice_of xs a b) = b - a"
  by (simp add: slice_of_def)

lemma get_slice_Some: "get_slice xs a b = Some ys \<longleftrightarrow> a \<le> b \<and> b \<le> length xs \<and> ys = slice_of xs a b"
  by (auto simp: get_slice_def)

lemma slice_append_mid [simp]:
  "length xs = a \<Longrightarrow> a + length ys = b \<Longrightarrow> slice_of (xs @ ys @ zs) a b = ys"
  by (auto simp: slice_of_def)

lemma get_at_Some: "get_at xs i = Some x \<longleftrightarrow> i < length xs \<and> x = xs ! i"
  by (auto simp: get_at_def)

end
