(* ===== verification/Bits.thy ===== *)
theory Bits
  imports Wire_Prelude
begin

text \<open>
  The bit reader and bit writer of \<open>core/src/games/sc2/bsn/bits.rs\<close>, the routing header on
  top of them, and the bit-list view that the rest of the development reasons with.

  \<open>BitReader\<close> and \<open>BitWriter\<close> are records with the fields of the structs; their methods are
  operations on the record.  A byte holds eight stream positions, least significant bit
  first; an integer field is cut at byte borders and its high chunk comes first
  (\<open>field_bits\<close>).
\<close>

section \<open>State and operations\<close>

record reader =
  rdata :: bytes
  rbit_count :: nat
  rposition :: nat

record writer =
  wdata :: bytes
  wposition :: nat

abbreviation bit_error :: "bsn_reason \<Rightarrow> error" where
  "bit_error r \<equiv> BsnWire r"

definition reader_new :: "bytes \<Rightarrow> nat option \<Rightarrow> reader result" where
  "reader_new data bit_count =
     (let n = (case bit_count of None \<Rightarrow> length data * 8 | Some n \<Rightarrow> n) in
      if n > length data * 8 then Inl (bit_error BitCountOutsideBuffer)
      else Inr \<lparr>rdata = data, rbit_count = n, rposition = 0\<rparr>)"

definition remaining :: "reader \<Rightarrow> nat" where
  "remaining r = rbit_count r - rposition r"

definition set_position :: "nat \<Rightarrow> (reader, unit) op" where
  "set_position p r =
     (if p > rbit_count r then (Inl (IncompleteFrame (SeekPastEnd p (rbit_count r))), r)
      else (Inr (), r\<lparr>rposition := p\<rparr>))"

text \<open>The loop of \<open>read\<close>: data, position, bits still to read, value so far.\<close>

function read_loop :: "bytes \<Rightarrow> nat \<Rightarrow> nat \<Rightarrow> u64 \<Rightarrow> (u64 \<times> nat) result" where
  "read_loop data pos rem val =
     (if rem = 0 then Inr (val, pos)
      else let byte_index = pos div 8; bit_offset = pos mod 8; tk = min rem (8 - bit_offset);
               mask = push_bit tk 1 - (1 :: u16) in
        if byte_index < length data
        then let chunk = drop_bit bit_offset (ucast (data ! byte_index)) AND mask in
             read_loop data (pos + tk) (rem - tk) (push_bit tk val OR ucast chunk)
        else Inl (Panic IndexOutOfBounds))"
  by pat_completeness auto
termination
  by (relation "measure (\<lambda>(data, pos, rem, val). rem)") (auto simp: Let_def min_def)

definition read_bits :: "nat \<Rightarrow> (reader, u64) op" where
  "read_bits width r =
     (if width > 64 then (Inl (bit_error WiderThan64), r)
      else if width > remaining r
      then (Inl (IncompleteFrame (NeedBits width (rposition r) (remaining r))), r)
      else case read_loop (rdata r) (rposition r) width 0 of
             Inl e \<Rightarrow> (Inl e, r)
           | Inr (val, pos) \<Rightarrow> (Inr val, r\<lparr>rposition := pos\<rparr>))"

text \<open>\<open>position.wrapping_neg() & 7\<close>\<close>

definition align_skip :: "nat \<Rightarrow> nat" where
  "align_skip pos = unat ((- (of_nat pos :: u64)) AND 7)"

definition reader_align :: "(reader, nat) op" where
  "reader_align r =
     (let skipped = align_skip (rposition r) in
      if skipped > 0 then bindM (read_bits skipped) (\<lambda>_. ret skipped) r else (Inr skipped, r))"

definition writer_new :: writer where
  "writer_new = \<lparr>wdata = [], wposition = 0\<rparr>"

definition ensure_capacity :: "nat \<Rightarrow> bytes \<Rightarrow> bytes" where
  "ensure_capacity bit_count data =
     data @ replicate (max (div_ceil bit_count 8) (length data) - length data) 0"

function write_loop :: "bytes \<Rightarrow> nat \<Rightarrow> nat \<Rightarrow> u64 \<Rightarrow> (bytes \<times> nat) result" where
  "write_loop data pos rem val =
     (if rem = 0 then Inr (data, pos)
      else let byte_index = pos div 8; bit_offset = pos mod 8; tk = min rem (8 - bit_offset);
               shift = rem - tk;
               mask = (ucast (push_bit tk 1 - (1 :: u16)) :: u8);
               chunk = (ucast (drop_bit shift val AND ucast mask) :: u8) in
        if byte_index < length data
        then let cleared = data[byte_index := (data ! byte_index) AND NOT (push_bit bit_offset mask)];
                 stored = cleared[byte_index := (cleared ! byte_index) OR push_bit bit_offset chunk] in
             write_loop stored (pos + tk) (rem - tk) val
        else Inl (Panic IndexOutOfBounds))"
  by pat_completeness auto
termination
  by (relation "measure (\<lambda>(data, pos, rem, val). rem)") (auto simp: Let_def min_def)

definition write_bits :: "u64 \<Rightarrow> nat \<Rightarrow> (writer, unit) op" where
  "write_bits val width w =
     (if width > 64 then (Inl (bit_error WiderThan64), w)
      else if width < 64 \<and> val \<ge> push_bit width 1
      then (Inl (bit_error (ValueDoesNotFit (unat val) width)), w)
      else case write_loop (ensure_capacity (wposition w + width) (wdata w)) (wposition w) width val of
             Inl e \<Rightarrow> (Inl e, w)
           | Inr (data, pos) \<Rightarrow> (Inr (), w\<lparr>wdata := data, wposition := pos\<rparr>))"

text \<open>The loop of \<open>write_raw\<close>, over the source positions.\<close>

definition write_raw_bit :: "bytes \<Rightarrow> nat \<Rightarrow> (writer, unit) op" where
  "write_raw_bit source sp w =
     (if sp div 8 < length source
      then let b = drop_bit (sp mod 8) (source ! (sp div 8)) AND 1 in
        if b \<noteq> 0
        then if wposition w div 8 < length (wdata w)
             then (Inr (), w\<lparr>wdata := (wdata w)[wposition w div 8 :=
                      (wdata w ! (wposition w div 8)) OR push_bit (wposition w mod 8) 1],
                    wposition := wposition w + 1\<rparr>)
             else (Inl (Panic IndexOutOfBounds), w)
        else (Inr (), w\<lparr>wposition := wposition w + 1\<rparr>)
      else (Inl (Panic IndexOutOfBounds), w))"

definition write_raw :: "bytes \<Rightarrow> nat option \<Rightarrow> (writer, unit) op" where
  "write_raw data bit_count w =
     (let n = (case bit_count of None \<Rightarrow> length data * 8 | Some n \<Rightarrow> n) in
      if n > length data * 8 then (Inl (bit_error BitCountOutsideBuffer), w)
      else loopM [0..<n] (\<lambda>sp _. write_raw_bit data sp) ()
             (w\<lparr>wdata := ensure_capacity (wposition w + n) (wdata w)\<rparr>))"

definition writer_align :: "(writer, nat) op" where
  "writer_align w =
     (let padding = align_skip (wposition w) in
      if padding > 0 then bindM (write_bits 0 padding) (\<lambda>_. ret padding) w else (Inr padding, w))"

definition write_bytes_here :: "bytes \<Rightarrow> (writer, unit) op" where
  "write_bytes_here data w =
     (if wposition w mod 8 = 0
      then let buf = ensure_capacity (wposition w + length data * 8) (wdata w);
               start = wposition w div 8 in
        if start + length data \<le> length buf
        then (Inr (), w\<lparr>wdata := take start buf @ data @ drop (start + length data) buf,
                        wposition := wposition w + length data * 8\<rparr>)
        else (Inl (Panic SliceOutOfBounds), w)
      else write_raw data None w)"

definition write_bytes :: "bytes \<Rightarrow> bool \<Rightarrow> (writer, unit) op" where
  "write_bytes data aligned =
     (if aligned then bindM writer_align (\<lambda>_. write_bytes_here data) else write_bytes_here data)"

definition as_bytes :: "writer \<Rightarrow> bytes" where
  "as_bytes w = take (div_ceil (wposition w) 8) (wdata w)"

definition into_bytes :: "writer \<Rightarrow> bytes" where
  "into_bytes w = take (div_ceil (wposition w) 8) (wdata w)"

text \<open>\<open>read_raw\<close> copies bit by bit through a fresh writer.\<close>

definition read_raw_bit :: "writer \<Rightarrow> (reader, writer) op" where
  "read_raw_bit w = bindM (read_bits 1) (\<lambda>b r. (case write_bits b 1 w of
       (Inl e, _) \<Rightarrow> (Inl e, r) | (Inr _, w') \<Rightarrow> (Inr w', r)))"

definition read_raw :: "nat \<Rightarrow> (reader, bytes) op" where
  "read_raw bit_count =
     bindM (loopM [0..<bit_count] (\<lambda>_ w. read_raw_bit w) writer_new) (\<lambda>w. ret (into_bytes w))"

text \<open>
  \<open>read_bytes\<close> after the optional alignment.  The products with 8 wrap in a release build;
  a byte count that large makes the slice fail.
\<close>

definition read_bytes_here :: "nat \<Rightarrow> (reader, bytes) op" where
  "read_bytes_here byte_count r =
     (if rposition r mod 8 = 0
      then let start = rposition r div 8 in
        case checked_add64 start byte_count of
          None \<Rightarrow> (Inl (bit_error ByteCountOverflows), r)
        | Some end \<Rightarrow>
            if wrap64 (end * 8) > rbit_count r
            then (Inl (IncompleteFrame (NeedBits (wrap64 (byte_count * 8)) (rposition r) (remaining r))), r)
            else let r' = r\<lparr>rposition := wrap64 (end * 8)\<rparr> in
              (case get_slice (rdata r) start end of
                 None \<Rightarrow> (Inl (Panic SliceOutOfBounds), r')
               | Some bs \<Rightarrow> (Inr bs, r'))
      else read_raw (wrap64 (byte_count * 8)) r)"

definition read_bytes :: "nat \<Rightarrow> bool \<Rightarrow> (reader, bytes) op" where
  "read_bytes byte_count aligned =
     (if aligned then bindM reader_align (\<lambda>_. read_bytes_here byte_count)
      else read_bytes_here byte_count)"

section \<open>Routing header\<close>

record routing_header =
  command_id :: u8
  service_slot :: "u8 option"
  header_bit_count :: nat

definition has_service :: "routing_header \<Rightarrow> bool" where
  "has_service h = (service_slot h \<noteq> None)"

text \<open>The writing part, on a writer, as \<open>encode_routing_header\<close> runs it.\<close>

definition write_routing_header :: "u8 \<Rightarrow> u8 option \<Rightarrow> (writer, unit) op" where
  "write_routing_header cmd slot =
     bindM (write_bits (ucast cmd) 6) (\<lambda>_.
     bindM (write_bits (if slot \<noteq> None then 1 else 0) 1) (\<lambda>_.
     case slot of None \<Rightarrow> ret () | Some s \<Rightarrow> write_bits (ucast s) 4))"

definition encode_routing_header :: "u8 \<Rightarrow> u8 option \<Rightarrow> (bytes \<times> nat) result" where
  "encode_routing_header cmd slot =
     (if cmd > 0x3f then Inl (bit_error CommandIdTooWide)
      else if (case slot of None \<Rightarrow> False | Some s \<Rightarrow> s > 0x0f) then Inl (bit_error ServiceSlotTooWide)
      else case write_routing_header cmd slot writer_new of
             (Inl e, _) \<Rightarrow> Inl e
           | (Inr _, w) \<Rightarrow> Inr (into_bytes w, wposition w))"

text \<open>The reading part, on a reader, as \<open>decode_routing_header\<close> runs it.\<close>

definition read_routing_header :: "(reader, routing_header) op" where
  "read_routing_header =
     bindM (read_bits 6) (\<lambda>cmd.
     bindM (read_bits 1) (\<lambda>explicit.
     bindM (if explicit \<noteq> 0 then bindM (read_bits 4) (\<lambda>s. ret (Some (ucast s :: u8))) else ret None)
       (\<lambda>slot. bindM (getsM rposition) (\<lambda>p.
     ret \<lparr>command_id = ucast cmd, service_slot = slot, header_bit_count = p\<rparr>))))"

definition decode_routing_header :: "bytes \<Rightarrow> nat option \<Rightarrow> routing_header result" where
  "decode_routing_header data bit_count =
     rbind (reader_new data bit_count) (\<lambda>r. fst (read_routing_header r))"

definition concat_bits :: "(bytes \<times> nat) list \<Rightarrow> (bytes \<times> nat) result" where
  "concat_bits parts =
     (case loopM parts (\<lambda>(data, n) _. write_raw data (Some n)) () writer_new of
        (Inl e, _) \<Rightarrow> Inl e
      | (Inr _, w) \<Rightarrow> Inr (into_bytes w, wposition w))"

definition strip_routing_header ::
    "bytes \<Rightarrow> nat option \<Rightarrow> (routing_header \<times> bytes \<times> nat) result" where
  "strip_routing_header data bit_count =
     (let total = (case bit_count of None \<Rightarrow> length data * 8 | Some n \<Rightarrow> n) in
      rbind (decode_routing_header data (Some total)) (\<lambda>h.
      let payload = total - header_bit_count h in
      rbind (reader_new data (Some total)) (\<lambda>r.
      rbind (fst (bindM (set_position (header_bit_count h)) (\<lambda>_. read_raw payload) r)) (\<lambda>bs.
      Inr (h, bs, payload)))))"

declare read_loop.simps [simp del] write_loop.simps [simp del]

section \<open>The bit-list view\<close>

text \<open>
  A byte buffer is a sequence of bits, least significant bit of each byte first.  A reader
  stands for the bits it has not read, a writer for the bits it has written.
\<close>

definition bit_at :: "bytes \<Rightarrow> nat \<Rightarrow> bool" where
  "bit_at data i = bit (data ! (i div 8)) (i mod 8)"

definition raw_bits :: "bytes \<Rightarrow> nat \<Rightarrow> bool list" where
  "raw_bits data n = map (bit_at data) [0..<n]"

definition rbits :: "reader \<Rightarrow> bool list" where
  "rbits r = map (bit_at (rdata r)) [rposition r..<rbit_count r]"

definition wbits :: "writer \<Rightarrow> bool list" where
  "wbits w = raw_bits (wdata w) (wposition w)"

definition wf_reader :: "reader \<Rightarrow> bool" where
  "wf_reader r \<longleftrightarrow> rposition r \<le> rbit_count r \<and> rbit_count r \<le> 8 * length (rdata r)
     \<and> rbit_count r < 2 ^ 63"

definition wf_writer :: "writer \<Rightarrow> bool" where
  "wf_writer w \<longleftrightarrow> length (wdata w) = div_ceil (wposition w) 8 \<and>
     (\<forall>i. wposition w \<le> i \<and> i < 8 * length (wdata w) \<longrightarrow> \<not> bit_at (wdata w) i)"

text \<open>The bits an integer field of the given width occupies at a stream position.\<close>

function field_bits :: "nat \<Rightarrow> nat \<Rightarrow> u64 \<Rightarrow> bool list" where
  "field_bits pos rem val =
     (if rem = 0 then []
      else let tk = min rem (8 - pos mod 8) in
        map (\<lambda>j. bit val (rem - tk + j)) [0..<tk] @ field_bits (pos + tk) (rem - tk) val)"
  by pat_completeness auto
termination
  by (relation "measure (\<lambda>(pos, rem, val). rem)") (auto simp: Let_def min_def)

declare field_bits.simps [simp del]

definition fits :: "nat \<Rightarrow> u64 \<Rightarrow> bool" where
  "fits width val \<longleftrightarrow> width \<le> 64 \<and> (\<forall>i. bit val i \<longrightarrow> i < width)"

named_theorems bits_defs \<open>definitions of the bit-list view\<close>

lemmas [bits_defs] = raw_bits_def rbits_def wbits_def wf_reader_def wf_writer_def remaining_def

lemma length_raw_bits [simp]: "length (raw_bits data n) = n"
  by (simp add: raw_bits_def)

lemma length_rbits: "length (rbits r) = remaining r"
  by (simp add: bits_defs)

lemma length_wbits [simp]: "length (wbits w) = wposition w"
  by (simp add: wbits_def)

lemma nth_raw_bits [simp]: "i < n \<Longrightarrow> raw_bits data n ! i = bit_at data i"
  by (simp add: raw_bits_def)

lemma length_field_bits [simp]: "length (field_bits pos rem val) = rem"
proof (induction pos rem val rule: field_bits.induct)
  case (1 pos rem val)
  then show ?case
    by (subst field_bits.simps) (auto simp: Let_def min_def)
qed

lemma field_bits_mod: "pos mod 8 = pos' mod 8 \<Longrightarrow> field_bits pos rem val = field_bits pos' rem val"
proof (induction pos rem val arbitrary: pos' rule: field_bits.induct)
  case (1 pos rem val)
  show ?case
  proof (cases "rem = 0")
    case False
    let ?tk = "min rem (8 - pos mod 8)"
    have "(pos + ?tk) mod 8 = (pos' + ?tk) mod 8"
      using "1.prems" by (metis mod_add_left_eq)
    then have "field_bits (pos + ?tk) (rem - ?tk) val = field_bits (pos' + ?tk) (rem - ?tk) val"
      using "1.IH"[OF False refl] by blast
    then show ?thesis
      using "1.prems" False by (simp add: field_bits.simps[of pos] field_bits.simps[of pos'] Let_def)
  qed (simp add: field_bits.simps)
qed

lemma fits_unat: "fits width val \<longleftrightarrow> width \<le> 64 \<and> unat val < 2 ^ width"
proof (cases "width \<le> 64")
  case True
  have "unat val < 2 ^ width \<longleftrightarrow> unat (take_bit width val) = unat val"
    by (simp add: unsigned_take_bit_eq take_bit_nat_eq_self_iff)
  also have "\<dots> \<longleftrightarrow> take_bit width val = val"
    by (simp add: word_unat_eq_iff)
  also have "\<dots> \<longleftrightarrow> (\<forall>i. bit val i \<longrightarrow> i < width)"
    by (auto simp: bit_eq_iff bit_take_bit_iff) (use bit_imp_le_length[of val] in fastforce)
  finally show ?thesis
    by (simp add: fits_def True)
qed (simp add: fits_def)

lemma fits_take_bit: "fits width val \<Longrightarrow> take_bit width val = val"
  by (rule bit_word_eqI) (auto simp: fits_def bit_take_bit_iff)

lemma fits_64 [simp]: "fits 64 val"
  using bit_imp_le_length by (fastforce simp: fits_def)

lemma bit_mask_16: "tk \<le> 8 \<Longrightarrow> bit (2 ^ tk - 1 :: u16) j \<longleftrightarrow> j < tk"
  using bit_mask_iff[where 'a = "16 word", of tk j] by (auto simp: mask_eq_exp_minus_1)

lemma same_byte:
  assumes j: "j < 8 - pos mod (8::nat)"
  shows "(pos + j) div 8 = pos div 8" and "(pos + j) mod 8 = pos mod 8 + j"
proof -
  obtain q m where pos: "pos = m + q * 8" and m: "m < 8"
    by (metis mod_div_mult_eq mod_less_divisor zero_less_numeral)
  show "(pos + j) div 8 = pos div 8" and "(pos + j) mod 8 = pos mod 8 + j"
    using j m mod_mult_self1[of "m + j" q 8] div_mult_self1[of 8 "m + j" q]
    by (simp_all add: pos add.assoc[symmetric] add.commute[of _ j])
qed

lemma bit_at_in_byte: "j < 8 - pos mod 8 \<Longrightarrow> bit_at data (pos + j) = bit (data ! (pos div 8)) (pos mod 8 + j)"
  by (simp add: bit_at_def same_byte)

subsection \<open>Reading\<close>

lemma read_chunk:
  assumes "tk \<le> 8 - pos mod 8" and "\<forall>j < tk. bit_at data (pos + j) = bit val (sh + j)" and "sh + tk \<le> 64"
  shows "(ucast (drop_bit (pos mod 8) (ucast (data ! (pos div 8)) :: u16) AND (push_bit tk 1 - 1)) :: u64)
           = take_bit tk (drop_bit sh val)"
proof (rule bit_word_eqI)
  fix n assume n: "n < LENGTH(64)"
  have tk: "tk \<le> 8"
    using assms(1) by simp
  show "bit (ucast (drop_bit (pos mod 8) (ucast (data ! (pos div 8)) :: u16) AND (push_bit tk 1 - 1)) :: u64) n
      = bit (take_bit tk (drop_bit sh val)) n"
  proof (cases "n < tk")
    case True
    then have "bit (data ! (pos div 8)) (pos mod 8 + n) = bit val (sh + n)"
      using assms(1,2) bit_at_in_byte[of n pos data] by auto
    moreover have "pos mod 8 + n < 8"
      using True assms(1) by simp
    ultimately show ?thesis
      using n True tk by (simp add: bit_simps bit_mask_16)
  next
    case False
    then show ?thesis
      using tk by (simp add: bit_simps bit_mask_16)
  qed
qed

lemma read_loop_field:
  assumes "pos + rem \<le> 8 * length data" and "rem \<le> 64"
    and "map (bit_at data) [pos..<pos + rem] = field_bits pos rem val"
  shows "read_loop data pos rem acc = Inr (push_bit rem acc OR take_bit rem val, pos + rem)"
  using assms
proof (induction data pos rem acc rule: read_loop.induct)
  case (1 data pos rem acc)
  show ?case
  proof (cases "rem = 0")
    case True
    then show ?thesis
      by (simp add: read_loop.simps)
  next
    case False
    define tk where "tk = min rem (8 - pos mod 8)"
    define sh where "sh = rem - tk"
    have tk: "0 < tk" "tk \<le> rem" "tk \<le> 8 - pos mod 8"
      using False by (auto simp: tk_def)
    have byte: "pos div 8 < length data"
      using "1.prems"(1) False by (simp add: less_mult_imp_div_less)
    have split: "map (bit_at data) [pos..<pos + tk] @ map (bit_at data) [pos + tk..<pos + rem]
        = map (\<lambda>j. bit val (sh + j)) [0..<tk] @ field_bits (pos + tk) sh val"
      using "1.prems"(3) False tk
      by (subst (asm) field_bits.simps) (simp add: Let_def tk_def[symmetric] sh_def map_upt_append)
    have front: "map (bit_at data) [pos..<pos + tk] = map (\<lambda>j. bit val (sh + j)) [0..<tk]"
      and rest: "map (bit_at data) [pos + tk..<(pos + tk) + sh] = field_bits (pos + tk) sh val"
      using append_eq_append_conv[THEN iffD1, OF _ split] tk by (auto simp: sh_def)
    have at: "\<forall>j < tk. bit_at data (pos + j) = bit val (sh + j)"
      using front by (auto simp: map_upt_shift list_eq_iff_nth_eq)
    have "read_loop data pos rem acc
        = read_loop data (pos + tk) sh (push_bit tk acc OR take_bit tk (drop_bit sh val))"
      using False byte read_chunk[OF tk(3) at] tk "1.prems"(2)
      by (subst read_loop.simps) (simp add: Let_def tk_def[symmetric] sh_def)
    also have "\<dots> = Inr (push_bit sh (push_bit tk acc OR take_bit tk (drop_bit sh val)) OR take_bit sh val,
        pos + tk + sh)"
      using "1.IH"[OF False refl refl tk_def refl byte refl, folded sh_def]
        read_chunk[OF tk(3) at] tk "1.prems"(1,2) rest
      by (simp add: sh_def)
    also have "push_bit sh (push_bit tk acc OR take_bit tk (drop_bit sh val)) OR take_bit sh val
        = push_bit rem acc OR take_bit rem val"
      using tk by (intro bit_word_eqI) (auto simp: bit_simps sh_def)
    finally show ?thesis
      using tk by (simp add: sh_def)
  qed
qed

lemma field_bits_take_bit:
  "rem \<le> n \<Longrightarrow> field_bits pos rem (take_bit n val) = field_bits pos rem val"
proof (induction pos rem val rule: field_bits.induct)
  case (1 pos rem val)
  show ?case
  proof (cases "rem = 0")
    case False
    then show ?thesis
      using "1.IH"[OF False refl] "1.prems"
      by (subst (1 2) field_bits.simps) (auto simp: Let_def bit_take_bit_iff)
  qed (simp add: field_bits.simps)
qed

lemma field_bits_high:
  "rem \<le> n \<Longrightarrow> field_bits pos rem (val OR push_bit n w) = field_bits pos rem val"
  using field_bits_take_bit[of rem n pos "val OR push_bit n w"] field_bits_take_bit[of rem n pos val]
  by (simp add: take_bit_push_bit)

lemma field_bits_surj:
  "length bs \<le> 64 \<Longrightarrow> \<exists>val. fits (length bs) val \<and> field_bits pos (length bs) val = bs"
proof (induction "length bs" arbitrary: bs pos rule: less_induct)
  case less
  show ?case
  proof (cases "bs = []")
    case True
    then show ?thesis
      by (intro exI[of _ 0]) (simp add: fits_def field_bits.simps)
  next
    case False
    define tk where "tk = min (length bs) (8 - pos mod 8)"
    define front where "front = take tk bs"
    define rest where "rest = drop tk bs"
    have tk: "0 < tk" "tk \<le> length bs" "tk \<le> 8"
      using False by (auto simp: tk_def)
    have lens: "length front = tk" "length rest = length bs - tk"
      using tk by (auto simp: front_def rest_def)
    have glue: "front @ rest = bs"
      by (simp add: front_def rest_def)
    obtain low where low: "fits (length rest) low" "field_bits (pos + tk) (length rest) low = rest"
    proof -
      have "length rest < length bs" and "length rest \<le> 64"
        using less.prems tk lens(2) by linarith+
      then show thesis
        using less.hyps[of rest "pos + tk"] that by blast
    qed
    define val where "val = low OR push_bit (length rest) (horner_sum of_bool 2 front :: u64)"
    have bit_val: "bit val i \<longleftrightarrow> (if i < length rest then bit low i
        else i < length bs \<and> front ! (i - length rest))" for i
    proof (cases "i < 64")
      case True
      have "bit low i \<Longrightarrow> i < length rest"
        using low(1) by (simp add: fits_def)
      moreover have "bit (horner_sum of_bool 2 front :: u64) j \<longleftrightarrow> j < tk \<and> front ! j" for j
        using tk by (simp add: bit_horner_sum_bit_word_iff lens(1))
      moreover have "i - length rest < tk \<longleftrightarrow> i < length bs" if "length rest \<le> i"
        using that lens tk by linarith
      ultimately show ?thesis
        using True by (auto simp: val_def bit_or_iff bit_push_bit_iff)
    next
      case False
      then show ?thesis
        using lens tk less.prems bit_imp_le_length[of val i] by auto
    qed
    have bit_front: "bit val (length rest + j) = front ! j" if "j < tk" for j
    proof -
      have "length rest + j < length bs"
        using that lens tk by linarith
      then show ?thesis
        by (simp add: bit_val)
    qed
    have high: "bit val i \<Longrightarrow> i < length bs" for i
      using lens by (simp add: bit_val split: if_splits)
    have "map (\<lambda>j. bit val (length rest + j)) [0..<tk] = front"
      using bit_front lens(1) by (intro nth_equalityI) auto
    moreover have "field_bits (pos + tk) (length rest) val = rest"
      using low(2) by (simp add: val_def field_bits_high)
    moreover have "field_bits pos (length bs) val
        = map (\<lambda>j. bit val (length rest + j)) [0..<tk] @ field_bits (pos + tk) (length rest) val"
      by (subst field_bits.simps) (simp add: Let_def tk_def[symmetric] lens(2) \<open>bs \<noteq> []\<close>)
    ultimately have "field_bits pos (length bs) val = bs"
      by (simp only: glue)
    then show ?thesis
      using high less.prems by (auto simp: fits_def)
  qed
qed

lemma read_bits_ok:
  assumes "wf_reader r" and "width \<le> 64"
    and "rbits r = field_bits (rposition r) width val @ rest"
  shows "read_bits width r = (Inr (take_bit width val), r\<lparr>rposition := rposition r + width\<rparr>)"
proof -
  have len: "width \<le> remaining r"
    using assms(3) by (metis length_append length_field_bits length_rbits le_add1)
  have "map (bit_at (rdata r)) [rposition r..<rposition r + width] = take width (rbits r)"
    using len by (intro nth_equalityI) (auto simp: bits_defs)
  also have "\<dots> = field_bits (rposition r) width val"
    by (simp add: assms(3))
  finally have "read_loop (rdata r) (rposition r) width 0 = Inr (take_bit width val, rposition r + width)"
    using assms(1,2) len by (subst read_loop_field) (auto simp: bits_defs)
  then show ?thesis
    using assms(2) len by (simp add: read_bits_def)
qed

lemma read_bits_field:
  "wf_reader r \<Longrightarrow> fits width val \<Longrightarrow> rbits r = field_bits (rposition r) width val @ rest \<Longrightarrow>
     read_bits width r = (Inr val, r\<lparr>rposition := rposition r + width\<rparr>)"
  using read_bits_ok[of r width val rest] by (simp add: fits_take_bit) (simp add: fits_def)

lemma read_bits_success:
  assumes "wf_reader r" and "width \<le> 64" and "width \<le> remaining r"
  obtains val where "read_bits width r = (Inr val, r\<lparr>rposition := rposition r + width\<rparr>)"
    and "fits width val" and "field_bits (rposition r) width val = take width (rbits r)"
proof -
  have "length (take width (rbits r)) = width"
    using assms(3) by (simp add: length_rbits)
  then obtain val where "fits width val" and "field_bits (rposition r) width val = take width (rbits r)"
    using field_bits_surj[of "take width (rbits r)" "rposition r"] assms(2) by auto
  then show thesis
    using that read_bits_field[OF assms(1), of width val "drop width (rbits r)"] by auto
qed

lemma wf_reader_advance:
  "wf_reader r \<Longrightarrow> n \<le> remaining r \<Longrightarrow> wf_reader (r\<lparr>rposition := rposition r + n\<rparr>)"
  by (auto simp: bits_defs)

lemma rbits_advance:
  "wf_reader r \<Longrightarrow> rbits (r\<lparr>rposition := rposition r + n\<rparr>) = drop n (rbits r)"
  by (simp add: rbits_def drop_map)

subsection \<open>Writing\<close>

lemma bit_at_update:
  "i < 8 * length data \<Longrightarrow> k < length data \<Longrightarrow>
     bit_at (data[k := b]) i = (if i div 8 = k then bit b (i mod 8) else bit_at data i)"
  by (auto simp: bit_at_def)

lemma same_byte_order:
  assumes "i div 8 = pos div (8::nat)"
  shows "pos \<le> i \<longleftrightarrow> pos mod 8 \<le> i mod 8" and "i - pos = i mod 8 - pos mod 8"
proof -
  have "i = i div 8 * 8 + i mod 8" and "pos = i div 8 * 8 + pos mod 8"
    using assms by (metis div_mult_mod_eq)+
  then show "pos \<le> i \<longleftrightarrow> pos mod 8 \<le> i mod 8" and "i - pos = i mod 8 - pos mod 8"
    by linarith+
qed

lemma store_chunk:
  fixes data :: bytes and val :: u64
  assumes "pos div 8 < length data" and "tk \<le> 8 - pos mod 8" and "sh + tk \<le> 64"
    and "i < 8 * length data"
    and "msk = (ucast (2 ^ tk - 1 :: u16) :: u8)"
    and "chunk = (ucast (drop_bit sh val AND ucast msk) :: u8)"
  shows "bit_at (data[pos div 8 := (data ! (pos div 8) AND NOT (push_bit (pos mod 8) msk))
             OR push_bit (pos mod 8) chunk]) i
       = (if pos \<le> i \<and> i < pos + tk then bit val (sh + (i - pos)) else bit_at data i)"
proof (cases "i div 8 = pos div 8")
  case True
  note order = same_byte_order[OF True]
  have tk: "tk \<le> 8" and m: "i mod 8 < 8"
    using assms(2) by simp_all
  have msk: "bit msk j \<longleftrightarrow> j < tk" for j
    using tk by (simp add: assms(5) bit_unsigned_iff bit_mask_16) linarith
  have chunk: "bit chunk j \<longleftrightarrow> j < tk \<and> bit val (sh + j)" for j
    using tk by (simp add: assms(6) bit_unsigned_iff bit_and_iff bit_drop_bit_eq msk) linarith
  have inside: "i < pos + tk \<longleftrightarrow> i mod 8 - pos mod 8 < tk" if "pos \<le> i"
    using that order by linarith
  let ?b = "(data ! (pos div 8) AND NOT (push_bit (pos mod 8) msk)) OR push_bit (pos mod 8) chunk"
  have "bit ?b n \<longleftrightarrow> (if off \<le> n \<and> n - off < tk
      then bit val (sh + (n - off)) else bit (data ! (pos div 8)) n)"
    if "off = pos mod 8" and "n < 8" for off n
    using that(2) by (cases "off \<le> n")
      (auto simp: bit_or_iff bit_and_iff bit_not_iff bit_push_bit_iff msk chunk that(1)[symmetric])
  from this[OF refl m] have "bit ?b (i mod 8) \<longleftrightarrow> (if pos \<le> i \<and> i < pos + tk
      then bit val (sh + (i - pos)) else bit (data ! (pos div 8)) (i mod 8))"
    using inside order by (metis (full_types))
  then show ?thesis
    using assms(1,4) True by (simp add: bit_at_update bit_at_def)
next
  case False
  have "\<not> (pos \<le> i \<and> i < pos + tk)"
  proof
    assume "pos \<le> i \<and> i < pos + tk"
    then have "i - pos < 8 - pos mod 8" and "i = pos + (i - pos)"
      using assms(2) by linarith+
    then have "i div 8 = pos div 8"
      using same_byte(1)[of "i - pos" pos] by simp
    then show False using False by simp
  qed
  then show ?thesis
    using assms(1,4) False by (auto simp: bit_at_update)
qed


lemma write_loop_field:
  fixes data :: bytes and val :: u64
  assumes "pos + rem \<le> 8 * length data" and "rem \<le> 64"
  shows "\<exists>data'. write_loop data pos rem val = Inr (data', pos + rem) \<and> length data' = length data
     \<and> (\<forall>i < 8 * length data. i < pos \<or> pos + rem \<le> i \<longrightarrow> bit_at data' i = bit_at data i)
     \<and> map (bit_at data') [pos..<pos + rem] = field_bits pos rem val"
  using assms
proof (induction data pos rem val rule: write_loop.induct)
  case (1 data pos rem val)
  show ?case
  proof (cases "rem = 0")
    case True
    then show ?thesis
      by (simp add: write_loop.simps field_bits.simps)
  next
    case False
    define tk where "tk = min rem (8 - pos mod 8)"
    define sh where "sh = rem - tk"
    define msk where "msk = (ucast (2 ^ tk - 1 :: u16) :: u8)"
    define chunk where "chunk = (ucast (drop_bit sh val AND ucast msk) :: u8)"
    define stored where "stored = data[pos div 8 :=
        (data ! (pos div 8) AND NOT (push_bit (pos mod 8) msk)) OR push_bit (pos mod 8) chunk]"
    have tk: "0 < tk" "tk \<le> rem" "tk \<le> 8 - pos mod 8" "sh + tk \<le> 64" "tk + sh = rem"
      using False "1.prems"(2) by (auto simp: tk_def sh_def)
    have byte: "pos div 8 < length data"
      using "1.prems"(1) False by (simp add: less_mult_imp_div_less)
    note store = store_chunk[OF byte tk(3,4) _ msk_def chunk_def, folded stored_def]
    have step: "write_loop data pos rem val = write_loop stored (pos + tk) sh val"
      using False byte
      by (subst write_loop.simps) (simp add: Let_def tk_def[symmetric] sh_def msk_def chunk_def stored_def)
    have len: "length stored = length data"
      by (simp add: stored_def)
    have "\<exists>data'. write_loop stored (pos + tk) sh val = Inr (data', pos + tk + sh)
       \<and> length data' = length stored
       \<and> (\<forall>i < 8 * length stored. i < pos + tk \<or> pos + tk + sh \<le> i \<longrightarrow> bit_at data' i = bit_at stored i)
       \<and> map (bit_at data') [pos + tk..<pos + tk + sh] = field_bits (pos + tk) sh val"
      using "1.IH"[OF False refl refl tk_def sh_def refl refl byte refl refl] "1.prems" tk(1,2) len
      by (simp add: msk_def[symmetric] chunk_def[symmetric] stored_def[symmetric] Let_def)
        (simp add: sh_def)
    then obtain data' where data': "write_loop stored (pos + tk) sh val = Inr (data', pos + rem)"
      "length data' = length data"
      "\<And>i. i < 8 * length data \<Longrightarrow> i < pos + tk \<or> pos + rem \<le> i \<Longrightarrow> bit_at data' i = bit_at stored i"
      "map (bit_at data') [pos + tk..<pos + rem] = field_bits (pos + tk) sh val"
      using len tk(5) by (auto simp: add.assoc)
    have keep: "bit_at data' i = bit_at data i" if "i < 8 * length data" "i < pos \<or> pos + rem \<le> i" for i
      using that data'(3)[of i] store[of i] tk by auto
    have "bit_at data' (pos + j) = bit val (sh + j)" if "j < tk" for j
      using that data'(3)[of "pos + j"] store[of "pos + j"] tk "1.prems"(1) by simp
    then have "map (bit_at data') [pos..<pos + tk] = map (\<lambda>j. bit val (sh + j)) [0..<tk]"
      by (simp add: map_upt_shift)
    then have "map (bit_at data') [pos..<pos + rem] = field_bits pos rem val"
      using False tk data'(4) map_upt_append[of pos "pos + tk" "pos + rem" "bit_at data'"]
      by (subst field_bits.simps) (simp add: Let_def tk_def[symmetric] sh_def[symmetric])
    then show ?thesis
      using step data'(1,2) keep by auto
  qed
qed

lemma length_ensure_capacity [simp]:
  "length (ensure_capacity n data) = max (div_ceil n 8) (length data)"
  by (simp add: ensure_capacity_def)

lemma bit_at_ensure_capacity:
  "i < 8 * length (ensure_capacity n data) \<Longrightarrow>
     bit_at (ensure_capacity n data) i = (i < 8 * length data \<and> bit_at data i)"
  by (auto simp: bit_at_def ensure_capacity_def nth_append less_mult_imp_div_less)

lemma fits_write_guard: "fits width val \<longleftrightarrow> width \<le> 64 \<and> \<not> (width < 64 \<and> val \<ge> push_bit width 1)"
proof (cases "width < 64")
  case True
  then have "unat (2 ^ width :: u64) = 2 ^ width"
    by (simp add: unat_two_power)
  then show ?thesis
    using True by (simp add: fits_unat word_le_nat_alt not_le)
next
  case False
  then show ?thesis
    by (cases "width = 64") (auto simp: fits_def dest: bit_imp_le_length)
qed

lemma fits_ucast:
  fixes b :: u8
  assumes "unat b < 2 ^ n" and "n \<le> 64"
  shows "fits n (ucast b)"
  using assms by (simp add: fits_unat unat_ucast_up)
lemma wbits_eqI:
  assumes "wposition w' = wposition w + length bs"
    and "\<And>i. i < wposition w \<Longrightarrow> bit_at (wdata w') i = bit_at (wdata w) i"
    and "\<And>j. j < length bs \<Longrightarrow> bit_at (wdata w') (wposition w + j) = bs ! j"
  shows "wbits w' = wbits w @ bs"
proof (rule nth_equalityI)
  show "length (wbits w') = length (wbits w @ bs)"
    using assms(1) by simp
  fix i assume "i < length (wbits w')"
  then show "wbits w' ! i = (wbits w @ bs) ! i"
    using assms(1) assms(2)[of i] assms(3)[of "i - wposition w"]
    by (cases "i < wposition w") (auto simp: wbits_def nth_append)
qed

lemma write_bits_ok:
  assumes "wf_writer w" and "fits width val"
  shows "\<exists>w'. write_bits val width w = (Inr (), w') \<and> wf_writer w'
     \<and> wposition w' = wposition w + width \<and> wbits w' = wbits w @ field_bits (wposition w) width val"
proof -
  let ?p = "wposition w" and ?d = "ensure_capacity (wposition w + width) (wdata w)"
  have len: "length ?d = div_ceil (?p + width) 8" "length (wdata w) = div_ceil ?p 8"
    using assms(1) by (auto simp: wf_writer_def max_def div_ceil_8 div_le_mono)
  have room: "?p + width \<le> 8 * length ?d"
    by (simp only: len) (simp add: div_ceil_8)
  have "width \<le> 64"
    using assms(2) by (simp add: fits_def)
  from write_loop_field[OF room this, of val]
  obtain data' where data': "write_loop ?d ?p width val = Inr (data', ?p + width)" "length data' = length ?d"
    "\<forall>i < 8 * length ?d. i < ?p \<or> ?p + width \<le> i \<longrightarrow> bit_at data' i = bit_at ?d i"
    "map (bit_at data') [?p..<?p + width] = field_bits ?p width val"
    by blast
  let ?w = "w\<lparr>wdata := data', wposition := ?p + width\<rparr>"
  have in_old: "i < ?p \<Longrightarrow> i < 8 * length (wdata w)" for i
    using len by (simp add: div_ceil_8)
  have "wf_writer ?w"
    using assms(1) data'(2,3) len
    by (auto simp: wf_writer_def bit_at_ensure_capacity simp del: length_ensure_capacity)
  moreover have "wbits ?w = wbits w @ field_bits ?p width val"
  proof (rule wbits_eqI)
    fix i assume "i < ?p"
    then show "bit_at (wdata ?w) i = bit_at (wdata w) i"
      using data'(3) room in_old[of i] by (simp add: bit_at_ensure_capacity del: length_ensure_capacity)
  next
    fix j assume "j < length (field_bits ?p width val)"
    then show "bit_at (wdata ?w) (?p + j) = field_bits ?p width val ! j"
      by (simp add: data'(4)[symmetric])
  qed simp
  ultimately show ?thesis
    using data'(1) assms(2) by (auto simp: write_bits_def fits_write_guard)
qed

lemma write_bits_error:
  "\<not> fits width val \<Longrightarrow> write_bits val width w =
     (Inl (BsnWire (if width > 64 then WiderThan64 else ValueDoesNotFit (unat val) width)), w)"
  by (auto simp: write_bits_def fits_write_guard)

lemma wf_writer_new [simp]: "wf_writer writer_new" "wbits writer_new = []" "wposition writer_new = 0"
  by (simp_all add: writer_new_def wf_writer_def wbits_def raw_bits_def div_ceil_def)

text \<open>A writer whose buffer has room for \<open>n\<close> more bits, all clear.\<close>

definition has_room :: "writer \<Rightarrow> nat \<Rightarrow> bool" where
  "has_room w n \<longleftrightarrow> wposition w + n \<le> 8 * length (wdata w) \<and>
     (\<forall>i. wposition w \<le> i \<and> i < 8 * length (wdata w) \<longrightarrow> \<not> bit_at (wdata w) i)"

lemma bit_at_set:
  assumes "i < 8 * length data" and "p < 8 * length data"
  shows "bit_at (data[p div 8 := (data ! (p div 8)) OR 2 ^ (p mod 8)]) i \<longleftrightarrow> i = p \<or> bit_at data i"
proof (cases "i div 8 = p div 8")
  case True
  have "bit (2 ^ (p mod 8) :: u8) (i mod 8) \<longleftrightarrow> i mod 8 = p mod 8"
    by (auto simp: bit_exp_iff)
  moreover have "i mod 8 = p mod 8 \<longleftrightarrow> i = p"
    using True by (metis div_mult_mod_eq)
  ultimately show ?thesis
    using assms True by (auto simp: bit_at_update bit_or_iff bit_at_def less_mult_imp_div_less)
next
  case False
  then show ?thesis
    using assms by (auto simp: bit_at_update less_mult_imp_div_less)
qed

lemma write_raw_bit_ok:
  assumes "has_room w (Suc n)" and "sp < 8 * length source"
  shows "\<exists>w'. write_raw_bit source sp w = (Inr (), w') \<and> has_room w' n
     \<and> length (wdata w') = length (wdata w) \<and> wposition w' = wposition w + 1
     \<and> wbits w' = wbits w @ [bit_at source sp]"
proof -
  let ?p = "wposition w" and ?b = "drop_bit (sp mod 8) (source ! (sp div 8)) AND 1"
  let ?set = "(wdata w)[?p div 8 := (wdata w ! (?p div 8)) OR 2 ^ (?p mod 8)]"
  have p: "?p < 8 * length (wdata w)" "?p div 8 < length (wdata w)" and sp: "sp div 8 < length source"
    using assms by (auto simp: has_room_def less_mult_imp_div_less)
  have b: "?b \<noteq> 0 \<longleftrightarrow> bit_at source sp"
    by (simp add: bit_at_def and_one_eq bit_iff_odd_drop_bit flip: even_iff_mod_2_eq_zero)
  show ?thesis
  proof (cases "bit_at source sp")
    case True
    have "wbits (w\<lparr>wdata := ?set, wposition := ?p + 1\<rparr>) = wbits w @ [True]"
      using p by (intro wbits_eqI) (auto simp: bit_at_set)
    then show ?thesis
      using True p sp b assms(1)
      by (auto simp: write_raw_bit_def Let_def has_room_def bit_at_set)
  next
    case False
    have "wbits (w\<lparr>wposition := ?p + 1\<rparr>) = wbits w @ [False]"
      using p assms(1) by (intro wbits_eqI) (auto simp: has_room_def)
    then show ?thesis
      using False p sp b assms(1)
      by (auto simp: write_raw_bit_def Let_def has_room_def)
  qed
qed

lemma write_raw_loop_ok:
  "a \<le> n \<Longrightarrow> n \<le> 8 * length source \<Longrightarrow> has_room w (n - a) \<Longrightarrow>
     \<exists>w'. loopM [a..<n] (\<lambda>sp _. write_raw_bit source sp) () w = (Inr (), w') \<and> has_room w' 0
       \<and> length (wdata w') = length (wdata w) \<and> wposition w' = wposition w + (n - a)
       \<and> wbits w' = wbits w @ map (bit_at source) [a..<n]"
proof (induction "n - a" arbitrary: a w)
  case 0
  then show ?case by simp
next
  case (Suc k)
  then have "a < n" and room: "has_room w (Suc (n - Suc a))"
    by (auto simp: Suc_diff_Suc)
  then obtain w1 where w1: "write_raw_bit source a w = (Inr (), w1)" "has_room w1 (n - Suc a)"
    "length (wdata w1) = length (wdata w)" "wposition w1 = wposition w + 1" "wbits w1 = wbits w @ [bit_at source a]"
    using write_raw_bit_ok[OF room, of a source] Suc.prems by auto
  then obtain w2 where "loopM [Suc a..<n] (\<lambda>sp _. write_raw_bit source sp) () w1 = (Inr (), w2)"
    "has_room w2 0" "length (wdata w2) = length (wdata w1)" "wposition w2 = wposition w1 + (n - Suc a)"
    "wbits w2 = wbits w1 @ map (bit_at source) [Suc a..<n]"
    using Suc.hyps(1)[of "Suc a" w1] Suc.hyps(2) Suc.prems \<open>a < n\<close> by fastforce
  then show ?case
    using w1 \<open>a < n\<close> by (auto simp: upt_conv_Cons)
qed

lemma write_raw_ok:
  assumes "wf_writer w" and "n \<le> 8 * length data"
  shows "\<exists>w'. write_raw data (Some n) w = (Inr (), w') \<and> wf_writer w'
     \<and> wposition w' = wposition w + n \<and> wbits w' = wbits w @ raw_bits data n"
proof -
  let ?p = "wposition w" and ?d = "ensure_capacity (wposition w + n) (wdata w)"
  let ?w = "w\<lparr>wdata := ?d\<rparr>"
  have len: "length ?d = div_ceil (?p + n) 8" "length (wdata w) = div_ceil ?p 8"
    using assms(1) by (auto simp: wf_writer_def max_def div_ceil_8 div_le_mono)
  have "?p + n \<le> 8 * length ?d"
    by (simp only: len) (simp add: div_ceil_8)
  then have room: "has_room ?w (n - 0)"
    using assms(1) by (auto simp: has_room_def wf_writer_def bit_at_ensure_capacity simp del: length_ensure_capacity)
  have "i < 8 * length (wdata w)" "i < 8 * length ?d" if "i < ?p" for i
    using len that by (simp_all add: div_ceil_8 del: length_ensure_capacity)
  then have "wbits ?w = wbits w"
    by (intro nth_equalityI) (auto simp: wbits_def bit_at_ensure_capacity simp del: length_ensure_capacity)
  then show ?thesis
    using write_raw_loop_ok[OF _ assms(2) room] assms(2) len
    by (auto simp: write_raw_def Let_def mult.commute raw_bits_def wf_writer_def has_room_def
        simp del: length_ensure_capacity)
qed

subsection \<open>Buffers as packed bits\<close>

text \<open>The bytes that hold a bit list, the unused high bits of the last byte clear.\<close>

definition pack_byte :: "bool list \<Rightarrow> nat \<Rightarrow> u8" where
  "pack_byte bs k = horner_sum of_bool 2 (map (\<lambda>j. 8 * k + j < length bs \<and> bs ! (8 * k + j)) [0..<8])"

definition pack :: "bool list \<Rightarrow> bytes" where
  "pack bs = map (pack_byte bs) [0..<div_ceil (length bs) 8]"

lemma length_pack [simp]: "length (pack bs) = div_ceil (length bs) 8"
  by (simp add: pack_def)

lemma bit_at_pack:
  "i < 8 * length (pack bs) \<Longrightarrow> bit_at (pack bs) i \<longleftrightarrow> i < length bs \<and> bs ! i"
proof -
  assume i: "i < 8 * length (pack bs)"
  have "i mod 8 < 8" "8 * (i div 8) + i mod 8 = i"
    by simp_all
  then show ?thesis
    using i by (simp add: bit_at_def pack_def pack_byte_def bit_horner_sum_bit_word_iff
        less_mult_imp_div_less)
qed

lemma bytes_eqI:
  assumes "length xs = length ys" and "\<And>i. i < 8 * length xs \<Longrightarrow> bit_at xs i = bit_at ys i"
  shows "xs = ys"
proof (rule nth_equalityI[OF assms(1)])
  fix k assume k: "k < length xs"
  show "xs ! k = ys ! k"
  proof (rule bit_word_eqI)
    fix n assume "n < LENGTH(8)"
    then have "(8 * k + n) div 8 = k" "(8 * k + n) mod 8 = n" "8 * k + n < 8 * length xs"
      using k by simp_all
    then show "bit (xs ! k) n = bit (ys ! k) n"
      using assms(2)[of "8 * k + n"] by (simp add: bit_at_def)
  qed
qed

lemma raw_bits_pack: "raw_bits (pack bs) (length bs) = bs"
  by (intro nth_equalityI) (auto simp: bit_at_pack div_ceil_8)

lemma pack_raw_bits: "pack (raw_bits data (8 * length data)) = data"
  by (rule bytes_eqI) (auto simp: bit_at_pack)

lemma into_bytes_pack: "wf_writer w \<Longrightarrow> into_bytes w = pack (wbits w)"
proof (rule bytes_eqI)
  assume wf: "wf_writer w"
  then have whole: "into_bytes w = wdata w"
    by (simp add: into_bytes_def wf_writer_def)
  show "length (into_bytes w) = length (pack (wbits w))"
    using wf by (simp add: whole wf_writer_def)
  fix i assume i: "i < 8 * length (into_bytes w)"
  then have "i < 8 * length (pack (wbits w))"
    using wf by (simp add: whole wf_writer_def)
  then show "bit_at (into_bytes w) i = bit_at (pack (wbits w)) i"
    using wf i by (cases "i < wposition w") (auto simp: whole wf_writer_def bit_at_pack wbits_def)
qed

lemma as_into_bytes: "as_bytes w = into_bytes w"
  by (simp add: as_bytes_def into_bytes_def)

lemma take_raw_bits: "n \<le> m \<Longrightarrow> take n (raw_bits data m) = raw_bits data n"
  by (simp add: raw_bits_def take_map)

lemma reader_new_pack:
  assumes "length bs < 2 ^ 63"
  shows "\<exists>r. reader_new (pack bs) (Some (length bs)) = Inr r \<and> wf_reader r \<and> rbits r = bs
    \<and> rposition r = 0"
proof -
  have "length bs \<le> 8 * length (pack bs)" "length bs \<le> length (pack bs) * 8"
    by (simp_all add: div_ceil_8)
  moreover have "map (bit_at (pack bs)) [0..<length bs] = bs"
    using raw_bits_pack[of bs] by (simp add: raw_bits_def)
  ultimately show ?thesis
    using assms by (simp add: reader_new_def rbits_def wf_reader_def del: length_pack)
qed

subsection \<open>Alignment\<close>

lemma align_skip_eq: "align_skip pos = (8 - pos mod 8) mod 8"
proof -
  have "int (align_skip pos) = uint ((- (of_nat pos :: u64)) AND 7)"
    unfolding align_skip_def of_nat_unat by (rule refl)
  also have "\<dots> = take_bit 3 (uint (word_of_int (- int pos) :: u64))"
    by (simp add: unsigned_and_eq take_bit_eq_mask mask_eq_exp_minus_1)
  also have "\<dots> = (- int pos) mod 8"
    by (simp only: uint_word_of_int_eq take_bit_take_bit) (simp add: take_bit_eq_mod)
  finally have "int (align_skip pos) = (- int pos) mod 8" .
  moreover obtain q m where "pos = 8 * q + m" and "m < 8"
    by (metis mod_less_divisor mult_div_mod_eq zero_less_numeral)
  moreover have "- int (8 * q + m) mod 8 = int ((8 - m) mod 8)" if "m < 8" for q m
  proof -
    have "- int (8 * q + m) = int (8 - m) + 8 * (- int q - 1)"
      using that by simp
    then have "- int (8 * q + m) mod 8 = int (8 - m) mod 8"
      by (metis mod_mult_self2)
    then show ?thesis
      by (simp add: zmod_int)
  qed
  ultimately show ?thesis
    by simp
qed

lemma align_skip_aligns: "(pos + align_skip pos) mod 8 = 0"
proof -
  obtain q m where "pos = 8 * q + m" and "m < 8"
    by (metis mod_less_divisor mult_div_mod_eq zero_less_numeral)
  then show ?thesis
    by (cases "m = 0") (simp_all add: align_skip_eq)
qed

lemma align_skip_less: "align_skip pos < 8"
  by (simp add: align_skip_eq)

lemma field_bits_zero: "field_bits pos n 0 = replicate n False"
proof (induction pos n "0 :: u64" rule: field_bits.induct)
  case (1 pos rem)
  show ?case
  proof (cases "rem = 0")
    case False
    define tk where "tk = min rem (8 - pos mod 8)"
    have "tk \<le> rem" by (simp add: tk_def)
    have "field_bits pos rem 0 = replicate tk False @ replicate (rem - tk) False"
      using 1[OF False tk_def] False
      by (subst field_bits.simps) (simp add: Let_def tk_def[symmetric] map_replicate_const)
    also have "\<dots> = replicate rem False"
      using \<open>tk \<le> rem\<close> by (simp flip: replicate_add)
    finally show ?thesis .
  qed (simp add: field_bits.simps)
qed

lemma fits_zero [simp]: "fits n 0 \<longleftrightarrow> n \<le> 64"
  by (simp add: fits_def)

lemma writer_align_ok:
  assumes "wf_writer w"
  shows "\<exists>w'. writer_align w = (Inr (align_skip (wposition w)), w') \<and> wf_writer w'
     \<and> wposition w' = wposition w + align_skip (wposition w)
     \<and> wbits w' = wbits w @ replicate (align_skip (wposition w)) False"
proof (cases "align_skip (wposition w) = 0")
  case True
  then show ?thesis
    using assms by (simp add: writer_align_def)
next
  case False
  obtain w' where "write_bits 0 (align_skip (wposition w)) w = (Inr (), w')" "wf_writer w'"
    "wposition w' = wposition w + align_skip (wposition w)"
    "wbits w' = wbits w @ field_bits (wposition w) (align_skip (wposition w)) 0"
    using write_bits_ok[OF assms, of "align_skip (wposition w)" 0] align_skip_less[of "wposition w"]
    by auto
  then show ?thesis
    using False by (simp add: writer_align_def field_bits_zero)
qed

lemma reader_align_ok:
  assumes "wf_reader r" and "align_skip (rposition r) \<le> remaining r"
  shows "reader_align r = (Inr (align_skip (rposition r)),
     r\<lparr>rposition := rposition r + align_skip (rposition r)\<rparr>)"
proof (cases "align_skip (rposition r) = 0")
  case False
  obtain val where "read_bits (align_skip (rposition r)) r
      = (Inr val, r\<lparr>rposition := rposition r + align_skip (rposition r)\<rparr>)"
    using read_bits_success[OF assms(1) _ assms(2)] align_skip_less[of "rposition r"] by force
  then show ?thesis
    using False by (simp add: reader_align_def Let_def)
qed (simp add: reader_align_def)

end
