(* ===== verification/Bit_Codec.thy ===== *)
theory Bit_Codec
  imports Bits
begin

text \<open>
  What an encoder of the bit layer promises (it appends an image to the written bits) and
  what a decoder promises (it takes the same image off the unread bits, and asks for more
  data when the image is cut short), with the rules that compose both along \<open>bindM\<close>, the
  interface of a bit codec, its interpretations on the primitives of \<open>bits.rs\<close>, and the
  routing header as the first composed codec.  The last section shows that no reader
  operation panics.
\<close>

section \<open>Images\<close>

text \<open>An image gives the bits a value occupies when it starts at a stream position.\<close>

type_synonym image = "nat \<Rightarrow> bool list"

definition nothing :: image where
  "nothing = (\<lambda>_. [])"

definition then_bits :: "image \<Rightarrow> image \<Rightarrow> image" where
  "then_bits i j = (\<lambda>p. i p @ j (p + length (i p)))"

definition field :: "nat \<Rightarrow> u64 \<Rightarrow> image" where
  "field width val = (\<lambda>p. field_bits p width val)"

definition padding :: image where
  "padding = (\<lambda>p. replicate (align_skip p) False)"

definition raw_image :: "bool list \<Rightarrow> image" where
  "raw_image bs = (\<lambda>_. bs)"

definition bytes_image :: "bool \<Rightarrow> bytes \<Rightarrow> image" where
  "bytes_image aligned data =
     then_bits (if aligned then padding else nothing) (raw_image (raw_bits data (8 * length data)))"

fun images :: "image list \<Rightarrow> image" where
  "images [] = nothing"
| "images (i # is) = then_bits i (images is)"

lemmas image_defs = nothing_def then_bits_def field_def padding_def raw_image_def

lemma then_bits_nothing [simp]: "then_bits i nothing = i" "then_bits nothing i = i"
  by (simp_all add: then_bits_def nothing_def)

lemma then_bits_assoc: "then_bits (then_bits i j) k = then_bits i (then_bits j k)"
  by (simp add: then_bits_def add.assoc)

section \<open>Encoders and decoders\<close>

definition emits :: "(writer, unit) op \<Rightarrow> image \<Rightarrow> bool" where
  "emits m img \<longleftrightarrow> (\<forall>w. wf_writer w \<longrightarrow>
     (\<exists>w'. m w = (Inr (), w') \<and> wf_writer w' \<and> wbits w' = wbits w @ img (wposition w)))"

abbreviation advance :: "nat \<Rightarrow> reader \<Rightarrow> reader" where
  "advance n r \<equiv> r\<lparr>rposition := rposition r + n\<rparr>"

definition parses :: "(reader, 'a) op \<Rightarrow> 'a \<Rightarrow> image \<Rightarrow> bool" where
  "parses m x img \<longleftrightarrow> (\<forall>r. wf_reader r \<longrightarrow>
     (\<forall>rest. rbits r = img (rposition r) @ rest \<longrightarrow>
        m r = (Inr x, advance (length (img (rposition r))) r)) \<and>
     (\<forall>missing. img (rposition r) = rbits r @ missing \<and> missing \<noteq> [] \<longrightarrow>
        (\<exists>i r'. m r = (Inl (IncompleteFrame i), r'))))"

lemma parsesI:
  assumes "\<And>r rest. wf_reader r \<Longrightarrow> rbits r = img (rposition r) @ rest \<Longrightarrow>
      m r = (Inr x, advance (length (img (rposition r))) r)"
    and "\<And>r missing. wf_reader r \<Longrightarrow> img (rposition r) = rbits r @ missing \<Longrightarrow> missing \<noteq> [] \<Longrightarrow>
      \<exists>i r'. m r = (Inl (IncompleteFrame i), r')"
  shows "parses m x img"
  using assms by (auto simp: parses_def)

lemma parses_ok:
  "parses m x img \<Longrightarrow> wf_reader r \<Longrightarrow> rbits r = img (rposition r) @ rest \<Longrightarrow>
     m r = (Inr x, advance (length (img (rposition r))) r)"
  by (auto simp: parses_def)

lemma parses_cut:
  assumes "parses m x img" and "wf_reader r" and "img (rposition r) = rbits r @ missing" and "missing \<noteq> []"
  obtains i r' where "m r = (Inl (IncompleteFrame i), r')"
  using assms by (auto simp: parses_def)

lemma wf_reader_rest:
  assumes "wf_reader r" and "rbits r = bs @ rest"
  shows "wf_reader (advance (length bs) r)" and "rbits (advance (length bs) r) = rest"
  using assms wf_reader_advance[of r "length bs"] rbits_advance[of r "length bs"] length_rbits[of r]
  by simp_all

named_theorems parses_intros \<open>rules that build a decoder promise along the code\<close>
named_theorems emits_intros \<open>rules that build an encoder promise along the code\<close>

lemma parses_ret [parses_intros]: "parses (ret x) x nothing"
  by (rule parsesI) (auto simp: nothing_def)

lemma parses_lift [parses_intros]: "v = Inr x \<Longrightarrow> parses (liftR v) x nothing"
  by (rule parsesI) (auto simp: nothing_def)

lemma parses_bind [parses_intros]:
  assumes m: "parses m x i" and f: "parses (f x) y j"
  shows "parses (bindM m f) y (then_bits i j)"
proof (rule parsesI)
  fix r rest assume r: "wf_reader r" "rbits r = then_bits i j (rposition r) @ rest"
  let ?n = "length (i (rposition r))"
  have bits: "rbits r = i (rposition r) @ j (rposition r + ?n) @ rest"
    using r(2) by (simp add: then_bits_def)
  have "m r = (Inr x, advance ?n r)"
    by (rule parses_ok[OF m r(1) bits])
  moreover have "f x (advance ?n r) = (Inr y, advance (length (j (rposition (advance ?n r)))) (advance ?n r))"
    by (rule parses_ok[OF f wf_reader_rest(1)[OF r(1) bits]]) (use wf_reader_rest(2)[OF r(1) bits] in simp)
  ultimately show "bindM m f r = (Inr y, advance (length (then_bits i j (rposition r))) r)"
    by (simp add: then_bits_def add.assoc)
next
  fix r missing assume r: "wf_reader r" "then_bits i j (rposition r) = rbits r @ missing" "missing \<noteq> []"
  let ?n = "length (i (rposition r))"
  have split: "i (rposition r) @ j (rposition r + ?n) = rbits r @ missing"
    using r(2) by (simp add: then_bits_def)
  show "\<exists>e r'. bindM m f r = (Inl (IncompleteFrame e), r')"
  proof (cases "\<exists>rest. rbits r = i (rposition r) @ rest")
    case True
    then obtain rest where rest: "rbits r = i (rposition r) @ rest" ..
    then have "j (rposition (advance ?n r)) = rbits (advance ?n r) @ missing"
      using split wf_reader_rest(2)[OF r(1) rest] by simp
    then obtain e r' where "f x (advance ?n r) = (Inl (IncompleteFrame e), r')"
      using parses_cut[OF f wf_reader_rest(1)[OF r(1) rest]] r(3) by blast
    then show ?thesis
      using parses_ok[OF m r(1) rest] by simp
  next
    case False
    then obtain us where "i (rposition r) = rbits r @ us" "us \<noteq> []"
      using split by (metis append_Nil2 append_eq_append_conv2)
    then obtain e r' where "m r = (Inl (IncompleteFrame e), r')"
      using parses_cut[OF m r(1)] by blast
    then show ?thesis by simp
  qed
qed

lemma parses_bind_gets [parses_intros]:
  assumes "\<And>r. wf_reader r \<Longrightarrow> parses (f (g r)) x i"
  shows "parses (bindM (getsM g) f) x i"
  using assms by (auto simp: parses_def)

lemma parses_map_err [parses_intros]:
  assumes "parses m x i" and "\<And>s e. \<exists>e'. f s (IncompleteFrame e) = IncompleteFrame e'"
  shows "parses (map_errM f m) x i"
proof (rule parsesI)
  fix r missing assume "wf_reader r" "i (rposition r) = rbits r @ missing" "missing \<noteq> []"
  then obtain e r' where "m r = (Inl (IncompleteFrame e), r')"
    using parses_cut[OF assms(1)] by blast
  then show "\<exists>e r'. map_errM f m r = (Inl (IncompleteFrame e), r')"
    using assms(2)[of r' e] by (auto simp: map_errM_def)
qed (use parses_ok[OF assms(1)] in simp)

lemma parses_forM [parses_intros]:
  assumes "\<And>k. k \<in> set ks \<Longrightarrow> parses (f k) (g k) (i k)"
  shows "parses (forM ks f) (map g ks) (images (map i ks))"
  using assms
proof (induction ks)
  case (Cons k ks)
  then have tail: "parses (forM ks f) (map g ks) (images (map i ks))" and head: "parses (f k) (g k) (i k)"
    by simp_all
  have "parses (bindM (f k) (\<lambda>y. bindM (forM ks f) (\<lambda>ys. ret (y # ys)))) (g k # map g ks)
      (then_bits (i k) (then_bits (images (map i ks)) nothing))"
    by (rule parses_bind[OF head parses_bind[OF tail parses_ret]])
  then show ?case
    by (simp del: ret_apply)
qed (simp add: parses_ret)

lemma emits_run:
  assumes "emits m i" and "wf_writer w"
  obtains w' where "m w = (Inr (), w')" "wf_writer w'" "wbits w' = wbits w @ i (wposition w)"
    "wposition w' = wposition w + length (i (wposition w))"
  using assms by (metis emits_def length_append length_wbits)

lemma emits_ret [emits_intros]: "emits (ret ()) nothing"
  by (simp add: emits_def nothing_def)

lemma emits_lift [emits_intros]: "v = Inr () \<Longrightarrow> emits (liftR v) nothing"
  by (simp add: emits_def nothing_def)

lemma emits_bind [emits_intros]:
  assumes "emits m i" and "emits (f ()) j"
  shows "emits (bindM m f) (then_bits i j)"
  unfolding emits_def
proof (intro allI impI)
  fix w assume "wf_writer w"
  then obtain w' where w': "m w = (Inr (), w')" "wf_writer w'" "wbits w' = wbits w @ i (wposition w)"
      "wposition w' = wposition w + length (i (wposition w))"
    using emits_run[OF assms(1)] by blast
  then obtain w'' where "f () w' = (Inr (), w'')" "wf_writer w''" "wbits w'' = wbits w' @ j (wposition w')"
    using emits_run[OF assms(2)] by blast
  then show "\<exists>w'. bindM m f w = (Inr (), w') \<and> wf_writer w' \<and> wbits w' = wbits w @ then_bits i j (wposition w)"
    using w' by (auto simp: then_bits_def)
qed

lemma emits_loop [emits_intros]:
  assumes "\<And>k. k \<in> set ks \<Longrightarrow> emits (f k ()) (i k)"
  shows "emits (loopM ks f ()) (images (map i ks))"
  using assms by (induction ks) (auto intro!: emits_intros)

lemma emits_parses_roundtrip:
  assumes e: "emits e i" and d: "parses d x i" and w: "wf_writer w" "e w = (Inr (), w')"
    and r: "wf_reader r" "rposition r = wposition w" "rbits r = drop (wposition w) (wbits w') @ rest"
  shows "d r = (Inr x, r\<lparr>rposition := wposition w'\<rparr>)"
proof -
  obtain w'' where "e w = (Inr (), w'')" "wbits w'' = wbits w @ i (wposition w)"
    "wposition w'' = wposition w + length (i (wposition w))"
    using emits_run[OF e w(1)] by blast
  then have w': "wbits w' = wbits w @ i (wposition w)" "wposition w' = wposition w + length (i (wposition w))"
    using w(2) by simp_all
  then have "rbits r = i (rposition r) @ rest"
    using r(2,3) by simp
  then show ?thesis
    using parses_ok[OF d r(1)] r(2) w' by simp
qed

section \<open>The primitives\<close>

lemma parses_read_bits [parses_intros]: "fits n val \<Longrightarrow> parses (read_bits n) val (field n val)"
proof (rule parsesI)
  fix r rest assume "fits n val" "wf_reader r" "rbits r = field n val (rposition r) @ rest"
  then show "read_bits n r = (Inr val, advance (length (field n val (rposition r))) r)"
    using read_bits_field[of r n val rest] by (simp add: field_def)
next
  fix r missing assume "fits n val" "wf_reader r" "field n val (rposition r) = rbits r @ missing" "missing \<noteq> []"
  then have "n \<le> 64" and "remaining r < n"
    by (auto simp: fits_def field_def length_rbits[symmetric] dest: arg_cong[where f = length])
  then show "\<exists>e r'. read_bits n r = (Inl (IncompleteFrame e), r')"
    by (simp add: read_bits_def)
qed

lemma emits_write_bits [emits_intros]: "fits n val \<Longrightarrow> emits (write_bits val n) (field n val)"
  using write_bits_ok by (fastforce simp: emits_def field_def)

lemma emits_write_raw [emits_intros]:
  "n \<le> 8 * length data \<Longrightarrow> emits (write_raw data (Some n)) (raw_image (raw_bits data n))"
  using write_raw_ok by (fastforce simp: emits_def raw_image_def)

lemma emits_align_then:
  assumes "emits m i"
  shows "emits (bindM writer_align (\<lambda>_. m)) (then_bits padding i)"
  unfolding emits_def
proof (intro allI impI)
  fix w assume "wf_writer w"
  then obtain w' where w': "writer_align w = (Inr (align_skip (wposition w)), w')" "wf_writer w'"
    "wposition w' = wposition w + align_skip (wposition w)"
    "wbits w' = wbits w @ replicate (align_skip (wposition w)) False"
    using writer_align_ok by blast
  then obtain w'' where "m w' = (Inr (), w'')" "wf_writer w''" "wbits w'' = wbits w' @ i (wposition w')"
    using emits_run[OF assms] by blast
  then show "\<exists>w'. bindM writer_align (\<lambda>_. m) w = (Inr (), w') \<and> wf_writer w'
      \<and> wbits w' = wbits w @ then_bits padding i (wposition w)"
    using w' by (auto simp: then_bits_def padding_def)
qed

lemma parses_align_then:
  assumes "parses m x i"
  shows "parses (bindM reader_align (\<lambda>_. m)) x (then_bits padding i)"
proof -
  define skip where "skip = bindM reader_align (\<lambda>_. ret ())"
  have "parses skip () padding"
  proof (rule parsesI)
    fix r rest assume r: "wf_reader r" "rbits r = padding (rposition r) @ rest"
    then have "align_skip (rposition r) \<le> remaining r"
      by (metis length_append length_rbits length_replicate le_add1 padding_def)
    then show "skip r = (Inr (), advance (length (padding (rposition r))) r)"
      using reader_align_ok[OF r(1)] by (simp add: skip_def padding_def)
  next
    fix r missing assume r: "wf_reader r" "padding (rposition r) = rbits r @ missing" "missing \<noteq> []"
    then have "remaining r < align_skip (rposition r)"
      by (auto simp: padding_def length_rbits[symmetric] dest!: arg_cong[where f = length])
    moreover have "align_skip (rposition r) \<le> 64"
      using align_skip_less[of "rposition r"] by simp
    ultimately have "reader_align r = (Inl (IncompleteFrame (NeedBits (align_skip (rposition r))
        (rposition r) (remaining r))), r)"
      by (simp add: reader_align_def read_bits_def Let_def)
    then show "\<exists>e r'. skip r = (Inl (IncompleteFrame e), r')"
      by (simp add: skip_def)
  qed
  moreover have "bindM reader_align (\<lambda>_. m) = bindM skip (\<lambda>_. m)"
    by (auto simp: fun_eq_iff bindM_def skip_def split: prod.splits sum.splits)
  ultimately show ?thesis
    using parses_bind[of skip "()" padding "\<lambda>_. m" x i] assms by simp
qed

lemma write_raw_whole: "write_raw data None = write_raw data (Some (8 * length data))"
  by (simp add: write_raw_def fun_eq_iff mult.commute)

lemma emits_write_bytes_here: "emits (write_bytes_here data) (raw_image (raw_bits data (8 * length data)))"
  unfolding emits_def
proof (intro allI impI)
  fix w assume wf: "wf_writer w"
  show "\<exists>w'. write_bytes_here data w = (Inr (), w') \<and> wf_writer w'
      \<and> wbits w' = wbits w @ raw_image (raw_bits data (8 * length data)) (wposition w)"
  proof (cases "wposition w mod 8 = 0")
    case False
    then show ?thesis
      using write_raw_ok[OF wf, of "8 * length data" data]
      by (auto simp: write_bytes_here_def write_raw_whole raw_image_def)
  next
    case True
    then obtain k where k: "wposition w = 8 * k" by auto
    then have len: "length (wdata w) = k"
      using wf by (simp add: wf_writer_def)
    have "div_ceil (8 * k + length data * 8) 8 = k + length data"
      by (metis add_mult_distrib2 div_ceil_8_mult(1) mult.commute)
    then have buf: "ensure_capacity (8 * k + length data * 8) (wdata w) = wdata w @ replicate (length data) 0"
      by (simp add: ensure_capacity_def len)
    let ?w = "w\<lparr>wdata := wdata w @ data, wposition := 8 * k + length data * 8\<rparr>"
    have run: "write_bytes_here data w = (Inr (), ?w)"
      by (simp add: write_bytes_here_def Let_def k buf len)
    have "length (wdata ?w) = div_ceil (wposition ?w) 8"
      using \<open>div_ceil (8 * k + length data * 8) 8 = k + length data\<close> by (simp add: len)
    then have "wf_writer ?w"
      by (auto simp: wf_writer_def len)
    moreover have "wbits ?w = wbits w @ raw_bits data (8 * length data)"
      by (rule wbits_eqI) (auto simp: k bit_at_def nth_append len less_mult_imp_div_less)
    ultimately show ?thesis
      using run by (auto simp: raw_image_def)
  qed
qed

lemma emits_write_bytes [emits_intros]: "emits (write_bytes data aligned) (bytes_image aligned data)"
  using emits_write_bytes_here[of data] emits_align_then[OF emits_write_bytes_here[of data]]
  by (auto simp: write_bytes_def bytes_image_def)

text \<open>\<open>read_raw\<close> collects the bits it reads into a fresh writer.\<close>

lemma read_raw_loop_ok:
  "wf_reader r \<Longrightarrow> wf_writer w \<Longrightarrow> length ks \<le> remaining r \<Longrightarrow>
     \<exists>w'. loopM ks (\<lambda>_ w. read_raw_bit w) w r = (Inr w', advance (length ks) r) \<and> wf_writer w'
       \<and> wbits w' = wbits w @ take (length ks) (rbits r)"
proof (induction ks arbitrary: r w)
  case (Cons k ks)
  have "(1 :: nat) \<le> remaining r"
    using Cons.prems(3) by simp
  then obtain val where val: "read_bits 1 r = (Inr val, advance 1 r)" "fits 1 val"
      "field_bits (rposition r) 1 val = take 1 (rbits r)"
    using read_bits_success[OF Cons.prems(1), of 1] by auto
  have one: "field_bits p 1 val = [bit val 0]" for p
  proof -
    have "min 1 (8 - p mod 8) = 1"
      using mod_less_divisor[of 8 p] by linarith
    then show ?thesis
      by (subst field_bits.simps) (simp add: Let_def field_bits.simps[of _ 0])
  qed
  obtain w1 where w1: "write_bits val 1 w = (Inr (), w1)" "wf_writer w1"
      "wbits w1 = wbits w @ take 1 (rbits r)"
    using write_bits_ok[OF Cons.prems(2) val(2)] one val(3) by auto
  let ?r = "advance 1 r"
  have r: "wf_reader ?r" "length ks \<le> remaining ?r" "rbits ?r = drop 1 (rbits r)"
    using wf_reader_advance[OF Cons.prems(1), of 1] rbits_advance[OF Cons.prems(1), of 1] Cons.prems(3)
    by (simp_all add: remaining_def)
  obtain w2 where w2: "loopM ks (\<lambda>_ w. read_raw_bit w) w1 ?r = (Inr w2, advance (length ks) ?r)"
      "wf_writer w2" "wbits w2 = wbits w1 @ take (length ks) (rbits ?r)"
    using Cons.IH[OF r(1) w1(2) r(2)] by blast
  have "read_raw_bit w r = (Inr w1, ?r)"
    using val(1) w1(1) by (simp add: read_raw_bit_def)
  then have "loopM (k # ks) (\<lambda>_ w. read_raw_bit w) w r = (Inr w2, advance (length (k # ks)) r)"
    using w2(1) by simp
  moreover have "wbits w2 = wbits w @ take (length (k # ks)) (rbits r)"
    using w2(3) w1(3) r(3) take_add[of 1 "length ks" "rbits r"] by simp
  ultimately show ?case
    using w2(2) by blast
qed simp

lemma read_raw_ok:
  "wf_reader r \<Longrightarrow> n \<le> remaining r \<Longrightarrow> read_raw n r = (Inr (pack (take n (rbits r))), advance n r)"
  using read_raw_loop_ok[of r writer_new "[0..<n]"] by (auto simp: read_raw_def into_bytes_pack)

lemma read_raw_short:
  assumes "wf_reader r" and "remaining r < n"
  shows "read_raw n r = (Inl (IncompleteFrame (NeedBits 1 (rbit_count r) 0)), advance (remaining r) r)"
proof -
  define m where "m = remaining r"
  obtain w' where w': "loopM [0..<m] (\<lambda>_ w. read_raw_bit w) writer_new r = (Inr w', advance m r)"
    using read_raw_loop_ok[of r writer_new "[0..<m]"] assms(1) m_def by auto
  have "rposition (advance m r) = rbit_count r" "remaining (advance m r) = 0"
    using assms(1) by (auto simp: m_def bits_defs)
  then have "read_raw_bit w' (advance m r) = (Inl (IncompleteFrame (NeedBits 1 (rbit_count r) 0)), advance m r)"
    by (simp add: read_raw_bit_def read_bits_def)
  moreover have "[0..<n] = [0..<m] @ m # [Suc m..<n]"
    using assms(2) by (metis le0 m_def nat_less_le upt_add_eq_append le_add_diff_inverse upt_conv_Cons)
  ultimately show ?thesis
    using w' by (simp add: read_raw_def loopM_append m_def)
qed

lemma parses_read_raw [parses_intros]: "parses (read_raw (length bs)) (pack bs) (raw_image bs)"
proof (rule parsesI)
  fix r rest assume "wf_reader r" "rbits r = raw_image bs (rposition r) @ rest"
  then show "read_raw (length bs) r = (Inr (pack bs), advance (length (raw_image bs (rposition r))) r)"
    using read_raw_ok[of r "length bs"] by (simp add: raw_image_def length_rbits[symmetric])
next
  fix r missing assume "wf_reader r" "raw_image bs (rposition r) = rbits r @ missing" "missing \<noteq> []"
  then show "\<exists>i r'. read_raw (length bs) r = (Inl (IncompleteFrame i), r')"
    using read_raw_short[of r "length bs"] by (auto simp: raw_image_def length_rbits[symmetric])
qed

text \<open>The byte-aligned path copies a slice; it reads the same bytes as the bit-by-bit path.\<close>

lemma pack_slice:
  assumes "8 * (s + n) \<le> rbit_count r" and "rbit_count r \<le> 8 * length (rdata r)" and "rposition r = 8 * s"
  shows "pack (take (8 * n) (rbits r)) = slice_of (rdata r) s (s + n)"
proof (rule bytes_eqI)
  have "take (8 * n) (rbits r) = map (\<lambda>i. bit_at (rdata r) (8 * s + i)) [0..<8 * n]"
    using assms by (intro nth_equalityI) (auto simp: rbits_def)
  then have take: "length (take (8 * n) (rbits r)) = 8 * n"
      "i < 8 * n \<Longrightarrow> take (8 * n) (rbits r) ! i = bit_at (rdata r) (8 * s + i)" for i
    by simp_all
  show "length (pack (take (8 * n) (rbits r))) = length (slice_of (rdata r) s (s + n))"
    using assms by (simp only: length_pack take(1)) simp
  fix i assume "i < 8 * length (pack (take (8 * n) (rbits r)))"
  then have i: "i < 8 * n" by (simp only: length_pack take(1) div_ceil_8_mult)
  then have "i div 8 < n" by (simp add: less_mult_imp_div_less)
  then have "bit_at (slice_of (rdata r) s (s + n)) i = bit_at (rdata r) (8 * s + i)"
    using assms by (simp add: bit_at_def slice_of_def)
  then show "bit_at (pack (take (8 * n) (rbits r))) i = bit_at (slice_of (rdata r) s (s + n)) i"
    using i take by (simp add: bit_at_pack del: length_take)
qed

lemma read_bytes_here_ok:
  assumes "wf_reader r" and "8 * n \<le> remaining r"
  shows "read_bytes_here n r = (Inr (pack (take (8 * n) (rbits r))), advance (8 * n) r)"
proof -
  have big: "rposition r + 8 * n \<le> rbit_count r" "rbit_count r < 2 ^ 63" "rbit_count r \<le> 8 * length (rdata r)"
    using assms by (auto simp: bits_defs)
  show ?thesis
  proof (cases "rposition r mod 8 = 0")
    case True
    then obtain s where s: "rposition r = 8 * s" by auto
    have "checked_add64 s n = Some (s + n)" and "wrap64 ((s + n) * 8) = (s + n) * 8"
      using big s by (auto simp: checked_add64_def)
    moreover have "get_slice (rdata r) s (s + n) = Some (slice_of (rdata r) s (s + n))"
      using big s by (simp add: get_slice_def)
    moreover have "pack (take (8 * n) (rbits r)) = slice_of (rdata r) s (s + n)"
      using big s by (intro pack_slice) auto
    ultimately show ?thesis
      using big s by (simp add: read_bytes_here_def Let_def mult.commute)
  next
    case False
    have "wrap64 (n * 8) = 8 * n"
      using big by (simp add: mult.commute)
    then show ?thesis
      using read_raw_ok[OF assms] False by (simp add: read_bytes_here_def)
  qed
qed

lemma read_bytes_here_short:
  assumes "wf_reader r" and "remaining r < 8 * n" and "n < 2 ^ 59"
  shows "\<exists>i r'. read_bytes_here n r = (Inl (IncompleteFrame i), r')"
proof (cases "rposition r mod 8 = 0")
  case True
  then obtain s where s: "rposition r = 8 * s" by auto
  have big: "rposition r \<le> rbit_count r" "rbit_count r < 2 ^ 63"
    using assms by (auto simp: bits_defs)
  have "checked_add64 s n = Some (s + n)" and "wrap64 ((s + n) * 8) = (s + n) * 8"
    using big s assms(3) by (auto simp: checked_add64_def)
  moreover have "rbit_count r < (s + n) * 8"
    using assms(2) s big by (simp add: remaining_def)
  ultimately show ?thesis
    using s by (simp add: read_bytes_here_def Let_def)
next
  case False
  have "wrap64 (n * 8) = 8 * n"
    using assms(3) by (simp add: mult.commute)
  then show ?thesis
    using read_raw_short[OF assms(1,2)] False by (auto simp: read_bytes_here_def)
qed

lemma parses_read_bytes_here:
  assumes "length data < 2 ^ 59"
  shows "parses (read_bytes_here (length data)) data (raw_image (raw_bits data (8 * length data)))"
proof (rule parsesI)
  fix r rest assume "wf_reader r" "rbits r = raw_image (raw_bits data (8 * length data)) (rposition r) @ rest"
  then show "read_bytes_here (length data) r = (Inr data,
      advance (length (raw_image (raw_bits data (8 * length data)) (rposition r))) r)"
    using read_bytes_here_ok[of r "length data"]
    by (simp add: raw_image_def length_rbits[symmetric] pack_raw_bits)
next
  fix r missing assume "wf_reader r" "missing \<noteq> []"
    "raw_image (raw_bits data (8 * length data)) (rposition r) = rbits r @ missing"
  then show "\<exists>i r'. read_bytes_here (length data) r = (Inl (IncompleteFrame i), r')"
    using read_bytes_here_short[of r "length data"] assms
    by (auto simp: raw_image_def length_rbits[symmetric] dest: arg_cong[where f = length])
qed

lemma parses_read_bytes [parses_intros]:
  "length data < 2 ^ 59 \<Longrightarrow> parses (read_bytes (length data) aligned) data (bytes_image aligned data)"
  using parses_read_bytes_here[of data] parses_align_then[OF parses_read_bytes_here[of data]]
  by (auto simp: read_bytes_def bytes_image_def)

section \<open>The interface of a bit codec\<close>

text \<open>
  An encoder and a decoder that agree on an image for every canonical value.  Positions
  matter only modulo a byte, so what is written at one place can be read at another.
\<close>

definition positional :: "image \<Rightarrow> bool" where
  "positional i \<longleftrightarrow> (\<forall>p q. p mod 8 = q mod 8 \<longrightarrow> i p = i q)"

lemma positional_field [simp]: "positional (field n v)"
  by (auto simp: positional_def field_def intro: field_bits_mod)

lemma positional_nothing [simp]: "positional nothing"
  by (simp add: positional_def nothing_def)

lemma positional_raw [simp]: "positional (raw_image bs)"
  by (simp add: positional_def raw_image_def)

lemma positional_padding [simp]: "positional padding"
  by (simp add: positional_def padding_def align_skip_eq)

lemma positional_then [simp]: "positional i \<Longrightarrow> positional j \<Longrightarrow> positional (then_bits i j)"
  unfolding positional_def then_bits_def by (metis mod_add_left_eq)

lemma positional_bytes [simp]: "positional (bytes_image aligned data)"
  by (simp add: bytes_image_def)

lemma positional_images [simp]: "(\<And>i. i \<in> set is \<Longrightarrow> positional i) \<Longrightarrow> positional (images is)"
  by (induction "is") simp_all

locale bit_codec =
  fixes enc :: "'a \<Rightarrow> (writer, unit) op"
    and dec :: "(reader, 'a) op"
    and canon :: "'a \<Rightarrow> bool"
    and image :: "'a \<Rightarrow> image"
  assumes enc_emits: "canon v \<Longrightarrow> emits (enc v) (image v)"
    and dec_parses: "canon v \<Longrightarrow> parses dec v (image v)"
    and image_positional: "canon v \<Longrightarrow> positional (image v)"
begin

lemma roundtrip:
  assumes "canon v" and w: "wf_writer w" "enc v w = (Inr (), w')"
    and r: "wf_reader r" "rposition r mod 8 = wposition w mod 8"
      "rbits r = drop (wposition w) (wbits w') @ rest"
  shows "dec r = (Inr v, advance (wposition w' - wposition w) r)"
proof -
  obtain w'' where "enc v w = (Inr (), w'')" "wbits w'' = wbits w @ image v (wposition w)"
      "wposition w'' = wposition w + length (image v (wposition w))"
    using emits_run[OF enc_emits[OF assms(1)] w(1)] by blast
  then have w': "wbits w' = wbits w @ image v (wposition w)"
      "wposition w' = wposition w + length (image v (wposition w))"
    using w(2) by simp_all
  have same: "image v (wposition w) = image v (rposition r)"
    using image_positional[OF assms(1)] r(2) unfolding positional_def by metis
  have "rbits r = image v (rposition r) @ rest"
    unfolding r(3) w'(1) by (simp add: same)
  then have "dec r = (Inr v, advance (length (image v (rposition r))) r)"
    by (rule parses_ok[OF dec_parses[OF assms(1)] r(1)])
  moreover have "wposition w' - wposition w = length (image v (rposition r))"
    unfolding w'(2) same by simp
  ultimately show ?thesis
    by simp
qed

lemma encode_total: "canon v \<Longrightarrow> wf_writer w \<Longrightarrow> \<exists>w'. enc v w = (Inr (), w') \<and> wf_writer w'"
  using enc_emits by (auto simp: emits_def)

text \<open>Through a buffer: what \<open>into_bytes\<close> yields is read back, and nothing is left over.\<close>

lemma buffer_roundtrip:
  assumes "canon v" and "enc v writer_new = (Inr (), w)" and "wposition w < 2 ^ 63"
  shows "rbind (reader_new (into_bytes w) (Some (wposition w))) (\<lambda>r. fst (dec r)) = Inr v"
proof -
  obtain w' where "enc v writer_new = (Inr (), w')" "wf_writer w'"
    using encode_total[OF assms(1) wf_writer_new(1)] by blast
  then have wf: "wf_writer w"
    using assms(2) by simp
  obtain r where r: "reader_new (pack (wbits w)) (Some (length (wbits w))) = Inr r" "wf_reader r"
      "rbits r = wbits w" "rposition r = 0"
    using reader_new_pack[of "wbits w"] assms(3) by auto
  have "dec r = (Inr v, advance (wposition w - 0) r)"
    using roundtrip[OF assms(1) wf_writer_new(1) assms(2) r(2), of "[]"] r by simp
  then show ?thesis
    using r(1) by (simp add: into_bytes_pack[OF wf])
qed

text \<open>A decoder that was given less than the image asks for more data.\<close>

lemma truncated:
  assumes "canon v" and "wf_reader r" and "image v (rposition r) = rbits r @ missing" and "missing \<noteq> []"
  obtains i r' where "dec r = (Inl (IncompleteFrame i), r')"
  using parses_cut[OF dec_parses] assms by blast

text \<open>Images are prefix-free, so a stream of them is read in only one way.\<close>

lemma prefix_free:
  assumes "canon v" and "canon v'" and "image v 0 = image v' 0 @ extra" and "length (image v 0) < 2 ^ 63"
  shows "v = v'"
proof -
  obtain r where r: "reader_new (pack (image v 0)) (Some (length (image v 0))) = Inr r" "wf_reader r"
      "rbits r = image v 0" "rposition r = 0"
    using reader_new_pack[of "image v 0"] assms(4) by auto
  have "dec r = (Inr v, advance (length (image v (rposition r))) r)"
    using r by (intro parses_ok[OF dec_parses[OF assms(1)], of r "[]"]) simp_all
  moreover have "dec r = (Inr v', advance (length (image v' (rposition r))) r)"
    using r assms(3) by (intro parses_ok[OF dec_parses[OF assms(2)], of r extra]) simp_all
  ultimately show ?thesis by simp
qed

end

text \<open>A counted run of values under one codec is a codec again.\<close>

definition enc_all :: "('a \<Rightarrow> (writer, unit) op) \<Rightarrow> 'a list \<Rightarrow> (writer, unit) op" where
  "enc_all enc vs = loopM vs (\<lambda>v _. enc v) ()"

definition dec_all :: "nat \<Rightarrow> (reader, 'a) op \<Rightarrow> (reader, 'a list) op" where
  "dec_all count dec = forM [0..<count] (\<lambda>_. dec)"

locale bit_vector = bit_codec enc dec canon image
  for enc :: "'a \<Rightarrow> (writer, unit) op" and dec :: "(reader, 'a) op"
    and canon :: "'a \<Rightarrow> bool" and image :: "'a \<Rightarrow> image" +
  fixes count :: nat
begin

lemma dec_all_parses:
  assumes "length vs = count" and "\<And>v. v \<in> set vs \<Longrightarrow> canon v"
  shows "parses (dec_all count dec) vs (images (map image vs))"
proof -
  have "parses (forM [0..<count] (\<lambda>_. dec)) (map (\<lambda>k. vs ! k) [0..<count])
      (images (map (\<lambda>k. image (vs ! k)) [0..<count]))"
    using assms by (intro parses_forM dec_parses) auto
  then show ?thesis
    using assms(1) map_nth[of vs] map_nth[of "map image vs"]
    by (simp add: dec_all_def) (metis (no_types, lifting) length_map map_eq_conv map_map map_nth o_apply)
qed

end

sublocale bit_vector \<subseteq> vec: bit_codec "enc_all enc" "dec_all count dec" "\<lambda>vs. length vs = count \<and> (\<forall>v \<in> set vs. canon v)"
    "\<lambda>vs. images (map image vs)"
proof
  fix vs :: "'a list"
  assume vs: "length vs = count \<and> (\<forall>v \<in> set vs. canon v)"
  show "emits (enc_all enc vs) (images (map image vs))"
    unfolding enc_all_def using vs by (intro emits_loop) (auto intro: enc_emits)
  show "parses (dec_all count dec) vs (images (map image vs))"
    using vs dec_all_parses[of vs] by blast
  show "positional (images (map image vs))"
    using vs by (auto intro!: positional_images image_positional)
qed

interpretation field_codec: bit_codec "\<lambda>v. write_bits v n" "read_bits n" "fits n" "field n" for n
  by unfold_locales (auto intro: emits_intros parses_intros)

interpretation field_run: bit_vector "\<lambda>v. write_bits v n" "read_bits n" "fits n" "field n" count for n count
  by unfold_locales

interpretation bytes_codec: bit_codec "\<lambda>d. write_bytes d aligned" "read_bytes n aligned"
    "\<lambda>d. length d = n \<and> n < 2 ^ 59" "bytes_image aligned" for n aligned
  by unfold_locales (auto intro: emits_intros parses_intros)

section \<open>Routing headers\<close>

definition routing_ok :: "u8 \<times> u8 option \<Rightarrow> bool" where
  "routing_ok = (\<lambda>(cmd, slot). cmd \<le> 0x3f \<and> (\<forall>s. slot = Some s \<longrightarrow> s \<le> 0x0f))"

definition routing_image :: "u8 \<times> u8 option \<Rightarrow> image" where
  "routing_image = (\<lambda>(cmd, slot). then_bits (field 6 (ucast cmd))
     (then_bits (field 1 (if slot \<noteq> None then 1 else 0))
        (case slot of None \<Rightarrow> nothing | Some s \<Rightarrow> field 4 (ucast s))))"

definition routing_bits :: "u8 option \<Rightarrow> nat" where
  "routing_bits slot = (if slot = None then 7 else 11)"

lemma length_routing_image [simp]: "length (routing_image (cmd, slot) p) = routing_bits slot"
  by (auto simp: routing_image_def routing_bits_def image_defs split: option.splits)

lemma ucast_byte: "ucast (ucast (b :: u8) :: u64) = b"
  by (rule ucast_up_ucast_id) (simp add: is_up)

lemma fits_one [simp]: "fits (Suc 0) 0" "fits (Suc 0) 1"
  by (simp_all add: fits_def bit_1_iff)

definition read_routing_pair :: "(reader, u8 \<times> u8 option) op" where
  "read_routing_pair = bindM read_routing_header (\<lambda>h. ret (command_id h, service_slot h))"

lemma routing_fits:
  assumes "routing_ok (cmd, slot)"
  shows "fits 6 (ucast cmd)" and "slot = Some s \<Longrightarrow> fits 4 (ucast s)"
  using assms by (auto intro!: fits_ucast simp: routing_ok_def word_le_nat_alt)

lemma emits_routing:
  assumes "routing_ok (cmd, slot)"
  shows "emits (write_routing_header cmd slot) (routing_image (cmd, slot))"
proof (cases slot)
  case None
  show ?thesis
    unfolding write_routing_header_def routing_image_def None prod.case option.case
    by (intro emits_bind emits_write_bits emits_ret routing_fits(1)[OF assms]) simp
next
  case (Some s)
  show ?thesis
    unfolding write_routing_header_def routing_image_def Some prod.case option.case
    by (intro emits_bind emits_write_bits routing_fits(1)[OF assms] routing_fits(2)[OF assms Some]) simp
qed

lemma parses_routing:
  assumes "routing_ok (cmd, slot)"
  shows "parses read_routing_pair (cmd, slot) (routing_image (cmd, slot))"
proof -
  define rd :: "u64 \<Rightarrow> (reader, u8 option) op" where
    "rd e = (if e \<noteq> 0 then bindM (read_bits 4) (\<lambda>s. ret (Some (ucast s))) else ret None)" for e
  have slot: "parses (rd (if slot \<noteq> None then 1 else 0)) slot
      (case slot of None \<Rightarrow> nothing | Some s \<Rightarrow> then_bits (field 4 (ucast s)) nothing)"
  proof (cases slot)
    case (Some s)
    have "parses (bindM (read_bits 4) (\<lambda>s. ret (Some (ucast s :: u8)))) (Some (ucast (ucast s :: u64)))
        (then_bits (field 4 (ucast s)) nothing)"
      by (rule parses_bind[OF parses_read_bits[OF routing_fits(2)[OF assms Some]] parses_ret])
    moreover have "ucast (ucast s :: u64) = s"
      by (rule ucast_byte)
    ultimately show ?thesis
      by (simp add: rd_def Some)
  qed (simp add: rd_def parses_ret)
  have flag: "fits 1 (if slot \<noteq> None then 1 else 0)"
    by simp
  have eq: "read_routing_pair = bindM (read_bits 6) (\<lambda>cmd. bindM (read_bits 1) (\<lambda>e.
      bindM (rd e) (\<lambda>slot. ret (ucast cmd, slot))))"
    by (auto simp: read_routing_pair_def read_routing_header_def rd_def fun_eq_iff bindM_def
        split: prod.splits sum.splits)
  have "parses read_routing_pair (ucast (ucast cmd :: u64), slot) (then_bits (field 6 (ucast cmd))
      (then_bits (field 1 (if slot \<noteq> None then 1 else 0)) (then_bits
        (case slot of None \<Rightarrow> nothing | Some s \<Rightarrow> then_bits (field 4 (ucast s)) nothing) nothing)))"
    unfolding eq by (rule parses_bind parses_read_bits[OF routing_fits(1)[OF assms]]
        parses_read_bits[OF flag] slot parses_ret)+
  then show ?thesis
    by (cases slot) (simp_all add: routing_image_def ucast_byte)
qed

interpretation routing: bit_codec "\<lambda>(cmd, slot). write_routing_header cmd slot" read_routing_pair
    routing_ok routing_image
proof unfold_locales
  fix v :: "u8 \<times> u8 option"
  assume "routing_ok v"
  then show "emits (case v of (cmd, slot) \<Rightarrow> write_routing_header cmd slot) (routing_image v)"
      and "parses read_routing_pair v (routing_image v)"
    by (cases v; simp add: emits_routing parses_routing)+
  show "positional (routing_image v)"
    by (cases v; cases "snd v") (simp_all add: routing_image_def)
qed

lemma read_routing_header_pair:
  "read_routing_pair r = (Inr (cmd, slot), r') \<longleftrightarrow> read_routing_header r =
     (Inr \<lparr>command_id = cmd, service_slot = slot, header_bit_count = rposition r'\<rparr>, r')"
proof -
  have "read_routing_header r = (Inr h, r') \<Longrightarrow> header_bit_count h = rposition r'" for h r'
    by (auto simp: read_routing_header_def bindM_Inr_iff)
  then show ?thesis
    by (auto simp: read_routing_pair_def bindM_Inr_iff)
qed

lemma decode_routing_header_eq:
  assumes "routing_ok (cmd, slot)" and "length bs < 2 ^ 63" and "bs = routing_image (cmd, slot) 0 @ rest"
    and "raw_bits data (length bs) = bs" and "length bs \<le> 8 * length data"
  shows "decode_routing_header data (Some (length bs)) =
     Inr \<lparr>command_id = cmd, service_slot = slot, header_bit_count = routing_bits slot\<rparr>"
proof -
  let ?r = "\<lparr>rdata = data, rbit_count = length bs, rposition = 0\<rparr>"
  have new: "reader_new data (Some (length bs)) = Inr ?r"
    using assms(5) by (simp add: reader_new_def)
  have wf: "wf_reader ?r" and bits: "rbits ?r = bs"
    using assms(2,4,5) by (simp_all add: bits_defs)
  have "read_routing_pair ?r = (Inr (cmd, slot), advance (routing_bits slot) ?r)"
    using parses_ok[OF parses_routing[OF assms(1)] wf, of rest] bits assms(3) by simp
  then show ?thesis
    using new by (simp add: read_routing_header_pair decode_routing_header_def)
qed

lemma encode_routing_header_ok:
  assumes "routing_ok (cmd, slot)"
  shows "encode_routing_header cmd slot =
     Inr (pack (routing_image (cmd, slot) 0), routing_bits slot)"
proof -
  obtain w where "write_routing_header cmd slot writer_new = (Inr (), w)" "wf_writer w"
      "wbits w = routing_image (cmd, slot) 0" "wposition w = routing_bits slot"
    using emits_run[OF emits_routing[OF assms] wf_writer_new(1)] by auto
  then show ?thesis
    using assms by (auto simp: encode_routing_header_def routing_ok_def into_bytes_pack not_le
        split: option.splits)
qed

lemma encode_routing_header_error:
  "\<not> routing_ok (cmd, slot) \<Longrightarrow> encode_routing_header cmd slot =
     Inl (BsnWire (if cmd > 0x3f then CommandIdTooWide else ServiceSlotTooWide))"
  by (auto simp: encode_routing_header_def routing_ok_def split: option.splits)

lemma emits_concat:
  assumes "\<And>data n. (data, n) \<in> set parts \<Longrightarrow> n \<le> 8 * length data"
  shows "emits (loopM parts (\<lambda>(data, n) _. write_raw data (Some n)) ())
    (raw_image (concat (map (\<lambda>(data, n). raw_bits data n) parts)))"
proof -
  have "images (map (\<lambda>(data, n). raw_image (raw_bits data n)) parts)
      = raw_image (concat (map (\<lambda>(data, n). raw_bits data n) parts))"
    by (induction parts) (auto simp: image_defs)
  moreover have "emits (loopM parts (\<lambda>(data, n) _. write_raw data (Some n)) ())
      (images (map (\<lambda>(data, n). raw_image (raw_bits data n)) parts))"
    using assms by (intro emits_loop) (auto intro: emits_write_raw)
  ultimately show ?thesis by simp
qed

lemma concat_bits_ok:
  assumes "\<And>data n. (data, n) \<in> set parts \<Longrightarrow> n \<le> 8 * length data"
  defines "bs \<equiv> concat (map (\<lambda>(data, n). raw_bits data n) parts)"
  shows "concat_bits parts = Inr (pack bs, length bs)"
proof -
  obtain w where "loopM parts (\<lambda>(data, n) _. write_raw data (Some n)) () writer_new = (Inr (), w)"
      "wf_writer w" "wbits w = bs"
    using emits_run[OF emits_concat[OF assms(1)] wf_writer_new(1)]
    by (auto simp: raw_image_def bs_def)
  then show ?thesis
    by (auto simp: concat_bits_def into_bytes_pack simp flip: length_wbits)
qed

lemma strip_routing_header_ok:
  assumes "routing_ok (cmd, slot)" and "bs = routing_image (cmd, slot) 0 @ payload" and "length bs < 2 ^ 63"
  shows "strip_routing_header (pack bs) (Some (length bs)) =
     Inr (\<lparr>command_id = cmd, service_slot = slot, header_bit_count = routing_bits slot\<rparr>,
          pack payload, length payload)"
proof -
  let ?r = "\<lparr>rdata = pack bs, rbit_count = length bs, rposition = 0\<rparr>"
  have len: "length bs = routing_bits slot + length payload"
    by (simp add: assms(2))
  have room: "length bs \<le> 8 * length (pack bs)"
    by (simp add: div_ceil_8)
  have new: "reader_new (pack bs) (Some (length bs)) = Inr ?r"
    using room by (simp add: reader_new_def del: length_pack)
  have wf: "wf_reader ?r" and bits: "rbits ?r = bs"
    using assms(3) room raw_bits_pack[of bs] by (simp_all add: bits_defs del: length_pack)
  let ?r' = "?r\<lparr>rposition := routing_bits slot\<rparr>"
  have wf': "wf_reader ?r'" and rest: "rbits ?r' = payload"
    using wf_reader_rest[OF wf, of "routing_image (cmd, slot) 0" payload] bits assms(2) by simp_all
  have "read_raw (length payload) ?r' = (Inr (pack payload), advance (length payload) ?r')"
    using parses_ok[OF parses_read_raw wf', of payload "[]"] rest by (simp add: raw_image_def)
  then show ?thesis
    using decode_routing_header_eq[OF assms(1,3,2) raw_bits_pack room] new len
    by (simp add: strip_routing_header_def set_position_def)
qed

section \<open>Reader operations do not panic\<close>

text \<open>
  From any well-formed reader the operation keeps the buffer, never moves back, leaves a
  well-formed reader, and its result is neither a panic nor a stack overflow.
\<close>

definition reader_step :: "reader \<Rightarrow> reader \<Rightarrow> bool" where
  "reader_step r r' \<longleftrightarrow> wf_reader r' \<and> rdata r' = rdata r \<and> rbit_count r' = rbit_count r
     \<and> rposition r \<le> rposition r'"

definition reader_safe :: "(reader, 'a) op \<Rightarrow> bool" where
  "reader_safe m \<longleftrightarrow> (\<forall>r. wf_reader r \<longrightarrow>
     reader_step r (snd (m r)) \<and> \<not> aborts (fst (m r)))"

named_theorems safe_intros \<open>rules for operations that cannot panic\<close>

lemma reader_step_refl [simp]: "wf_reader r \<Longrightarrow> reader_step r r"
  by (simp add: reader_step_def)

lemma reader_step_trans: "reader_step a b \<Longrightarrow> reader_step b c \<Longrightarrow> reader_step a c"
  by (auto simp: reader_step_def)

lemma reader_safeI:
  "(\<And>r. wf_reader r \<Longrightarrow> reader_step r (snd (m r))) \<Longrightarrow>
   (\<And>r. wf_reader r \<Longrightarrow> \<not> aborts (fst (m r))) \<Longrightarrow> reader_safe m"
  by (simp add: reader_safe_def)

lemma reader_safeD:
  assumes "reader_safe m" and "wf_reader r" and "m r = (v, r')"
  shows "reader_step r r'" and "wf_reader r'" and "\<not> aborts v"
  using assms by (auto simp: reader_safe_def reader_step_def dest!: spec[of _ r])

lemma safe_ret [safe_intros]: "reader_safe (ret x)"
  by (simp add: reader_safe_def)

lemma safe_fail [safe_intros]: "\<not> aborting e \<Longrightarrow> reader_safe (fail e)"
  by (simp add: reader_safe_def)

lemma safe_gets [safe_intros]: "reader_safe (getsM f)"
  by (simp add: reader_safe_def)

lemma safe_lift [safe_intros]: "\<not> aborts v \<Longrightarrow> reader_safe (liftR v)"
  by (simp add: reader_safe_def)

lemma safe_bind_post:
  assumes m: "reader_safe m"
    and f: "\<And>r r' x. wf_reader r \<Longrightarrow> m r = (Inr x, r') \<Longrightarrow> reader_safe (f x)"
  shows "reader_safe (bindM m f)"
proof (rule reader_safeI)
  fix r assume r: "wf_reader r"
  have "reader_step r (snd (bindM m f r)) \<and> \<not> aborts (fst (bindM m f r))"
  proof (cases "m r")
    case (Pair v r')
    note step = reader_safeD[OF m r Pair]
    show ?thesis
    proof (cases v)
      case (Inl e)
      then show ?thesis
        using Pair step by simp
    next
      case (Inr x)
      obtain u r'' where run: "f x r' = (u, r'')"
        by (cases "f x r'")
      have "reader_safe (f x)"
        using f[OF r] Pair Inr by simp
      from reader_safeD[OF this step(2) run] show ?thesis
        using Pair Inr run reader_step_trans[OF step(1)] by simp
    qed
  qed
  then show "reader_step r (snd (bindM m f r))" and "\<not> aborts (fst (bindM m f r))"
    by simp_all
qed

lemma safe_bind [safe_intros]:
  "reader_safe m \<Longrightarrow> (\<And>x. reader_safe (f x)) \<Longrightarrow> reader_safe (bindM m f)"
  by (rule safe_bind_post)

lemma safe_map_err [safe_intros]:
  assumes "reader_safe m" and "\<And>s e. \<not> aborting e \<Longrightarrow> \<not> aborting (f s e)"
  shows "reader_safe (map_errM f m)"
proof (rule reader_safeI)
  fix r assume r: "wf_reader r"
  obtain v r' where run: "m r = (v, r')"
    by (cases "m r")
  note step = reader_safeD[OF assms(1) r run]
  show "reader_step r (snd (map_errM f m r))"
    using run step by (cases v) (simp_all add: map_errM_def)
  show "\<not> aborts (fst (map_errM f m r))"
    using run step assms(2) by (cases v) (auto simp: map_errM_def)
qed

lemma safe_forM [safe_intros]:
  "(\<And>x. x \<in> set xs \<Longrightarrow> reader_safe (f x)) \<Longrightarrow> reader_safe (forM xs f)"
proof (induction xs)
  case Nil
  have "forM [] f = ret []" by simp
  then show ?case
    by (metis safe_ret)
next
  case (Cons x xs)
  have "forM (x # xs) f = bindM (f x) (\<lambda>y. bindM (forM xs f) (\<lambda>ys. ret (y # ys)))" by simp
  then show ?case
    using Cons by (metis (no_types, lifting) list.set_intros safe_bind safe_ret)
qed

lemma safe_read_bits [safe_intros]: "reader_safe (read_bits n)"
proof -
  have "reader_step r (snd (read_bits n r)) \<and> \<not> aborts (fst (read_bits n r))" if r: "wf_reader r" for r
  proof (cases "n \<le> 64 \<and> n \<le> remaining r")
    case True
    then obtain val where "read_bits n r = (Inr val, advance n r)"
      using read_bits_success[OF r] by blast
    then show ?thesis
      using wf_reader_advance[OF r, of n] True by (simp add: reader_step_def)
  next
    case False
    then show ?thesis
      using r by (auto simp: read_bits_def)
  qed
  then show ?thesis
    by (simp add: reader_safe_def)
qed

lemma safe_align [safe_intros]: "reader_safe reader_align"
proof -
  have "reader_safe (bindM (read_bits n) (\<lambda>_. ret n))" for n
    by (intro safe_intros)
  then show ?thesis
    by (auto simp: reader_safe_def reader_align_def Let_def)
qed

lemma safe_read_raw [safe_intros]: "reader_safe (read_raw n)"
proof -
  have "reader_step r (snd (read_raw n r)) \<and> \<not> aborts (fst (read_raw n r))" if r: "wf_reader r" for r
  proof (cases "n \<le> remaining r")
    case True
    then show ?thesis
      using read_raw_ok[OF r True] wf_reader_advance[OF r True] by (simp add: reader_step_def)
  next
    case False
    then have "read_raw n r = (Inl (IncompleteFrame (NeedBits 1 (rbit_count r) 0)), advance (remaining r) r)"
      by (intro read_raw_short[OF r]) simp
    then show ?thesis
      using wf_reader_advance[OF r, of "remaining r"] by (simp add: reader_step_def)
  qed
  then show ?thesis
    by (simp add: reader_safe_def)
qed

lemma safe_read_bytes_here: "n < 2 ^ 59 \<Longrightarrow> reader_safe (read_bytes_here n)"
proof -
  assume n: "n < 2 ^ 59"
  have "reader_step r (snd (read_bytes_here n r)) \<and> \<not> aborts (fst (read_bytes_here n r))"
    if r: "wf_reader r" for r
  proof (cases "8 * n \<le> remaining r")
    case True
    then show ?thesis
      using read_bytes_here_ok[OF r True] wf_reader_advance[OF r True] by (simp add: reader_step_def)
  next
    case False
    show ?thesis
    proof (cases "rposition r mod 8 = 0")
      case True
      then obtain s where s: "rposition r = 8 * s" by auto
      have big: "rposition r \<le> rbit_count r" "rbit_count r < 2 ^ 63"
        using r by (auto simp: bits_defs)
      have "checked_add64 s n = Some (s + n)" and "wrap64 ((s + n) * 8) = (s + n) * 8"
        using big s n by (auto simp: checked_add64_def)
      moreover have "rbit_count r < (s + n) * 8"
        using False s big by (simp add: remaining_def)
      ultimately show ?thesis
        using s r by (simp add: read_bytes_here_def Let_def)
    next
      case False
      then show ?thesis
        using reader_safeD[OF safe_read_raw r, of _ "fst (read_raw (wrap64 (n * 8)) r)"
            "snd (read_raw (wrap64 (n * 8)) r)"]
        by (simp add: read_bytes_here_def) 
    qed
  qed
  then show ?thesis
    by (simp add: reader_safe_def)
qed

lemma safe_read_bytes [safe_intros]: "n < 2 ^ 59 \<Longrightarrow> reader_safe (read_bytes n aligned)"
  unfolding read_bytes_def by (cases aligned) (simp_all add: safe_bind safe_align safe_read_bytes_here)

lemma safe_read_routing_header [safe_intros]: "reader_safe read_routing_header"
  unfolding read_routing_header_def
  by (intro safe_intros) (auto intro: safe_intros)

end
