(* ===== verification/Utf8.thy ===== *)
theory Utf8
  imports Wire_Prelude
begin

text \<open>
  Rust strings as their UTF-8 bytes: \<open>str::from_utf8\<close> accepts exactly the well-formed byte
  sequences of the Unicode standard, \<open>String::from_utf8_lossy\<close> replaces every maximal
  ill-formed subpart by U+FFFD, \<open>eq_ignore_ascii_case\<close> compares up to ASCII case.
\<close>

section \<open>Well-formed sequences\<close>

definition byte_at :: "bytes \<Rightarrow> nat \<Rightarrow> u8" where
  "byte_at bs i = (if i < length bs then bs ! i else 0)"

definition is_continuation :: "u8 \<Rightarrow> bool" where
  "is_continuation b \<longleftrightarrow> 0x80 \<le> b \<and> b \<le> 0xBF"

definition lead_width :: "u8 \<Rightarrow> nat" where
  "lead_width b =
     (if b < 0x80 then 1 else if 0xC2 \<le> b \<and> b \<le> 0xDF then 2
      else if 0xE0 \<le> b \<and> b \<le> 0xEF then 3 else if 0xF0 \<le> b \<and> b \<le> 0xF4 then 4 else 0)"

definition second_ok :: "u8 \<Rightarrow> u8 \<Rightarrow> bool" where
  "second_ok lead b =
     (if lead = 0xE0 then 0xA0 \<le> b \<and> b \<le> 0xBF
      else if lead = 0xED then 0x80 \<le> b \<and> b \<le> 0x9F
      else if lead = 0xF0 then 0x90 \<le> b \<and> b \<le> 0xBF
      else if lead = 0xF4 then 0x80 \<le> b \<and> b \<le> 0x8F
      else is_continuation b)"

text \<open>One step over non-empty input: well-formed or not, and how many bytes it covers.\<close>

definition utf8_scan :: "bytes \<Rightarrow> bool \<times> nat" where
  "utf8_scan bs =
     (let lead = byte_at bs 0; width = lead_width lead in
      if width = 0 then (False, 1)
      else if width = 1 then (True, 1)
      else if \<not> second_ok lead (byte_at bs 1) then (False, 1)
      else if width = 2 then (True, 2)
      else if \<not> is_continuation (byte_at bs 2) then (False, 2)
      else if width = 3 then (True, 3)
      else if \<not> is_continuation (byte_at bs 3) then (False, 3)
      else (True, 4))"

lemma utf8_scan_pos [simp]: "0 < snd (utf8_scan bs)"
  by (simp add: utf8_scan_def Let_def)

function utf8_valid :: "bytes \<Rightarrow> bool" where
  "utf8_valid bs =
     (if bs = [] then True else fst (utf8_scan bs) \<and> utf8_valid (drop (snd (utf8_scan bs)) bs))"
  by pat_completeness auto
termination
  by (relation "measure length") auto

definition replacement :: bytes where
  "replacement = [0xEF, 0xBF, 0xBD]"

function from_utf8_lossy :: "bytes \<Rightarrow> bytes" where
  "from_utf8_lossy bs =
     (if bs = [] then []
      else (if fst (utf8_scan bs) then take (snd (utf8_scan bs)) bs else replacement)
           @ from_utf8_lossy (drop (snd (utf8_scan bs)) bs))"
  by pat_completeness auto
termination
  by (relation "measure length") auto

declare utf8_valid.simps [simp del] from_utf8_lossy.simps [simp del]

definition from_utf8 :: "bytes \<Rightarrow> bytes option" where
  "from_utf8 bs = (if utf8_valid bs then Some bs else None)"

definition ascii_lower :: "u8 \<Rightarrow> u8" where
  "ascii_lower b = (if 0x41 \<le> b \<and> b \<le> 0x5A then b + 0x20 else b)"

definition eq_ignore_ascii_case :: "bytes \<Rightarrow> bytes \<Rightarrow> bool" where
  "eq_ignore_ascii_case a b \<longleftrightarrow> map ascii_lower a = map ascii_lower b"

lemma utf8_valid_Nil [simp]: "utf8_valid []"
  by (subst utf8_valid.simps) simp

lemma from_utf8_lossy_Nil [simp]: "from_utf8_lossy [] = []"
  by (subst from_utf8_lossy.simps) simp

lemma from_utf8_lossy_valid [simp]: "utf8_valid bs \<Longrightarrow> from_utf8_lossy bs = bs"
proof (induction bs rule: from_utf8_lossy.induct)
  case (1 bs)
  show ?case
  proof (cases "bs = []")
    case False
    have "fst (utf8_scan bs)" and "utf8_valid (drop (snd (utf8_scan bs)) bs)"
      using "1.prems" False by (subst (asm) utf8_valid.simps, simp)+
    then show ?thesis
      using "1.IH" False by (subst from_utf8_lossy.simps) simp
  qed simp
qed

text \<open>A step that is well-formed stays so with any continuation, and lies inside the input.\<close>

lemma not_continuation_zero: "\<not> is_continuation 0" "\<not> second_ok lead 0"
  by (auto simp: is_continuation_def second_ok_def)

lemma utf8_scan_length:
  assumes "fst (utf8_scan bs)" and "bs \<noteq> []"
  shows "snd (utf8_scan bs) \<le> length bs"
proof -
  have at: "byte_at bs i \<noteq> 0 \<Longrightarrow> i < length bs" for i
    by (auto simp: byte_at_def split: if_splits)
  have nz: "second_ok lead (byte_at bs i) \<Longrightarrow> i < length bs" "is_continuation (byte_at bs i) \<Longrightarrow> i < length bs"
    for lead i
    using at[of i] not_continuation_zero by metis+
  have width: "second_ok lead (byte_at bs (Suc 0)) \<Longrightarrow> 2 \<le> length bs"
      "is_continuation (byte_at bs 2) \<Longrightarrow> 3 \<le> length bs" "is_continuation (byte_at bs 3) \<Longrightarrow> 4 \<le> length bs"
    for lead
    using nz(1)[of lead "Suc 0"] nz(2)[of 2] nz(2)[of 3] by linarith+
  have "0 < length bs"
    using assms(2) by simp
  then show ?thesis
    using assms(1) width
    by (auto simp: utf8_scan_def Let_def Suc_le_eq split: if_splits)
qed

lemma utf8_scan_agree:
  assumes "fst (utf8_scan bs)" and "\<And>i. i < snd (utf8_scan bs) \<Longrightarrow> byte_at xs i = byte_at bs i"
  shows "utf8_scan xs = (True, snd (utf8_scan bs))"
proof -
  define b0 b1 b2 b3 n where defs: "b0 = byte_at bs 0" "b1 = byte_at bs 1" "b2 = byte_at bs 2"
    "b3 = byte_at bs 3" "n = snd (utf8_scan bs)"
  define c0 c1 c2 c3 where xdefs: "c0 = byte_at xs 0" "c1 = byte_at xs 1" "c2 = byte_at xs 2" "c3 = byte_at xs 3"
  have eq: "0 < n \<Longrightarrow> c0 = b0" "1 < n \<Longrightarrow> c1 = b1" "2 < n \<Longrightarrow> c2 = b2" "3 < n \<Longrightarrow> c3 = b3"
    using assms(2) by (simp_all add: defs xdefs)
  have "utf8_scan bs = (True, n)"
    using assms(1) by (simp add: defs prod_eq_iff)
  then have "utf8_scan xs = (True, n)"
    using eq unfolding utf8_scan_def defs(1-4)[symmetric] xdefs[symmetric] Let_def
    by (auto split: if_split_asm)
  then show ?thesis
    by (simp add: defs)
qed

lemma utf8_valid_scan_append:
  assumes "fst (utf8_scan bs)" and "bs \<noteq> []"
  shows "utf8_valid (take (snd (utf8_scan bs)) bs @ rest) \<longleftrightarrow> utf8_valid rest"
proof -
  let ?n = "snd (utf8_scan bs)"
  have len: "?n \<le> length bs" "take ?n bs \<noteq> []"
    using utf8_scan_length[OF assms] utf8_scan_pos[of bs] assms(2) by auto
  have "utf8_scan (take ?n bs @ rest) = (True, ?n)"
    using len(1) by (intro utf8_scan_agree assms(1)) (simp add: byte_at_def nth_append)
  then show ?thesis
    using len by (subst utf8_valid.simps) simp
qed

lemma utf8_valid_replacement: "utf8_valid (replacement @ rest) \<longleftrightarrow> utf8_valid rest"
proof -
  have "utf8_scan (replacement @ rest) = (True, 3)"
    by (simp add: utf8_scan_def replacement_def byte_at_def lead_width_def second_ok_def is_continuation_def)
  then show ?thesis
    by (subst utf8_valid.simps) (simp add: replacement_def)
qed

lemma utf8_valid_lossy [simp]: "utf8_valid (from_utf8_lossy bs)"
proof (induction bs rule: from_utf8_lossy.induct)
  case (1 bs)
  show ?case
  proof (cases "bs = []")
    case False
    then show ?thesis
      using "1.IH" by (subst from_utf8_lossy.simps)
        (simp add: utf8_valid_scan_append utf8_valid_replacement)
  qed simp
qed

lemma from_utf8_Some [simp]: "from_utf8 bs = Some s \<longleftrightarrow> utf8_valid bs \<and> s = bs"
  by (auto simp: from_utf8_def)

end
