(* ===== verification/Byte_Order.thy ===== *)
theory Byte_Order
  imports Wire_Prelude
begin

text \<open>
  Integers as byte sequences of either order (\<open>from_be_bytes\<close>, \<open>to_be_bytes\<close>,
  \<open>from_le_bytes\<close>, \<open>to_le_bytes\<close> of the Rust integer types), over naturals.
\<close>

section \<open>Big endian\<close>

definition from_be :: "bytes \<Rightarrow> nat" where
  "from_be bs = fold (\<lambda>b v. v * 256 + unat b) bs 0"

primrec to_be :: "nat \<Rightarrow> nat \<Rightarrow> bytes" where
  "to_be 0 n = []"
| "to_be (Suc w) n = to_be w (n div 256) @ [of_nat (n mod 256)]"

lemma from_be_fold: "fold (\<lambda>b v. v * 256 + unat b) bs n = n * 256 ^ length bs + from_be bs"
proof (induction bs arbitrary: n)
  case (Cons b bs)
  show ?case
    using Cons.IH[of "n * 256 + unat b"] Cons.IH[of "unat b"]
    by (simp add: from_be_def algebra_simps)
qed (simp add: from_be_def)

lemma from_be_simps [simp]:
  "from_be [] = 0"
  "from_be (b # bs) = unat b * 256 ^ length bs + from_be bs"
  using from_be_fold[of bs "unat b"] by (simp_all add: from_be_def)

lemma from_be_less: "from_be bs < 256 ^ length bs"
proof (induction bs)
  case (Cons b bs)
  have "unat b < 256"
    using unsigned_less[of b] by simp
  then have "(unat b + 1) * 256 ^ length bs \<le> 256 * 256 ^ length bs"
    by (intro mult_le_mono1) simp
  then have "unat b * 256 ^ length bs + 256 ^ length bs \<le> 256 * 256 ^ length bs"
    by (simp only: add_mult_distrib mult_1)
  then show ?case
    using Cons.IH unfolding from_be_simps length_Cons power_Suc by linarith
qed simp

lemma from_be_snoc: "from_be (bs @ [b]) = from_be bs * 256 + unat b"
  by (simp add: from_be_def)

lemma length_to_be [simp]: "length (to_be w n) = w"
  by (induction w arbitrary: n) simp_all

lemma from_be_to_be: "from_be (to_be w n) = n mod 256 ^ w"
proof (induction w arbitrary: n)
  case (Suc w)
  have "unat (of_nat (n mod 256) :: u8) = n mod 256"
    by (simp add: unsigned_of_nat take_bit_eq_mod)
  then show ?case
    using Suc.IH[of "n div 256"] by (simp add: from_be_snoc mod_mult2_eq)
qed simp

section \<open>Little endian\<close>

primrec from_le :: "bytes \<Rightarrow> nat" where
  "from_le [] = 0"
| "from_le (b # bs) = unat b + 256 * from_le bs"

primrec to_le :: "nat \<Rightarrow> nat \<Rightarrow> bytes" where
  "to_le 0 n = []"
| "to_le (Suc w) n = of_nat (n mod 256) # to_le w (n div 256)"

lemma length_to_le [simp]: "length (to_le w n) = w"
  by (induction w arbitrary: n) simp_all

lemma from_le_to_le: "from_le (to_le w n) = n mod 256 ^ w"
proof (induction w arbitrary: n)
  case (Suc w)
  have "unat (of_nat (n mod 256) :: u8) = n mod 256"
    by (simp add: unsigned_of_nat take_bit_eq_mod)
  then show ?case
    using Suc.IH[of "n div 256"] by (simp add: mod_mult2_eq)
qed simp

lemma from_le_less: "from_le bs < 256 ^ length bs"
proof (induction bs)
  case (Cons b bs)
  have "unat b < 256"
    using unsigned_less[of b] by simp
  then show ?case
    using Cons.IH by simp
qed simp

lemma to_le_from_le: "to_le (length bs) (from_le bs) = bs"
proof (induction bs)
  case (Cons b bs)
  have "unat b < 256"
    using unsigned_less[of b] by simp
  then show ?case
    using Cons.IH by simp
qed simp

lemma to_be_from_be: "to_be (length bs) (from_be bs) = bs"
proof (induction bs rule: rev_induct)
  case (snoc b bs)
  have "unat b < 256"
    using unsigned_less[of b] by simp
  then show ?case
    using snoc.IH by (simp add: from_be_snoc)
qed simp

end
