(* ===== verification/Metadata.thy ===== *)
theory Metadata
  imports Utf8 Byte_Order
begin

text \<open>
  The reflected protocol schema of \<open>core/src/games/sc2/metadata/mod.rs\<close>: the metadata block
  an executable carries (header, two offset tables, dump records, dump strings), the shape of
  a type decoded from its dump record, the generated static schema, and \<open>Schema\<close>, which
  answers from either.

  A \<open>u32\<close> type id is a 32-bit word, a \<open>usize\<close> a natural, an \<open>i128\<close> an integer: the scalars
  of a metadata block have at most 64 bits, so nothing the code computes from them leaves
  the range of \<open>i128\<close>.  A string is its UTF-8 bytes.
\<close>

section \<open>Data\<close>

record metadata_header =
  version :: u32
  hflags :: u32
  type_count :: nat
  dump_size :: nat
  string_size :: nat

datatype type_kind =
    KArray | KByteString | KBitArray | KBlob | KBool | KChoice | KEnum | KFourCc
  | KInteger | KVoid | KOptional | KFloat32 | KFloat64 | KStruct | KString | KAlias

record type_metadata =
  tm_type_id :: u32
  tm_name :: "bytes option"
  tm_tag :: u8
  tm_flags :: u8
  tm_dump :: bytes
  tm_strings :: "bytes option list"

record integer_range =
  encoding :: u8
  bit_width :: "nat option"
  control_flag :: bool
  minimum :: int
  maximum :: int

definition range_count :: "integer_range \<Rightarrow> nat" where
  "range_count r = (if maximum r < minimum r then 0 else nat (maximum r - minimum r + 1))"

record type_shape =
  type_id :: u32
  kind :: type_kind
  implicit_indices :: bool
  obfuscated :: bool
  value_range :: "integer_range option"
  element_type :: "u32 option"
  index_values :: "int list"
  member_types :: "u32 list"
  member_names :: "bytes option list"

record static_type_shape =
  st_type_id :: u32
  st_name :: "bytes option"
  st_kind :: type_kind
  st_implicit_indices :: bool
  st_obfuscated :: bool
  st_value_range :: "integer_range option"
  st_element_type :: "u32 option"
  st_index_values :: "int list"
  st_member_types :: "u32 list"
  st_member_names :: "bytes option list"

record static_schema =
  ss_type_count :: nat
  ss_types :: "static_type_shape list"

record metadata =
  blob :: bytes
  header :: metadata_header
  dump_table_offset :: nat
  string_table_offset :: nat
  string_data_offset :: nat
  string_literal_offset :: nat
  dump_offsets :: "nat list"
  string_offset_table :: "nat list"
  dump_ends :: "nat \<rightharpoonup> nat"
  string_ends :: "nat \<rightharpoonup> nat"

datatype schema = Runtime metadata | Static static_schema

abbreviation METADATA_VERSION :: u32 where "METADATA_VERSION \<equiv> 7"
abbreviation HEADER_SIZE :: nat where "HEADER_SIZE \<equiv> 20"
abbreviation MAX_TYPE_COUNT :: nat where "MAX_TYPE_COUNT \<equiv> 1000000"

abbreviation meta_error :: "metadata_reason \<Rightarrow> 'a result" where
  "meta_error r \<equiv> Inl (error.Metadata r)"

section \<open>Scalars\<close>

definition read_u32_at :: "bytes \<Rightarrow> nat \<Rightarrow> u32 result" where
  "read_u32_at data offset =
     (case get_slice data offset (offset + 4) of
        None \<Rightarrow> meta_error U32Truncated
      | Some bs \<Rightarrow> Inr (of_nat (from_be bs)))"

definition read_u32 :: "bytes \<Rightarrow> nat \<Rightarrow> (u32 \<times> nat) result" where
  "read_u32 data offset = rbind (read_u32_at data offset) (\<lambda>v. Inr (v, offset + 4))"

definition scalar_width :: "u8 \<Rightarrow> nat option" where
  "scalar_width enc =
     (if enc = 0 \<or> enc = 1 then Some 1 else if enc = 2 \<or> enc = 3 then Some 2
      else if enc = 4 \<or> enc = 5 then Some 4 else if enc = 6 \<or> enc = 7 then Some 8 else None)"

definition read_scalar :: "bytes \<Rightarrow> nat \<Rightarrow> u8 \<Rightarrow> (int \<times> nat) result" where
  "read_scalar data offset enc =
     (case scalar_width enc of
        None \<Rightarrow> meta_error (UnknownIntegerEncoding (unat enc))
      | Some width \<Rightarrow>
          (case checked_add64 offset width of
             None \<Rightarrow> meta_error IntegerOverflows
           | Some stop \<Rightarrow>
               (case get_slice data offset stop of
                  None \<Rightarrow> meta_error IntegerTruncated
                | Some bs \<Rightarrow>
                    let unsigned = int (from_be bs); signed = (unat enc mod 2 = 0) in
                    if signed \<and> bs ! 0 AND 0x80 \<noteq> 0
                    then Inr (unsigned - 2 ^ (width * 8), stop)
                    else Inr (unsigned, stop))))"

definition read_type_range :: "bytes \<Rightarrow> nat \<Rightarrow> bool \<Rightarrow> (integer_range \<times> nat) result" where
  "read_type_range data offset single =
     rbind (ok_or (error.Metadata RangeTruncated) (get_at data offset)) (\<lambda>enc.
     let offset = offset + 1 in
     if single then
       rbind (read_scalar data offset enc) (\<lambda>(v, offset).
       Inr (\<lparr>encoding = enc, bit_width = None, control_flag = False, minimum = v, maximum = v\<rparr>, offset))
     else
       rbind (ok_or (error.Metadata RangeControlMissing) (get_at data offset)) (\<lambda>control.
       let offset = offset + 1 in
       rbind (read_scalar data offset enc) (\<lambda>(mn, offset).
       rbind (read_scalar data offset enc) (\<lambda>(mx, offset).
       Inr (\<lparr>encoding = enc, bit_width = Some (unat (control AND 0x7f)),
             control_flag = (control AND 0x80 \<noteq> 0), minimum = mn, maximum = mx\<rparr>, offset)))))"

fun read_scalars :: "nat \<Rightarrow> bytes \<Rightarrow> nat \<Rightarrow> u8 \<Rightarrow> (int list \<times> nat) result" where
  "read_scalars 0 data offset enc = Inr ([], offset)"
| "read_scalars (Suc n) data offset enc =
     rbind (read_scalar data offset enc) (\<lambda>(v, next).
     rbind (read_scalars n data next enc) (\<lambda>(vs, stop). Inr (v # vs, stop)))"

text \<open>
  Implicit indices are collected into a vector of 16-byte integers, which cannot hold \<open>2 ^ 59\<close> of them: the
  collection panics.  Fewer are taken to fit the memory.
\<close>

definition collect_range :: "integer_range \<Rightarrow> int list result" where
  "collect_range rng =
     (if maximum rng - minimum rng + 1 \<ge> 2 ^ 59 then Inl (Panic CapacityOverflow) else Inr [minimum rng..maximum rng])"

definition read_index_block :: "bytes \<Rightarrow> nat \<Rightarrow> integer_range \<Rightarrow> bool \<Rightarrow> (int list \<times> nat) result" where
  "read_index_block data offset rng implicit =
     (if implicit then rbind (collect_range rng) (\<lambda>indices. Inr (indices, offset))
      else
        rbind (ok_or (error.Metadata IndexCountMissing) (get_at data offset)) (\<lambda>count_encoding.
        if count_encoding \<notin> {1, 3, 5, 7} then meta_error (IndexCountEncoding (unat count_encoding))
        else
          rbind (read_scalar data (offset + 1) count_encoding) (\<lambda>(count, next).
          if 0 \<le> count \<and> nat count \<le> MAX_TYPE_COUNT
          then read_scalars (nat count) data next (encoding rng)
          else meta_error IndexCountUnreasonable)))"

section \<open>Header\<close>

definition parse_header :: "bytes \<Rightarrow> metadata_header result" where
  "parse_header data =
     (if length data < HEADER_SIZE then meta_error HeaderTruncated
      else
        rbind (read_u32_at data 0) (\<lambda>v.
        rbind (read_u32_at data 4) (\<lambda>f.
        rbind (read_u32_at data 8) (\<lambda>tc.
        rbind (read_u32_at data 12) (\<lambda>ds.
        rbind (read_u32_at data 16) (\<lambda>ss.
        Inr \<lparr>version = v, hflags = f, type_count = unat tc, dump_size = unat ds,
             string_size = unat ss\<rparr>))))))"

definition byte_size :: "metadata_header \<Rightarrow> nat result" where
  "byte_size h =
     rbind (ok_or (error.Metadata TypeTableOverflows) (checked_mul64 (type_count h) 4)) (\<lambda>table.
     ok_or (error.Metadata SizeOverflows)
       (Option.bind (checked_add64 HEADER_SIZE table) (\<lambda>s.
        Option.bind (checked_add64 s (dump_size h)) (\<lambda>s.
        Option.bind (checked_add64 s table) (\<lambda>s. checked_add64 s (string_size h))))))"

fun kind_from_tag :: "u8 \<Rightarrow> type_kind result" where
  "kind_from_tag tag =
     (if tag = 1 then Inr KArray else if tag = 2 then Inr KByteString
      else if tag = 3 then Inr KBitArray else if tag = 4 then Inr KBlob
      else if tag = 5 then Inr KBool else if tag = 6 then Inr KChoice
      else if tag = 7 then Inr KEnum else if tag = 8 then Inr KFourCc
      else if tag = 9 then Inr KInteger else if tag = 10 then Inr KVoid
      else if tag = 11 then Inr KOptional else if tag = 12 then Inr KFloat32
      else if tag = 13 then Inr KFloat64 else if tag = 14 then Inr KStruct
      else if tag = 15 then Inr KString else if tag = 16 then Inr KAlias
      else meta_error (UnknownTypeTag (unat tag)))"

fun type_kind_tag :: "type_kind \<Rightarrow> u8" where
  "type_kind_tag KArray = 1"
| "type_kind_tag KByteString = 2"
| "type_kind_tag KBitArray = 3"
| "type_kind_tag KBlob = 4"
| "type_kind_tag KBool = 5"
| "type_kind_tag KChoice = 6"
| "type_kind_tag KEnum = 7"
| "type_kind_tag KFourCc = 8"
| "type_kind_tag KInteger = 9"
| "type_kind_tag KVoid = 10"
| "type_kind_tag KOptional = 11"
| "type_kind_tag KFloat32 = 12"
| "type_kind_tag KFloat64 = 13"
| "type_kind_tag KStruct = 14"
| "type_kind_tag KString = 15"
| "type_kind_tag KAlias = 16"

declare kind_from_tag.simps [simp del]

section \<open>Offset tables and records\<close>

definition read_offset_table :: "bytes \<Rightarrow> nat \<Rightarrow> nat \<Rightarrow> nat list result" where
  "read_offset_table data offset count =
     rmap (\<lambda>index. rbind (read_u32_at data (offset + index * 4)) (\<lambda>v. Inr (unat v))) [0..<count]"

definition validate_offsets :: "nat list \<Rightarrow> nat \<Rightarrow> nat \<Rightarrow> bool \<Rightarrow> unit result" where
  "validate_offsets offsets start stop allow_zero =
     rbind (rmap (\<lambda>(id, offset).
        if allow_zero \<and> offset = 0 then Inr ()
        else if start \<le> offset \<and> offset < stop then Inr ()
        else meta_error (OffsetOutsideRegion id)) (enumerate 0 offsets)) (\<lambda>_. Inr ())"

text \<open>\<open>sort_unstable\<close> and \<open>dedup\<close>\<close>

definition sorted_starts :: "nat list \<Rightarrow> nat list" where
  "sorted_starts offsets = remdups_adj (sort offsets)"

definition record_ends :: "nat list \<Rightarrow> nat \<Rightarrow> bool \<Rightarrow> (nat \<rightharpoonup> nat)" where
  "record_ends offsets stop allow_zero =
     (let starts = sorted_starts (filter (\<lambda>offset. \<not> (allow_zero \<and> offset = 0)) offsets) in
      map_of (zip starts (drop 1 starts @ [stop])))"

section \<open>Parsing a metadata block\<close>

definition parse_metadata :: "bytes \<Rightarrow> metadata result" where
  "parse_metadata data =
     rbind (parse_header data) (\<lambda>h.
     if version h \<noteq> METADATA_VERSION then meta_error UnsupportedVersion
     else if type_count h = 0 then meta_error NoTypes
     else if type_count h > MAX_TYPE_COUNT then meta_error TypeCountUnreasonable
     else if dump_size h = 0 then meta_error NoDumpRecords
     else
       rbind (byte_size h) (\<lambda>size.
       if size \<noteq> length data then meta_error (SizeMismatch size (length data))
       else
         let table_size = type_count h * 4;
             dump_table = HEADER_SIZE;
             dump_data = dump_table + table_size;
             string_table = dump_data + dump_size h;
             string_data = string_table + table_size in
         rbind (read_offset_table data dump_table (type_count h)) (\<lambda>dumps.
         rbind (read_offset_table data string_table (type_count h)) (\<lambda>strings.
         rbind (validate_offsets dumps dump_data string_table False) (\<lambda>_.
         rbind (validate_offsets strings string_data (length data) True) (\<lambda>_.
         let starts = sorted_starts (filter (\<lambda>offset. offset \<noteq> 0) strings) in
         rbind (rmap (\<lambda>offset. rbind (read_u32_at data offset) (\<lambda>v. Inr (unat v))) starts) (\<lambda>firsts.
         let named = filter (\<lambda>offset. offset \<noteq> 0) firsts in
         if named = [] then meta_error NoNamedStrings
         else
           let literal = Min (set named) in
           if \<not> (string_data \<le> literal \<and> literal \<le> length data) then meta_error StringsOutsideRegion
           else if starts \<noteq> [] \<and> last starts \<ge> literal then meta_error StringsOverlapLiterals
           else Inr \<lparr>blob = data, header = h, dump_table_offset = dump_table,
                  string_table_offset = string_table, string_data_offset = string_data,
                  string_literal_offset = literal, dump_offsets = dumps, string_offset_table = strings,
                  dump_ends = record_ends dumps string_table False,
                  string_ends = record_ends strings literal True\<rparr>)))))))"

definition checked_offset :: "nat list \<Rightarrow> u32 \<Rightarrow> nat result" where
  "checked_offset table tid = ok_or (error.Metadata (TypeIdOutOfRange (unat tid))) (get_at table (unat tid))"

text \<open>The slice \<open>blob[a..b]\<close> panics outside the blob.\<close>

definition blob_slice :: "bytes \<Rightarrow> nat \<Rightarrow> nat \<Rightarrow> bytes result" where
  "blob_slice data a b = ok_or (Panic SliceOutOfBounds) (get_slice data a b)"

definition dump_record :: "metadata \<Rightarrow> u32 \<Rightarrow> bytes result" where
  "dump_record m tid =
     rbind (checked_offset (dump_offsets m) tid) (\<lambda>start.
     rbind (ok_or (error.Metadata DumpRecordNoEnd) (dump_ends m start)) (\<lambda>stop.
     blob_slice (blob m) start stop))"

definition string_offsets :: "metadata \<Rightarrow> u32 \<Rightarrow> nat list result" where
  "string_offsets m tid =
     rbind (checked_offset (string_offset_table m) tid) (\<lambda>start.
     if start = 0 then Inr []
     else
       rbind (ok_or (error.Metadata StringRecordNoEnd) (string_ends m start)) (\<lambda>stop.
       if stop < start then Inl (Panic ArithmeticOverflow)
       else if (stop - start) mod 4 \<noteq> 0 then meta_error (StringRecordUnaligned (unat tid))
       else rmap (\<lambda>k. rbind (read_u32_at (blob m) (start + 4 * k)) (\<lambda>v. Inr (unat v)))
              [0..<(stop - start) div 4]))"

definition string_at :: "metadata \<Rightarrow> nat \<Rightarrow> bytes option result" where
  "string_at m offset =
     (if offset = 0 then Inr None
      else if \<not> (string_literal_offset m \<le> offset \<and> offset < length (blob m))
      then meta_error StringOffsetOutside
      else
        rbind (blob_slice (blob m) offset (length (blob m))) (\<lambda>tail.
        rbind (ok_or (error.Metadata StringNotTerminated) (position_of (\<lambda>b. b = 0) tail)) (\<lambda>relative_end.
        rbind (blob_slice (blob m) offset (offset + relative_end)) (\<lambda>bs.
        rbind (ok_or (error.Metadata StringNotUtf8) (from_utf8 bs)) (\<lambda>s. Inr (Some s))))))"

definition strings :: "metadata \<Rightarrow> u32 \<Rightarrow> bytes option list result" where
  "strings m tid = rbind (string_offsets m tid) (rmap (string_at m))"

definition metadata_type :: "metadata \<Rightarrow> u32 \<Rightarrow> type_metadata result" where
  "metadata_type m tid =
     rbind (dump_record m tid) (\<lambda>dump.
     rbind (ok_or (error.Metadata (DumpRecordEmpty (unat tid))) (get_at dump 0)) (\<lambda>first.
     rbind (strings m tid) (\<lambda>ss.
     Inr \<lparr>tm_type_id = tid, tm_name = Option.bind (get_at ss 0) (\<lambda>s. s),
          tm_tag = first AND 0x3f, tm_flags = drop_bit 6 first, tm_dump = dump, tm_strings = ss\<rparr>)))"

definition name_hit :: "(bytes \<Rightarrow> bytes) \<Rightarrow> bytes \<Rightarrow> bool \<Rightarrow> bytes \<Rightarrow> bool" where
  "name_hit to_lowercase query exact name =
     (if exact then eq_ignore_ascii_case name query
      else \<exists>i \<le> length (to_lowercase name). take (length (to_lowercase query)) (drop i (to_lowercase name)) = to_lowercase query)"

section \<open>Shapes\<close>

fun read_u32s :: "nat \<Rightarrow> bytes \<Rightarrow> nat \<Rightarrow> (u32 list \<times> nat) result" where
  "read_u32s 0 data offset = Inr ([], offset)"
| "read_u32s (Suc n) data offset =
     rbind (read_u32 data offset) (\<lambda>(v, next).
     rbind (read_u32s n data next) (\<lambda>(vs, stop). Inr (v # vs, stop)))"

record shape_parts =
  sp_range :: "integer_range option"
  sp_element :: "u32 option"
  sp_indices :: "int list"
  sp_members :: "u32 list"

text \<open>The \<open>match kind\<close> of \<open>Metadata::shape\<close>: what the dump record holds behind its tag.\<close>

definition read_shape_parts :: "type_kind \<Rightarrow> bool \<Rightarrow> bytes \<Rightarrow> (shape_parts \<times> nat) result" where
  "read_shape_parts k implicit dump =
     (case k of
        KArray \<Rightarrow>
          rbind (read_type_range dump 1 implicit) (\<lambda>(r, next).
          rbind (read_u32 dump next) (\<lambda>(element, next).
          Inr (\<lparr>sp_range = Some r, sp_element = Some element, sp_indices = [], sp_members = []\<rparr>, next)))
      | KByteString \<Rightarrow>
          rbind (read_type_range dump 1 False) (\<lambda>(r, next).
          Inr (\<lparr>sp_range = Some r, sp_element = None, sp_indices = [], sp_members = []\<rparr>, next))
      | KString \<Rightarrow>
          rbind (read_type_range dump 1 False) (\<lambda>(r, next).
          Inr (\<lparr>sp_range = Some r, sp_element = None, sp_indices = [], sp_members = []\<rparr>, next))
      | KInteger \<Rightarrow>
          rbind (read_type_range dump 1 False) (\<lambda>(r, next).
          Inr (\<lparr>sp_range = Some r, sp_element = None, sp_indices = [], sp_members = []\<rparr>, next))
      | KBitArray \<Rightarrow>
          rbind (read_type_range dump 1 implicit) (\<lambda>(r, next).
          Inr (\<lparr>sp_range = Some r, sp_element = None, sp_indices = [], sp_members = []\<rparr>, next))
      | KBlob \<Rightarrow>
          rbind (read_type_range dump 1 implicit) (\<lambda>(r, next).
          Inr (\<lparr>sp_range = Some r, sp_element = None, sp_indices = [], sp_members = []\<rparr>, next))
      | KEnum \<Rightarrow>
          rbind (read_type_range dump 1 False) (\<lambda>(r, next).
          rbind (read_index_block dump next r implicit) (\<lambda>(indices, next).
          Inr (\<lparr>sp_range = Some r, sp_element = None, sp_indices = indices, sp_members = []\<rparr>, next)))
      | KChoice \<Rightarrow>
          rbind (read_type_range dump 1 False) (\<lambda>(r, next).
          rbind (read_index_block dump next r implicit) (\<lambda>(indices, next).
          rbind (read_u32s (length indices) dump next) (\<lambda>(members, next).
          Inr (\<lparr>sp_range = Some r, sp_element = None, sp_indices = indices, sp_members = members\<rparr>, next))))
      | KStruct \<Rightarrow>
          rbind (read_type_range dump 1 False) (\<lambda>(r, next).
          rbind (read_index_block dump next r implicit) (\<lambda>(indices, next).
          rbind (read_u32s (length indices) dump next) (\<lambda>(members, next).
          Inr (\<lparr>sp_range = Some r, sp_element = None, sp_indices = indices, sp_members = members\<rparr>, next))))
      | KOptional \<Rightarrow>
          rbind (read_u32 dump 1) (\<lambda>(element, next).
          Inr (\<lparr>sp_range = None, sp_element = Some element, sp_indices = [], sp_members = []\<rparr>, next))
      | KAlias \<Rightarrow>
          rbind (read_u32 dump 1) (\<lambda>(element, next).
          Inr (\<lparr>sp_range = None, sp_element = Some element, sp_indices = [], sp_members = []\<rparr>, next))
      | _ \<Rightarrow> Inr (\<lparr>sp_range = None, sp_element = None, sp_indices = [], sp_members = []\<rparr>, 1))"

definition metadata_shape :: "metadata \<Rightarrow> u32 \<Rightarrow> type_shape result" where
  "metadata_shape m tid =
     rbind (metadata_type m tid) (\<lambda>info.
     rbind (ok_or (Panic IndexOutOfBounds) (get_at (tm_dump info) 0)) (\<lambda>raw_tag.
     rbind (kind_from_tag (raw_tag AND 0x3f)) (\<lambda>k.
     let implicit = (raw_tag AND 0x80 \<noteq> 0); obf = (raw_tag AND 0x40 \<noteq> 0) in
     rbind (read_shape_parts k implicit (tm_dump info)) (\<lambda>(parts, offset).
     if offset \<noteq> length (tm_dump info)
     then (if length (tm_dump info) < offset then Inl (Panic ArithmeticOverflow)
           else meta_error (UnparsedBytes (unat tid) (length (tm_dump info) - offset)))
     else Inr \<lparr>type_id = tid, kind = k, implicit_indices = implicit, obfuscated = obf,
            value_range = sp_range parts, element_type = sp_element parts,
            index_values = sp_indices parts, member_types = sp_members parts,
            member_names = map (\<lambda>i. Option.bind (get_at (tm_strings info) (i + 1)) (\<lambda>s. s))
              [0..<length (sp_indices parts)]\<rparr>))))"

text \<open>\<open>Metadata::find\<close>; the Unicode \<open>to_lowercase\<close> is an argument, used for inexact queries only.\<close>

definition metadata_find :: "(bytes \<Rightarrow> bytes) \<Rightarrow> metadata \<Rightarrow> bytes \<Rightarrow> bool \<Rightarrow> type_metadata list result" where
  "metadata_find to_lowercase m query exact =
     (if type_count (header m) \<ge> 2 ^ 32 then meta_error TypeCountExceedsU32
      else
        rbind (rmap (\<lambda>tid. metadata_type m (of_nat tid)) [0..<type_count (header m)]) (\<lambda>infos.
        Inr (filter (\<lambda>info. case tm_name info of None \<Rightarrow> False | Some name \<Rightarrow> name_hit to_lowercase query exact name)
               infos)))"

section \<open>The generated schema\<close>

definition to_shape :: "static_type_shape \<Rightarrow> type_shape" where
  "to_shape s =
     \<lparr>type_id = st_type_id s, kind = st_kind s, implicit_indices = st_implicit_indices s,
      obfuscated = st_obfuscated s, value_range = st_value_range s, element_type = st_element_type s,
      index_values = st_index_values s, member_types = st_member_types s,
      member_names = st_member_names s\<rparr>"

text \<open>\<open>slice::binary_search_by_key\<close>: halve the window, keep its lower end at or below the key.\<close>

function search_window :: "('a \<Rightarrow> u32) \<Rightarrow> 'a list \<Rightarrow> u32 \<Rightarrow> nat \<Rightarrow> nat \<Rightarrow> nat" where
  "search_window key xs k base sz =
     (if sz \<le> 1 then base
      else let half = sz div 2; mid = base + half in
        search_window key xs k (if key (xs ! mid) > k then base else mid) (sz - half))"
  by pat_completeness auto
termination
  by (relation "measure (\<lambda>(key, xs, k, base, sz). sz)") (auto simp: Let_def)

declare search_window.simps [simp del]

definition binary_search :: "('a \<Rightarrow> u32) \<Rightarrow> 'a list \<Rightarrow> u32 \<Rightarrow> nat option" where
  "binary_search key xs k =
     (if xs = [] then None
      else let i = search_window key xs k 0 (length xs) in
        if key (xs ! i) = k then Some i else None)"

definition static_get :: "static_schema \<Rightarrow> u32 \<Rightarrow> static_type_shape result" where
  "static_get s tid =
     (case binary_search st_type_id (ss_types s) tid of
        Some i \<Rightarrow> Inr (ss_types s ! i)
      | None \<Rightarrow> meta_error (NotInSchema (unat tid)))"

definition static_type :: "static_schema \<Rightarrow> u32 \<Rightarrow> type_metadata result" where
  "static_type s tid =
     rbind (static_get s tid) (\<lambda>sh.
     Inr \<lparr>tm_type_id = tid, tm_name = st_name sh, tm_tag = type_kind_tag (st_kind sh),
          tm_flags = (push_bit 1 (of_bool (st_implicit_indices sh))) OR of_bool (st_obfuscated sh),
          tm_dump = [], tm_strings = [st_name sh]\<rparr>)"

definition static_find :: "(bytes \<Rightarrow> bytes) \<Rightarrow> static_schema \<Rightarrow> bytes \<Rightarrow> bool \<Rightarrow> type_metadata list result" where
  "static_find to_lowercase s query exact =
     rmap (\<lambda>sh. static_type s (st_type_id sh))
       (filter (\<lambda>sh. case st_name sh of None \<Rightarrow> False | Some name \<Rightarrow> name_hit to_lowercase query exact name)
          (ss_types s))"

section \<open>Schema\<close>

fun schema_type_count :: "schema \<Rightarrow> nat" where
  "schema_type_count (Runtime m) = type_count (header m)"
| "schema_type_count (Static s) = ss_type_count s"

fun known_type_ids :: "schema \<Rightarrow> u32 list" where
  "known_type_ids (Runtime m) = map of_nat [0..<type_count (header m)]"
| "known_type_ids (Static s) = map st_type_id (ss_types s)"

fun schema_type :: "schema \<Rightarrow> u32 \<Rightarrow> type_metadata result" where
  "schema_type (Runtime m) tid = metadata_type m tid"
| "schema_type (Static s) tid = static_type s tid"

fun schema_find :: "(bytes \<Rightarrow> bytes) \<Rightarrow> schema \<Rightarrow> bytes \<Rightarrow> bool \<Rightarrow> type_metadata list result" where
  "schema_find to_lowercase (Runtime m) query exact = metadata_find to_lowercase m query exact"
| "schema_find to_lowercase (Static s) query exact = static_find to_lowercase s query exact"

text \<open>\<open>unique_type_id\<close> asks for an exact hit, which does not lower-case.\<close>

definition unique_type_id :: "schema \<Rightarrow> bytes \<Rightarrow> u32 result" where
  "unique_type_id s exact_name =
     rbind (schema_find (\<lambda>q. q) s exact_name True) (\<lambda>matches.
     if length matches \<noteq> 1 then meta_error (NotUnique (length matches))
     else Inr (tm_type_id (matches ! 0)))"

fun schema_shape :: "schema \<Rightarrow> u32 \<Rightarrow> type_shape result" where
  "schema_shape (Runtime m) tid = metadata_shape m tid"
| "schema_shape (Static s) tid = rbind (static_get s tid) (\<lambda>sh. Inr (to_shape sh))"

fun runtime_metadata :: "schema \<Rightarrow> metadata option" where
  "runtime_metadata (Runtime m) = Some m"
| "runtime_metadata (Static s) = None"

section \<open>Searching an executable\<close>

text \<open>The body of the loop of \<open>find_metadata_blobs\<close>; \<open>None\<close> is \<open>continue\<close>.\<close>

definition blob_at :: "bytes \<Rightarrow> nat \<Rightarrow> metadata option" where
  "blob_at data offset =
     (if slice_of data offset (offset + 4) \<noteq> [0, 0, 0, 7] then None
      else case parse_header (drop offset data) of
        Inl _ \<Rightarrow> None
      | Inr h \<Rightarrow>
          if type_count h = 0 \<or> type_count h > MAX_TYPE_COUNT \<or> dump_size h = 0 then None
          else (case byte_size h of
              Inl _ \<Rightarrow> None
            | Inr sz \<Rightarrow>
                (case get_slice data offset (min (offset + sz) (2 ^ 64 - 1)) of
                   None \<Rightarrow> None
                 | Some b \<Rightarrow> (case parse_metadata b of Inl _ \<Rightarrow> None | Inr m \<Rightarrow> Some m))))"

definition find_metadata_blobs :: "bytes \<Rightarrow> (nat \<times> metadata) list" where
  "find_metadata_blobs data =
     List.map_filter (\<lambda>offset. map_option (Pair offset) (blob_at data offset))
       [0..<length data - (HEADER_SIZE - 1)]"

text \<open>\<open>max_by_key\<close> keeps the last of several greatest elements.\<close>

definition largest_metadata :: "bytes \<Rightarrow> metadata option" where
  "largest_metadata data =
     map_option snd (fold (\<lambda>x best. case best of None \<Rightarrow> Some x
        | Some y \<Rightarrow> if length (blob (snd y)) \<le> length (blob (snd x)) then Some x else Some y)
       (find_metadata_blobs data) None)"

end
