(* ===== verification/Metadata_Laws.thy ===== *)
theory Metadata_Laws
  imports Metadata
begin

text \<open>
  What holds of metadata blocks and schemas: every reader stays inside its data, the only
  errors are metadata errors (so nothing panics), the records of a parsed block tile their
  region, shapes carry what their kind needs, the static schema's binary search is exact,
  scalars are in range and read back, and the search through an executable finds every block.
\<close>

section \<open>Readers stay inside their data\<close>

lemma read_u32_at_Inr: "read_u32_at data offset = Inr v \<Longrightarrow> offset + 4 \<le> length data"
  by (auto simp: read_u32_at_def get_slice_def split: option.splits if_splits)

lemma read_u32_next: "read_u32 data offset = Inr (v, nxt) \<Longrightarrow> offset < nxt \<and> nxt \<le> length data"
  by (auto simp: read_u32_def rbind_Inr_iff dest!: read_u32_at_Inr)

lemma read_scalar_next: "read_scalar data offset enc = Inr (v, nxt) \<Longrightarrow> offset < nxt \<and> nxt \<le> length data"
  by (auto simp: read_scalar_def scalar_width_def checked_add64_def get_slice_def Let_def
      split: option.splits if_splits)

lemma read_type_range_next:
  "read_type_range data offset single = Inr (r, nxt) \<Longrightarrow> offset < nxt \<and> nxt \<le> length data"
  by (auto simp: read_type_range_def rbind_Inr_iff Let_def split: if_splits dest!: read_scalar_next)

lemma read_scalars_next:
  "read_scalars n data offset enc = Inr (vs, nxt) \<Longrightarrow> offset \<le> length data \<Longrightarrow>
     length vs = n \<and> offset \<le> nxt \<and> nxt \<le> length data"
proof (induction n arbitrary: offset vs nxt)
  case (Suc n)
  then obtain v mid vs' where "read_scalar data offset enc = Inr (v, mid)"
      "read_scalars n data mid enc = Inr (vs', nxt)" "vs = v # vs'"
    by (auto simp: rbind_Inr_iff)
  then show ?case
    using Suc.IH[of mid vs' nxt] read_scalar_next[of data offset enc v mid] by auto
qed simp

lemma read_u32s_next:
  "read_u32s n data offset = Inr (vs, nxt) \<Longrightarrow> offset \<le> length data \<Longrightarrow>
     length vs = n \<and> offset \<le> nxt \<and> nxt \<le> length data"
proof (induction n arbitrary: offset vs nxt)
  case (Suc n)
  then obtain v mid vs' where "read_u32 data offset = Inr (v, mid)"
      "read_u32s n data mid = Inr (vs', nxt)" "vs = v # vs'"
    by (auto simp: rbind_Inr_iff)
  then show ?case
    using Suc.IH[of mid vs' nxt] read_u32_next[of data offset v mid] by auto
qed simp

lemma read_u32s_length: "read_u32s n data offset = Inr (vs, nxt) \<Longrightarrow> length vs = n"
  by (induction n arbitrary: offset vs) (auto simp: rbind_Inr_iff)

lemma read_index_block_next:
  "read_index_block data offset r implicit = Inr (vs, nxt) \<Longrightarrow> offset \<le> length data \<Longrightarrow>
     offset \<le> nxt \<and> nxt \<le> length data"
  by (auto simp: read_index_block_def rbind_Inr_iff split: if_splits
      dest!: read_scalar_next dest: read_scalars_next)

lemmas next_rules = read_u32_next read_scalar_next read_type_range_next read_scalars_next
  read_u32s_next read_index_block_next

definition meta_only :: "'a result \<Rightarrow> bool" where
  "meta_only v \<longleftrightarrow> (\<forall>e. v = Inl e \<longrightarrow> (\<exists>r. e = error.Metadata r))"

named_theorems meta_intros \<open>operations whose only errors are metadata errors\<close>

lemma meta_only_simps [simp]:
  "meta_only (Inr x)" "meta_only (meta_error r)" "meta_only (ok_or (error.Metadata r) v)"
  by (auto simp: meta_only_def)

lemma meta_only_bind [meta_intros]:
  "meta_only m \<Longrightarrow> (\<And>x. m = Inr x \<Longrightarrow> meta_only (f x)) \<Longrightarrow> meta_only (rbind m f)"
  by (cases m) (auto simp: meta_only_def)

lemma meta_only_rmap [meta_intros]:
  "(\<And>x. x \<in> set xs \<Longrightarrow> meta_only (f x)) \<Longrightarrow> meta_only (rmap f xs)"
  by (induction xs) (auto intro!: meta_only_bind)

lemma meta_only_u32_at [meta_intros, simp]: "meta_only (read_u32_at data offset)"
  by (auto simp: meta_only_def read_u32_at_def split: option.splits)

lemma meta_only_u32 [meta_intros, simp]: "meta_only (read_u32 data offset)"
  by (auto simp: read_u32_def intro!: meta_intros)

lemma meta_only_scalar [meta_intros, simp]: "meta_only (read_scalar data offset enc)"
  by (auto simp: meta_only_def read_scalar_def Let_def split: option.splits if_splits)

lemma meta_only_range [meta_intros, simp]: "meta_only (read_type_range data offset single)"
  by (auto simp: read_type_range_def Let_def intro!: meta_intros)

lemma meta_only_scalars [meta_intros, simp]: "meta_only (read_scalars n data offset enc)"
  by (induction n arbitrary: offset) (auto intro!: meta_intros)

lemma meta_only_u32s [meta_intros, simp]: "meta_only (read_u32s n data offset)"
  by (induction n arbitrary: offset) (auto intro!: meta_intros)

text \<open>Listed indices are read without a panic, implicit ones are collected unless there are too many.\<close>

lemma index_block_errors:
  "read_index_block data offset r implicit = Inl e \<Longrightarrow>
    (\<exists>m. e = error.Metadata m) \<or> e = Panic CapacityOverflow \<and> implicit \<and> 2 ^ 59 \<le> maximum r - minimum r + 1"
proof -
  assume run: "read_index_block data offset r implicit = Inl e"
  show ?thesis
  proof (cases implicit)
    case True
    then show ?thesis
      using run by (auto simp: read_index_block_def collect_range_def split: if_split_asm)
  next
    case False
    have "meta_only (read_index_block data offset r False)"
      by (auto simp: read_index_block_def intro!: meta_intros)
    then show ?thesis
      using run False by (auto simp: meta_only_def)
  qed
qed

lemma meta_only_kind [meta_intros, simp]: "meta_only (kind_from_tag tag)"
  by (simp add: kind_from_tag.simps)

lemma meta_only_header [simp]: "meta_only (parse_header data)"
  by (auto simp: parse_header_def intro!: meta_intros)

lemma meta_only_byte_size [simp]: "meta_only (byte_size h)"
  by (auto simp: byte_size_def intro!: meta_intros)

text \<open>The collection of implicit indices is the only panic of a shape.\<close>

definition huge_range :: "type_kind \<Rightarrow> bool \<Rightarrow> bytes \<Rightarrow> bool" where
  "huge_range k implicit dump \<longleftrightarrow> k \<in> {KEnum, KChoice, KStruct} \<and> implicit \<and>
     (\<exists>r nxt. read_type_range dump 1 False = Inr (r, nxt) \<and> 2 ^ 59 \<le> maximum r - minimum r + 1)"

lemma meta_only_InlD: "v = Inl e \<Longrightarrow> meta_only v \<Longrightarrow> \<exists>m. e = error.Metadata m"
  by (simp add: meta_only_def)

lemma parts_errors:
  assumes "read_shape_parts k implicit dump = Inl e"
  shows "(\<exists>m. e = error.Metadata m) \<or> e = Panic CapacityOverflow \<and> huge_range k implicit dump"
  using assms
  by (cases k)
    (auto simp: read_shape_parts_def rbind_Inl_iff huge_range_def
      dest!: index_block_errors meta_only_InlD[OF _ meta_only_range] meta_only_InlD[OF _ meta_only_u32]
        meta_only_InlD[OF _ meta_only_u32s])

lemma parts_huge: "huge_range k implicit dump \<Longrightarrow> read_shape_parts k implicit dump = Inl (Panic CapacityOverflow)"
  by (auto simp: huge_range_def read_shape_parts_def read_index_block_def collect_range_def)

lemma meta_only_parse: "meta_only (parse_metadata data)"
  by (auto simp: parse_metadata_def read_offset_table_def validate_offsets_def Let_def intro!: meta_intros)

lemma read_shape_parts_next:
  assumes "read_shape_parts k implicit dump = Inr (parts, nxt)" and "dump \<noteq> []"
  shows "nxt \<le> length dump"
proof -
  have "1 \<le> length dump"
    using assms(2) by (simp add: Suc_le_eq)
  then show ?thesis
    using assms(1) by (cases k) (auto simp: read_shape_parts_def rbind_Inr_iff dest!: next_rules)
qed

section \<open>Record tables\<close>

lemma distinct_remdups_adj_sorted: "sorted xs \<Longrightarrow> distinct (remdups_adj (xs :: nat list))"
  by (induction xs rule: remdups_adj.induct) (auto simp: antisym)

lemma sorted_starts_props:
  "sorted (sorted_starts xs)" "distinct (sorted_starts xs)" "set (sorted_starts xs) = set xs"
  by (simp_all add: sorted_starts_def distinct_remdups_adj_sorted)

lemma zip_next:
  assumes "sorted starts" and "distinct starts" and "s \<in> set starts" and "\<And>x. x \<in> set starts \<Longrightarrow> x < stop"
  shows "\<exists>e. map_of (zip starts (drop 1 starts @ [stop])) s = Some e \<and> s < e \<and> e \<le> stop
     \<and> (e = stop \<or> e \<in> set starts) \<and> (\<forall>x \<in> set starts. s < x \<longrightarrow> e \<le> x)"
  using assms
proof (induction starts)
  case (Cons a starts)
  show ?case
  proof (cases starts)
    case Nil
    then show ?thesis using Cons.prems by auto
  next
    case (Cons b rest)
    have "a < b"
      using Cons.prems Cons by (auto simp: less_le)
    show ?thesis
    proof (cases "s = a")
      case True
      then show ?thesis
        using \<open>starts = b # rest\<close> \<open>a < b\<close> Cons.prems by (auto intro: less_imp_le)
    next
      case False
      then have s: "s \<in> set starts" using Cons.prems by simp
      moreover have "a < s"
        using Cons.prems s by (auto simp: less_le)
      ultimately show ?thesis
        using Cons.IH Cons.prems \<open>starts = b # rest\<close> False by auto
    qed
  qed
qed simp

lemma record_ends_next:
  assumes "s \<in> set offsets" and "\<not> (allow_zero \<and> s = 0)"
    and "\<And>x. x \<in> set offsets \<Longrightarrow> \<not> (allow_zero \<and> x = 0) \<Longrightarrow> x < stop"
  shows "\<exists>e. record_ends offsets stop allow_zero s = Some e \<and> s < e \<and> e \<le> stop
     \<and> (\<forall>x \<in> set offsets. s < x \<longrightarrow> e \<le> x)"
proof -
  let ?starts = "sorted_starts (filter (\<lambda>offset. \<not> (allow_zero \<and> offset = 0)) offsets)"
  have "s \<in> set ?starts" and "\<And>x. x \<in> set ?starts \<Longrightarrow> x < stop"
    using assms by (auto simp: sorted_starts_props)
  from zip_next[OF sorted_starts_props(1,2) this] show ?thesis
    by (auto simp: record_ends_def Let_def sorted_starts_props)
qed

section \<open>A parsed block is well-formed\<close>

definition wf_metadata :: "metadata \<Rightarrow> bool" where
  "wf_metadata m \<longleftrightarrow>
     string_table_offset m \<le> length (blob m) \<and> string_literal_offset m \<le> length (blob m) \<and>
     length (dump_offsets m) = type_count (header m) \<and>
     length (string_offset_table m) = type_count (header m) \<and>
     (\<forall>s \<in> set (dump_offsets m). s < string_table_offset m) \<and>
     (\<forall>s \<in> set (string_offset_table m). s \<noteq> 0 \<longrightarrow> s < string_literal_offset m) \<and>
     dump_ends m = record_ends (dump_offsets m) (string_table_offset m) False \<and>
     string_ends m = record_ends (string_offset_table m) (string_literal_offset m) True"

lemma rmap_unit_iff: "(\<exists>us. rmap f xs = Inr us) \<longleftrightarrow> (\<forall>x \<in> set xs. \<exists>u. f x = Inr u)"
  by (induction xs) (auto simp: rbind_Inr_iff)

lemma validate_offsets_ok:
  assumes "validate_offsets offsets start stop allow_zero = Inr u" and "x \<in> set offsets"
  shows "(allow_zero \<and> x = 0) \<or> (start \<le> x \<and> x < stop)"
proof -
  obtain i where i: "i < length offsets" "x = offsets ! i"
    using assms(2) by (auto simp: in_set_conv_nth)
  then have "(i, x) \<in> set (enumerate 0 offsets)"
    by (auto simp: in_set_enumerate_eq)
  moreover have "\<exists>us. rmap (\<lambda>(id, offset).
        if allow_zero \<and> offset = 0 then Inr ()
        else if start \<le> offset \<and> offset < stop then Inr ()
        else meta_error (OffsetOutsideRegion id)) (enumerate 0 offsets) = Inr us"
    using assms(1) by (auto simp: validate_offsets_def rbind_Inr_iff)
  ultimately show ?thesis
    unfolding rmap_unit_iff by (fastforce split: if_splits)
qed

lemma read_offset_table_length: "read_offset_table data offset count = Inr xs \<Longrightarrow> length xs = count"
  by (auto simp: read_offset_table_def dest: rmap_Inr_length)

lemma byte_size_Inr:
  "byte_size h = Inr n \<longleftrightarrow> n = 20 + 2 * (4 * type_count h) + dump_size h + string_size h \<and> n < 2 ^ 64"
  by (auto simp: byte_size_def checked_add64_def checked_mul64_def rbind_Inr_iff split: if_splits)

lemma sorted_last_ge: "sorted xs \<Longrightarrow> x \<in> set xs \<Longrightarrow> x \<le> last (xs :: nat list)"
  by (induction xs) auto

lemma parse_metadata_wf: "parse_metadata data = Inr m \<Longrightarrow> wf_metadata m"
proof -
  assume parse: "parse_metadata data = Inr m"
  then obtain h dumps strs firsts where
    size: "byte_size h = Inr (length data)" and
    dumps: "read_offset_table data 20 (type_count h) = Inr dumps" and
    strs: "read_offset_table data (20 + type_count h * 4 + dump_size h) (type_count h) = Inr strs" and
    vd: "validate_offsets dumps (20 + type_count h * 4) (20 + type_count h * 4 + dump_size h) False = Inr ()" and
    lit: "Min (set (filter (\<lambda>offset. offset \<noteq> 0) firsts)) \<le> length data" and
    last: "let starts = sorted_starts (filter (\<lambda>offset. offset \<noteq> 0) strs) in starts = [] \<or>
       last starts < Min (set (filter (\<lambda>offset. offset \<noteq> 0) firsts))" and
    m: "m = \<lparr>blob = data, header = h, dump_table_offset = 20,
       string_table_offset = 20 + type_count h * 4 + dump_size h,
       string_data_offset = 20 + type_count h * 4 + dump_size h + type_count h * 4,
       string_literal_offset = Min (set (filter (\<lambda>offset. offset \<noteq> 0) firsts)),
       dump_offsets = dumps, string_offset_table = strs,
       dump_ends = record_ends dumps (20 + type_count h * 4 + dump_size h) False,
       string_ends = record_ends strs (Min (set (filter (\<lambda>offset. offset \<noteq> 0) firsts))) True\<rparr>"
    by (auto simp: parse_metadata_def rbind_Inr_iff Let_def not_le split: if_splits)
  have "s < Min (set (filter (\<lambda>offset. offset \<noteq> 0) firsts))" if "s \<in> set strs" "s \<noteq> 0" for s
  proof -
    have "s \<in> set (sorted_starts (filter (\<lambda>offset. offset \<noteq> 0) strs))"
      using that by (simp add: sorted_starts_props)
    then show ?thesis
      using last sorted_last_ge[OF sorted_starts_props(1)] by (fastforce simp: Let_def)
  qed
  then show ?thesis
    using size lit validate_offsets_ok[OF vd] read_offset_table_length[OF dumps] read_offset_table_length[OF strs]
    unfolding wf_metadata_def m byte_size_Inr by auto
qed

section \<open>Accessors of a parsed block\<close>

lemma checked_offset_Inr: "checked_offset table tid = Inr s \<Longrightarrow> s \<in> set table"
  by (auto simp: checked_offset_def get_at_def split: if_splits)

lemma dump_record_ok:
  assumes "wf_metadata m" and "unat tid < type_count (header m)"
  shows "\<exists>dump. dump_record m tid = Inr dump \<and> dump \<noteq> []"
proof -
  let ?s = "dump_offsets m ! unat tid"
  have s: "?s \<in> set (dump_offsets m)" "checked_offset (dump_offsets m) tid = Inr ?s"
    using assms by (simp_all add: wf_metadata_def checked_offset_def get_at_def)
  obtain e where e: "dump_ends m ?s = Some e" "?s < e" "e \<le> string_table_offset m"
    using record_ends_next[OF s(1), of False "string_table_offset m"] assms(1)
    unfolding wf_metadata_def by auto
  then have "e \<le> length (blob m)"
    using assms(1) by (simp add: wf_metadata_def)
  then show ?thesis
    using s e by (auto simp: dump_record_def blob_slice_def get_slice_def slice_of_def)
qed

lemma dump_record_cases:
  assumes "wf_metadata m"
  shows "dump_record m tid =
      meta_error (TypeIdOutOfRange (unat tid)) \<and> type_count (header m) \<le> unat tid \<or>
    (\<exists>dump. dump_record m tid = Inr dump \<and> dump \<noteq> [])"
  using assms dump_record_ok[OF assms, of tid]
  by (cases "unat tid < type_count (header m)")
    (auto simp: dump_record_def checked_offset_def get_at_def wf_metadata_def)

lemma meta_only_string_offsets:
  assumes "wf_metadata m"
  shows "meta_only (string_offsets m tid)"
proof -
  have "s < e" if "checked_offset (string_offset_table m) tid = Inr s" "s \<noteq> 0" "string_ends m s = Some e" for s e
    using record_ends_next[OF checked_offset_Inr[OF that(1)], of True "string_literal_offset m"] assms that(2,3)
    unfolding wf_metadata_def by auto
  then show ?thesis
    by (auto simp: string_offsets_def checked_offset_def split: if_splits intro!: meta_intros) fastforce+
qed

lemma meta_only_string_at: "meta_only (string_at m offset)"
  by (auto simp: string_at_def blob_slice_def get_slice_def slice_of_def split: if_splits
      dest!: position_of_less intro!: meta_intros)

lemma meta_only_strings: "wf_metadata m \<Longrightarrow> meta_only (strings m tid)"
  unfolding strings_def by (intro meta_intros meta_only_string_offsets meta_only_string_at)

lemma meta_only_type:
  assumes "wf_metadata m"
  shows "meta_only (metadata_type m tid)"
  using dump_record_cases[OF assms, of tid]
  by (auto simp: metadata_type_def intro!: meta_intros meta_only_strings[OF assms])

lemma metadata_type_dump: "metadata_type m tid = Inr info \<Longrightarrow> tm_dump info \<noteq> []"
  by (auto simp: metadata_type_def rbind_Inr_iff get_at_def split: if_splits)

text \<open>The type has implicit indices and its record declares a range of \<open>2 ^ 59\<close> or more of them.\<close>

definition huge_indices :: "metadata \<Rightarrow> u32 \<Rightarrow> bool" where
  "huge_indices m tid \<longleftrightarrow> (\<exists>info raw_tag k. metadata_type m tid = Inr info \<and> get_at (tm_dump info) 0 = Some raw_tag
     \<and> kind_from_tag (raw_tag AND 0x3f) = Inr k \<and> huge_range k (raw_tag AND 0x80 \<noteq> 0) (tm_dump info))"

lemma shape_errors:
  assumes "wf_metadata m" and "metadata_shape m tid = Inl e"
  shows "(\<exists>r. e = error.Metadata r) \<or> e = Panic CapacityOverflow \<and> huge_indices m tid"
proof (cases "metadata_type m tid")
  case (Inl e')
  then show ?thesis
    using assms(2) meta_only_InlD[OF Inl meta_only_type[OF assms(1)]] by (simp add: metadata_shape_def)
next
  case (Inr info)
  have dump: "tm_dump info \<noteq> []"
    by (rule metadata_type_dump[OF Inr])
  then obtain raw_tag where tag: "get_at (tm_dump info) 0 = Some raw_tag"
    by (auto simp: get_at_def)
  show ?thesis
  proof (cases "kind_from_tag (raw_tag AND 0x3f)")
    case (Inl e')
    then show ?thesis
      using assms(2) Inr tag meta_only_InlD[OF Inl meta_only_kind] by (simp add: metadata_shape_def)
  next
    case k: (Inr k)
    show ?thesis
    proof (cases "read_shape_parts k (raw_tag AND 0x80 \<noteq> 0) (tm_dump info)")
      case (Inl e')
      then have "e = e'"
        using assms(2) Inr tag k by (simp add: metadata_shape_def Let_def)
      then show ?thesis
        using parts_errors[OF Inl] Inr tag k by (auto simp: huge_indices_def)
    next
      case parts: (Inr x)
      then show ?thesis
        using assms(2) Inr tag k read_shape_parts_next[OF _ dump, of k "raw_tag AND 0x80 \<noteq> 0" "fst x" "snd x"]
        by (cases x) (auto simp: metadata_shape_def Let_def split: if_split_asm)
    qed
  qed
qed

lemma shape_huge: "huge_indices m tid \<Longrightarrow> metadata_shape m tid = Inl (Panic CapacityOverflow)"
  by (auto simp: huge_indices_def metadata_shape_def Let_def dest: parts_huge)

section \<open>Shapes are complete\<close>

text \<open>What the codec reads off a shape of a kind is there.\<close>

definition ranged_kind :: "type_kind \<Rightarrow> bool" where
  "ranged_kind k \<longleftrightarrow> k \<in> {KArray, KByteString, KBitArray, KBlob, KChoice, KEnum, KInteger, KStruct, KString}"

definition wf_shape :: "type_shape \<Rightarrow> bool" where
  "wf_shape s \<longleftrightarrow>
     (ranged_kind (kind s) \<longleftrightarrow> value_range s \<noteq> None) \<and>
     (kind s \<in> {KArray, KOptional, KAlias} \<longleftrightarrow> element_type s \<noteq> None) \<and>
     length (member_names s) = length (index_values s) \<and>
     (kind s \<in> {KChoice, KStruct} \<longrightarrow> length (member_types s) = length (index_values s)) \<and>
     (kind s \<notin> {KChoice, KStruct} \<longrightarrow> member_types s = [])"

lemma wf_shape_lengths:
  "wf_shape s \<Longrightarrow> length (member_types s) \<le> length (index_values s) \<and> length (member_names s) = length (index_values s)"
  by (cases "kind s = KChoice \<or> kind s = KStruct") (auto simp: wf_shape_def)

lemma metadata_shape_wf: "metadata_shape m tid = Inr s \<Longrightarrow> wf_shape s \<and> type_id s = tid"
proof -
  assume "metadata_shape m tid = Inr s"
  then obtain info k parts and raw_tag :: u8 where
    parts: "read_shape_parts k (raw_tag AND 0x80 \<noteq> 0) (tm_dump info) = Inr (parts, length (tm_dump info))" and
    dump: "metadata_type m tid = Inr info" and
    s: "kind s = k" "value_range s = sp_range parts" "element_type s = sp_element parts"
      "index_values s = sp_indices parts" "member_types s = sp_members parts" "type_id s = tid"
      "length (member_names s) = length (sp_indices parts)"
    unfolding metadata_shape_def Let_def by (auto simp: rbind_Inr_iff split: if_splits)
  have "1 \<le> length (tm_dump info)"
    using metadata_type_dump[OF dump] by (simp add: Suc_le_eq)
  with parts have "wf_shape s"
    by (cases k) (auto simp: read_shape_parts_def rbind_Inr_iff wf_shape_def ranged_kind_def s
        dest: read_u32s_length read_type_range_next read_index_block_next[THEN conjunct2])
  then show ?thesis
    using s by simp
qed

section \<open>Binary search\<close>

lemma search_window_bounds:
  "0 < sz \<Longrightarrow> base + sz \<le> length xs \<Longrightarrow> search_window key xs k base sz < length xs"
proof (induction key xs k base sz rule: search_window.induct)
  case (1 key xs k base sz)
  then show ?case
    by (subst search_window.simps) (auto simp: Let_def)
qed

lemma search_window_finds:
  assumes "sorted_wrt (<) (map key xs)" and "i < length xs" and "base \<le> i" and "i < base + sz"
    and "base + sz \<le> length xs"
  shows "search_window key xs (key (xs ! i)) base sz = i"
  using assms(3-)
proof (induction sz arbitrary: base rule: less_induct)
  case (less sz)
  show ?case
  proof (cases "sz \<le> 1")
    case True
    then show ?thesis
      using less.prems by (subst search_window.simps) simp
  next
    case False
    define half where "half = sz div 2"
    have half: "0 < half" "half < sz" "sz - half < sz" "half \<le> sz - half"
      using False by (auto simp: half_def)
    have mid: "base + half < length xs"
      using less.prems half by linarith
    have order: "key (xs ! i) < key (xs ! (base + half)) \<longleftrightarrow> i < base + half"
      using assms(1,2) mid by (metis linorder_neqE_nat not_less_iff_gr_or_eq sorted_wrt_nth_less length_map nth_map)
    show ?thesis
    proof (cases "i < base + half")
      case True
      then have "i < base + (sz - half)"
        using half less.prems by linarith
      then show ?thesis
        using False True order less.IH[of "sz - half" base] half less.prems
        by (subst search_window.simps) (simp add: Let_def half_def[symmetric])
    next
      case F: False
      then show ?thesis
        using False order less.IH[of "sz - half" "base + half"] half less.prems
        by (subst search_window.simps) (simp add: Let_def half_def[symmetric])
    qed
  qed
qed

lemma binary_search_Some: "binary_search key xs k = Some i \<Longrightarrow> i < length xs \<and> key (xs ! i) = k"
  using search_window_bounds[of "length xs" 0 xs key k]
  by (auto simp: binary_search_def Let_def split: if_splits)

lemma binary_search_complete:
  assumes "sorted_wrt (<) (map key xs)" and "i < length xs"
  shows "binary_search key xs (key (xs ! i)) = Some i"
  using search_window_finds[OF assms, of 0 "length xs"] assms(2)
  by (auto simp: binary_search_def Let_def)

lemma static_shape_cases:
  "(\<exists>r. schema_shape (Static s) tid = Inl (error.Metadata r)) \<or>
   (\<exists>sh \<in> set (ss_types s). st_type_id sh = tid \<and> schema_shape (Static s) tid = Inr (to_shape sh))"
  by (auto simp: static_get_def split: option.splits dest!: binary_search_Some)

lemma static_get_iff:
  assumes "sorted_wrt (<) (map st_type_id (ss_types s))"
  shows "static_get s tid = Inr sh \<longleftrightarrow> sh \<in> set (ss_types s) \<and> st_type_id sh = tid"
proof
  assume "static_get s tid = Inr sh"
  then show "sh \<in> set (ss_types s) \<and> st_type_id sh = tid"
    by (auto simp: static_get_def split: option.splits dest!: binary_search_Some)
next
  assume "sh \<in> set (ss_types s) \<and> st_type_id sh = tid"
  then obtain i where "i < length (ss_types s)" "sh = ss_types s ! i" "st_type_id (ss_types s ! i) = tid"
    by (auto simp: in_set_conv_nth)
  then show "static_get s tid = Inr sh"
    using binary_search_complete[OF assms, of i] by (simp add: static_get_def)
qed

section \<open>Scalars\<close>

lemma high_bit: "(b :: u8) AND 0x80 \<noteq> 0 \<longleftrightarrow> 128 \<le> unat b"
proof -
  have p: "bit (2 ^ m :: u8) n \<longleftrightarrow> n = m" if "m < 8" for m n
    using that by (auto simp: bit_exp_iff)
  have b128: "bit (128 :: u8) n \<longleftrightarrow> n = 7" for n
    using p[of 7 n] by simp
  have "b AND 128 = (if bit b 7 then 128 else 0)"
  proof (rule bit_word_eqI)
    fix n
    show "bit (b AND 128) n = bit (if bit b 7 then 128 else 0 :: u8) n"
      unfolding bit_and_iff if_distrib[where f = "\<lambda>x. bit x n"] b128 by auto
  qed
  moreover have "bit b 7 \<longleftrightarrow> 128 \<le> unat b"
  proof -
    have "bit b 7 \<longleftrightarrow> bit (unat b) 7"
      by (simp add: bit_unsigned_iff)
    also have "\<dots> \<longleftrightarrow> odd (unat b div 2 ^ 7)"
      by (rule bit_iff_odd)
    also have "unat b div 2 ^ 7 = (if 128 \<le> unat b then 1 else 0)"
      using unsigned_less[of b] by (auto intro: div_nat_eqI)
    finally show ?thesis by simp
  qed
  ultimately show ?thesis by simp
qed

text \<open>The value of a scalar is in the range its encoding names.\<close>

definition scalar_in_range :: "u8 \<Rightarrow> int \<Rightarrow> bool" where
  "scalar_in_range enc v \<longleftrightarrow> (\<exists>w. scalar_width enc = Some w \<and>
     (if unat enc mod 2 = 0 then - (2 ^ (8 * w - 1)) \<le> v \<and> v < 2 ^ (8 * w - 1) else 0 \<le> v \<and> v < 2 ^ (8 * w)))"

lemma from_be_high: "bs \<noteq> [] \<Longrightarrow> bs ! 0 AND 0x80 \<noteq> 0 \<longleftrightarrow> 256 ^ length bs \<le> 2 * from_be bs"
proof (cases bs)
  case (Cons b rest)
  define X where "X = (256 :: nat) ^ length rest"
  define U where "U = unat b * X"
  have less: "from_be rest < X"
    unfolding X_def by (rule from_be_less)
  have "128 * X \<le> U" if "128 \<le> unat b"
    unfolding U_def using that by (rule mult_le_mono1)
  moreover have "U + X \<le> 128 * X" if "\<not> 128 \<le> unat b"
  proof -
    have "(unat b + 1) * X \<le> 128 * X"
      using that by (intro mult_le_mono1) simp
    then show ?thesis
      by (simp only: add_mult_distrib mult_1 U_def)
  qed
  ultimately have "128 \<le> unat b \<longleftrightarrow> 256 * X \<le> 2 * (U + from_be rest)"
    using less by (cases "128 \<le> unat b") auto
  then show ?thesis
    by (simp add: Cons high_bit U_def X_def)
qed simp

lemma pow_256: "int (256 ^ w) = 2 ^ (8 * w)"
  by (simp add: power_mult)

lemma pow_half: "0 < w \<Longrightarrow> (2 :: int) ^ (8 * w) = 2 * 2 ^ (8 * w - 1)"
  by (simp flip: power_Suc)

lemma from_be_high_int:
  assumes "bs \<noteq> []"
  shows "bs ! 0 AND 0x80 \<noteq> 0 \<longleftrightarrow> 2 ^ (8 * length bs) \<le> 2 * int (from_be bs)"
proof -
  have "256 ^ length bs \<le> 2 * from_be bs \<longleftrightarrow> int (256 ^ length bs) \<le> int (2 * from_be bs)"
    by (rule of_nat_le_iff[symmetric])
  then show ?thesis
    unfolding from_be_high[OF assms] pow_256 by simp
qed

lemma read_scalar_in_range:
  assumes "read_scalar data offset enc = Inr (v, nxt)"
  shows "scalar_in_range enc v"
proof -
  obtain w stop bs where parts: "scalar_width enc = Some w" "checked_add64 offset w = Some stop"
      "get_slice data offset stop = Some bs"
    using assms by (auto simp: read_scalar_def split: option.splits)
  then have v: "v = (if unat enc mod 2 = 0 \<and> bs ! 0 AND 0x80 \<noteq> 0
      then int (from_be bs) - 2 ^ (w * 8) else int (from_be bs))"
    using assms by (auto simp: read_scalar_def Let_def split: if_splits)
  have w: "0 < w" "length bs = w"
    using parts by (auto simp: scalar_width_def checked_add64_def get_slice_def split: if_splits)
  define N where "N = (2 :: int) ^ (8 * w - 1)"
  define F where "F = int (from_be bs)"
  have pw: "(2 :: int) ^ (8 * w) = 2 * N" "(2 :: int) ^ (w * 8) = 2 * N"
    using pow_half[OF w(1)] by (simp_all add: N_def mult.commute)
  have "F < 2 * N"
    using from_be_less[of bs] pow_256[of w] w(2) unfolding F_def pw(1)[symmetric] by (metis of_nat_less_iff)
  moreover have "bs ! 0 AND 0x80 \<noteq> 0 \<longleftrightarrow> N \<le> F"
    using from_be_high_int[of bs] w unfolding F_def[symmetric] by (auto simp: pw)
  moreover have "v = (if unat enc mod 2 = 0 \<and> bs ! 0 AND 0x80 \<noteq> 0 then F - 2 * N else F)"
    using v unfolding F_def[symmetric] pw .
  moreover have "0 \<le> F"
    by (simp add: F_def)
  ultimately have "if unat enc mod 2 = 0 then - N \<le> v \<and> v < N else 0 \<le> v \<and> v < 2 * N"
    by (cases "unat enc mod 2 = 0"; cases "N \<le> F") (simp_all del: even_iff_mod_2_eq_zero)
  then show ?thesis
    unfolding scalar_in_range_def using parts(1) by (auto simp: pw N_def)
qed

text \<open>The bytes of the scalar that stands for an integer.\<close>

definition scalar_bytes :: "nat \<Rightarrow> int \<Rightarrow> bytes" where
  "scalar_bytes w v = to_be w (nat (v mod 2 ^ (8 * w)))"

lemma read_scalar_bytes:
  assumes "scalar_width enc = Some w" and "scalar_in_range enc v" and "length pre + w < 2 ^ 64"
  shows "read_scalar (pre @ scalar_bytes w v @ post) (length pre) enc = Inr (v, length pre + w)"
proof -
  let ?bs = "scalar_bytes w v"
  have w: "0 < w" "length ?bs = w"
    using assms(1) by (auto simp: scalar_width_def scalar_bytes_def split: if_splits)
  have pow: "int (256 ^ w) = 2 ^ (8 * w)" "(2 :: int) ^ (8 * w) = 2 * 2 ^ (8 * w - 1)" "(2 :: int) ^ (w * 8) = 2 ^ (8 * w)"
    using pow_256[of w] pow_half[OF w(1)] by (simp_all add: mult.commute)
  have "v mod 2 ^ (8 * w) < 2 ^ (8 * w)" "0 \<le> v mod 2 ^ (8 * w)"
    by simp_all
  then have "nat (v mod 2 ^ (8 * w)) < 256 ^ w"
    using pow(1) by (simp add: nat_less_iff)
  then have val: "int (from_be ?bs) = v mod 2 ^ (8 * w)"
    by (simp add: scalar_bytes_def from_be_to_be)
  have high: "?bs ! 0 AND 0x80 \<noteq> 0 \<longleftrightarrow> 2 ^ (8 * w) \<le> 2 * (v mod 2 ^ (8 * w))"
  proof -
    have "?bs \<noteq> []"
      using w by auto
    from from_be_high_int[OF this] show ?thesis
      unfolding w(2) val .
  qed
  have range: "if unat enc mod 2 = 0 then - (2 ^ (8 * w - 1)) \<le> v \<and> v < 2 ^ (8 * w - 1) else 0 \<le> v \<and> v < 2 ^ (8 * w)"
    using assms(1,2) by (auto simp: scalar_in_range_def)
  have res: "(if unat enc mod 2 = 0 \<and> ?bs ! 0 AND 0x80 \<noteq> 0 then int (from_be ?bs) - 2 ^ (w * 8) else int (from_be ?bs)) = v"
  proof (cases "0 \<le> v")
    case True
    then have "v mod 2 ^ (8 * w) = v"
      using range pow(2) by (auto split: if_splits)
    then show ?thesis
      using high val range pow(2) by auto
  next
    case False
    then have "(v + 2 ^ (8 * w)) mod 2 ^ (8 * w) = v + 2 ^ (8 * w)"
      using range pow(2) by (intro mod_pos_pos_trivial) (auto split: if_splits)
    then have "v mod 2 ^ (8 * w) = v + 2 ^ (8 * w)"
      by simp
    then show ?thesis
      using high val range pow(2,3) False by (auto split: if_splits)
  qed
  have "get_slice (pre @ ?bs @ post) (length pre) (length pre + w) = Some ?bs"
    using w by (simp add: get_slice_def)
  then show ?thesis
    using assms(1,3) res by (auto simp: read_scalar_def checked_add64_def Let_def split: if_splits)
qed

section \<open>Blobs inside an executable\<close>

lemma read_u32_at_append:
  "offset + 4 \<le> length data \<Longrightarrow> read_u32_at (data @ post) offset = read_u32_at data offset"
  by (simp add: read_u32_at_def get_slice_def slice_of_def)

lemma parse_header_append:
  "20 \<le> length data \<Longrightarrow> parse_header (data @ post) = parse_header data"
  by (simp add: parse_header_def read_u32_at_append)

lemma parse_metadata_header:
  assumes "parse_metadata data = Inr m"
  obtains h where "parse_header data = Inr h" "byte_size h = Inr (length data)" "version h = 7"
    "type_count h \<noteq> 0" "type_count h \<le> MAX_TYPE_COUNT" "dump_size h \<noteq> 0" "header m = h" "blob m = data"
  using assms by (auto simp: parse_metadata_def rbind_Inr_iff Let_def not_less split: if_splits)

lemma parse_header_version:
  assumes "parse_header data = Inr h" and "version h = 7"
  shows "take 4 data = [0, 0, 0, 7]"
proof -
  have len: "20 \<le> length data"
    using assms(1) by (auto simp: parse_header_def split: if_splits)
  have "read_u32_at data 0 = Inr 7"
    using assms by (auto simp: parse_header_def rbind_Inr_iff split: if_splits)
  then have be: "of_nat (from_be (take 4 data)) = (7 :: u32)"
    using len by (auto simp: read_u32_at_def get_slice_def slice_of_def)
  obtain a b c d where abcd: "take 4 data = [a, b, c, d]"
    using len by (cases data; cases "tl data"; cases "tl (tl data)"; cases "tl (tl (tl data))") auto
  have "from_be (take 4 data) < 2 ^ 32"
    using from_be_less[of "take 4 data"] len by simp
  moreover have "unat (of_nat (from_be (take 4 data)) :: u32) = 7"
    by (simp add: be)
  ultimately have "from_be (take 4 data) = 7"
    by (simp add: unsigned_of_nat take_bit_nat_eq_self)
  then have sum: "unat a * 16777216 + unat b * 65536 + unat c * 256 + unat d = 7"
    by (simp add: abcd)
  have zero: "unat a = 0" "unat b = 0" "unat c = 0"
    using sum by linarith+
  moreover have "unat d = 7"
    using sum unfolding zero by simp
  ultimately have "a = 0" "b = 0" "c = 0" "d = 7"
    by (simp_all add: word_unat_eq_iff)
  then show ?thesis
    by (simp add: abcd)
qed

lemma blob_at_complete:
  assumes parse: "parse_metadata b = Inr m" and size: "length pre + length b < 2 ^ 64"
  shows "blob_at (pre @ b @ post) (length pre) = Some m"
proof -
  obtain h where h: "parse_header b = Inr h" "byte_size h = Inr (length b)" "version h = 7"
    "type_count h \<noteq> 0" "type_count h \<le> MAX_TYPE_COUNT" "dump_size h \<noteq> 0"
    using parse_metadata_header[OF parse] by blast
  have len: "20 \<le> length b"
    using h(1) by (auto simp: parse_header_def split: if_splits)
  have "slice_of (pre @ b @ post) (length pre) (length pre + 4) = [0, 0, 0, 7]"
    using parse_header_version[OF h(1,3)] len by (simp add: slice_of_def)
  moreover have "parse_header (drop (length pre) (pre @ b @ post)) = Inr h"
    using parse_header_append[OF len] h(1) by simp
  moreover have "min (length pre + length b) (2 ^ 64 - 1) = length pre + length b"
    using size by simp
  moreover have "get_slice (pre @ b @ post) (length pre) (length pre + length b) = Some b"
    by (simp add: get_slice_def)
  ultimately show ?thesis
    using h parse unfolding blob_at_def by simp
qed

lemma blob_at_sound:
  assumes "blob_at data offset = Some m"
  shows "parse_metadata (blob m) = Inr m \<and> slice_of data offset (offset + length (blob m)) = blob m
    \<and> offset + length (blob m) \<le> length data"
proof -
  obtain h n b where hb: "byte_size h = Inr n" "get_slice data offset (min (offset + n) (2 ^ 64 - 1)) = Some b"
      "parse_metadata b = Inr m" "parse_header (drop offset data) = Inr h"
    using assms by (auto simp: blob_at_def split: if_splits sum.splits option.splits)
  have m: "blob m = b"
    using parse_metadata_header[OF hb(3)] by metis
  obtain h' where h': "parse_header b = Inr h'" "byte_size h' = Inr (length b)"
    using parse_metadata_header[OF hb(3)] by metis
  have b: "b = slice_of data offset (min (offset + n) (2 ^ 64 - 1))" "min (offset + n) (2 ^ 64 - 1) \<le> length data"
      "offset \<le> min (offset + n) (2 ^ 64 - 1)"
    using hb(2) by (auto simp: get_slice_def split: if_splits)
  then have "length b = min (offset + n) (2 ^ 64 - 1) - offset"
    by simp
  then have "offset + length b = min (offset + n) (2 ^ 64 - 1)"
    using b(3) by linarith
  then show ?thesis
    using hb(3) b m by simp
qed

lemma find_metadata_blobs_iff:
  "(offset, m) \<in> set (find_metadata_blobs data) \<longleftrightarrow> offset + HEADER_SIZE \<le> length data \<and> blob_at data offset = Some m"
  by (force simp: find_metadata_blobs_def List.map_filter_def)

lemma fold_max_some:
  "fold (\<lambda>x best. case best of None \<Rightarrow> Some x
     | Some y \<Rightarrow> if (f y :: nat) \<le> f x then Some x else Some y) xs (Some z) = Some r \<Longrightarrow>
   r \<in> insert z (set xs) \<and> (\<forall>x \<in> insert z (set xs). f x \<le> f r)"
proof (induction xs arbitrary: z)
  case (Cons a xs)
  then show ?case
    by (cases "f z \<le> f a") force+
qed simp

lemma largest_metadata_Some:
  assumes "largest_metadata data = Some m"
  shows "\<exists>offset. (offset, m) \<in> set (find_metadata_blobs data)"
    and "(offset', m') \<in> set (find_metadata_blobs data) \<Longrightarrow> length (blob m') \<le> length (blob m)"
proof -
  obtain x xs where list: "find_metadata_blobs data = x # xs"
    using assms by (cases "find_metadata_blobs data") (auto simp: largest_metadata_def)
  obtain r where r: "fold (\<lambda>x best. case best of None \<Rightarrow> Some x
     | Some y \<Rightarrow> if length (blob (snd y)) \<le> length (blob (snd x)) then Some x else Some y) xs (Some x) = Some r"
    "snd r = m"
    using assms by (auto simp: largest_metadata_def list)
  from fold_max_some[where f = "\<lambda>y. length (blob (snd y))", OF r(1)]
  have best: "r \<in> set (find_metadata_blobs data)"
      "\<forall>y \<in> set (find_metadata_blobs data). length (blob (snd y)) \<le> length (blob (snd r))"
    by (simp_all add: list)
  then show "\<exists>offset. (offset, m) \<in> set (find_metadata_blobs data)"
    using r(2) by (metis prod.collapse)
  assume "(offset', m') \<in> set (find_metadata_blobs data)"
  then show "length (blob m') \<le> length (blob m)"
    using best(2) r(2) by force
qed

section \<open>Type names\<close>

lemma unique_type_id_Inr:
  "unique_type_id s name = Inr tid \<Longrightarrow>
     \<exists>info. schema_find (\<lambda>q. q) s name True = Inr [info] \<and> tm_type_id info = tid"
  by (auto simp: unique_type_id_def rbind_Inr_iff length_Suc_conv split: if_splits)

end
