(* ===== verification/Values.thy ===== *)
theory Values
  imports Utf8
begin

text \<open>
  BSN values (\<open>core/src/games/sc2/bsn/value.rs\<close>) and their conversion into Rust types
  (\<open>bsn/typed.rs\<close>).  An \<open>f32\<close> or \<open>f64\<close> is its bit pattern, an \<open>i128\<close> an integer, a
  string its UTF-8 bytes.  \<open>Option\<close>s and \<open>Vec\<close>s of a type convert element by element.
\<close>

section \<open>Values\<close>

record bit_array =
  ba_data :: bytes
  ba_bit_count :: nat

datatype bsn_value =
    Void
  | Bool bool
  | Integer int
  | FourCc u32
  | Float32 u32
  | Float64 u64
  | Bytes bytes
  | Str bytes
  | BitArray bit_array
  | Array "bsn_value list"
  | Optional "bsn_value option"
  | Choice int bsn_value
  | Struct u32 "bsn_field list"
and bsn_field = Field (field_index: int) (field_name: "bytes option") (field_value: bsn_value)

fun as_struct :: "bsn_value \<Rightarrow> (u32 \<times> bsn_field list) option" where
  "as_struct (Struct tid fs) = Some (tid, fs)"
| "as_struct _ = None"

fun as_integer :: "bsn_value \<Rightarrow> int option" where
  "as_integer (Integer i) = Some i"
| "as_integer _ = None"

fun as_string :: "bsn_value \<Rightarrow> bytes option" where
  "as_string (Str s) = Some s"
| "as_string _ = None"

text \<open>\<open>get\<close> and \<open>get_index\<close> return the first field that matches.\<close>

definition struct_get :: "bsn_field list \<Rightarrow> bytes \<Rightarrow> bsn_value option" where
  "struct_get fs name = map_option field_value (find (\<lambda>f. field_name f = Some name) fs)"

definition struct_get_index :: "bsn_field list \<Rightarrow> int \<Rightarrow> bsn_value option" where
  "struct_get_index fs i = map_option field_value (find (\<lambda>f. field_index f = i) fs)"

section \<open>Conversions\<close>

fun value_label_of :: "bsn_value \<Rightarrow> value_label" where
  "value_label_of Void = LVoid"
| "value_label_of (Bool _) = LBool"
| "value_label_of (Integer _) = LInteger"
| "value_label_of (FourCc _) = LFourCc"
| "value_label_of (Float32 _) = LFloat32"
| "value_label_of (Float64 _) = LFloat64"
| "value_label_of (Bytes _) = LBytes"
| "value_label_of (Str _) = LString"
| "value_label_of (BitArray _) = LBitArray"
| "value_label_of (Array _) = LArray"
| "value_label_of (Optional _) = LOptional"
| "value_label_of (Choice _ _) = LChoice"
| "value_label_of (Struct _ _) = LStruct"

definition wrong_kind :: "value_label \<Rightarrow> 'a result" where
  "wrong_kind l = Inl (BsnWire (ExpectedKind l))"

text \<open>\<open>from_bsn_int!\<close> for an integer type with the given least and greatest value.\<close>

definition from_bsn_int :: "int \<Rightarrow> int \<Rightarrow> bsn_value \<Rightarrow> int result" where
  "from_bsn_int least greatest v =
     rbind (ok_or (BsnWire (ExpectedKind LInteger)) (as_integer v)) (\<lambda>raw.
     if least \<le> raw \<and> raw \<le> greatest then Inr raw else Inl (BsnWire (IntegerDoesNotFit raw)))"

fun from_bsn_unit :: "bsn_value \<Rightarrow> unit result" where
  "from_bsn_unit Void = Inr ()"
| "from_bsn_unit _ = wrong_kind LVoid"

fun from_bsn_bool :: "bsn_value \<Rightarrow> bool result" where
  "from_bsn_bool (Bool b) = Inr b"
| "from_bsn_bool _ = wrong_kind LBool"

fun from_bsn_f32 :: "bsn_value \<Rightarrow> u32 result" where
  "from_bsn_f32 (Float32 x) = Inr x"
| "from_bsn_f32 _ = wrong_kind LFloat32"

fun from_bsn_f64 :: "bsn_value \<Rightarrow> u64 result" where
  "from_bsn_f64 (Float64 x) = Inr x"
| "from_bsn_f64 _ = wrong_kind LFloat64"

definition from_bsn_string :: "bsn_value \<Rightarrow> bytes result" where
  "from_bsn_string v = ok_or (BsnWire (ExpectedKind LString)) (as_string v)"

fun from_bsn_fourcc :: "bsn_value \<Rightarrow> u32 result" where
  "from_bsn_fourcc (FourCc c) = Inr c"
| "from_bsn_fourcc _ = wrong_kind LFourCc"

fun from_bsn_bytes :: "bsn_value \<Rightarrow> bytes result" where
  "from_bsn_bytes (Bytes d) = Inr d"
| "from_bsn_bytes _ = wrong_kind LBytes"

fun from_bsn_bit_array :: "bsn_value \<Rightarrow> bit_array result" where
  "from_bsn_bit_array (BitArray b) = Inr b"
| "from_bsn_bit_array _ = wrong_kind LBitArray"

fun from_bsn_option :: "(bsn_value \<Rightarrow> 'a result) \<Rightarrow> bsn_value \<Rightarrow> 'a option result" where
  "from_bsn_option f (Optional None) = Inr None"
| "from_bsn_option f (Optional (Some v)) = rbind (f v) (\<lambda>x. Inr (Some x))"
| "from_bsn_option f _ = wrong_kind LOptional"

fun from_bsn_vec :: "(bsn_value \<Rightarrow> 'a result) \<Rightarrow> bsn_value \<Rightarrow> 'a list result" where
  "from_bsn_vec f (Array vs) = rmap f vs"
| "from_bsn_vec f _ = wrong_kind LArray"

text \<open>A value converts exactly when it has the asked kind, and a vector when all of it does.\<close>

lemma from_bsn_int_iff:
  "from_bsn_int lo hi v = Inr i \<longleftrightarrow> v = Integer i \<and> lo \<le> i \<and> i \<le> hi"
  by (cases v) (auto simp: from_bsn_int_def)

lemma from_bsn_vec_iff:
  "from_bsn_vec f v = Inr xs \<longleftrightarrow> (\<exists>vs. v = Array vs \<and> list_all2 (\<lambda>v x. f v = Inr x) vs xs)"
proof (cases v)
  case (Array vs)
  have "rmap f vs = Inr xs \<longleftrightarrow> list_all2 (\<lambda>v x. f v = Inr x) vs xs"
    by (induction vs arbitrary: xs) (auto simp: rbind_Inr_iff list_all2_Cons1)
  then show ?thesis
    by (simp add: Array)
qed (simp_all add: wrong_kind_def)

lemma from_bsn_option_iff:
  "from_bsn_option f v = Inr x \<longleftrightarrow>
     (v = Optional None \<and> x = None) \<or> (\<exists>u y. v = Optional (Some u) \<and> f u = Inr y \<and> x = Some y)"
proof (cases v)
  case (Optional w)
  then show ?thesis by (cases w) (auto simp: rbind_Inr_iff)
qed (simp_all add: wrong_kind_def)

end
