(* ===== verification/Codec.thy ===== *)
theory Codec
  imports Bit_Codec Metadata_Laws Values "HOL-Library.Product_Lexorder"
begin

text \<open>
  The schema-driven codec of \<open>core/src/games/sc2/bsn/codec.rs\<close>: wire-layout registration,
  the encoder and the (traced) decoder.

  Encoder and decoder call themselves along the schema, which may be cyclic; the first
  argument of \<open>encode_scoped\<close> and \<open>decode_scoped\<close> is the depth of calls the stack still
  holds, and a call beyond it is the error \<open>StackOverflow\<close>.  Custom wire layouts are function
  pointers: a layout holds the address of its functions and \<open>program\<close> is the table of the code
  at those addresses, together with the texts of floats and error codes the trace shows and the
  number of values a \<open>Vec\<close> can be allocated for.
\<close>

section \<open>Data\<close>

record wire_field =
  logical_field :: nat
  filler_before :: u8

record struct_wire_layout =
  sl_name :: bytes
  sl_fields :: "wire_field list"

record wire_layout =
  wl_name :: bytes
  wl_decode :: nat
  wl_decode_traced :: "nat option"
  wl_encode :: nat

datatype registered_wire_layout =
    CandidateReflected
  | VerifiedReflected
  | CandidateStruct struct_wire_layout
  | StructLayout struct_wire_layout
  | CustomLayout wire_layout

datatype layout_support =
    Reflected
  | Candidate
  | SupportVerifiedReflected
  | SupportCustom bytes
  | UnsupportedObfuscated

record codec =
  cschema :: schema
  wire_layouts :: "u32 \<rightharpoonup> registered_wire_layout"

record decoded_field =
  df_path :: bytes
  df_kind :: bytes
  df_value :: bytes
  df_start_bit :: nat
  df_end_bit :: nat
  df_depth :: nat

record encoded_value =
  ev_data :: bytes
  ev_bit_count :: nat

record decoded_value =
  dv_value :: bsn_value
  dv_bit_count :: nat

record traced_decoded_value = decoded_value +
  tv_fields :: "decoded_field list"

record program =
  run_encode :: "nat \<Rightarrow> nat \<Rightarrow> codec \<Rightarrow> u32 \<Rightarrow> bsn_value \<Rightarrow> (writer, unit) op"
  run_decode :: "nat \<Rightarrow> nat \<Rightarrow> codec \<Rightarrow> u32 \<Rightarrow> (reader, bsn_value) op"
  run_decode_traced ::
    "nat \<Rightarrow> nat \<Rightarrow> codec \<Rightarrow> u32 \<Rightarrow> bytes \<Rightarrow> nat \<Rightarrow> (reader, bsn_value \<times> decoded_field list) op"
  f32_text :: "u32 \<Rightarrow> bytes"
  f64_text :: "u64 \<Rightarrow> bytes"
  error_text :: "u16 \<Rightarrow> bytes"
  max_capacity :: nat

abbreviation codec_error :: "bsn_reason \<Rightarrow> ('s, 'a) op" where
  "codec_error r \<equiv> fail (BsnWire r)"

abbreviation index_op :: "'a list \<Rightarrow> nat \<Rightarrow> ('s, 'a) op" where
  "index_op xs i \<equiv> liftR (ok_or (Panic IndexOutOfBounds) (get_at xs i))"

section \<open>Registration\<close>

definition codec_from_schema :: "schema \<Rightarrow> codec" where
  "codec_from_schema s = \<lparr>cschema = s, wire_layouts = (\<lambda>_. None)\<rparr>"

definition codec_new :: "metadata \<Rightarrow> codec" where
  "codec_new m = codec_from_schema (Runtime m)"

definition register_obfuscated :: "u32 \<Rightarrow> registered_wire_layout \<Rightarrow> (codec, unit) op" where
  "register_obfuscated tid layout c =
     (case schema_shape (cschema c) tid of
        Inl e \<Rightarrow> (Inl e, c)
      | Inr sh \<Rightarrow>
          if \<not> obfuscated sh then (Inl (BsnWire (NotObfuscated (unat tid))), c)
          else if wire_layouts c tid \<noteq> None then (Inl (BsnWire (LayoutAlreadyRegistered (unat tid))), c)
          else (Inr (), c\<lparr>wire_layouts := (wire_layouts c)(tid \<mapsto> layout)\<rparr>))"

definition register_named :: "bytes \<Rightarrow> registered_wire_layout \<Rightarrow> (codec, unit) op" where
  "register_named exact_name layout c =
     (case unique_type_id (cschema c) exact_name of
        Inl e \<Rightarrow> (Inl e, c)
      | Inr tid \<Rightarrow> register_obfuscated tid layout c)"

definition register_wire_layout :: "bytes \<Rightarrow> wire_layout \<Rightarrow> (codec, unit) op" where
  "register_wire_layout exact_name layout = register_named exact_name (CustomLayout layout)"

definition register_verified_reflected :: "bytes \<Rightarrow> (codec, unit) op" where
  "register_verified_reflected exact_name = register_named exact_name VerifiedReflected"

definition register_candidate_reflected :: "bytes \<Rightarrow> (codec, unit) op" where
  "register_candidate_reflected exact_name = register_named exact_name CandidateReflected"

text \<open>The \<open>seen\<close> loop of \<open>register_struct\<close>.\<close>

fun check_layout_fields :: "wire_field list \<Rightarrow> bool list \<Rightarrow> unit result" where
  "check_layout_fields [] seen = Inr ()"
| "check_layout_fields (f # fs) seen =
     (if logical_field f \<ge> length seen
      then Inl (BsnWire (LayoutFieldOutside (logical_field f) (length seen)))
      else if seen ! logical_field f then Inl (BsnWire (LayoutFieldRepeated (logical_field f)))
      else check_layout_fields fs (seen[logical_field f := True]))"

definition register_struct :: "bytes \<Rightarrow> struct_wire_layout \<Rightarrow> bool \<Rightarrow> (codec, unit) op" where
  "register_struct exact_name layout candidate c =
     (case rbind (unique_type_id (cschema c) exact_name) (\<lambda>tid.
           rbind (schema_shape (cschema c) tid) (\<lambda>sh.
           if kind sh \<noteq> KStruct then Inl (BsnWire (NotAStruct (unat tid)))
           else if length (sl_fields layout) \<noteq> length (member_types sh)
           then Inl (BsnWire (LayoutFieldCount (length (sl_fields layout)) (length (member_types sh))))
           else rbind (check_layout_fields (sl_fields layout) (replicate (length (member_types sh)) False)) (\<lambda>_.
             if wire_layouts c tid \<noteq> None then Inl (BsnWire (LayoutAlreadyRegistered (unat tid)))
             else Inr tid))) of
        Inl e \<Rightarrow> (Inl e, c)
      | Inr tid \<Rightarrow> (Inr (), c\<lparr>wire_layouts := (wire_layouts c)(tid \<mapsto>
            (if candidate then CandidateStruct layout else StructLayout layout))\<rparr>))"

definition register_struct_wire_layout :: "bytes \<Rightarrow> struct_wire_layout \<Rightarrow> (codec, unit) op" where
  "register_struct_wire_layout exact_name layout = register_struct exact_name layout False"

definition register_candidate_struct_wire_layout :: "bytes \<Rightarrow> struct_wire_layout \<Rightarrow> (codec, unit) op" where
  "register_candidate_struct_wire_layout exact_name layout = register_struct exact_name layout True"

definition wire_layout_support :: "codec \<Rightarrow> u32 \<Rightarrow> layout_support result" where
  "wire_layout_support c tid =
     rbind (schema_shape (cschema c) tid) (\<lambda>sh. Inr (case wire_layouts c tid of
        Some CandidateReflected \<Rightarrow> Candidate
      | Some (CandidateStruct _) \<Rightarrow> Candidate
      | Some VerifiedReflected \<Rightarrow> SupportVerifiedReflected
      | Some (StructLayout layout) \<Rightarrow> SupportCustom (sl_name layout)
      | Some (CustomLayout layout) \<Rightarrow> SupportCustom (wl_name layout)
      | None \<Rightarrow> if obfuscated sh then UnsupportedObfuscated else Reflected))"

section \<open>Ranges\<close>

definition required_range :: "type_shape \<Rightarrow> integer_range result" where
  "required_range sh = ok_or (BsnWire NoNumericRange) (value_range sh)"

definition required_element :: "type_shape \<Rightarrow> u32 result" where
  "required_element sh = ok_or (BsnWire NoElementType) (element_type sh)"

definition byte_counted :: "integer_range \<Rightarrow> integer_range" where
  "byte_counted r = r\<lparr>bit_width := map_option (\<lambda>w. w + 2) (bit_width r), maximum := maximum r * 4\<rparr>"

definition write_range :: "integer_range \<Rightarrow> int \<Rightarrow> (writer, unit) op" where
  "write_range r v =
     (if \<not> (minimum r \<le> v \<and> v \<le> maximum r) then codec_error (OutsideRange v (minimum r) (maximum r))
      else case bit_width r of
        None \<Rightarrow> if v \<noteq> minimum r then codec_error FixedRangeDiffers else ret ()
      | Some width \<Rightarrow>
          if v - minimum r < 2 ^ 64 then write_bits (of_int (v - minimum r)) width
          else codec_error RangedValueTooWide)"

definition write_length :: "integer_range \<Rightarrow> nat \<Rightarrow> (writer, unit) op" where
  "write_length r n = write_range r (int n)"

definition read_range_with_maximum :: "integer_range \<Rightarrow> int \<Rightarrow> (reader, int) op" where
  "read_range_with_maximum r greatest =
     bindM (case bit_width r of
              Some width \<Rightarrow> bindM (read_bits width) (\<lambda>raw. ret (uint raw + minimum r))
            | None \<Rightarrow> ret (minimum r)) (\<lambda>v.
     if v > greatest then codec_error (ExceedsMaximum v greatest) else ret v)"

definition read_range :: "integer_range \<Rightarrow> (reader, int) op" where
  "read_range r = read_range_with_maximum r (maximum r)"

definition read_length :: "integer_range \<Rightarrow> (reader, nat) op" where
  "read_length r = bindM (read_range r) (\<lambda>v.
     if 0 \<le> v \<and> v < 2 ^ 64 then ret (nat v) else codec_error LengthDoesNotFit)"

section \<open>Scopes, defaults and fillers\<close>

definition reflected_scope :: "codec \<Rightarrow> u32 \<Rightarrow> type_shape \<Rightarrow> bool \<Rightarrow> bool result" where
  "reflected_scope c tid sh inherited =
     (if inherited \<or> \<not> obfuscated sh then Inr inherited
      else case wire_layouts c tid of
        Some CandidateReflected \<Rightarrow> Inr True
      | Some VerifiedReflected \<Rightarrow> Inr True
      | Some (StructLayout _) \<Rightarrow> Inl (Panic Unreachable)
      | Some (CandidateStruct _) \<Rightarrow> Inl (Panic Unreachable)
      | Some (CustomLayout _) \<Rightarrow> Inl (Panic Unreachable)
      | None \<Rightarrow> Inl (BsnWire (UnregisteredObfuscated (unat tid))))"

primrec default_value :: "codec \<Rightarrow> nat \<Rightarrow> u32 \<Rightarrow> bsn_value result" where
  "default_value c 0 tid = Inl StackOverflow"
| "default_value c (Suc n) tid =
     rbind (schema_shape (cschema c) tid) (\<lambda>sh.
     if kind sh = KAlias then rbind (required_element sh) (default_value c n)
     else if kind sh = KStruct \<and> member_types sh = [] then Inr (Struct tid [])
     else if kind sh = KOptional then Inr (Optional None)
     else if kind sh = KVoid then Inr Void
     else Inl (BsnWire (RequiredFieldMissing (unat tid))))"

definition le16 :: "u8 \<Rightarrow> u8 \<Rightarrow> u32" where
  "le16 a b = ucast a OR push_bit 8 (ucast b)"

definition le32 :: "u8 \<Rightarrow> u8 \<Rightarrow> u8 \<Rightarrow> u8 \<Rightarrow> u32" where
  "le32 a b c d = ucast a OR push_bit 8 (ucast b) OR push_bit 16 (ucast c) OR push_bit 24 (ucast d)"

text \<open>\<open>output[byte - k]\<close>\<close>

definition back_at :: "bytes \<Rightarrow> nat \<Rightarrow> nat \<Rightarrow> u8 result" where
  "back_at output byte k =
     (if byte < k then Inl (Panic ArithmeticOverflow)
      else ok_or (Panic IndexOutOfBounds) (get_at output (byte - k)))"

definition next_filler_value :: "u32 \<Rightarrow> nat \<Rightarrow> bytes \<Rightarrow> u32 result" where
  "next_filler_value state used_bits output =
     (let byte = used_bits div 8 in
      rbind (if used_bits \<le> 7 then Inr (NOT state)
        else if used_bits \<le> 15 then rbind (back_at output byte 1) (\<lambda>a. Inr (state + ucast a))
        else if used_bits \<le> 31 then
          rbind (back_at output byte 2) (\<lambda>a. rbind (back_at output byte 1) (\<lambda>b. Inr (state + le16 a b)))
        else
          rbind (back_at output byte 4) (\<lambda>a. rbind (back_at output byte 3) (\<lambda>b.
          rbind (back_at output byte 2) (\<lambda>c. rbind (back_at output byte 1) (\<lambda>d.
          Inr (state + le32 a b c d + le16 c d))))))
        (\<lambda>s. Inr (word_rotl 8 s)))"

section \<open>Encoding\<close>

type_synonym encode_rec = "bool \<Rightarrow> u32 \<Rightarrow> bsn_value \<Rightarrow> (writer, unit) op"

text \<open>\<open>collect::<BTreeMap<_, _>>\<close>: of several fields with one index the last is kept.\<close>

definition by_index :: "bsn_field list \<Rightarrow> int \<Rightarrow> bsn_value option" where
  "by_index fs = map_of (rev (map (\<lambda>f. (field_index f, field_value f)) fs))"

definition encode_member :: "codec \<Rightarrow> nat \<Rightarrow> encode_rec \<Rightarrow> bool \<Rightarrow> type_shape \<Rightarrow> bsn_field list \<Rightarrow> nat \<Rightarrow> (writer, unit) op" where
  "encode_member c n rec scope sh fs position =
     bindM (index_op (index_values sh) position) (\<lambda>index.
     bindM (index_op (member_types sh) position) (\<lambda>member.
     case by_index fs index of
       Some v \<Rightarrow> rec scope member v
     | None \<Rightarrow> bindM (liftR (default_value c n member)) (\<lambda>d. rec scope member d)))"

definition encode_struct :: "codec \<Rightarrow> nat \<Rightarrow> encode_rec \<Rightarrow> bool \<Rightarrow> type_shape \<Rightarrow> bsn_value \<Rightarrow> (writer, unit) op" where
  "encode_struct c n rec scope sh v =
     (case as_struct v of
        None \<Rightarrow> codec_error (ExpectedKind LStruct)
      | Some (_, fs) \<Rightarrow>
          loopM [0..<length (member_types sh)] (\<lambda>position _. encode_member c n rec scope sh fs position) ())"

definition write_filler :: "u8 \<Rightarrow> u32 \<Rightarrow> (writer, u32) op" where
  "write_filler filler state w =
     (if filler = 0 then (Inr state, w)
      else bindM (liftR (next_filler_value state (wposition w) (as_bytes w))) (\<lambda>state.
        let width = unat filler in
        bindM (write_bits (ucast (if width \<ge> 32 then state else state AND (push_bit width 1 - 1))) width)
          (\<lambda>_. ret state)) w)"

definition encode_struct_layout ::
    "codec \<Rightarrow> nat \<Rightarrow> encode_rec \<Rightarrow> type_shape \<Rightarrow> bsn_value \<Rightarrow> struct_wire_layout \<Rightarrow> (writer, unit) op" where
  "encode_struct_layout c n rec sh v layout =
     (case as_struct v of
        None \<Rightarrow> codec_error (ExpectedKind LStruct)
      | Some (_, fs) \<Rightarrow>
          if length (member_types sh) \<ge> 2 ^ 32 then codec_error FillerStateRange
          else bindM (loopM (sl_fields layout) (\<lambda>entry state.
                  bindM (write_filler (filler_before entry) state) (\<lambda>state.
                  bindM (encode_member c n rec False sh fs (logical_field entry)) (\<lambda>_. ret state)))
                (of_nat (length (member_types sh)))) (\<lambda>_. ret ()))"

definition expect_kind :: "value_label \<Rightarrow> 'a option \<Rightarrow> ('s, 'a) op" where
  "expect_kind l v = liftR (ok_or (BsnWire (ExpectedKind l)) v)"

fun as_bool :: "bsn_value \<Rightarrow> bool option" where
  "as_bool (Bool b) = Some b" | "as_bool _ = None"
fun as_four_cc :: "bsn_value \<Rightarrow> u32 option" where
  "as_four_cc (FourCc b) = Some b" | "as_four_cc _ = None"
fun as_float32 :: "bsn_value \<Rightarrow> u32 option" where
  "as_float32 (Float32 b) = Some b" | "as_float32 _ = None"
fun as_float64 :: "bsn_value \<Rightarrow> u64 option" where
  "as_float64 (Float64 b) = Some b" | "as_float64 _ = None"
fun as_binary :: "bsn_value \<Rightarrow> bytes option" where
  "as_binary (Bytes b) = Some b" | "as_binary _ = None"
fun as_bit_array :: "bsn_value \<Rightarrow> bit_array option" where
  "as_bit_array (BitArray b) = Some b" | "as_bit_array _ = None"
fun as_array :: "bsn_value \<Rightarrow> bsn_value list option" where
  "as_array (Array b) = Some b" | "as_array _ = None"
fun as_optional :: "bsn_value \<Rightarrow> bsn_value option option" where
  "as_optional (Optional b) = Some b" | "as_optional _ = None"
fun as_choice :: "bsn_value \<Rightarrow> (int \<times> bsn_value) option" where
  "as_choice (Choice i v) = Some (i, v)" | "as_choice _ = None"

text \<open>The \<open>match shape.kind\<close> of \<open>encode_into_scoped\<close>.\<close>

definition encode_kind ::
    "codec \<Rightarrow> nat \<Rightarrow> encode_rec \<Rightarrow> bool \<Rightarrow> u32 \<Rightarrow> type_shape \<Rightarrow> bsn_value \<Rightarrow> (writer, unit) op" where
  "encode_kind c n rec scope tid sh v =
     (case kind sh of
        KAlias \<Rightarrow> bindM (liftR (required_element sh)) (\<lambda>element. rec scope element v)
      | KVoid \<Rightarrow> if v = Void then ret () else codec_error (ExpectedKind LVoid)
      | KBool \<Rightarrow> bindM (expect_kind LBool (as_bool v)) (\<lambda>b. write_bits (of_bool b) 1)
      | KInteger \<Rightarrow> bindM (expect_kind LInteger (as_integer v)) (\<lambda>i.
          bindM (liftR (required_range sh)) (\<lambda>r. write_range r i))
      | KEnum \<Rightarrow> bindM (expect_kind LInteger (as_integer v)) (\<lambda>i.
          if i \<notin> set (index_values sh) then codec_error (EnumValueUndeclared i (unat tid))
          else bindM (liftR (required_range sh)) (\<lambda>r. write_range r i))
      | KFourCc \<Rightarrow> bindM (expect_kind LFourCc (as_four_cc v)) (\<lambda>x. write_bits (ucast x) 32)
      | KFloat32 \<Rightarrow> bindM (expect_kind LFloat32 (as_float32 v)) (\<lambda>x. write_bits (ucast x) 32)
      | KFloat64 \<Rightarrow> bindM (expect_kind LFloat64 (as_float64 v)) (\<lambda>x. write_bits x 64)
      | KByteString \<Rightarrow> bindM (expect_kind LBytes (as_binary v)) (\<lambda>d.
          bindM (liftR (required_range sh)) (\<lambda>r.
          bindM (write_length r (length d)) (\<lambda>_. write_bytes d True)))
      | KBlob \<Rightarrow> bindM (expect_kind LBytes (as_binary v)) (\<lambda>d.
          bindM (liftR (required_range sh)) (\<lambda>r.
          bindM (write_length r (length d)) (\<lambda>_. write_bytes d True)))
      | KString \<Rightarrow> bindM (expect_kind LString (as_string v)) (\<lambda>d.
          bindM (liftR (required_range sh)) (\<lambda>r.
          bindM (write_length (byte_counted r) (length d)) (\<lambda>_. write_bytes d True)))
      | KBitArray \<Rightarrow> bindM (expect_kind LBitArray (as_bit_array v)) (\<lambda>b.
          if ba_bit_count b > length (ba_data b) * 8 then codec_error BitArrayOutsideBuffer
          else bindM (liftR (required_range sh)) (\<lambda>r.
          bindM (write_length r (ba_bit_count b)) (\<lambda>_. write_raw (ba_data b) (Some (ba_bit_count b)))))
      | KArray \<Rightarrow> bindM (expect_kind LArray (as_array v)) (\<lambda>vs.
          bindM (liftR (required_range sh)) (\<lambda>r.
          bindM (write_length r (length vs)) (\<lambda>_.
          bindM (liftR (required_element sh)) (\<lambda>element.
          loopM vs (\<lambda>x _. rec scope element x) ()))))
      | KOptional \<Rightarrow> bindM (expect_kind LOptional (as_optional v)) (\<lambda>x.
          bindM (write_bits (of_bool (x \<noteq> None)) 1) (\<lambda>_.
          case x of None \<Rightarrow> ret ()
          | Some y \<Rightarrow> bindM (liftR (required_element sh)) (\<lambda>element. rec scope element y)))
      | KChoice \<Rightarrow> bindM (expect_kind LChoice (as_choice v)) (\<lambda>(index, x).
          case position_of (\<lambda>candidate. candidate = index) (index_values sh) of
            None \<Rightarrow> codec_error (ChoiceUndeclared index)
          | Some position \<Rightarrow>
              bindM (liftR (required_range sh)) (\<lambda>r.
              bindM (write_range r index) (\<lambda>_.
              bindM (index_op (member_types sh) position) (\<lambda>member. rec scope member x))))
      | KStruct \<Rightarrow> encode_struct c n rec scope sh v)"

definition encode_body :: "program \<Rightarrow> codec \<Rightarrow> nat \<Rightarrow> encode_rec \<Rightarrow> encode_rec" where
  "encode_body prog c n rec scope tid v =
     bindM (liftR (schema_shape (cschema c) tid)) (\<lambda>sh.
     case wire_layouts c tid of
       Some (StructLayout layout) \<Rightarrow> encode_struct_layout c n rec sh v layout
     | Some (CandidateStruct layout) \<Rightarrow> encode_struct_layout c n rec sh v layout
     | Some (CustomLayout layout) \<Rightarrow> run_encode prog (wl_encode layout) n c tid v
     | _ \<Rightarrow> bindM (liftR (reflected_scope c tid sh scope)) (\<lambda>scope. encode_kind c n rec scope tid sh v))"

primrec encode_scoped :: "program \<Rightarrow> codec \<Rightarrow> nat \<Rightarrow> encode_rec" where
  "encode_scoped prog c 0 = (\<lambda>scope tid v. fail StackOverflow)"
| "encode_scoped prog c (Suc n) = encode_body prog c n (encode_scoped prog c n)"

definition encode_into :: "program \<Rightarrow> nat \<Rightarrow> codec \<Rightarrow> u32 \<Rightarrow> bsn_value \<Rightarrow> (writer, unit) op" where
  "encode_into prog stack c tid v = encode_scoped prog c stack False tid v"

definition encode_reflected_into :: "program \<Rightarrow> nat \<Rightarrow> codec \<Rightarrow> u32 \<Rightarrow> bsn_value \<Rightarrow> (writer, unit) op" where
  "encode_reflected_into prog stack c tid v = encode_scoped prog c stack True tid v"

definition encode_value :: "program \<Rightarrow> nat \<Rightarrow> codec \<Rightarrow> u32 \<Rightarrow> bsn_value \<Rightarrow> encoded_value result" where
  "encode_value prog stack c tid v =
     (case encode_into prog stack c tid v writer_new of
        (Inl e, _) \<Rightarrow> Inl e
      | (Inr _, w) \<Rightarrow> Inr \<lparr>ev_data = into_bytes w, ev_bit_count = wposition w\<rparr>)"

section \<open>Traces\<close>

text \<open>Decimal numbers as \<open>format!\<close> writes them.\<close>

fun decimal_nat :: "nat \<Rightarrow> bytes" where
  "decimal_nat n = (if n < 10 then [of_nat (48 + n)] else decimal_nat (n div 10) @ [of_nat (48 + n mod 10)])"

declare decimal_nat.simps [simp del]

definition decimal :: "int \<Rightarrow> bytes" where
  "decimal i = (if i < 0 then ascii ''-'' else []) @ decimal_nat (nat \<bar>i\<bar>)"

fun type_kind_name :: "type_kind \<Rightarrow> bytes" where
  "type_kind_name KArray = ascii ''array''"
| "type_kind_name KByteString = ascii ''byte string''"
| "type_kind_name KBitArray = ascii ''bit array''"
| "type_kind_name KBlob = ascii ''blob''"
| "type_kind_name KBool = ascii ''bool''"
| "type_kind_name KChoice = ascii ''choice''"
| "type_kind_name KEnum = ascii ''enum''"
| "type_kind_name KFourCc = ascii ''fourcc''"
| "type_kind_name KInteger = ascii ''integer''"
| "type_kind_name KVoid = ascii ''void''"
| "type_kind_name KOptional = ascii ''optional''"
| "type_kind_name KFloat32 = ascii ''float32''"
| "type_kind_name KFloat64 = ascii ''float64''"
| "type_kind_name KStruct = ascii ''struct''"
| "type_kind_name KString = ascii ''string''"
| "type_kind_name KAlias = ascii ''alias''"

definition be_bytes32 :: "u32 \<Rightarrow> bytes" where
  "be_bytes32 x = [ucast (drop_bit 24 x), ucast (drop_bit 16 x), ucast (drop_bit 8 x), ucast x]"

fun decoded_summary :: "program \<Rightarrow> bsn_value \<Rightarrow> bytes" where
  "decoded_summary prog Void = ascii ''void''"
| "decoded_summary prog (Bool b) = ascii (if b then ''true'' else ''false'')"
| "decoded_summary prog (Integer i) = decimal i"
| "decoded_summary prog (FourCc x) = from_utf8_lossy (be_bytes32 x)"
| "decoded_summary prog (Float32 x) = f32_text prog x"
| "decoded_summary prog (Float64 x) = f64_text prog x"
| "decoded_summary prog (Bytes d) = decimal_nat (length d) @ ascii '' bytes''"
| "decoded_summary prog (Str s) = s"
| "decoded_summary prog (BitArray b) = decimal_nat (ba_bit_count b) @ ascii '' bits''"
| "decoded_summary prog (Array vs) = decimal_nat (length vs) @ ascii '' items''"
| "decoded_summary prog (Optional x) = ascii (if x \<noteq> None then ''present'' else ''none'')"
| "decoded_summary prog (Choice i v) = ascii ''variant '' @ decimal i"
| "decoded_summary prog (Struct tid fs) = ascii ''type #'' @ decimal_nat (unat tid)"

text \<open>The decoder runs on its reader and the optional list of traced fields.\<close>

type_synonym tstate = "reader \<times> decoded_field list option"

definition on_reader :: "(reader, 'a) op \<Rightarrow> (tstate, 'a) op" where
  "on_reader m = (\<lambda>(r, tr). case m r of (v, r') \<Rightarrow> (v, (r', tr)))"

abbreviation position_now :: "(tstate, nat) op" where
  "position_now \<equiv> getsM (\<lambda>s. rposition (fst s))"

definition push_field :: "decoded_field \<Rightarrow> (tstate, unit) op" where
  "push_field f = modifyM (\<lambda>(r, tr). (r, map_option (\<lambda>fs. fs @ [f]) tr))"

definition extend_fields :: "decoded_field list \<Rightarrow> (tstate, unit) op" where
  "extend_fields more_fields = modifyM (\<lambda>(r, tr). (r, map_option (\<lambda>fs. fs @ more_fields) tr))"

text \<open>\<open>fields.iter_mut().rev().find(...)\<close> and the assignment to what it found.\<close>

fun update_first :: "('a \<Rightarrow> bool) \<Rightarrow> ('a \<Rightarrow> 'a) \<Rightarrow> 'a list \<Rightarrow> 'a list" where
  "update_first P f [] = []"
| "update_first P f (x # xs) = (if P x then f x # xs else x # update_first P f xs)"

definition update_last :: "('a \<Rightarrow> bool) \<Rightarrow> ('a \<Rightarrow> 'a) \<Rightarrow> 'a list \<Rightarrow> 'a list" where
  "update_last P f xs = rev (update_first P f (rev xs))"

fun append_decode_context :: "(bsn_reason \<Rightarrow> bsn_reason) \<Rightarrow> error \<Rightarrow> error" where
  "append_decode_context f (BsnWire m) = BsnWire (f m)"
| "append_decode_context f e = e"

section \<open>Decoding\<close>

type_synonym decode_rec = "bool \<Rightarrow> bytes \<Rightarrow> nat \<Rightarrow> u32 \<Rightarrow> (tstate, bsn_value) op"

definition member_label :: "type_shape \<Rightarrow> nat \<Rightarrow> (tstate, bytes) op" where
  "member_label sh position =
     bindM (index_op (member_names sh) position) (\<lambda>name.
     case name of
       Some s \<Rightarrow> ret s
     | None \<Rightarrow> bindM (index_op (index_values sh) position) (\<lambda>i. ret (ascii ''#'' @ decimal i)))"

definition decode_struct_member :: "decode_rec \<Rightarrow> bool \<Rightarrow> bytes \<Rightarrow> nat \<Rightarrow> u32 \<Rightarrow> type_shape \<Rightarrow> nat \<Rightarrow> (tstate, bsn_field) op" where
  "decode_struct_member rec scope path depth tid sh position =
     bindM (member_label sh position) (\<lambda>label.
     bindM (index_op (index_values sh) position) (\<lambda>index.
     bindM (index_op (member_names sh) position) (\<lambda>name.
     bindM (index_op (member_types sh) position) (\<lambda>member.
     bindM (map_errM (\<lambda>_. append_decode_context (\<lambda>m. InField m position (unat tid)))
              (rec scope (path @ ascii ''.'' @ label) (depth + 1) member)) (\<lambda>v.
     ret (Field index name v))))))"

definition decode_layout_entry :: "decode_rec \<Rightarrow> bytes \<Rightarrow> nat \<Rightarrow> type_shape \<Rightarrow> wire_field
    \<Rightarrow> bsn_field option list \<Rightarrow> (tstate, bsn_field option list) op" where
  "decode_layout_entry rec path depth sh entry logical =
     (let position = logical_field entry in
      bindM (member_label sh position) (\<lambda>label.
      bindM (if filler_before entry \<noteq> 0
             then bindM position_now (\<lambda>start.
                  bindM (on_reader (read_bits (unat (filler_before entry)))) (\<lambda>_.
                  bindM position_now (\<lambda>stop.
                  push_field \<lparr>df_path = path @ ascii ''.filler_before_'' @ label,
                    df_kind = ascii ''filler bits'', df_value = ascii ''ignored'',
                    df_start_bit = start, df_end_bit = stop, df_depth = depth + 1\<rparr>)))
             else ret ()) (\<lambda>_.
      bindM (index_op (member_types sh) position) (\<lambda>member.
      bindM (rec False (path @ ascii ''.'' @ label) (depth + 1) member) (\<lambda>v.
      bindM (index_op (index_values sh) position) (\<lambda>index.
      bindM (index_op (member_names sh) position) (\<lambda>name.
      if position < length logical then ret (logical[position := Some (Field index name v)])
      else fail (Panic IndexOutOfBounds))))))))"

definition decode_struct_layout ::
    "decode_rec \<Rightarrow> bytes \<Rightarrow> nat \<Rightarrow> u32 \<Rightarrow> type_shape \<Rightarrow> struct_wire_layout \<Rightarrow> (tstate, bsn_value) op" where
  "decode_struct_layout rec path depth tid sh layout =
     bindM (loopM (sl_fields layout) (decode_layout_entry rec path depth sh)
              (replicate (length (member_types sh)) None)) (\<lambda>logical.
     if None \<in> set logical then codec_error LayoutOmittedField
     else ret (Struct tid (map the logical)))"

text \<open>The alias \<open>Battlenet::Error::Code\<close> renames the field its element has pushed.\<close>

definition relabel_error :: "program \<Rightarrow> codec \<Rightarrow> u32 \<Rightarrow> bytes \<Rightarrow> bsn_value \<Rightarrow> (tstate, unit) op" where
  "relabel_error prog c tid path v =
     (case (schema_type (cschema c) tid, as_integer v) of
        (Inr info, Some code) \<Rightarrow>
          if tm_name info = Some (ascii ''Battlenet::Error::Code'') \<and> 0 \<le> code \<and> code < 2 ^ 16
          then modifyM (\<lambda>(r, tr). (r, map_option (update_last (\<lambda>f. df_path f = path)
                 (\<lambda>f. f\<lparr>df_kind := ascii ''Battle.net error'', df_value := error_text prog (of_int code)\<rparr>)) tr))
          else ret ()
      | _ \<Rightarrow> ret ())"

text \<open>The \<open>match shape.kind\<close> of \<open>decode_from_inner\<close>.\<close>

definition decode_kind ::
    "program \<Rightarrow> codec \<Rightarrow> decode_rec \<Rightarrow> bool \<Rightarrow> bytes \<Rightarrow> nat \<Rightarrow> u32 \<Rightarrow> type_shape \<Rightarrow> (tstate, bsn_value) op" where
  "decode_kind prog c rec scope path depth tid sh =
     (case kind sh of
        KAlias \<Rightarrow> bindM (liftR (required_element sh)) (\<lambda>element.
          bindM (rec scope path depth element) (\<lambda>v.
          bindM (relabel_error prog c tid path v) (\<lambda>_. ret v)))
      | KVoid \<Rightarrow> ret Void
      | KBool \<Rightarrow> bindM (on_reader (read_bits 1)) (\<lambda>x. ret (Bool (x \<noteq> 0)))
      | KInteger \<Rightarrow> bindM (liftR (required_range sh)) (\<lambda>r.
          bindM (on_reader (read_range r)) (\<lambda>v. ret (Integer v)))
      | KEnum \<Rightarrow> bindM (liftR (required_range sh)) (\<lambda>r.
          bindM (on_reader (read_range r)) (\<lambda>v. ret (Integer v)))
      | KFourCc \<Rightarrow> bindM (on_reader (read_bits 32)) (\<lambda>x. ret (FourCc (ucast x)))
      | KFloat32 \<Rightarrow> bindM (on_reader (read_bits 32)) (\<lambda>x. ret (Float32 (ucast x)))
      | KFloat64 \<Rightarrow> bindM (on_reader (read_bits 64)) (\<lambda>x. ret (Float64 x))
      | KByteString \<Rightarrow> bindM (liftR (required_range sh)) (\<lambda>r.
          bindM (on_reader (read_length r)) (\<lambda>n.
          bindM (on_reader (read_bytes n True)) (\<lambda>d. ret (Bytes d))))
      | KBlob \<Rightarrow> bindM (liftR (required_range sh)) (\<lambda>r.
          bindM (on_reader (read_length r)) (\<lambda>n.
          bindM (on_reader (read_bytes n True)) (\<lambda>d. ret (Bytes d))))
      | KString \<Rightarrow> bindM (liftR (required_range sh)) (\<lambda>r.
          bindM (on_reader (read_length (byte_counted r))) (\<lambda>n.
          bindM (on_reader (read_bytes n True)) (\<lambda>d. ret (Str (from_utf8_lossy d)))))
      | KBitArray \<Rightarrow> bindM (liftR (required_range sh)) (\<lambda>r.
          bindM (on_reader (read_length r)) (\<lambda>n.
          bindM (on_reader (read_raw n)) (\<lambda>d. ret (BitArray \<lparr>ba_data = d, ba_bit_count = n\<rparr>))))
      | KArray \<Rightarrow> bindM (liftR (required_range sh)) (\<lambda>r.
          bindM (on_reader (read_length r)) (\<lambda>n.
          bindM (liftR (required_element sh)) (\<lambda>element.
          if n > max_capacity prog then fail (Panic ExpectFailed)
          else bindM (forM [0..<n] (\<lambda>i.
            map_errM (\<lambda>_. append_decode_context (\<lambda>m. InElement m i))
              (rec scope (path @ ascii ''['' @ decimal_nat i @ ascii '']'') (depth + 1) element)))
            (\<lambda>vs. ret (Array vs)))))
      | KOptional \<Rightarrow> bindM (on_reader (read_bits 1)) (\<lambda>present.
          if present = 0 then ret (Optional None)
          else bindM (liftR (required_element sh)) (\<lambda>element.
            bindM (rec scope (path @ ascii ''.value'') (depth + 1) element) (\<lambda>v. ret (Optional (Some v)))))
      | KChoice \<Rightarrow> bindM (liftR (required_range sh)) (\<lambda>r.
          bindM (on_reader (read_range r)) (\<lambda>index.
          case position_of (\<lambda>candidate. candidate = index) (index_values sh) of
            None \<Rightarrow> codec_error (ChoiceUndeclared index)
          | Some position \<Rightarrow>
              bindM (index_op (member_types sh) position) (\<lambda>member.
              bindM (rec scope (path @ ascii ''.variant['' @ decimal index @ ascii '']'') (depth + 1) member)
                (\<lambda>v. ret (Choice index v)))))
      | KStruct \<Rightarrow>
          bindM (forM [0..<length (member_types sh)] (decode_struct_member rec scope path depth tid sh))
            (\<lambda>fs. ret (Struct tid fs)))"

definition run_custom :: "program \<Rightarrow> codec \<Rightarrow> nat \<Rightarrow> wire_layout \<Rightarrow> bytes \<Rightarrow> nat \<Rightarrow> u32 \<Rightarrow> (tstate, bsn_value) op" where
  "run_custom prog c n layout path depth tid =
     bindM (getsM (\<lambda>s. snd s \<noteq> None)) (\<lambda>tracing.
     case (wl_decode_traced layout, tracing) of
       (Some code, True) \<Rightarrow>
         bindM (on_reader (run_decode_traced prog code n c tid path depth)) (\<lambda>(v, fs).
         bindM (extend_fields fs) (\<lambda>_. ret v))
     | _ \<Rightarrow> on_reader (run_decode prog (wl_decode layout) n c tid))"

definition decode_inner :: "program \<Rightarrow> codec \<Rightarrow> nat \<Rightarrow> decode_rec \<Rightarrow> decode_rec" where
  "decode_inner prog c n rec scope path depth tid =
     bindM (liftR (schema_shape (cschema c) tid)) (\<lambda>sh.
     case wire_layouts c tid of
       Some (StructLayout layout) \<Rightarrow> decode_struct_layout rec path depth tid sh layout
     | Some (CandidateStruct layout) \<Rightarrow> decode_struct_layout rec path depth tid sh layout
     | Some (CustomLayout layout) \<Rightarrow> run_custom prog c n layout path depth tid
     | _ \<Rightarrow> bindM (liftR (reflected_scope c tid sh scope)) (\<lambda>scope. decode_kind prog c rec scope path depth tid sh))"

definition decode_body :: "program \<Rightarrow> codec \<Rightarrow> nat \<Rightarrow> decode_rec \<Rightarrow> decode_rec" where
  "decode_body prog c n rec scope path depth tid =
     bindM position_now (\<lambda>start.
     bindM (liftR (schema_shape (cschema c) tid)) (\<lambda>sh.
     bindM (map_errM (\<lambda>s. append_decode_context (\<lambda>m. InType m (unat tid) start (rposition (fst s))))
              (decode_inner prog c n rec scope path depth tid)) (\<lambda>v.
     bindM position_now (\<lambda>stop.
     bindM (if kind sh \<noteq> KAlias
            then push_field \<lparr>df_path = path, df_kind = type_kind_name (kind sh), df_value = decoded_summary prog v,
                   df_start_bit = start, df_end_bit = stop, df_depth = depth\<rparr>
            else ret ()) (\<lambda>_. ret v)))))"

primrec decode_scoped :: "program \<Rightarrow> codec \<Rightarrow> nat \<Rightarrow> decode_rec" where
  "decode_scoped prog c 0 = (\<lambda>scope path depth tid. fail StackOverflow)"
| "decode_scoped prog c (Suc n) = decode_body prog c n (decode_scoped prog c n)"

text \<open>The untraced entry points run with no field list.\<close>

definition untraced :: "(tstate, 'a) op \<Rightarrow> (reader, 'a) op" where
  "untraced m r = (case m (r, None) of (v, (r', _)) \<Rightarrow> (v, r'))"

definition decode_from :: "program \<Rightarrow> nat \<Rightarrow> codec \<Rightarrow> u32 \<Rightarrow> (reader, bsn_value) op" where
  "decode_from prog stack c tid = untraced (decode_scoped prog c stack False (ascii ''value'') 0 tid)"

definition decode_reflected_from :: "program \<Rightarrow> nat \<Rightarrow> codec \<Rightarrow> u32 \<Rightarrow> (reader, bsn_value) op" where
  "decode_reflected_from prog stack c tid = untraced (decode_scoped prog c stack True (ascii ''value'') 0 tid)"

definition decode_value :: "program \<Rightarrow> nat \<Rightarrow> codec \<Rightarrow> u32 \<Rightarrow> bytes \<Rightarrow> nat option \<Rightarrow> nat \<Rightarrow> decoded_value result" where
  "decode_value prog stack c tid data bit_count start =
     rbind (reader_new data bit_count) (\<lambda>r.
     case bindM (set_position start) (\<lambda>_. decode_from prog stack c tid) r of
       (Inl e, _) \<Rightarrow> Inl e
     | (Inr v, r') \<Rightarrow> Inr \<lparr>dv_value = v, dv_bit_count = rposition r' - start\<rparr>)"

text \<open>\<open>sort_by\<close> is stable: start ascending, then depth ascending, then end descending.\<close>

definition trace_order :: "decoded_field \<Rightarrow> nat \<times> nat \<times> int" where
  "trace_order f = (df_start_bit f, df_depth f, - int (df_end_bit f))"

definition decode_scoped_traced :: "program \<Rightarrow> nat \<Rightarrow> codec \<Rightarrow> bool \<Rightarrow> bytes \<Rightarrow> nat \<Rightarrow> u32 \<Rightarrow> (reader, traced_decoded_value) op" where
  "decode_scoped_traced prog stack c scope path depth tid r =
     (case decode_scoped prog c stack scope path depth tid (r, Some []) of
        (Inl e, (r', _)) \<Rightarrow> (Inl e, r')
      | (Inr v, (r', tr)) \<Rightarrow>
          (Inr \<lparr>dv_value = v, dv_bit_count = rposition r' - rposition r,
                tv_fields = sort_key trace_order (case tr of None \<Rightarrow> [] | Some fs \<Rightarrow> fs)\<rparr>, r'))"

definition decode_traced_from :: "program \<Rightarrow> nat \<Rightarrow> codec \<Rightarrow> u32 \<Rightarrow> (reader, traced_decoded_value) op" where
  "decode_traced_from prog stack c tid = decode_scoped_traced prog stack c False (ascii ''value'') 0 tid"

definition decode_reflected_traced_from :: "program \<Rightarrow> nat \<Rightarrow> codec \<Rightarrow> u32 \<Rightarrow> bytes \<Rightarrow> nat \<Rightarrow> (reader, traced_decoded_value) op" where
  "decode_reflected_traced_from prog stack c tid path depth = decode_scoped_traced prog stack c True path depth tid"

end
