(* ===== verification/Codec_Laws.thy ===== *)
theory Codec_Laws
  imports Codec
begin

text \<open>
  The codec's contract: registration keeps the codec well-formed; what the encoder wrote the
  decoder reads back in normal form, at any stream position congruent modulo a byte, traced or
  not; a buffer cut short makes the decoder ask for more data; and on a codec whose lengths are
  bounded no input makes the decoder panic.
\<close>

section \<open>Registration keeps the codec well-formed\<close>

definition wf_schema :: "schema \<Rightarrow> bool" where
  "wf_schema s \<longleftrightarrow> (\<forall>tid sh. schema_shape s tid = Inr sh \<longrightarrow> wf_shape sh)"

definition layout_covers :: "wire_field list \<Rightarrow> nat \<Rightarrow> bool" where
  "layout_covers fs n \<longleftrightarrow> length fs = n \<and> distinct (map logical_field fs) \<and> logical_field ` set fs \<subseteq> {..<n}"

definition layout_fits :: "registered_wire_layout \<Rightarrow> type_shape \<Rightarrow> bool" where
  "layout_fits l sh = (case l of
      CandidateReflected \<Rightarrow> obfuscated sh
    | VerifiedReflected \<Rightarrow> obfuscated sh
    | CustomLayout _ \<Rightarrow> obfuscated sh
    | StructLayout layout \<Rightarrow> kind sh = KStruct \<and> layout_covers (sl_fields layout) (length (member_types sh))
    | CandidateStruct layout \<Rightarrow> kind sh = KStruct \<and> layout_covers (sl_fields layout) (length (member_types sh)))"

definition wf_codec :: "codec \<Rightarrow> bool" where
  "wf_codec c \<longleftrightarrow> wf_schema (cschema c) \<and>
     (\<forall>tid l. wire_layouts c tid = Some l \<longrightarrow>
        (\<exists>sh. schema_shape (cschema c) tid = Inr sh \<and> layout_fits l sh))"

lemma wf_schema_runtime [simp]: "wf_schema (Runtime m)"
  using metadata_shape_wf by (auto simp: wf_schema_def)

lemma wf_schema_static:
  assumes "\<forall>sh \<in> set (ss_types s). wf_shape (to_shape sh)"
  shows "wf_schema (Static s)"
  unfolding wf_schema_def
proof (intro allI impI)
  fix tid sh
  assume "schema_shape (Static s) tid = Inr sh"
  then show "wf_shape sh"
    using assms static_shape_cases[of s tid] by (auto simp del: schema_shape.simps)
qed

lemma wf_codec_new: "wf_schema s \<Longrightarrow> wf_codec (codec_from_schema s)"
  by (simp add: wf_codec_def codec_from_schema_def)

lemma check_layout_fields_Inr:
  "check_layout_fields fs seen = Inr () \<Longrightarrow>
     logical_field ` set fs \<subseteq> {i. i < length seen \<and> \<not> seen ! i} \<and> distinct (map logical_field fs)"
proof (induction fs arbitrary: seen)
  case (Cons f fs)
  then have f: "logical_field f < length seen" "\<not> seen ! logical_field f"
    and rest: "check_layout_fields fs (seen[logical_field f := True]) = Inr ()"
    by (auto split: if_splits)
  then show ?case
    using Cons.IH[OF rest] by (auto simp: nth_list_update split: if_splits)
qed simp

lemma wf_codec_insert:
  "wf_codec c \<Longrightarrow> schema_shape (cschema c) tid = Inr sh \<Longrightarrow> layout_fits l sh \<Longrightarrow>
     wf_codec (c\<lparr>wire_layouts := (wire_layouts c)(tid \<mapsto> l)\<rparr>)"
  by (auto simp: wf_codec_def)

lemma register_named_wf:
  assumes "wf_codec c" and "\<And>sh. obfuscated sh \<Longrightarrow> layout_fits l sh"
  shows "wf_codec (snd (register_named name l c))"
  using assms wf_codec_insert[OF assms(1)]
  by (auto simp: register_named_def register_obfuscated_def split: sum.splits)

lemma register_struct_wf:
  assumes "wf_codec c"
  shows "wf_codec (snd (register_struct name layout candidate c))"
proof (cases "fst (register_struct name layout candidate c)")
  case (Inl e)
  then show ?thesis
    using assms by (auto simp: register_struct_def split: sum.splits)
next
  case (Inr u)
  then obtain tid sh where sh: "schema_shape (cschema c) tid = Inr sh" "kind sh = KStruct"
      "length (sl_fields layout) = length (member_types sh)"
      "check_layout_fields (sl_fields layout) (replicate (length (member_types sh)) False) = Inr ()"
    and run: "snd (register_struct name layout candidate c) = c\<lparr>wire_layouts := (wire_layouts c)(tid \<mapsto>
            (if candidate then CandidateStruct layout else StructLayout layout))\<rparr>"
    by (auto simp: register_struct_def rbind_Inr_iff split: sum.splits if_splits)
  have "layout_fits (if candidate then CandidateStruct layout else StructLayout layout) sh"
    using sh check_layout_fields_Inr[OF sh(4)] by (auto simp: layout_fits_def layout_covers_def)
  then show ?thesis
    unfolding run by (rule wf_codec_insert[OF assms sh(1)])
qed

text \<open>A second registration for a type is refused and changes nothing.\<close>

lemma register_obfuscated_again:
  "wire_layouts c tid = Some l \<Longrightarrow> register_obfuscated tid l' c = (v, c') \<Longrightarrow> c' = c \<and> (\<exists>e. v = Inl e)"
  by (auto simp: register_obfuscated_def split: sum.splits if_splits)

section \<open>Reading in a traced state\<close>

text \<open>
  The decoder takes the given bits off a reader that stands at a position congruent to \<open>p\<close>
  modulo a byte, whatever is traced, and wants more data when they are cut short.
\<close>

definition reads :: "(tstate, 'a) op \<Rightarrow> 'a \<Rightarrow> nat \<Rightarrow> bool list \<Rightarrow> bool" where
  "reads m x p bs \<longleftrightarrow> (\<forall>r tr. wf_reader r \<and> rposition r mod 8 = p mod 8 \<longrightarrow>
     (\<forall>rest. rbits r = bs @ rest \<longrightarrow> (\<exists>tr'. m (r, tr) = (Inr x, (advance (length bs) r, tr')))) \<and>
     (\<forall>missing. bs = rbits r @ missing \<and> missing \<noteq> [] \<longrightarrow> (\<exists>i s. m (r, tr) = (Inl (IncompleteFrame i), s))))"

lemma readsI:
  assumes "\<And>r tr rest. wf_reader r \<Longrightarrow> rposition r mod 8 = p mod 8 \<Longrightarrow> rbits r = bs @ rest \<Longrightarrow>
      \<exists>tr'. m (r, tr) = (Inr x, (advance (length bs) r, tr'))"
    and "\<And>r tr missing. wf_reader r \<Longrightarrow> rposition r mod 8 = p mod 8 \<Longrightarrow> bs = rbits r @ missing \<Longrightarrow>
      missing \<noteq> [] \<Longrightarrow> \<exists>i s. m (r, tr) = (Inl (IncompleteFrame i), s)"
  shows "reads m x p bs"
  using assms by (auto simp: reads_def)

lemma reads_run:
  assumes "reads m x p bs" and "wf_reader r" and "rposition r mod 8 = p mod 8" and "rbits r = bs @ rest"
  obtains tr' where "m (r, tr) = (Inr x, (advance (length bs) r, tr'))"
  using assms unfolding reads_def by blast

lemma reads_cut:
  assumes "reads m x p bs" and "wf_reader r" and "rposition r mod 8 = p mod 8"
    and "bs = rbits r @ missing" and "missing \<noteq> []"
  obtains i s where "m (r, tr) = (Inl (IncompleteFrame i), s)"
  using assms unfolding reads_def by blast

lemma reads_cong: "p mod 8 = q mod 8 \<Longrightarrow> reads m x p bs = reads m x q bs"
  by (simp add: reads_def)

named_theorems reads_intros \<open>rules that follow the decoder\<close>

lemma reads_const [reads_intros]: "(\<And>r tr. \<exists>tr'. m (r, tr) = (Inr x, (r, tr'))) \<Longrightarrow> reads m x p []"
  by (rule readsI) simp_all

lemma reads_ret: "reads (ret x) x p []"
  by (rule reads_const) simp

lemma reads_lift: "v = Inr x \<Longrightarrow> reads (liftR v) x p []"
  by (rule reads_const) simp

lemma reads_push: "reads (push_field f) () p []"
  by (rule reads_const) (simp add: push_field_def)

lemma reads_bind:
  assumes m: "reads m x p bs" and f: "reads (f x) y (p + length bs) cs"
  shows "reads (bindM m f) y p (bs @ cs)"
proof (rule readsI)
  fix r tr rest assume r: "wf_reader r" "rposition r mod 8 = p mod 8" "rbits r = (bs @ cs) @ rest"
  then have bits: "rbits r = bs @ cs @ rest" by simp
  obtain tr1 where 1: "m (r, tr) = (Inr x, (advance (length bs) r, tr1))"
    using reads_run[OF m r(1,2) bits] by blast
  have pos: "rposition (advance (length bs) r) mod 8 = (p + length bs) mod 8"
    using mod_add_cong[OF r(2) refl, of "length bs"] by simp
  obtain tr2 where "f x (advance (length bs) r, tr1) = (Inr y, (advance (length cs) (advance (length bs) r), tr2))"
    using reads_run[OF f wf_reader_rest(1)[OF r(1) bits] pos wf_reader_rest(2)[OF r(1) bits]] by blast
  then show "\<exists>tr'. bindM m f (r, tr) = (Inr y, (advance (length (bs @ cs)) r, tr'))"
    using 1 by (simp add: add.assoc)
next
  fix r tr missing
  assume r: "wf_reader r" "rposition r mod 8 = p mod 8" and miss: "bs @ cs = rbits r @ missing" "missing \<noteq> []"
  show "\<exists>i s. bindM m f (r, tr) = (Inl (IncompleteFrame i), s)"
  proof (cases "\<exists>rest. rbits r = bs @ rest")
    case True
    then obtain rest where rest: "rbits r = bs @ rest" ..
    then have cs: "cs = rbits (advance (length bs) r) @ missing"
      using miss(1) wf_reader_rest(2)[OF r(1) rest] by simp
    obtain tr1 where 1: "m (r, tr) = (Inr x, (advance (length bs) r, tr1))"
      using reads_run[OF m r rest] by blast
    have pos: "rposition (advance (length bs) r) mod 8 = (p + length bs) mod 8"
      using mod_add_cong[OF r(2) refl, of "length bs"] by simp
    obtain i s where "f x (advance (length bs) r, tr1) = (Inl (IncompleteFrame i), s)"
      using reads_cut[OF f wf_reader_rest(1)[OF r(1) rest] pos cs miss(2)] by blast
    then show ?thesis
      using 1 by simp
  next
    case False
    then obtain us where "bs = rbits r @ us" "us \<noteq> []"
      using miss(1) by (metis append_Nil2 append_eq_append_conv2)
    then obtain i s where "m (r, tr) = (Inl (IncompleteFrame i), s)"
      using reads_cut[OF m r] by blast
    then show ?thesis by simp
  qed
qed

lemma reads_bind_const:
  assumes "reads m x p []" and "reads (f x) y p cs"
  shows "reads (bindM m f) y p cs"
  using reads_bind[OF assms(1), of f y cs] assms(2) by simp

lemma reads_then_ret:
  assumes "reads m x p bs" and "reads (f x) y (p + length bs) []"
  shows "reads (bindM m f) y p bs"
  using reads_bind[of m x p bs f y "[]"] assms by simp

lemma reads_gets: "(\<And>a. reads (f a) x p bs) \<Longrightarrow> reads (bindM (getsM g) f) x p bs"
  by (simp add: reads_def bindM_def)

lemma reads_map_err:
  assumes "reads m x p bs" and "\<And>s i. \<exists>i'. f s (IncompleteFrame i) = IncompleteFrame i'"
  shows "reads (map_errM f m) x p bs"
proof (rule readsI)
  fix r tr rest assume "wf_reader r" "rposition r mod 8 = p mod 8" "rbits r = bs @ rest"
  from reads_run[OF assms(1) this, of tr]
  show "\<exists>tr'. map_errM f m (r, tr) = (Inr x, (advance (length bs) r, tr'))"
    by (metis map_errM_Inr_iff)
next
  fix r tr missing assume "wf_reader r" "rposition r mod 8 = p mod 8" "bs = rbits r @ missing" "missing \<noteq> []"
  from reads_cut[OF assms(1) this, of tr] obtain i s where "m (r, tr) = (Inl (IncompleteFrame i), s)" by blast
  then show "\<exists>i s. map_errM f m (r, tr) = (Inl (IncompleteFrame i), s)"
    using assms(2)[of s i] by (auto simp: map_errM_def)
qed

lemma reads_on_reader:
  assumes "parses m x img" and "positional img"
  shows "reads (on_reader m) x p (img p)"
proof (rule readsI)
  fix r tr rest assume r: "wf_reader r" "rposition r mod 8 = p mod 8" "rbits r = img p @ rest"
  have img: "img p = img (rposition r)"
    using assms(2) r(2) unfolding positional_def by metis
  show "\<exists>tr'. on_reader m (r, tr) = (Inr x, (advance (length (img p)) r, tr'))"
    using parses_ok[OF assms(1) r(1)] r(3) unfolding img by (simp add: on_reader_def)
next
  fix r tr missing
  assume r: "wf_reader r" "rposition r mod 8 = p mod 8" "img p = rbits r @ missing" "missing \<noteq> []"
  have img: "img p = img (rposition r)"
    using assms(2) r(2) unfolding positional_def by metis
  obtain i r' where "m r = (Inl (IncompleteFrame i), r')"
    using parses_cut[OF assms(1) r(1) _ r(4)] r(3) unfolding img by blast
  then show "\<exists>i s. on_reader m (r, tr) = (Inl (IncompleteFrame i), s)"
    by (simp add: on_reader_def)
qed

lemma on_reader_bind: "on_reader (bindM m f) = bindM (on_reader m) (\<lambda>x. on_reader (f x))"
  by (auto simp: on_reader_def bindM_def fun_eq_iff split: prod.splits sum.splits)

lemma on_reader_ret: "on_reader (ret x) = ret x"
  by (auto simp: on_reader_def fun_eq_iff)

lemma on_reader_fail: "on_reader (fail e) = fail e"
  by (auto simp: on_reader_def fun_eq_iff)

section \<open>Writer and reader in step\<close>

definition in_step :: "writer \<Rightarrow> writer \<Rightarrow> (tstate, 'a) op \<Rightarrow> 'a \<Rightarrow> bool" where
  "in_step w w' m x \<longleftrightarrow> wf_writer w' \<and> (\<exists>bs. wbits w' = wbits w @ bs \<and> reads m x (wposition w) bs)"

lemma in_step_wf: "in_step w w' m x \<Longrightarrow> wf_writer w'"
  by (simp add: in_step_def)

lemma in_step_bind:
  assumes "in_step w w1 m x" and "in_step w1 w2 (f x) y"
  shows "in_step w w2 (bindM m f) y"
proof -
  obtain bs cs where bs: "wbits w1 = wbits w @ bs" "reads m x (wposition w) bs"
    and cs: "wbits w2 = wbits w1 @ cs" "reads (f x) y (wposition w1) cs" "wf_writer w2"
    using assms by (auto simp: in_step_def)
  have "wposition w1 = wposition w + length bs"
    using bs(1) by (metis length_append length_wbits)
  then have "reads (bindM m f) y (wposition w) (bs @ cs)"
    using reads_bind[OF bs(2)] cs(2) by simp
  then show ?thesis
    using bs(1) cs by (auto simp: in_step_def)
qed

lemma in_step_before: "reads m x (wposition w) [] \<Longrightarrow> in_step w w' (f x) y \<Longrightarrow> in_step w w' (bindM m f) y"
  by (auto simp: in_step_def intro: reads_bind_const)

lemma in_step_after:
  assumes "in_step w w' m x" and "\<And>p. reads (f x) y p []"
  shows "in_step w w' (bindM m f) y"
  using assms by (auto simp: in_step_def intro: reads_then_ret)

lemma in_step_gets: "(\<And>a. in_step w w' (f a) x) \<Longrightarrow> wbits w' = wbits w @ bs \<Longrightarrow> in_step w w' (bindM (getsM g) f) x"
proof -
  assume step: "\<And>a. in_step w w' (f a) x" and bits: "wbits w' = wbits w @ bs"
  have "reads (f a) x (wposition w) bs" for a
    using step[of a] bits by (auto simp: in_step_def)
  then show ?thesis
    using step bits by (auto simp: in_step_def intro: reads_gets)
qed

lemma in_step_gets_step:
  assumes "\<And>a. in_step w w' (f a) x"
  shows "in_step w w' (bindM (getsM g) f) x"
proof -
  obtain bs where "wbits w' = wbits w @ bs"
    using assms unfolding in_step_def by blast
  then show ?thesis
    by (rule in_step_gets[OF assms])
qed

lemma in_step_map_err:
  assumes "in_step w w' m x" and "\<And>s i. \<exists>i'. f s (IncompleteFrame i) = IncompleteFrame i'"
  shows "in_step w w' (map_errM f m) x"
proof -
  obtain bs where "wbits w' = wbits w @ bs" "reads m x (wposition w) bs"
    using assms(1) by (auto simp: in_step_def)
  then show ?thesis
    using reads_map_err[of m x "wposition w" _ f] assms by (auto simp: in_step_def)
qed

lemma in_step_refl: "wf_writer w \<Longrightarrow> (\<And>p. reads m x p []) \<Longrightarrow> in_step w w m x"
  by (auto simp: in_step_def)

lemma in_step_codec:
  assumes "emits e img" and "parses d x img" and "positional img" and "wf_writer w" and "e w = (Inr (), w')"
  shows "in_step w w' (on_reader d) x"
proof -
  obtain w'' where "e w = (Inr (), w'')" "wf_writer w''" "wbits w'' = wbits w @ img (wposition w)"
    using assms(1,4) by (auto simp: emits_def)
  then show ?thesis
    using assms(5) reads_on_reader[OF assms(2,3)] by (auto simp: in_step_def)
qed

lemma write_bits_fits: "write_bits val n w = (Inr (), w') \<Longrightarrow> fits n val"
  using write_bits_error by fastforce

lemma in_step_bits:
  "wf_writer w \<Longrightarrow> write_bits val n w = (Inr (), w') \<Longrightarrow> in_step w w' (on_reader (read_bits n)) val"
  by (rule in_step_codec[OF emits_write_bits parses_read_bits positional_field])
    (auto dest: write_bits_fits)

lemma in_step_bytes:
  "wf_writer w \<Longrightarrow> length d < 2 ^ 59 \<Longrightarrow> write_bytes d aligned w = (Inr (), w') \<Longrightarrow>
     in_step w w' (on_reader (read_bytes (length d) aligned)) d"
  by (rule in_step_codec[OF emits_write_bytes parses_read_bytes positional_bytes])

lemma in_step_raw:
  assumes "wf_writer w" and "n \<le> 8 * length d" and "write_raw d (Some n) w = (Inr (), w')"
  shows "in_step w w' (on_reader (read_raw n)) (pack (raw_bits d n))"
  using in_step_codec[OF emits_write_raw[OF assms(2)] parses_read_raw positional_raw assms(1,3)] by simp

lemma in_step_loop:
  assumes "\<And>k w w'. k \<in> set ks \<Longrightarrow> wf_writer w \<Longrightarrow> E k w = (Inr (), w') \<Longrightarrow> in_step w w' (D k) (X k)"
    and "wf_writer w" and "loopM ks (\<lambda>k _. E k) () w = (Inr (), w')"
  shows "in_step w w' (forM ks D) (map X ks)"
  using assms
proof (induction ks arbitrary: w)
  case Nil
  then show ?case
    by (auto simp: in_step_def intro!: exI[of _ "[]"] reads_const)
next
  case (Cons k ks)
  then obtain w1 where w1: "E k w = (Inr (), w1)" "loopM ks (\<lambda>k _. E k) () w1 = (Inr (), w')"
    by (auto simp: bindM_Inr_iff)
  have step: "in_step w w1 (D k) (X k)"
    using Cons.prems w1(1) by simp
  have "in_step w1 w' (forM ks D) (map X ks)"
    using Cons.prems in_step_wf[OF step] w1(2) by (intro Cons.IH) auto
  then have "in_step w1 w' (bindM (forM ks D) (\<lambda>ys. ret (X k # ys))) (X k # map X ks)"
    by (rule in_step_after) (rule reads_ret)
  from in_step_bind[OF step, where f = "\<lambda>y. bindM (forM ks D) (\<lambda>ys. ret (y # ys))", OF this]
  show ?case by (simp del: ret_apply)
qed

section \<open>Ranges and lengths\<close>

lemma in_step_range:
  assumes "wf_writer w" and "write_range r v w = (Inr (), w')"
  shows "in_step w w' (on_reader (read_range r)) v"
proof -
  have v: "minimum r \<le> v" "v \<le> maximum r"
    using assms(2) by (auto simp: write_range_def split: if_splits)
  have check: "reads (on_reader (if u > maximum r then codec_error (ExceedsMaximum u (maximum r)) else ret u)) v p []"
    if "u = v" for u p
    using v(2) that by (auto simp: on_reader_ret intro: reads_ret)
  show ?thesis
  proof (cases "bit_width r")
    case None
    then have "v = minimum r" "w' = w"
      using assms(2) v by (auto simp: write_range_def split: if_splits)
    then show ?thesis
      using None check assms(1) unfolding read_range_def read_range_with_maximum_def on_reader_bind
      by (auto simp: on_reader_ret intro!: in_step_refl reads_bind_const reads_ret)
  next
    case (Some width)
    let ?raw = "of_int (v - minimum r) :: u64"
    have run: "write_bits ?raw width w = (Inr (), w')" and lt: "v - minimum r < 2 ^ 64"
      using assms(2) v Some by (auto simp: write_range_def split: if_splits)
    have "uint (of_int k :: u64) = k" if "0 \<le> k" "k < 2 ^ 64" for k
      using that by (simp add: uint_word_of_int_eq take_bit_int_eq_self)
    from this[of "v - minimum r"] have val: "uint ?raw + minimum r = v"
      using v lt by linarith
    have "in_step w w' (bindM (on_reader (read_bits width)) (\<lambda>raw. ret (uint raw + minimum r))) v"
      using in_step_after[OF in_step_bits[OF assms(1) run], of "\<lambda>raw. ret (uint raw + minimum r)" v] val
      by (simp add: reads_ret del: ret_apply)
    then show ?thesis
      unfolding read_range_def read_range_with_maximum_def on_reader_bind Some option.case on_reader_ret
      by (rule in_step_after) (rule check[OF refl])
  qed
qed

lemma in_step_length:
  assumes "wf_writer w" and "write_length r n w = (Inr (), w')" and "n < 2 ^ 64"
  shows "in_step w w' (on_reader (read_length r)) n"
  unfolding read_length_def on_reader_bind
proof (rule in_step_after)
  show "in_step w w' (on_reader (read_range r)) (int n)"
    using in_step_range[OF assms(1)] assms(2) by (simp add: write_length_def)
  show "reads (on_reader (if 0 \<le> int n \<and> int n < 2 ^ 64 then ret (nat (int n)) else codec_error LengthDoesNotFit)) n p []" for p
    using assms(3) by (simp add: on_reader_ret reads_ret del: ret_apply)
qed

section \<open>Normal forms\<close>

text \<open>
  What the decoder returns for an encoded value: the fields of a struct are those of the
  schema in its order, with the schema's names, the defaults of optional fields that were
  missing included and unknown fields gone; bit arrays are cut to their bit count.  \<open>nf\<close> is the
  normal form of values with a custom layout.
\<close>

definition default_or_void :: "codec \<Rightarrow> nat \<Rightarrow> u32 \<Rightarrow> bsn_value" where
  "default_or_void c n tid = (case default_value c n tid of Inl _ \<Rightarrow> Void | Inr v \<Rightarrow> v)"

definition struct_member :: "codec \<Rightarrow> nat \<Rightarrow> type_shape \<Rightarrow> bsn_field list \<Rightarrow> nat \<Rightarrow> bsn_value" where
  "struct_member c n sh fs position =
     (case by_index fs (index_values sh ! position) of
        Some v \<Rightarrow> v | None \<Rightarrow> default_or_void c n (member_types sh ! position))"

definition struct_normal ::
    "codec \<Rightarrow> nat \<Rightarrow> (u32 \<Rightarrow> bsn_value \<Rightarrow> bsn_value) \<Rightarrow> u32 \<Rightarrow> type_shape \<Rightarrow> bsn_value \<Rightarrow> bsn_value" where
  "struct_normal c n norm tid sh v =
     (case as_struct v of
        None \<Rightarrow> v
      | Some (_, fs) \<Rightarrow> Struct tid (map (\<lambda>position.
          Field (index_values sh ! position) (member_names sh ! position)
            (norm (member_types sh ! position) (struct_member c n sh fs position)))
          [0..<length (member_types sh)]))"

definition kind_normal ::
    "codec \<Rightarrow> nat \<Rightarrow> (u32 \<Rightarrow> bsn_value \<Rightarrow> bsn_value) \<Rightarrow> u32 \<Rightarrow> type_shape \<Rightarrow> bsn_value \<Rightarrow> bsn_value" where
  "kind_normal c n norm tid sh v =
     (case kind sh of
        KAlias \<Rightarrow> norm (the (element_type sh)) v
      | KBitArray \<Rightarrow> (case as_bit_array v of None \<Rightarrow> v
          | Some b \<Rightarrow> BitArray \<lparr>ba_data = pack (raw_bits (ba_data b) (ba_bit_count b)), ba_bit_count = ba_bit_count b\<rparr>)
      | KArray \<Rightarrow> (case as_array v of None \<Rightarrow> v | Some vs \<Rightarrow> Array (map (norm (the (element_type sh))) vs))
      | KOptional \<Rightarrow> (case v of Optional (Some x) \<Rightarrow> Optional (Some (norm (the (element_type sh)) x)) | _ \<Rightarrow> v)
      | KChoice \<Rightarrow> (case v of
            Choice index x \<Rightarrow> (case position_of (\<lambda>candidate. candidate = index) (index_values sh) of
               None \<Rightarrow> v | Some position \<Rightarrow> Choice index (norm (member_types sh ! position) x))
          | _ \<Rightarrow> v)
      | KStruct \<Rightarrow> struct_normal c n norm tid sh v
      | _ \<Rightarrow> v)"

primrec normal_form :: "codec \<Rightarrow> (u32 \<Rightarrow> bsn_value \<Rightarrow> bsn_value) \<Rightarrow> nat \<Rightarrow> u32 \<Rightarrow> bsn_value \<Rightarrow> bsn_value" where
  "normal_form c nf 0 = (\<lambda>tid v. v)"
| "normal_form c nf (Suc n) = (\<lambda>tid v.
     case schema_shape (cschema c) tid of
       Inl _ \<Rightarrow> v
     | Inr sh \<Rightarrow>
         (case wire_layouts c tid of
            Some (StructLayout _) \<Rightarrow> struct_normal c n (normal_form c nf n) tid sh v
          | Some (CandidateStruct _) \<Rightarrow> struct_normal c n (normal_form c nf n) tid sh v
          | Some (CustomLayout _) \<Rightarrow> nf tid v
          | _ \<Rightarrow> kind_normal c n (normal_form c nf n) tid sh v))"

text \<open>
  A value that can exist at run time: strings are UTF-8, byte strings and bit arrays fit the
  address space, and an array fits the largest vector.
\<close>

fun live :: "nat \<Rightarrow> bsn_value \<Rightarrow> bool" and live_field :: "nat \<Rightarrow> bsn_field \<Rightarrow> bool" where
  "live cap (Bytes d) = (length d < 2 ^ 59)"
| "live cap (Str d) = (utf8_valid d \<and> length d < 2 ^ 59)"
| "live cap (BitArray b) = (ba_bit_count b < 2 ^ 63)"
| "live cap (Array vs) = (length vs \<le> cap \<and> length vs < 2 ^ 63 \<and> (\<forall>v \<in> set vs. live cap v))"
| "live cap (Optional x) = (case x of None \<Rightarrow> True | Some v \<Rightarrow> live cap v)"
| "live cap (Choice i v) = live cap v"
| "live cap (Struct tid fs) = (\<forall>f \<in> set fs. live_field cap f)"
| "live cap _ = True"
| "live_field cap (Field i name v) = live cap v"

lemma live_field_value: "live_field cap f \<longleftrightarrow> live cap (field_value f)"
  by (cases f) simp

lemma by_index_live:
  assumes "by_index fs i = Some v" and "\<forall>f \<in> set fs. live_field cap f"
  shows "live cap v"
proof -
  have "(i, v) \<in> set (map (\<lambda>f. (field_index f, field_value f)) fs)"
    using map_of_SomeD[OF assms(1)[unfolded by_index_def]] by simp
  then show ?thesis
    using assms(2) by (auto simp: live_field_value)
qed

lemma default_value_live: "default_value c n tid = Inr v \<Longrightarrow> live cap v"
  by (induction n arbitrary: tid) (auto simp: rbind_Inr_iff split: if_splits)

text \<open>A program whose custom encoders and decoders agree.\<close>

definition lawful_program :: "program \<Rightarrow> codec \<Rightarrow> (u32 \<Rightarrow> bsn_value \<Rightarrow> bsn_value) \<Rightarrow> bool" where
  "lawful_program prog c nf \<longleftrightarrow> (\<forall>n tid layout v w w' path depth.
     wire_layouts c tid = Some (CustomLayout layout) \<and> wf_writer w \<and> live (max_capacity prog) v \<and>
     run_encode prog (wl_encode layout) n c tid v w = (Inr (), w') \<longrightarrow>
     in_step w w' (run_custom prog c n layout path depth tid) (nf tid v))"

section \<open>What was encoded is decoded\<close>

text \<open>One level of the recursion: the calls below it agree.\<close>

definition agree :: "nat \<Rightarrow> encode_rec \<Rightarrow> decode_rec \<Rightarrow> (u32 \<Rightarrow> bsn_value \<Rightarrow> bsn_value) \<Rightarrow> bool" where
  "agree cap E D N \<longleftrightarrow> (\<forall>scope tid v w w' path depth.
     wf_writer w \<and> live cap v \<and> E scope tid v w = (Inr (), w') \<longrightarrow>
     in_step w w' (D scope path depth tid) (N tid v))"

lemma agreeD:
  "agree cap E D N \<Longrightarrow> wf_writer w \<Longrightarrow> live cap v \<Longrightarrow> E scope tid v w = (Inr (), w') \<Longrightarrow>
     in_step w w' (D scope path depth tid) (N tid v)"
  by (simp add: agree_def)

lemma encode_member_value:
  assumes "encode_member c n E scope sh fs position w = (Inr (), w')" and "\<forall>f \<in> set fs. live_field cap f"
  shows "position < length (index_values sh)" and "position < length (member_types sh)"
    and "live cap (struct_member c n sh fs position)"
    and "E scope (member_types sh ! position) (struct_member c n sh fs position) w = (Inr (), w')"
proof -
  show pos: "position < length (index_values sh)" "position < length (member_types sh)"
    using assms(1) by (auto simp: encode_member_def bindM_Inr_iff get_at_Some)
  have "live cap (struct_member c n sh fs position) \<and>
    E scope (member_types sh ! position) (struct_member c n sh fs position) w = (Inr (), w')"
  proof (cases "by_index fs (index_values sh ! position)")
    case None
    then obtain d where "default_value c n (member_types sh ! position) = Inr d"
        "E scope (member_types sh ! position) d w = (Inr (), w')"
      using assms(1) by (auto simp: encode_member_def bindM_Inr_iff get_at_Some)
    then show ?thesis
      using None by (auto simp: struct_member_def default_or_void_def dest: default_value_live)
  next
    case (Some v)
    then show ?thesis
      using assms(1) by_index_live[OF Some assms(2)]
      by (auto simp: encode_member_def bindM_Inr_iff get_at_Some struct_member_def)
  qed
  then show "live cap (struct_member c n sh fs position)"
    and "E scope (member_types sh ! position) (struct_member c n sh fs position) w = (Inr (), w')"
    by simp_all
qed

lemma reads_index: "i < length xs \<Longrightarrow> reads (index_op xs i) (xs ! i) p []"
  by (rule reads_lift) (simp add: get_at_def)

lemma reads_member_label:
  assumes "position < length (member_names sh)" and "position < length (index_values sh)"
  obtains label where "\<And>p. reads (member_label sh position) label p []"
proof (cases "member_names sh ! position")
  case None
  have "reads (member_label sh position) (ascii ''#'' @ decimal (index_values sh ! position)) p []" for p
    unfolding member_label_def
    by (rule reads_bind_const[OF reads_index[OF assms(1)]], unfold None option.case,
        rule reads_bind_const[OF reads_index[OF assms(2)] reads_ret])
  then show thesis by (rule that)
next
  case (Some s)
  have "reads (member_label sh position) s p []" for p
    unfolding member_label_def
    by (rule reads_bind_const[OF reads_index[OF assms(1)]], unfold Some option.case, rule reads_ret)
  then show thesis by (rule that)
qed

lemma decode_member_step:
  assumes agree: "agree cap E D N" and w: "wf_writer w"
    and run: "encode_member c n E scope sh fs position w = (Inr (), w')"
    and live: "\<forall>f \<in> set fs. live_field cap f" and names: "length (member_names sh) = length (index_values sh)"
  shows "in_step w w' (decode_struct_member D scope path depth tid sh position)
    (Field (index_values sh ! position) (member_names sh ! position)
       (N (member_types sh ! position) (struct_member c n sh fs position)))"
proof -
  note val = encode_member_value[OF run live]
  have name: "position < length (member_names sh)"
    using val(1) names by simp
  obtain label where label: "\<And>p. reads (member_label sh position) label p []"
    using reads_member_label[OF name val(1)] by blast
  show ?thesis
    unfolding decode_struct_member_def
    by (rule in_step_before[OF label], rule in_step_before[OF reads_index[OF val(1)]],
        rule in_step_before[OF reads_index[OF name]], rule in_step_before[OF reads_index[OF val(2)]],
        rule in_step_after[OF in_step_map_err[OF agreeD[OF agree w val(3,4)]] reads_ret]) simp
qed

lemma struct_step:
  assumes agree: "agree cap E D N" and w: "wf_writer w" and "live cap v"
    and run: "encode_struct c n E scope sh v w = (Inr (), w')"
    and names: "length (member_names sh) = length (index_values sh)"
  shows "in_step w w' (bindM (forM [0..<length (member_types sh)] (decode_struct_member D scope path depth tid sh))
      (\<lambda>fs. ret (Struct tid fs))) (struct_normal c n N tid sh v)"
proof -
  obtain t fs where v: "v = Struct t fs"
    using run by (cases v) (auto simp: encode_struct_def)
  have live: "\<forall>f \<in> set fs. live_field cap f"
    using assms(3) by (simp add: v)
  have loop: "loopM [0..<length (member_types sh)] (\<lambda>position _. encode_member c n E scope sh fs position) () w
      = (Inr (), w')"
    using run by (simp add: encode_struct_def v)
  show ?thesis
    unfolding struct_normal_def v as_struct.simps option.case prod.case
    by (rule in_step_after[OF in_step_loop[OF decode_member_step[OF agree _ _ live names] w loop] reads_ret])
qed

lemma filler_step:
  assumes "wf_writer w" and "write_filler filler state w = (Inr state', w')"
  shows "in_step w w' (if filler \<noteq> 0
      then bindM position_now (\<lambda>start. bindM (on_reader (read_bits (unat filler))) (\<lambda>_.
           bindM position_now (\<lambda>stop. push_field (f start stop))))
      else ret ()) ()"
proof (cases "filler = 0")
  case True
  then show ?thesis
    using assms by (auto simp: write_filler_def intro!: in_step_refl reads_ret simp del: ret_apply)
next
  case False
  then obtain x where run: "write_bits x (unat filler) w = (Inr (), w')"
    using assms(2) by (auto simp: write_filler_def bindM_Inr_iff Let_def)
  have "in_step w w' (bindM position_now (\<lambda>start. bindM (on_reader (read_bits (unat filler))) (\<lambda>_.
           bindM position_now (\<lambda>stop. push_field (f start stop))))) ()"
    by (rule in_step_gets_step, rule in_step_after[OF in_step_bits[OF assms(1) run]], rule reads_gets, rule reads_push)
  then show ?thesis
    using False by simp
qed

lemma write_filler_wf: "wf_writer w \<Longrightarrow> write_filler filler state w = (Inr state', w') \<Longrightarrow> wf_writer w'"
  using filler_step[THEN in_step_wf] by blast

definition place :: "(nat \<Rightarrow> bsn_field) \<Rightarrow> wire_field list \<Rightarrow> bsn_field option list \<Rightarrow> bsn_field option list" where
  "place g entries logical = fold (\<lambda>e l. l[logical_field e := Some (g (logical_field e))]) entries logical"

lemma place_nth:
  "i < length logical \<Longrightarrow> place g entries logical ! i =
     (if i \<in> logical_field ` set entries then Some (g i) else logical ! i)"
proof (induction entries arbitrary: logical)
  case (Cons e entries)
  then show ?case
    using Cons.IH[of "logical[logical_field e := Some (g (logical_field e))]"]
    by (auto simp: place_def nth_list_update)
qed (simp add: place_def)

lemma length_place [simp]: "length (place g entries logical) = length logical"
  unfolding place_def by (induction entries arbitrary: logical) simp_all

lemma place_covers:
  assumes "layout_covers entries n"
  shows "place g entries (replicate n None) = map (\<lambda>i. Some (g i)) [0..<n]"
proof -
  have "logical_field ` set entries = {..<n}"
  proof (rule card_subset_eq)
    show "logical_field ` set entries \<subseteq> {..<n}" "finite {..<n}"
      using assms by (simp_all add: layout_covers_def)
    show "card (logical_field ` set entries) = card {..<n}"
      using assms distinct_card[of "map logical_field entries"] by (simp add: layout_covers_def)
  qed
  then show ?thesis
    by (intro nth_equalityI) (auto simp: place_nth)
qed

definition encode_entry :: "codec \<Rightarrow> nat \<Rightarrow> encode_rec \<Rightarrow> type_shape \<Rightarrow> bsn_field list \<Rightarrow> wire_field \<Rightarrow> u32 \<Rightarrow> (writer, u32) op" where
  "encode_entry c n E sh fs entry state =
     bindM (write_filler (filler_before entry) state) (\<lambda>state.
     bindM (encode_member c n E False sh fs (logical_field entry)) (\<lambda>_. ret state))"

lemma entry_step:
  assumes agree: "agree cap E D N" and w: "wf_writer w"
    and run: "encode_entry c n E sh fs entry state w = (Inr state', w')"
    and live: "\<forall>f \<in> set fs. live_field cap f" and names: "length (member_names sh) = length (index_values sh)"
    and pos: "logical_field entry < length logical"
  shows "in_step w w' (decode_layout_entry D path depth sh entry logical)
    (logical[logical_field entry := Some (Field (index_values sh ! logical_field entry)
       (member_names sh ! logical_field entry)
       (N (member_types sh ! logical_field entry) (struct_member c n sh fs (logical_field entry))))])"
proof -
  obtain w1 st where w1: "write_filler (filler_before entry) state w = (Inr st, w1)"
      and member: "encode_member c n E False sh fs (logical_field entry) w1 = (Inr (), w')"
    using run by (auto simp: encode_entry_def bindM_Inr_iff)
  note val = encode_member_value[OF member live]
  have wf1: "wf_writer w1"
    by (rule write_filler_wf[OF w w1])
  have name: "logical_field entry < length (member_names sh)"
    using val(1) names by simp
  obtain label where label: "\<And>p. reads (member_label sh (logical_field entry)) label p []"
    using reads_member_label[OF name val(1)] by blast
  show ?thesis
    unfolding decode_layout_entry_def Let_def if_P[OF pos]
    apply (rule in_step_before[OF label])
    apply (rule in_step_bind[OF filler_step[OF w w1]])
    apply (rule in_step_before[OF reads_index[OF val(2)]])
    apply (rule in_step_after[OF agreeD[OF agree wf1 val(3,4)]])
    apply (rule reads_bind_const[OF reads_index[OF val(1)]])
    apply (rule reads_bind_const[OF reads_index[OF name]])
    apply (rule reads_ret)
    done
qed

lemma layout_loop_step:
  assumes agree: "agree cap E D N" and w: "wf_writer w"
    and run: "loopM entries (encode_entry c n E sh fs) state w = (Inr state', w')"
    and live: "\<forall>f \<in> set fs. live_field cap f" and names: "length (member_names sh) = length (index_values sh)"
    and pos: "logical_field ` set entries \<subseteq> {..<length logical}"
  shows "in_step w w' (loopM entries (decode_layout_entry D path depth sh) logical)
    (place (\<lambda>i. Field (index_values sh ! i) (member_names sh ! i)
       (N (member_types sh ! i) (struct_member c n sh fs i))) entries logical)"
  using w run pos
proof (induction entries arbitrary: w state logical)
  case Nil
  then show ?case
    by (auto simp: place_def intro!: in_step_refl reads_const)
next
  case (Cons entry entries)
  let ?g = "\<lambda>i. Field (index_values sh ! i) (member_names sh ! i)
       (N (member_types sh ! i) (struct_member c n sh fs i))"
  obtain st w1 where w1: "encode_entry c n E sh fs entry state w = (Inr st, w1)"
      and rest: "loopM entries (encode_entry c n E sh fs) st w1 = (Inr state', w')"
    using Cons.prems(2) by (auto simp: bindM_Inr_iff)
  have "logical_field entry < length logical"
    using Cons.prems(3) by simp
  note step = entry_step[OF agree Cons.prems(1) w1 live names this, of path depth]
  have "in_step w1 w' (loopM entries (decode_layout_entry D path depth sh)
      (logical[logical_field entry := Some (?g (logical_field entry))]))
    (place ?g entries (logical[logical_field entry := Some (?g (logical_field entry))]))"
    using Cons.prems(3) by (intro Cons.IH[OF in_step_wf[OF step] rest]) simp
  from in_step_bind[OF step, where f = "loopM entries (decode_layout_entry D path depth sh)", OF this]
  show ?case
    by (simp add: place_def)
qed

lemma layout_step:
  assumes agree: "agree cap E D N" and w: "wf_writer w" and "live cap v"
    and run: "encode_struct_layout c n E sh v layout w = (Inr (), w')"
    and names: "length (member_names sh) = length (index_values sh)"
    and covers: "layout_covers (sl_fields layout) (length (member_types sh))"
  shows "in_step w w' (decode_struct_layout D path depth tid sh layout) (struct_normal c n N tid sh v)"
proof -
  obtain t fs where v: "v = Struct t fs"
    using run by (cases v) (auto simp: encode_struct_layout_def)
  have live: "\<forall>f \<in> set fs. live_field cap f"
    using assms(3) by (simp add: v)
  obtain st where loop: "loopM (sl_fields layout) (encode_entry c n E sh fs)
      (of_nat (length (member_types sh))) w = (Inr st, w')"
    using run by (auto simp: encode_struct_layout_def v encode_entry_def[abs_def] bindM_Inr_iff split: if_splits)
  let ?g = "\<lambda>i. Field (index_values sh ! i) (member_names sh ! i)
       (N (member_types sh ! i) (struct_member c n sh fs i))"
  have "in_step w w' (loopM (sl_fields layout) (decode_layout_entry D path depth sh)
      (replicate (length (member_types sh)) None)) (map (\<lambda>i. Some (?g i)) [0..<length (member_types sh)])"
    using layout_loop_step[OF agree w loop live names, of "replicate (length (member_types sh)) None" path depth]
      covers place_covers[OF covers, of ?g] by (auto simp: layout_covers_def)
  then show ?thesis
    unfolding decode_struct_layout_def struct_normal_def v as_struct.simps option.case prod.case
    by (rule in_step_after) (auto intro!: reads_const simp: o_def)
qed

lemma lift_range: "value_range sh = Some r \<Longrightarrow> reads (liftR (required_range sh)) r p []"
  by (rule reads_lift) (simp add: required_range_def)

lemma lift_element: "element_type sh = Some t \<Longrightarrow> reads (liftR (required_element sh)) t p []"
  by (rule reads_lift) (simp add: required_element_def)

lemmas encode_kind_unfold = encode_kind_def expect_kind_def required_range_def required_element_def bindM_Inr_iff
lemmas kind_unfold = decode_kind_def kind_normal_def type_kind.case

lemma ret_after: "in_step w w' m x \<Longrightarrow> in_step w w' (bindM m (\<lambda>y. ret (f y))) (f x)"
  by (rule in_step_after[OF _ reads_ret])

lemma binary_step:
  assumes w: "wf_writer w" and d: "length d < 2 ^ 59"
    and len: "write_length r (length d) w = (Inr (), w1)" and run: "write_bytes d True w1 = (Inr (), w')"
  shows "in_step w w' (bindM (on_reader (read_length r)) (\<lambda>n.
      bindM (on_reader (read_bytes n True)) (\<lambda>d. ret (f d)))) (f d)"
proof (rule in_step_bind)
  show step: "in_step w w1 (on_reader (read_length r)) (length d)"
    using d by (intro in_step_length[OF w len]) simp
  show "in_step w1 w' (bindM (on_reader (read_bytes (length d) True)) (\<lambda>d. ret (f d))) (f d)"
    by (rule ret_after[OF in_step_bytes[OF in_step_wf[OF step] d run]])
qed

lemma array_step:
  assumes agree: "agree (max_capacity prog) E D N" and w: "wf_writer w" and live: "live (max_capacity prog) v"
    and k: "kind sh = KArray" and run: "encode_kind c n E scope tid sh v w = (Inr (), w')"
  shows "in_step w w' (decode_kind prog c D scope path depth tid sh) (kind_normal c n N tid sh v)"
proof -
  obtain vs r w1 element where v: "v = Array vs" and r: "value_range sh = Some r"
      and element: "element_type sh = Some element"
      and len: "write_length r (length vs) w = (Inr (), w1)"
      and loop: "loopM vs (\<lambda>x _. E scope element x) () w1 = (Inr (), w')"
    using run k by (cases v) (auto simp: encode_kind_unfold)
  have bounds: "length vs < 2 ^ 64" "\<not> length vs > max_capacity prog" "\<And>x. x \<in> set vs \<Longrightarrow> live (max_capacity prog) x"
    using live by (auto simp: v)
  have step: "in_step w w1 (on_reader (read_length r)) (length vs)"
    by (rule in_step_length[OF w len bounds(1)])
  let ?D = "\<lambda>i. map_errM (\<lambda>_. append_decode_context (\<lambda>m. InElement m i))
      (D scope (path @ ascii ''['' @ decimal_nat i @ ascii '']'') (depth + 1) element)"
  have index_loop: "loopM [0..<length vs] (\<lambda>i _. E scope element (vs ! i)) () w1 = (Inr (), w')"
    using loop loopM_map[of "\<lambda>i. vs ! i" "[0..<length vs]" "\<lambda>x _. E scope element x"]
    by (simp add: map_nth)
  have map: "map (\<lambda>i. N element (vs ! i)) [0..<length vs] = map (N element) vs"
    by (intro nth_equalityI) auto
  have "in_step w1 w' (forM [0..<length vs] ?D) (map (\<lambda>i. N element (vs ! i)) [0..<length vs])"
  proof (rule in_step_loop[OF _ in_step_wf[OF step] index_loop])
    fix i u u' assume "i \<in> set [0..<length vs]" "wf_writer u" "E scope element (vs ! i) u = (Inr (), u')"
    then show "in_step u u' (?D i) (N element (vs ! i))"
      using bounds(3) by (intro in_step_map_err agreeD[OF agree]) auto
  qed
  note elements = ret_after[where f = Array, OF this[unfolded map]]
  show ?thesis
    unfolding kind_unfold k v as_array.simps option.case element option.sel
    by (rule in_step_before[OF lift_range[OF r]], rule in_step_bind[OF step],
        rule in_step_before[OF lift_element[OF element]], unfold if_not_P[OF bounds(2)], rule elements)
qed

lemma bit_array_step:
  assumes w: "wf_writer w" and live: "live cap v"
    and k: "kind sh = KBitArray" and run: "encode_kind c n E scope tid sh v w = (Inr (), w')"
  shows "in_step w w' (decode_kind prog c D scope path depth tid sh) (kind_normal c n N tid sh v)"
proof -
  obtain b r w1 where v: "v = BitArray b" and r: "value_range sh = Some r"
      and fit: "ba_bit_count b \<le> 8 * length (ba_data b)"
      and len: "write_length r (ba_bit_count b) w = (Inr (), w1)"
      and raw: "write_raw (ba_data b) (Some (ba_bit_count b)) w1 = (Inr (), w')"
    using run k by (cases v) (auto simp: encode_kind_unfold split: if_splits)
  have step: "in_step w w1 (on_reader (read_length r)) (ba_bit_count b)"
    using live by (intro in_step_length[OF w len]) (simp add: v)
  note bits = ret_after[where f = "\<lambda>d. BitArray \<lparr>ba_data = d, ba_bit_count = ba_bit_count b\<rparr>",
      OF in_step_raw[OF in_step_wf[OF step] fit raw]]
  show ?thesis
    unfolding kind_unfold k v as_bit_array.simps option.case
    by (rule in_step_before[OF lift_range[OF r]], rule in_step_bind[OF step], rule bits)
qed

lemma optional_step:
  assumes agree: "agree cap E D N" and w: "wf_writer w" and live: "live cap v"
    and k: "kind sh = KOptional" and run: "encode_kind c n E scope tid sh v w = (Inr (), w')"
  shows "in_step w w' (decode_kind prog c D scope path depth tid sh) (kind_normal c n N tid sh v)"
proof -
  obtain x w1 where v: "v = Optional x" and flag: "write_bits (of_bool (x \<noteq> None)) 1 w = (Inr (), w1)"
      and rest: "(case x of None \<Rightarrow> ret () | Some y \<Rightarrow>
          bindM (liftR (required_element sh)) (\<lambda>element. E scope element y)) w1 = (Inr (), w')"
    using run k by (cases v) (auto simp: encode_kind_unfold)
  note step = in_step_bits[OF w flag]
  show ?thesis
  proof (cases x)
    case None
    then have "w' = w1" using rest by simp
    show ?thesis
      unfolding kind_unfold k v None \<open>w' = w1\<close> bsn_value.case option.case
      by (rule in_step_after[OF step]) (simp add: None reads_ret del: ret_apply)
  next
    case (Some y)
    then obtain element where element: "element_type sh = Some element" and y: "E scope element y w1 = (Inr (), w')"
      using rest by (auto simp: required_element_def bindM_Inr_iff)
    have "live cap y" using live by (simp add: v Some)
    from agreeD[OF agree in_step_wf[OF step] this y]
    have inner: "in_step w1 w' (D scope (path @ ascii ''.value'') (depth + 1) element) (N element y)" .
    have one: "(of_bool (x \<noteq> None) :: u64) \<noteq> 0"
      by (simp add: Some)
    show ?thesis
      unfolding kind_unfold k v bsn_value.case option.case element option.sel Some
      by (rule in_step_bind[OF step[unfolded Some]], unfold if_not_P[OF one[unfolded Some]],
          rule in_step_before[OF lift_element[OF element]], rule ret_after[OF inner])
  qed
qed

lemma choice_step:
  assumes agree: "agree cap E D N" and w: "wf_writer w" and live: "live cap v"
    and k: "kind sh = KChoice" and run: "encode_kind c n E scope tid sh v w = (Inr (), w')"
  shows "in_step w w' (decode_kind prog c D scope path depth tid sh) (kind_normal c n N tid sh v)"
proof -
  obtain index x position r w1 where v: "v = Choice index x"
      and position: "position_of (\<lambda>candidate. candidate = index) (index_values sh) = Some position"
      and r: "value_range sh = Some r" and idx: "write_range r index w = (Inr (), w1)"
      and member: "position < length (member_types sh)"
      and rest: "E scope (member_types sh ! position) x w1 = (Inr (), w')"
    using run k by (cases v) (auto simp: encode_kind_unfold get_at_Some split: option.splits)
  note step = in_step_range[OF w idx]
  have "live cap x" using live by (simp add: v)
  note inner = ret_after[where f = "Choice index", OF agreeD[OF agree in_step_wf[OF step] this rest]]
  show ?thesis
    unfolding kind_unfold k v bsn_value.case position option.case
    by (rule in_step_before[OF lift_range[OF r]], rule in_step_bind[OF step], unfold position option.case,
        rule in_step_before[OF reads_index[OF member]], rule inner)
qed

lemma reads_relabel: "reads (relabel_error prog c tid path v) () p []"
  by (rule reads_const) (auto simp: relabel_error_def split: sum.split option.split)

lemma alias_step:
  assumes agree: "agree cap E D N" and w: "wf_writer w" and live: "live cap v"
    and k: "kind sh = KAlias" and run: "encode_kind c n E scope tid sh v w = (Inr (), w')"
  shows "in_step w w' (decode_kind prog c D scope path depth tid sh) (kind_normal c n N tid sh v)"
proof -
  obtain element where element: "element_type sh = Some element" and inner: "E scope element v w = (Inr (), w')"
    using run k by (auto simp: encode_kind_unfold)
  show ?thesis
    unfolding kind_unfold k element option.sel
    by (rule in_step_before[OF lift_element[OF element]], rule in_step_after[OF agreeD[OF agree w live inner]],
        rule reads_bind_const[OF reads_relabel reads_ret])
qed

lemma ucast_u32: "ucast (ucast (x :: u32) :: u64) = x"
  by (rule ucast_up_ucast_id) (simp add: is_up)

lemma kind_step:
  assumes agree: "agree (max_capacity prog) E D N" and w: "wf_writer w" and live: "live (max_capacity prog) v"
    and sh: "wf_shape sh" and run: "encode_kind c n E scope tid sh v w = (Inr (), w')"
  shows "in_step w w' (decode_kind prog c D scope path depth tid sh) (kind_normal c n N tid sh v)"
proof (cases "kind sh")
  case KArray
  then show ?thesis by (rule array_step[OF agree w live _ run])
next
  case KByteString
  then obtain d r w1 where d: "v = Bytes d" "value_range sh = Some r" "write_length r (length d) w = (Inr (), w1)"
      "write_bytes d True w1 = (Inr (), w')"
    using run by (cases v) (auto simp: encode_kind_unfold)
  then have "length d < 2 ^ 59"
    using live by simp
  then show ?thesis
    unfolding kind_unfold KByteString d(1)
    by (intro in_step_before[OF lift_range[OF d(2)]] binary_step[OF w _ d(3,4)])
next
  case KBitArray
  then show ?thesis by (rule bit_array_step[OF w live _ run])
next
  case KBlob
  then obtain d r w1 where d: "v = Bytes d" "value_range sh = Some r" "write_length r (length d) w = (Inr (), w1)"
      "write_bytes d True w1 = (Inr (), w')"
    using run by (cases v) (auto simp: encode_kind_unfold)
  then have "length d < 2 ^ 59"
    using live by simp
  then show ?thesis
    unfolding kind_unfold KBlob d(1)
    by (intro in_step_before[OF lift_range[OF d(2)]] binary_step[OF w _ d(3,4)])
next
  case KBool
  then obtain b where b: "v = Bool b" "write_bits (of_bool b) 1 w = (Inr (), w')"
    using run by (cases v) (auto simp: encode_kind_unfold)
  show ?thesis
    unfolding kind_unfold KBool b(1)
    using ret_after[OF in_step_bits[OF w b(2)], of "\<lambda>x. Bool (x \<noteq> 0)"] by simp
next
  case KChoice
  then show ?thesis by (rule choice_step[OF agree w live _ run])
next
  case KEnum
  then obtain i r where i: "v = Integer i" "value_range sh = Some r" "write_range r i w = (Inr (), w')"
    using run by (cases v) (auto simp: encode_kind_unfold split: if_splits)
  show ?thesis
    unfolding kind_unfold KEnum i(1)
    by (rule in_step_before[OF lift_range[OF i(2)]], rule ret_after[OF in_step_range[OF w i(3)]])
next
  case KFourCc
  then obtain x where x: "v = FourCc x" "write_bits (ucast x) 32 w = (Inr (), w')"
    using run by (cases v) (auto simp: encode_kind_unfold)
  show ?thesis
    unfolding kind_unfold KFourCc x(1)
    using ret_after[OF in_step_bits[OF w x(2)], of "\<lambda>x. FourCc (ucast x)"] by (simp only: ucast_u32)
next
  case KInteger
  then obtain i r where i: "v = Integer i" "value_range sh = Some r" "write_range r i w = (Inr (), w')"
    using run by (cases v) (auto simp: encode_kind_unfold)
  show ?thesis
    unfolding kind_unfold KInteger i(1)
    by (rule in_step_before[OF lift_range[OF i(2)]], rule ret_after[OF in_step_range[OF w i(3)]])
next
  case KVoid
  then have "v = Void" "w' = w"
    using run by (auto simp: encode_kind_unfold split: if_splits)
  then show ?thesis
    unfolding kind_unfold KVoid using w by (auto intro: in_step_refl reads_ret simp del: ret_apply)
next
  case KOptional
  then show ?thesis by (rule optional_step[OF agree w live _ run])
next
  case KFloat32
  then obtain x where x: "v = Float32 x" "write_bits (ucast x) 32 w = (Inr (), w')"
    using run by (cases v) (auto simp: encode_kind_unfold)
  show ?thesis
    unfolding kind_unfold KFloat32 x(1)
    using ret_after[OF in_step_bits[OF w x(2)], of "\<lambda>x. Float32 (ucast x)"] by (simp only: ucast_u32)
next
  case KFloat64
  then obtain x where x: "v = Float64 x" "write_bits x 64 w = (Inr (), w')"
    using run by (cases v) (auto simp: encode_kind_unfold)
  show ?thesis
    unfolding kind_unfold KFloat64 x(1) by (rule ret_after[OF in_step_bits[OF w x(2)]])
next
  case KStruct
  then have "encode_struct c n E scope sh v w = (Inr (), w')"
    using run by (simp add: encode_kind_def)
  then show ?thesis
    unfolding kind_unfold KStruct using sh
    by (intro struct_step[OF agree w live]) (simp_all add: wf_shape_def)
next
  case KString
  then obtain d r w1 where d: "v = Str d" "value_range sh = Some r"
      "write_length (byte_counted r) (length d) w = (Inr (), w1)" "write_bytes d True w1 = (Inr (), w')"
    using run by (cases v) (auto simp: encode_kind_unfold)
  then have ok: "utf8_valid d" "length d < 2 ^ 59"
    using live by auto
  show ?thesis
    unfolding kind_unfold KString d(1)
    using binary_step[OF w ok(2) d(3,4), of "\<lambda>d. Str (from_utf8_lossy d)"]
    by (intro in_step_before[OF lift_range[OF d(2)]]) (simp only: from_utf8_lossy_valid[OF ok(1)])
next
  case KAlias
  then show ?thesis by (rule alias_step[OF agree w live _ run])
qed

lemma lift_shape: "schema_shape s tid = Inr sh \<Longrightarrow> reads (liftR (schema_shape s tid)) sh p []"
  by (rule reads_lift)

lemma context_keeps_incomplete: "\<exists>i'. append_decode_context f (IncompleteFrame i) = IncompleteFrame i'"
  by simp

lemma inner_step:
  assumes wf: "wf_codec c" and law: "lawful_program prog c nf"
    and agree: "agree (max_capacity prog) (encode_scoped prog c n) (decode_scoped prog c n) (normal_form c nf n)"
    and w: "wf_writer w" and live: "live (max_capacity prog) v"
    and run: "encode_scoped prog c (Suc n) scope tid v w = (Inr (), w')"
  shows "in_step w w' (decode_inner prog c n (decode_scoped prog c n) scope path depth tid) (normal_form c nf (Suc n) tid v)"
proof -
  obtain sh where sh: "schema_shape (cschema c) tid = Inr sh"
    using run by (cases "schema_shape (cschema c) tid") (auto simp: encode_body_def)
  have wfsh: "wf_shape sh" and names: "length (member_names sh) = length (index_values sh)"
    using wf sh by (auto simp: wf_codec_def wf_schema_def wf_shape_def)
  have fits: "wire_layouts c tid = Some l \<Longrightarrow> layout_fits l sh" for l
    using wf sh by (fastforce simp: wf_codec_def)
  have reflected: "in_step w w' (bindM (liftR (reflected_scope c tid sh scope))
      (\<lambda>scope. decode_kind prog c (decode_scoped prog c n) scope path depth tid sh))
      (kind_normal c n (normal_form c nf n) tid sh v)"
    if enc: "bindM (liftR (reflected_scope c tid sh scope)) (\<lambda>scope.
      encode_kind c n (encode_scoped prog c n) scope tid sh v) w = (Inr (), w')"
  proof -
    obtain s where s: "reflected_scope c tid sh scope = Inr s"
        and k: "encode_kind c n (encode_scoped prog c n) s tid sh v w = (Inr (), w')"
      using enc by (auto simp: bindM_Inr_iff)
    show ?thesis
      by (rule in_step_before[OF reads_lift[OF s]], rule kind_step[OF agree w live wfsh k])
  qed
  show ?thesis
  proof (cases "wire_layouts c tid")
    case None
    then show ?thesis
      using run reflected unfolding decode_inner_def
      by (intro in_step_before[OF lift_shape[OF sh]]) (simp add: encode_body_def sh)
  next
    case (Some l)
    show ?thesis
    proof (cases l)
      case CandidateReflected
      then show ?thesis
        using run reflected Some unfolding decode_inner_def
        by (intro in_step_before[OF lift_shape[OF sh]]) (simp add: encode_body_def sh)
    next
      case VerifiedReflected
      then show ?thesis
        using run reflected Some unfolding decode_inner_def
        by (intro in_step_before[OF lift_shape[OF sh]]) (simp add: encode_body_def sh)
    next
      case (CandidateStruct layout)
      then show ?thesis
        using run Some fits[OF Some] unfolding decode_inner_def
        by (intro in_step_before[OF lift_shape[OF sh]])
          (simp add: encode_body_def sh layout_fits_def layout_step[OF agree w live _ names])
    next
      case (StructLayout layout)
      then show ?thesis
        using run Some fits[OF Some] unfolding decode_inner_def
        by (intro in_step_before[OF lift_shape[OF sh]])
          (simp add: encode_body_def sh layout_fits_def layout_step[OF agree w live _ names])
    next
      case (CustomLayout layout)
      then have "run_encode prog (wl_encode layout) n c tid v w = (Inr (), w')"
        using run Some by (simp add: encode_body_def sh)
      then have "in_step w w' (run_custom prog c n layout path depth tid) (nf tid v)"
        using law w live Some CustomLayout unfolding lawful_program_def by blast
      then show ?thesis
        using Some CustomLayout unfolding decode_inner_def
        by (intro in_step_before[OF lift_shape[OF sh]]) (simp add: sh)
    qed
  qed
qed

lemma codec_agree:
  assumes wf: "wf_codec c" and law: "lawful_program prog c nf"
  shows "agree (max_capacity prog) (encode_scoped prog c n) (decode_scoped prog c n) (normal_form c nf n)"
proof (induction n)
  case (Suc n)
  show ?case
    unfolding agree_def
  proof (intro allI impI, elim conjE)
    fix scope tid v w w' path depth
    assume w: "wf_writer w" and live: "live (max_capacity prog) v"
      and run: "encode_scoped prog c (Suc n) scope tid v w = (Inr (), w')"
    obtain sh where sh: "schema_shape (cschema c) tid = Inr sh"
      using run by (cases "schema_shape (cschema c) tid") (auto simp: encode_body_def)
    have push: "reads (bindM position_now (\<lambda>stop. bindM (if kind sh \<noteq> KAlias
          then push_field \<lparr>df_path = path, df_kind = type_kind_name (kind sh), df_value = decoded_summary prog x,
                 df_start_bit = start, df_end_bit = stop, df_depth = depth\<rparr>
          else ret ()) (\<lambda>_. ret x))) x p []" for x start p
      by (rule reads_gets, rule reads_bind_const[OF _ reads_ret])
        (simp add: reads_push reads_ret del: ret_apply)
    have "in_step w w' (decode_body prog c n (decode_scoped prog c n) scope path depth tid)
        (normal_form c nf (Suc n) tid v)"
      unfolding decode_body_def
      by (rule in_step_gets_step, rule in_step_before[OF lift_shape[OF sh]],
          rule in_step_after[OF in_step_map_err[OF inner_step[OF wf law Suc.IH w live run]] push])
        (rule context_keeps_incomplete)
    then show "in_step w w' (decode_scoped prog c (Suc n) scope path depth tid) (normal_form c nf (Suc n) tid v)"
      by simp
  qed
qed (simp add: agree_def)

section \<open>Through a buffer\<close>

lemma reader_new_start:
  assumes "length bs < 2 ^ 63"
  shows "reader_new (pack bs) (Some (length bs)) = Inr \<lparr>rdata = pack bs, rbit_count = length bs, rposition = 0\<rparr>"
    and "wf_reader \<lparr>rdata = pack bs, rbit_count = length bs, rposition = 0\<rparr>"
    and "rbits \<lparr>rdata = pack bs, rbit_count = length bs, rposition = 0\<rparr> = bs"
  using reader_new_pack[OF assms] by (auto simp: reader_new_def Let_def split: if_splits)

text \<open>A message in a longer stream: the value is read at its place, the rest stays unread.\<close>

lemma codec_stream_roundtrip:
  assumes "wf_codec c" and "lawful_program prog c nf" and "live (max_capacity prog) v"
    and w: "wf_writer w" and run: "encode_into prog n c tid v w = (Inr (), w')"
    and size: "wposition w' + length rest < 2 ^ 63"
  shows "decode_value prog n c tid (pack (wbits w' @ rest)) (Some (wposition w' + length rest)) (wposition w) =
    Inr \<lparr>dv_value = normal_form c nf n tid v, dv_bit_count = wposition w' - wposition w\<rparr>"
proof -
  let ?bs = "wbits w' @ rest"
  have step: "in_step w w' (decode_scoped prog c n False (ascii ''value'') 0 tid) (normal_form c nf n tid v)"
    using agreeD[OF codec_agree[OF assms(1,2)] w assms(3)] run by (simp add: encode_into_def)
  obtain bs where bs: "wbits w' = wbits w @ bs"
      "reads (decode_scoped prog c n False (ascii ''value'') 0 tid) (normal_form c nf n tid v) (wposition w) bs"
    using step by (auto simp: in_step_def)
  have pos: "wposition w' = wposition w + length bs"
    using bs(1) by (metis length_append length_wbits)
  let ?r = "\<lparr>rdata = pack ?bs, rbit_count = length ?bs, rposition = 0\<rparr>"
  have new: "reader_new (pack ?bs) (Some (length ?bs)) = Inr ?r" "wf_reader ?r" "rbits ?r = ?bs"
    using reader_new_start[of ?bs] size by simp_all
  let ?s = "?r\<lparr>rposition := wposition w\<rparr>"
  have s: "wf_reader ?s" "rbits ?s = bs @ rest"
    using wf_reader_rest[OF new(2), of "wbits w" "bs @ rest"] new(3) bs(1) by simp_all
  have set: "set_position (wposition w) ?r = (Inr (), ?s)"
    using pos by (simp add: set_position_def)
  have p: "rposition ?s mod 8 = wposition w mod 8" by simp
  obtain tr' where "decode_scoped prog c n False (ascii ''value'') 0 tid (?s, None) =
      (Inr (normal_form c nf n tid v), (advance (length bs) ?s, tr'))"
    using reads_run[OF bs(2) s(1) p s(2), of None] by blast
  then have "decode_from prog n c tid ?s = (Inr (normal_form c nf n tid v), advance (length bs) ?s)"
    by (simp add: decode_from_def untraced_def)
  then show ?thesis
    using new(1) set pos by (simp add: decode_value_def)
qed

lemma codec_buffer_roundtrip:
  assumes "wf_codec c" and "lawful_program prog c nf" and "live (max_capacity prog) v"
    and enc: "encode_value prog n c tid v = Inr e" and size: "ev_bit_count e < 2 ^ 63"
  shows "decode_value prog n c tid (ev_data e) (Some (ev_bit_count e)) 0 =
    Inr \<lparr>dv_value = normal_form c nf n tid v, dv_bit_count = ev_bit_count e\<rparr>"
proof -
  obtain w where run: "encode_into prog n c tid v writer_new = (Inr (), w)"
      and e: "e = \<lparr>ev_data = into_bytes w, ev_bit_count = wposition w\<rparr>"
    using enc by (auto simp: encode_value_def split: prod.splits sum.splits)
  have "in_step writer_new w (decode_scoped prog c n False (ascii ''value'') 0 tid) (normal_form c nf n tid v)"
    using agreeD[OF codec_agree[OF assms(1,2)] wf_writer_new(1) assms(3)] run by (simp add: encode_into_def)
  then have "wf_writer w"
    by (rule in_step_wf)
  then show ?thesis
    using codec_stream_roundtrip[OF assms(1-3) wf_writer_new(1) run, of "[]"] size
    by (simp add: e into_bytes_pack)
qed

text \<open>Any proper prefix of an encoding makes the decoder ask for more data.\<close>

lemma codec_truncated:
  assumes "wf_codec c" and "lawful_program prog c nf" and "live (max_capacity prog) v"
    and enc: "encode_value prog n c tid v = Inr e" and size: "ev_bit_count e < 2 ^ 63" and k: "k < ev_bit_count e"
  shows "\<exists>i. decode_value prog n c tid (ev_data e) (Some k) 0 = Inl (IncompleteFrame i)"
proof -
  obtain w where run: "encode_into prog n c tid v writer_new = (Inr (), w)"
      and e: "e = \<lparr>ev_data = into_bytes w, ev_bit_count = wposition w\<rparr>"
    using enc by (auto simp: encode_value_def split: prod.splits sum.splits)
  have step: "in_step writer_new w (decode_scoped prog c n False (ascii ''value'') 0 tid) (normal_form c nf n tid v)"
    using agreeD[OF codec_agree[OF assms(1,2)] wf_writer_new(1) assms(3)] run by (simp add: encode_into_def)
  then have wf: "wf_writer w" and
    reads: "reads (decode_scoped prog c n False (ascii ''value'') 0 tid) (normal_form c nf n tid v) 0 (wbits w)"
    by (auto simp: in_step_def)
  let ?r = "\<lparr>rdata = pack (wbits w), rbit_count = k, rposition = 0\<rparr>"
  have room: "k < length (wbits w)" "length (wbits w) \<le> 8 * length (pack (wbits w))"
    using k by (simp_all add: e div_ceil_8)
  have new: "reader_new (pack (wbits w)) (Some k) = Inr ?r"
    using room by (simp add: reader_new_def del: length_pack length_wbits)
  have wfr: "wf_reader ?r"
    using room size by (simp add: wf_reader_def e del: length_pack)
  have "rbits ?r = take k (wbits w)"
    using room by (intro nth_equalityI) (auto simp: rbits_def bit_at_pack simp del: length_pack length_wbits)
  then have cut: "wbits w = rbits ?r @ drop k (wbits w)" "drop k (wbits w) \<noteq> []"
    using room by simp_all
  have p: "rposition ?r mod 8 = 0 mod 8" by simp
  obtain i s where "decode_scoped prog c n False (ascii ''value'') 0 tid (?r, None) = (Inl (IncompleteFrame i), s)"
    using reads_cut[OF reads wfr p cut] by blast
  then have "\<exists>s. decode_from prog n c tid ?r = (Inl (IncompleteFrame i), s)"
    by (cases s) (simp add: decode_from_def untraced_def)
  moreover have "set_position 0 ?r = (Inr (), ?r)"
    by (simp add: set_position_def)
  ultimately show ?thesis
    using new by (auto simp: decode_value_def e into_bytes_pack[OF wf])
qed

end
