(* ===== verification/Codec_Safety.thy ===== *)
theory Codec_Safety
  imports Codec_Laws
begin

text \<open>
  What holds of the decoder on any input: on a codec whose length ranges are bounded it does
  not panic, on a schema whose types are ranked it does not run out of stack, it never moves
  back or past its buffer, tracing does not change what is decoded, and an obfuscated type
  without a layout is refused before a bit is read or written.
\<close>

section \<open>Operations in a traced state that do not abort\<close>

text \<open>With \<open>strict\<close> running out of stack counts as aborting, without it only panics do.\<close>

definition bad :: "bool \<Rightarrow> 'a result \<Rightarrow> bool" where
  "bad strict v \<longleftrightarrow> aborts v \<and> (strict \<or> v \<noteq> Inl StackOverflow)"

definition tsafe :: "bool \<Rightarrow> (tstate, 'a) op \<Rightarrow> bool" where
  "tsafe strict m \<longleftrightarrow> (\<forall>r tr. wf_reader r \<longrightarrow>
     reader_step r (fst (snd (m (r, tr)))) \<and> \<not> bad strict (fst (m (r, tr))))"

lemma bad_simps [simp]:
  "\<not> bad strict (Inr x)"
  "bad strict (Inl e :: 'a result) \<longleftrightarrow> aborting e \<and> (strict \<or> e \<noteq> StackOverflow)"
  by (auto simp: bad_def)

lemma tsafeD:
  assumes "tsafe strict m" and "wf_reader r" and "m (r, tr) = (v, (r', tr'))"
  shows "reader_step r r'" and "wf_reader r'" and "\<not> bad strict v"
proof -
  have "reader_step r (fst (snd (m (r, tr)))) \<and> \<not> bad strict (fst (m (r, tr)))"
    using assms(1,2) by (simp add: tsafe_def)
  then show "reader_step r r'" and "wf_reader r'" and "\<not> bad strict v"
    using assms(3) by (simp_all add: reader_step_def)
qed

named_theorems tsafe_intros \<open>rules for traced operations that cannot abort\<close>

lemma tsafe_quiet: "(\<And>r tr. \<exists>v tr'. m (r, tr) = (v, (r, tr')) \<and> \<not> bad strict v) \<Longrightarrow> tsafe strict m"
  unfolding tsafe_def by (metis fst_conv reader_step_refl snd_conv)

lemma tsafe_ret [tsafe_intros]: "tsafe strict (ret x)"
  by (rule tsafe_quiet) simp

lemma tsafe_error [tsafe_intros]: "tsafe strict (codec_error r)"
  by (rule tsafe_quiet) simp

lemma tsafe_lift [tsafe_intros]: "\<not> bad strict v \<Longrightarrow> tsafe strict (liftR v)"
  by (rule tsafe_quiet) simp

lemma tsafe_gets [tsafe_intros]: "tsafe strict (getsM g)"
  by (rule tsafe_quiet) (simp add: exI)

lemma tsafe_push [tsafe_intros]: "tsafe strict (push_field f)"
  by (rule tsafe_quiet) (simp add: push_field_def)

lemma tsafe_extend [tsafe_intros]: "tsafe strict (extend_fields fs)"
  by (rule tsafe_quiet) (simp add: extend_fields_def)

lemma tsafe_relabel [tsafe_intros]: "tsafe strict (relabel_error prog c tid path v)"
  by (rule tsafe_quiet) (auto simp: relabel_error_def split: sum.split option.split)

text \<open>The same for an operation on the bare reader.\<close>

definition rsafe :: "bool \<Rightarrow> (reader, 'a) op \<Rightarrow> bool" where
  "rsafe strict m \<longleftrightarrow> (\<forall>r. wf_reader r \<longrightarrow> reader_step r (snd (m r)) \<and> \<not> bad strict (fst (m r)))"

lemma rsafe_safe: "reader_safe m \<Longrightarrow> rsafe strict m"
  by (simp add: reader_safe_def rsafe_def bad_def)

lemma rsafeD:
  assumes "rsafe strict m" and "wf_reader r" and "m r = (v, r')"
  shows "reader_step r r'" and "wf_reader r'" and "\<not> bad strict v"
  using assms by (auto simp: rsafe_def reader_step_def dest!: spec[of _ r])

lemma tsafe_on_reader:
  assumes "rsafe strict m"
  shows "tsafe strict (on_reader m)"
proof -
  have "reader_step r (fst (snd (on_reader m (r, tr)))) \<and> \<not> bad strict (fst (on_reader m (r, tr)))"
    if "wf_reader r" for r tr
    using assms that by (cases "m r") (auto simp: rsafe_def on_reader_def dest!: spec[of _ r])
  then show ?thesis
    by (simp add: tsafe_def)
qed

lemma tsafe_reader [tsafe_intros]: "reader_safe m \<Longrightarrow> tsafe strict (on_reader m)"
  by (intro tsafe_on_reader rsafe_safe)

lemma rsafe_untraced:
  assumes "tsafe strict m"
  shows "rsafe strict (untraced m)"
  unfolding rsafe_def
proof (intro allI impI)
  fix r assume r: "wf_reader r"
  obtain v r' t where run: "m (r, None) = (v, (r', t))"
    by (metis prod.collapse)
  then show "reader_step r (snd (untraced m r)) \<and> \<not> bad strict (fst (untraced m r))"
    using tsafeD[OF assms r run] by (simp add: untraced_def)
qed

lemma rsafe_bind_post:
  assumes m: "rsafe strict m"
    and f: "\<And>r r' x. wf_reader r \<Longrightarrow> m r = (Inr x, r') \<Longrightarrow> rsafe strict (f x)"
  shows "rsafe strict (bindM m f)"
  unfolding rsafe_def
proof (intro allI impI)
  fix r assume r: "wf_reader r"
  obtain v r' where run: "m r = (v, r')"
    by (cases "m r")
  note step = rsafeD[OF m r run]
  show "reader_step r (snd (bindM m f r)) \<and> \<not> bad strict (fst (bindM m f r))"
  proof (cases v)
    case (Inl e)
    then show ?thesis
      using run step by simp
  next
    case (Inr x)
    obtain u r'' where run': "f x r' = (u, r'')"
      by (cases "f x r'")
    have "rsafe strict (f x)"
      using f[OF r] run Inr by simp
    from rsafeD[OF this step(2) run'] show ?thesis
      using run run' Inr reader_step_trans[OF step(1)] by simp
  qed
qed

lemma rsafe_bind: "rsafe strict m \<Longrightarrow> (\<And>x. rsafe strict (f x)) \<Longrightarrow> rsafe strict (bindM m f)"
  by (rule rsafe_bind_post)

lemma rsafe_lift: "\<not> bad strict v \<Longrightarrow> rsafe strict (liftR v)"
  by (simp add: rsafe_def)

lemma tsafe_bind_post:
  assumes m: "tsafe strict m"
    and f: "\<And>r tr x s. wf_reader r \<Longrightarrow> m (r, tr) = (Inr x, s) \<Longrightarrow> tsafe strict (f x)"
  shows "tsafe strict (bindM m f)"
  unfolding tsafe_def
proof (intro allI impI)
  fix r tr assume r: "wf_reader r"
  obtain v r' tr' where run: "m (r, tr) = (v, (r', tr'))"
    by (metis prod.collapse)
  note step = tsafeD[OF m r run]
  show "reader_step r (fst (snd (bindM m f (r, tr)))) \<and> \<not> bad strict (fst (bindM m f (r, tr)))"
  proof (cases v)
    case (Inl e)
    then show ?thesis
      using run step by simp
  next
    case (Inr x)
    obtain u r'' tr'' where run': "f x (r', tr') = (u, (r'', tr''))"
      by (metis prod.collapse)
    have "tsafe strict (f x)"
      using f[OF r] run Inr by simp
    from tsafeD[OF this step(2) run'] show ?thesis
      using run run' Inr reader_step_trans[OF step(1)] by simp
  qed
qed

lemma tsafe_bind [tsafe_intros]: "tsafe strict m \<Longrightarrow> (\<And>x. tsafe strict (f x)) \<Longrightarrow> tsafe strict (bindM m f)"
  by (rule tsafe_bind_post)

lemma tsafe_bind_lift:
  assumes "\<not> bad strict v" and "\<And>x. v = Inr x \<Longrightarrow> tsafe strict (f x)"
  shows "tsafe strict (bindM (liftR v) f)"
  using assms by (intro tsafe_bind_post tsafe_lift) auto

lemma tsafe_context [tsafe_intros]:
  assumes "tsafe strict m"
  shows "tsafe strict (map_errM (\<lambda>s. append_decode_context (g s)) m)"
  unfolding tsafe_def
proof (intro allI impI)
  fix r tr assume r: "wf_reader r"
  obtain v r' tr' where run: "m (r, tr) = (v, (r', tr'))"
    by (metis prod.collapse)
  note step = tsafeD[OF assms r run]
  have "aborting (append_decode_context h e) = aborting e" "append_decode_context h e = StackOverflow \<longleftrightarrow> e = StackOverflow" for h e
    by (cases e; simp)+
  then show "reader_step r (fst (snd (map_errM (\<lambda>s. append_decode_context (g s)) m (r, tr)))) \<and>
      \<not> bad strict (fst (map_errM (\<lambda>s. append_decode_context (g s)) m (r, tr)))"
    using run step by (cases v) (auto simp: map_errM_def)
qed

lemma tsafe_forM [tsafe_intros]:
  "(\<And>x. x \<in> set xs \<Longrightarrow> tsafe strict (f x)) \<Longrightarrow> tsafe strict (forM xs f)"
proof (induction xs)
  case Nil
  then show ?case
    using tsafe_ret[of strict "[]"] by (simp del: ret_apply)
next
  case (Cons x xs)
  have "forM (x # xs) f = bindM (f x) (\<lambda>y. bindM (forM xs f) (\<lambda>ys. ret (y # ys)))" by simp
  moreover have "tsafe strict (bindM (f x) (\<lambda>y. bindM (forM xs f) (\<lambda>ys. ret (y # ys))))"
    using Cons by (intro tsafe_bind tsafe_ret) auto
  ultimately show ?case by simp
qed

section \<open>Bounded codecs\<close>

lemma meta_only_not_bad: "meta_only v \<Longrightarrow> \<not> bad strict v"
  by (cases v) (auto simp: meta_only_def)

text \<open>
  The schema's shapes are found without aborting, lengths read off the wire stay below what a
  vector can hold.
\<close>

definition bounded_shape :: "program \<Rightarrow> type_shape \<Rightarrow> bool" where
  "bounded_shape prog sh \<longleftrightarrow> (\<forall>r. value_range sh = Some r \<longrightarrow>
     (kind sh \<in> {KByteString, KBlob} \<longrightarrow> maximum r < 2 ^ 59) \<and>
     (kind sh = KString \<longrightarrow> maximum r * 4 < 2 ^ 59) \<and>
     (kind sh = KArray \<longrightarrow> maximum r \<le> int (max_capacity prog)))"

definition bounded_codec :: "program \<Rightarrow> codec \<Rightarrow> bool" where
  "bounded_codec prog c \<longleftrightarrow> wf_codec c \<and> max_capacity prog < 2 ^ 63 \<and>
     (\<forall>tid. (case schema_shape (cschema c) tid of Inl e \<Rightarrow> \<not> aborting e | Inr sh \<Rightarrow> bounded_shape prog sh))"

text \<open>
  Custom decoders do not abort on a stack of up to \<open>N\<close> calls, nor run out of it (\<open>strict\<close>) where it is at least
  as deep as the rank of their type.
\<close>

definition custom_safe :: "bool \<Rightarrow> (u32 \<Rightarrow> nat) \<Rightarrow> program \<Rightarrow> codec \<Rightarrow> nat \<Rightarrow> bool" where
  "custom_safe strict rank prog c N \<longleftrightarrow> (\<forall>n layout path depth tid. n < N \<and>
     wire_layouts c tid = Some (CustomLayout layout) \<and> (strict \<longrightarrow> rank tid \<le> n) \<longrightarrow>
     rsafe strict (run_decode prog (wl_decode layout) n c tid) \<and>
     (\<forall>code. wl_decode_traced layout = Some code \<longrightarrow> rsafe strict (run_decode_traced prog code n c tid path depth)))"

lemma safe_read_range [safe_intros]: "reader_safe (read_range r)"
  unfolding read_range_def read_range_with_maximum_def
  by (intro safe_bind) (auto intro!: safe_intros split: option.split)

lemma read_range_bound: "read_range r s = (Inr v, s') \<Longrightarrow> v \<le> maximum r"
  by (auto simp: read_range_def read_range_with_maximum_def bindM_Inr_iff split: if_splits)

lemma safe_read_length [safe_intros]: "reader_safe (read_length r)"
  unfolding read_length_def by (intro safe_bind safe_read_range) (auto intro: safe_intros)

lemma read_length_bound: "read_length r s = (Inr n, s') \<Longrightarrow> int n \<le> maximum r"
  by (auto simp: read_length_def bindM_Inr_iff dest!: read_range_bound split: if_splits)

lemma on_reader_Inr: "on_reader m (r, tr) = (Inr x, s) \<Longrightarrow> \<exists>r'. m r = (Inr x, r')"
  by (auto simp: on_reader_def split: prod.splits)

lemma tsafe_length_then:
  assumes "\<And>n. int n \<le> maximum r \<Longrightarrow> tsafe strict (f n)"
  shows "tsafe strict (bindM (on_reader (read_length r)) f)"
  by (rule tsafe_bind_post[OF tsafe_reader[OF safe_read_length]])
    (auto dest!: on_reader_Inr read_length_bound intro: assms)

section \<open>The decoder does not abort\<close>

lemma tsafe_index: "i < length xs \<Longrightarrow> tsafe strict (index_op xs i)"
  by (rule tsafe_lift) (simp add: get_at_def)

lemma tsafe_member_label:
  "i < length (member_names sh) \<Longrightarrow> i < length (index_values sh) \<Longrightarrow> tsafe strict (member_label sh i)"
  unfolding member_label_def by (auto intro!: tsafe_bind tsafe_index tsafe_ret split: option.split simp del: ret_apply)

lemma tsafe_struct_member:
  assumes "\<And>scope path depth tid. tid \<in> set (member_types sh) \<Longrightarrow> tsafe strict (D scope path depth tid)"
    and "i < length (member_types sh)" and "wf_shape sh" and "kind sh = KStruct"
  shows "tsafe strict (decode_struct_member D scope path depth tid sh i)"
proof -
  have i: "i < length (member_names sh)" "i < length (index_values sh)"
    using assms by (auto simp: wf_shape_def)
  have rest: "tsafe strict (bindM (index_op (member_types sh) i) (\<lambda>member.
        bindM (map_errM (\<lambda>_. append_decode_context (\<lambda>m. InField m i (unat tid)))
          (D scope p d member)) (\<lambda>v. ret (Field index name v))))" for p d index name
    using assms(2) by (intro tsafe_bind_lift tsafe_bind tsafe_context assms(1) tsafe_ret) (auto simp: get_at_def)
  show ?thesis
    unfolding decode_struct_member_def
    by (intro tsafe_bind[OF tsafe_member_label[OF i]] tsafe_bind[OF tsafe_index[OF i(1)]]
        tsafe_bind[OF tsafe_index[OF i(2)]] rest)
qed

lemma tsafe_layout_entry:
  assumes "\<And>scope path depth tid. tid \<in> set (member_types sh) \<Longrightarrow> tsafe strict (D scope path depth tid)"
    and "logical_field entry < length (member_types sh)" and "wf_shape sh" and "kind sh = KStruct"
    and "length logical = length (member_types sh)"
  shows "tsafe strict (decode_layout_entry D path depth sh entry logical)"
proof -
  let ?i = "logical_field entry"
  have i: "?i < length (member_names sh)" "?i < length (index_values sh)" "?i < length logical"
    using assms by (auto simp: wf_shape_def)
  have filler: "tsafe strict (if filler_before entry \<noteq> 0
      then bindM position_now (\<lambda>start. bindM (on_reader (read_bits (unat (filler_before entry)))) (\<lambda>_.
           bindM position_now (\<lambda>stop. push_field (g start stop)))) else ret ())" for g
    by (simp add: tsafe_bind tsafe_gets tsafe_reader safe_read_bits tsafe_push tsafe_ret del: ret_apply)
  have rest: "tsafe strict (bindM (index_op (member_types sh) ?i) (\<lambda>member.
      bindM (D False p d member) (\<lambda>v. bindM (index_op (index_values sh) ?i) (\<lambda>index.
      bindM (index_op (member_names sh) ?i) (\<lambda>name.
      if ?i < length logical then ret (logical[?i := Some (Field index name v)])
      else fail (Panic IndexOutOfBounds))))))" for p d
    using assms(2) i unfolding if_P[OF i(3)]
    by (intro tsafe_bind_lift tsafe_bind tsafe_index assms(1) tsafe_ret) (auto simp: get_at_def)
  show ?thesis
    unfolding decode_layout_entry_def Let_def
    by (intro tsafe_bind[OF tsafe_member_label[OF i(1,2)]] tsafe_bind[OF filler] rest)
qed

lemma layout_entry_length:
  "decode_layout_entry D path depth sh entry logical s = (Inr logical', s') \<Longrightarrow> length logical' = length logical"
  by (auto simp: decode_layout_entry_def Let_def bindM_Inr_iff split: if_splits)

lemma tsafe_layout_loop:
  assumes "\<And>scope path depth tid. tid \<in> set (member_types sh) \<Longrightarrow> tsafe strict (D scope path depth tid)"
    and "wf_shape sh" and "kind sh = KStruct"
  shows "logical_field ` set entries \<subseteq> {..<length (member_types sh)} \<Longrightarrow> length logical = length (member_types sh) \<Longrightarrow>
    tsafe strict (loopM entries (decode_layout_entry D path depth sh) logical)"
proof (induction entries arbitrary: logical)
  case Nil
  then show ?case
    using tsafe_ret[of strict logical] by (simp del: ret_apply)
next
  case (Cons entry entries)
  have "tsafe strict (bindM (decode_layout_entry D path depth sh entry logical)
      (loopM entries (decode_layout_entry D path depth sh)))"
    using Cons.prems
    by (intro tsafe_bind_post[OF tsafe_layout_entry[OF assms(1) _ assms(2,3)]] Cons.IH)
      (auto dest: layout_entry_length)
  then show ?case by simp
qed

lemma tsafe_struct_layout:
  assumes "\<And>scope path depth tid. tid \<in> set (member_types sh) \<Longrightarrow> tsafe strict (D scope path depth tid)"
    and "wf_shape sh" and "kind sh = KStruct" and "layout_covers (sl_fields layout) (length (member_types sh))"
  shows "tsafe strict (decode_struct_layout D path depth tid sh layout)"
  unfolding decode_struct_layout_def
proof (intro tsafe_bind)
  show "tsafe strict (loopM (sl_fields layout) (decode_layout_entry D path depth sh) (replicate (length (member_types sh)) None))"
    using assms(4) by (intro tsafe_layout_loop[OF assms(1-3)]) (auto simp: layout_covers_def)
  show "tsafe strict (if None \<in> set x then codec_error LayoutOmittedField else ret (Struct tid (map the x)))" for x
    by (simp add: tsafe_error tsafe_ret del: ret_apply fail_apply)
qed

definition children :: "type_shape \<Rightarrow> u32 set" where
  "children sh = set_option (element_type sh) \<union> set (member_types sh)"

lemma required_element_not_bad [simp]: "\<not> bad strict (required_element sh)"
  by (cases "element_type sh") (simp_all add: required_element_def)

lemma required_range_not_bad [simp]: "\<not> bad strict (required_range sh)"
  by (cases "value_range sh") (simp_all add: required_range_def)

lemma tsafe_element:
  "(\<And>t. element_type sh = Some t \<Longrightarrow> tsafe strict (f t)) \<Longrightarrow> tsafe strict (bindM (liftR (required_element sh)) f)"
  by (rule tsafe_bind_lift[OF required_element_not_bad]) (simp add: required_element_def)

lemma tsafe_range:
  "(\<And>r. value_range sh = Some r \<Longrightarrow> tsafe strict (f r)) \<Longrightarrow> tsafe strict (bindM (liftR (required_range sh)) f)"
  by (rule tsafe_bind_lift[OF required_range_not_bad]) (simp add: required_range_def)

lemma tsafe_binary:
  "maximum r < 2 ^ 59 \<Longrightarrow> tsafe strict (bindM (on_reader (read_length r)) (\<lambda>n.
     bindM (on_reader (read_bytes n True)) (\<lambda>d. ret (f d))))"
  by (intro tsafe_length_then tsafe_bind tsafe_reader safe_read_bytes tsafe_ret) simp

lemma tsafe_kind:
  assumes D: "\<And>scope path depth tid. tid \<in> children sh \<Longrightarrow> tsafe strict (D scope path depth tid)"
    and wf: "wf_shape sh" and bounded: "bounded_shape prog sh"
  shows "tsafe strict (decode_kind prog c D scope path depth tid sh)"
proof -
  have el: "element_type sh = Some t \<Longrightarrow> tsafe strict (D scope path depth t)" for t scope path depth
    by (rule D) (simp add: children_def)
  have mem: "t \<in> set (member_types sh) \<Longrightarrow> tsafe strict (D scope path depth t)" for t scope path depth
    by (rule D) (simp add: children_def)
  note unfold = decode_kind_def type_kind.case
  show ?thesis
  proof (cases "kind sh")
    case KArray
    have "tsafe strict (if n > max_capacity prog then fail (Panic ExpectFailed)
          else bindM (forM [0..<n] (\<lambda>i. map_errM (\<lambda>_. append_decode_context (\<lambda>m. InElement m i))
              (D scope (path @ ascii ''['' @ decimal_nat i @ ascii '']'') (depth + 1) t)))
            (\<lambda>vs. ret (Array vs)))" if "element_type sh = Some t" "value_range sh = Some r" "int n \<le> maximum r" for t n r
    proof -
      have "\<not> n > max_capacity prog"
        using bounded that KArray by (auto simp: bounded_shape_def)
      then show ?thesis
        by (simp add: tsafe_bind tsafe_forM tsafe_context[OF el[OF that(1)]] tsafe_ret del: ret_apply)
    qed
    then show ?thesis
      unfolding unfold KArray by (intro tsafe_range tsafe_length_then tsafe_element)
  next
    case KByteString
    then show ?thesis
      unfolding unfold KByteString using bounded
      by (intro tsafe_range tsafe_binary) (simp add: bounded_shape_def KByteString)
  next
    case KBlob
    then show ?thesis
      unfolding unfold KBlob using bounded
      by (intro tsafe_range tsafe_binary) (simp add: bounded_shape_def KBlob)
  next
    case KString
    then show ?thesis
      unfolding unfold KString using bounded
      by (intro tsafe_range tsafe_binary) (simp add: bounded_shape_def byte_counted_def KString)
  next
    case KBitArray
    then show ?thesis
      unfolding unfold KBitArray by (intro tsafe_range tsafe_bind tsafe_reader safe_intros tsafe_ret)
  next
    case KBool
    then show ?thesis
      unfolding unfold KBool by (intro tsafe_bind tsafe_reader safe_intros tsafe_ret)
  next
    case KChoice
    have "tsafe strict (case position_of (\<lambda>candidate. candidate = index) (index_values sh) of
            None \<Rightarrow> codec_error (ChoiceUndeclared index)
          | Some position \<Rightarrow> bindM (index_op (member_types sh) position) (\<lambda>member.
              bindM (D scope (path @ ascii ''.variant['' @ decimal index @ ascii '']'') (depth + 1) member)
                (\<lambda>v. ret (Choice index v))))" for index
    proof (cases "position_of (\<lambda>candidate. candidate = index) (index_values sh)")
      case None
      show ?thesis
        unfolding None option.case by (rule tsafe_error)
    next
      case (Some i)
      have i: "i < length (member_types sh)"
        using position_of_less[OF Some] wf KChoice by (simp add: wf_shape_def)
      show ?thesis
        unfolding Some option.case
        using i by (intro tsafe_bind_lift tsafe_bind mem tsafe_ret) (auto simp: get_at_def)
    qed
    then show ?thesis
      unfolding unfold KChoice by (intro tsafe_range tsafe_bind[OF tsafe_reader[OF safe_read_range]])
  next
    case KEnum
    then show ?thesis
      unfolding unfold KEnum by (intro tsafe_range tsafe_bind tsafe_reader safe_read_range tsafe_ret)
  next
    case KFourCc
    then show ?thesis
      unfolding unfold KFourCc by (intro tsafe_bind tsafe_reader safe_intros tsafe_ret)
  next
    case KInteger
    then show ?thesis
      unfolding unfold KInteger by (intro tsafe_range tsafe_bind tsafe_reader safe_read_range tsafe_ret)
  next
    case KVoid
    show ?thesis
      unfolding unfold KVoid by (rule tsafe_ret)
  next
    case KOptional
    have "tsafe strict (if present = 0 then ret (Optional None)
          else bindM (liftR (required_element sh)) (\<lambda>element.
            bindM (D scope (path @ ascii ''.value'') (depth + 1) element) (\<lambda>v. ret (Optional (Some v)))))" for present :: u64
      by (simp add: tsafe_ret tsafe_element tsafe_bind el del: ret_apply)
    then show ?thesis
      unfolding unfold KOptional by (intro tsafe_bind[OF tsafe_reader[OF safe_read_bits]])
  next
    case KFloat32
    then show ?thesis
      unfolding unfold KFloat32 by (intro tsafe_bind tsafe_reader safe_intros tsafe_ret)
  next
    case KFloat64
    then show ?thesis
      unfolding unfold KFloat64 by (intro tsafe_bind tsafe_reader safe_intros tsafe_ret)
  next
    case KStruct
    have "tsafe strict (forM [0..<length (member_types sh)] (decode_struct_member D scope path depth tid sh))"
      by (rule tsafe_forM, rule tsafe_struct_member[OF mem _ wf KStruct]) auto
    then show ?thesis
      unfolding unfold KStruct by (intro tsafe_bind tsafe_ret)
  next
    case KAlias
    then show ?thesis
      unfolding unfold KAlias by (intro tsafe_element tsafe_bind el tsafe_relabel tsafe_ret)
  qed
qed

lemma tsafe_custom:
  assumes "custom_safe strict rank prog c N" and "n < N" and "strict \<Longrightarrow> rank tid \<le> n"
    and "wire_layouts c tid = Some (CustomLayout layout)"
  shows "tsafe strict (run_custom prog c n layout path depth tid)"
proof -
  have plain: "tsafe strict (on_reader (run_decode prog (wl_decode layout) n c tid))"
    using assms by (intro tsafe_on_reader) (simp add: custom_safe_def)
  have traced: "tsafe strict (bindM (on_reader (run_decode_traced prog code n c tid path depth)) (\<lambda>(v, fs).
         bindM (extend_fields fs) (\<lambda>_. ret v)))" if "wl_decode_traced layout = Some code" for code
    using assms that by (intro tsafe_bind tsafe_on_reader)
      (auto simp: custom_safe_def split: prod.split intro!: tsafe_bind tsafe_extend tsafe_ret simp del: ret_apply)
  show ?thesis
    unfolding run_custom_def
    by (rule tsafe_bind[OF tsafe_gets]) (auto intro: plain traced split: option.split bool.split)
qed

text \<open>
  A rank on the types that decreases along the schema; without one (\<open>strict\<close> false) the
  decoder may run out of stack but still does not panic.
\<close>

definition ranked :: "codec \<Rightarrow> (u32 \<Rightarrow> nat) \<Rightarrow> bool" where
  "ranked c rank \<longleftrightarrow> (\<forall>tid sh. schema_shape (cschema c) tid = Inr sh \<longrightarrow> (\<forall>t \<in> children sh. rank t < rank tid))"

lemma reflected_scope_not_bad:
  assumes "\<And>layout. wire_layouts c tid \<noteq> Some (StructLayout layout)"
    and "\<And>layout. wire_layouts c tid \<noteq> Some (CandidateStruct layout)"
    and "\<And>layout. wire_layouts c tid \<noteq> Some (CustomLayout layout)"
  shows "\<not> bad strict (reflected_scope c tid sh scope)"
  using assms by (auto simp: reflected_scope_def split: option.split registered_wire_layout.split)

lemma tsafe_decode:
  assumes bounded: "bounded_codec prog c" and custom: "custom_safe strict rank prog c N" and "n \<le> N"
    and strict: "strict \<Longrightarrow> ranked c rank \<and> rank tid < n"
  shows "tsafe strict (decode_scoped prog c n scope path depth tid)"
  using \<open>n \<le> N\<close> strict
proof (induction n arbitrary: scope path depth tid)
  case 0
  then have "\<not> strict" by auto
  have "tsafe False (fail StackOverflow :: (tstate, bsn_value) op)"
    by (rule tsafe_quiet) simp
  then show ?case
    using \<open>\<not> strict\<close> by (simp del: fail_apply)
next
  case (Suc n)
  have shape_ok: "\<not> bad strict (schema_shape (cschema c) tid)"
    using bounded by (cases "schema_shape (cschema c) tid") (auto simp: bounded_codec_def dest!: spec[of _ tid])
  have inner: "tsafe strict (decode_inner prog c n (decode_scoped prog c n) scope path depth tid)"
    if sh: "schema_shape (cschema c) tid = Inr sh" for sh
  proof -
    have wf: "wf_shape sh" and b: "bounded_shape prog sh"
      and fits: "\<And>l. wire_layouts c tid = Some l \<Longrightarrow> layout_fits l sh"
      using bounded sh by (fastforce simp: bounded_codec_def wf_codec_def wf_schema_def split: sum.splits)+
    have D: "tsafe strict (decode_scoped prog c n scope path depth t)" if "t \<in> children sh" for scope path depth t
      using Suc.IH[of t] Suc.prems that sh by (fastforce simp: ranked_def)
    have mem: "tsafe strict (decode_scoped prog c n scope path depth t)" if "t \<in> set (member_types sh)" for scope path depth t
      by (rule D) (use that in \<open>simp add: children_def\<close>)
    have reflected: "tsafe strict (bindM (liftR (reflected_scope c tid sh scope))
        (\<lambda>scope. decode_kind prog c (decode_scoped prog c n) scope path depth tid sh))"
      if "\<not> bad strict (reflected_scope c tid sh scope)"
      by (intro tsafe_bind_lift that tsafe_kind D wf b)
    have layout: "tsafe strict (decode_struct_layout (decode_scoped prog c n) path depth tid sh layout)"
      if "kind sh = KStruct" "layout_covers (sl_fields layout) (length (member_types sh))" for layout
      by (rule tsafe_struct_layout[OF mem wf that])
    have dispatch: "tsafe strict (case wire_layouts c tid of
       Some (StructLayout layout) \<Rightarrow> decode_struct_layout (decode_scoped prog c n) path depth tid sh layout
     | Some (CandidateStruct layout) \<Rightarrow> decode_struct_layout (decode_scoped prog c n) path depth tid sh layout
     | Some (CustomLayout layout) \<Rightarrow> run_custom prog c n layout path depth tid
     | _ \<Rightarrow> bindM (liftR (reflected_scope c tid sh scope))
         (\<lambda>scope. decode_kind prog c (decode_scoped prog c n) scope path depth tid sh))"
    proof (cases "wire_layouts c tid")
      case None
      then show ?thesis
        using reflected reflected_scope_not_bad[of c tid strict sh scope] by simp
    next
      case (Some l)
      have "tsafe strict (run_custom prog c n layout path depth tid)" if "l = CustomLayout layout" for layout
        using Suc.prems Some that by (intro tsafe_custom[OF custom]) simp_all
      then show ?thesis
        using Some reflected reflected_scope_not_bad[of c tid strict sh scope] layout fits[OF Some]
        by (cases l) (simp_all add: layout_fits_def)
    qed
    have "sh' = sh" if "schema_shape (cschema c) tid = Inr sh'" for sh'
      using that sh by simp
    then show ?thesis
      unfolding decode_inner_def using dispatch by (intro tsafe_bind_lift[OF shape_ok]) blast
  qed
  show ?case
    unfolding decode_scoped.simps decode_body_def
  proof (rule tsafe_bind[OF tsafe_gets], rule tsafe_bind_lift[OF shape_ok])
    fix start sh assume sh: "schema_shape (cschema c) tid = Inr sh"
    show "tsafe strict (bindM (map_errM (\<lambda>s. append_decode_context (\<lambda>m. InType m (unat tid) start (rposition (fst s))))
              (decode_inner prog c n (decode_scoped prog c n) scope path depth tid)) (\<lambda>v.
       bindM position_now (\<lambda>stop.
       bindM (if kind sh \<noteq> KAlias
              then push_field \<lparr>df_path = path, df_kind = type_kind_name (kind sh), df_value = decoded_summary prog v,
                     df_start_bit = start, df_end_bit = stop, df_depth = depth\<rparr>
              else ret ()) (\<lambda>_. ret v))))"
      by (rule tsafe_bind[OF tsafe_context[OF inner[OF sh]]], rule tsafe_bind[OF tsafe_gets])
        (simp add: tsafe_bind tsafe_push tsafe_ret del: ret_apply)
  qed
qed

lemma decode_value_not_bad:
  assumes bounded: "bounded_codec prog c" and custom: "custom_safe strict rank prog c n"
    and strict: "strict \<Longrightarrow> ranked c rank \<and> rank tid < n"
    and size: "8 * length data < 2 ^ 63"
  shows "\<not> bad strict (decode_value prog n c tid data bit_count start)"
proof (cases "reader_new data bit_count")
  case (Inl e)
  then have "\<not> aborting e"
    by (auto simp: reader_new_def Let_def split: if_splits)
  then show ?thesis
    using Inl by (simp add: decode_value_def)
next
  case (Inr r)
  then have r: "rposition r = 0" "rbit_count r \<le> 8 * length (rdata r)" "rdata r = data" "rbit_count r \<le> 8 * length data"
    by (auto simp: reader_new_def Let_def mult.commute split: if_splits)
  show ?thesis
  proof (cases "start \<le> rbit_count r")
    case False
    then show ?thesis
      using Inr by (simp add: decode_value_def set_position_def)
  next
    case True
    let ?r = "r\<lparr>rposition := start\<rparr>"
    have wf: "wf_reader ?r"
      using r True size by (simp add: wf_reader_def)
    obtain v r' tr' where run: "decode_scoped prog c n False (ascii ''value'') 0 tid (?r, None) = (v, (r', tr'))"
      by (metis prod.collapse)
    have "\<not> bad strict v"
      by (rule tsafeD(3)[OF tsafe_decode[OF bounded custom order_refl strict] wf run])
    then show ?thesis
      using Inr True run
      by (cases v) (simp_all add: decode_value_def set_position_def decode_from_def untraced_def)
  qed
qed

section \<open>Tracing changes nothing\<close>

definition blind :: "(tstate, 'a) op \<Rightarrow> bool" where
  "blind m \<longleftrightarrow> (\<forall>r tr tr'. fst (m (r, tr)) = fst (m (r, tr')) \<and> fst (snd (m (r, tr))) = fst (snd (m (r, tr'))))"

named_theorems blind_intros \<open>rules for operations whose result does not depend on the trace\<close>

lemma blindI:
  "(\<And>r tr tr'. fst (m (r, tr)) = fst (m (r, tr')) \<and> fst (snd (m (r, tr))) = fst (snd (m (r, tr')))) \<Longrightarrow> blind m"
  by (simp add: blind_def)

lemma blindD:
  assumes "blind m" and "m (r, tr) = (v, (r', t))"
  shows "\<exists>t'. m (r, tr') = (v, (r', t'))"
proof -
  have "fst (m (r, tr')) = v" "fst (snd (m (r, tr'))) = r'"
    using assms unfolding blind_def by (metis fst_conv snd_conv)+
  then show ?thesis
    by (metis prod.collapse)
qed

lemma blind_ret [blind_intros]: "blind (ret x)"
  by (rule blindI) simp

lemma blind_fail [blind_intros]: "blind (fail e)"
  by (rule blindI) simp

lemma blind_lift [blind_intros]: "blind (liftR v)"
  by (rule blindI) simp

lemma blind_position [blind_intros]: "blind (getsM (\<lambda>s. g (fst s)))"
  by (rule blindI) simp

lemma blind_push [blind_intros]: "blind (push_field f)"
  by (rule blindI) (simp add: push_field_def)

lemma blind_extend [blind_intros]: "blind (extend_fields fs)"
  by (rule blindI) (simp add: extend_fields_def)

lemma blind_relabel [blind_intros]: "blind (relabel_error prog c tid path v)"
  by (rule blindI) (auto simp: relabel_error_def split: sum.split option.split)

lemma blind_reader [blind_intros]: "blind (on_reader m)"
  by (rule blindI) (simp add: on_reader_def split: prod.split)

lemma blind_bind [blind_intros]:
  assumes m: "blind m" and f: "\<And>x. blind (f x)"
  shows "blind (bindM m f)"
proof (rule blindI)
  fix r tr tr'
  obtain v r' t where run: "m (r, tr) = (v, (r', t))"
    by (metis prod.collapse)
  then obtain t' where run': "m (r, tr') = (v, (r', t'))"
    using blindD[OF m] by blast
  show "fst (bindM m f (r, tr)) = fst (bindM m f (r, tr')) \<and>
      fst (snd (bindM m f (r, tr))) = fst (snd (bindM m f (r, tr')))"
    using f run run' by (cases v) (auto simp: blind_def)
qed

lemma blind_map_err [blind_intros]:
  assumes m: "blind m"
  shows "blind (map_errM (\<lambda>s. g (fst s)) m)"
proof (rule blindI)
  fix r tr tr'
  obtain v r' t where run: "m (r, tr) = (v, (r', t))"
    by (metis prod.collapse)
  then obtain t' where run': "m (r, tr') = (v, (r', t'))"
    using blindD[OF m] by blast
  show "fst (map_errM (\<lambda>s. g (fst s)) m (r, tr)) = fst (map_errM (\<lambda>s. g (fst s)) m (r, tr')) \<and>
      fst (snd (map_errM (\<lambda>s. g (fst s)) m (r, tr))) = fst (snd (map_errM (\<lambda>s. g (fst s)) m (r, tr')))"
    using run run' by (cases v) (simp_all add: map_errM_def)
qed

lemma blind_context [blind_intros]: "blind m \<Longrightarrow> blind (map_errM (\<lambda>_. append_decode_context h) m)"
  by (rule blind_map_err[where g = "\<lambda>_. append_decode_context h"])

lemma blind_forM [blind_intros]: "(\<And>x. x \<in> set xs \<Longrightarrow> blind (f x)) \<Longrightarrow> blind (forM xs f)"
proof (induction xs)
  case Nil
  then show ?case
    using blind_ret[of "[]"] by (simp del: ret_apply)
next
  case (Cons x xs)
  have "blind (bindM (f x) (\<lambda>y. bindM (forM xs f) (\<lambda>ys. ret (y # ys))))"
    using Cons by (intro blind_bind blind_ret) auto
  then show ?case by (simp del: ret_apply)
qed

lemma blind_loopM [blind_intros]: "(\<And>x acc. blind (f x acc)) \<Longrightarrow> blind (loopM xs f acc)"
proof (induction xs arbitrary: acc)
  case Nil
  then show ?case
    using blind_ret[of acc] by (simp del: ret_apply)
next
  case (Cons x xs)
  have "blind (bindM (f x acc) (\<lambda>acc'. loopM xs f acc'))"
    by (intro blind_bind Cons.IH Cons.prems)
  then show ?case by simp
qed

lemma blind_member_label [blind_intros]: "blind (member_label sh i)"
  unfolding member_label_def
  by (intro blind_bind blind_lift) (auto intro: blind_intros split: option.split simp del: ret_apply)

text \<open>Traced custom decoders decode what the untraced ones do.\<close>

definition traces_agree :: "program \<Rightarrow> codec \<Rightarrow> bool" where
  "traces_agree prog c \<longleftrightarrow> (\<forall>tid layout code n path depth.
     wire_layouts c tid = Some (CustomLayout layout) \<and> wl_decode_traced layout = Some code \<longrightarrow>
     bindM (run_decode_traced prog code n c tid path depth) (\<lambda>(v, fs). ret v) = run_decode prog (wl_decode layout) n c tid)"

lemma blind_custom:
  assumes "traces_agree prog c" and "wire_layouts c tid = Some (CustomLayout layout)"
  shows "blind (run_custom prog c n layout path depth tid)"
proof (cases "wl_decode_traced layout")
  case None
  then have "run_custom prog c n layout path depth tid = on_reader (run_decode prog (wl_decode layout) n c tid)"
    by (simp add: run_custom_def fun_eq_iff bindM_def)
  then show ?thesis
    by (simp add: blind_reader)
next
  case (Some code)
  have eq: "bindM (run_decode_traced prog code n c tid path depth) (\<lambda>(v, fs). ret v) = run_decode prog (wl_decode layout) n c tid"
    using assms Some by (auto simp: traces_agree_def)
  have run: "\<exists>t. run_custom prog c n layout path depth tid (r, tr) =
      (fst (run_decode prog (wl_decode layout) n c tid r), (snd (run_decode prog (wl_decode layout) n c tid r), t))" for r tr
  proof (cases tr)
    case None
    then show ?thesis
      using Some by (simp add: run_custom_def on_reader_def bindM_def split: prod.split)
  next
    case (Some fs)
    show ?thesis
    proof (cases "run_decode_traced prog code n c tid path depth r")
      case (Pair v r')
      then show ?thesis
        using \<open>wl_decode_traced layout = Some code\<close> \<open>tr = Some fs\<close>
        by (cases v) (auto simp: run_custom_def on_reader_def extend_fields_def eq[symmetric] bindM_def)
    qed
  qed
  show ?thesis
  proof (rule blindI)
    fix r tr tr'
    show "fst (run_custom prog c n layout path depth tid (r, tr)) = fst (run_custom prog c n layout path depth tid (r, tr')) \<and>
      fst (snd (run_custom prog c n layout path depth tid (r, tr))) = fst (snd (run_custom prog c n layout path depth tid (r, tr')))"
      using run[of r tr] run[of r tr'] by auto
  qed
qed

lemma blind_decode:
  assumes "traces_agree prog c"
  shows "blind (decode_scoped prog c n scope path depth tid)"
proof (induction n arbitrary: scope path depth tid)
  case 0
  then show ?case
    using blind_fail[of StackOverflow] by (simp del: fail_apply)
next
  case (Suc n)
  have kind: "blind (decode_kind prog c (decode_scoped prog c n) scope path depth tid sh)" for scope sh
    unfolding decode_kind_def
    by (cases "kind sh") (auto intro!: blind_intros Suc.IH split: option.split
        simp: decode_struct_member_def simp del: ret_apply fail_apply)
  have layout: "blind (decode_struct_layout (decode_scoped prog c n) path depth tid sh l)" for sh l
    unfolding decode_struct_layout_def decode_layout_entry_def Let_def
    by (auto intro!: blind_intros Suc.IH simp del: ret_apply fail_apply)
  have inner: "blind (decode_inner prog c n (decode_scoped prog c n) scope path depth tid)"
    unfolding decode_inner_def
    by (intro blind_bind blind_lift) (auto intro!: blind_intros kind layout blind_custom[OF assms]
        split: option.split registered_wire_layout.split)
  show ?case
    unfolding decode_scoped.simps decode_body_def
    by (intro blind_bind blind_position blind_lift blind_map_err[where g = "\<lambda>r. append_decode_context (h r)" for h] inner)
      (auto intro: blind_intros simp del: ret_apply)
qed

lemma decode_traced_same:
  assumes "traces_agree prog c"
  shows "map_sum (\<lambda>e. e) (\<lambda>t. (dv_value t, dv_bit_count t)) (fst (decode_traced_from prog n c tid r)) =
      map_sum (\<lambda>e. e) (\<lambda>v. (v, rposition (snd (decode_from prog n c tid r)) - rposition r)) (fst (decode_from prog n c tid r))"
    and "snd (decode_traced_from prog n c tid r) = snd (decode_from prog n c tid r)"
proof -
  let ?m = "decode_scoped prog c n False (ascii ''value'') 0 tid"
  obtain v r' t where run: "?m (r, Some []) = (v, (r', t))"
    by (metis prod.collapse)
  then obtain t' where run': "?m (r, None) = (v, (r', t'))"
    using blindD[OF blind_decode[OF assms]] by blast
  show "map_sum (\<lambda>e. e) (\<lambda>t. (dv_value t, dv_bit_count t)) (fst (decode_traced_from prog n c tid r)) =
      map_sum (\<lambda>e. e) (\<lambda>v. (v, rposition (snd (decode_from prog n c tid r)) - rposition r)) (fst (decode_from prog n c tid r))"
    using run run' by (cases v) (simp_all add: decode_traced_from_def decode_scoped_traced_def decode_from_def untraced_def)
  show "snd (decode_traced_from prog n c tid r) = snd (decode_from prog n c tid r)"
    using run run' by (cases v) (simp_all add: decode_traced_from_def decode_scoped_traced_def decode_from_def untraced_def)
qed

section \<open>Obfuscated types\<close>

text \<open>An obfuscated type without a layout, outside a reflected scope, is refused untouched.\<close>

lemma encode_obfuscated:
  assumes "schema_shape (cschema c) tid = Inr sh" and "obfuscated sh" and "wire_layouts c tid = None"
  shows "encode_into prog (Suc n) c tid v w = (Inl (BsnWire (UnregisteredObfuscated (unat tid))), w)"
  using assms by (simp add: encode_into_def encode_body_def reflected_scope_def)

lemma decode_obfuscated:
  assumes "schema_shape (cschema c) tid = Inr sh" and "obfuscated sh" and "wire_layouts c tid = None"
  shows "decode_from prog (Suc n) c tid r = (Inl (BsnWire (InType (UnregisteredObfuscated (unat tid)) (unat tid)
     (rposition r) (rposition r))), r)"
  using assms
  by (simp add: decode_from_def untraced_def decode_body_def decode_inner_def reflected_scope_def map_errM_def)

end
