(* ===== verification/Codec_Properties.thy ===== *)
theory Codec_Properties
  imports Codec_Safety "HOL-Library.Code_Target_Nat"
begin

text \<open>
  The properties of the bit codec, of the schema and of the schema-driven value codec, each
  with an input at which its hypotheses hold.  The inputs use a small generated schema: a
  struct of a ranged integer and an optional one.
\<close>

section \<open>The example\<close>

definition demo_schema :: static_schema where
  "demo_schema = \<lparr>ss_type_count = 3, ss_types =
     [\<lparr>st_type_id = 1, st_name = Some (ascii ''Pair''), st_kind = KStruct, st_implicit_indices = True, st_obfuscated = False,
        st_value_range = Some \<lparr>encoding = 0, bit_width = Some 1, control_flag = False, minimum = 0, maximum = 1\<rparr>,
        st_element_type = None, st_index_values = [0, 1], st_member_types = [2, 3],
        st_member_names = [Some (ascii ''a''), None]\<rparr>,
      \<lparr>st_type_id = 2, st_name = Some (ascii ''Small''), st_kind = KInteger, st_implicit_indices = False, st_obfuscated = False,
        st_value_range = Some \<lparr>encoding = 0, bit_width = Some 7, control_flag = False, minimum = -10, maximum = 100\<rparr>,
        st_element_type = None, st_index_values = [], st_member_types = [], st_member_names = []\<rparr>,
      \<lparr>st_type_id = 3, st_name = None, st_kind = KOptional, st_implicit_indices = False, st_obfuscated = False,
        st_value_range = None, st_element_type = Some 2, st_index_values = [], st_member_types = [], st_member_names = []\<rparr>]\<rparr>"

definition demo_codec :: codec where
  "demo_codec = codec_from_schema (Static demo_schema)"

definition demo_program :: program where
  "demo_program = \<lparr>run_encode = (\<lambda>_ _ _ _ _. fail ProtobufDecode), run_decode = (\<lambda>_ _ _ _. fail ProtobufDecode),
     run_decode_traced = (\<lambda>_ _ _ _ _ _. fail ProtobufDecode), f32_text = (\<lambda>_. []), f64_text = (\<lambda>_. []),
     error_text = (\<lambda>_. []), max_capacity = 1000\<rparr>"

definition demo_value :: bsn_value where
  "demo_value = Struct 1 [Field 1 None (Optional (Some (Integer 5))), Field 0 None (Integer 7)]"

lemma demo_encoding:
  "encode_value demo_program 4 demo_codec 1 demo_value = Inr \<lparr>ev_data = [0x91, 0x0F], ev_bit_count = 15\<rparr>"
  by code_simp

lemma demo_wf: "wf_codec demo_codec"
  unfolding demo_codec_def
  by (intro wf_codec_new wf_schema_static) (simp add: demo_schema_def wf_shape_def ranged_kind_def to_shape_def)

lemma demo_no_layouts [simp]: "wire_layouts demo_codec tid = None"
  by (simp add: demo_codec_def codec_from_schema_def)

lemma demo_lawful: "lawful_program demo_program demo_codec nf"
  by (simp add: lawful_program_def)

lemma demo_live: "live (max_capacity demo_program) demo_value"
  by (simp add: demo_value_def)



section \<open>The value codec\<close>

text \<open>C1: a value that was encoded is decoded from its own bytes to its normal form, and exactly its
  bits are consumed; the schema may have registered layouts, custom ones included, as long
  as their two functions agree with each other.\<close>

theorem encode_decode_roundtrip:
  assumes "wf_codec c" and "lawful_program prog c nf" and "live (max_capacity prog) v"
    and "encode_value prog n c tid v = Inr e" and "ev_bit_count e < 2 ^ 63"
  shows "decode_value prog n c tid (ev_data e) (Some (ev_bit_count e)) 0 =
    Inr \<lparr>dv_value = normal_form c nf n tid v, dv_bit_count = ev_bit_count e\<rparr>"
  by (rule codec_buffer_roundtrip[OF assms])

theorem encode_decode_roundtrip_witness:
  "decode_value demo_program 4 demo_codec 1 [0x91, 0x0F] (Some 15) 0 =
    Inr \<lparr>dv_value = Struct 1 [Field 0 (Some (ascii ''a'')) (Integer 7), Field 1 None (Optional (Some (Integer 5)))],
         dv_bit_count = 15\<rparr>"
proof -
  have "normal_form demo_codec (\<lambda>_ v. v) 4 1 demo_value =
      Struct 1 [Field 0 (Some (ascii ''a'')) (Integer 7), Field 1 None (Optional (Some (Integer 5)))]"
    by code_simp
  then show ?thesis
    using encode_decode_roundtrip[OF demo_wf demo_lawful[of "\<lambda>_ v. v"] demo_live demo_encoding] by simp
qed

text \<open>A value encoded behind other fields of a message is decoded at its place, whatever follows it in
  the buffer.\<close>

theorem embedded_roundtrip:
  assumes "wf_codec c" and "lawful_program prog c nf" and "live (max_capacity prog) v"
    and "wf_writer w" and "encode_into prog n c tid v w = (Inr (), w')"
    and "wposition w' + length rest < 2 ^ 63"
  shows "decode_value prog n c tid (pack (wbits w' @ rest)) (Some (wposition w' + length rest)) (wposition w) =
    Inr \<lparr>dv_value = normal_form c nf n tid v, dv_bit_count = wposition w' - wposition w\<rparr>"
  by (rule codec_stream_roundtrip[OF assms])

theorem embedded_roundtrip_witness:
  "\<exists>w'. encode_into demo_program 4 demo_codec 1 demo_value writer_new = (Inr (), w') \<and>
     decode_value demo_program 4 demo_codec 1 (pack (wbits w' @ [True, False])) (Some (wposition w' + 2)) 0 =
       Inr \<lparr>dv_value = normal_form demo_codec (\<lambda>_ v. v) 4 1 demo_value, dv_bit_count = wposition w'\<rparr>"
proof -
  obtain w' where w': "encode_into demo_program 4 demo_codec 1 demo_value writer_new = (Inr (), w')" "wposition w' = 15"
    using demo_encoding by (auto simp: encode_value_def split: prod.splits sum.splits)
  then show ?thesis
    using embedded_roundtrip[OF demo_wf demo_lawful[of "\<lambda>_ v. v"] demo_live wf_writer_new(1) w'(1), of "[True, False]"]
    by simp
qed

text \<open>C6: when only a proper prefix of an encoding has arrived the decoder asks for more data; it never
  returns a value made of part of the message, and never another error.\<close>

theorem truncated_value_is_incomplete:
  assumes "wf_codec c" and "lawful_program prog c nf" and "live (max_capacity prog) v"
    and "encode_value prog n c tid v = Inr e" and "ev_bit_count e < 2 ^ 63" and "k < ev_bit_count e"
  shows "\<exists>i. decode_value prog n c tid (ev_data e) (Some k) 0 = Inl (IncompleteFrame i)"
  by (rule codec_truncated[OF assms])

theorem truncated_value_is_incomplete_witness:
  "\<exists>i. decode_value demo_program 4 demo_codec 1 [0x91, 0x0F] (Some 14) 0 = Inl (IncompleteFrame i)"
  using truncated_value_is_incomplete[OF demo_wf demo_lawful[of "\<lambda>_ v. v"] demo_live demo_encoding, of 14] by simp



text \<open>C22: decoding with a trace yields the value, the bit count and the reader position of decoding without
  one, and fails exactly when and how that fails.\<close>

theorem tracing_is_transparent:
  assumes "traces_agree prog c"
  shows "map_sum (\<lambda>e. e) (\<lambda>t. (dv_value t, dv_bit_count t)) (fst (decode_traced_from prog n c tid r)) =
      map_sum (\<lambda>e. e) (\<lambda>v. (v, rposition (snd (decode_from prog n c tid r)) - rposition r)) (fst (decode_from prog n c tid r))
    \<and> snd (decode_traced_from prog n c tid r) = snd (decode_from prog n c tid r)"
  using decode_traced_same[OF assms] by blast

theorem tracing_is_transparent_witness:
  "snd (decode_traced_from demo_program 4 demo_codec 1 \<lparr>rdata = [0x91, 0x0F], rbit_count = 15, rposition = 0\<rparr>) =
   snd (decode_from demo_program 4 demo_codec 1 \<lparr>rdata = [0x91, 0x0F], rbit_count = 15, rposition = 0\<rparr>)"
  using tracing_is_transparent[of demo_program demo_codec 4 1 "\<lparr>rdata = [0x91, 0x0F], rbit_count = 15, rposition = 0\<rparr>"]
  by (simp add: traces_agree_def)

text \<open>C21: every registration keeps the codec well-formed: a layout fits the type it is registered for
  (a permutation of the fields of a struct, or an obfuscated type), a failed registration changes nothing,
  and a successful one adds one layout to a type that had none.\<close>

theorem registration_keeps_codec:
  assumes "wf_codec c"
    and "op \<in> {register_wire_layout name layout, register_verified_reflected name, register_candidate_reflected name,
      register_struct_wire_layout name slots, register_candidate_struct_wire_layout name slots}"
    and "op c = (v, c')"
  shows "wf_codec c' \<and> (v \<noteq> Inr () \<longrightarrow> c' = c) \<and>
    (v = Inr () \<longrightarrow> (\<exists>tid l. wire_layouts c tid = None \<and> c' = c\<lparr>wire_layouts := (wire_layouts c)(tid \<mapsto> l)\<rparr>))"
proof -
  consider (named) l where "op = register_named name l" "\<And>sh. obfuscated sh \<Longrightarrow> layout_fits l sh"
    | (struct) candidate where "op = register_struct name slots candidate"
    using assms(2)
    by (auto simp: register_wire_layout_def[abs_def] register_verified_reflected_def[abs_def]
        register_candidate_reflected_def[abs_def] register_struct_wire_layout_def[abs_def]
        register_candidate_struct_wire_layout_def[abs_def] layout_fits_def)
  then show ?thesis
  proof cases
    case named
    then show ?thesis
      using register_named_wf[OF assms(1) named(2), of name] assms(3)
      by (auto simp: register_named_def register_obfuscated_def split: sum.splits if_splits)
  next
    case struct
    then show ?thesis
      using register_struct_wf[OF assms(1), of name slots candidate] assms(3)
      by (auto simp: register_struct_def rbind_Inr_iff split: sum.splits if_splits)
  qed
qed

definition demo_layout :: struct_wire_layout where
  "demo_layout = \<lparr>sl_name = ascii ''swapped'', sl_fields =
     [\<lparr>logical_field = 1, filler_before = 0\<rparr>, \<lparr>logical_field = 0, filler_before = 3\<rparr>]\<rparr>"

theorem registration_keeps_codec_witness:
  "fst (register_struct_wire_layout (ascii ''pair'') demo_layout demo_codec) = Inr () \<and>
   wf_codec (snd (register_struct_wire_layout (ascii ''pair'') demo_layout demo_codec))"
proof -
  have "fst (register_struct_wire_layout (ascii ''pair'') demo_layout demo_codec) = Inr ()"
    by code_simp
  then show ?thesis
    using registration_keeps_codec[OF demo_wf, of "register_struct_wire_layout (ascii ''pair'') demo_layout" "ascii ''pair''" undefined demo_layout]
    by (metis insertCI prod.collapse)
qed

text \<open>A value of an obfuscated type for which no layout was registered is refused by the encoder and
  by the decoder, and neither writes or consumes a single bit.\<close>

theorem unregistered_obfuscated_refused:
  assumes "schema_shape (cschema c) tid = Inr sh" and "obfuscated sh" and "wire_layouts c tid = None"
  shows "encode_into prog (Suc n) c tid v w = (Inl (BsnWire (UnregisteredObfuscated (unat tid))), w)
    \<and> decode_from prog (Suc n) c tid r = (Inl (BsnWire (InType (UnregisteredObfuscated (unat tid)) (unat tid)
        (rposition r) (rposition r))), r)"
  using encode_obfuscated[OF assms] decode_obfuscated[OF assms] by blast

theorem unregistered_obfuscated_refused_witness:
  "encode_into demo_program 1 (codec_from_schema (Static \<lparr>ss_type_count = 1, ss_types =
       [(ss_types demo_schema ! 1)\<lparr>st_obfuscated := True\<rparr>]\<rparr>)) 2 (Integer 3) writer_new =
     (Inl (BsnWire (UnregisteredObfuscated 2)), writer_new)"
proof -
  let ?c = "codec_from_schema (Static \<lparr>ss_type_count = 1, ss_types = [(ss_types demo_schema ! 1)\<lparr>st_obfuscated := True\<rparr>]\<rparr>)"
  let ?sh = "to_shape ((ss_types demo_schema ! 1)\<lparr>st_obfuscated := True\<rparr>)"
  have "schema_shape (cschema ?c) 2 = Inr ?sh" and "obfuscated ?sh" and "wire_layouts ?c 2 = None"
    by code_simp+
  from unregistered_obfuscated_refused[OF this, of demo_program 0 "Integer 3" writer_new undefined]
  show ?thesis by simp
qed

section \<open>The schema\<close>


definition demo_block :: bytes where
  "demo_block =
     [0, 0, 0, 7, 0, 0, 0, 0, 0, 0, 0, 1, 0, 0, 0, 5, 0, 0, 0, 8, 0, 0, 0, 24,
      9, 1, 8, 0, 200,
      0, 0, 0, 33, 0, 0, 0, 37, 73, 110, 116, 0]"

lemma demo_parses: "\<exists>m. parse_metadata demo_block = Inr m \<and> type_count (header m) = 1 \<and>
   metadata_shape m 0 = Inr \<lparr>type_id = 0, kind = KInteger, implicit_indices = False, obfuscated = False,
     value_range = Some \<lparr>encoding = 1, bit_width = Some 8, control_flag = False, minimum = 0, maximum = 200\<rparr>,
     element_type = None, index_values = [], member_types = [], member_names = []\<rparr>"
proof -
  have "\<not> isl (parse_metadata demo_block)" and "type_count (header (projr (parse_metadata demo_block))) = 1"
    and "metadata_shape (projr (parse_metadata demo_block)) 0 = Inr \<lparr>type_id = 0, kind = KInteger, implicit_indices = False, obfuscated = False,
     value_range = Some \<lparr>encoding = 1, bit_width = Some 8, control_flag = False, minimum = 0, maximum = 200\<rparr>,
     element_type = None, index_values = [], member_types = [], member_names = []\<rparr>"
    by code_simp+
  then show ?thesis
    by (cases "parse_metadata demo_block") auto
qed




text \<open>C26: the type records of a parsed block lie inside it, none is empty, and the records of two types are the
  same record or do not overlap.\<close>

theorem type_records_do_not_overlap:
  assumes "parse_metadata data = Inr m" and "unat tid < type_count (header m)" and "unat tid' < type_count (header m)"
  shows "\<exists>a b a' b'. dump_record m tid = Inr (slice_of data a b) \<and> dump_record m tid' = Inr (slice_of data a' b')
    \<and> a < b \<and> b \<le> length data \<and> a' < b' \<and> b' \<le> length data
    \<and> (a = a' \<and> b = b' \<or> b \<le> a' \<or> b' \<le> a)"
proof -
  note wf = parse_metadata_wf[OF assms(1)]
  have blob: "blob m = data"
    using parse_metadata_header[OF assms(1)] by blast
  have place: "\<exists>b. dump_record m t = Inr (slice_of data (dump_offsets m ! unat t) b) \<and> dump_offsets m ! unat t < b
      \<and> b \<le> length data \<and> dump_ends m (dump_offsets m ! unat t) = Some b
      \<and> (\<forall>x \<in> set (dump_offsets m). dump_offsets m ! unat t < x \<longrightarrow> b \<le> x)"
    if "unat t < type_count (header m)" for t
  proof -
    have s: "dump_offsets m ! unat t \<in> set (dump_offsets m)"
      using wf that by (simp add: wf_metadata_def)
    obtain b where "dump_ends m (dump_offsets m ! unat t) = Some b" "dump_offsets m ! unat t < b"
        "b \<le> string_table_offset m" "\<forall>x \<in> set (dump_offsets m). dump_offsets m ! unat t < x \<longrightarrow> b \<le> x"
      using record_ends_next[OF s, of False "string_table_offset m"] wf unfolding wf_metadata_def by auto
    then show ?thesis
      using wf that by (auto simp: dump_record_def checked_offset_def get_at_def wf_metadata_def blob_slice_def get_slice_def blob)
  qed
  obtain b where b: "dump_record m tid = Inr (slice_of data (dump_offsets m ! unat tid) b)" "dump_offsets m ! unat tid < b"
      "b \<le> length data" "dump_ends m (dump_offsets m ! unat tid) = Some b"
      "\<forall>x \<in> set (dump_offsets m). dump_offsets m ! unat tid < x \<longrightarrow> b \<le> x"
    using place[OF assms(2)] by blast
  obtain b' where b': "dump_record m tid' = Inr (slice_of data (dump_offsets m ! unat tid') b')" "dump_offsets m ! unat tid' < b'"
      "b' \<le> length data" "dump_ends m (dump_offsets m ! unat tid') = Some b'"
      "\<forall>x \<in> set (dump_offsets m). dump_offsets m ! unat tid' < x \<longrightarrow> b' \<le> x"
    using place[OF assms(3)] by blast
  have "dump_offsets m ! unat tid \<in> set (dump_offsets m)" "dump_offsets m ! unat tid' \<in> set (dump_offsets m)"
    using wf assms(2,3) by (simp_all add: wf_metadata_def)
  then have "dump_offsets m ! unat tid = dump_offsets m ! unat tid' \<and> b = b' \<or> b \<le> dump_offsets m ! unat tid'
      \<or> b' \<le> dump_offsets m ! unat tid"
    using b(4,5) b'(4,5) by (metis linorder_neqE_nat option.inject)
  then show ?thesis
    using b(1-3) b'(1-3) by blast
qed

theorem type_records_do_not_overlap_witness:
  "\<exists>m a b. parse_metadata demo_block = Inr m \<and> dump_record m 0 = Inr (slice_of demo_block a b) \<and> a < b \<and> b \<le> length demo_block"
proof -
  obtain m where m: "parse_metadata demo_block = Inr m" "type_count (header m) = 1"
    using demo_parses by blast
  then have "unat (0 :: u32) < type_count (header m)" by simp
  from type_records_do_not_overlap[OF m(1) this this] m(1) show ?thesis by blast
qed

text \<open>C27: the search of an executable finds exactly the metadata blocks in it: a block that parses is found at
  its offset whatever surrounds it, and everything found is a part of the file that parses.\<close>

theorem block_search_is_exact:
  assumes "length data < 2 ^ 64"
  shows "(offset, m) \<in> set (find_metadata_blobs data) \<longleftrightarrow>
    (\<exists>stop. offset \<le> stop \<and> stop \<le> length data \<and> parse_metadata (slice_of data offset stop) = Inr m)"
proof
  assume "(offset, m) \<in> set (find_metadata_blobs data)"
  then have "blob_at data offset = Some m"
    by (simp add: find_metadata_blobs_iff)
  from blob_at_sound[OF this]
  show "\<exists>stop. offset \<le> stop \<and> stop \<le> length data \<and> parse_metadata (slice_of data offset stop) = Inr m"
    by (metis le_add1)
next
  assume "\<exists>stop. offset \<le> stop \<and> stop \<le> length data \<and> parse_metadata (slice_of data offset stop) = Inr m"
  then obtain stop where stop: "offset \<le> stop" "stop \<le> length data" "parse_metadata (slice_of data offset stop) = Inr m"
    by blast
  obtain h where "parse_header (slice_of data offset stop) = Inr h"
    using parse_metadata_header[OF stop(3)] by blast
  then have "20 \<le> length (slice_of data offset stop)"
    by (auto simp: parse_header_def split: if_splits)
  then have len: "offset + 20 \<le> stop"
    using stop(1,2) by simp
  have data: "data = take offset data @ slice_of data offset stop @ drop stop data"
    using stop(1) by (simp add: slice_of_def) (metis append_take_drop_id drop_drop le_add_diff_inverse2)
  have "blob_at (take offset data @ slice_of data offset stop @ drop stop data) (length (take offset data)) = Some m"
    using stop assms by (intro blob_at_complete) simp_all
  then have "blob_at data offset = Some m"
    using stop len by (simp flip: data)
  then show "(offset, m) \<in> set (find_metadata_blobs data)"
    using len stop(2) by (simp add: find_metadata_blobs_iff)
qed

theorem block_search_is_exact_witness:
  "\<exists>m. (2, m) \<in> set (find_metadata_blobs ([1, 2] @ demo_block @ [9]))"
proof -
  let ?data = "[1, 2] @ demo_block @ [9]"
  obtain m where m: "parse_metadata demo_block = Inr m"
    using demo_parses by blast
  have "slice_of ?data 2 43 = demo_block" and len: "length ?data = 44"
    by (simp_all add: slice_of_def demo_block_def)
  then have "\<exists>stop. 2 \<le> stop \<and> stop \<le> length ?data \<and> parse_metadata (slice_of ?data 2 stop) = Inr m"
    using m by (intro exI[of _ 43]) simp
  moreover have "length ?data < 2 ^ 64"
    unfolding len by simp
  ultimately have "(2, m) \<in> set (find_metadata_blobs ?data)"
    using block_search_is_exact[of ?data 2 m] by blast
  then show ?thesis by blast
qed

text \<open>Of the blocks in an executable the largest is taken.\<close>

theorem largest_block_is_largest:
  assumes "largest_metadata data = Some m"
  shows "(\<exists>offset. (offset, m) \<in> set (find_metadata_blobs data)) \<and>
    (\<forall>(offset, m') \<in> set (find_metadata_blobs data). length (blob m') \<le> length (blob m))"
  using largest_metadata_Some(1)[OF assms] largest_metadata_Some(2)[OF assms] by blast

theorem largest_block_is_largest_witness:
  "\<exists>m offset. largest_metadata demo_block = Some m \<and> (offset, m) \<in> set (find_metadata_blobs demo_block)"
proof -
  have "largest_metadata demo_block \<noteq> None"
    by code_simp
  then obtain m where "largest_metadata demo_block = Some m"
    by blast
  then show ?thesis
    using largest_block_is_largest[of demo_block m] by blast
qed

text \<open>A scalar of any encoding that is written big endian in two's complement is read back wherever it
  stands.\<close>

theorem scalar_roundtrip:
  assumes "scalar_width enc = Some w" and "scalar_in_range enc v" and "length pre + w < 2 ^ 64"
  shows "read_scalar (pre @ scalar_bytes w v @ post) (length pre) enc = Inr (v, length pre + w)"
  by (rule read_scalar_bytes[OF assms])

theorem scalar_roundtrip_witness:
  "read_scalar ([1] @ scalar_bytes 2 (-2) @ [7]) 1 2 = Inr (-2, 3)"
  using scalar_roundtrip[of 2 2 "-2" "[1]" "[7]"] by (simp add: scalar_width_def scalar_in_range_def)

text \<open>The binary search of the generated schema finds exactly the entries of its table, which is sorted
  by type id.\<close>

theorem static_lookup_is_exact:
  assumes "sorted_wrt (<) (map st_type_id (ss_types s))"
  shows "static_get s tid = Inr sh \<longleftrightarrow> sh \<in> set (ss_types s) \<and> st_type_id sh = tid"
  by (rule static_get_iff[OF assms])

theorem static_lookup_is_exact_witness:
  "static_get demo_schema 3 = Inr (ss_types demo_schema ! 2)"
  using static_lookup_is_exact[of demo_schema 3 "ss_types demo_schema ! 2"] by (simp add: demo_schema_def)

end
