(* ===== verification/Bit_Properties.thy ===== *)
theory Bit_Properties
  imports Bit_Codec Utf8 Values "HOL-Library.Code_Target_Nat"
begin

text \<open>
  The properties of the bit reader and writer, of the routing header and of the string and
  value conversions, each with an input at which its hypotheses hold.
\<close>

section \<open>Fields\<close>

lemma length_fields: "length (images (map (\<lambda>(n, v). field n v) fs) p) = sum_list (map fst fs)"
  by (induction fs arbitrary: p) (auto simp: image_defs)

text \<open>C30: a message written field by field, at any mixture of widths up to 64 bits and so at any bit offset,
  is read back field by field; its size is the sum of the widths.\<close>

theorem field_sequence_roundtrip:
  assumes "\<forall>(n, v) \<in> set fs. fits n v" and "sum_list (map fst fs) < 2 ^ 63"
  shows "\<exists>w r. loopM fs (\<lambda>(n, v) _. write_bits v n) () writer_new = (Inr (), w)
    \<and> wposition w = sum_list (map fst fs)
    \<and> reader_new (into_bytes w) (Some (wposition w)) = Inr r
    \<and> fst (forM (map fst fs) read_bits r) = Inr (map snd fs)"
proof -
  let ?i = "\<lambda>(n, v). field n v"
  have "emits (loopM fs (\<lambda>(n, v) _. write_bits v n) ()) (images (map ?i fs))"
    using assms(1) by (intro emits_loop) (auto intro: emits_write_bits)
  then obtain w where w: "loopM fs (\<lambda>(n, v) _. write_bits v n) () writer_new = (Inr (), w)" "wf_writer w"
      "wbits w = images (map ?i fs) 0" "wposition w = sum_list (map fst fs)"
    by (rule emits_run[OF _ wf_writer_new(1)]) (simp add: length_fields)
  obtain r where r: "reader_new (pack (wbits w)) (Some (length (wbits w))) = Inr r" "wf_reader r" "rbits r = wbits w" "rposition r = 0"
    using reader_new_pack[of "wbits w"] w(4) assms(2) by auto
  have "parses (forM fs (\<lambda>(n, v). read_bits n)) (map snd fs) (images (map ?i fs))"
    using assms(1) by (intro parses_forM) (fastforce intro: parses_read_bits)
  from parses_ok[OF this r(2), of "[]"] r(3,4) w(3)
  have "fst (forM fs (\<lambda>(n, v). read_bits n) r) = Inr (map snd fs)"
    by simp
  moreover have "forM (map fst fs) read_bits = forM fs (\<lambda>(n, v). read_bits n)"
    by (induction fs) auto
  moreover have "reader_new (into_bytes w) (Some (wposition w)) = Inr r"
    using r(1) by (simp add: into_bytes_pack[OF w(2)])
  ultimately show ?thesis
    using w(1,4) by (intro exI[of _ w] exI[of _ r]) simp
qed

theorem field_sequence_roundtrip_witness:
  "\<exists>w r. loopM [(3, 5), (13, 4097), (64, 7)] (\<lambda>(n, v) _. write_bits v n) () writer_new = (Inr (), w)
    \<and> wposition w = 80 \<and> reader_new (into_bytes w) (Some (wposition w)) = Inr r
    \<and> fst (forM [3, 13, 64] read_bits r) = Inr [5, 4097, 7]"
  using field_sequence_roundtrip[of "[(3, 5), (13, 4097), (64, 7)]"] by (simp add: fits_unat)

text \<open>The writer takes a value exactly when it fits the width; otherwise it reports why and is left as it
  was.\<close>

theorem write_bits_checks_width:
  "fst (write_bits val width w) = Inl e \<Longrightarrow> wf_writer w \<Longrightarrow>
     \<not> fits width val \<and> snd (write_bits val width w) = w \<and>
     e = BsnWire (if width > 64 then WiderThan64 else ValueDoesNotFit (unat val) width)"
  using write_bits_ok[of w width val] write_bits_error[of width val w] by (cases "fits width val") auto

theorem write_bits_checks_width_witness:
  "write_bits 8 3 writer_new = (Inl (BsnWire (ValueDoesNotFit 8 3)), writer_new)"
proof -
  have "fst (write_bits 8 3 writer_new) = Inl (BsnWire (ValueDoesNotFit 8 3))"
    by code_simp
  from write_bits_checks_width[OF this wf_writer_new(1)] this show ?thesis
    by (simp add: prod_eq_iff)
qed

text \<open>The byte-wise read of an aligned reader returns exactly what reading bit by bit returns and leaves
  the reader at the same place, on success.\<close>

theorem byte_read_equals_bit_read:
  assumes "wf_reader r" and "8 * n \<le> remaining r"
  shows "read_bytes n False r = read_raw (8 * n) r"
  using read_bytes_here_ok[OF assms] read_raw_ok[OF assms] by (simp add: read_bytes_def)

theorem byte_read_equals_bit_read_witness:
  "read_bytes 2 False \<lparr>rdata = [1, 2, 3], rbit_count = 24, rposition = 8\<rparr> =
   read_raw 16 \<lparr>rdata = [1, 2, 3], rbit_count = 24, rposition = 8\<rparr>"
  using byte_read_equals_bit_read[of "\<lparr>rdata = [1, 2, 3], rbit_count = 24, rposition = 8\<rparr>" 2]
  by (simp add: wf_reader_def remaining_def)

section \<open>Routing headers\<close>

text \<open>A routing header is encoded exactly when its command id has six bits and its slot four, in 7 or 11
  bits, and what follows it on the wire is returned when the header is stripped.\<close>

theorem routing_header_roundtrip:
  "case encode_routing_header cmd slot of
     Inl e \<Rightarrow> \<not> routing_ok (cmd, slot) \<and> e = BsnWire (if cmd > 0x3f then CommandIdTooWide else ServiceSlotTooWide)
   | Inr (hdr, n) \<Rightarrow> routing_ok (cmd, slot) \<and> n = (if slot = None then 7 else 11) \<and>
       (\<forall>body m. m \<le> 8 * length body \<and> n + m < 2 ^ 63 \<longrightarrow>
          (\<exists>msg. concat_bits [(hdr, n), (body, m)] = Inr (msg, n + m) \<and>
             strip_routing_header msg (Some (n + m)) =
               Inr (\<lparr>command_id = cmd, service_slot = slot, header_bit_count = n\<rparr>, pack (raw_bits body m), m)))"
proof (cases "routing_ok (cmd, slot)")
  case False
  then show ?thesis
    using encode_routing_header_error[OF False] by simp
next
  case True
  let ?img = "routing_image (cmd, slot) 0" and ?n = "routing_bits slot"
  have img: "length ?img = ?n" and n: "?n = (if slot = None then 7 else 11)"
    by (simp_all add: routing_bits_def split: option.split)
  have hdr: "raw_bits (pack ?img) ?n = ?img" and room: "?n \<le> 8 * length (pack ?img)"
    using raw_bits_pack[of ?img] img by (simp_all add: div_ceil_8)
  have "concat_bits [(pack ?img, ?n), (body, m)] = Inr (pack (?img @ raw_bits body m), ?n + m)"
    if "m \<le> 8 * length body" for body m
  proof -
    let ?parts = "[(pack ?img, ?n), (body, m)]"
    have "k \<le> 8 * length data" if "(data, k) \<in> set ?parts" for data k
      using that \<open>m \<le> 8 * length body\<close> room by auto
    then have "concat_bits ?parts = Inr (pack (concat (map (\<lambda>(data, n). raw_bits data n) ?parts)),
        length (concat (map (\<lambda>(data, n). raw_bits data n) ?parts)))"
      by (rule concat_bits_ok)
    then show ?thesis
      using hdr img by simp
  qed
  moreover have "strip_routing_header (pack (?img @ raw_bits body m)) (Some (?n + m)) =
      Inr (\<lparr>command_id = cmd, service_slot = slot, header_bit_count = ?n\<rparr>, pack (raw_bits body m), m)"
    if "?n + m < 2 ^ 63" for body m
    using strip_routing_header_ok[OF True refl, of "raw_bits body m"] that img by simp
  ultimately show ?thesis
    using True encode_routing_header_ok[OF True] n by simp
qed

theorem routing_header_roundtrip_witness:
  "\<exists>hdr. encode_routing_header 0x2A (Some 3) = Inr (hdr, 11)"
proof -
  have "\<not> isl (encode_routing_header 0x2A (Some 3))"
    by code_simp
  then show ?thesis
    using routing_header_roundtrip[of "0x2A" "Some 3"] by (auto split: sum.splits)
qed

section \<open>Strings and values\<close>

text \<open>The lossy conversion always yields well-formed UTF-8 and leaves well-formed strings alone.\<close>

theorem lossy_conversion_is_utf8:
  "utf8_valid (from_utf8_lossy bs) \<and> from_utf8_lossy (from_utf8_lossy bs) = from_utf8_lossy bs
    \<and> (from_utf8 bs = Some s \<longrightarrow> from_utf8_lossy bs = s)"
  by auto

theorem lossy_conversion_is_utf8_witness:
  "from_utf8_lossy [0x41, 0xC3, 0xA9] = [0x41, 0xC3, 0xA9]"
proof -
  have "from_utf8 [0x41, 0xC3, 0xA9] = Some [0x41, 0xC3, 0xA9]"
    by code_simp
  then show ?thesis
    using lossy_conversion_is_utf8[of "[0x41, 0xC3, 0xA9]" "[0x41, 0xC3, 0xA9]"] by blast
qed

text \<open>A vector of optional integers of a Rust integer type is converted exactly when the value is an array
  of optionals whose present integers are in the range of the type; one that is out of range, or of another
  kind, makes the whole conversion fail.\<close>

theorem typed_conversion_is_exact:
  "from_bsn_vec (from_bsn_option (from_bsn_int lo hi)) v = Inr xs \<longleftrightarrow>
     v = Array (map (\<lambda>x. Optional (map_option Integer x)) xs) \<and> (\<forall>x \<in> set xs. \<forall>i. x = Some i \<longrightarrow> lo \<le> i \<and> i \<le> hi)"
proof -
  have one: "from_bsn_option (from_bsn_int lo hi) u = Inr x \<longleftrightarrow>
      u = Optional (map_option Integer x) \<and> (\<forall>i. x = Some i \<longrightarrow> lo \<le> i \<and> i \<le> hi)" for u x
    by (cases x) (auto simp: from_bsn_option_iff from_bsn_int_iff)
  have "list_all2 (\<lambda>u x. from_bsn_option (from_bsn_int lo hi) u = Inr x) us xs \<longleftrightarrow>
      us = map (\<lambda>x. Optional (map_option Integer x)) xs \<and> (\<forall>x \<in> set xs. \<forall>i. x = Some i \<longrightarrow> lo \<le> i \<and> i \<le> hi)" for us
    unfolding one by (induction xs arbitrary: us) (auto simp: list_all2_Cons2)
  then show ?thesis
    unfolding from_bsn_vec_iff by auto
qed

theorem typed_conversion_is_exact_witness:
  "from_bsn_vec (from_bsn_option (from_bsn_int 0 255)) (Array [Optional None, Optional (Some (Integer 7))]) = Inr [None, Some 7]"
  using typed_conversion_is_exact[of 0 255 "Array [Optional None, Optional (Some (Integer 7))]" "[None, Some 7]"] by simp

end
