(* ===== verification/Raw_Proto.thy ===== *)
theory Raw_Proto
  imports Byte_Order
begin

text \<open>
  The schema-less protobuf codec of \<open>core/src/platform/wire/raw.rs\<close>: the field walker
  \<open>Fields\<close> and the field builder \<open>Message\<close>.  \<open>Fields\<close> is a record of the struct's fields and
  its methods are operations on it; an item of the iterator is a result, its end \<open>None\<close>.
\<close>

section \<open>The walker\<close>

datatype pb_value = Varint u64 | Fixed64 u64 | PBytes bytes | Fixed32 u32

datatype pb_field = PField (pb_number: u32) (pb_value: pb_value)

abbreviation VARINT :: u64 where "VARINT \<equiv> 0"
abbreviation FIXED64 :: u64 where "FIXED64 \<equiv> 1"
abbreviation LENGTH_DELIMITED :: u64 where "LENGTH_DELIMITED \<equiv> 2"
abbreviation FIXED32 :: u64 where "FIXED32 \<equiv> 5"

fun wire_type :: "pb_value \<Rightarrow> u64" where
  "wire_type (Varint _) = VARINT"
| "wire_type (Fixed64 _) = FIXED64"
| "wire_type (PBytes _) = LENGTH_DELIMITED"
| "wire_type (Fixed32 _) = FIXED32"

fun field_varint :: "pb_field \<Rightarrow> u64 option" where
  "field_varint (PField n (Varint v)) = Some v"
| "field_varint _ = None"

fun field_bytes :: "pb_field \<Rightarrow> bytes option" where
  "field_bytes (PField n (PBytes v)) = Some v"
| "field_bytes _ = None"

fun field_fixed32 :: "pb_field \<Rightarrow> u32 option" where
  "field_fixed32 (PField n (Fixed32 v)) = Some v"
| "field_fixed32 _ = None"

record pb_fields =
  pb_data :: bytes
  pb_offset :: nat
  pb_failed :: bool

abbreviation protobuf_error :: "classic_reason \<Rightarrow> ('s, 'a) op" where
  "protobuf_error r \<equiv> fail (ClassicWire r)"

definition pb_byte :: "(pb_fields, u8) op" where
  "pb_byte s =
     (case get_at (pb_data s) (pb_offset s) of
        None \<Rightarrow> (Inl (ClassicWire TruncatedVarint), s)
      | Some b \<Rightarrow> (Inr b, s\<lparr>pb_offset := pb_offset s + 1\<rparr>))"

text \<open>\<open>for shift in (0..70).step_by(7)\<close>\<close>

fun varint_loop :: "nat list \<Rightarrow> u64 \<Rightarrow> (pb_fields, u64) op" where
  "varint_loop [] val = protobuf_error VarintTooLong"
| "varint_loop (shift # shifts) val =
     bindM pb_byte (\<lambda>byte.
     let val = val OR push_bit shift (ucast (byte AND 0x7F)) in
     if byte < 0x80
     then if shift = 63 \<and> byte > 1 then protobuf_error VarintTooWide else ret val
     else varint_loop shifts val)"

definition read_varint :: "(pb_fields, u64) op" where
  "read_varint = varint_loop [0, 7, 14, 21, 28, 35, 42, 49, 56, 63] 0"

definition read_array :: "nat \<Rightarrow> u32 \<Rightarrow> (pb_fields, bytes) op" where
  "read_array n number s =
     (case get_slice (pb_data s) (pb_offset s) (pb_offset s + n) of
        None \<Rightarrow> (Inl (ClassicWire (TruncatedFixed (unat number))), s)
      | Some bs \<Rightarrow> (Inr bs, s\<lparr>pb_offset := pb_offset s + n\<rparr>))"

definition read_length_delimited :: "u32 \<Rightarrow> (pb_fields, bytes) op" where
  "read_length_delimited number =
     bindM read_varint (\<lambda>len s.
       case Option.bind (checked_add64 (pb_offset s) (unat len))
              (\<lambda>stop. if stop \<le> length (pb_data s) then Some stop else None) of
         None \<Rightarrow> (Inl (ClassicWire (TruncatedBytes (unat number))), s)
       | Some stop \<Rightarrow> (Inr (slice_of (pb_data s) (pb_offset s) stop), s\<lparr>pb_offset := stop\<rparr>))"

text \<open>The \<open>match tag & 7\<close> of \<open>read_field\<close>.\<close>

definition read_value :: "u64 \<Rightarrow> u32 \<Rightarrow> nat \<Rightarrow> (pb_fields, pb_value) op" where
  "read_value wt number start =
     (if wt = VARINT then bindM read_varint (\<lambda>v. ret (Varint v))
      else if wt = FIXED64 then bindM (read_array 8 number) (\<lambda>bs. ret (Fixed64 (of_nat (from_le bs))))
      else if wt = LENGTH_DELIMITED then bindM (read_length_delimited number) (\<lambda>bs. ret (PBytes bs))
      else if wt = FIXED32 then bindM (read_array 4 number) (\<lambda>bs. ret (Fixed32 (of_nat (from_le bs))))
      else protobuf_error (UnsupportedWireType (unat wt) (unat number) start))"

definition read_field :: "(pb_fields, pb_field) op" where
  "read_field =
     bindM (getsM pb_offset) (\<lambda>start.
     bindM read_varint (\<lambda>tag.
     if drop_bit 3 tag \<ge> 2 ^ 32 then protobuf_error (FieldNumberTooWide start)
     else let number = (ucast (drop_bit 3 tag) :: u32) in
       if number = 0 then protobuf_error (FieldZero start)
       else bindM (read_value (tag AND 7) number start) (\<lambda>v. ret (PField number v))))"

definition fields_next :: "pb_fields \<Rightarrow> pb_field result option \<times> pb_fields" where
  "fields_next s =
     (if pb_failed s \<or> pb_offset s \<ge> length (pb_data s) then (None, s)
      else case read_field s of
        (Inr f, s') \<Rightarrow> (Some (Inr f), s')
      | (Inl e, s') \<Rightarrow> (Some (Inl e), s'\<lparr>pb_failed := True\<rparr>))"

definition fields_of :: "bytes \<Rightarrow> pb_fields" where
  "fields_of data = \<lparr>pb_data = data, pb_offset = 0, pb_failed = False\<rparr>"

section \<open>Reading stays inside the data and moves on\<close>

definition walks :: "pb_fields \<Rightarrow> pb_fields \<Rightarrow> bool" where
  "walks s s' \<longleftrightarrow> pb_data s' = pb_data s \<and> pb_failed s' = pb_failed s \<and> pb_offset s \<le> pb_offset s'
     \<and> (pb_offset s \<le> length (pb_data s) \<longrightarrow> pb_offset s' \<le> length (pb_data s))"

lemma walks_refl [simp]: "walks s s"
  by (simp add: walks_def)

lemma walks_trans: "walks a b \<Longrightarrow> walks b c \<Longrightarrow> walks a c"
  by (auto simp: walks_def)

lemma pb_byte_walks: "pb_byte s = (v, s') \<Longrightarrow> walks s s' \<and> (\<forall>b. v = Inr b \<longrightarrow> pb_offset s < pb_offset s')"
  by (auto simp: pb_byte_def walks_def get_at_def split: option.splits if_splits)

lemma varint_loop_walks:
  "varint_loop shifts val s = (v, s') \<Longrightarrow> walks s s' \<and> (\<forall>x. v = Inr x \<longrightarrow> pb_offset s < pb_offset s')"
proof (induction shifts arbitrary: val s)
  case (Cons shift shifts)
  obtain b s1 where b: "pb_byte s = (b, s1)" by (cases "pb_byte s")
  note step = pb_byte_walks[OF b]
  show ?case
  proof (cases b)
    case (Inl e)
    then show ?thesis
      using Cons.prems b step by auto
  next
    case (Inr x)
    then show ?thesis
      using Cons.prems b step
      by (auto simp: Let_def split: if_splits dest!: Cons.IH intro: walks_trans)
  qed
qed auto

lemma read_varint_walks:
  "read_varint s = (v, s') \<Longrightarrow> walks s s' \<and> (\<forall>x. v = Inr x \<longrightarrow> pb_offset s < pb_offset s')"
  unfolding read_varint_def by (rule varint_loop_walks)

lemma read_array_walks: "read_array n number s = (v, s') \<Longrightarrow> walks s s'"
  by (auto simp: read_array_def walks_def get_slice_def split: option.splits if_splits)

lemma read_length_delimited_walks: "read_length_delimited number s = (v, s') \<Longrightarrow> walks s s'"
  by (auto simp: read_length_delimited_def bindM_def checked_add64_def bind_eq_Some_conv
      split: prod.splits sum.splits option.splits if_splits dest!: read_varint_walks)
    (auto simp: walks_def)

lemma read_value_walks: "read_value wt number start s = (v, s') \<Longrightarrow> walks s s'"
  by (auto simp: read_value_def bindM_def split: if_splits prod.splits sum.splits
      dest: read_varint_walks read_array_walks read_length_delimited_walks)

lemma read_field_walks:
  assumes "read_field s = (v, s')"
  shows "walks s s'" and "v = Inr f \<Longrightarrow> pb_offset s < pb_offset s'"
proof -
  obtain t s1 where t: "read_varint s = (t, s1)" by (cases "read_varint s")
  note step = read_varint_walks[OF t]
  have "walks s s' \<and> (v = Inr f \<longrightarrow> pb_offset s < pb_offset s')"
  proof (cases t)
    case (Inl e)
    then show ?thesis
      using assms t step by (auto simp: read_field_def)
  next
    case (Inr tag)
    have "walks s1 s'"
      using assms t Inr
      by (auto simp: read_field_def Let_def bindM_def split: if_splits prod.splits sum.splits
          dest: read_value_walks)
    then show ?thesis
      using step Inr by (auto intro: walks_trans) (auto simp: walks_def)
  qed
  then show "walks s s'" and "v = Inr f \<Longrightarrow> pb_offset s < pb_offset s'"
    by simp_all
qed

lemma fields_next_progress:
  assumes "fields_next s = (Some (Inr f), s')"
  shows "walks s s'" and "length (pb_data s') - pb_offset s' < length (pb_data s) - pb_offset s"
proof -
  have run: "read_field s = (Inr f, s')" and "pb_offset s < length (pb_data s)"
    using assms by (auto simp: fields_next_def split: if_splits prod.splits sum.splits)
  then show "walks s s'" and "length (pb_data s') - pb_offset s' < length (pb_data s) - pb_offset s"
    using read_field_walks[OF run] by (auto simp: walks_def)
qed

text \<open>\<open>collect::<Result<Vec<_>>>()\<close>, and \<open>flatten()\<close>, which drops a failed item.\<close>

function collect_fields :: "pb_fields \<Rightarrow> pb_field list result" where
  "collect_fields s =
     (case fields_next s of
        (None, _) \<Rightarrow> Inr []
      | (Some (Inl e), _) \<Rightarrow> Inl e
      | (Some (Inr f), s') \<Rightarrow> rbind (collect_fields s') (\<lambda>fs. Inr (f # fs)))"
  by pat_completeness auto
termination
  by (relation "measure (\<lambda>s. length (pb_data s) - pb_offset s)") (auto dest: fields_next_progress(2) sym)

function flatten_fields :: "pb_fields \<Rightarrow> pb_field list" where
  "flatten_fields s =
     (case fields_next s of
        (None, _) \<Rightarrow> []
      | (Some (Inl e), _) \<Rightarrow> []
      | (Some (Inr f), s') \<Rightarrow> f # flatten_fields s')"
  by pat_completeness auto
termination
  by (relation "measure (\<lambda>s. length (pb_data s) - pb_offset s)") (auto dest: fields_next_progress(2) sym)

declare collect_fields.simps [simp del] flatten_fields.simps [simp del]

definition first_field :: "bytes \<Rightarrow> u32 \<Rightarrow> pb_field option" where
  "first_field data number = find (\<lambda>f. pb_number f = number) (flatten_fields (fields_of data))"

definition first_bytes :: "bytes \<Rightarrow> u32 \<Rightarrow> bytes option" where
  "first_bytes data number = Option.bind (first_field data number) field_bytes"

definition first_varint :: "bytes \<Rightarrow> u32 \<Rightarrow> u64 option" where
  "first_varint data number = Option.bind (first_field data number) field_varint"

definition first_fixed32 :: "bytes \<Rightarrow> u32 \<Rightarrow> u32 option" where
  "first_fixed32 data number = Option.bind (first_field data number) field_fixed32"

section \<open>The builder\<close>

function push_varint :: "bytes \<Rightarrow> u64 \<Rightarrow> bytes" where
  "push_varint out val =
     (if val \<ge> 0x80 then push_varint (out @ [ucast (val AND 0x7F) OR 0x80]) (drop_bit 7 val)
      else out @ [ucast val])"
  by pat_completeness auto
termination
proof (relation "measure (\<lambda>(out, val). unat val)", simp)
  fix out :: bytes and val :: u64
  assume "0x80 \<le> val"
  then have "128 \<le> unat val"
    by (simp add: word_le_nat_alt)
  moreover have "unat (drop_bit 7 val) = unat val div 128"
    by (simp add: unat_div drop_bit_eq_div)
  ultimately show "((out @ [ucast (val AND 0x7F) OR 0x80], drop_bit 7 val), (out, val))
      \<in> measure (\<lambda>(out, val). unat val)"
    by simp
qed

declare push_varint.simps [simp del]

definition push_tag :: "bytes \<Rightarrow> u32 \<Rightarrow> u64 \<Rightarrow> bytes" where
  "push_tag m number wt = push_varint m (push_bit 3 (ucast number) OR wt)"

definition message_varint :: "u32 \<Rightarrow> u64 \<Rightarrow> bytes \<Rightarrow> bytes" where
  "message_varint number v m = push_varint (push_tag m number VARINT) v"

definition message_bytes :: "u32 \<Rightarrow> bytes \<Rightarrow> bytes \<Rightarrow> bytes" where
  "message_bytes number v m = push_varint (push_tag m number LENGTH_DELIMITED) (of_nat (length v)) @ v"

definition message_fixed64 :: "u32 \<Rightarrow> u64 \<Rightarrow> bytes \<Rightarrow> bytes" where
  "message_fixed64 number v m = push_tag m number FIXED64 @ to_le 8 (unat v)"

definition message_fixed32 :: "u32 \<Rightarrow> u32 \<Rightarrow> bytes \<Rightarrow> bytes" where
  "message_fixed32 number v m = push_tag m number FIXED32 @ to_le 4 (unat v)"

fun message_field :: "pb_field \<Rightarrow> bytes \<Rightarrow> bytes" where
  "message_field (PField number (Varint v)) m = message_varint number v m"
| "message_field (PField number (PBytes v)) m = message_bytes number v m"
| "message_field (PField number (Fixed64 v)) m = message_fixed64 number v m"
| "message_field (PField number (Fixed32 v)) m = message_fixed32 number v m"

definition message_fields :: "pb_field list \<Rightarrow> bytes" where
  "message_fields fs = fold message_field fs []"

section \<open>Varints\<close>

text \<open>The bytes \<open>push_varint\<close> appends.\<close>

definition varint_bytes :: "u64 \<Rightarrow> bytes" where
  "varint_bytes val = push_varint [] val"

lemma push_varint_append: "push_varint out val = out @ varint_bytes val"
proof (induction out val rule: push_varint.induct)
  case (1 out val)
  show ?case
  proof (cases "val \<ge> 0x80")
    case True
    have "varint_bytes val = push_varint ([] @ [ucast (val AND 0x7F) OR 0x80]) (drop_bit 7 val)"
      using True by (simp add: varint_bytes_def push_varint.simps[of "[]" val])
    moreover have "push_varint (xs @ ys) v = xs @ push_varint ys v" for xs ys :: bytes and v
    proof (induction ys v rule: push_varint.induct)
      case (1 ys v)
      then show ?case
        by (subst (1 2) push_varint.simps) simp
    qed
    ultimately show ?thesis
      using True by (subst push_varint.simps) (metis append_assoc append_Nil append_Nil2)
  next
    case False
    then show ?thesis
      by (simp add: varint_bytes_def push_varint.simps[of out val] push_varint.simps[of "[]" val])
  qed
qed

lemma varint_bytes_simps:
  "varint_bytes val = (if val \<ge> 0x80 then (ucast (val AND 0x7F) OR 0x80) # varint_bytes (drop_bit 7 val) else [ucast val])"
  using push_varint_append[of "[ucast (val AND 0x7F) OR 0x80]" "drop_bit 7 val"]
  by (simp add: varint_bytes_def push_varint.simps[of "[]" val])

lemma bit_7f: "bit (0x7F :: 'a::len word) n \<longleftrightarrow> n < 7 \<and> n < LENGTH('a)"
proof -
  have p: "(0x7F :: 'a word) = mask 7"
    by (simp add: mask_eq_exp_minus_1)
  show ?thesis
    unfolding p by (simp only: bit_mask_iff possible_bit_word conj_commute)
qed

lemma bit_80: "bit (0x80 :: u8) n \<longleftrightarrow> n = 7"
proof -
  have "bit (2 ^ m :: u8) n \<longleftrightarrow> n = m" if "m < 8" for m n
    using that by (auto simp: bit_exp_iff)
  from this[of 7 n] show ?thesis by simp
qed

lemma less_80: "(b :: u8) < 0x80 \<longleftrightarrow> \<not> bit b 7"
proof -
  have "unat b < 256"
    using unsigned_less[of b] by simp
  have "bit b 7 \<longleftrightarrow> bit (unat b) 7"
    by (simp add: bit_unsigned_iff)
  also have "\<dots> \<longleftrightarrow> odd (unat b div 2 ^ 7)"
    by (rule bit_iff_odd)
  also have "unat b div 2 ^ 7 = (if 128 \<le> unat b then 1 else 0)"
    using \<open>unat b < 256\<close> by (auto intro: div_nat_eqI)
  finally show ?thesis
    by (auto simp: word_less_nat_alt)
qed

lemma continuation_byte:
  fixes val :: u64
  defines "b \<equiv> (ucast (val AND 0x7F) :: u8) OR 0x80"
  shows "\<not> b < 0x80" and "ucast (b AND 0x7F) = val AND 0x7F"
proof -
  show "\<not> b < 0x80"
    by (simp add: less_80 b_def bit_or_iff bit_80)
  show "ucast (b AND 0x7F) = val AND 0x7F"
    by (rule bit_word_eqI)
      (simp only: b_def bit_unsigned_iff bit_and_iff bit_or_iff bit_7f bit_80 possible_bit_word, auto)
qed

lemma final_byte:
  fixes val :: u64
  assumes "val < 0x80"
  shows "(ucast val :: u8) < 0x80" and "ucast ((ucast val :: u8) AND 0x7F) = val"
proof -
  have small: "unat val < 128"
    using assms by (simp add: word_less_nat_alt)
  then have "take_bit 7 val = val"
    by (simp add: word_unat_eq_iff unsigned_take_bit_eq take_bit_nat_eq_self)
  then have "bit val n \<Longrightarrow> n < 7" for n
    by (metis bit_take_bit_iff)
  then have high: "bit val n \<Longrightarrow> n < 7" for n .
  then have high8: "bit val n \<Longrightarrow> n < 8" for n
    using less_trans[of n 7 8] by simp
  show "(ucast val :: u8) < 0x80"
    using high[of 7] by (auto simp: less_80 bit_unsigned_iff)
  show "ucast ((ucast val :: u8) AND 0x7F) = val"
    by (rule bit_word_eqI)
      (simp only: bit_unsigned_iff bit_and_iff bit_7f possible_bit_word, use high high8 in auto)
qed

lemma push_bit_split:
  "push_bit s (val AND 0x7F) OR push_bit (s + 7) (drop_bit 7 val) = push_bit s (val :: u64)"
proof (rule bit_word_eqI)
  fix n assume "n < LENGTH(64)"
  moreover have "7 + (n - (s + 7)) = n - s" if "\<not> n - s < 7"
    using that by simp
  ultimately show "bit (push_bit s (val AND 0x7F) OR push_bit (s + 7) (drop_bit 7 val)) n = bit (push_bit s val) n"
    by (cases "n - s < 7")
      (simp_all only: bit_or_iff bit_push_bit_iff bit_and_iff bit_7f bit_drop_bit_eq possible_bit_word o_apply, auto)
qed

lemma get_at_middle [simp]: "get_at (pre @ x # rest) (length pre) = Some x"
  by (simp add: get_at_def)

definition pb_at :: "bytes \<Rightarrow> nat \<Rightarrow> pb_fields" where
  "pb_at data p = \<lparr>pb_data = data, pb_offset = p, pb_failed = False\<rparr>"

lemma varint_loop_ok:
  "k \<le> 9 \<Longrightarrow> unat val < 2 ^ (64 - 7 * k) \<Longrightarrow>
     varint_loop (map (\<lambda>i. 7 * i) [k..<10]) acc (pb_at (pre @ varint_bytes val @ rest) (length pre)) =
     (Inr (acc OR push_bit (7 * k) val),
      pb_at (pre @ varint_bytes val @ rest) (length pre + length (varint_bytes val)))"
proof (induction "10 - k" arbitrary: k val acc pre)
  case 0
  then show ?case by simp
next
  case (Suc d)
  have shifts: "[k..<10] = k # [Suc k..<10]"
    using Suc.prems(1) by (simp add: upt_conv_Cons)
  show ?case
  proof (cases "val \<ge> 0x80")
    case False
    then have small: "val < 0x80" by simp
    have bytes: "varint_bytes val = [ucast val]"
      using False by (subst varint_bytes_simps) simp
    have no_wide: "\<not> (7 * k = 63 \<and> (ucast val :: u8) > 1)"
    proof
      assume wide: "7 * k = 63 \<and> (ucast val :: u8) > 1"
      then have "unat val < 2" using Suc.prems(2) by simp
      then have "val \<le> 1" by (simp add: word_le_nat_alt)
      then have "unat (ucast val :: u8) \<le> 1"
        using \<open>unat val < 2\<close> by (simp add: unsigned_ucast_eq take_bit_nat_eq_self)
      then show False
        using wide by (simp add: word_less_nat_alt)
    qed
    show ?thesis
      unfolding shifts list.map varint_loop.simps bytes
      using final_byte[OF small] no_wide
      by (simp add: bindM_def pb_byte_def pb_at_def Let_def)
  next
    case True
    define b where "b = (ucast (val AND 0x7F) :: u8) OR 0x80"
    have bytes: "varint_bytes val = b # varint_bytes (drop_bit 7 val)"
      using True by (subst varint_bytes_simps) (simp add: b_def)
    have drop: "unat (drop_bit 7 val) = unat val div 128"
      by (simp add: unat_div drop_bit_eq_div)
    have k: "k < 9"
    proof (rule ccontr)
      assume "\<not> k < 9"
      then have "k = 9" using Suc.prems(1) by simp
      then have "unat val < 2" using Suc.prems(2) by simp
      then show False using True by (simp add: word_le_nat_alt)
    qed
    have "(2 :: nat) ^ (64 - 7 * k) = 2 ^ (64 - 7 * Suc k) * 128"
    proof -
      have e: "64 - 7 * k = (64 - 7 * Suc k) + 7" using k by simp
      show ?thesis unfolding e power_add by simp
    qed
    then have lt: "unat (drop_bit 7 val) < 2 ^ (64 - 7 * Suc k)"
      using Suc.prems(2) drop by (simp add: less_mult_imp_div_less)
    define data where "data = pre @ (b # varint_bytes (drop_bit 7 val)) @ rest"
    define acc' where "acc' = acc OR push_bit (7 * k) (val AND 0x7F)"
    have shape: "(pre @ [b]) @ varint_bytes (drop_bit 7 val) @ rest = data"
      by (simp add: data_def)
    have IH: "varint_loop (map (\<lambda>i. 7 * i) [Suc k..<10]) acc' (pb_at data (length (pre @ [b]))) =
        (Inr (acc' OR push_bit (7 * Suc k) (drop_bit 7 val)),
         pb_at data (length (pre @ [b]) + length (varint_bytes (drop_bit 7 val))))"
      unfolding shape[symmetric] using Suc.hyps k lt by (intro Suc.hyps(1)) simp_all
    have val: "acc' OR push_bit (7 * Suc k) (drop_bit 7 val) = acc OR push_bit (7 * k) val"
      using push_bit_split[of "7 * k" val] by (simp only: acc'_def or.assoc mult_Suc_right add.commute)
    have byte: "pb_byte (pb_at data (length pre)) = (Inr b, pb_at data (length (pre @ [b])))"
      by (simp add: pb_byte_def pb_at_def data_def)
    have "varint_loop (7 * k # map (\<lambda>i. 7 * i) [Suc k..<10]) acc (pb_at data (length pre)) =
        varint_loop (map (\<lambda>i. 7 * i) [Suc k..<10]) acc' (pb_at data (length (pre @ [b])))"
      unfolding varint_loop.simps bindM_ok[of pb_byte, OF byte] Let_def acc'_def
      using continuation_byte[of val, folded b_def] by (simp only: if_False)
    also note IH
    also note val
    finally show ?thesis
      unfolding shifts list.map bytes data_def[symmetric] by simp
  qed
qed

lemma read_varint_bytes:
  "read_varint (pb_at (pre @ varint_bytes val @ rest) (length pre)) =
     (Inr val, pb_at (pre @ varint_bytes val @ rest) (length pre + length (varint_bytes val)))"
proof -
  have "[0, 7, 14, 21, 28, 35, 42, 49, 56, 63 :: nat] = map (\<lambda>i. 7 * i) [0..<10]"
    by (simp add: upt_rec)
  then show ?thesis
    using varint_loop_ok[of 0 val 0 pre rest] unsigned_less[of val] by (simp add: read_varint_def)
qed

lemma varint_bytes_length: "length (varint_bytes val) = (if unat val < 128 then 1 else Suc (length (varint_bytes (drop_bit 7 val))))"
  by (subst varint_bytes_simps) (simp add: word_le_nat_alt)

section \<open>Fields round trip\<close>

lemma split_tag:
  fixes number :: u32 and wt :: u64
  assumes "wt < 8"
  defines "tag \<equiv> push_bit 3 (ucast number) OR wt"
  shows "drop_bit 3 tag = ucast number" and "tag AND 7 = wt"
proof -
  have "unat wt < 2 ^ 3"
    using assms(1) by (simp add: word_less_nat_alt)
  then have "take_bit 3 wt = wt"
    by (simp add: word_unat_eq_iff unsigned_take_bit_eq take_bit_nat_eq_self)
  then have wt: "bit wt n \<Longrightarrow> n < 3" for n
    by (metis bit_take_bit_iff)
  have num: "bit number n \<Longrightarrow> n < 32" for n
    using bit_imp_le_length[of number n] by simp
  show "drop_bit 3 tag = ucast number"
    by (rule bit_word_eqI)
      (simp only: tag_def bit_drop_bit_eq bit_or_iff bit_push_bit_iff bit_unsigned_iff possible_bit_word o_apply,
       use wt num in fastforce)
  have seven: "bit (7 :: u64) n \<longleftrightarrow> n < 3" for n
  proof -
    have p: "(7 :: u64) = mask 3"
      by (simp add: mask_eq_exp_minus_1)
    show ?thesis
      unfolding p by (simp only: bit_mask_iff possible_bit_word) auto
  qed
  show "tag AND 7 = wt"
    by (rule bit_word_eqI)
      (simp only: tag_def bit_and_iff seven bit_or_iff bit_push_bit_iff possible_bit_word, use wt in auto)
qed

text \<open>The bytes one field occupies.\<close>

definition field_image :: "pb_field \<Rightarrow> bytes" where
  "field_image f = message_field f []"

definition value_image :: "pb_value \<Rightarrow> bytes" where
  "value_image v = (case v of
      Varint x \<Rightarrow> varint_bytes x
    | PBytes d \<Rightarrow> varint_bytes (of_nat (length d)) @ d
    | Fixed64 x \<Rightarrow> to_le 8 (unat x)
    | Fixed32 x \<Rightarrow> to_le 4 (unat x))"

definition tag_image :: "pb_field \<Rightarrow> bytes" where
  "tag_image f = varint_bytes (push_bit 3 (ucast (pb_number f)) OR wire_type (pb_value f))"

lemma message_field_append: "message_field f m = m @ tag_image f @ value_image (pb_value f)"
  by (cases f; cases "pb_value f")
    (simp_all add: message_varint_def message_bytes_def message_fixed64_def message_fixed32_def push_tag_def
      push_varint_append tag_image_def value_image_def)

lemma field_image_eq: "field_image f = tag_image f @ value_image (pb_value f)"
  by (simp add: field_image_def message_field_append)

lemma message_fields_concat: "message_fields fs = concat (map field_image fs)"
proof -
  have "fold message_field fs m = m @ concat (map field_image fs)" for m
    by (induction fs arbitrary: m) (simp_all add: message_field_append field_image_eq)
  then show ?thesis
    by (simp add: message_fields_def)
qed

definition wf_field :: "pb_field \<Rightarrow> bool" where
  "wf_field f \<longleftrightarrow> pb_number f \<noteq> 0 \<and> (\<forall>d. pb_value f = PBytes d \<longrightarrow> length d < 2 ^ 63)"

lemma read_array_le:
  assumes "unat x < 256 ^ n"
  shows "read_array n number (pb_at (pre @ to_le n (unat x) @ rest) (length pre)) =
    (Inr (to_le n (unat x)), pb_at (pre @ to_le n (unat x) @ rest) (length pre + n))"
  by (simp add: read_array_def pb_at_def get_slice_def)

lemma read_value_image:
  assumes "wf_field f" and "length (pre @ value_image (pb_value f)) < 2 ^ 64"
  shows "read_value (wire_type (pb_value f)) number start (pb_at (pre @ value_image (pb_value f) @ rest) (length pre)) =
    (Inr (pb_value f), pb_at (pre @ value_image (pb_value f) @ rest) (length pre + length (value_image (pb_value f))))"
proof (cases "pb_value f")
  case (Varint x)
  then show ?thesis
    using read_varint_bytes[of pre x rest] by (simp add: value_image_def read_value_def)
next
  case (Fixed64 x)
  have "unat x < 256 ^ 8"
    using unsigned_less[of x] by simp
  then show ?thesis
    using read_array_le[of x 8 number pre rest] from_le_to_le[of 8 "unat x"] Fixed64
    by (simp add: value_image_def read_value_def)
next
  case (PBytes d)
  have len: "unat (of_nat (length d) :: u64) = length d"
    using assms(1) PBytes by (simp add: wf_field_def unsigned_of_nat take_bit_nat_eq_self)
  have "read_length_delimited number (pb_at (pre @ varint_bytes (of_nat (length d)) @ d @ rest) (length pre)) =
    (Inr d, pb_at (pre @ varint_bytes (of_nat (length d)) @ d @ rest)
       (length pre + length (varint_bytes (of_nat (length d))) + length d))"
    using read_varint_bytes[of pre "of_nat (length d)" "d @ rest"] assms(2) PBytes len
    by (simp add: read_length_delimited_def pb_at_def checked_add64_def value_image_def slice_of_def)
  then show ?thesis
    using PBytes by (simp add: value_image_def read_value_def add.assoc)
next
  case (Fixed32 x)
  have "unat x < 256 ^ 4"
    using unsigned_less[of x] by simp
  then show ?thesis
    using read_array_le[of x 4 number pre rest] from_le_to_le[of 4 "unat x"] Fixed32
    by (simp add: value_image_def read_value_def)
qed

lemma read_field_image:
  assumes "wf_field f" and "length (pre @ field_image f) < 2 ^ 64"
  shows "read_field (pb_at (pre @ field_image f @ rest) (length pre)) =
    (Inr f, pb_at (pre @ field_image f @ rest) (length pre + length (field_image f)))"
proof -
  define tg where "tg = (push_bit 3 (ucast (pb_number f)) OR wire_type (pb_value f) :: u64)"
  have wt: "wire_type (pb_value f) < 8"
    by (cases "pb_value f") simp_all
  note tag = split_tag[OF wt, of "pb_number f", folded tg_def]
  have num: "unat (ucast (pb_number f) :: u64) = unat (pb_number f)"
    by (rule unat_ucast_up) simp
  have small: "\<not> (ucast (pb_number f) :: u64) \<ge> 2 ^ 32"
  proof -
    have "unat (pb_number f) < 2 ^ LENGTH(32)"
      by (rule unsigned_less)
    then show ?thesis
      by (simp add: word_le_nat_alt num)
  qed
  have again: "ucast (ucast (pb_number f) :: u64) = pb_number f"
    by (rule ucast_up_ucast_id) (simp add: is_up)
  define data where "data = pre @ field_image f @ rest"
  have s1: "data = pre @ varint_bytes tg @ (value_image (pb_value f) @ rest)"
    and s2: "data = (pre @ tag_image f) @ value_image (pb_value f) @ rest"
    by (simp_all add: data_def field_image_eq tag_image_def tg_def)
  have 1: "read_varint (pb_at data (length pre)) = (Inr tg, pb_at data (length (pre @ tag_image f)))"
    unfolding s1 read_varint_bytes by (simp add: tag_image_def tg_def)
  have len: "length ((pre @ tag_image f) @ value_image (pb_value f)) < 2 ^ 64"
    using assms(2) by (simp add: field_image_eq)
  note 2 = read_value_image[OF assms(1) len, of "pb_number f" "length pre" rest,
      folded s2]
  have "pb_number f \<noteq> 0"
    using assms(1) by (simp add: wf_field_def)
  then have "read_field (pb_at data (length pre)) =
      (Inr f, pb_at data (length (pre @ tag_image f) + length (value_image (pb_value f))))"
    unfolding read_field_def
    using 1 2 small by (simp add: pb_at_def tag again Let_def bindM_def)
  then show ?thesis
    by (simp add: data_def field_image_eq add.assoc)
qed

lemma field_image_nonempty: "field_image f \<noteq> []"
  by (simp add: field_image_eq tag_image_def varint_bytes_simps)

lemma fields_next_image:
  assumes "wf_field f" and "length (pre @ field_image f) < 2 ^ 64"
  shows "fields_next (pb_at (pre @ field_image f @ rest) (length pre)) =
    (Some (Inr f), pb_at (pre @ field_image f @ rest) (length (pre @ field_image f)))"
  using read_field_image[OF assms, of rest] field_image_nonempty[of f]
  by (simp add: fields_next_def) (simp add: pb_at_def)

lemma collect_images:
  assumes "\<forall>f \<in> set fs. wf_field f" and "length (pre @ concat (map field_image fs)) < 2 ^ 64"
  shows "collect_fields (pb_at (pre @ concat (map field_image fs)) (length pre)) = Inr fs"
  using assms
proof (induction fs arbitrary: pre)
  case Nil
  then show ?case
    by (simp add: collect_fields.simps fields_next_def pb_at_def)
next
  case (Cons f fs)
  have "fields_next (pb_at (pre @ field_image f @ concat (map field_image fs)) (length pre)) =
    (Some (Inr f), pb_at (pre @ field_image f @ concat (map field_image fs)) (length (pre @ field_image f)))"
    using Cons.prems by (intro fields_next_image) auto
  then show ?case
    using Cons.IH[of "pre @ field_image f"] Cons.prems by (subst collect_fields.simps) simp
qed

lemma collect_message:
  assumes "\<forall>f \<in> set fs. wf_field f" and "length (message_fields fs) < 2 ^ 64"
  shows "collect_fields (fields_of (message_fields fs)) = Inr fs"
  using collect_images[OF assms(1), of "[]"] assms(2)
  by (simp add: message_fields_concat fields_of_def pb_at_def)

lemma collect_flatten: "collect_fields s = Inr fs \<Longrightarrow> flatten_fields s = fs"
proof (induction s arbitrary: fs rule: collect_fields.induct)
  case (1 s)
  obtain item s' where nx: "fields_next s = (item, s')" by (cases "fields_next s")
  show ?case
  proof (cases item)
    case None
    then show ?thesis
      using "1.prems" nx by (simp add: collect_fields.simps[of s] flatten_fields.simps[of s])
  next
    case (Some r)
    then obtain f where f: "r = Inr f"
      using "1.prems" nx by (cases r) (simp_all add: collect_fields.simps[of s])
    then obtain rest where "collect_fields s' = Inr rest" "fs = f # rest"
      using "1.prems" nx Some by (auto simp: collect_fields.simps[of s] rbind_Inr_iff)
    then show ?thesis
      using "1.IH"[OF nx[symmetric] Some f] nx Some f by (simp add: flatten_fields.simps[of s])
  qed
qed

section \<open>More data does not change what was read\<close>

definition stable :: "(pb_fields, 'a) op \<Rightarrow> bool" where
  "stable m \<longleftrightarrow> (\<forall>d p x s more_data. p \<le> length d \<and> m (pb_at d p) = (Inr x, s) \<longrightarrow>
     (\<exists>q. s = pb_at d q \<and> q \<le> length d \<and> m (pb_at (d @ more_data) p) = (Inr x, pb_at (d @ more_data) q)))"

lemma stable_bind:
  assumes "stable m" and "\<And>x. stable (f x)"
  shows "stable (bindM m f)"
  unfolding stable_def
proof (intro allI impI, elim conjE)
  fix d p y s and more_data :: bytes
  assume p: "p \<le> length d" and run: "bindM m f (pb_at d p) = (Inr y, s)"
  then obtain x s1 where 1: "m (pb_at d p) = (Inr x, s1)" and 2: "f x s1 = (Inr y, s)"
    by (auto simp: bindM_Inr_iff)
  obtain q where q: "s1 = pb_at d q" "q \<le> length d" "m (pb_at (d @ more_data) p) = (Inr x, pb_at (d @ more_data) q)"
    using assms(1) p 1 unfolding stable_def by blast
  obtain q' where "s = pb_at d q'" "q' \<le> length d" "f x (pb_at (d @ more_data) q) = (Inr y, pb_at (d @ more_data) q')"
    using assms(2)[of x] q(2) 2[unfolded q(1)] unfolding stable_def by blast
  then show "\<exists>q. s = pb_at d q \<and> q \<le> length d \<and> bindM m f (pb_at (d @ more_data) p) = (Inr y, pb_at (d @ more_data) q)"
    using q(3) by auto
qed

lemma stable_ret: "stable (ret x)"
  by (auto simp: stable_def)

lemma stable_error: "stable (protobuf_error e)"
  by (simp add: stable_def)

lemma stable_offset: "stable (getsM pb_offset)"
  by (auto simp: stable_def pb_at_def)

lemma stable_byte: "stable pb_byte"
  by (auto simp: stable_def pb_byte_def pb_at_def get_at_def nth_append split: if_splits)

lemma stable_loop: "stable (varint_loop shifts val)"
proof (induction shifts arbitrary: val)
  case (Cons shift shifts)
  then show ?case
    by (auto simp: Let_def intro!: stable_bind stable_byte stable_error stable_ret simp del: ret_apply fail_apply)
qed (simp add: stable_error del: fail_apply)

lemma stable_varint: "stable read_varint"
  unfolding read_varint_def by (rule stable_loop)

lemma stable_array: "stable (read_array n number)"
  by (auto simp: stable_def read_array_def pb_at_def get_slice_def slice_of_def split: option.splits if_splits)

lemma stable_delimited: "stable (read_length_delimited number)"
  unfolding read_length_delimited_def
  by (rule stable_bind[OF stable_varint])
    (auto simp: stable_def pb_at_def checked_add64_def slice_of_def split: option.splits if_splits)

lemma stable_value: "stable (read_value wt number start)"
  unfolding read_value_def
  by (auto intro!: stable_bind stable_varint stable_array stable_delimited stable_ret stable_error
      simp del: ret_apply fail_apply)

lemma stable_field: "stable read_field"
  unfolding read_field_def Let_def
  by (intro stable_bind stable_offset stable_varint)
    (auto intro!: stable_bind stable_value stable_ret stable_error simp del: ret_apply fail_apply)

text \<open>A field cut short is an error.\<close>

lemma read_field_cut:
  assumes "wf_field f" and "length (pre @ field_image f) < 2 ^ 64" and "k < length (field_image f)"
  shows "\<exists>e s. read_field (pb_at (pre @ take k (field_image f)) (length pre)) = (Inl e, s)"
proof (rule ccontr)
  assume "\<not> ?thesis"
  then obtain x s where run: "read_field (pb_at (pre @ take k (field_image f)) (length pre)) = (Inr x, s)"
    by (metis prod.collapse sum.exhaust)
  let ?d = "pre @ take k (field_image f)"
  have "length pre \<le> length ?d" by simp
  then obtain q where q: "q \<le> length ?d"
      "read_field (pb_at (?d @ drop k (field_image f)) (length pre)) = (Inr x, pb_at (?d @ drop k (field_image f)) q)"
    using stable_field run unfolding stable_def by blast
  moreover have "?d @ drop k (field_image f) = pre @ field_image f @ []" by simp
  ultimately have "q = length pre + length (field_image f)"
    using read_field_image[OF assms(1,2), of "[]"] by (simp add: pb_at_def)
  then show False
    using q(1) assms(3) by simp
qed

lemma collect_cut:
  assumes "\<forall>f \<in> set fs. wf_field f" and "wf_field f" and "length (concat (map field_image fs) @ field_image f) < 2 ^ 64"
    and "0 < k" and "k < length (field_image f)"
  shows "\<exists>e. collect_fields (fields_of (message_fields fs @ take k (field_image f))) = Inl e"
proof -
  have "\<exists>e. collect_fields (pb_at (pre @ concat (map field_image fs) @ take k (field_image f)) (length pre)) = Inl e"
    if "length (pre @ concat (map field_image fs) @ field_image f) < 2 ^ 64" "\<forall>f \<in> set fs. wf_field f" for pre
    using that
  proof (induction fs arbitrary: pre)
    case Nil
    obtain e s where "read_field (pb_at (pre @ take k (field_image f)) (length pre)) = (Inl e, s)"
      using read_field_cut[OF assms(2) _ assms(5), of pre] Nil by auto
    moreover have "\<not> length (pre @ take k (field_image f)) \<le> length pre"
      using assms(4,5) by simp
    ultimately show ?case
      by (subst collect_fields.simps) (simp add: fields_next_def pb_at_def)
  next
    case (Cons g fs)
    have "fields_next (pb_at (pre @ field_image g @ concat (map field_image fs) @ take k (field_image f)) (length pre)) =
      (Some (Inr g), pb_at (pre @ field_image g @ concat (map field_image fs) @ take k (field_image f)) (length (pre @ field_image g)))"
      using Cons.prems by (intro fields_next_image) auto
    moreover obtain e where "collect_fields (pb_at ((pre @ field_image g) @ concat (map field_image fs) @ take k (field_image f)) (length (pre @ field_image g))) = Inl e"
      using Cons.IH[of "pre @ field_image g"] Cons.prems by auto
    ultimately show ?case
      by (subst collect_fields.simps) simp
  qed
  from this[of "[]"] show ?thesis
    using assms(1,3) by (simp add: message_fields_concat fields_of_def pb_at_def)
qed

section \<open>What was read is well-formed\<close>

lemma read_field_wf:
  assumes "read_field s = (Inr f, s')" and "length (pb_data s) < 2 ^ 63"
  shows "wf_field f"
proof -
  have "length d < 2 ^ 63" if "read_length_delimited n t = (Inr d, t')" "pb_data t = pb_data s" for n t t' d
    using that assms(2)
    by (auto simp: read_length_delimited_def bindM_Inr_iff slice_of_def dest!: read_varint_walks split: option.splits)
      (auto simp: walks_def)
  then show ?thesis
    using assms(1)
    by (auto simp: read_field_def read_value_def bindM_Inr_iff Let_def wf_field_def split: if_splits dest!: read_varint_walks)
      (auto simp: walks_def)
qed

lemma collect_wf:
  "collect_fields s = Inr fs \<Longrightarrow> length (pb_data s) < 2 ^ 63 \<Longrightarrow> f \<in> set fs \<Longrightarrow> wf_field f"
proof (induction s arbitrary: fs rule: collect_fields.induct)
  case (1 s)
  obtain item s' where nx: "fields_next s = (item, s')" by (cases "fields_next s")
  show ?case
  proof (cases item)
    case None
    then show ?thesis
      using "1.prems" nx by (simp add: collect_fields.simps[of s])
  next
    case (Some r)
    then obtain g where g: "r = Inr g"
      using "1.prems" nx by (cases r) (simp_all add: collect_fields.simps[of s])
    then obtain rest where rest: "collect_fields s' = Inr rest" "fs = g # rest"
      using "1.prems" nx Some by (auto simp: collect_fields.simps[of s] rbind_Inr_iff)
    have item: "fields_next s = (Some (Inr g), s')"
      using nx Some g by simp
    then have "pb_data s' = pb_data s" and "read_field s = (Inr g, s')"
      using fields_next_progress(1)[OF item]
      by (auto simp: walks_def fields_next_def split: if_splits prod.splits sum.splits)
    then show ?thesis
      using "1.IH"[OF nx[symmetric] Some g rest(1)] "1.prems" rest(2) read_field_wf[of s g s'] by auto
  qed
qed

end
