(* ===== verification/Io_Stream.thy ===== *)
theory Io_Stream
  imports Byte_Order
begin

text \<open>
  The byte stream the frame readers and writers of the program work on: what they use of
  the standard library's \<open>Read\<close> and \<open>Write\<close>.  A stream is the list of events its peer and the
  operating system have in store for the reader, the bytes written so far, and the number
  of bytes the peer still takes before a write fails.  An exhausted list is the end of the
  stream.  A peer that keeps the connection open and sends nothing leaves the reader in a read
  that stays blocked: it is the event \<open>Silence\<close>, and the read has the error \<open>NoReturn\<close>, which is
  no value of the program and which nothing handles.
\<close>

section \<open>Reading and writing\<close>

datatype read_event = Arrived bytes | Interruption | ReadFailed io_reason | Silence

record wire_stream =
  incoming :: "read_event list"
  outgoing :: bytes
  room :: "nat option"
  flush_fails :: bool

text \<open>\<open>Read::read\<close> into a buffer of \<open>n\<close> bytes; \<open>Ok(0)\<close> is the end of the stream.\<close>

fun stream_read :: "nat \<Rightarrow> (wire_stream, bytes) op" where
  "stream_read n s =
     (case incoming s of
        [] \<Rightarrow> (Inr [], s)
      | Arrived bs # es \<Rightarrow>
          (Inr (take n bs), s\<lparr>incoming := (if length bs \<le> n then es else Arrived (drop n bs) # es)\<rparr>)
      | Interruption # es \<Rightarrow> (Inl (Io Interrupted), s\<lparr>incoming := es\<rparr>)
      | ReadFailed e # es \<Rightarrow> (Inl (Io e), s\<lparr>incoming := es\<rparr>)
      | Silence # es \<Rightarrow> (Inl NoReturn, s\<lparr>incoming := es\<rparr>))"

text \<open>\<open>Read::read_exact\<close> goes on after an interruption.\<close>

function read_exact :: "nat \<Rightarrow> (wire_stream, bytes) op" where
  "read_exact n s =
     (if n = 0 then (Inr [], s)
      else case stream_read n s of
        (Inr [], s') \<Rightarrow> (Inl (Io UnexpectedEof), s')
      | (Inr (b # bs), s') \<Rightarrow>
          (case read_exact (n - length (b # bs)) s' of
             (Inr rest, s'') \<Rightarrow> (Inr (b # bs @ rest), s'')
           | (Inl e, s'') \<Rightarrow> (Inl e, s''))
      | (Inl e, s') \<Rightarrow> if e = Io Interrupted then read_exact n s' else (Inl e, s'))"
  by pat_completeness auto
termination
  by (relation "measures [fst, \<lambda>(n, s). length (incoming s)]")
    (auto simp: stream_read.simps split: list.splits read_event.splits if_splits)

declare read_exact.simps [simp del] stream_read.simps [simp del]

text \<open>\<open>Write::write_all\<close> and \<open>Write::flush\<close>.\<close>

definition write_all :: "bytes \<Rightarrow> (wire_stream, unit) op" where
  "write_all bs s =
     (case room s of
        None \<Rightarrow> (Inr (), s\<lparr>outgoing := outgoing s @ bs\<rparr>)
      | Some k \<Rightarrow>
          if length bs \<le> k
          then (Inr (), s\<lparr>outgoing := outgoing s @ bs, room := Some (k - length bs)\<rparr>)
          else (Inl (Io (OtherIo 0)), s\<lparr>outgoing := outgoing s @ take k bs, room := Some 0\<rparr>))"

definition flush :: "(wire_stream, unit) op" where
  "flush s = (if flush_fails s then Inl (Io (OtherIo 0)) else Inr (), s)"

section \<open>What a stream delivers\<close>

text \<open>
  The bytes a reader gets when nothing fails, however they are cut into chunks.  A stream
  is quiet when no read of it fails; interruptions are allowed where the reader goes on
  after them.
\<close>

fun event_bytes :: "read_event \<Rightarrow> bytes" where
  "event_bytes (Arrived bs) = bs"
| "event_bytes _ = []"

definition pending :: "wire_stream \<Rightarrow> bytes" where
  "pending s = concat (map event_bytes (incoming s))"

fun quiet_event :: "read_event \<Rightarrow> bool" where
  "quiet_event (Arrived bs) = (bs \<noteq> [])"
| "quiet_event Interruption = True"
| "quiet_event (ReadFailed _) = False"
| "quiet_event Silence = False"

definition quiet :: "wire_stream \<Rightarrow> bool" where
  "quiet s \<longleftrightarrow> list_all quiet_event (incoming s)"

definition steady :: "wire_stream \<Rightarrow> bool" where
  "steady s \<longleftrightarrow> quiet s \<and> Interruption \<notin> set (incoming s)"

lemma steady_quiet [simp]: "steady s \<Longrightarrow> quiet s"
  by (simp add: steady_def)

text \<open>Reading leaves the writing side alone.\<close>

definition same_writer :: "wire_stream \<Rightarrow> wire_stream \<Rightarrow> bool" where
  "same_writer s s' \<longleftrightarrow> outgoing s' = outgoing s \<and> room s' = room s \<and> flush_fails s' = flush_fails s"

lemma same_writer_refl [simp]: "same_writer s s"
  by (simp add: same_writer_def)

lemma same_writer_trans: "same_writer a b \<Longrightarrow> same_writer b c \<Longrightarrow> same_writer a c"
  by (simp add: same_writer_def)

lemma stream_read_steady:
  assumes "steady s" and "pending s \<noteq> []" and "0 < n"
  obtains bs s' where "stream_read n s = (Inr bs, s')" and "bs \<noteq> []" and "pending s = bs @ pending s'"
    and "steady s'" and "same_writer s s'" and "length bs \<le> n"
proof -
  obtain ev es where ev: "incoming s = ev # es"
    using assms(2) by (cases "incoming s") (simp_all add: pending_def)
  obtain bs where "ev = Arrived bs" "bs \<noteq> []"
    using assms(1) ev by (cases ev) (simp_all add: steady_def quiet_def)
  then show ?thesis
    using assms ev
    by (intro that[of "take n bs" "s\<lparr>incoming := (if length bs \<le> n then es else Arrived (drop n bs) # es)\<rparr>"])
      (auto simp: stream_read.simps pending_def steady_def quiet_def same_writer_def)
qed

lemma read_exact_quiet:
  assumes "quiet s" and "n \<le> length (pending s)"
  shows "\<exists>s'. read_exact n s = (Inr (take n (pending s)), s') \<and> pending s' = drop n (pending s)
    \<and> quiet s' \<and> same_writer s s'"
  using assms
proof (induction n s rule: read_exact.induct)
  case (1 n s)
  show ?case
  proof (cases "n = 0")
    case True
    then show ?thesis
      using 1 by (simp add: read_exact.simps)
  next
    case False
    then obtain ev es where ev: "incoming s = ev # es"
      using "1.prems" by (cases "incoming s") (simp_all add: pending_def)
    have "quiet (s\<lparr>incoming := es\<rparr>)" and "quiet_event ev"
      using "1.prems" ev by (simp_all add: quiet_def)
    show ?thesis
    proof (cases ev)
      case Interruption
      let ?s' = "s\<lparr>incoming := es\<rparr>"
      have p: "pending ?s' = pending s"
        using ev Interruption by (simp add: pending_def)
      have read: "stream_read n s = (Inl (Io Interrupted), ?s')"
        using ev Interruption by (simp add: stream_read.simps)
      have "n \<le> length (pending ?s')"
        using p "1.prems" by simp
      from "1.IH"(1)[OF False read[symmetric] refl refl \<open>quiet ?s'\<close> this]
      show ?thesis
        using False read p by (subst (asm) same_writer_def, subst read_exact.simps) (simp add: same_writer_def)
    next
      case (Arrived bs)
      let ?s' = "s\<lparr>incoming := (if length bs \<le> n then es else Arrived (drop n bs) # es)\<rparr>"
      obtain b tl where tl: "take n bs = b # tl"
        using Arrived \<open>quiet_event ev\<close> False by (cases n; cases bs) simp_all
      have read: "stream_read n s = (Inr (b # tl), ?s')"
        using ev Arrived tl by (simp add: stream_read.simps)
      have p: "pending s = take n bs @ pending ?s'"
        using ev Arrived by (simp add: pending_def)
      have q: "quiet ?s'"
        using \<open>quiet (s\<lparr>incoming := es\<rparr>)\<close> by (simp add: quiet_def)
      have len: "length (b # tl) \<le> n"
        unfolding tl[symmetric] by simp
      have "n - length (b # tl) \<le> length (pending ?s')"
        using "1.prems"(2) unfolding p tl by simp
      from "1.IH"(2)[OF False read[symmetric] refl refl q this]
      obtain s'' where s'': "read_exact (n - length (b # tl)) ?s' = (Inr (take (n - length (b # tl)) (pending ?s')), s'')"
          "pending s'' = drop (n - length (b # tl)) (pending ?s')" "quiet s''" "same_writer ?s' s''"
        by blast
      have "read_exact n s = (Inr (b # tl @ take (n - length (b # tl)) (pending ?s')), s'')"
        using False read s''(1) by (subst read_exact.simps) simp
      moreover have "b # tl @ take (n - length (b # tl)) (pending ?s') = take n (pending s)"
        unfolding p tl take_append[of n "b # tl"] take_all[OF len] by simp
      moreover have "pending s'' = drop n (pending s)"
        unfolding p tl s''(2) drop_append[of n "b # tl"] drop_all[OF len] by simp
      ultimately show ?thesis
        using s''(3,4) by (auto simp: same_writer_def)
    qed (use \<open>quiet_event ev\<close> in simp_all)
  qed
qed

lemma read_exact_short:
  assumes "quiet s" and "length (pending s) < n"
  shows "\<exists>s'. read_exact n s = (Inl (Io UnexpectedEof), s')"
  using assms
proof (induction n s rule: read_exact.induct)
  case (1 n s)
  have n: "n \<noteq> 0" using "1.prems" by simp
  show ?case
  proof (cases "incoming s")
    case Nil
    then show ?thesis
      using n by (subst read_exact.simps) (simp add: stream_read.simps)
  next
    case (Cons ev es)
    have "quiet (s\<lparr>incoming := es\<rparr>)" and "quiet_event ev"
      using "1.prems" Cons by (simp_all add: quiet_def)
    show ?thesis
    proof (cases ev)
      case Interruption
      let ?s' = "s\<lparr>incoming := es\<rparr>"
      have read: "stream_read n s = (Inl (Io Interrupted), ?s')"
        using Cons Interruption by (simp add: stream_read.simps)
      have "length (pending ?s') < n"
        using Cons Interruption "1.prems" by (simp add: pending_def)
      from "1.IH"(1)[OF n read[symmetric] refl refl \<open>quiet ?s'\<close> this]
      show ?thesis
        using n read by (subst read_exact.simps) simp
    next
      case (Arrived bs)
      let ?s' = "s\<lparr>incoming := (if length bs \<le> n then es else Arrived (drop n bs) # es)\<rparr>"
      obtain b tl where tl: "take n bs = b # tl"
        using Arrived \<open>quiet_event ev\<close> n by (cases n; cases bs) simp_all
      have read: "stream_read n s = (Inr (b # tl), ?s')"
        using Cons Arrived tl by (simp add: stream_read.simps)
      have p: "pending s = take n bs @ pending ?s'"
        using Cons Arrived by (simp add: pending_def)
      have q: "quiet ?s'"
        using \<open>quiet (s\<lparr>incoming := es\<rparr>)\<close> by (simp add: quiet_def)
      have "length (pending ?s') < n - length (b # tl)"
        using "1.prems"(2) unfolding p tl by simp
      from "1.IH"(2)[OF n read[symmetric] refl refl q this]
      show ?thesis
        using n read by (subst read_exact.simps) auto
    qed (use \<open>quiet_event ev\<close> in simp_all)
  qed
qed

text \<open>Every read that does not find the end of the stream makes progress.\<close>

lemma stream_read_shrinks:
  assumes "stream_read n s = (Inr (b # bs), s')"
  shows "length (incoming s') + length (pending s') < length (incoming s) + length (pending s)"
proof -
  obtain ev es where ev: "incoming s = ev # es"
    using assms by (cases "incoming s") (simp_all add: stream_read.simps)
  obtain cs where cs: "ev = Arrived cs"
    using assms ev by (cases ev) (simp_all add: stream_read.simps)
  have take: "take n cs = b # bs" and s': "s' = s\<lparr>incoming := (if length cs \<le> n then es else Arrived (drop n cs) # es)\<rparr>"
    using assms ev cs by (simp_all add: stream_read.simps)
  have "0 < n" and "cs \<noteq> []"
    using take by (cases cs; cases n; simp)+
  then show ?thesis
    using ev cs by (auto simp: s' pending_def)
qed

lemma stream_read_error_shrinks:
  assumes "stream_read n s = (Inl e, s')"
  shows "length (incoming s') + length (pending s') < length (incoming s) + length (pending s)"
  using assms by (auto simp: stream_read.simps pending_def split: list.splits read_event.splits)

text \<open>A read that returns takes the events in order; on a stream without silence every read returns.\<close>

lemma stream_read_events: "stream_read n s = (v, s') \<Longrightarrow> Silence \<in> set (incoming s') \<Longrightarrow> Silence \<in> set (incoming s)"
  by (auto simp: stream_read.simps split: list.split_asm read_event.split_asm if_split_asm)

lemma stream_read_blocks: "stream_read n s = (Inl NoReturn, s') \<Longrightarrow> Silence \<in> set (incoming s)"
  by (auto simp: stream_read.simps split: list.split_asm read_event.split_asm)

section \<open>Packets read one after the other\<close>

text \<open>
  The contract of a packet reader: it takes exactly one packet's bytes off a quiet stream.
  It follows that a whole sequence of packets is read back in order, however the
  bytes were chunked.
\<close>

locale packet_stream =
  fixes read_packet :: "(wire_stream, 'a) op"
    and packet_image :: "'p \<Rightarrow> bytes"
    and got :: "'p \<Rightarrow> 'a"
    and good :: "'p \<Rightarrow> bool"
  assumes read_image: "good p \<Longrightarrow> quiet s \<Longrightarrow> pending s = packet_image p @ rest \<Longrightarrow>
      \<exists>s'. read_packet s = (Inr (got p), s') \<and> pending s' = rest \<and> quiet s' \<and> same_writer s s'"
begin

lemma read_all:
  "\<forall>p \<in> set ps. good p \<Longrightarrow> quiet s \<Longrightarrow> pending s = concat (map packet_image ps) @ rest \<Longrightarrow>
    \<exists>s'. forM ps (\<lambda>_. read_packet) s = (Inr (map got ps), s') \<and> pending s' = rest \<and> quiet s' \<and> same_writer s s'"
proof (induction ps arbitrary: s)
  case (Cons p ps)
  obtain s1 where s1: "read_packet s = (Inr (got p), s1)" "pending s1 = concat (map packet_image ps) @ rest"
      "quiet s1" "same_writer s s1"
    using read_image[of p s "concat (map packet_image ps) @ rest"] Cons.prems by auto
  obtain s2 where s2: "forM ps (\<lambda>_. read_packet) s1 = (Inr (map got ps), s2)" "pending s2 = rest" "quiet s2" "same_writer s1 s2"
    using Cons.IH[of s1] Cons.prems(1) s1 by auto
  have "forM (p # ps) (\<lambda>_. read_packet) s = (Inr (map got (p # ps)), s2)"
    using s1(1) s2(1) by simp
  then show ?case
    using s2 same_writer_trans[OF s1(4) s2(4)] by blast
qed simp

end

end
