(* ===== verification/Framing_Stream.thy ===== *)
theory Framing_Stream
  imports Io_Stream
begin

text \<open>
  The buffered frame reader of \<open>core/src/platform/wire/frames.rs\<close> (\<open>Framing\<close>), separated from
  the frame format it reads: the loop of \<open>receive\<close> over any frame decoder, and the contract
  under which its outcome depends on the bytes that arrive and not on how they were chunked.
\<close>

section \<open>The loop\<close>

record framing =
  stream :: wire_stream
  fbuffer :: bytes

abbreviation READ_CHUNK :: nat where "READ_CHUNK \<equiv> 65536"

definition framing_new :: "wire_stream \<Rightarrow> framing" where
  "framing_new s = \<lparr>stream = s, fbuffer = []\<rparr>"

function receive_with :: "(bytes \<Rightarrow> ('f \<times> nat) option result) \<Rightarrow> (framing, 'f) op" where
  "receive_with dec s =
     (case dec (fbuffer s) of
        Inl e \<Rightarrow> (Inl e, s)
      | Inr (Some (f, consumed)) \<Rightarrow>
          if consumed \<le> length (fbuffer s) then (Inr f, s\<lparr>fbuffer := drop consumed (fbuffer s)\<rparr>)
          else (Inl (Panic SliceOutOfBounds), s)
      | Inr None \<Rightarrow>
          (case stream_read READ_CHUNK (stream s) of
             (Inr [], st) \<Rightarrow> (Inl (Transport ServerClosed), s\<lparr>stream := st\<rparr>)
           | (Inr (b # bs), st) \<Rightarrow> receive_with dec (s\<lparr>stream := st, fbuffer := fbuffer s @ b # bs\<rparr>)
           | (Inl e, st) \<Rightarrow> (Inl e, s\<lparr>stream := st\<rparr>)))"
  by pat_completeness auto
termination
  by (relation "measure (\<lambda>(dec, s). length (incoming (stream s)) + length (pending (stream s)))")
    (auto dest: stream_read_shrinks[OF sym])

declare receive_with.simps [simp del]

text \<open>A stream on which every read returns keeps the loop from staying blocked.\<close>

lemma receive_with_returns:
  assumes "receive_with dec s = (v, s')" and "Silence \<notin> set (incoming (stream s))" and "\<And>bs. dec bs \<noteq> Inl NoReturn"
  shows "v \<noteq> Inl NoReturn \<and> Silence \<notin> set (incoming (stream s'))"
  using assms
proof (induction dec s rule: receive_with.induct)
  case (1 dec s)
  show ?case
  proof (cases "dec (fbuffer s) = Inr None")
    case False
    then show ?thesis
      using "1.prems"(1,2) "1.prems"(3)[of "fbuffer s"]
      by (auto simp: receive_with.simps[of dec s] split: sum.split_asm option.split_asm prod.split_asm if_split_asm)
  next
    case True
    obtain r st where read: "stream_read READ_CHUNK (stream s) = (r, st)"
      by fastforce
    have quiet: "Silence \<notin> set (incoming st)" and returns: "r \<noteq> Inl NoReturn"
      using stream_read_events[OF read] stream_read_blocks[of READ_CHUNK "stream s" st] read "1.prems"(2) by auto
    show ?thesis
    proof (cases "\<exists>b bs. r = Inr (b # bs)")
      case more: True
      then obtain b bs where r: "r = Inr (b # bs)" by blast
      let ?s = "s\<lparr>stream := st, fbuffer := fbuffer s @ b # bs\<rparr>"
      have "receive_with dec ?s = (v, s')"
        using "1.prems"(1) True read r by (simp add: receive_with.simps[of dec s])
      from "1.IH"[OF True refl read[symmetric] r refl this _ "1.prems"(3)] show ?thesis
        using quiet by simp
    next
      case False
      then show ?thesis
        using "1.prems"(1) True read quiet returns
        by (auto simp: receive_with.simps[of dec s] split: sum.split_asm list.split_asm)
    qed
  qed
qed

text \<open>What the reader holds and is still to get.\<close>

definition ahead :: "framing \<Rightarrow> bytes" where
  "ahead s = fbuffer s @ pending (stream s)"

section \<open>The contract of a frame decoder\<close>

text \<open>
  A decoder that answers at all keeps its answer when more bytes follow, and it never takes
  more than it was given.  Then every chunking of the same bytes has the same outcome.
\<close>

locale frame_decoder =
  fixes dec :: "bytes \<Rightarrow> ('f \<times> nat) option result"
  assumes settled: "dec data \<noteq> Inr None \<Longrightarrow> dec (data @ more_data) = dec data"
    and consumes: "dec data = Inr (Some (f, n)) \<Longrightarrow> n \<le> length data"
begin

lemma receive_outcome:
  assumes "steady (stream s)"
  shows "(case dec (ahead s) of
      Inr None \<Rightarrow> \<exists>s'. receive_with dec s = (Inl (Transport ServerClosed), s')
    | Inl e \<Rightarrow> \<exists>s'. receive_with dec s = (Inl e, s')
    | Inr (Some (f, n)) \<Rightarrow> \<exists>s'. receive_with dec s = (Inr f, s') \<and> ahead s' = drop n (ahead s)
        \<and> steady (stream s') \<and> same_writer (stream s) (stream s'))"
  using assms
proof (induction "length (incoming (stream s)) + length (pending (stream s))" arbitrary: s rule: less_induct)
  case less
  show ?case
  proof (cases "dec (fbuffer s) = Inr None")
    case False
    then have all: "dec (ahead s) = dec (fbuffer s)"
      by (simp add: ahead_def settled)
    show ?thesis
    proof (cases "dec (fbuffer s)")
      case (Inl e)
      then show ?thesis
        by (simp add: all) (simp add: receive_with.simps)
    next
      case (Inr r)
      then obtain f n where r: "dec (fbuffer s) = Inr (Some (f, n))"
        using False by (cases r) auto
      then show ?thesis
        using consumes[OF r] less.prems unfolding all
        by (simp add: receive_with.simps[of dec s]) (simp add: ahead_def)
    qed
  next
    case True
    show ?thesis
    proof (cases "pending (stream s) = []")
      case empty: True
      then have "incoming (stream s) = []"
        using less.prems
        by (cases "incoming (stream s)"; cases "hd (incoming (stream s))")
          (auto simp: pending_def steady_def quiet_def)
      then have "stream_read READ_CHUNK (stream s) = (Inr [], stream s)"
        by (simp add: stream_read.simps)
      then show ?thesis
        using True empty by (simp add: ahead_def receive_with.simps[of dec s])
    next
      case False
      obtain bs st where st: "stream_read READ_CHUNK (stream s) = (Inr bs, st)" "bs \<noteq> []"
          "pending (stream s) = bs @ pending st" "steady st" "same_writer (stream s) st"
        by (rule stream_read_steady[OF less.prems False, of READ_CHUNK]) simp
      define s1 where "s1 = s\<lparr>stream := st, fbuffer := fbuffer s @ bs\<rparr>"
      obtain b tl where bs: "bs = b # tl"
        using st(2) by (cases bs) auto
      have step: "receive_with dec s = receive_with dec s1"
        using True st(1) bs by (subst receive_with.simps) (simp add: s1_def)
      have same: "ahead s1 = ahead s"
        using st(3) by (simp add: ahead_def s1_def)
      have "length (incoming (stream s1)) + length (pending (stream s1))
          < length (incoming (stream s)) + length (pending (stream s))"
        using stream_read_shrinks[OF st(1)[unfolded bs]] by (simp add: s1_def)
      note ih = less.hyps[OF this]
      have writer: "same_writer (stream s) (stream s1)" and "steady (stream s1)"
        using st(4,5) by (simp_all add: s1_def)
      from ih[OF this(2)] show ?thesis
        unfolding step same
        by (auto split: sum.splits option.splits intro: same_writer_trans[OF writer])
    qed
  qed
qed

end

text \<open>
  A format: packets (a frame and the choices the sender has for it) with an image that the
  decoder reads back as the frame.
\<close>

locale frame_format = frame_decoder dec for dec :: "bytes \<Rightarrow> ('f \<times> nat) option result" +
  fixes image_of :: "'p \<Rightarrow> bytes" and meant :: "'p \<Rightarrow> 'f" and good :: "'p \<Rightarrow> bool"
  assumes complete: "good p \<Longrightarrow> dec (image_of p) = Inr (Some (meant p, length (image_of p)))"
begin

lemma complete_more: "good p \<Longrightarrow> dec (image_of p @ rest) = Inr (Some (meant p, length (image_of p)))"
  using settled[of "image_of p" rest] complete[of p] by simp

lemma partial:
  assumes "good p" and "k < length (image_of p)"
  shows "dec (take k (image_of p)) = Inr None"
proof (rule ccontr)
  assume *: "dec (take k (image_of p)) \<noteq> Inr None"
  then have "dec (take k (image_of p)) = Inr (Some (meant p, length (image_of p)))"
    using settled[OF *, of "drop k (image_of p)"] complete[OF assms(1)] by simp
  from consumes[OF this] show False
    using assms(2) by simp
qed

lemma receive_frames:
  "\<forall>p \<in> set ps. good p \<Longrightarrow> steady (stream s) \<Longrightarrow> ahead s = concat (map image_of ps) @ rest \<Longrightarrow>
    \<exists>s'. forM ps (\<lambda>_. receive_with dec) s = (Inr (map meant ps), s') \<and> ahead s' = rest \<and> steady (stream s')"
proof (induction ps arbitrary: s)
  case (Cons p ps)
  have "dec (ahead s) = Inr (Some (meant p, length (image_of p)))"
    using complete_more[of p] Cons.prems by simp
  then obtain s1 where s1: "receive_with dec s = (Inr (meant p), s1)" "ahead s1 = concat (map image_of ps) @ rest" "steady (stream s1)"
    using receive_outcome[OF Cons.prems(2)] Cons.prems(3) by auto
  obtain s2 where "forM ps (\<lambda>_. receive_with dec) s1 = (Inr (map meant ps), s2)" "ahead s2 = rest" "steady (stream s2)"
    using Cons.IH[of s1] Cons.prems(1) s1 by auto
  then show ?case
    using s1(1) by auto
qed simp

end

end
