(* ===== verification/Ws_Frames.thy ===== *)
theory Ws_Frames
  imports Framing_Stream
begin

text \<open>
  The WebSocket frames of \<open>core/src/platform/wire/frames.rs\<close>: encoding, decoding, and the
  sends of \<open>Framing\<close>.  The random masking key of the control frames is a parameter.
\<close>

section \<open>Frames\<close>

record frame =
  fin :: bool
  opcode :: u8
  payload :: bytes

abbreviation FIN :: u8 where "FIN \<equiv> 0x80"
abbreviation MASKED :: u8 where "MASKED \<equiv> 0x80"
abbreviation RESERVED :: u8 where "RESERVED \<equiv> 0x70"
abbreviation OPCODE :: u8 where "OPCODE \<equiv> 0x0F"
abbreviation LENGTH_BITS :: u8 where "LENGTH_BITS \<equiv> 0x7F"
abbreviation LENGTH_16 :: u8 where "LENGTH_16 \<equiv> 0x7E"
abbreviation LENGTH_64 :: u8 where "LENGTH_64 \<equiv> 0x7F"
abbreviation MAX_CONTROL_PAYLOAD :: nat where "MAX_CONTROL_PAYLOAD \<equiv> 125"

abbreviation OP_TEXT :: u8 where "OP_TEXT \<equiv> 1"
abbreviation OP_BINARY :: u8 where "OP_BINARY \<equiv> 2"
abbreviation OP_CLOSE :: u8 where "OP_CLOSE \<equiv> 8"
abbreviation OP_PING :: u8 where "OP_PING \<equiv> 9"
abbreviation OP_PONG :: u8 where "OP_PONG \<equiv> 10"

text \<open>\<open>payload.iter().enumerate().map(|(index, byte)| byte ^ key[index & 3])\<close>\<close>

definition xor_key :: "bytes \<Rightarrow> bytes \<Rightarrow> bytes" where
  "xor_key key bs = map (\<lambda>(index, byte). byte XOR key ! (index AND 3)) (enumerate 0 bs)"

definition encode_length :: "nat \<Rightarrow> bytes" where
  "encode_length n =
     (if n < unat LENGTH_16 then [MASKED OR of_nat n]
      else if n < 2 ^ 16 then (MASKED OR LENGTH_16) # to_be 2 n
      else (MASKED OR LENGTH_64) # to_be 8 (n mod 2 ^ 64))"

definition encode_frame :: "bytes \<Rightarrow> u8 \<Rightarrow> bytes \<Rightarrow> bytes result" where
  "encode_frame bs op mask_key =
     (if op \<ge> 8 \<and> length bs > MAX_CONTROL_PAYLOAD then Inl (Transport ControlPayloadTooLong)
      else Inr ((FIN OR op) # encode_length (length bs) @ mask_key @ xor_key mask_key bs))"

text \<open>
  The length field: \<open>None\<close> when the buffer ends inside it, else the length and the offset
  behind it.
\<close>

definition decode_length :: "bytes \<Rightarrow> u8 \<Rightarrow> (nat \<times> nat) option result" where
  "decode_length data second =
     (if second AND LENGTH_BITS = LENGTH_16
      then Inr (map_option (\<lambda>bs. (from_be bs, 4)) (get_slice data 2 4))
      else if second AND LENGTH_BITS = LENGTH_64
      then (case get_slice data 2 10 of
              None \<Rightarrow> Inr None
            | Some bs \<Rightarrow>
                if from_be bs \<ge> 2 ^ 63 then Inl (Transport InvalidPayloadLength)
                else Inr (Some (from_be bs, 10)))
      else Inr (Some (unat (second AND LENGTH_BITS), 2)))"

definition decode_payload :: "bytes \<Rightarrow> u8 \<Rightarrow> u8 \<Rightarrow> nat \<Rightarrow> nat \<Rightarrow> (frame \<times> nat) option" where
  "decode_payload data first second len off =
     (let masked = second AND MASKED \<noteq> 0;
          off' = (if masked then off + 4 else off) in
      Option.bind (if masked then map_option Some (get_slice data off off') else Some None) (\<lambda>mask_key.
      Option.bind (get_slice data off' (off' + len)) (\<lambda>bs.
      Some (\<lparr>fin = first AND FIN \<noteq> 0, opcode = first AND OPCODE,
             payload = (case mask_key of Some key \<Rightarrow> xor_key key bs | None \<Rightarrow> bs)\<rparr>, off' + len))))"

definition decode_frame :: "bytes \<Rightarrow> (frame \<times> nat) option result" where
  "decode_frame data =
     (case (get_at data 0, get_at data 1) of
        (Some first, Some second) \<Rightarrow>
          if first AND RESERVED \<noteq> 0 then Inl (Transport ReservedBitsSet)
          else rbind (decode_length data second) (\<lambda>len.
            case len of
              None \<Rightarrow> Inr None
            | Some (n, off) \<Rightarrow>
                if first AND OPCODE \<ge> 8 \<and> (first AND FIN = 0 \<or> n > MAX_CONTROL_PAYLOAD)
                then Inl (Transport InvalidControlFrame)
                else Inr (decode_payload data first second n off))
      | _ \<Rightarrow> Inr None)"

section \<open>The connection\<close>

definition receive :: "(framing, frame) op" where
  "receive = receive_with decode_frame"

definition on_stream :: "(wire_stream, 'a) op \<Rightarrow> (framing, 'a) op" where
  "on_stream m s = (case m (stream s) of (v, st) \<Rightarrow> (v, s\<lparr>stream := st\<rparr>))"

definition send :: "bytes \<Rightarrow> u8 \<Rightarrow> bytes \<Rightarrow> (framing, unit) op" where
  "send bs op mask_key =
     bindM (liftR (encode_frame bs op mask_key)) (\<lambda>frame.
     bindM (on_stream (write_all frame)) (\<lambda>_. on_stream flush))"

definition send_binary :: "bytes \<Rightarrow> (framing, unit) op" where
  "send_binary bs = send bs OP_BINARY [0, 0, 0, 0]"

definition send_text :: "bytes \<Rightarrow> (framing, unit) op" where
  "send_text bs = send bs OP_TEXT [0, 0, 0, 0]"

definition send_pong :: "bytes \<Rightarrow> bytes \<Rightarrow> (framing, unit) op" where
  "send_pong random_mask bs = send bs OP_PONG random_mask"

definition send_close :: "bytes \<Rightarrow> (framing, unit) op" where
  "send_close random_mask = send [] OP_CLOSE random_mask"

section \<open>Masking\<close>

lemma length_xor_key [simp]: "length (xor_key key bs) = length bs"
  by (simp add: xor_key_def)

lemma xor_key_self: "xor_key key (xor_key key bs) = bs"
  by (rule nth_equalityI) (simp_all add: xor_key_def nth_enumerate_eq xor.assoc)

lemma and_3_less: "(i AND 3 :: nat) < 4"
proof -
  have "i AND 3 = take_bit 2 i"
    by (simp add: take_bit_eq_mask mask_eq_exp_minus_1)
  then show ?thesis
    by (simp add: take_bit_eq_mod)
qed

lemma xor_key_zero: "xor_key [0, 0, 0, 0] bs = bs"
proof (rule nth_equalityI)
  fix i assume "i < length (xor_key [0, 0, 0, 0] bs)"
  moreover have "[0, 0, 0, 0 :: u8] ! (i AND 3) = 0"
    using and_3_less[of i] by (auto simp: less_Suc_eq numeral_eq_Suc)
  ultimately show "xor_key [0, 0, 0, 0] bs ! i = bs ! i"
    by (simp add: xor_key_def nth_enumerate_eq)
qed simp


section \<open>The bits of the two head bytes\<close>

lemma u8_exhaust: "P b" if "list_all (\<lambda>n. P (of_nat n)) [0..<256]" for b :: u8
proof -
  have "unat b < 256"
    using unsigned_less[of b] by simp
  then have "unat b \<in> set [0..<256]"
    by simp
  then have "P (of_nat (unat b))"
    using that unfolding list_all_iff by blast
  then show ?thesis by simp
qed

lemma head_byte:
  fixes op :: u8
  assumes "op < 16"
  shows "(FIN OR op) AND RESERVED = 0" and "(FIN OR op) AND OPCODE = op" and "(FIN OR op) AND FIN \<noteq> 0"
proof -
  have "op < 16 \<longrightarrow> (FIN OR op) AND RESERVED = 0 \<and> (FIN OR op) AND OPCODE = op \<and> (FIN OR op) AND FIN \<noteq> 0"
    by (rule u8_exhaust[where P = "\<lambda>op. op < 16 \<longrightarrow> (FIN OR op) AND RESERVED = 0 \<and> (FIN OR op) AND OPCODE = op \<and> (FIN OR op) AND FIN \<noteq> 0"]) code_simp
  then show "(FIN OR op) AND RESERVED = 0" and "(FIN OR op) AND OPCODE = op" and "(FIN OR op) AND FIN \<noteq> 0"
    using assms by simp_all
qed

lemma length_byte:
  assumes "n < 126"
  shows "(MASKED OR of_nat n) AND LENGTH_BITS = (of_nat n :: u8)" and "(MASKED OR of_nat n) AND MASKED \<noteq> (0 :: u8)"
    and "of_nat n \<noteq> LENGTH_16" and "of_nat n \<noteq> LENGTH_64"
proof -
  have "list_all (\<lambda>n. (MASKED OR of_nat n) AND LENGTH_BITS = (of_nat n :: u8) \<and> (MASKED OR of_nat n) AND MASKED \<noteq> (0 :: u8)
      \<and> of_nat n \<noteq> LENGTH_16 \<and> of_nat n \<noteq> LENGTH_64) [0..<126]"
    by code_simp
  moreover have "n \<in> set [0..<126]"
    using assms by simp
  ultimately show "(MASKED OR of_nat n) AND LENGTH_BITS = (of_nat n :: u8)" and "(MASKED OR of_nat n) AND MASKED \<noteq> (0 :: u8)"
    and "of_nat n \<noteq> LENGTH_16" and "of_nat n \<noteq> LENGTH_64"
    unfolding list_all_iff by blast+
qed

section \<open>The decoder keeps its answer\<close>

lemma get_slice_append: "get_slice d a b = Some ys \<Longrightarrow> get_slice (d @ m) a b = Some ys"
  by (auto simp: get_slice_def slice_of_def split: if_splits)

lemma get_at_append: "get_at d i = Some x \<Longrightarrow> get_at (d @ m) i = Some x"
  by (auto simp: get_at_def nth_append split: if_splits)

lemma decode_length_settled:
  "decode_length data second \<noteq> Inr None \<Longrightarrow> decode_length (data @ m) second = decode_length data second"
  by (auto simp: decode_length_def get_slice_append split: if_splits option.splits)

lemma decode_length_bounds:
  "decode_length data second = Inr (Some (n, off)) \<Longrightarrow> off \<le> max 2 (length data) \<and> n < 2 ^ 63 \<and> 2 \<le> off \<and> off \<le> 10"
proof -
  assume *: "decode_length data second = Inr (Some (n, off))"
  have "unat (second AND LENGTH_BITS) < 2 ^ LENGTH(8)"
    by (rule unsigned_less)
  then have b: "unat (second AND LENGTH_BITS) < 2 ^ 63"
    by simp
  have f: "from_be bs < 9223372036854775808" if "length bs = 2" for bs
    using from_be_less[of bs] that by simp
  show ?thesis
    using * b
    by (auto simp: decode_length_def get_slice_def f split: if_splits option.splits)
qed

lemma decode_payload_settled:
  "decode_payload data first second n off = Some r \<Longrightarrow> decode_payload (data @ m) first second n off = Some r"
  by (auto simp: decode_payload_def Let_def bind_eq_Some_conv get_slice_append split: if_splits)

lemma decode_payload_consumes:
  "decode_payload data first second n off = Some (f, k) \<Longrightarrow> k \<le> length data"
  by (auto simp: decode_payload_def Let_def bind_eq_Some_conv get_slice_def split: if_splits)

lemma decode_frame_settled:
  assumes "decode_frame data \<noteq> Inr None"
  shows "decode_frame (data @ m) = decode_frame data"
proof -
  obtain first second where head: "get_at data 0 = Some first" "get_at data 1 = Some second"
    using assms by (auto simp: decode_frame_def split: option.splits)
  show ?thesis
  proof (cases "first AND RESERVED \<noteq> 0")
    case True
    then show ?thesis
      using head by (simp add: decode_frame_def get_at_append)
  next
    case False
    have "decode_length data second \<noteq> Inr None"
      using assms head False by (auto simp: decode_frame_def)
    note len = decode_length_settled[OF this, of m]
    show ?thesis
    proof (cases "decode_length data second")
      case (Inl e)
      then show ?thesis
        using head False len by (simp add: decode_frame_def get_at_append)
    next
      case (Inr r)
      then obtain n off where r: "decode_length data second = Inr (Some (n, off))"
        using \<open>decode_length data second \<noteq> Inr None\<close> by (cases r) auto
      then show ?thesis
        using assms head False len
        by (auto simp: decode_frame_def get_at_append dest: decode_payload_settled[of _ _ _ _ _ _ m] split: if_splits)
    qed
  qed
qed

lemma decode_frame_consumes:
  "decode_frame data = Inr (Some (f, k)) \<Longrightarrow> k \<le> length data"
  by (auto simp: decode_frame_def rbind_Inr_iff dest: decode_payload_consumes split: option.splits if_splits)

section \<open>The decoder reads what the encoder writes\<close>

definition frame_image :: "frame \<times> bytes \<Rightarrow> bytes" where
  "frame_image p = (case p of (f, key) \<Rightarrow>
     (FIN OR opcode f) # encode_length (length (payload f)) @ key @ xor_key key (payload f))"

definition sendable :: "frame \<Rightarrow> bool" where
  "sendable f \<longleftrightarrow> fin f \<and> opcode f < 16 \<and> length (payload f) < 2 ^ 63
     \<and> (opcode f \<ge> 8 \<longrightarrow> length (payload f) \<le> MAX_CONTROL_PAYLOAD)"

lemma encode_frame_ok:
  "sendable f \<Longrightarrow> encode_frame (payload f) (opcode f) key = Inr (frame_image (f, key))"
  by (auto simp: encode_frame_def frame_image_def sendable_def)

lemma decode_encode_length:
  assumes "n < 2 ^ 63"
  shows "\<exists>second more_data. encode_length n = second # more_data \<and> second AND MASKED \<noteq> 0
    \<and> decode_length (b # encode_length n @ rest) second = Inr (Some (n, 1 + length (encode_length n)))"
proof (cases "n < 126")
  case True
  have "n < 256" using True by simp
  then show ?thesis
    using True length_byte[OF True]
    by (simp add: encode_length_def decode_length_def unsigned_of_nat take_bit_nat_eq_self)
next
  case long: False
  show ?thesis
  proof (cases "n < 2 ^ 16")
    case True
    then show ?thesis
      using long by (simp add: encode_length_def decode_length_def get_slice_def slice_of_def from_be_to_be)
  next
    case False
    have "n < 2 ^ 64" using assms by simp
    then show ?thesis
      using long False assms
      by (simp add: encode_length_def decode_length_def get_slice_def slice_of_def from_be_to_be)
  qed
qed

lemma decode_frame_image:
  assumes "sendable f" and "length key = 4"
  shows "decode_frame (frame_image (f, key)) = Inr (Some (f, length (frame_image (f, key))))"
proof -
  let ?op = "opcode f" and ?p = "payload f"
  have f: "fin f" "?op < 16" "length ?p < 2 ^ 63"
    using assms(1) by (simp_all add: sendable_def)
  note head = head_byte[OF f(2)]
  obtain second tl where len: "encode_length (length ?p) = second # tl" "second AND MASKED \<noteq> 0"
      "decode_length ((FIN OR ?op) # encode_length (length ?p) @ key @ xor_key key ?p) second =
        Inr (Some (length ?p, 1 + length (encode_length (length ?p))))"
    using decode_encode_length[OF f(3), of "FIN OR ?op" "key @ xor_key key ?p"] by blast
  define img where "img = frame_image (f, key)"
  define off where "off = 1 + length (encode_length (length ?p))"
  have img1: "img = ((FIN OR ?op) # encode_length (length ?p)) @ key @ xor_key key ?p"
    and img2: "img = ((FIN OR ?op) # encode_length (length ?p) @ key) @ xor_key key ?p @ []"
    by (simp_all add: img_def frame_image_def)
  have "slice_of img off (off + 4) = key"
    unfolding img1 by (rule slice_append_mid) (simp_all add: off_def assms(2))
  moreover have "slice_of img (off + 4) (off + 4 + length ?p) = xor_key key ?p"
    unfolding img2 by (rule slice_append_mid) (simp_all add: off_def assms(2))
  moreover have "length img = off + 4 + length ?p"
    by (simp add: img1 off_def assms(2))
  ultimately have slices: "get_slice img off (off + 4) = Some key"
      "get_slice img (off + 4) (off + 4 + length ?p) = Some (xor_key key ?p)"
    by (simp_all add: get_slice_def)
  have "length img = off + 4 + length ?p"
    by (simp add: img1 off_def assms(2))
  moreover have "decode_payload img (FIN OR ?op) second (length ?p) off = Some (f, off + 4 + length ?p)"
    using slices len(2) head f(1) by (simp add: decode_payload_def xor_key_self)
  moreover have "get_at img 0 = Some (FIN OR ?op)" "get_at img 1 = Some second"
    using len(1) by (simp_all add: img_def frame_image_def get_at_def)
  moreover have "decode_length img second = Inr (Some (length ?p, off))"
    using len(3) by (simp add: img_def frame_image_def off_def)
  moreover have "\<not> (?op \<ge> 8 \<and> (length ?p > MAX_CONTROL_PAYLOAD))"
    using assms(1) by (auto simp: sendable_def)
  ultimately show ?thesis
    unfolding img_def[symmetric] using head by (auto simp: decode_frame_def)
qed

definition maskable :: "frame \<times> bytes \<Rightarrow> bool" where
  "maskable p \<longleftrightarrow> sendable (fst p) \<and> length (snd p) = 4"

interpretation ws_reader: frame_decoder decode_frame
  by unfold_locales (auto simp: decode_frame_settled decode_frame_consumes)

interpretation ws: frame_format decode_frame frame_image fst maskable
  by unfold_locales (auto simp: maskable_def decode_frame_image)

section \<open>Sending\<close>

definition writable :: "wire_stream \<Rightarrow> bool" where
  "writable s \<longleftrightarrow> room s = None \<and> \<not> flush_fails s"

lemma send_ok:
  assumes "sendable f" and "writable (stream s)"
  shows "send (payload f) (opcode f) key s =
    (Inr (), s\<lparr>stream := (stream s)\<lparr>outgoing := outgoing (stream s) @ frame_image (f, key)\<rparr>\<rparr>)"
  using assms encode_frame_ok[OF assms(1), of key]
  by (simp add: send_def on_stream_def write_all_def flush_def writable_def)

lemma send_all:
  "\<forall>p \<in> set ps. sendable (fst p) \<Longrightarrow> writable (stream s) \<Longrightarrow>
    \<exists>vs. forM ps (\<lambda>(f, key). send (payload f) (opcode f) key) s =
      (Inr vs, s\<lparr>stream := (stream s)\<lparr>outgoing := outgoing (stream s) @ concat (map frame_image ps)\<rparr>\<rparr>)"
proof (induction ps arbitrary: s)
  case (Cons p ps)
  obtain f key where p: "p = (f, key)" by (cases p)
  let ?s1 = "s\<lparr>stream := (stream s)\<lparr>outgoing := outgoing (stream s) @ frame_image p\<rparr>\<rparr>"
  have 1: "send (payload f) (opcode f) key s = (Inr (), ?s1)"
    using send_ok[of f s key] Cons.prems p by simp
  have "writable (stream ?s1)"
    using Cons.prems by (simp add: writable_def)
  then obtain vs where "forM ps (\<lambda>(f, key). send (payload f) (opcode f) key) ?s1 =
      (Inr vs, ?s1\<lparr>stream := (stream ?s1)\<lparr>outgoing := outgoing (stream ?s1) @ concat (map frame_image ps)\<rparr>\<rparr>)"
    using Cons.IH[of ?s1] Cons.prems by auto
  then show ?case
    using 1 p by simp
qed simp

lemma send_too_long:
  assumes "op \<ge> 8" and "length bs > MAX_CONTROL_PAYLOAD"
  shows "send bs op key s = (Inl (Transport ControlPayloadTooLong), s)"
  using assms by (simp add: send_def encode_frame_def)

end
