(* ===== verification/Rpc_Frames.thy ===== *)
theory Rpc_Frames
  imports Io_Stream
begin

text \<open>
  The RPC frames of the account service: \<open>core/src/platform/wire/protobuf.rs\<close>, and the message form
  of the same frames (\<open>RpcSocket::send\<close> and \<open>decode_bgs_message\<close> of
  \<open>core/src/platform/wire/websocket.rs\<close>).  The protobuf header is generated code: its encoder,
  its decoder and its optional \<open>size\<close> field are a parameter, the record \<open>rpc_header\<close>.
\<close>

section \<open>Frames\<close>

record 'h rpc_header =
  encode_to_vec :: "'h \<Rightarrow> bytes"
  decode_header :: "bytes \<Rightarrow> 'h result"
  header_size :: "'h \<Rightarrow> u32 option"
  set_size :: "u32 \<Rightarrow> 'h \<Rightarrow> 'h"

record 'h rpc_frame =
  frame_header :: 'h
  body :: bytes

text \<open>What is relied on of the generated header: its codec round-trips and \<open>size\<close> is a field.\<close>

definition lawful_header :: "'h rpc_header \<Rightarrow> bool" where
  "lawful_header H \<longleftrightarrow>
     (\<forall>h. decode_header H (encode_to_vec H h) = Inr h) \<and> (\<forall>n h. header_size H (set_size H n h) = Some n)"

definition service_hash :: "bytes \<Rightarrow> u32" where
  "service_hash name = fold (\<lambda>byte hash. (hash XOR ucast byte) * 0x01000193) name 0x811c9dc5"

abbreviation DEFAULT_MAX_BODY_SIZE :: nat where "DEFAULT_MAX_BODY_SIZE \<equiv> 16 * 1024 * 1024"

definition encode_rpc_frame :: "'h rpc_header \<Rightarrow> 'h \<Rightarrow> bytes \<Rightarrow> bytes result" where
  "encode_rpc_frame H header bs =
     rbind (if bs \<noteq> [] \<or> header_size H header \<noteq> None
            then rbind (guard_or (BgsWire BodyTooLong) (length bs < 2 ^ 32))
                   (\<lambda>_. Inr (set_size H (of_nat (length bs)) header))
            else Inr header)
       (\<lambda>framed_header. let encoded = encode_to_vec H framed_header in
        rbind (guard_or (BgsWire HeaderTooLong) (length encoded < 2 ^ 16)) (\<lambda>_.
        Inr (to_be 2 (length encoded) @ encoded @ bs)))"

definition write_frame :: "'h rpc_header \<Rightarrow> 'h \<Rightarrow> bytes \<Rightarrow> (wire_stream, unit) op" where
  "write_frame H header bs = bindM (liftR (encode_rpc_frame H header bs)) write_all"

definition read_frame_with_limit :: "'h rpc_header \<Rightarrow> nat \<Rightarrow> (wire_stream, 'h rpc_frame) op" where
  "read_frame_with_limit H max_body_size =
     bindM (read_exact 2) (\<lambda>prefix.
     let header_length = from_be prefix in
     if header_length = 0 then fail (BgsWire EmptyHeader)
     else
       bindM (read_exact header_length) (\<lambda>encoded_header.
       bindM (liftR (decode_header H encoded_header)) (\<lambda>header.
       let body_length = (case header_size H header of None \<Rightarrow> 0 | Some n \<Rightarrow> unat n) in
       if body_length > max_body_size then fail (BgsWire (BodyExceedsLimit body_length max_body_size))
       else
         bindM (read_exact body_length) (\<lambda>bs. ret \<lparr>frame_header = header, body = bs\<rparr>))))"

definition read_frame :: "'h rpc_header \<Rightarrow> (wire_stream, 'h rpc_frame) op" where
  "read_frame H = read_frame_with_limit H DEFAULT_MAX_BODY_SIZE"

text \<open>\<open>RpcSocket::send\<close> up to the socket, and \<open>decode_bgs_message\<close>.\<close>

definition encode_bgs_message :: "'h rpc_header \<Rightarrow> 'h \<Rightarrow> bytes \<Rightarrow> bytes result" where
  "encode_bgs_message H header bs =
     (let encoded = encode_to_vec H header in
      rbind (guard_or (BgsWire HeaderTooLong) (length encoded < 2 ^ 16)) (\<lambda>_.
      Inr (to_be 2 (length encoded) @ encoded @ bs)))"

definition decode_bgs_message :: "'h rpc_header \<Rightarrow> bytes \<Rightarrow> 'h rpc_frame result" where
  "decode_bgs_message H message =
     (if length message < 2 then Inl (BgsWire NoHeaderPrefix)
      else let header_length = from_be [message ! 0, message ! 1] in
        if header_length = 0 \<or> length message < 2 + header_length
        then Inl (BgsWire HeaderTruncatedMessage)
        else rbind (decode_header H (slice_of message 2 (2 + header_length))) (\<lambda>header.
          let bs = drop (2 + header_length) message in
          if (case header_size H header of None \<Rightarrow> False | Some n \<Rightarrow> unat n \<noteq> length bs)
          then Inl (BgsWire BodyLengthMismatch)
          else Inr \<lparr>frame_header = header, body = bs\<rparr>))"

section \<open>What is sent is what is read\<close>

text \<open>The frame the encoder sends: the header with the size of its body filled in.\<close>

definition sized :: "'h rpc_header \<Rightarrow> 'h rpc_frame \<Rightarrow> bool" where
  "sized H f \<longleftrightarrow> (case header_size H (frame_header f) of
      None \<Rightarrow> body f = [] | Some n \<Rightarrow> unat n = length (body f))"

definition rpc_image :: "'h rpc_header \<Rightarrow> 'h rpc_frame \<Rightarrow> bytes" where
  "rpc_image H f =
     to_be 2 (length (encode_to_vec H (frame_header f))) @ encode_to_vec H (frame_header f) @ body f"

definition fits :: "'h rpc_header \<Rightarrow> nat \<Rightarrow> 'h rpc_frame \<Rightarrow> bool" where
  "fits H limit f \<longleftrightarrow> sized H f \<and> length (body f) \<le> limit
     \<and> 0 < length (encode_to_vec H (frame_header f)) \<and> length (encode_to_vec H (frame_header f)) < 2 ^ 16"

definition framed :: "'h rpc_header \<Rightarrow> 'h \<Rightarrow> bytes \<Rightarrow> 'h rpc_frame" where
  "framed H header bs =
     \<lparr>frame_header = (if bs \<noteq> [] \<or> header_size H header \<noteq> None then set_size H (of_nat (length bs)) header else header),
      body = bs\<rparr>"

lemma encode_rpc_frame_ok:
  assumes "lawful_header H" and "encode_rpc_frame H header bs = Inr img"
  shows "img = rpc_image H (framed H header bs)" and "sized H (framed H header bs)"
    and "length (encode_to_vec H (frame_header (framed H header bs))) < 2 ^ 16"
  using assms
  by (auto simp: encode_rpc_frame_def rbind_Inr_iff Let_def rpc_image_def framed_def sized_def lawful_header_def
      unsigned_of_nat take_bit_nat_eq_self split: if_splits option.splits)

lemma read_frame_image:
  assumes "lawful_header H" and "fits H limit f" and "quiet s" and "pending s = rpc_image H f @ rest"
  shows "\<exists>s'. read_frame_with_limit H limit s = (Inr f, s') \<and> pending s' = rest \<and> quiet s' \<and> same_writer s s'"
proof -
  let ?enc = "encode_to_vec H (frame_header f)"
  have enc: "0 < length ?enc" "length ?enc < 2 ^ 16" "decode_header H ?enc = Inr (frame_header f)"
    using assms(1,2) by (simp_all add: fits_def lawful_header_def)
  have len: "(case header_size H (frame_header f) of None \<Rightarrow> 0 | Some n \<Rightarrow> unat n) = length (body f)"
    using assms(2) by (auto simp: fits_def sized_def split: option.splits)
  obtain s1 where s1: "read_exact 2 s = (Inr (to_be 2 (length ?enc)), s1)" "pending s1 = ?enc @ body f @ rest"
      "quiet s1" "same_writer s s1"
    using read_exact_quiet[OF assms(3), of 2] assms(4) by (auto simp: rpc_image_def)
  obtain s2 where s2: "read_exact (length ?enc) s1 = (Inr ?enc, s2)" "pending s2 = body f @ rest" "quiet s2" "same_writer s1 s2"
    using read_exact_quiet[OF s1(3), of "length ?enc"] s1(2) by auto
  obtain s3 where s3: "read_exact (length (body f)) s2 = (Inr (body f), s3)" "pending s3 = rest" "quiet s3" "same_writer s2 s3"
    using read_exact_quiet[OF s2(3), of "length (body f)"] s2(2) by auto
  have "from_be (to_be 2 (length ?enc)) = length ?enc"
    using enc(2) by (simp add: from_be_to_be)
  moreover have "\<not> length (body f) > limit"
    using assms(2) by (simp add: fits_def)
  ultimately have "read_frame_with_limit H limit s = (Inr f, s3)"
    using s1(1) s2(1) s3(1) enc len by (simp add: read_frame_with_limit_def Let_def)
  then show ?thesis
    using s3 same_writer_trans[OF s1(4) same_writer_trans[OF s2(4) s3(4)]] by blast
qed

interpretation rpc: packet_stream "read_frame_with_limit H limit" "rpc_image H" "\<lambda>f. f"
    "\<lambda>f. lawful_header H \<and> fits H limit f" for H limit
  by unfold_locales (auto intro: read_frame_image)

lemma bgs_message_verdict:
  assumes "lawful_header H" and "encode_bgs_message H header bs = Inr msg" and "encode_to_vec H header \<noteq> []"
  shows "decode_bgs_message H msg =
    (if header_size H header = None \<or> (\<exists>n. header_size H header = Some n \<and> unat n = length bs)
     then Inr \<lparr>frame_header = header, body = bs\<rparr> else Inl (BgsWire BodyLengthMismatch))"
proof -
  let ?enc = "encode_to_vec H header"
  have msg: "msg = to_be 2 (length ?enc) @ ?enc @ bs" and len: "length ?enc < 2 ^ 16"
    using assms(2) by (simp_all add: encode_bgs_message_def rbind_Inr_iff Let_def)
  have "[xs ! 0, xs ! 1] = to_be 2 n" if "xs = to_be 2 n @ ys" for xs ys :: bytes and n
    unfolding that by (simp add: numeral_2_eq_2)
  then have two: "[msg ! 0, msg ! 1] = to_be 2 (length ?enc)"
    using msg by blast
  have prefix: "from_be [msg ! 0, msg ! 1] = length ?enc"
    unfolding two using len by (simp add: from_be_to_be)
  have "slice_of msg 2 (2 + length ?enc) = ?enc"
    unfolding msg by (rule slice_append_mid) simp_all
  moreover have "drop (2 + length ?enc) msg = bs" "length msg = 2 + length ?enc + length bs"
    by (simp_all add: msg)
  ultimately show ?thesis
    using assms(1,3) unfolding decode_bgs_message_def Let_def prefix
    by (auto simp: lawful_header_def sized_def split: option.splits)
qed

end
