(* ===== verification/Link_Properties.thy ===== *)
theory Link_Properties
  imports Raw_Proto Ws_Frames Rpc_Frames "HOL-Library.Code_Target_Nat"
begin

text \<open>
  The properties of the protobuf walker, the WebSocket frames and the RPC frames, each with
  an input at which its hypotheses hold.
\<close>

section \<open>Protobuf fields\<close>

definition demo_fields :: "pb_field list" where
  "demo_fields = [PField 1 (Varint 300), PField 2 (PBytes [9, 8]), PField 3 (Fixed32 5), PField 1 (Fixed64 6)]"

lemma demo_fields_wf: "\<forall>f \<in> set demo_fields. wf_field f"
  by (simp add: demo_fields_def wf_field_def)

lemma demo_fields_bytes: "message_fields demo_fields =
    [0x08, 0xAC, 0x02, 0x12, 0x02, 9, 8, 0x1D, 5, 0, 0, 0, 0x09, 6, 0, 0, 0, 0, 0, 0, 0]"
  by code_simp

text \<open>C28: the fields a message was built of are read back in order, repeated fields included, and the first
  field of a number is the first one that was added.\<close>

theorem protobuf_roundtrip:
  assumes "\<forall>f \<in> set fs. wf_field f" and "length (message_fields fs) < 2 ^ 64"
  shows "collect_fields (fields_of (message_fields fs)) = Inr fs
    \<and> first_field (message_fields fs) n = find (\<lambda>f. pb_number f = n) fs"
  using collect_message[OF assms] collect_flatten[OF collect_message[OF assms]] by (simp add: first_field_def)

theorem protobuf_roundtrip_witness:
  "collect_fields (fields_of [0x08, 0xAC, 0x02, 0x12, 0x02, 9, 8, 0x1D, 5, 0, 0, 0, 0x09, 6, 0, 0, 0, 0, 0, 0, 0]) = Inr demo_fields"
  using protobuf_roundtrip[OF demo_fields_wf] demo_fields_bytes by simp

text \<open>C29: a message cut inside a field is an error, wherever the cut is; it is never read as a shorter
  message.\<close>

theorem protobuf_cut_is_error:
  assumes "\<forall>f \<in> set (fs @ [f]). wf_field f" and "length (message_fields (fs @ [f])) < 2 ^ 64"
    and "length (message_fields fs) < k" and "k < length (message_fields (fs @ [f]))"
  shows "\<exists>e. collect_fields (fields_of (take k (message_fields (fs @ [f])))) = Inl e"
proof -
  have all: "message_fields (fs @ [f]) = message_fields fs @ field_image f"
    by (simp add: message_fields_concat)
  then have "take k (message_fields (fs @ [f])) = message_fields fs @ take (k - length (message_fields fs)) (field_image f)"
    using assms(3) by simp
  then show ?thesis
    using collect_cut[of fs f "k - length (message_fields fs)"] assms all by (auto simp: message_fields_concat)
qed

theorem protobuf_cut_is_error_witness:
  "\<exists>e. collect_fields (fields_of [0x08, 0xAC, 0x02, 0x12, 0x02, 9]) = Inl e"
proof -
  have "message_fields ([PField 1 (Varint 300)] @ [PField 2 (PBytes [9, 8])]) = [0x08, 0xAC, 0x02, 0x12, 0x02, 9, 8]"
    and "message_fields [PField 1 (Varint 300)] = [0x08, 0xAC, 0x02]"
    by code_simp+
  then show ?thesis
    using protobuf_cut_is_error[of "[PField 1 (Varint 300)]" "PField 2 (PBytes [9, 8])" 6] by (simp add: wf_field_def)
qed

text \<open>Fields read off any bytes can be sent on: rebuilt into a message they are read as the same fields,
  also when the original used longer than necessary varints.\<close>

theorem protobuf_reencode:
  assumes "collect_fields (fields_of data) = Inr fs" and "length data < 2 ^ 63" and "length (message_fields fs) < 2 ^ 64"
  shows "collect_fields (fields_of (message_fields fs)) = Inr fs"
proof -
  have "\<forall>f \<in> set fs. wf_field f"
    using collect_wf[OF assms(1)] assms(2) by (simp add: fields_of_def)
  then show ?thesis
    by (rule collect_message[OF _ assms(3)])
qed

theorem protobuf_reencode_witness:
  "collect_fields (fields_of [0x08, 0x81, 0x00]) = Inr [PField 1 (Varint 1)]
    \<and> collect_fields (fields_of (message_fields [PField 1 (Varint 1)])) = Inr [PField 1 (Varint 1)]"
proof -
  have 1: "read_field (fields_of [0x08, 0x81, 0x00]) =
      (Inr (PField 1 (Varint 1)), \<lparr>pb_data = [0x08, 0x81, 0x00], pb_offset = 3, pb_failed = False\<rparr>)"
    and "message_fields [PField 1 (Varint 1)] = [0x08, 0x01]"
    by code_simp+
  moreover have "collect_fields (fields_of [0x08, 0x81, 0x00]) = Inr [PField 1 (Varint 1)]"
    using 1 by (simp add: collect_fields.simps fields_next_def fields_of_def)
  ultimately show ?thesis
    using protobuf_reencode[of "[0x08, 0x81, 0x00]" "[PField 1 (Varint 1)]"] by simp
qed

section \<open>WebSocket frames\<close>

text \<open>C9: frames sent over a connection, with any masking keys, are received in order by a peer that gets the
  bytes in chunks of any sizes; what was sent behind them stays in its buffer or on the stream.\<close>

theorem frames_sent_are_received:
  assumes "\<forall>(f, key) \<in> set ps. sendable f \<and> length key = 4" and "writable (stream s)"
    and "outgoing (stream s) = []"
    and "forM ps (\<lambda>(f, key). send (payload f) (opcode f) key) s = (v, s')"
    and "steady peer" and "pending peer = outgoing (stream s') @ rest"
  shows "\<exists>t. forM ps (\<lambda>_. receive) (framing_new peer) = (Inr (map fst ps), t) \<and> ahead t = rest"
proof -
  have good: "\<forall>p \<in> set ps. maskable p" and can: "\<forall>p \<in> set ps. sendable (fst p)"
    using assms(1) by (auto simp: maskable_def)
  have "outgoing (stream s') = concat (map frame_image ps)"
    using send_all[OF can assms(2)] assms(3,4) by auto
  then have "ahead (framing_new peer) = concat (map frame_image ps) @ rest"
    using assms(6) by (simp add: ahead_def framing_new_def)
  then show ?thesis
    unfolding receive_def
    using ws.receive_frames[OF good, of "framing_new peer" rest] assms(5) by (auto simp: framing_new_def)
qed

definition demo_frame :: frame where
  "demo_frame = \<lparr>fin = True, opcode = OP_BINARY, payload = [104, 105]\<rparr>"

definition quiet_stream :: wire_stream where
  "quiet_stream = \<lparr>incoming = [], outgoing = [], room = None, flush_fails = False\<rparr>"

theorem frames_sent_are_received_witness:
  "\<exists>t. forM [(demo_frame, [1, 2, 3, 4 :: u8])] (\<lambda>_. receive)
     (framing_new (quiet_stream\<lparr>incoming := [Arrived [0x82], Arrived [0x82, 1, 2, 3], Arrived [4, 105, 107, 77]]\<rparr>)) =
     (Inr [demo_frame], t) \<and> ahead t = [77]"
proof -
  let ?s = "framing_new quiet_stream"
  have send: "forM [(demo_frame, [1, 2, 3, 4])] (\<lambda>(f, key). send (payload f) (opcode f) key) ?s =
      (Inr [()], ?s\<lparr>stream := quiet_stream\<lparr>outgoing := [0x82, 0x82, 1, 2, 3, 4, 105, 107]\<rparr>\<rparr>)"
    by code_simp
  show ?thesis
    using frames_sent_are_received[OF _ _ _ send, of "quiet_stream\<lparr>incoming := [Arrived [0x82], Arrived [0x82, 1, 2, 3], Arrived [4, 105, 107, 77]]\<rparr>" "[77]"]
    by (simp add: sendable_def demo_frame_def writable_def framing_new_def quiet_stream_def steady_def quiet_def pending_def)
qed

text \<open>C10: what \<open>receive\<close> does with the bytes of a connection, malformed ones included, does not depend on how
  they were chunked: it is the verdict of the decoder on all of them, and the end of the stream only when the
  decoder wants more.\<close>

theorem receive_ignores_chunking:
  assumes "steady (stream s)"
  shows "(case decode_frame (ahead s) of
      Inr None \<Rightarrow> \<exists>s'. receive s = (Inl (Transport ServerClosed), s')
    | Inl e \<Rightarrow> \<exists>s'. receive s = (Inl e, s')
    | Inr (Some (f, n)) \<Rightarrow> \<exists>s'. receive s = (Inr f, s') \<and> ahead s' = drop n (ahead s)
        \<and> steady (stream s') \<and> same_writer (stream s) (stream s'))"
  unfolding receive_def by (rule ws_reader.receive_outcome[OF assms])

theorem receive_ignores_chunking_witness:
  "\<exists>s'. receive (framing_new (quiet_stream\<lparr>incoming := [Arrived [0xF2], Arrived [0]]\<rparr>)) = (Inl (Transport ReservedBitsSet), s')"
proof -
  let ?s = "framing_new (quiet_stream\<lparr>incoming := [Arrived [0xF2], Arrived [0]]\<rparr>)"
  have "decode_frame [0xF2, 0] = Inl (Transport ReservedBitsSet)"
    by code_simp
  moreover have "ahead ?s = [0xF2, 0]" and "steady (stream ?s)"
    by (simp_all add: ahead_def framing_new_def pending_def quiet_stream_def steady_def quiet_def)
  ultimately show ?thesis
    using receive_ignores_chunking[of ?s] by simp
qed

text \<open>A frame that has not arrived in full is no error and no frame: the decoder asks for more.\<close>

theorem partial_frame_waits:
  assumes "sendable f" and "length key = 4" and "encode_frame (payload f) (opcode f) key = Inr img" and "k < length img"
  shows "decode_frame (take k img) = Inr None"
  using ws.partial[of "(f, key)" k] assms encode_frame_ok[OF assms(1), of key] by (simp add: maskable_def)

theorem partial_frame_waits_witness:
  "decode_frame (take 5 [0x82, 0x82, 1, 2, 3, 4, 105, 107]) = Inr None"
proof -
  have "encode_frame (payload demo_frame) (opcode demo_frame) [1, 2, 3, 4] = Inr [0x82, 0x82, 1, 2, 3, 4, 105, 107]"
    by code_simp
  from partial_frame_waits[OF _ _ this, of 5] show ?thesis
    by (simp add: sendable_def demo_frame_def)
qed

lemma decode_frame_control:
  assumes "decode_frame data = Inr (Some (f, n))" and "opcode f \<ge> 8"
  shows "fin f \<and> length (payload f) \<le> MAX_CONTROL_PAYLOAD"
proof -
  obtain first where first: "get_at data 0 = Some first"
    using assms(1) by (cases "get_at data 0") (simp_all add: decode_frame_def)
  obtain second where second: "get_at data 1 = Some second"
    using assms(1) first by (cases "get_at data 1") (simp_all add: decode_frame_def)
  have "first AND RESERVED = 0"
    using assms(1) first second by (simp add: decode_frame_def split: if_split_asm)
  then obtain l where run: "(case l of None \<Rightarrow> Inr None
        | Some (n, off) \<Rightarrow>
            if first AND OPCODE \<ge> 8 \<and> (first AND FIN = 0 \<or> n > MAX_CONTROL_PAYLOAD)
            then Inl (Transport InvalidControlFrame)
            else Inr (decode_payload data first second n off)) = Inr (Some (f, n))"
    using assms(1) first second by (cases "decode_length data second") (simp_all add: decode_frame_def)
  then obtain len off where l: "l = Some (len, off)"
    by (cases l) auto
  then have ok: "\<not> (first AND OPCODE \<ge> 8 \<and> (first AND FIN = 0 \<or> len > MAX_CONTROL_PAYLOAD))"
      "decode_payload data first second len off = Some (f, n)"
    using run by (auto split: if_split_asm)
  have "opcode f = first AND OPCODE" "fin f \<longleftrightarrow> first AND FIN \<noteq> 0" "length (payload f) = len"
    using ok(2) by (auto simp: decode_payload_def Let_def bind_eq_Some_conv get_slice_def split: if_splits)
  then show ?thesis
    using ok(1) assms(2) by auto
qed

text \<open>A control frame that is too long is refused before a byte of it is written, and the decoder accepts
  no control frame that is fragmented or too long.\<close>

theorem control_frames_stay_small:
  assumes "op \<ge> 8"
  shows "(MAX_CONTROL_PAYLOAD < length bs \<longrightarrow> send bs op key s = (Inl (Transport ControlPayloadTooLong), s)) \<and>
    (\<forall>f n. decode_frame data = Inr (Some (f, n)) \<and> opcode f = op \<longrightarrow> fin f \<and> length (payload f) \<le> MAX_CONTROL_PAYLOAD)"
proof (intro conjI impI allI)
  show "send bs op key s = (Inl (Transport ControlPayloadTooLong), s)" if "MAX_CONTROL_PAYLOAD < length bs"
    by (rule send_too_long[OF assms that])
next
  fix f n
  assume dec: "decode_frame data = Inr (Some (f, n)) \<and> opcode f = op"
  then show "fin f" and "length (payload f) \<le> MAX_CONTROL_PAYLOAD"
    using decode_frame_control[of data f n] assms by auto
qed

theorem control_frames_stay_small_witness:
  "send (replicate 126 0) OP_PING [1, 2, 3, 4] (framing_new quiet_stream) =
     (Inl (Transport ControlPayloadTooLong), framing_new quiet_stream)"
  using control_frames_stay_small[of OP_PING "replicate 126 0" "[1, 2, 3, 4]" "framing_new quiet_stream" "[]"] by simp

section \<open>RPC frames\<close>

lemma forM_map_const: "forM (map g xs) (\<lambda>_. m) = forM xs (\<lambda>_. m)"
  by (induction xs) simp_all

text \<open>C23: RPC frames that were written one after the other are read back one after the other, each with its
  header and its body, however the transport chunked or interrupted them.\<close>

theorem rpc_frames_roundtrip:
  assumes "lawful_header H"
    and "\<forall>(h, bs, img) \<in> set ms. encode_rpc_frame H h bs = Inr img \<and> length bs \<le> limit
           \<and> encode_to_vec H (frame_header (framed H h bs)) \<noteq> []"
    and "quiet s" and "pending s = concat (map (\<lambda>(h, bs, img). img) ms) @ rest"
  shows "\<exists>s'. forM ms (\<lambda>_. read_frame_with_limit H limit) s = (Inr (map (\<lambda>(h, bs, img). framed H h bs) ms), s')
    \<and> pending s' = rest"
proof -
  let ?fs = "map (\<lambda>(h, bs, img). framed H h bs) ms"
  have body: "body (framed H h bs) = bs" for h bs
    by (simp add: framed_def)
  have good: "\<forall>f \<in> set ?fs. lawful_header H \<and> fits H limit f"
    using assms(1,2) encode_rpc_frame_ok[OF assms(1)] by (fastforce simp: fits_def body)
  have images: "map (rpc_image H) ?fs = map (\<lambda>(h, bs, img). img) ms"
    using assms(2) encode_rpc_frame_ok(1)[OF assms(1)] by fastforce
  have "pending s = concat (map (rpc_image H) ?fs) @ rest"
    unfolding images by (rule assms(4))
  from rpc.read_all[OF good assms(3) this]
  show ?thesis
    unfolding list.map_ident forM_map_const by blast
qed

text \<open>A header codec that satisfies the contract: the optional size behind a presence byte.\<close>

definition demo_header :: "u32 option rpc_header" where
  "demo_header = \<lparr>encode_to_vec = (\<lambda>h. case h of None \<Rightarrow> [0] | Some n \<Rightarrow> 1 # to_le 4 (unat n)),
     decode_header = (\<lambda>bs. case bs of [] \<Rightarrow> Inl ProtobufDecode
        | b # rest \<Rightarrow> if b = 0 then Inr None else Inr (Some (of_nat (from_le rest)))),
     header_size = (\<lambda>h. h), set_size = (\<lambda>n _. Some n)\<rparr>"

lemma demo_header_lawful: "lawful_header demo_header"
proof -
  have "of_nat (from_le (to_le 4 (unat n))) = n" for n :: u32
  proof -
    have "unat n < 2 ^ LENGTH(32)"
      by (rule unsigned_less)
    then show ?thesis
      by (simp add: from_le_to_le)
  qed
  then show ?thesis
    by (simp add: lawful_header_def demo_header_def split: option.split)
qed

theorem rpc_frames_roundtrip_witness:
  "\<exists>s'. forM [(None, [7], [0, 5, 1, 1, 0, 0, 0, 7])] (\<lambda>_ :: u32 option \<times> bytes \<times> bytes. read_frame_with_limit demo_header 10)
      (quiet_stream\<lparr>incoming := [Arrived [0, 5, 1], Interruption, Arrived [1, 0, 0, 0, 7, 99]]\<rparr>) =
     (Inr [\<lparr>frame_header = Some 1, body = [7]\<rparr>], s') \<and> pending s' = [99]"
proof -
  have "encode_rpc_frame demo_header None [7] = Inr [0, 5, 1, 1, 0, 0, 0, 7]"
    by code_simp
  moreover have "framed demo_header None [7] = \<lparr>frame_header = Some 1, body = [7]\<rparr>"
    by code_simp
  ultimately show ?thesis
    using rpc_frames_roundtrip[OF demo_header_lawful, of "[(None, [7], [0, 5, 1, 1, 0, 0, 0, 7])]" 10
        "quiet_stream\<lparr>incoming := [Arrived [0, 5, 1], Interruption, Arrived [1, 0, 0, 0, 7, 99]]\<rparr>" "[99]"]
    by (simp add: demo_header_def quiet_stream_def quiet_def pending_def)
qed

text \<open>An RPC message in one WebSocket message is read back with its header and body, and a message whose
  header states another body length is refused.\<close>

theorem bgs_message_roundtrip:
  assumes "lawful_header H" and "encode_bgs_message H header bs = Inr msg" and "encode_to_vec H header \<noteq> []"
  shows "decode_bgs_message H msg =
    (if header_size H header = None \<or> (\<exists>n. header_size H header = Some n \<and> unat n = length bs)
     then Inr \<lparr>frame_header = header, body = bs\<rparr> else Inl (BgsWire BodyLengthMismatch))"
  by (rule bgs_message_verdict[OF assms])

theorem bgs_message_roundtrip_witness:
  "decode_bgs_message demo_header [0, 5, 1, 2, 0, 0, 0, 7] = Inl (BgsWire BodyLengthMismatch)"
proof -
  have "encode_bgs_message demo_header (Some 2) [7] = Inr [0, 5, 1, 2, 0, 0, 0, 7]"
    by code_simp
  from bgs_message_roundtrip[OF demo_header_lawful this] show ?thesis
    by (simp add: demo_header_def)
qed

end
