(* ===== verification/Bncs.thy ===== *)
theory Bncs
  imports Io_Stream Utf8
begin

text \<open>
  The legacy chat protocol the gateway speaks to classic clients
  (\<open>gateway/src/bncs.rs\<close>): packets, payload readers and writers, and the peer
  (\<open>LegacyPeer\<close>) with its logon, keepalive and command handling.  The current time and the
  random tokens a handler draws are parameters, the record \<open>surroundings\<close>; instants and
  durations are naturals (nanoseconds).
\<close>

section \<open>Constants\<close>

abbreviation SID_NULL :: u8 where "SID_NULL \<equiv> 0x00"
abbreviation SID_CLIENT_ID :: u8 where "SID_CLIENT_ID \<equiv> 0x05"
abbreviation SID_START_VERSIONING :: u8 where "SID_START_VERSIONING \<equiv> 0x06"
abbreviation SID_REPORT_VERSION :: u8 where "SID_REPORT_VERSION \<equiv> 0x07"
abbreviation SID_ENTER_CHAT :: u8 where "SID_ENTER_CHAT \<equiv> 0x0A"
abbreviation SID_GET_CHANNEL_LIST :: u8 where "SID_GET_CHANNEL_LIST \<equiv> 0x0B"
abbreviation SID_JOIN_CHANNEL :: u8 where "SID_JOIN_CHANNEL \<equiv> 0x0C"
abbreviation SID_CHAT_COMMAND :: u8 where "SID_CHAT_COMMAND \<equiv> 0x0E"
abbreviation SID_CHAT_EVENT :: u8 where "SID_CHAT_EVENT \<equiv> 0x0F"
abbreviation SID_LEAVE_CHAT :: u8 where "SID_LEAVE_CHAT \<equiv> 0x10"
abbreviation SID_LOCALE_INFO :: u8 where "SID_LOCALE_INFO \<equiv> 0x12"
abbreviation SID_UDP_PING_RESPONSE :: u8 where "SID_UDP_PING_RESPONSE \<equiv> 0x14"
abbreviation SID_LOGON_CHALLENGE_EX :: u8 where "SID_LOGON_CHALLENGE_EX \<equiv> 0x1D"
abbreviation SID_PING :: u8 where "SID_PING \<equiv> 0x25"
abbreviation SID_READ_USER_DATA :: u8 where "SID_READ_USER_DATA \<equiv> 0x26"
abbreviation SID_LOGON_RESPONSE :: u8 where "SID_LOGON_RESPONSE \<equiv> 0x29"
abbreviation SID_CREATE_ACCOUNT :: u8 where "SID_CREATE_ACCOUNT \<equiv> 0x2A"
abbreviation SID_GET_ICON_DATA :: u8 where "SID_GET_ICON_DATA \<equiv> 0x2D"
abbreviation SID_GET_FILE_TIME :: u8 where "SID_GET_FILE_TIME \<equiv> 0x33"
abbreviation SID_CD_KEY2 :: u8 where "SID_CD_KEY2 \<equiv> 0x36"
abbreviation SID_LOGON_RESPONSE2 :: u8 where "SID_LOGON_RESPONSE2 \<equiv> 0x3A"
abbreviation SID_CREATE_ACCOUNT2 :: u8 where "SID_CREATE_ACCOUNT2 \<equiv> 0x3D"
abbreviation SID_QUERY_REALMS2 :: u8 where "SID_QUERY_REALMS2 \<equiv> 0x40"
abbreviation SID_AUTH_INFO :: u8 where "SID_AUTH_INFO \<equiv> 0x50"
abbreviation SID_AUTH_CHECK :: u8 where "SID_AUTH_CHECK \<equiv> 0x51"
abbreviation SID_AUTH_ACCOUNT_CREATE :: u8 where "SID_AUTH_ACCOUNT_CREATE \<equiv> 0x52"
abbreviation SID_AUTH_ACCOUNT_LOGON :: u8 where "SID_AUTH_ACCOUNT_LOGON \<equiv> 0x53"
abbreviation SID_AUTH_ACCOUNT_LOGON_PROOF :: u8 where "SID_AUTH_ACCOUNT_LOGON_PROOF \<equiv> 0x54"
abbreviation SID_FRIENDS_LIST :: u8 where "SID_FRIENDS_LIST \<equiv> 0x65"
abbreviation SID_FRIENDS_UPDATE :: u8 where "SID_FRIENDS_UPDATE \<equiv> 0x66"
abbreviation SID_FRIENDS_ADD :: u8 where "SID_FRIENDS_ADD \<equiv> 0x67"
abbreviation SID_FRIENDS_REMOVE :: u8 where "SID_FRIENDS_REMOVE \<equiv> 0x68"
abbreviation SID_FRIENDS_POSITION :: u8 where "SID_FRIENDS_POSITION \<equiv> 0x69"

abbreviation EID_ERROR :: u32 where "EID_ERROR \<equiv> 0x13"
abbreviation HEADER_BYTES :: nat where "HEADER_BYTES \<equiv> 4"
abbreviation MAX_PACKET_BYTES :: nat where "MAX_PACKET_BYTES \<equiv> 65535"
abbreviation SYNTHETIC_ACCOUNT_NUMBER :: u32 where "SYNTHETIC_ACCOUNT_NUMBER \<equiv> 0xBAADF00D"
abbreviation NULL_INTERVAL :: nat where "NULL_INTERVAL \<equiv> 60000000000"
abbreviation PING_INTERVAL :: nat where "PING_INTERVAL \<equiv> 180000000000"

abbreviation invalid_data :: error where "invalid_data \<equiv> Io InvalidData"

section \<open>Packets\<close>

record packet =
  packet_id :: u8
  packet_payload :: bytes

function read_marker :: "(wire_stream, u8 option) op" where
  "read_marker s =
     (case stream_read 1 s of
        (Inr [], s') \<Rightarrow> (Inr None, s')
      | (Inr (b # _), s') \<Rightarrow> (Inr (Some b), s')
      | (Inl e, s') \<Rightarrow> if e = Io Interrupted then read_marker s' else (Inl e, s'))"
  by pat_completeness auto
termination
  by (relation "measure (\<lambda>s. length (incoming s))")
    (auto simp: stream_read.simps split: list.splits read_event.splits if_splits)

declare read_marker.simps [simp del]

definition read_from :: "(wire_stream, packet option) op" where
  "read_from =
     bindM read_marker (\<lambda>marker.
     case marker of
       None \<Rightarrow> ret None
     | Some m \<Rightarrow>
         if m \<noteq> 0xFF then fail invalid_data
         else bindM (read_exact 3) (\<lambda>rest.
           let len = from_le [rest ! 1, rest ! 2] in
           if \<not> (HEADER_BYTES \<le> len \<and> len \<le> MAX_PACKET_BYTES) then fail invalid_data
           else bindM (read_exact (len - HEADER_BYTES)) (\<lambda>pl.
             ret (Some \<lparr>packet_id = rest ! 0, packet_payload = pl\<rparr>))))"

definition write_to :: "packet \<Rightarrow> (wire_stream, unit) op" where
  "write_to p =
     (let len = length (packet_payload p) + HEADER_BYTES in
      if len \<ge> 2 ^ 16 then fail invalid_data
      else
        bindM (write_all [0xFF, packet_id p]) (\<lambda>_.
        bindM (write_all (to_le 2 len)) (\<lambda>_.
        write_all (packet_payload p))))"

section \<open>Payloads\<close>

record payload_reader =
  rdata :: bytes
  roffset :: nat

definition reader_on :: "bytes \<Rightarrow> payload_reader" where
  "reader_on data = \<lparr>rdata = data, roffset = 0\<rparr>"

text \<open>A method that returns an \<open>Option\<close> and advances the reader; \<open>ok_or_else\<close> makes it a step.\<close>

definition read_dword :: "payload_reader \<Rightarrow> u32 option \<times> payload_reader" where
  "read_dword r =
     (case get_slice (rdata r) (roffset r) (roffset r + 4) of
        None \<Rightarrow> (None, r)
      | Some bs \<Rightarrow> (Some (of_nat (from_le bs)), r\<lparr>roffset := roffset r + 4\<rparr>))"

definition read_c_string :: "payload_reader \<Rightarrow> bytes option \<times> payload_reader" where
  "read_c_string r =
     (if roffset r > length (rdata r) then (None, r)
      else case position_of (\<lambda>b. b = 0) (drop (roffset r) (rdata r)) of
        None \<Rightarrow> (None, r)
      | Some n \<Rightarrow>
          (Some (from_utf8_lossy (take n (drop (roffset r) (rdata r)))), r\<lparr>roffset := roffset r + n + 1\<rparr>))"

definition remaining_bytes :: "payload_reader \<Rightarrow> nat" where
  "remaining_bytes r = length (rdata r) - roffset r"

definition required :: "(payload_reader \<Rightarrow> 'a option \<times> payload_reader) \<Rightarrow> (payload_reader, 'a) op" where
  "required m r = (case m r of (None, r') \<Rightarrow> (Inl invalid_data, r') | (Some x, r') \<Rightarrow> (Inr x, r'))"

definition unwrap_or :: "'a \<Rightarrow> (payload_reader \<Rightarrow> 'a option \<times> payload_reader) \<Rightarrow> (payload_reader, 'a) op" where
  "unwrap_or d m r = (case m r of (None, r') \<Rightarrow> (Inr d, r') | (Some x, r') \<Rightarrow> (Inr x, r'))"

definition require_consumed :: "(payload_reader, unit) op" where
  "require_consumed r = (if remaining_bytes r = 0 then Inr () else Inl invalid_data, r)"

text \<open>A parse of a whole payload, its reader dropped at the end.\<close>

definition parse_payload :: "(payload_reader, 'a) op \<Rightarrow> bytes \<Rightarrow> 'a result" where
  "parse_payload m data = fst (m (reader_on data))"

text \<open>The writer is the bytes it has gathered; its methods append.\<close>

definition put_dword :: "u32 \<Rightarrow> bytes" where
  "put_dword v = to_le 4 (unat v)"

definition put_qword :: "u64 \<Rightarrow> bytes" where
  "put_qword v = to_le 8 (unat v)"

definition put_c_string :: "bytes \<Rightarrow> bytes" where
  "put_c_string s = s @ [0]"

record friend_entry =
  friend_name :: bytes
  friend_status :: u8
  friend_location :: u8
  friend_product :: u32
  location_name :: bytes

definition put_friend :: "friend_entry \<Rightarrow> bool \<Rightarrow> bytes" where
  "put_friend f include_name =
     (if include_name then put_c_string (friend_name f) else [])
     @ [friend_status f] @ [friend_location f] @ put_dword (friend_product f) @ put_c_string (location_name f)"

section \<open>The peer\<close>

datatype action =
    EnterChat (requested_name: bytes)
  | RequestChannelList
  | JoinChannel (join_flags: u32) (join_channel: bytes)
  | LeaveChat
  | ChatCommand bytes
  | RequestFriendsList
  | Pong "nat option"
  | UdpCapability bool

datatype logon_style = Legacy | Old | New

record legacy_peer =
  writer :: wire_stream
  expected_account :: bytes
  account_name :: "bytes option"
  logon_style :: "logon_style option"
  account_accepted :: bool
  logged_on :: bool
  keepalives_active :: bool
  next_null :: nat
  next_ping :: nat
  pending_ping :: "(u32 \<times> nat) option"

record surroundings =
  now_at :: nat
  ping_token :: u32
  challenge_token :: u32

definition peer_new :: "nat \<Rightarrow> wire_stream \<Rightarrow> bytes \<Rightarrow> legacy_peer" where
  "peer_new now w expected =
     \<lparr>writer = w, expected_account = expected, account_name = None, logon_style = None,
      account_accepted = False, logged_on = False, keepalives_active = False,
      next_null = now + NULL_INTERVAL, next_ping = now + PING_INTERVAL, pending_ping = None\<rparr>"

definition on_writer :: "(wire_stream, 'a) op \<Rightarrow> (legacy_peer, 'a) op" where
  "on_writer m s = (case m (writer s) of (v, w) \<Rightarrow> (v, s\<lparr>writer := w\<rparr>))"

definition peer_flush :: "(legacy_peer, unit) op" where
  "peer_flush = on_writer flush"

definition send_packet :: "u8 \<Rightarrow> bytes \<Rightarrow> (legacy_peer, unit) op" where
  "send_packet sid pl = on_writer (write_to \<lparr>packet_id = sid, packet_payload = pl\<rparr>)"

definition send_enter_chat :: "bytes \<Rightarrow> bytes \<Rightarrow> (legacy_peer, unit) op" where
  "send_enter_chat username stats =
     send_packet SID_ENTER_CHAT (put_c_string username @ put_c_string stats @ put_c_string username)"

definition send_chat_event :: "u32 \<Rightarrow> bytes \<Rightarrow> bytes \<Rightarrow> u32 \<Rightarrow> u32 \<Rightarrow> (legacy_peer, unit) op" where
  "send_chat_event event_id username txt flags ping =
     send_packet SID_CHAT_EVENT
       (put_dword event_id @ put_dword flags @ put_dword ping @ put_dword 0
        @ put_dword SYNTHETIC_ACCOUNT_NUMBER @ put_dword SYNTHETIC_ACCOUNT_NUMBER
        @ put_c_string username @ put_c_string txt)"

definition send_error :: "bytes \<Rightarrow> (legacy_peer, unit) op" where
  "send_error message = send_chat_event EID_ERROR (ascii ''SC2 Gateway'') message 0 0"

definition send_friends_list :: "friend_entry list \<Rightarrow> (legacy_peer, unit) op" where
  "send_friends_list friends =
     (if length friends \<ge> 256 then fail invalid_data
      else send_packet SID_FRIENDS_LIST
        (of_nat (length friends) # concat (map (\<lambda>f. put_friend f True) friends)))"

definition send_channel_list :: "bytes list \<Rightarrow> (legacy_peer, unit) op" where
  "send_channel_list channels =
     send_packet SID_GET_CHANNEL_LIST (concat (map put_c_string channels) @ [0])"

definition send_friend_update :: "u8 \<Rightarrow> friend_entry \<Rightarrow> (legacy_peer, unit) op" where
  "send_friend_update index f = send_packet SID_FRIENDS_UPDATE (index # put_friend f False)"

definition send_friend_add :: "friend_entry \<Rightarrow> (legacy_peer, unit) op" where
  "send_friend_add f = send_packet SID_FRIENDS_ADD (put_friend f True)"

definition send_friend_remove :: "u8 \<Rightarrow> (legacy_peer, unit) op" where
  "send_friend_remove index = send_packet SID_FRIENDS_REMOVE [index]"

definition send_friend_position :: "u8 \<Rightarrow> u8 \<Rightarrow> (legacy_peer, unit) op" where
  "send_friend_position old new = send_packet SID_FRIENDS_POSITION [old, new]"

section \<open>Replies\<close>

definition send_auth_check_success :: "(legacy_peer, unit) op" where
  "send_auth_check_success = send_packet SID_AUTH_CHECK (put_dword 0 @ put_c_string [])"

definition send_ping :: "u32 \<Rightarrow> nat \<Rightarrow> (legacy_peer, unit) op" where
  "send_ping token now =
     bindM (send_packet SID_PING (put_dword token)) (\<lambda>_.
     modifyM (\<lambda>s. s\<lparr>pending_ping := Some (token, now), next_ping := now + PING_INTERVAL\<rparr>))"

definition begin_keepalives :: "surroundings \<Rightarrow> (legacy_peer, unit) op" where
  "begin_keepalives env =
     bindM (getsM keepalives_active) (\<lambda>active.
     if active then ret ()
     else
       bindM (modifyM (\<lambda>s. s\<lparr>keepalives_active := True, next_null := now_at env + NULL_INTERVAL\<rparr>)) (\<lambda>_.
       send_ping (ping_token env) (now_at env)))"

definition handle_auth_info :: "surroundings \<Rightarrow> (legacy_peer, unit) op" where
  "handle_auth_info env = bindM (begin_keepalives env) (\<lambda>_. send_auth_check_success)"

definition account_matches :: "legacy_peer \<Rightarrow> bool" where
  "account_matches s =
     (case account_name s of None \<Rightarrow> False | Some account \<Rightarrow> eq_ignore_ascii_case account (expected_account s))"

definition c_string_at :: "bytes \<Rightarrow> nat \<Rightarrow> bytes option" where
  "c_string_at data offset =
     (if offset > length data then None
      else map_option (\<lambda>n. from_utf8_lossy (take n (drop offset data))) (position_of (\<lambda>b. b = 0) (drop offset data)))"

definition send_logon_success :: "(legacy_peer, unit) op" where
  "send_logon_success =
     bindM (getsM account_accepted) (\<lambda>accepted.
     if \<not> accepted then fail invalid_data
     else
       bindM (modifyM (\<lambda>s. s\<lparr>logged_on := True\<rparr>)) (\<lambda>_.
       bindM (getsM logon_style) (\<lambda>style.
       case (case style of None \<Rightarrow> Old | Some st \<Rightarrow> st) of
         Legacy \<Rightarrow> send_packet SID_LOGON_RESPONSE (put_dword 1)
       | Old \<Rightarrow> send_packet SID_LOGON_RESPONSE2 (put_dword 0)
       | New \<Rightarrow> send_packet SID_AUTH_ACCOUNT_LOGON_PROOF (put_dword 0 @ replicate 20 0 @ put_c_string []))))"

definition send_old_logon_failure :: "logon_style \<Rightarrow> (legacy_peer, unit) op" where
  "send_old_logon_failure style =
     (case style of
        Legacy \<Rightarrow> send_packet SID_LOGON_RESPONSE (put_dword 0)
      | Old \<Rightarrow> send_packet SID_LOGON_RESPONSE2 (put_dword 1)
      | New \<Rightarrow> fail (Panic Unreachable))"

definition send_new_logon_proof_failure :: "(legacy_peer, unit) op" where
  "send_new_logon_proof_failure =
     send_packet SID_AUTH_ACCOUNT_LOGON_PROOF (put_dword 2 @ replicate 20 0 @ put_c_string [])"

definition judge_account :: "logon_style \<Rightarrow> bytes option \<Rightarrow> legacy_peer \<Rightarrow> legacy_peer" where
  "judge_account style name s =
     (let s' = s\<lparr>logon_style := Some style, account_name := name\<rparr> in
      s'\<lparr>account_accepted := account_matches s', logged_on := False\<rparr>)"

definition handle_new_logon :: "bytes \<Rightarrow> (legacy_peer, unit) op" where
  "handle_new_logon pl =
     bindM (modifyM (judge_account New (c_string_at pl 32))) (\<lambda>_.
     bindM (getsM account_accepted) (\<lambda>accepted.
     send_packet SID_AUTH_ACCOUNT_LOGON
       (put_dword (if accepted then 0 else 1) @ replicate 32 0 @ replicate 32 0)))"

definition handle_old_logon :: "bytes \<Rightarrow> logon_style \<Rightarrow> (legacy_peer, unit) op" where
  "handle_old_logon pl style =
     bindM (modifyM (judge_account style (c_string_at pl 28))) (\<lambda>_.
     bindM (getsM account_accepted) (\<lambda>accepted.
     if accepted then send_logon_success else send_old_logon_failure style))"

definition handle_logon_proof :: "(legacy_peer, unit) op" where
  "handle_logon_proof =
     bindM (modifyM (\<lambda>s. s\<lparr>logon_style := Some New\<rparr>)) (\<lambda>_.
     bindM (getsM account_accepted) (\<lambda>accepted.
     if accepted then send_logon_success else send_new_logon_proof_failure))"

definition send_legacy_creation_rejected :: "(legacy_peer, unit) op" where
  "send_legacy_creation_rejected = send_packet SID_CREATE_ACCOUNT (put_dword 0)"

definition send_old_creation_rejected :: "(legacy_peer, unit) op" where
  "send_old_creation_rejected = send_packet SID_CREATE_ACCOUNT2 (put_dword 4 @ put_c_string [])"

definition send_new_creation_rejected :: "(legacy_peer, unit) op" where
  "send_new_creation_rejected = send_packet SID_AUTH_ACCOUNT_CREATE (put_dword 4)"

definition send_report_version_success :: "(legacy_peer, unit) op" where
  "send_report_version_success = send_packet SID_REPORT_VERSION (put_dword 2 @ put_c_string [])"

definition handle_start_versioning :: "surroundings \<Rightarrow> (legacy_peer, unit) op" where
  "handle_start_versioning env =
     bindM (send_packet SID_CLIENT_ID (concat (replicate 4 (put_dword 0)))) (\<lambda>_.
     bindM (send_packet SID_LOGON_CHALLENGE_EX (put_dword 0 @ put_dword (challenge_token env))) (\<lambda>_.
     bindM send_report_version_success (\<lambda>_.
     begin_keepalives env)))"

definition send_cd_key_success :: "(legacy_peer, unit) op" where
  "send_cd_key_success = send_packet SID_CD_KEY2 (put_dword 1 @ put_c_string [])"

definition send_query_realms_response :: "(legacy_peer, unit) op" where
  "send_query_realms_response = send_packet SID_QUERY_REALMS2 (put_dword 0 @ put_dword 0)"

definition read_file_time_request :: "(payload_reader, u32 \<times> u32 \<times> bytes) op" where
  "read_file_time_request =
     bindM (unwrap_or 0 read_dword) (\<lambda>request_id.
     bindM (unwrap_or 0 read_dword) (\<lambda>unknown.
     bindM (unwrap_or [] read_c_string) (\<lambda>filename.
     ret (request_id, unknown, filename))))"

definition send_file_time_response :: "bytes \<Rightarrow> (legacy_peer, unit) op" where
  "send_file_time_response request =
     bindM (liftR (parse_payload read_file_time_request request)) (\<lambda>(request_id, unknown, filename).
     send_packet SID_GET_FILE_TIME
       (put_dword request_id @ put_dword unknown @ put_qword 0 @ put_c_string filename))"

definition send_icon_response :: "(legacy_peer, unit) op" where
  "send_icon_response = send_packet SID_GET_ICON_DATA (put_qword 0 @ put_c_string (ascii ''icons.bni''))"

section \<open>Requests\<close>

definition require_length :: "packet \<Rightarrow> nat \<Rightarrow> unit result" where
  "require_length p expected = guard_or invalid_data (length (packet_payload p) = expected)"

definition read_user_data_request :: "(payload_reader, u32 \<times> u32 \<times> u32) op" where
  "read_user_data_request =
     bindM (required read_dword) (\<lambda>account_count.
     bindM (required read_dword) (\<lambda>key_count.
     bindM (required read_dword) (\<lambda>request_id.
     if key_count > 31 then fail invalid_data
     else if unat account_count + unat key_count \<ge> 2 ^ 32 then fail invalid_data
     else
       bindM (getsM remaining_bytes) (\<lambda>left.
       if unat account_count + unat key_count > left then fail invalid_data
       else
         bindM (forM [0..<unat account_count + unat key_count] (\<lambda>_. required read_c_string)) (\<lambda>_.
         bindM require_consumed (\<lambda>_.
         ret (account_count, key_count, request_id)))))))"

definition handle_read_user_data :: "packet \<Rightarrow> (legacy_peer, unit) op" where
  "handle_read_user_data p =
     bindM (liftR (parse_payload read_user_data_request (packet_payload p))) (\<lambda>(accounts, keys, request_id).
     let account_count = (if accounts > 1 then 0 else accounts);
         key_count = (if accounts > 1 then 0 else keys) in
     if unat account_count * unat key_count \<ge> 2 ^ 32 then fail invalid_data
     else send_packet SID_READ_USER_DATA
       (put_dword account_count @ put_dword key_count @ put_dword request_id
        @ replicate (unat account_count * unat key_count) 0))"

definition validate_enter_chat :: "packet \<Rightarrow> unit result" where
  "validate_enter_chat p =
     parse_payload
       (bindM (required read_c_string) (\<lambda>_.
        bindM (required read_c_string) (\<lambda>statstring.
        if length statstring > 128 then fail invalid_data else require_consumed))) (packet_payload p)"

definition validate_chat_command :: "packet \<Rightarrow> bytes option result" where
  "validate_chat_command p =
     (if \<not> (2 \<le> length (packet_payload p) \<and> length (packet_payload p) \<le> 224) then Inl invalid_data
      else if last (packet_payload p) \<noteq> 0 then Inl invalid_data
      else if list_ex (\<lambda>b. b < 32) (butlast (packet_payload p)) then Inr None
      else Inr (Some (from_utf8_lossy (butlast (packet_payload p)))))"

definition join_request :: "(payload_reader, u32 \<times> bytes) op" where
  "join_request =
     bindM (required read_dword) (\<lambda>flags.
     bindM (required read_c_string) (\<lambda>channel.
     bindM require_consumed (\<lambda>_.
     ret (flags, channel))))"

text \<open>\<open>u32::from_le_bytes(payload[..4].try_into().expect(..))\<close>: the slice panics on fewer than four bytes.\<close>

definition first_dword :: "bytes \<Rightarrow> u32 result" where
  "first_dword pl =
     (case get_slice pl 0 4 of None \<Rightarrow> Inl (Panic SliceOutOfBounds) | Some bs \<Rightarrow> Inr (of_nat (from_le bs)))"

definition handle_ping_reply :: "surroundings \<Rightarrow> packet \<Rightarrow> (legacy_peer, action list) op" where
  "handle_ping_reply env p =
     bindM (liftR (require_length p 4)) (\<lambda>_.
     bindM (liftR (first_dword (packet_payload p))) (\<lambda>token s.
       let round_trip = (case pending_ping s of
             None \<Rightarrow> None
           | Some (expected, sent_at) \<Rightarrow> if expected = token then Some (now_at env - sent_at) else None) in
       (Inr [Pong round_trip], s\<lparr>pending_ping := None\<rparr>)))"

definition read_udp_token :: "packet \<Rightarrow> u32 result" where
  "read_udp_token p = rbind (require_length p 4) (\<lambda>_. first_dword (packet_payload p))"

text \<open>An arm of \<open>match packet.id\<close> that ends in \<open>Ok(Vec::new())\<close>.\<close>

definition silently :: "(legacy_peer, unit) op \<Rightarrow> (legacy_peer, action list) op" where
  "silently m = bindM m (\<lambda>_. ret [])"

text \<open>An arm that answers with one action when its parse succeeds.\<close>

definition acting :: "'a result \<Rightarrow> ('a \<Rightarrow> action) \<Rightarrow> (legacy_peer, action list) op" where
  "acting r f = bindM (liftR r) (\<lambda>x. ret [f x])"

definition handle :: "surroundings \<Rightarrow> packet \<Rightarrow> (legacy_peer, action list) op" where
  "handle env p =
     bindM (getsM logged_on) (\<lambda>on.
     let pid = packet_id p; pl = packet_payload p in
     if pid = SID_NULL then silently (liftR (require_length p 0))
     else if pid = SID_AUTH_INFO then silently (handle_auth_info env)
     else if pid = SID_AUTH_CHECK then silently send_auth_check_success
     else if pid = SID_AUTH_ACCOUNT_LOGON then silently (handle_new_logon pl)
     else if pid = SID_AUTH_ACCOUNT_LOGON_PROOF then silently handle_logon_proof
     else if pid = SID_LOGON_RESPONSE2 then silently (handle_old_logon pl Old)
     else if pid = SID_LOGON_RESPONSE then silently (handle_old_logon pl Legacy)
     else if pid = SID_CREATE_ACCOUNT then silently send_legacy_creation_rejected
     else if pid = SID_CREATE_ACCOUNT2 then silently send_old_creation_rejected
     else if pid = SID_AUTH_ACCOUNT_CREATE then silently send_new_creation_rejected
     else if pid = SID_START_VERSIONING then silently (handle_start_versioning env)
     else if pid = SID_REPORT_VERSION then silently send_report_version_success
     else if pid = SID_CD_KEY2 then silently send_cd_key_success
     else if pid = SID_QUERY_REALMS2 then silently send_query_realms_response
     else if pid = SID_GET_FILE_TIME then silently (send_file_time_response pl)
     else if pid = SID_GET_ICON_DATA then silently send_icon_response
     else if pid = SID_ENTER_CHAT then
       (if on then bindM (getsM expected_account) (\<lambda>name. acting (validate_enter_chat p) (\<lambda>_. EnterChat name))
        else ret [])
     else if pid = SID_GET_CHANNEL_LIST then acting (require_length p 4) (\<lambda>_. RequestChannelList)
     else if pid = SID_JOIN_CHANNEL then
       (if on then acting (parse_payload join_request pl) (\<lambda>(flags, channel). JoinChannel flags channel)
        else ret [])
     else if pid = SID_LEAVE_CHAT \<and> on then acting (require_length p 0) (\<lambda>_. LeaveChat)
     else if pid = SID_CHAT_COMMAND then
       bindM (liftR (validate_chat_command p))
         (\<lambda>command. ret (case command of Some c \<Rightarrow> [ChatCommand c] | None \<Rightarrow> []))
     else if pid = SID_FRIENDS_LIST \<and> on then acting (require_length p 0) (\<lambda>_. RequestFriendsList)
     else if pid = SID_PING then handle_ping_reply env p
     else if pid = SID_UDP_PING_RESPONSE then
       acting (read_udp_token p) (\<lambda>token. UdpCapability (token = of_nat (from_be (ascii ''bnet''))))
     else if pid = SID_LOCALE_INFO then silently (liftR (guard_or invalid_data (36 \<le> length pl)))
     else if pid = SID_READ_USER_DATA \<and> on then silently (handle_read_user_data p)
     else ret [])"

definition service_keepalive :: "surroundings \<Rightarrow> (legacy_peer, bool) op" where
  "service_keepalive env =
     bindM (getsM keepalives_active) (\<lambda>active.
     if \<not> active then ret False
     else
       bindM (getsM next_null) (\<lambda>null_due.
       bindM (if now_at env \<ge> null_due
              then bindM (send_packet SID_NULL []) (\<lambda>_.
                   modifyM (\<lambda>s. s\<lparr>next_null := now_at env + NULL_INTERVAL\<rparr>))
              else ret ()) (\<lambda>_.
       bindM (getsM next_ping) (\<lambda>ping_due.
       bindM (if now_at env \<ge> ping_due then send_ping (ping_token env) (now_at env) else ret ()) (\<lambda>_.
       ret (now_at env \<ge> null_due \<or> now_at env \<ge> ping_due))))))"

end
