(* ===== verification/Bncs_Laws.thy ===== *)
theory Bncs_Laws
  imports Bncs
begin

text \<open>
  What the legacy chat peer guarantees: packets are read exactly as they were written, no
  client is logged on without having named the selected account, the actions that need a
  logon come only after one, whatever a client sends is answered with whole packets
  and without a panic, and the keepalives come when they are due.
\<close>

section \<open>Packets\<close>

definition packet_image :: "packet \<Rightarrow> bytes" where
  "packet_image p = [0xFF, packet_id p] @ to_le 2 (length (packet_payload p) + 4) @ packet_payload p"

definition sendable_packet :: "packet \<Rightarrow> bool" where
  "sendable_packet p \<longleftrightarrow> length (packet_payload p) + 4 < 2 ^ 16"

lemma write_to_ok:
  "sendable_packet p \<Longrightarrow> room s = None \<Longrightarrow> write_to p s = (Inr (), s\<lparr>outgoing := outgoing s @ packet_image p\<rparr>)"
  by (simp add: write_to_def sendable_packet_def write_all_def packet_image_def)

lemma write_to_too_long: "\<not> sendable_packet p \<Longrightarrow> write_to p s = (Inl invalid_data, s)"
  by (simp add: write_to_def sendable_packet_def)

lemma read_marker_quiet:
  "quiet s \<Longrightarrow> pending s = b # rest \<Longrightarrow>
    \<exists>s'. read_marker s = (Inr (Some b), s') \<and> pending s' = rest \<and> quiet s' \<and> same_writer s s'"
proof (induction s rule: read_marker.induct)
  case (1 s)
  then obtain ev es where ev: "incoming s = ev # es"
    by (cases "incoming s") (simp_all add: pending_def)
  let ?s' = "s\<lparr>incoming := es\<rparr>"
  have q: "quiet_event ev" "quiet ?s'"
    using "1.prems" ev by (simp_all add: quiet_def)
  show ?case
  proof (cases ev)
    case Interruption
    then have read: "stream_read 1 s = (Inl (Io Interrupted), ?s')"
      using ev by (simp add: stream_read.simps)
    have "pending ?s' = b # rest"
      using "1.prems" ev Interruption by (simp add: pending_def)
    from "1.IH"[OF read[symmetric] refl refl q(2) this] show ?thesis
      using read by (subst read_marker.simps) (simp add: same_writer_def)
  next
    case (Arrived bs)
    then obtain c cs where bs: "bs = c # cs"
      using q(1) by (cases bs) simp_all
    have "c = b" and "cs @ concat (map event_bytes es) = rest"
      using "1.prems" ev Arrived bs by (simp_all add: pending_def)
    then show ?thesis
      using ev Arrived bs q(2)
      by (subst read_marker.simps) (auto simp: stream_read.simps pending_def quiet_def same_writer_def)
  qed (use q in simp_all)
qed

lemma read_marker_end: "quiet s \<Longrightarrow> pending s = [] \<Longrightarrow> \<exists>s'. read_marker s = (Inr None, s')"
proof (induction s rule: read_marker.induct)
  case (1 s)
  show ?case
  proof (cases "incoming s")
    case Nil
    then show ?thesis
      by (subst read_marker.simps) (simp add: stream_read.simps)
  next
    case (Cons ev es)
    let ?s' = "s\<lparr>incoming := es\<rparr>"
    have q: "quiet_event ev" "quiet ?s'"
      using "1.prems" Cons by (simp_all add: quiet_def)
    have "ev = Interruption"
      using "1.prems" Cons q(1) by (cases ev) (simp_all add: pending_def)
    then have read: "stream_read 1 s = (Inl (Io Interrupted), ?s')"
      using Cons by (simp add: stream_read.simps)
    have "pending ?s' = []"
      using "1.prems" Cons by (simp add: pending_def)
    from "1.IH"[OF read[symmetric] refl refl q(2) this] show ?thesis
      using read by (subst read_marker.simps) simp
  qed
qed

text \<open>On a quiet stream the reader is a function of the bytes to come.\<close>

lemma read_from_head:
  assumes "quiet s" and "pending s = 0xFF # i # a # b # rest"
  defines "n \<equiv> from_le [a, b]"
  shows "n < 4 \<Longrightarrow> \<exists>s'. read_from s = (Inl invalid_data, s')"
    and "4 \<le> n \<Longrightarrow> length rest < n - 4 \<Longrightarrow> \<exists>s'. read_from s = (Inl (Io UnexpectedEof), s')"
    and "4 \<le> n \<Longrightarrow> n - 4 \<le> length rest \<Longrightarrow>
      \<exists>s'. read_from s = (Inr (Some \<lparr>packet_id = i, packet_payload = take (n - 4) rest\<rparr>), s')
        \<and> pending s' = drop (n - 4) rest \<and> quiet s' \<and> same_writer s s'"
proof -
  have n: "n \<le> 65535"
    using from_le_less[of "[a, b]"] by (simp add: n_def)
  obtain s1 where s1: "read_marker s = (Inr (Some 0xFF), s1)" "pending s1 = i # a # b # rest" "quiet s1" "same_writer s s1"
    using read_marker_quiet[OF assms(1,2)] by blast
  obtain s2 where s2: "read_exact 3 s1 = (Inr [i, a, b], s2)" "pending s2 = rest" "quiet s2" "same_writer s1 s2"
    using read_exact_quiet[OF s1(3), of 3] s1(2) by (auto simp: numeral_3_eq_3)
  have step: "read_from s =
      (if n < 4 then fail invalid_data
       else bindM (read_exact (n - 4)) (\<lambda>pl. ret (Some \<lparr>packet_id = i, packet_payload = pl\<rparr>))) s2"
    using s1(1) s2(1) n by (simp add: read_from_def n_def Let_def)
  show "\<exists>s'. read_from s = (Inl invalid_data, s')" if "n < 4"
    using that step by simp
  show "\<exists>s'. read_from s = (Inl (Io UnexpectedEof), s')" if "4 \<le> n" "length rest < n - 4"
    using read_exact_short[OF s2(3), of "n - 4"] that s2(2) step by auto
  show "\<exists>s'. read_from s = (Inr (Some \<lparr>packet_id = i, packet_payload = take (n - 4) rest\<rparr>), s')
        \<and> pending s' = drop (n - 4) rest \<and> quiet s' \<and> same_writer s s'" if le: "4 \<le> n" "n - 4 \<le> length rest"
  proof -
    obtain s3 where s3: "read_exact (n - 4) s2 = (Inr (take (n - 4) rest), s3)" "pending s3 = drop (n - 4) rest"
        "quiet s3" "same_writer s2 s3"
      using read_exact_quiet[OF s2(3), of "n - 4"] le s2(2) by auto
    then show ?thesis
      using step le same_writer_trans[OF s1(4) same_writer_trans[OF s2(4) s3(4)]] by auto
  qed
qed

lemma read_from_image:
  assumes "sendable_packet p" and "quiet s" and "pending s = packet_image p @ rest"
  shows "\<exists>s'. read_from s = (Inr (Some p), s') \<and> pending s' = rest \<and> quiet s' \<and> same_writer s s'"
proof -
  let ?n = "length (packet_payload p) + 4"
  obtain a b where ab: "to_le 2 ?n = [a, b]"
    by (simp add: numeral_2_eq_2)
  have "from_le [a, b] = ?n"
    using from_le_to_le[of 2 ?n] assms(1) by (simp add: ab sendable_packet_def del: from_le.simps)
  moreover obtain i pl where p: "p = \<lparr>packet_id = i, packet_payload = pl\<rparr>"
    by (cases p)
  ultimately show ?thesis
    using read_from_head(3)[OF assms(2), of i a b "pl @ rest"] assms(3) ab
    unfolding p by (simp add: packet_image_def)
qed

interpretation bncs: packet_stream read_from packet_image Some sendable_packet
  by unfold_locales (rule read_from_image)

lemma read_from_end: "quiet s \<Longrightarrow> pending s = [] \<Longrightarrow> \<exists>s'. read_from s = (Inr None, s')"
  using read_marker_end[of s] by (auto simp: read_from_def)

lemma read_from_marker:
  assumes "quiet s" and "pending s = b # rest" and "b \<noteq> 0xFF"
  shows "\<exists>s'. read_from s = (Inl invalid_data, s')"
  using read_marker_quiet[OF assms(1,2)] assms(3) by (auto simp: read_from_def)

lemma read_from_cut_head:
  assumes "quiet s" and "pending s = 0xFF # rest" and "length rest < 3"
  shows "\<exists>s'. read_from s = (Inl (Io UnexpectedEof), s')"
proof -
  obtain s1 where s1: "read_marker s = (Inr (Some 0xFF), s1)" "pending s1 = rest" "quiet s1"
    using read_marker_quiet[OF assms(1,2)] by blast
  obtain s2 where "read_exact 3 s1 = (Inl (Io UnexpectedEof), s2)"
    using read_exact_short[OF s1(3), of 3] s1(2) assms(3) by auto
  then show ?thesis
    using s1(1) by (auto simp: read_from_def)
qed

text \<open>A proper beginning of a packet is a stream that ends too early.\<close>

lemma read_from_cut:
  assumes q: "quiet s" "pending s = stub" and p: "sendable_packet p" "packet_image p = stub @ rest" "rest \<noteq> []" "stub \<noteq> []"
  shows "\<exists>s'. read_from s = (Inl (Io UnexpectedEof), s')"
proof -
  let ?n = "length (packet_payload p) + 4"
  obtain a b where ab: "to_le 2 ?n = [a, b]"
    by (simp add: numeral_2_eq_2)
  have img: "packet_image p = 0xFF # packet_id p # a # b # packet_payload p"
    by (simp add: packet_image_def ab)
  obtain tl where tl: "stub = 0xFF # tl"
    using p(2,4) img by (cases stub) auto
  show ?thesis
  proof (cases "length tl < 3")
    case True
    then show ?thesis
      using read_from_cut_head[OF q(1), of tl] q(2) tl by simp
  next
    case False
    then obtain i a' b' body where body: "tl = i # a' # b' # body"
      by (metis One_nat_def Suc_eq_plus1 Suc_leI leI list.size(3,4) neq_Nil_conv not_less_eq_eq numeral_3_eq_3 zero_less_Suc)
    then have same: "a' = a" "b' = b" "packet_payload p = body @ rest"
      using p(2) tl img by simp_all
    have "from_le [a, b] = ?n"
      using from_le_to_le[of 2 ?n] p(1) by (simp add: ab sendable_packet_def del: from_le.simps)
    then show ?thesis
      using read_from_head(2)[OF q(1), of i a b body] q(2) tl body same p(3) by simp
  qed
qed

text \<open>What is read is what is there: no other bytes yield the packet.\<close>

lemma read_from_exact:
  assumes "quiet s" and "read_from s = (Inr (Some p), s')"
  shows "sendable_packet p \<and> pending s = packet_image p @ pending s'"
proof -
  obtain m rest where m: "pending s = m # rest"
    using read_from_end[OF assms(1)] assms(2) by (cases "pending s") auto
  have "m = 0xFF"
    using read_from_marker[OF assms(1) m] assms(2) by auto
  moreover have "\<not> length rest < 3"
    using read_from_cut_head[OF assms(1), of rest] assms(2) m calculation by auto
  then obtain i a b tl where rest: "rest = i # a # b # tl"
    by (cases rest rule: remdups_adj.cases; cases "tl (tl rest)") auto
  ultimately have all: "pending s = 0xFF # i # a # b # tl"
    using m by simp
  note head = read_from_head[OF assms(1) all]
  have n: "4 \<le> from_le [a, b]" "from_le [a, b] - 4 \<le> length tl"
    using head(1,2) assms(2) by (fastforce simp: not_less)+
  from head(3)[OF this] have p: "p = \<lparr>packet_id = i, packet_payload = take (from_le [a, b] - 4) tl\<rparr>"
      "pending s' = drop (from_le [a, b] - 4) tl"
    using assms(2) by auto
  have len: "length (packet_payload p) + 4 = from_le [a, b]"
    using n by (simp add: p)
  have "to_le 2 (from_le [a, b]) = [a, b]"
    using to_le_from_le[of "[a, b]"] by (simp add: numeral_2_eq_2)
  then have "packet_image p @ pending s' = pending s"
    unfolding packet_image_def len using p all by simp
  moreover have "sendable_packet p"
    unfolding sendable_packet_def len using from_le_less[of "[a, b]"] by simp
  ultimately show ?thesis by simp
qed

section \<open>Payload fields\<close>

lemma position_of_append: "\<forall>x \<in> set xs. \<not> P x \<Longrightarrow> P y \<Longrightarrow> position_of P (xs @ y # ys) = Some (length xs)"
  by (induction xs) auto

lemma position_of_None: "position_of P xs = None \<longleftrightarrow> (\<forall>x \<in> set xs. \<not> P x)"
  by (induction xs) auto

lemma position_of_Some: "position_of P xs = Some n \<Longrightarrow> n < length xs \<and> P (xs ! n) \<and> (\<forall>x \<in> set (take n xs). \<not> P x)"
  by (induction xs arbitrary: n) (auto split: if_splits)

definition c_text :: "bytes \<Rightarrow> bool" where
  "c_text s \<longleftrightarrow> 0 \<notin> set s \<and> utf8_valid s"

lemma read_c_string_put:
  assumes "c_text s" and "rdata r = pre @ put_c_string s @ rest" and "roffset r = length pre"
  shows "read_c_string r = (Some s, r\<lparr>roffset := length (pre @ put_c_string s)\<rparr>)"
proof -
  have "position_of (\<lambda>b. b = 0) (s @ 0 # rest) = Some (length s)"
    using assms(1) by (intro position_of_append) (auto simp: c_text_def)
  then show ?thesis
    using assms by (simp add: read_c_string_def put_c_string_def c_text_def)
qed

lemma read_dword_put:
  assumes "rdata r = pre @ put_dword v @ rest" and "roffset r = length pre"
  shows "read_dword r = (Some v, r\<lparr>roffset := length (pre @ put_dword v)\<rparr>)"
proof -
  have "unat v < 2 ^ LENGTH(32)"
    by (rule unsigned_less)
  then have "from_le (to_le 4 (unat v)) = unat v"
    by (simp add: from_le_to_le)
  moreover have "slice_of (pre @ to_le 4 (unat v) @ rest) (length pre) (length pre + 4) = to_le 4 (unat v)"
    by (rule slice_append_mid) simp_all
  ultimately show ?thesis
    using assms by (simp add: read_dword_def get_slice_def put_dword_def)
qed

lemma length_put_dword [simp]: "length (put_dword v) = 4"
  by (simp add: put_dword_def)

lemma c_string_at_put:
  assumes "c_text s" and "length pre = n"
  shows "c_string_at (pre @ put_c_string s @ rest) n = Some s"
proof -
  have "position_of (\<lambda>b. b = 0) (s @ 0 # rest) = Some (length s)"
    using assms(1) by (intro position_of_append) (auto simp: c_text_def)
  then show ?thesis
    using assms by (simp add: c_string_at_def put_c_string_def c_text_def)
qed

section \<open>What a handler keeps\<close>

text \<open>A triple with a postcondition for success and one for failure.\<close>

definition triple :: "('s \<Rightarrow> bool) \<Rightarrow> ('s, 'a) op \<Rightarrow> ('a \<Rightarrow> 's \<Rightarrow> bool) \<Rightarrow> (error \<Rightarrow> 's \<Rightarrow> bool) \<Rightarrow> bool" where
  "triple P m Q E \<longleftrightarrow> (\<forall>s. P s \<longrightarrow> (case m s of (Inr x, s') \<Rightarrow> Q x s' | (Inl e, s') \<Rightarrow> E e s'))"

lemma triple_bind:
  assumes "triple P m R E" and "\<And>x. triple (R x) (f x) Q E"
  shows "triple P (bindM m f) Q E"
  using assms unfolding triple_def bindM_def
  by (fastforce split: prod.splits sum.splits)

lemma triple_ret: "(\<And>s. P s \<Longrightarrow> Q x s) \<Longrightarrow> triple P (ret x) Q E"
  by (simp add: triple_def)

lemma triple_fail: "(\<And>s. P s \<Longrightarrow> E e s) \<Longrightarrow> triple P (fail e) Q E"
  by (simp add: triple_def)

lemma triple_gets: "triple P (getsM f) (\<lambda>x s. P s \<and> x = f s) E"
  by (simp add: triple_def)

lemma triple_modify: "(\<And>s. P s \<Longrightarrow> Q () (f s)) \<Longrightarrow> triple P (modifyM f) Q E"
  by (simp add: triple_def)

lemma triple_lift:
  "(\<And>x s. P s \<Longrightarrow> r = Inr x \<Longrightarrow> Q x s) \<Longrightarrow> (\<And>e s. P s \<Longrightarrow> r = Inl e \<Longrightarrow> E e s) \<Longrightarrow> triple P (liftR r) Q E"
  by (cases r) (simp_all add: triple_def)

lemma triple_if:
  "(c \<Longrightarrow> triple P m Q E) \<Longrightarrow> (\<not> c \<Longrightarrow> triple P n Q E) \<Longrightarrow> triple P (if c then m else n) Q E"
  by simp

lemma triple_weaken:
  "triple P' m Q' E \<Longrightarrow> (\<And>s. P s \<Longrightarrow> P' s) \<Longrightarrow> (\<And>x s. Q' x s \<Longrightarrow> Q x s) \<Longrightarrow> triple P m Q E"
  unfolding triple_def by (fastforce split: prod.splits sum.splits)

lemmas triple_intros = triple_bind triple_ret triple_fail triple_gets triple_modify triple_lift triple_if

section \<open>The invariant of a peer\<close>

text \<open>The client has named the selected account in a logon packet.\<close>

definition presents :: "bytes \<Rightarrow> packet \<Rightarrow> bool" where
  "presents expected p \<longleftrightarrow>
     (\<exists>name. eq_ignore_ascii_case name expected \<and>
       (packet_id p = SID_AUTH_ACCOUNT_LOGON \<and> c_string_at (packet_payload p) 32 = Some name \<or>
        packet_id p \<in> {SID_LOGON_RESPONSE, SID_LOGON_RESPONSE2} \<and> c_string_at (packet_payload p) 28 = Some name))"

text \<open>What has been written: whole packets, and the beginning of one more only when the writer takes nothing any more.\<close>

definition whole_packets :: "packet list \<Rightarrow> bytes \<Rightarrow> wire_stream \<Rightarrow> bool" where
  "whole_packets ps stub w \<longleftrightarrow> list_all sendable_packet ps \<and> outgoing w = concat (map packet_image ps) @ stub
     \<and> (stub = [] \<or> room w = Some 0 \<and> (\<exists>p rest. sendable_packet p \<and> packet_image p = stub @ rest \<and> rest \<noteq> []))"

definition packets_out :: "legacy_peer \<Rightarrow> bool" where
  "packets_out s \<longleftrightarrow> (\<exists>ps stub. whole_packets ps stub (writer s))"

definition peer_ok :: "bytes \<Rightarrow> bool \<Rightarrow> legacy_peer \<Rightarrow> bool" where
  "peer_ok expected presented s \<longleftrightarrow>
     expected_account s = expected
     \<and> (account_accepted s \<longrightarrow> account_matches s \<and> presented)
     \<and> (logged_on s \<longrightarrow> account_accepted s)
     \<and> (pending_ping s \<noteq> None \<longrightarrow> keepalives_active s)
     \<and> packets_out s"

lemma account_matches_updates [simp]:
  "account_matches (s\<lparr>logged_on := v0\<rparr>) = account_matches s"
  "account_matches (s\<lparr>logon_style := v1\<rparr>) = account_matches s"
  "account_matches (s\<lparr>account_accepted := v2\<rparr>) = account_matches s"
  "account_matches (s\<lparr>keepalives_active := v3\<rparr>) = account_matches s"
  "account_matches (s\<lparr>next_null := v4\<rparr>) = account_matches s"
  "account_matches (s\<lparr>next_ping := v5\<rparr>) = account_matches s"
  "account_matches (s\<lparr>pending_ping := v6\<rparr>) = account_matches s"
  "account_matches (s\<lparr>writer := w\<rparr>) = account_matches s"
  by (simp_all add: account_matches_def split: option.split)

lemma packets_out_updates [simp]:
  "packets_out (s\<lparr>logged_on := v0\<rparr>) = packets_out s"
  "packets_out (s\<lparr>logon_style := v1\<rparr>) = packets_out s"
  "packets_out (s\<lparr>account_accepted := v2\<rparr>) = packets_out s"
  "packets_out (s\<lparr>keepalives_active := v3\<rparr>) = packets_out s"
  "packets_out (s\<lparr>next_null := v4\<rparr>) = packets_out s"
  "packets_out (s\<lparr>next_ping := v5\<rparr>) = packets_out s"
  "packets_out (s\<lparr>pending_ping := v6\<rparr>) = packets_out s"
  "packets_out (s\<lparr>account_name := n\<rparr>) = packets_out s"
  by (simp_all add: packets_out_def)

definition sent :: "packet \<Rightarrow> legacy_peer \<Rightarrow> legacy_peer" where
  "sent p s = s\<lparr>writer := (writer s)\<lparr>outgoing := outgoing (writer s) @ packet_image p\<rparr>\<rparr>"

lemma send_packet_ok:
  assumes "room (writer s) = None"
  shows "send_packet sid pl s =
    (if sendable_packet \<lparr>packet_id = sid, packet_payload = pl\<rparr>
     then (Inr (), sent \<lparr>packet_id = sid, packet_payload = pl\<rparr> s) else (Inl invalid_data, s))"
  using assms by (simp add: send_packet_def on_writer_def write_to_ok write_to_too_long sent_def)

lemma sent_simps [simp]:
  "expected_account (sent p s) = expected_account s" "account_name (sent p s) = account_name s"
  "logon_style (sent p s) = logon_style s" "account_accepted (sent p s) = account_accepted s"
  "logged_on (sent p s) = logged_on s" "keepalives_active (sent p s) = keepalives_active s"
  "next_null (sent p s) = next_null s" "next_ping (sent p s) = next_ping s"
  "pending_ping (sent p s) = pending_ping s" "room (writer (sent p s)) = room (writer s)"
  "outgoing (writer (sent p s)) = outgoing (writer s) @ packet_image p"
  "account_matches (sent p s) = account_matches s"
  by (simp_all add: sent_def)

text \<open>A write that is cut short leaves the beginning of what was to be written, and the writer takes nothing more.\<close>

lemma write_all_cases:
  obtains (all) r where "write_all bs w = (Inr (), w\<lparr>outgoing := outgoing w @ bs, room := r\<rparr>)" "room w = Some 0 \<Longrightarrow> bs = [] \<and> r = Some 0"
    | (stub) k where "write_all bs w = (Inl (Io (OtherIo 0)), w\<lparr>outgoing := outgoing w @ take k bs, room := Some 0\<rparr>)" "k < length bs"
        "room w = Some 0 \<Longrightarrow> k = 0"
proof (cases "room w")
  case None
  then show ?thesis
    by (intro all[of None]) (simp_all add: write_all_def)
next
  case (Some k)
  then show ?thesis
    using all[of "Some (k - length bs)"] stub[of k] by (cases "length bs \<le> k") (auto simp: write_all_def)
qed

text \<open>A sequence of writes puts out all of its bytes or a proper beginning of them.\<close>

definition puts :: "(wire_stream, unit) op \<Rightarrow> bytes \<Rightarrow> bool" where
  "puts m bs \<longleftrightarrow> (\<forall>w. (\<exists>r. m w = (Inr (), w\<lparr>outgoing := outgoing w @ bs, room := r\<rparr>) \<and> (room w = Some 0 \<longrightarrow> bs = [] \<and> r = Some 0))
     \<or> (\<exists>k. m w = (Inl (Io (OtherIo 0)), w\<lparr>outgoing := outgoing w @ take k bs, room := Some 0\<rparr>) \<and> k < length bs
          \<and> (room w = Some 0 \<longrightarrow> k = 0)))"

lemma puts_all: "puts (write_all bs) bs"
  unfolding puts_def
proof
  fix w
  show "(\<exists>r. write_all bs w = (Inr (), w\<lparr>outgoing := outgoing w @ bs, room := r\<rparr>) \<and> (room w = Some 0 \<longrightarrow> bs = [] \<and> r = Some 0))
     \<or> (\<exists>k. write_all bs w = (Inl (Io (OtherIo 0)), w\<lparr>outgoing := outgoing w @ take k bs, room := Some 0\<rparr>) \<and> k < length bs
          \<and> (room w = Some 0 \<longrightarrow> k = 0))"
    by (cases rule: write_all_cases[of bs w]) blast+
qed

lemma puts_bind:
  assumes "puts m as" and "puts n bs"
  shows "puts (bindM m (\<lambda>_. n)) (as @ bs)"
  unfolding puts_def
proof
  fix w
  consider (ok) r where "m w = (Inr (), w\<lparr>outgoing := outgoing w @ as, room := r\<rparr>)" "room w = Some 0 \<longrightarrow> as = [] \<and> r = Some 0"
    | (stub) k where "m w = (Inl (Io (OtherIo 0)), w\<lparr>outgoing := outgoing w @ take k as, room := Some 0\<rparr>)" "k < length as"
        "room w = Some 0 \<longrightarrow> k = 0"
    using assms(1) unfolding puts_def by blast
  then show "(\<exists>r. bindM m (\<lambda>_. n) w = (Inr (), w\<lparr>outgoing := outgoing w @ as @ bs, room := r\<rparr>) \<and> (room w = Some 0 \<longrightarrow> as @ bs = [] \<and> r = Some 0))
     \<or> (\<exists>k. bindM m (\<lambda>_. n) w = (Inl (Io (OtherIo 0)), w\<lparr>outgoing := outgoing w @ take k (as @ bs), room := Some 0\<rparr>) \<and> k < length (as @ bs)
          \<and> (room w = Some 0 \<longrightarrow> k = 0))"
  proof cases
    case ok
    let ?w = "w\<lparr>outgoing := outgoing w @ as, room := r\<rparr>"
    consider (ok2) r' where "n ?w = (Inr (), ?w\<lparr>outgoing := outgoing ?w @ bs, room := r'\<rparr>)" "room ?w = Some 0 \<longrightarrow> bs = [] \<and> r' = Some 0"
      | (cut2) k where "n ?w = (Inl (Io (OtherIo 0)), ?w\<lparr>outgoing := outgoing ?w @ take k bs, room := Some 0\<rparr>)" "k < length bs"
          "room ?w = Some 0 \<longrightarrow> k = 0"
      using assms(2) unfolding puts_def by blast
    then show ?thesis
    proof cases
      case ok2
      then show ?thesis
        using ok by auto
    next
      case cut2
      then show ?thesis
        using ok by (intro disjI2 exI[of _ "length as + k"]) auto
    qed
  next
    case stub
    then show ?thesis
      by (intro disjI2 exI[of _ k]) auto
  qed
qed

lemma puts_packet: "sendable_packet p \<Longrightarrow> puts (write_to p) (packet_image p)"
proof -
  assume "sendable_packet p"
  then have "write_to p = bindM (write_all [0xFF, packet_id p]) (\<lambda>_.
      bindM (write_all (to_le 2 (length (packet_payload p) + 4))) (\<lambda>_. write_all (packet_payload p)))"
    by (simp add: write_to_def sendable_packet_def)
  then show ?thesis
    unfolding packet_image_def by (simp only:) (intro puts_bind puts_all)
qed

lemma whole_packets_put:
  assumes out: "whole_packets ps stub w" and p: "sendable_packet p" and run: "write_to p w = (v, w')"
  shows "\<exists>ps stub. whole_packets ps stub w'" and "\<exists>o' r. w' = w\<lparr>outgoing := o', room := r\<rparr>" and "v = Inr () \<or> v = Inl (Io (OtherIo 0))"
proof -
  let ?img = "packet_image p"
  have img: "?img \<noteq> []"
    by (simp add: packet_image_def)
  consider (ok) r where "v = Inr ()" "w' = w\<lparr>outgoing := outgoing w @ ?img, room := r\<rparr>" "room w \<noteq> Some 0"
    | (stub) k where "v = Inl (Io (OtherIo 0))" "w' = w\<lparr>outgoing := outgoing w @ take k ?img, room := Some 0\<rparr>" "k < length ?img"
        "room w = Some 0 \<longrightarrow> k = 0"
  proof -
    have "(\<exists>r. write_to p w = (Inr (), w\<lparr>outgoing := outgoing w @ ?img, room := r\<rparr>) \<and> (room w = Some 0 \<longrightarrow> ?img = [] \<and> r = Some 0))
      \<or> (\<exists>k. write_to p w = (Inl (Io (OtherIo 0)), w\<lparr>outgoing := outgoing w @ take k ?img, room := Some 0\<rparr>) \<and> k < length ?img
          \<and> (room w = Some 0 \<longrightarrow> k = 0))"
      using puts_packet[OF p] unfolding puts_def by (rule spec)
    then show thesis
      unfolding run prod.inject
    proof (elim disjE exE conjE)
      fix r assume "v = Inr ()" "w' = w\<lparr>outgoing := outgoing w @ ?img, room := r\<rparr>" "room w = Some 0 \<longrightarrow> ?img = [] \<and> r = Some 0"
      then show thesis
        using img by (intro ok[of r]) blast+
    next
      fix k assume "v = Inl (Io (OtherIo 0))" "w' = w\<lparr>outgoing := outgoing w @ take k ?img, room := Some 0\<rparr>" "k < length ?img"
        "room w = Some 0 \<longrightarrow> k = 0"
      then show thesis
        by (rule stub)
    qed
  qed
  then have "(\<exists>ps stub. whole_packets ps stub w') \<and> (\<exists>o' r. w' = w\<lparr>outgoing := o', room := r\<rparr>) \<and> (v = Inr () \<or> v = Inl (Io (OtherIo 0)))"
  proof cases
    case ok
    then have "whole_packets (ps @ [p]) [] w'"
      using out p by (auto simp: whole_packets_def)
    then show ?thesis
      using ok by blast
  next
    case cutting: stub
    show ?thesis
    proof (cases "room w = Some 0")
      case True
      then have "whole_packets ps stub w'"
        using out cutting by (auto simp: whole_packets_def)
      then show ?thesis
        using cutting by blast
    next
      case False
      have "?img = take k ?img @ drop k ?img" "drop k ?img \<noteq> []"
        using cutting(3) by simp_all
      then have "whole_packets ps (take k ?img) w'"
        using out p cutting(2) False unfolding whole_packets_def by fastforce
      then show ?thesis
        using cutting by blast
    qed
  qed
  then show "\<exists>ps stub. whole_packets ps stub w'" and "\<exists>o' r. w' = w\<lparr>outgoing := o', room := r\<rparr>"
      and "v = Inr () \<or> v = Inl (Io (OtherIo 0))"
    by blast+
qed

text \<open>Sending touches the writer only.\<close>

lemma send_packet_cases:
  assumes "packets_out s" and "send_packet sid pl s = (v, s')"
  obtains w where "s' = s\<lparr>writer := w\<rparr>" "packets_out s'" "v = Inr () \<or> v = Inl (Io (OtherIo 0)) \<or> v = Inl invalid_data"
proof (cases "sendable_packet \<lparr>packet_id = sid, packet_payload = pl\<rparr>")
  case True
  obtain w where w: "write_to \<lparr>packet_id = sid, packet_payload = pl\<rparr> (writer s) = (v, w)" "s' = s\<lparr>writer := w\<rparr>"
    using assms(2) by (auto simp: send_packet_def on_writer_def split: prod.splits)
  obtain ps stub where "whole_packets ps stub (writer s)"
    using assms(1) by (auto simp: packets_out_def)
  from whole_packets_put(1,3)[OF this True w(1)] show ?thesis
    using w(2) by (intro that[of w]) (auto simp: packets_out_def)
next
  case False
  then show ?thesis
    using assms by (intro that[of "writer s"]) (auto simp: send_packet_def on_writer_def write_to_too_long)
qed

lemma peer_ok_writer: "peer_ok x b s \<Longrightarrow> packets_out (s\<lparr>writer := w\<rparr>) \<Longrightarrow> peer_ok x b (s\<lparr>writer := w\<rparr>)"
  by (simp add: peer_ok_def)

text \<open>A handler keeps the invariant whether it succeeds or not, and it never panics.\<close>

abbreviation safe :: "bytes \<Rightarrow> bool \<Rightarrow> error \<Rightarrow> legacy_peer \<Rightarrow> bool" where
  "safe x b \<equiv> \<lambda>e s. peer_ok x b s \<and> \<not> aborting e"

lemma triple_send:
  assumes F: "\<And>w s. F s \<Longrightarrow> F (s\<lparr>writer := w\<rparr>)"
  shows "triple (\<lambda>s. peer_ok x b s \<and> F s) (send_packet sid pl) (\<lambda>_ s. peer_ok x b s \<and> F s) (safe x b)"
  unfolding triple_def
proof (intro allI impI)
  fix s assume s: "peer_ok x b s \<and> F s"
  obtain v s' where run: "send_packet sid pl s = (v, s')"
    by fastforce
  have "packets_out s"
    using s by (simp add: peer_ok_def)
  from send_packet_cases[OF this run] obtain w where w: "s' = s\<lparr>writer := w\<rparr>" "packets_out s'"
      "v = Inr () \<or> v = Inl (Io (OtherIo 0)) \<or> v = Inl invalid_data" .
  then have "peer_ok x b s'" "F s'"
    using s F peer_ok_writer by blast+
  then show "case send_packet sid pl s of (Inr y, s') \<Rightarrow> peer_ok x b s' \<and> F s' | (Inl e, s') \<Rightarrow> safe x b e s'"
    using w(3) by (auto simp: run)
qed

abbreviation keeps_ok :: "bytes \<Rightarrow> bool \<Rightarrow> (legacy_peer, 'a) op \<Rightarrow> bool" where
  "keeps_ok x b m \<equiv> triple (peer_ok x b) m (\<lambda>_. peer_ok x b) (safe x b)"

lemma keeps_send: "keeps_ok x b (send_packet sid pl)"
  using triple_send[of "\<lambda>_. True" x b sid pl] by simp

lemma keeps_bind: "keeps_ok x b m \<Longrightarrow> (\<And>y. keeps_ok x b (f y)) \<Longrightarrow> keeps_ok x b (bindM m f)"
  by (rule triple_bind)

lemma keeps_gets: "(\<And>y. keeps_ok x b (f y)) \<Longrightarrow> keeps_ok x b (bindM (getsM g) f)"
  by (simp add: triple_def)

lemma keeps_lift: "(\<And>e. r = Inl e \<Longrightarrow> \<not> aborting e) \<Longrightarrow> keeps_ok x b (liftR r)"
  by (rule triple_lift) auto

lemma keeps_ret: "keeps_ok x b (ret y)"
  by (rule triple_ret) simp

lemma keeps_fail: "\<not> aborting e \<Longrightarrow> keeps_ok x b (fail e)"
  by (rule triple_fail) simp

lemmas keeps_intros = keeps_send keeps_gets keeps_bind keeps_lift keeps_ret keeps_fail triple_if

lemma keeps_ping: "triple (\<lambda>s. peer_ok x b s \<and> keepalives_active s) (send_ping token now) (\<lambda>_. peer_ok x b) (safe x b)"
  unfolding send_ping_def
  by (rule triple_bind[OF triple_send]) (auto intro!: triple_modify simp: peer_ok_def)

lemma keeps_begin: "keeps_ok x b (begin_keepalives env)"
proof -
  have "triple (\<lambda>s. peer_ok x b s) (modifyM (\<lambda>s. s\<lparr>keepalives_active := True, next_null := n\<rparr>))
      (\<lambda>_ s. peer_ok x b s \<and> keepalives_active s) (safe x b)" for n
    by (rule triple_modify) (simp add: peer_ok_def)
  then show ?thesis
    unfolding begin_keepalives_def
    by (intro keeps_gets triple_if keeps_ret) (rule triple_bind[OF _ keeps_ping])
qed

lemma keeps_success:
  "keeps_ok x b send_logon_success"
proof -
  have on: "triple (\<lambda>s. peer_ok x b s \<and> account_accepted s) (modifyM (\<lambda>s. s\<lparr>logged_on := True\<rparr>)) (\<lambda>_. peer_ok x b) (safe x b)"
    by (rule triple_modify) (simp add: peer_ok_def)
  have tail: "keeps_ok x b (bindM (getsM logon_style) (\<lambda>style.
       case (case style of None \<Rightarrow> Old | Some st \<Rightarrow> st) of
         Legacy \<Rightarrow> send_packet SID_LOGON_RESPONSE (put_dword 1)
       | Old \<Rightarrow> send_packet SID_LOGON_RESPONSE2 (put_dword 0)
       | New \<Rightarrow> send_packet SID_AUTH_ACCOUNT_LOGON_PROOF (put_dword 0 @ replicate 20 0 @ put_c_string [])))"
    by (intro keeps_gets) (simp add: keeps_send split: logon_style.split)
  show ?thesis
    unfolding send_logon_success_def
  proof (rule triple_bind[OF triple_gets], rule triple_if)
    fix accepted
    assume "\<not> accepted"
    then show "triple (\<lambda>s. peer_ok x b s \<and> accepted = account_accepted s) (fail invalid_data) (\<lambda>_. peer_ok x b) (safe x b)"
      by (intro triple_fail) simp
  next
    fix accepted
    assume "\<not> \<not> accepted"
    then have "triple (\<lambda>s. peer_ok x b s \<and> accepted = account_accepted s) (modifyM (\<lambda>s. s\<lparr>logged_on := True\<rparr>)) (\<lambda>_. peer_ok x b) (safe x b)"
      by (intro triple_weaken[OF on]) auto
    from triple_bind[OF this tail]
    show "triple (\<lambda>s. peer_ok x b s \<and> accepted = account_accepted s)
        (bindM (modifyM (\<lambda>s. s\<lparr>logged_on := True\<rparr>)) (\<lambda>_. bindM (getsM logon_style) (\<lambda>style.
           case (case style of None \<Rightarrow> Old | Some st \<Rightarrow> st) of
             Legacy \<Rightarrow> send_packet SID_LOGON_RESPONSE (put_dword 1)
           | Old \<Rightarrow> send_packet SID_LOGON_RESPONSE2 (put_dword 0)
           | New \<Rightarrow> send_packet SID_AUTH_ACCOUNT_LOGON_PROOF (put_dword 0 @ replicate 20 0 @ put_c_string []))))
        (\<lambda>_. peer_ok x b) (safe x b)"
      by simp
  qed
qed

text \<open>Parsing a payload fails only with \<open>InvalidData\<close>.\<close>

definition calm :: "(payload_reader, 'a) op \<Rightarrow> bool" where
  "calm m \<longleftrightarrow> (\<forall>r e r'. m r = (Inl e, r') \<longrightarrow> e = invalid_data)"

lemma calm_bind: "calm m \<Longrightarrow> (\<And>y. calm (f y)) \<Longrightarrow> calm (bindM m f)"
  unfolding calm_def bindM_Inl_iff by blast

lemma calm_required: "calm (required m)"
  by (auto simp: calm_def required_def split: prod.splits option.splits)

lemma calm_unwrap: "calm (unwrap_or d m)"
  by (auto simp: calm_def unwrap_or_def split: prod.splits option.splits)

lemma calm_consumed: "calm require_consumed"
  by (auto simp: calm_def require_consumed_def split: if_splits)

lemma calm_simple: "calm (ret y)" "calm (fail invalid_data)" "calm (getsM f)"
  by (simp_all add: calm_def)

lemma calm_if: "calm m \<Longrightarrow> calm n \<Longrightarrow> calm (if c then m else n)"
  by simp

lemma calm_forM: "(\<And>y. calm (f y)) \<Longrightarrow> calm (forM ys f)"
proof (induction ys)
  case Nil
  then show ?case by (simp add: calm_simple del: ret_apply)
next
  case (Cons y ys)
  then show ?case by (simp add: calm_bind calm_simple del: ret_apply)
qed

lemmas calm_intros = calm_bind calm_required calm_unwrap calm_consumed calm_simple calm_if calm_forM

lemma calm_parse: "calm m \<Longrightarrow> parse_payload m data = Inl e \<Longrightarrow> e = invalid_data"
  unfolding calm_def parse_payload_def by (metis prod.collapse)

lemma requests_calm:
  "calm join_request" "calm read_user_data_request" "calm read_file_time_request"
  unfolding join_request_def read_user_data_request_def read_file_time_request_def
  by (intro calm_intros)+

lemma validate_calm: "validate_enter_chat p = Inl e \<Longrightarrow> e = invalid_data"
  unfolding validate_enter_chat_def by (erule calm_parse[rotated]) (intro calm_intros)

lemma keeps_parse: "calm m \<Longrightarrow> keeps_ok x b (liftR (parse_payload m data))"
  by (rule keeps_lift) (auto dest: calm_parse)

text \<open>Judging an account.\<close>

lemma keeps_judge:
  assumes "\<And>n. name = Some n \<Longrightarrow> eq_ignore_ascii_case n x \<Longrightarrow> b"
  shows "keeps_ok x b (modifyM (judge_account style name))"
  using assms
  by (intro triple_modify)
    (auto simp: peer_ok_def judge_account_def Let_def account_matches_def packets_out_def split: option.splits)

lemma keeps_replies:
  "keeps_ok x b send_auth_check_success" "keeps_ok x b send_legacy_creation_rejected"
  "keeps_ok x b send_old_creation_rejected" "keeps_ok x b send_new_creation_rejected"
  "keeps_ok x b send_report_version_success" "keeps_ok x b send_cd_key_success"
  "keeps_ok x b send_query_realms_response" "keeps_ok x b send_icon_response"
  "keeps_ok x b send_new_logon_proof_failure"
  unfolding send_auth_check_success_def send_legacy_creation_rejected_def send_old_creation_rejected_def
    send_new_creation_rejected_def send_report_version_success_def send_cd_key_success_def
    send_query_realms_response_def send_icon_response_def send_new_logon_proof_failure_def
  by (rule keeps_send)+

lemma keeps_auth_info: "keeps_ok x b (handle_auth_info env)"
  unfolding handle_auth_info_def by (intro keeps_bind keeps_begin keeps_replies)

lemma keeps_start_versioning: "keeps_ok x b (handle_start_versioning env)"
  unfolding handle_start_versioning_def by (intro keeps_bind keeps_send keeps_begin keeps_replies)

lemma keeps_new_logon:
  assumes "\<And>n. c_string_at pl 32 = Some n \<Longrightarrow> eq_ignore_ascii_case n x \<Longrightarrow> b"
  shows "keeps_ok x b (handle_new_logon pl)"
  unfolding handle_new_logon_def by (intro keeps_bind[OF keeps_judge] keeps_gets keeps_send assms)

lemma keeps_old_logon:
  assumes "\<And>n. c_string_at pl 28 = Some n \<Longrightarrow> eq_ignore_ascii_case n x \<Longrightarrow> b" and "style \<noteq> New"
  shows "keeps_ok x b (handle_old_logon pl style)"
proof -
  have "keeps_ok x b (send_old_logon_failure style)"
    using assms(2) by (cases style) (simp_all add: send_old_logon_failure_def keeps_send)
  then show ?thesis
    unfolding handle_old_logon_def
    by (intro keeps_bind[OF keeps_judge] keeps_gets triple_if keeps_success assms(1))
qed

lemma keeps_logon_proof: "keeps_ok x b handle_logon_proof"
proof -
  have "keeps_ok x b (modifyM (\<lambda>s. s\<lparr>logon_style := Some New\<rparr>))"
    by (rule triple_modify) (simp add: peer_ok_def)
  then show ?thesis
    unfolding handle_logon_proof_def
    by (intro keeps_bind keeps_gets triple_if keeps_success keeps_replies)
qed

lemma keeps_file_time: "keeps_ok x b (send_file_time_response pl)"
  unfolding send_file_time_response_def
  by (intro keeps_bind keeps_parse requests_calm) (auto intro: keeps_send split: prod.split)

lemma keeps_user_data: "keeps_ok x b (handle_read_user_data p)"
  unfolding handle_read_user_data_def
  by (intro keeps_bind keeps_parse requests_calm)
    (auto simp: Let_def intro!: keeps_send keeps_fail simp del: fail_apply split: prod.split)

lemma first_dword_ok: "4 \<le> length pl \<Longrightarrow> first_dword pl = Inr (of_nat (from_le (take 4 pl)))"
  by (simp add: first_dword_def get_slice_def slice_of_def)

lemma keeps_ping_reply: "keeps_ok x b (handle_ping_reply env p)"
  by (cases "length (packet_payload p) = 4")
    (auto simp: triple_def handle_ping_reply_def require_length_def guard_or_def first_dword_ok Let_def peer_ok_def)

lemma keeps_silently: "keeps_ok x b m \<Longrightarrow> keeps_ok x b (silently m)"
  unfolding silently_def by (intro keeps_bind keeps_ret)

lemma keeps_acting: "(\<And>e. r = Inl e \<Longrightarrow> e = invalid_data) \<Longrightarrow> keeps_ok x b (acting r f)"
  unfolding acting_def by (intro keeps_bind keeps_lift keeps_ret) auto

lemma guard_calm: "require_length p n = Inl e \<Longrightarrow> e = invalid_data"
  by (simp add: require_length_def)

text \<open>The length check keeps the slice of a UDP token from panicking.\<close>

lemma udp_calm: "read_udp_token p = Inl e \<Longrightarrow> e = invalid_data"
  by (auto simp: read_udp_token_def require_length_def rbind_Inl_iff first_dword_ok)

lemma command_calm: "validate_chat_command p = Inl e \<Longrightarrow> e = invalid_data"
  by (auto simp: validate_chat_command_def split: if_splits)

lemma handle_keeps:
  assumes "presents x p \<Longrightarrow> b"
  shows "keeps_ok x b (handle env p)"
proof -
  have new: "keeps_ok x b (handle_new_logon (packet_payload p))" if "packet_id p = SID_AUTH_ACCOUNT_LOGON"
    using that assms by (intro keeps_new_logon) (auto simp: presents_def)
  have old: "keeps_ok x b (handle_old_logon (packet_payload p) style)"
    if "packet_id p \<in> {SID_LOGON_RESPONSE, SID_LOGON_RESPONSE2}" "style \<noteq> New" for style
    using that assms by (intro keeps_old_logon) (auto simp: presents_def)
  have length: "keeps_ok x b (liftR (require_length p n))" for n
    by (rule keeps_lift) (auto dest: guard_calm)
  have at_least: "keeps_ok x b (liftR (guard_or invalid_data c))" for c
    by (rule keeps_lift) simp
  have command: "keeps_ok x b (bindM (liftR (validate_chat_command p)) (\<lambda>c. ret (f c)))" for f :: "bytes option \<Rightarrow> action list"
    by (intro keeps_bind keeps_lift keeps_ret) (auto dest: command_calm)
  show ?thesis
    unfolding handle_def Let_def
    by (intro keeps_gets triple_if keeps_silently)
      ((rule length at_least command keeps_auth_info keeps_replies keeps_logon_proof keeps_start_versioning
          keeps_file_time keeps_ping_reply keeps_user_data keeps_ret
        | rule new, assumption
        | rule old, simp, simp
        | rule keeps_acting, erule guard_calm
        | rule keeps_acting, erule udp_calm
        | rule keeps_acting, erule validate_calm
        | rule keeps_acting, erule calm_parse[OF requests_calm(1)])+)
qed

section \<open>Actions need a logon\<close>

fun gated :: "action \<Rightarrow> bool" where
  "gated (EnterChat _) = True"
| "gated (JoinChannel _ _) = True"
| "gated LeaveChat = True"
| "gated RequestFriendsList = True"
| "gated _ = False"

lemma silently_acts: "silently m s = (Inr acts, s') \<Longrightarrow> acts = []"
  by (auto simp: silently_def bindM_Inr_iff)

lemma acting_acts: "acting r f s = (Inr acts, s') \<Longrightarrow> \<exists>y. r = Inr y \<and> acts = [f y] \<and> s' = s"
  by (auto simp: acting_def bindM_Inr_iff)

lemma handle_gated:
  assumes "handle env p s = (Inr acts, s')" and "a \<in> set acts" and "gated a"
  shows "logged_on s \<and> s' = s"
proof -
  have ping: "handle_ping_reply env p s = (Inr acts, s') \<Longrightarrow> False"
    using assms(2,3) by (auto simp: handle_ping_reply_def bindM_Inr_iff Let_def)
  show ?thesis
    using assms
    by (auto simp: handle_def Let_def bindM_Inr_iff
        split: if_splits option.splits dest!: silently_acts acting_acts dest: ping)
qed

lemma handle_enter_name:
  assumes "handle env p s = (Inr acts, s')" and "EnterChat name \<in> set acts"
  shows "name = expected_account s"
proof -
  have ping: "handle_ping_reply env p s = (Inr acts, s') \<Longrightarrow> False"
    using assms(2) by (auto simp: handle_ping_reply_def bindM_Inr_iff Let_def)
  show ?thesis
    using assms
    by (auto simp: handle_def Let_def bindM_Inr_iff
        split: if_splits option.splits dest!: silently_acts acting_acts dest: ping)
qed

text \<open>What a logged-on client asks for is what the gateway is told.\<close>

lemma handle_join:
  assumes "logged_on s" and "c_text channel"
  shows "handle env \<lparr>packet_id = SID_JOIN_CHANNEL, packet_payload = put_dword flags @ put_c_string channel\<rparr> s =
    (Inr [JoinChannel flags channel], s)"
proof -
  let ?pl = "put_dword flags @ put_c_string channel"
  have 1: "read_dword (reader_on ?pl) = (Some flags, (reader_on ?pl)\<lparr>roffset := 4\<rparr>)"
    using read_dword_put[of "reader_on ?pl" "[]" flags "put_c_string channel"] by (simp add: reader_on_def)
  have 2: "read_c_string ((reader_on ?pl)\<lparr>roffset := 4\<rparr>) =
      (Some channel, (reader_on ?pl)\<lparr>roffset := length ?pl\<rparr>)"
    using read_c_string_put[OF assms(2), of "(reader_on ?pl)\<lparr>roffset := 4\<rparr>" "put_dword flags" "[]"]
    by (simp add: reader_on_def)
  have "parse_payload join_request ?pl = Inr (flags, channel)"
    using 1 2 by (simp add: parse_payload_def join_request_def required_def require_consumed_def remaining_bytes_def reader_on_def)
  then show ?thesis
    using assms(1) by (simp add: handle_def acting_def)
qed

section \<open>Keepalives\<close>

lemma sendable_small: "length pl < 65532 \<Longrightarrow> sendable_packet \<lparr>packet_id = sid, packet_payload = pl\<rparr>"
  by (simp add: sendable_packet_def)

lemma send_ping_ok:
  "room (writer s) = None \<Longrightarrow> send_ping token now s =
    (Inr (), (sent \<lparr>packet_id = SID_PING, packet_payload = put_dword token\<rparr> s)
       \<lparr>pending_ping := Some (token, now), next_ping := now + PING_INTERVAL\<rparr>)"
  by (simp add: send_ping_def send_packet_ok sendable_small)

lemma service_keepalive_ok:
  assumes "keepalives_active s" and "room (writer s) = None"
  shows "\<exists>s'. service_keepalive env s = (Inr (next_null s \<le> now_at env \<or> next_ping s \<le> now_at env), s')
    \<and> now_at env < next_null s' \<and> now_at env < next_ping s'
    \<and> outgoing (writer s') = outgoing (writer s)
        @ (if next_null s \<le> now_at env then packet_image \<lparr>packet_id = SID_NULL, packet_payload = []\<rparr> else [])
        @ (if next_ping s \<le> now_at env
           then packet_image \<lparr>packet_id = SID_PING, packet_payload = put_dword (ping_token env)\<rparr> else [])"
  using assms
  by (auto simp: service_keepalive_def send_packet_ok send_ping_ok sendable_small)

lemma first_dword_put: "first_dword (put_dword token) = Inr token"
proof -
  have "unat token < 2 ^ LENGTH(32)"
    by (rule unsigned_less)
  then have "of_nat (from_le (put_dword token)) = token"
    by (simp add: put_dword_def from_le_to_le)
  then show ?thesis
    by (simp add: first_dword_ok)
qed

lemma ping_reply_ok:
  assumes "pending_ping s = Some (token, sent_at)"
  shows "handle env \<lparr>packet_id = SID_PING, packet_payload = put_dword token\<rparr> s =
    (Inr [Pong (Some (now_at env - sent_at))], s\<lparr>pending_ping := None\<rparr>)"
proof -
  show ?thesis
    using assms by (simp add: handle_def handle_ping_reply_def require_length_def first_dword_put Let_def)
qed

lemma ping_reply_stale:
  assumes "pending_ping s = None \<or> (\<exists>token' at. pending_ping s = Some (token', at) \<and> token' \<noteq> token)"
  shows "handle env \<lparr>packet_id = SID_PING, packet_payload = put_dword token\<rparr> s =
    (Inr [Pong None], s\<lparr>pending_ping := None\<rparr>)"
proof -
  show ?thesis
    using assms by (auto simp: handle_def handle_ping_reply_def require_length_def first_dword_put Let_def)
qed

section \<open>Runs\<close>

text \<open>What the gateway tells the client of its own accord.\<close>

inductive announces :: "(legacy_peer, unit) op \<Rightarrow> bool" where
  "announces peer_flush"
| "announces (send_enter_chat username stats)"
| "announces (send_chat_event event_id username txt flags ping)"
| "announces (send_error message)"
| "announces (send_friends_list friends)"
| "announces (send_channel_list channels)"
| "announces (send_friend_update index f)"
| "announces (send_friend_add f)"
| "announces (send_friend_remove index)"
| "announces (send_friend_position old new)"

text \<open>
  The peers a connection can reach, with the packets handled so far: a fresh peer on a
  writer that has room for any number of bytes and then fails, then packets, keepalives and
  announcements in any order, whether they succeed or fail.
\<close>

inductive peer_run :: "bytes \<Rightarrow> packet list \<Rightarrow> legacy_peer \<Rightarrow> bool" for expected where
  started: "outgoing w = [] \<Longrightarrow> peer_run expected [] (peer_new now w expected)"
| handled: "peer_run expected ps s \<Longrightarrow> handle env p s = (v, s') \<Longrightarrow> peer_run expected (ps @ [p]) s'"
| kept: "peer_run expected ps s \<Longrightarrow> service_keepalive env s = (v', s') \<Longrightarrow> peer_run expected ps s'"
| told: "peer_run expected ps s \<Longrightarrow> announces m \<Longrightarrow> m s = (v'', s') \<Longrightarrow> peer_run expected ps s'"

inductive_cases announcesE: "announces m"

lemma keeps_announce: "announces m \<Longrightarrow> keeps_ok x b m"
proof (induction m rule: announces.induct)
  case 1
  show ?case
    by (auto simp: triple_def peer_flush_def on_writer_def flush_def peer_ok_def packets_out_def)
next
  case (5 friends)
  show ?case
    unfolding send_friends_list_def by (intro triple_if keeps_fail keeps_send) simp
qed (simp_all add: send_enter_chat_def send_chat_event_def send_error_def send_channel_list_def
    send_friend_update_def send_friend_add_def send_friend_remove_def send_friend_position_def keeps_send)

lemma triple_look: "(\<And>y. triple P (f y) Q E) \<Longrightarrow> triple P (bindM (getsM g) f) Q E"
  by (simp add: triple_def)

lemma keeps_service: "keeps_ok x b (service_keepalive env)"
proof -
  let ?on = "\<lambda>s. peer_ok x b s \<and> keepalives_active s"
  have null: "triple ?on (if c then bindM (send_packet SID_NULL []) (\<lambda>_. modifyM (\<lambda>s. s\<lparr>next_null := n\<rparr>)) else ret ())
      (\<lambda>_. ?on) (safe x b)" for c n
    by (intro triple_if triple_bind[OF triple_send] triple_modify triple_ret) (simp_all add: peer_ok_def)
  have ping: "triple ?on (if c then send_ping token now else ret ()) (\<lambda>_. peer_ok x b) (safe x b)" for c token now
    by (intro triple_if keeps_ping triple_ret) simp
  have tail: "triple ?on (bindM (getsM next_null) (\<lambda>null_due.
       bindM (if now_at env \<ge> null_due
              then bindM (send_packet SID_NULL []) (\<lambda>_.
                   modifyM (\<lambda>s. s\<lparr>next_null := now_at env + NULL_INTERVAL\<rparr>))
              else ret ()) (\<lambda>_.
       bindM (getsM next_ping) (\<lambda>ping_due.
       bindM (if now_at env \<ge> ping_due then send_ping (ping_token env) (now_at env) else ret ()) (\<lambda>_.
       ret (now_at env \<ge> null_due \<or> now_at env \<ge> ping_due)))))) (\<lambda>_. peer_ok x b) (safe x b)"
    by (rule triple_look, rule triple_bind[OF null], rule triple_look, rule triple_bind[OF ping], rule keeps_ret)
  show ?thesis
    unfolding service_keepalive_def
  proof (rule triple_bind[OF triple_gets], rule triple_if)
    fix active
    assume "\<not> active"
    show "triple (\<lambda>s. peer_ok x b s \<and> active = keepalives_active s) (ret False) (\<lambda>_. peer_ok x b) (safe x b)"
      by (rule triple_ret) simp
  next
    fix active
    assume "\<not> \<not> active"
    then show "triple (\<lambda>s. peer_ok x b s \<and> active = keepalives_active s) (bindM (getsM next_null) (\<lambda>null_due.
       bindM (if now_at env \<ge> null_due
              then bindM (send_packet SID_NULL []) (\<lambda>_.
                   modifyM (\<lambda>s. s\<lparr>next_null := now_at env + NULL_INTERVAL\<rparr>))
              else ret ()) (\<lambda>_.
       bindM (getsM next_ping) (\<lambda>ping_due.
       bindM (if now_at env \<ge> ping_due then send_ping (ping_token env) (now_at env) else ret ()) (\<lambda>_.
       ret (now_at env \<ge> null_due \<or> now_at env \<ge> ping_due)))))) (\<lambda>_. peer_ok x b) (safe x b)"
      by (intro triple_weaken[OF tail]) simp_all
  qed
qed

lemma tripleD: "triple P m Q E \<Longrightarrow> P s \<Longrightarrow> m s = (v, s') \<Longrightarrow> (case v of Inr x \<Rightarrow> Q x s' | Inl e \<Rightarrow> E e s')"
  unfolding triple_def by (cases v) fastforce+

lemma keeps_state: "keeps_ok x b m \<Longrightarrow> peer_ok x b s \<Longrightarrow> m s = (v, s') \<Longrightarrow> peer_ok x b s' \<and> \<not> aborts v"
  using tripleD[of "peer_ok x b" m "\<lambda>_. peer_ok x b" "safe x b" s v s'] by (auto split: sum.splits)

lemma peer_ok_mono: "peer_ok x b s \<Longrightarrow> (b \<Longrightarrow> b') \<Longrightarrow> peer_ok x b' s"
  by (simp add: peer_ok_def)

lemma peer_run_ok: "peer_run x ps s \<Longrightarrow> peer_ok x (\<exists>p \<in> set ps. presents x p) s"
proof (induction rule: peer_run.induct)
  case (started w now)
  then show ?case
    by (auto simp: peer_ok_def peer_new_def packets_out_def whole_packets_def intro!: exI[of _ "[]"])
next
  case (handled ps s env p v s')
  have "peer_ok x (\<exists>p \<in> set (ps @ [p]). presents x p) s"
    by (rule peer_ok_mono[OF handled.IH]) auto
  from keeps_state[OF handle_keeps this handled.hyps(2)] show ?case
    by auto
next
  case (kept ps s env v' s')
  show ?case
    using keeps_state[OF keeps_service kept.IH kept.hyps(2)] by simp
next
  case (told ps s m v'' s')
  show ?case
    using keeps_state[OF keeps_announce[OF told.hyps(2)] told.IH told.hyps(3)] by simp
qed

end
