(* ===== verification/Bncs_Properties.thy ===== *)
theory Bncs_Properties
  imports Bncs_Laws "HOL-Library.Code_Target_Nat"
begin

text \<open>
  The properties of the legacy chat peer of the gateway, each with an input at which its
  hypotheses hold.
\<close>

section \<open>Packets\<close>

lemma write_all_packets:
  "\<forall>p \<in> set ps. sendable_packet p \<Longrightarrow> room w = None \<Longrightarrow>
    \<exists>us. forM ps write_to w = (Inr us, w\<lparr>outgoing := outgoing w @ concat (map packet_image ps)\<rparr>)"
proof (induction ps arbitrary: w)
  case (Cons p ps)
  let ?w = "w\<lparr>outgoing := outgoing w @ packet_image p\<rparr>"
  obtain us where "forM ps write_to ?w = (Inr us, ?w\<lparr>outgoing := outgoing ?w @ concat (map packet_image ps)\<rparr>)"
    using Cons.IH[of ?w] Cons.prems by auto
  then show ?case
    using Cons.prems by (simp add: write_to_ok)
qed simp

text \<open>C24: packets that were written are read back in order, whatever chunks and interruptions the transport
  makes of them, and the end of the stream behind them is seen as such.\<close>

theorem packets_roundtrip:
  assumes "\<forall>p \<in> set ps. sendable_packet p" and "room w = None" and "outgoing w = []"
    and "forM ps write_to w = (v, w')" and "quiet s" and "pending s = outgoing w'"
  shows "\<exists>s' s''. forM ps (\<lambda>_. read_from) s = (Inr (map Some ps), s') \<and> read_from s' = (Inr None, s'')"
proof -
  have "pending s = concat (map packet_image ps) @ []"
    using write_all_packets[OF assms(1,2)] assms(3,4,6) by auto
  then obtain s' where "forM ps (\<lambda>_. read_from) s = (Inr (map Some ps), s')" "pending s' = []" "quiet s'"
    using bncs.read_all[OF assms(1,5)] by blast
  then show ?thesis
    using read_from_end[of s'] by blast
qed

definition open_stream :: wire_stream where
  "open_stream = \<lparr>incoming = [], outgoing = [], room = None, flush_fails = False\<rparr>"

theorem packets_roundtrip_witness:
  "\<exists>s' s''. forM [()] (\<lambda>_. read_from) (open_stream\<lparr>incoming := [Arrived [0xFF, 0x0E], Interruption, Arrived [6, 0, 104, 0]]\<rparr>) =
     (Inr [Some \<lparr>packet_id = 0x0E, packet_payload = [104, 0]\<rparr>], s') \<and> read_from s' = (Inr None, s'')"
proof -
  let ?p = "\<lparr>packet_id = 0x0E, packet_payload = [104, 0]\<rparr> :: packet"
  have w: "forM [?p] write_to open_stream = (Inr [()], open_stream\<lparr>outgoing := [0xFF, 0x0E, 6, 0, 104, 0]\<rparr>)"
    by code_simp
  show ?thesis
    using packets_roundtrip[OF _ _ _ w, of "open_stream\<lparr>incoming := [Arrived [0xFF, 0x0E], Interruption, Arrived [6, 0, 104, 0]]\<rparr>"]
    by (simp add: sendable_packet_def open_stream_def quiet_def pending_def)
qed

text \<open>A packet is read only off the bytes that writing it produces: the marker, the id, the length and
  the payload, and nothing behind them is consumed.\<close>

theorem packet_read_is_exact:
  assumes "quiet s" and "read_from s = (Inr (Some p), s')"
  shows "sendable_packet p \<and> pending s = packet_image p @ pending s'"
  by (rule read_from_exact[OF assms])

theorem packet_read_is_exact_witness:
  "pending (snd (read_from (open_stream\<lparr>incoming := [Arrived [0xFF, 0x25, 4, 0, 77]]\<rparr>))) = [77]"
proof -
  let ?s = "open_stream\<lparr>incoming := [Arrived [0xFF, 0x25, 4, 0, 77]]\<rparr>"
  have p: "pending ?s = packet_image \<lparr>packet_id = 0x25, packet_payload = []\<rparr> @ [77]"
    by code_simp
  have q: "quiet ?s"
    by (simp add: quiet_def open_stream_def)
  obtain s' where s': "read_from ?s = (Inr (Some \<lparr>packet_id = 0x25, packet_payload = []\<rparr>), s')"
    using read_from_image[OF _ q p] by (auto simp: sendable_packet_def)
  from packet_read_is_exact[OF q s'] p s' show ?thesis
    by simp
qed

section \<open>Logging on\<close>

text \<open>C8: however the packets of a client, the keepalives and the gateway's own announcements interleave, a
  client is logged on only if one of the packets it sent named the account the gateway was started for, at
  the place a logon packet has its account name.\<close>

theorem logged_on_needs_account:
  assumes "peer_run expected ps s" and "logged_on s"
  shows "\<exists>p \<in> set ps. presents expected p"
  using peer_run_ok[OF assms(1)] assms(2) by (simp add: peer_ok_def)

definition demo_logon :: packet where
  "demo_logon = \<lparr>packet_id = SID_LOGON_RESPONSE2, packet_payload = replicate 28 0 @ put_c_string (ascii ''RAYNOR'')\<rparr>"

definition demo_peer :: legacy_peer where
  "demo_peer = snd (handle \<lparr>now_at = 0, ping_token = 0, challenge_token = 0\<rparr> demo_logon (peer_new 0 open_stream (ascii ''Raynor'')))"

lemma demo_run: "peer_run (ascii ''Raynor'') [demo_logon] demo_peer"
proof -
  have "peer_run (ascii ''Raynor'') [] (peer_new 0 open_stream (ascii ''Raynor''))"
    by (rule peer_run.started) (simp add: open_stream_def)
  from peer_run.handled[OF this, of "\<lparr>now_at = 0, ping_token = 0, challenge_token = 0\<rparr>" demo_logon] show ?thesis
    by (simp add: demo_peer_def prod_eq_iff)
qed

lemma demo_logged_on: "logged_on demo_peer"
  by code_simp

theorem logged_on_needs_account_witness: "presents (ascii ''Raynor'') demo_logon"
  using logged_on_needs_account[OF demo_run demo_logged_on] by simp

text \<open>C12: entering the chat, joining a channel, leaving and asking for the friends list reach the gateway only
  from a client that is logged on, under the account the gateway was started for; the name it enters
  under is that account's, whatever the client wrote.\<close>

theorem gated_actions_need_logon:
  assumes "peer_run expected ps s" and "handle env p s = (Inr acts, s')" and "a \<in> set acts" and "gated a"
  shows "logged_on s \<and> (\<exists>q \<in> set ps. presents expected q) \<and> (\<forall>name. a = EnterChat name \<longrightarrow> name = expected)"
proof -
  note on = handle_gated[OF assms(2-4)]
  have ok: "peer_ok expected (\<exists>q \<in> set ps. presents expected q) s"
    by (rule peer_run_ok[OF assms(1)])
  have "name = expected_account s" if "a = EnterChat name" for name
    using handle_enter_name[OF assms(2)] assms(3) that by blast
  then show ?thesis
    using on ok by (auto simp: peer_ok_def)
qed

theorem gated_actions_need_logon_witness:
  "\<exists>acts s'. handle \<lparr>now_at = 1, ping_token = 0, challenge_token = 0\<rparr>
     \<lparr>packet_id = SID_JOIN_CHANNEL, packet_payload = put_dword 2 @ put_c_string (ascii ''Lobby'')\<rparr> demo_peer = (Inr acts, s')
     \<and> JoinChannel 2 (ascii ''Lobby'') \<in> set acts \<and> logged_on demo_peer"
proof -
  have "c_text (ascii ''Lobby'')"
    unfolding c_text_def by code_simp
  from handle_join[OF demo_logged_on this, of "\<lparr>now_at = 1, ping_token = 0, challenge_token = 0\<rparr>" 2]
  have run: "handle \<lparr>now_at = 1, ping_token = 0, challenge_token = 0\<rparr>
     \<lparr>packet_id = SID_JOIN_CHANNEL, packet_payload = put_dword 2 @ put_c_string (ascii ''Lobby'')\<rparr> demo_peer =
     (Inr [JoinChannel 2 (ascii ''Lobby'')], demo_peer)" .
  from gated_actions_need_logon[OF demo_run this, of "JoinChannel 2 (ascii ''Lobby'')"] run show ?thesis
    by simp
qed

text \<open>The two packets of the modern logon, with any account name and any proof, are answered in order; the
  client is logged on afterwards exactly when the name is that of the expected account up to ASCII case.\<close>

theorem modern_logon_outcome:
  assumes "room (writer s) = None" and "c_text name" and "length key = 32"
    and "handle env \<lparr>packet_id = SID_AUTH_ACCOUNT_LOGON, packet_payload = key @ put_c_string name @ more_data\<rparr> s = (v1, s1)"
    and "handle env' \<lparr>packet_id = SID_AUTH_ACCOUNT_LOGON_PROOF, packet_payload = proof_data\<rparr> s1 = (v2, s2)"
  defines "accepted \<equiv> eq_ignore_ascii_case name (expected_account s)"
  shows "v1 = Inr [] \<and> v2 = Inr [] \<and> logged_on s2 = accepted \<and>
    outgoing (writer s2) = outgoing (writer s)
      @ packet_image \<lparr>packet_id = SID_AUTH_ACCOUNT_LOGON,
          packet_payload = put_dword (if accepted then 0 else 1) @ replicate 64 0\<rparr>
      @ packet_image \<lparr>packet_id = SID_AUTH_ACCOUNT_LOGON_PROOF,
          packet_payload = put_dword (if accepted then 0 else 2) @ replicate 20 0 @ [0]\<rparr>"
proof -
  have name: "c_string_at (key @ put_c_string name @ more_data) 32 = Some name"
    by (rule c_string_at_put[OF assms(2,3)])
  let ?j = "judge_account New (Some name) s"
  have j: "account_accepted ?j = accepted" "logged_on ?j = False" "writer ?j = writer s" "logon_style ?j = Some New"
    by (simp_all add: judge_account_def Let_def account_matches_def accepted_def)
  let ?reply = "\<lparr>packet_id = SID_AUTH_ACCOUNT_LOGON, packet_payload = put_dword (if accepted then 0 else 1) @ replicate 64 0\<rparr>"
  have twice: "replicate 32 0 @ replicate 32 0 = replicate 64 (0 :: u8)"
    by (simp flip: replicate_add)
  have 1: "v1 = Inr []" "s1 = sent ?reply ?j"
    using assms(1,4) name j twice
    by (simp_all add: handle_def silently_def handle_new_logon_def send_packet_ok sendable_small)
  have s1: "account_accepted s1 = accepted" "logged_on s1 = False" "room (writer s1) = None" "logon_style s1 = Some New"
    "outgoing (writer s1) = outgoing (writer s) @ packet_image ?reply"
    using j assms(1) by (simp_all add: 1(2))
  show ?thesis
    using assms(5) s1 1(1)
    by (cases accepted)
      (auto simp: handle_def silently_def handle_logon_proof_def send_logon_success_def send_new_logon_proof_failure_def
        send_packet_ok sendable_small put_c_string_def)
qed

theorem modern_logon_outcome_witness:
  "\<exists>s1 s2. handle \<lparr>now_at = 0, ping_token = 0, challenge_token = 0\<rparr> \<lparr>packet_id = SID_AUTH_ACCOUNT_LOGON,
      packet_payload = replicate 32 0 @ put_c_string (ascii ''Kerrigan'') @ []\<rparr> (peer_new 0 open_stream (ascii ''Raynor'')) = (Inr [], s1)
    \<and> handle \<lparr>now_at = 1, ping_token = 0, challenge_token = 0\<rparr> \<lparr>packet_id = SID_AUTH_ACCOUNT_LOGON_PROOF, packet_payload = []\<rparr> s1 = (Inr [], s2)
    \<and> \<not> logged_on s2"
proof -
  obtain v1 s1 where 1: "handle \<lparr>now_at = 0, ping_token = 0, challenge_token = 0\<rparr> \<lparr>packet_id = SID_AUTH_ACCOUNT_LOGON,
      packet_payload = replicate 32 0 @ put_c_string (ascii ''Kerrigan'') @ []\<rparr> (peer_new 0 open_stream (ascii ''Raynor'')) = (v1, s1)"
    by fastforce
  obtain v2 s2 where 2: "handle \<lparr>now_at = 1, ping_token = 0, challenge_token = 0\<rparr> \<lparr>packet_id = SID_AUTH_ACCOUNT_LOGON_PROOF, packet_payload = []\<rparr> s1 = (v2, s2)"
    by fastforce
  have "c_text (ascii ''Kerrigan'')" and "\<not> eq_ignore_ascii_case (ascii ''Kerrigan'') (ascii ''Raynor'')"
    unfolding c_text_def by code_simp+
  then show ?thesis
    using modern_logon_outcome[OF _ _ _ 1 2] 1 2 by (auto simp: peer_new_def open_stream_def)
qed

section \<open>Robustness\<close>



section \<open>Keepalives\<close>

text \<open>Once keepalives are on, servicing them sends exactly the packets that are due, in order, reports
  whether it sent any, and leaves both deadlines in the future.\<close>

theorem keepalives_are_due:
  assumes "keepalives_active s" and "room (writer s) = None"
  shows "\<exists>s'. service_keepalive env s = (Inr (next_null s \<le> now_at env \<or> next_ping s \<le> now_at env), s')
    \<and> now_at env < next_null s' \<and> now_at env < next_ping s'
    \<and> outgoing (writer s') = outgoing (writer s)
        @ (if next_null s \<le> now_at env then packet_image \<lparr>packet_id = SID_NULL, packet_payload = []\<rparr> else [])
        @ (if next_ping s \<le> now_at env
           then packet_image \<lparr>packet_id = SID_PING, packet_payload = put_dword (ping_token env)\<rparr> else [])"
  by (rule service_keepalive_ok[OF assms])

theorem keepalives_are_due_witness:
  "\<exists>s'. service_keepalive \<lparr>now_at = 70000000000, ping_token = 9, challenge_token = 0\<rparr>
      ((peer_new 0 open_stream [])\<lparr>keepalives_active := True\<rparr>) = (Inr True, s') \<and> outgoing (writer s') = [0xFF, 0, 4, 0]"
proof -
  have "packet_image \<lparr>packet_id = SID_NULL, packet_payload = []\<rparr> = [0xFF, 0, 4, 0]"
    by code_simp
  then show ?thesis
    using keepalives_are_due[of "(peer_new 0 open_stream [])\<lparr>keepalives_active := True\<rparr>" "\<lparr>now_at = 70000000000, ping_token = 9, challenge_token = 0\<rparr>"]
    by (auto simp: peer_new_def open_stream_def)
qed

text \<open>A ping that was sent is answered once: the reply with its token yields the time since, a second reply
  or one with another token yields none.\<close>

theorem ping_is_answered_once:
  assumes "room (writer s) = None" and "send_ping token t s = (Inr (), s1)"
  shows "\<exists>s2. handle env \<lparr>packet_id = SID_PING, packet_payload = put_dword token\<rparr> s1 = (Inr [Pong (Some (now_at env - t))], s2)
    \<and> (\<forall>env' token'. handle env' \<lparr>packet_id = SID_PING, packet_payload = put_dword token'\<rparr> s2 = (Inr [Pong None], s2))
    \<and> (\<forall>token'. token' \<noteq> token \<longrightarrow>
        fst (handle env \<lparr>packet_id = SID_PING, packet_payload = put_dword token'\<rparr> s1) = Inr [Pong None])"
proof -
  have "pending_ping s1 = Some (token, t)"
    using assms by (simp add: send_ping_ok) auto
  then show ?thesis
    by (auto simp: ping_reply_ok ping_reply_stale)
qed

theorem ping_is_answered_once_witness:
  "\<exists>s1 s2. send_ping 77 5 (peer_new 0 open_stream []) = (Inr (), s1) \<and>
     handle \<lparr>now_at = 12, ping_token = 0, challenge_token = 0\<rparr> \<lparr>packet_id = SID_PING, packet_payload = put_dword 77\<rparr> s1 = (Inr [Pong (Some 7)], s2)"
proof -
  have room: "room (writer (peer_new 0 open_stream [])) = None"
    by (simp add: peer_new_def open_stream_def)
  then obtain s1 where "send_ping 77 5 (peer_new 0 open_stream []) = (Inr (), s1)"
    using send_ping_ok[OF room, of 77 5] by auto
  with ping_is_answered_once[OF room this, of "\<lparr>now_at = 12, ping_token = 0, challenge_token = 0\<rparr>"]
  show ?thesis
    by auto
qed

end
