(* ===== verification/Rpc_Socket.thy ===== *)
theory Rpc_Socket
  imports Ws_Frames Rpc_Frames Utf8
begin

text \<open>
  The socket the account service and the classic channel talk through (\<open>Transport\<close> and \<open>RpcSocket\<close> of
  \<open>core/src/platform/wire/websocket.rs\<close>): two transports under one message type, the payload transform,
  and the loops that wait for an answer.  The strict transport is the library \<open>tungstenite\<close>; its operations,
  the clock and the random masking keys are an argument, the record \<open>outside\<close>.  A loop that waits
  is a partial function: that it looks at no message after the deadline is a theorem about the clock.
  No look at the clock ends a read: one that stays blocked, the read timeout notwithstanding, has the
  error \<open>NoReturn\<close> (of the library's operations as of a silent stream), and the loops end with it.
\<close>

section \<open>Messages and transports\<close>

datatype message = MText bytes | MBinary bytes | MPing bytes | MPong bytes | MClose | MFrame

record 'w outside =
  strict_send :: "message \<Rightarrow> ('w, unit) op"
  strict_read :: "('w, message) op"
  strict_close :: "('w, unit) op"
  clock :: "nat \<Rightarrow> nat"
  mask_source :: "nat \<Rightarrow> bytes"

datatype 'w transport = Strict 'w | Classic framing

record payload_transform =
  pt_encode :: "bytes \<Rightarrow> bytes"
  pt_decode :: "bytes \<Rightarrow> bytes"

text \<open>The socket; \<open>clock_reads\<close> and \<open>masks_drawn\<close> count what was taken from the outside.\<close>

record 'w rpc_socket =
  socket :: "'w transport"
  handshake_key :: bytes
  transform_of :: "payload_transform option"
  patience :: nat
  clock_reads :: nat
  masks_drawn :: nat

definition on_strict :: "('w, 'a) op \<Rightarrow> ('w rpc_socket, 'a) op" where
  "on_strict m s = (case socket s of
      Strict w \<Rightarrow> (case m w of (v, w') \<Rightarrow> (v, s\<lparr>socket := Strict w'\<rparr>))
    | Classic _ \<Rightarrow> (Inl (Panic Unreachable), s))"

definition on_classic :: "(framing, 'a) op \<Rightarrow> ('w rpc_socket, 'a) op" where
  "on_classic m s = (case socket s of
      Classic f \<Rightarrow> (case m f of (v, f') \<Rightarrow> (v, s\<lparr>socket := Classic f'\<rparr>))
    | Strict _ \<Rightarrow> (Inl (Panic Unreachable), s))"

definition draw_mask :: "'w outside \<Rightarrow> ('w rpc_socket, bytes) op" where
  "draw_mask E s = (Inr (mask_source E (masks_drawn s)), s\<lparr>masks_drawn := masks_drawn s + 1\<rparr>)"

definition read_clock :: "'w outside \<Rightarrow> 'w rpc_socket \<Rightarrow> nat \<times> 'w rpc_socket" where
  "read_clock E s = (clock E (clock_reads s), s\<lparr>clock_reads := clock_reads s + 1\<rparr>)"

definition classic_pong :: "'w outside \<Rightarrow> bytes \<Rightarrow> ('w rpc_socket, unit) op" where
  "classic_pong E bs = bindM (draw_mask E) (\<lambda>key. on_classic (send_pong key bs))"

definition classic_close :: "'w outside \<Rightarrow> ('w rpc_socket, unit) op" where
  "classic_close E = bindM (draw_mask E) (\<lambda>key. on_classic (send_close key))"

definition transport_send :: "'w outside \<Rightarrow> message \<Rightarrow> ('w rpc_socket, unit) op" where
  "transport_send E m s = (case socket s of
      Strict _ \<Rightarrow> on_strict (strict_send E m) s
    | Classic _ \<Rightarrow>
        (case m of
           MBinary bs \<Rightarrow> on_classic (send_binary bs) s
         | MText bs \<Rightarrow> on_classic (send_text bs) s
         | MPong bs \<Rightarrow> classic_pong E bs s
         | MClose \<Rightarrow> classic_close E s
         | _ \<Rightarrow> (Inl (BgsWire CannotSend), s)))"

text \<open>The match on the opcode of a classic frame; a ping is answered here.\<close>

definition classic_message :: "'w outside \<Rightarrow> frame \<Rightarrow> ('w rpc_socket, message) op" where
  "classic_message E f =
     (if opcode f = OP_BINARY then ret (MBinary (payload f))
      else if opcode f = OP_TEXT then
        liftR (case from_utf8 (payload f) of None \<Rightarrow> Inl (BgsWire TextNotUtf8) | Some t \<Rightarrow> Inr (MText t))
      else if opcode f = OP_CLOSE then ret MClose
      else if opcode f = OP_PING then bindM (classic_pong E (payload f)) (\<lambda>_. ret (MPong (payload f)))
      else if opcode f = OP_PONG then ret (MPong (payload f))
      else fail (BgsWire (UnexpectedOpcode (opcode f))))"

definition transport_read :: "'w outside \<Rightarrow> ('w rpc_socket, message) op" where
  "transport_read E s = (case socket s of
      Strict _ \<Rightarrow> on_strict (strict_read E) s
    | Classic _ \<Rightarrow> bindM (on_classic receive) (classic_message E) s)"

definition transport_close :: "'w outside \<Rightarrow> ('w rpc_socket, unit) op" where
  "transport_close E s = (case socket s of
      Strict _ \<Rightarrow> on_strict (strict_close E) s
    | Classic _ \<Rightarrow> classic_close E s)"

section \<open>Sending\<close>

definition set_transform :: "payload_transform \<Rightarrow> 'w rpc_socket \<Rightarrow> 'w rpc_socket" where
  "set_transform t s = s\<lparr>transform_of := Some t\<rparr>"

definition outbound :: "payload_transform option \<Rightarrow> bytes \<Rightarrow> bytes" where
  "outbound t bs = (case t of None \<Rightarrow> bs | Some pt \<Rightarrow> pt_encode pt bs)"

definition inbound :: "payload_transform option \<Rightarrow> bytes \<Rightarrow> bytes" where
  "inbound t bs = (case t of None \<Rightarrow> bs | Some pt \<Rightarrow> pt_decode pt bs)"

definition send_raw :: "'w outside \<Rightarrow> bytes \<Rightarrow> ('w rpc_socket, unit) op" where
  "send_raw E bs = bindM (getsM transform_of) (\<lambda>t. transport_send E (MBinary (outbound t bs)))"

definition socket_send :: "'w outside \<Rightarrow> 'h rpc_header \<Rightarrow> 'h \<Rightarrow> bytes \<Rightarrow> ('w rpc_socket, unit) op" where
  "socket_send E H header bs = bindM (liftR (encode_bgs_message H header bs)) (send_raw E)"

definition socket_send_text :: "'w outside \<Rightarrow> bytes \<Rightarrow> ('w rpc_socket, unit) op" where
  "socket_send_text E bs = transport_send E (MText bs)"

definition socket_close :: "'w outside \<Rightarrow> ('w rpc_socket, unit) op" where
  "socket_close E = transport_close E"

section \<open>Waiting for an answer\<close>

text \<open>
  The loop that the three receive functions share: a look at the clock, a message, a verdict on it;
  no verdict is a keepalive, which is skipped.
\<close>

partial_function (option) await_message ::
    "'w outside \<Rightarrow> (message \<Rightarrow> 'a result option) \<Rightarrow> nat \<Rightarrow> 'w rpc_socket \<Rightarrow> ('a result \<times> 'w rpc_socket) option" where
  "await_message E judge deadline s =
     (case read_clock E s of (now, s) \<Rightarrow>
      if now \<ge> deadline then Some (Inl (Transport HeldWithoutAnswer), s)
      else case transport_read E s of
        (Inl e, s) \<Rightarrow> Some (Inl e, s)
      | (Inr m, s) \<Rightarrow>
          (case judge m of Some v \<Rightarrow> Some (v, s) | None \<Rightarrow> await_message E judge deadline s))"

definition await_answer ::
    "'w outside \<Rightarrow> (message \<Rightarrow> 'a result option) \<Rightarrow> 'w rpc_socket \<Rightarrow> ('a result \<times> 'w rpc_socket) option" where
  "await_answer E judge s = (case read_clock E s of (now, s) \<Rightarrow> await_message E judge (now + patience s) s)"

fun judge_text :: "message \<Rightarrow> bytes result option" where
  "judge_text (MText bs) = Some (Inr bs)"
| "judge_text (MBinary bs) =
     Some (case from_utf8 bs of None \<Rightarrow> Inl (BgsWire BinaryNotUtf8) | Some t \<Rightarrow> Inr t)"
| "judge_text MClose = Some (Inl (Transport CloseReceived))"
| "judge_text _ = None"

fun judge_raw :: "payload_transform option \<Rightarrow> message \<Rightarrow> bytes result option" where
  "judge_raw t (MBinary bs) = Some (Inr (inbound t bs))"
| "judge_raw t MClose = Some (Inl (Transport CloseReceived))"
| "judge_raw t (MText _) = Some (Inl (BgsWire UnexpectedText))"
| "judge_raw t _ = None"

fun judge_rpc :: "'h rpc_header \<Rightarrow> payload_transform option \<Rightarrow> message \<Rightarrow> 'h rpc_frame result option" where
  "judge_rpc H t (MBinary bs) = Some (decode_bgs_message H (inbound t bs))"
| "judge_rpc H t MClose = Some (Inl (Transport CloseReceived))"
| "judge_rpc H t (MText _) = Some (Inl (BgsWire UnexpectedText))"
| "judge_rpc H t _ = None"

definition receive_text :: "'w outside \<Rightarrow> 'w rpc_socket \<Rightarrow> (bytes result \<times> 'w rpc_socket) option" where
  "receive_text E s = await_answer E judge_text s"

definition receive_raw :: "'w outside \<Rightarrow> 'w rpc_socket \<Rightarrow> (bytes result \<times> 'w rpc_socket) option" where
  "receive_raw E s = await_answer E (judge_raw (transform_of s)) s"

definition receive_rpc :: "'w outside \<Rightarrow> 'h rpc_header \<Rightarrow> 'w rpc_socket \<Rightarrow> ('h rpc_frame result \<times> 'w rpc_socket) option" where
  "receive_rpc E H s = await_answer E (judge_rpc H (transform_of s)) s"

end
