(* ===== verification/Socket_Laws.thy ===== *)
theory Socket_Laws
  imports Rpc_Socket
begin

text \<open>
  The laws of the socket: what the transports leave alone, that waiting ends with the clock whatever the
  service sends, and what arrives through a classic transport with keepalives in between.
\<close>

section \<open>What reading and sending leave alone\<close>

definition same_settings :: "'w rpc_socket \<Rightarrow> 'w rpc_socket \<Rightarrow> bool" where
  "same_settings s s' \<longleftrightarrow> transform_of s' = transform_of s \<and> patience s' = patience s"

lemma same_settings_refl [simp]: "same_settings s s"
  by (simp add: same_settings_def)

lemma same_settings_trans: "same_settings a b \<Longrightarrow> same_settings b c \<Longrightarrow> same_settings a c"
  by (simp add: same_settings_def)

definition tidy :: "('w rpc_socket, 'a) op \<Rightarrow> bool" where
  "tidy m \<longleftrightarrow> (\<forall>s v s'. m s = (v, s') \<longrightarrow> same_settings s s' \<and> clock_reads s' = clock_reads s)"

lemma tidyD: "tidy m \<Longrightarrow> m s = (v, s') \<Longrightarrow> same_settings s s' \<and> clock_reads s' = clock_reads s"
  by (simp add: tidy_def)

lemma tidy_basic: "tidy (ret x)" "tidy (fail e)" "tidy (liftR r)" "tidy (draw_mask E)"
    "tidy (on_strict m)" "tidy (on_classic n)"
  by (auto simp: tidy_def draw_mask_def on_strict_def on_classic_def same_settings_def
      split: transport.splits prod.splits)

lemma tidy_bind: "tidy m \<Longrightarrow> (\<And>x. tidy (f x)) \<Longrightarrow> tidy (bindM m f)"
  unfolding tidy_def bindM_def
  by (auto split: prod.splits sum.splits) (metis same_settings_trans)+

lemma tidy_classic: "tidy (classic_pong E bs)" "tidy (classic_close E)" "tidy (classic_message E f)"
  unfolding classic_pong_def classic_close_def classic_message_def
  by (auto intro!: tidy_bind tidy_basic simp del: ret_apply fail_apply)

lemma tidy_transport_read: "tidy (transport_read E)"
proof -
  have "tidy (on_strict (strict_read E))" and "tidy (bindM (on_classic receive) (classic_message E))"
    by (intro tidy_bind tidy_basic tidy_classic)+
  then show ?thesis
    unfolding tidy_def transport_read_def by (auto split: transport.split_asm)
qed

section \<open>Waiting ends\<close>

text \<open>Once a reading of the clock is at the deadline no later message is waited for.\<close>

lemma await_message_returns:
  assumes "deadline \<le> clock E k" and "clock_reads s \<le> k"
  shows "\<exists>v s'. await_message E judge deadline s = Some (v, s') \<and> clock_reads s < clock_reads s'
    \<and> clock_reads s' \<le> Suc k \<and> same_settings s s'"
  using assms(2)
proof (induction "k - clock_reads s" arbitrary: s)
  case 0
  then have "clock_reads s = k"
    by simp
  then show ?case
    using assms(1) by (simp add: await_message.simps[of E judge deadline s] read_clock_def same_settings_def)
next
  case (Suc n)
  let ?s = "s\<lparr>clock_reads := clock_reads s + 1\<rparr>"
  obtain v s1 where run: "transport_read E ?s = (v, s1)"
    by (cases "transport_read E ?s")
  then have reads: "clock_reads s1 = clock_reads s + 1" and same: "same_settings s s1"
    using tidyD[OF tidy_transport_read, of E ?s v s1] by (simp_all add: same_settings_def)
  have "\<exists>w s2. await_message E judge deadline s1 = Some (w, s2) \<and> clock_reads s1 < clock_reads s2
      \<and> clock_reads s2 \<le> Suc k \<and> same_settings s1 s2"
    using Suc.hyps(2) reads by (intro Suc.hyps(1)) auto
  then show ?case
    using run reads Suc.hyps(2) same
    by (auto simp: await_message.simps[of E judge deadline s] read_clock_def same_settings_def split: sum.split option.split)
qed

section \<open>Waiting returns when reads do\<close>

text \<open>No read and no write of the transport stays blocked.\<close>

definition responsive :: "'w outside \<Rightarrow> 'w rpc_socket \<Rightarrow> bool" where
  "responsive E s \<longleftrightarrow> (case socket s of
      Strict _ \<Rightarrow> (\<forall>w. fst (strict_read E w) \<noteq> Inl NoReturn) \<and> (\<forall>m w. fst (strict_send E m w) \<noteq> Inl NoReturn)
    | Classic f \<Rightarrow> Silence \<notin> set (incoming (stream f)))"

lemma responsive_cong [simp]: "responsive E (s\<lparr>clock_reads := n\<rparr>) = responsive E s" "responsive E (s\<lparr>masks_drawn := n\<rparr>) = responsive E s"
  by (simp_all add: responsive_def)

definition returning :: "'w outside \<Rightarrow> ('w rpc_socket, 'a) op \<Rightarrow> bool" where
  "returning E m \<longleftrightarrow> (\<forall>s v s'. m s = (v, s') \<longrightarrow> responsive E s \<longrightarrow> responsive E s' \<and> v \<noteq> Inl NoReturn)"

lemma returningD: "returning E m \<Longrightarrow> m s = (v, s') \<Longrightarrow> responsive E s \<Longrightarrow> responsive E s' \<and> v \<noteq> Inl NoReturn"
  by (simp add: returning_def)

lemma returning_bind: "returning E m \<Longrightarrow> (\<And>x. returning E (f x)) \<Longrightarrow> returning E (bindM m f)"
  unfolding returning_def bindM_def by (auto split: prod.split_asm sum.split_asm) fastforce+

lemma returning_basic: "returning E (ret x)" "e \<noteq> NoReturn \<Longrightarrow> returning E (fail e)" "r \<noteq> Inl NoReturn \<Longrightarrow> returning E (liftR r)"
    "returning E (draw_mask E')" "returning E (getsM g)"
  by (auto simp: returning_def draw_mask_def)

lemma decode_frame_returns: "decode_frame bs \<noteq> Inl NoReturn"
proof -
  have length: "decode_length bs second \<noteq> Inl NoReturn" for second
    by (auto simp: decode_length_def split: option.split_asm if_split_asm)
  show ?thesis
    using length by (auto simp: decode_frame_def rbind_def split: option.split_asm if_split_asm prod.split_asm sum.split_asm)
qed

lemma returning_receive: "returning E (on_classic receive)"
  using receive_with_returns[of decode_frame, OF _ _ decode_frame_returns]
  by (auto simp: returning_def on_classic_def receive_def responsive_def split: transport.split_asm prod.split_asm)

lemma send_returns:
  "send bs op key f = (v, f') \<Longrightarrow> incoming (stream f') = incoming (stream f) \<and> v \<noteq> Inl NoReturn"
  by (auto simp: send_def bindM_def on_stream_def write_all_def flush_def encode_frame_def
      split: sum.split_asm prod.split_asm option.split_asm if_split_asm)

lemma returning_send: "returning E (on_classic (send bs op key))"
  by (auto simp: returning_def on_classic_def responsive_def dest!: send_returns split: transport.split_asm prod.split_asm)

lemma returning_pong: "returning E (classic_pong E' bs)" "returning E (classic_close E')"
  unfolding classic_pong_def classic_close_def send_pong_def send_close_def
  by (intro returning_bind returning_basic returning_send)+

lemma returning_message: "returning E (classic_message E' f)"
  unfolding classic_message_def
  by (auto intro!: returning_bind returning_pong returning_basic simp del: ret_apply fail_apply split: option.split)

lemma returning_strict_read: "socket s = Strict w \<Longrightarrow> on_strict (strict_read E) s = (v, s') \<Longrightarrow> responsive E s \<Longrightarrow>
    responsive E s' \<and> v \<noteq> Inl NoReturn"
  by (auto simp: on_strict_def responsive_def split: prod.split_asm) (metis fst_conv)

lemma returning_strict_send: "socket s = Strict w \<Longrightarrow> on_strict (strict_send E m) s = (v, s') \<Longrightarrow> responsive E s \<Longrightarrow>
    responsive E s' \<and> v \<noteq> Inl NoReturn"
  by (auto simp: on_strict_def responsive_def split: prod.split_asm) (metis fst_conv)

lemma returning_transport: "returning E (transport_read E)" "returning E (transport_send E m)"
proof -
  have classic: "returning E (bindM (on_classic receive) (classic_message E))"
    by (intro returning_bind returning_receive returning_message)
  then show "returning E (transport_read E)"
    unfolding returning_def transport_read_def using returning_strict_read by (fastforce split: transport.split_asm)
  show "returning E (transport_send E m)"
    unfolding returning_def transport_send_def
    using returning_strict_send returningD[OF returning_send] returningD[OF returning_pong(1)] returningD[OF returning_pong(2)]
    by (auto simp: send_binary_def send_text_def split: transport.split_asm message.split_asm) fastforce+
qed

lemma await_message_returning:
  assumes "await_message E judge deadline s = Some (v, s')" and "responsive E s" and "\<And>m. judge m \<noteq> Some (Inl NoReturn)"
  shows "responsive E s' \<and> v \<noteq> Inl NoReturn"
proof -
  have "(\<forall>m. judge m \<noteq> Some (Inl NoReturn)) \<longrightarrow> responsive E s \<longrightarrow> responsive E (snd y) \<and> fst y \<noteq> Inl NoReturn"
    if "await_message E judge deadline s = Some y" for y
  proof (rule await_message.raw_induct[where P = "\<lambda>E judge deadline s y.
      (\<forall>m. judge m \<noteq> Some (Inl NoReturn)) \<longrightarrow> responsive E s \<longrightarrow> responsive E (snd y) \<and> fst y \<noteq> Inl NoReturn", OF _ that])
    fix rec E judge deadline s y
    assume rec: "\<And>E judge deadline s y. rec E judge deadline s = Some y \<Longrightarrow>
        (\<forall>m. judge m \<noteq> Some (Inl NoReturn)) \<longrightarrow> responsive E s \<longrightarrow> responsive E (snd y) \<and> fst y \<noteq> Inl NoReturn"
      and run: "(case read_clock E s of (now, s) \<Rightarrow>
          if now \<ge> deadline then Some (Inl (Transport HeldWithoutAnswer), s)
          else case transport_read E s of
            (Inl e, s) \<Rightarrow> Some (Inl e, s)
          | (Inr m, s) \<Rightarrow> (case judge m of Some v \<Rightarrow> Some (v, s) | None \<Rightarrow> rec E judge deadline s)) = Some y"
    show "(\<forall>m. judge m \<noteq> Some (Inl NoReturn)) \<longrightarrow> responsive E s \<longrightarrow> responsive E (snd y) \<and> fst y \<noteq> Inl NoReturn"
    proof (intro impI)
      assume judge: "\<forall>m. judge m \<noteq> Some (Inl NoReturn)" and s: "responsive E s"
      let ?s = "s\<lparr>clock_reads := clock_reads s + 1\<rparr>"
      obtain r s1 where r: "transport_read E ?s = (r, s1)" by fastforce
      have "responsive E s1 \<and> r \<noteq> Inl NoReturn"
        using returningD[OF returning_transport(1) r] s by simp
      then show "responsive E (snd y) \<and> fst y \<noteq> Inl NoReturn"
        using run r s judge rec[of E judge deadline s1 y]
        by (auto simp: read_clock_def split: if_split_asm sum.split_asm option.split_asm)
    qed
  qed
  then show ?thesis
    using assms by fastforce
qed

lemma await_answer_returning:
  "await_answer E judge s = Some (v, s') \<Longrightarrow> responsive E s \<Longrightarrow> (\<And>m. judge m \<noteq> Some (Inl NoReturn)) \<Longrightarrow>
    responsive E s' \<and> v \<noteq> Inl NoReturn"
  unfolding await_answer_def read_clock_def by (auto dest: await_message_returning)

lemma judges_return: "judge_raw t m \<noteq> Some (Inl NoReturn)" "judge_text m \<noteq> Some (Inl NoReturn)"
    "(\<And>bs. decode_header H bs \<noteq> Inl NoReturn) \<Longrightarrow> judge_rpc H t m \<noteq> Some (Inl NoReturn)"
proof -
  show "judge_raw t m \<noteq> Some (Inl NoReturn)" "judge_text m \<noteq> Some (Inl NoReturn)"
    by (cases m; auto split: option.split)+
  show "judge_rpc H t m \<noteq> Some (Inl NoReturn)" if "\<And>bs. decode_header H bs \<noteq> Inl NoReturn"
    using that by (cases m) (auto simp: decode_bgs_message_def rbind_Inl_iff Let_def split: if_split_asm)
qed

text \<open>A silent service keeps a receive function in its read, whatever the deadline.\<close>

lemma silent_blocks:
  assumes "socket s = Classic f" and "fbuffer f = []" and "incoming (stream f) = Silence # es"
    and "clock E (Suc (clock_reads s)) < clock E (clock_reads s) + patience s"
  shows "\<exists>s'. await_answer E judge s = Some (Inl NoReturn, s')"
proof -
  have "receive f = (Inl NoReturn, f\<lparr>stream := (stream f)\<lparr>incoming := es\<rparr>\<rparr>)"
    using assms(2,3)
    by (simp add: receive_def receive_with.simps[of decode_frame f] stream_read.simps decode_frame_def get_at_def)
  then show ?thesis
    using assms(1,4)
    by (simp add: await_answer_def read_clock_def await_message.simps[of E judge] transport_read_def on_classic_def)
qed

text \<open>The clock passes every instant and stays behind it.\<close>

definition clock_runs :: "'w outside \<Rightarrow> bool" where
  "clock_runs E \<longleftrightarrow> (\<forall>t. \<exists>k. \<forall>n \<ge> k. t \<le> clock E n)"

lemma clock_runsD: "clock_runs E \<Longrightarrow> \<exists>k \<ge> m. t \<le> clock E k"
  unfolding clock_runs_def by (metis nle_le)

lemma await_answer_returns:
  assumes "clock E (clock_reads s) + patience s \<le> clock E k" and "clock_reads s < k"
  shows "\<exists>v s'. await_answer E judge s = Some (v, s') \<and> clock_reads s < clock_reads s' \<and> clock_reads s' \<le> Suc k
    \<and> same_settings s s'"
  using await_message_returns[of "clock E (clock_reads s) + patience s" E k "s\<lparr>clock_reads := clock_reads s + 1\<rparr>" judge] assms
  by (auto simp: await_answer_def read_clock_def same_settings_def)

lemma await_answer_total:
  assumes "clock_runs E"
  shows "\<exists>v s'. await_answer E judge s = Some (v, s') \<and> clock_reads s < clock_reads s' \<and> same_settings s s'"
proof -
  obtain k where "Suc (clock_reads s) \<le> k" "clock E (clock_reads s) + patience s \<le> clock E k"
    using clock_runsD[OF assms] by blast
  then show ?thesis
    using await_answer_returns[of E s k judge] by auto
qed

section \<open>A classic connection\<close>

definition on_line :: "framing \<Rightarrow> 'w rpc_socket \<Rightarrow> bool" where
  "on_line f s \<longleftrightarrow> socket s = Classic f \<and> steady (stream f) \<and> writable (stream f)"

definition pong_of :: "frame \<Rightarrow> frame" where
  "pong_of f = \<lparr>fin = True, opcode = OP_PONG, payload = payload f\<rparr>"

text \<open>What a run of keepalive frames makes the socket write, with the masks it draws from the n-th on.\<close>

fun pong_bytes :: "'w outside \<Rightarrow> nat \<Rightarrow> (frame \<times> bytes) list \<Rightarrow> bytes" where
  "pong_bytes E n [] = []"
| "pong_bytes E n (p # ps) =
     (if opcode (fst p) = OP_PING then frame_image (pong_of (fst p), mask_source E n) @ pong_bytes E (Suc n) ps
      else pong_bytes E n ps)"

definition keepalive :: "frame \<times> bytes \<Rightarrow> bool" where
  "keepalive p \<longleftrightarrow> maskable p \<and> opcode (fst p) \<in> {OP_PING, OP_PONG}"

lemma read_frame_ahead:
  assumes "on_line f s" and "maskable p" and "ahead f = frame_image p @ rest"
  shows "\<exists>f'. on_classic receive s = (Inr (fst p), s\<lparr>socket := Classic f'\<rparr>) \<and> ahead f' = rest
    \<and> steady (stream f') \<and> writable (stream f') \<and> outgoing (stream f') = outgoing (stream f)"
proof -
  have "decode_frame (ahead f) = Inr (Some (fst p, length (frame_image p)))"
    using ws.complete_more[OF assms(2)] assms(3) by simp
  then obtain f' where f': "receive f = (Inr (fst p), f')" "ahead f' = rest" "steady (stream f')" "same_writer (stream f) (stream f')"
    using ws_reader.receive_outcome[of f] assms(1,3) by (auto simp: receive_def on_line_def)
  then show ?thesis
    using assms(1) by (auto simp: on_classic_def on_line_def same_writer_def writable_def)
qed

lemma classic_pong_ok:
  assumes "socket s = Classic f" and "writable (stream f)" and "sendable (pong_of g)"
  shows "classic_pong E (payload g) s = (Inr (),
    s\<lparr>masks_drawn := Suc (masks_drawn s),
      socket := Classic (f\<lparr>stream := (stream f)\<lparr>outgoing := outgoing (stream f) @ frame_image (pong_of g, mask_source E (masks_drawn s))\<rparr>\<rparr>)\<rparr>)"
  using send_ok[OF assms(3,2), of "mask_source E (masks_drawn s)"] assms(1)
  by (simp add: classic_pong_def draw_mask_def on_classic_def send_pong_def pong_of_def)

lemma read_keepalive:
  assumes "on_line f s" and "keepalive p" and "ahead f = frame_image p @ rest"
  shows "\<exists>f' s'. transport_read E s = (Inr (MPong (payload (fst p))), s') \<and> on_line f' s' \<and> ahead f' = rest
    \<and> outgoing (stream f') @ pong_bytes E (masks_drawn s') ps = outgoing (stream f) @ pong_bytes E (masks_drawn s) (p # ps)
    \<and> same_settings s s' \<and> clock_reads s' = clock_reads s"
proof -
  have p: "maskable p" "opcode (fst p) \<in> {OP_PING, OP_PONG}"
    using assms(2) by (simp_all add: keepalive_def)
  obtain f1 where f1: "on_classic receive s = (Inr (fst p), s\<lparr>socket := Classic f1\<rparr>)" "ahead f1 = rest"
      "steady (stream f1)" "writable (stream f1)" "outgoing (stream f1) = outgoing (stream f)"
    using read_frame_ahead[OF assms(1) p(1) assms(3)] by blast
  have read: "transport_read E s = classic_message E (fst p) (s\<lparr>socket := Classic f1\<rparr>)"
    using assms(1) f1(1) by (simp add: transport_read_def on_line_def)
  show ?thesis
  proof (cases "opcode (fst p) = OP_PING")
    case True
    let ?s1 = "s\<lparr>socket := Classic f1\<rparr>"
    let ?f2 = "f1\<lparr>stream := (stream f1)\<lparr>outgoing := outgoing (stream f1) @ frame_image (pong_of (fst p), mask_source E (masks_drawn s))\<rparr>\<rparr>"
    have "sendable (pong_of (fst p))"
      using p(1) True by (simp add: maskable_def sendable_def pong_of_def)
    then have "classic_pong E (payload (fst p)) ?s1 =
        (Inr (), ?s1\<lparr>masks_drawn := Suc (masks_drawn s), socket := Classic ?f2\<rparr>)"
      using classic_pong_ok[of ?s1 f1 "fst p" E] f1(4) by simp
    then have "transport_read E s = (Inr (MPong (payload (fst p))), ?s1\<lparr>masks_drawn := Suc (masks_drawn s), socket := Classic ?f2\<rparr>)"
      using True by (simp add: read classic_message_def)
    moreover have "steady (stream ?f2)" "writable (stream ?f2)" "ahead ?f2 = rest"
      using f1 by (simp_all add: steady_def quiet_def writable_def ahead_def pending_def)
    ultimately show ?thesis
      using True f1(5)
      by (intro exI[of _ ?f2] exI[of _ "?s1\<lparr>masks_drawn := Suc (masks_drawn s), socket := Classic ?f2\<rparr>"])
        (simp add: on_line_def same_settings_def)
  next
    case False
    then have "transport_read E s = (Inr (MPong (payload (fst p))), s\<lparr>socket := Classic f1\<rparr>)"
      using p(2) by (simp add: read classic_message_def)
    then show ?thesis
      using False f1
      by (intro exI[of _ f1] exI[of _ "s\<lparr>socket := Classic f1\<rparr>"]) (simp add: on_line_def same_settings_def)
  qed
qed

text \<open>The next \<open>k\<close> readings of the clock, from the \<open>a\<close>-th on, are before the deadline.\<close>

definition in_time :: "'w outside \<Rightarrow> nat \<Rightarrow> nat \<Rightarrow> nat \<Rightarrow> bool" where
  "in_time E deadline a k \<longleftrightarrow> (\<forall>n < k. clock E (a + n) < deadline)"

lemma in_time_Suc: "in_time E deadline a (Suc k) \<longleftrightarrow> clock E a < deadline \<and> in_time E deadline (Suc a) k"
  by (simp add: in_time_def All_less_Suc2)

lemma await_skips_keepalives:
  assumes "in_time E deadline (clock_reads s) (Suc (length ks))" and "\<forall>k \<in> set ks. keepalive k" and "maskable p" and "opcode (fst p) = OP_BINARY"
    and "on_line f s" and "ahead f = concat (map frame_image ks) @ frame_image p @ rest"
    and "judge (MBinary (payload (fst p))) = Some v" and "\<And>bs. judge (MPong bs) = None"
  shows "\<exists>f' s'. await_message E judge deadline s = Some (v, s') \<and> on_line f' s' \<and> ahead f' = rest
    \<and> outgoing (stream f') = outgoing (stream f) @ pong_bytes E (masks_drawn s) ks \<and> same_settings s s'
    \<and> clock_reads s' = clock_reads s + Suc (length ks)"
  using assms(1,2,5,6)
proof (induction ks arbitrary: s f)
  case Nil
  have early: "\<not> deadline \<le> clock E (clock_reads s)"
    using Nil(1) by (simp add: in_time_Suc not_le)
  let ?s = "s\<lparr>clock_reads := clock_reads s + 1\<rparr>"
  have "on_line f ?s"
    using Nil(3) by (simp add: on_line_def)
  then obtain f1 where f1: "on_classic receive ?s = (Inr (fst p), ?s\<lparr>socket := Classic f1\<rparr>)" "ahead f1 = rest"
      "steady (stream f1)" "writable (stream f1)" "outgoing (stream f1) = outgoing (stream f)"
    using read_frame_ahead[OF _ assms(3)] Nil(4) by force
  have "transport_read E ?s = (Inr (MBinary (payload (fst p))), ?s\<lparr>socket := Classic f1\<rparr>)"
    using Nil(3) f1(1) assms(4) by (simp add: transport_read_def on_line_def classic_message_def)
  then have "await_message E judge deadline s = Some (v, ?s\<lparr>socket := Classic f1\<rparr>)"
    using assms(7) early by (simp add: await_message.simps[of E judge deadline s] read_clock_def)
  then show ?case
    using f1
    by (intro exI[of _ f1] exI[of _ "?s\<lparr>socket := Classic f1\<rparr>"]) (simp add: on_line_def same_settings_def)
next
  case (Cons k ks)
  have early: "\<not> deadline \<le> clock E (clock_reads s)"
    using Cons.prems(1) by (simp add: in_time_Suc not_le)
  let ?s = "s\<lparr>clock_reads := clock_reads s + 1\<rparr>"
  have line: "on_line f ?s" and k: "keepalive k" and ahead: "ahead f = frame_image k @ concat (map frame_image ks) @ frame_image p @ rest"
    using Cons.prems by (simp_all add: on_line_def)
  obtain f1 s1 where s1: "transport_read E ?s = (Inr (MPong (payload (fst k))), s1)" "on_line f1 s1"
      "ahead f1 = concat (map frame_image ks) @ frame_image p @ rest"
      "outgoing (stream f1) @ pong_bytes E (masks_drawn s1) ks = outgoing (stream f) @ pong_bytes E (masks_drawn ?s) (k # ks)"
      "same_settings ?s s1" and reads: "clock_reads s1 = Suc (clock_reads s)"
    using read_keepalive[OF line k ahead, of E ks] by auto
  have step: "await_message E judge deadline s = await_message E judge deadline s1"
    using s1(1) assms(8) early by (simp add: await_message.simps[of E judge deadline s] read_clock_def)
  obtain f2 s2 where "await_message E judge deadline s1 = Some (v, s2)" "on_line f2 s2" "ahead f2 = rest"
      "outgoing (stream f2) = outgoing (stream f1) @ pong_bytes E (masks_drawn s1) ks" "same_settings s1 s2"
      "clock_reads s2 = clock_reads s1 + Suc (length ks)"
    using Cons.IH[OF _ _ s1(2,3)] Cons.prems(1,2) reads by (auto simp: in_time_Suc[of _ _ _ "Suc (length ks)"])
  moreover have "same_settings s s1"
    using s1(5) by (simp add: same_settings_def)
  ultimately show ?case
    unfolding step using s1(4) reads same_settings_trans by (intro exI[of _ f2] exI[of _ s2]) auto
qed

section \<open>Raw messages\<close>

text \<open>The patience of a wait that starts now outlasts the next \<open>k\<close> readings of the clock.\<close>

definition quick :: "'w outside \<Rightarrow> 'w rpc_socket \<Rightarrow> nat \<Rightarrow> bool" where
  "quick E s k \<longleftrightarrow> in_time E (clock E (clock_reads s) + patience s) (Suc (clock_reads s)) k"

lemma await_answer_ok:
  assumes "quick E s (Suc (length ks))" and "\<forall>k \<in> set ks. keepalive k" and "maskable p" and "opcode (fst p) = OP_BINARY"
    and "on_line f s" and "ahead f = concat (map frame_image ks) @ frame_image p @ rest"
    and "judge (MBinary (payload (fst p))) = Some v" and "\<And>bs. judge (MPong bs) = None"
  shows "\<exists>f' s'. await_answer E judge s = Some (v, s') \<and> on_line f' s' \<and> ahead f' = rest
    \<and> outgoing (stream f') = outgoing (stream f) @ pong_bytes E (masks_drawn s) ks \<and> same_settings s s'
    \<and> clock_reads s' = clock_reads s + length ks + 2"
proof -
  let ?s = "s\<lparr>clock_reads := clock_reads s + 1\<rparr>"
  have "on_line f ?s" and "in_time E (clock E (clock_reads s) + patience s) (clock_reads ?s) (Suc (length ks))"
    using assms(1,5) by (simp_all add: on_line_def quick_def)
  from await_skips_keepalives[OF this(2) assms(2-4) this(1) assms(6-8)] show ?thesis
    by (fastforce simp: await_answer_def read_clock_def same_settings_def)
qed

definition binary_packet :: "bytes \<Rightarrow> frame \<times> bytes" where
  "binary_packet bs = (\<lparr>fin = True, opcode = OP_BINARY, payload = bs\<rparr>, [0, 0, 0, 0])"

lemma maskable_binary: "length bs < 2 ^ 63 \<Longrightarrow> maskable (binary_packet bs)"
  by (simp add: maskable_def sendable_def binary_packet_def)

lemma send_raw_ok:
  assumes "socket s = Classic f" and "writable (stream f)" and "length (outbound (transform_of s) bs) < 2 ^ 63"
  shows "send_raw E bs s = (Inr (),
    s\<lparr>socket := Classic (f\<lparr>stream := (stream f)\<lparr>outgoing := outgoing (stream f)
        @ frame_image (binary_packet (outbound (transform_of s) bs))\<rparr>\<rparr>)\<rparr>)"
  using send_ok[of "fst (binary_packet (outbound (transform_of s) bs))" f "[0, 0, 0, 0]"] maskable_binary[OF assms(3)] assms(1,2)
  by (simp add: send_raw_def transport_send_def on_classic_def send_binary_def maskable_def binary_packet_def)

lemma send_raw_all:
  assumes "socket s = Classic f" and "writable (stream f)" and "\<forall>bs \<in> set bss. length (outbound (transform_of s) bs) < 2 ^ 63"
  shows "\<exists>vs. forM bss (send_raw E) s = (Inr vs, s\<lparr>socket := Classic (f\<lparr>stream := (stream f)\<lparr>outgoing := outgoing (stream f)
        @ concat (map (\<lambda>bs. frame_image (binary_packet (outbound (transform_of s) bs))) bss)\<rparr>\<rparr>)\<rparr>)"
  using assms
proof (induction bss arbitrary: s f)
  case (Cons bs bss)
  let ?f1 = "f\<lparr>stream := (stream f)\<lparr>outgoing := outgoing (stream f) @ frame_image (binary_packet (outbound (transform_of s) bs))\<rparr>\<rparr>"
  let ?s1 = "s\<lparr>socket := Classic ?f1\<rparr>"
  have 1: "send_raw E bs s = (Inr (), ?s1)"
    using Cons.prems by (intro send_raw_ok) simp_all
  have "writable (stream ?f1)"
    using Cons.prems(2) by (simp add: writable_def)
  then obtain vs where "forM bss (send_raw E) ?s1 = (Inr vs, ?s1\<lparr>socket := Classic (?f1\<lparr>stream := (stream ?f1)\<lparr>outgoing := outgoing (stream ?f1)
        @ concat (map (\<lambda>bs. frame_image (binary_packet (outbound (transform_of ?s1) bs))) bss)\<rparr>\<rparr>)\<rparr>)"
    using Cons.IH[of ?s1 ?f1] Cons.prems(3) by auto
  then show ?case
    using 1 by simp
qed simp

lemma receive_raw_ok:
  assumes "quick E s (Suc (length ks))" and "\<forall>k \<in> set ks. keepalive k" and "on_line f s"
    and "ahead f = concat (map frame_image ks) @ frame_image (binary_packet wire) @ rest" and "length wire < 2 ^ 63"
  shows "\<exists>f' s'. receive_raw E s = Some (Inr (inbound (transform_of s) wire), s') \<and> on_line f' s' \<and> ahead f' = rest
    \<and> outgoing (stream f') = outgoing (stream f) @ pong_bytes E (masks_drawn s) ks \<and> same_settings s s'
    \<and> clock_reads s' = clock_reads s + length ks + 2"
  unfolding receive_raw_def
  by (rule await_answer_ok[OF assms(1,2) maskable_binary[OF assms(5)] _ assms(3,4)]) (simp_all add: binary_packet_def)

end
