(* ===== verification/Classic_Rpc.thy ===== *)
theory Classic_Rpc
  imports Raw_Proto
begin

text \<open>
  The RPC messages of the classic games' services (\<open>core/src/games/scr/rpc.rs\<close>): the header, whose
  unknown fields are kept verbatim, and the frame around header and body.
\<close>

section \<open>The header\<close>

abbreviation SERVICE_ID :: u32 where "SERVICE_ID \<equiv> 1"
abbreviation METHOD_ID :: u32 where "METHOD_ID \<equiv> 2"
abbreviation TOKEN :: u32 where "TOKEN \<equiv> 3"
abbreviation ROUTING_ID :: u32 where "ROUTING_ID \<equiv> 4"
abbreviation SIZE :: u32 where "SIZE \<equiv> 5"
abbreviation OBJECT_ID :: u32 where "OBJECT_ID \<equiv> 6"
abbreviation IS_RESPONSE :: u32 where "IS_RESPONSE \<equiv> 9"
abbreviation REQUEST_TRACE :: u32 where "REQUEST_TRACE \<equiv> 12"

record classic_header =
  service_id :: u32
  method_id :: u32
  token :: u32
  routing_id :: "u32 option"
  declared_size :: "u32 option"
  object_id :: "u64 option"
  is_response :: "bool option"
  request_trace :: "bytes option"
  unknown :: bytes

definition header_default :: classic_header where
  "header_default = \<lparr>service_id = 0, method_id = 0, token = 0, routing_id = None, declared_size = None,
     object_id = None, is_response = None, request_trace = None, unknown = []\<rparr>"

definition header_is_response :: "classic_header \<Rightarrow> bool" where
  "header_is_response h = (case is_response h of None \<Rightarrow> False | Some b \<Rightarrow> b)"

definition narrow :: "u64 \<Rightarrow> u32 \<Rightarrow> u32 result" where
  "narrow v number =
     (if v < 2 ^ 32 then Inr (ucast v) else Inl (ClassicWire (HeaderFieldTooWide (unat number))))"

text \<open>The variables of the loop of \<open>Header::decode\<close>; the unknown fields gather in the header.\<close>

record header_scan =
  scanned :: classic_header
  has_service :: bool
  has_method :: bool
  has_token :: bool

definition scan_start :: header_scan where
  "scan_start = \<lparr>scanned = header_default, has_service = False, has_method = False, has_token = False\<rparr>"

abbreviation edit_header :: "(classic_header \<Rightarrow> classic_header) \<Rightarrow> header_scan \<Rightarrow> header_scan" where
  "edit_header f s \<equiv> s\<lparr>scanned := f (scanned s)\<rparr>"

definition absorb_varint :: "u32 \<Rightarrow> u64 \<Rightarrow> header_scan \<Rightarrow> header_scan result" where
  "absorb_varint n v s =
     (if n = SERVICE_ID then
        rbind (narrow v n) (\<lambda>x. Inr (edit_header (\<lambda>h. h\<lparr>service_id := x\<rparr>) s\<lparr>has_service := True\<rparr>))
      else if n = METHOD_ID then
        rbind (narrow v n) (\<lambda>x. Inr (edit_header (\<lambda>h. h\<lparr>method_id := x\<rparr>) s\<lparr>has_method := True\<rparr>))
      else if n = TOKEN then
        rbind (narrow v n) (\<lambda>x. Inr (edit_header (\<lambda>h. h\<lparr>token := x\<rparr>) s\<lparr>has_token := True\<rparr>))
      else if n = ROUTING_ID then
        rbind (narrow v n) (\<lambda>x. Inr (edit_header (\<lambda>h. h\<lparr>routing_id := Some x\<rparr>) s))
      else if n = SIZE then
        rbind (narrow v n) (\<lambda>x. Inr (edit_header (\<lambda>h. h\<lparr>declared_size := Some x\<rparr>) s))
      else if n = OBJECT_ID then Inr (edit_header (\<lambda>h. h\<lparr>object_id := Some v\<rparr>) s)
      else if n = IS_RESPONSE then Inr (edit_header (\<lambda>h. h\<lparr>is_response := Some (v \<noteq> 0)\<rparr>) s)
      else Inr (edit_header (\<lambda>h. h\<lparr>unknown := message_field (PField n (Varint v)) (unknown h)\<rparr>) s))"

definition absorb_field :: "pb_field \<Rightarrow> header_scan \<Rightarrow> header_scan result" where
  "absorb_field f s =
     (case pb_value f of
        Varint v \<Rightarrow> absorb_varint (pb_number f) v s
      | PBytes v \<Rightarrow>
          if pb_number f = REQUEST_TRACE then Inr (edit_header (\<lambda>h. h\<lparr>request_trace := Some v\<rparr>) s)
          else Inr (edit_header (\<lambda>h. h\<lparr>unknown := message_field f (unknown h)\<rparr>) s)
      | _ \<Rightarrow> Inr (edit_header (\<lambda>h. h\<lparr>unknown := message_field f (unknown h)\<rparr>) s))"

text \<open>\<open>for item in fields(data) { let item = item?; ... }\<close>\<close>

function scan_fields :: "pb_fields \<Rightarrow> header_scan \<Rightarrow> header_scan result" where
  "scan_fields items s =
     (case fields_next items of
        (None, _) \<Rightarrow> Inr s
      | (Some (Inl e), _) \<Rightarrow> Inl e
      | (Some (Inr f), items') \<Rightarrow> rbind (absorb_field f s) (scan_fields items'))"
  by pat_completeness auto
termination
  by (relation "measure (\<lambda>(items, s). length (pb_data items) - pb_offset items)")
    (auto dest: fields_next_progress(2) sym)

declare scan_fields.simps [simp del]

definition missing_fields :: "header_scan \<Rightarrow> nat list" where
  "missing_fields s =
     (if has_service s then [] else [unat SERVICE_ID]) @ (if has_method s then [] else [unat METHOD_ID])
       @ (if has_token s then [] else [unat TOKEN])"

definition header_decode :: "bytes \<Rightarrow> classic_header result" where
  "header_decode data =
     rbind (scan_fields (fields_of data) scan_start) (\<lambda>s.
     if missing_fields s \<noteq> [] then Inl (ClassicWire (MissingHeaderFields (missing_fields s)))
     else Inr (scanned s))"

definition opt_field :: "('a \<Rightarrow> bytes \<Rightarrow> bytes) \<Rightarrow> 'a option \<Rightarrow> bytes \<Rightarrow> bytes" where
  "opt_field f v m = (case v of None \<Rightarrow> m | Some x \<Rightarrow> f x m)"

definition header_encode :: "classic_header \<Rightarrow> bytes" where
  "header_encode h =
     (let m = message_varint TOKEN (ucast (token h)) (message_varint METHOD_ID (ucast (method_id h))
                (message_varint SERVICE_ID (ucast (service_id h)) []));
          m = opt_field (\<lambda>x. message_varint ROUTING_ID (ucast x)) (routing_id h) m;
          m = opt_field (\<lambda>x. message_varint SIZE (ucast x)) (declared_size h) m;
          m = opt_field (message_varint OBJECT_ID) (object_id h) m;
          m = opt_field (\<lambda>x. message_varint IS_RESPONSE (of_bool x)) (is_response h) m;
          m = opt_field (message_bytes REQUEST_TRACE) (request_trace h) m
      in m @ unknown h)"

section \<open>The frame\<close>

record classic_frame =
  cf_header :: classic_header
  cf_body :: bytes

definition frame_decode :: "bytes \<Rightarrow> classic_frame result" where
  "frame_decode data =
     rbind (ok_or (ClassicWire NoLengthPrefix) (get_slice data 0 2)) (\<lambda>prefix.
     let header_size = from_be prefix in
     rbind (ok_or (ClassicWire (HeaderLengthExceeds header_size (length data - 2)))
              (get_slice data 2 (2 + header_size))) (\<lambda>header_bytes.
     rbind (header_decode header_bytes) (\<lambda>h.
     let bs = drop (2 + header_size) data in
     if (case declared_size h of None \<Rightarrow> False | Some sz \<Rightarrow> unat sz \<noteq> length bs)
     then Inl (ClassicWire (BodySizeMismatch (case declared_size h of None \<Rightarrow> 0 | Some sz \<Rightarrow> unat sz) (length bs)))
     else Inr \<lparr>cf_header = h, cf_body = bs\<rparr>)))"

definition frame_encode :: "classic_header \<Rightarrow> bytes \<Rightarrow> bytes result" where
  "frame_encode h bs =
     (if length bs \<ge> 2 ^ 32 then Inl (ClassicWire BodyExceedsSizeField)
      else if (case declared_size h of None \<Rightarrow> False | Some declared \<Rightarrow> declared \<noteq> of_nat (length bs))
      then Inl (ClassicWire (BodySizeMismatch (case declared_size h of None \<Rightarrow> 0 | Some sz \<Rightarrow> unat sz) (length bs)))
      else
        let encoded_header = header_encode (h\<lparr>declared_size := Some (of_nat (length bs))\<rparr>) in
        if length encoded_header \<ge> 2 ^ 16 then Inl (ClassicWire ClassicHeaderTooLong)
        else Inr (to_be 2 (length encoded_header) @ encoded_header @ bs))"

end
