(* ===== verification/Check_Value.thy ===== *)
theory Check_Value
  imports Byte_Order
begin

text \<open>
  The check-value envelope of the classic channel (\<open>core/src/games/scr/envelope.rs\<close>): a feedback XOR over
  blocks of four bytes, keyed off the nonce of the WebSocket handshake, and the fold of the nonce.  Base64
  is a library function and an argument here.
\<close>

section \<open>The seed\<close>

abbreviation CHECK_VALUE_MASK :: u32 where "CHECK_VALUE_MASK \<equiv> 0x10831105"

definition check_value_base :: "u32 \<Rightarrow> u32" where
  "check_value_base product = push_bit 7 product XOR CHECK_VALUE_MASK"

text \<open>A byte, sign extended, in its lane.\<close>

definition signed_lane :: "nat \<Rightarrow> u8 \<Rightarrow> u32" where
  "signed_lane index byte = push_bit ((index AND 3) * 8) (scast byte)"

definition fold_from :: "bytes \<Rightarrow> u32 \<Rightarrow> u32" where
  "fold_from nonce initial =
     fold (\<lambda>(index, byte) v. if index < 4 then v OR signed_lane index byte else v XOR signed_lane index byte)
       (enumerate 0 nonce) initial"

definition fold_nonce :: "bytes \<Rightarrow> u32 \<Rightarrow> u32" where
  "fold_nonce nonce product = fold_from nonce (check_value_base product)"

record envelope =
  seed :: u32

definition from_websocket_key :: "(bytes \<Rightarrow> bytes option) \<Rightarrow> bytes \<Rightarrow> u32 \<Rightarrow> envelope result" where
  "from_websocket_key base64_decode websocket_key product =
     rbind (ok_or (Transport KeyNotBase64) (base64_decode websocket_key)) (\<lambda>nonce.
     if length nonce \<noteq> 16 then Inl (Transport (KeyNotSixteenBytes (length nonce)))
     else Inr \<lparr>seed = fold_nonce nonce product\<rparr>)"

section \<open>The transform\<close>

datatype direction = Encode | Decode

definition le_byte :: "u32 \<Rightarrow> nat \<Rightarrow> u8" where
  "le_byte key lane = to_le 4 (unat key) ! lane"

text \<open>\<open>for lane in 0..n { key = key.rotate_left(1); output[offset + lane] ^= key.to_le_bytes()[lane] }\<close>\<close>

fun xor_lanes :: "nat list \<Rightarrow> u32 \<Rightarrow> nat \<Rightarrow> bytes \<Rightarrow> bytes" where
  "xor_lanes [] key offset out = out"
| "xor_lanes (lane # lanes) key offset out =
     (let key = word_rotl 1 key in
      xor_lanes lanes key offset (out[offset + lane := out ! (offset + lane) XOR le_byte key lane]))"

definition block_key :: "bytes \<Rightarrow> nat \<Rightarrow> u32" where
  "block_key source offset =
     (let previous = of_nat (from_le (slice_of source (offset - 4) offset)); low_offset = of_nat (offset AND 31)
      in word_rotr (unat (NOT (low_offset XOR previous) AND 31)) previous)"

lemma length_xor_lanes [simp]: "length (xor_lanes lanes key offset out) = length out"
  by (induction lanes arbitrary: key out) (simp_all add: Let_def)

function transform_blocks :: "direction \<Rightarrow> bytes \<Rightarrow> nat \<Rightarrow> bytes \<Rightarrow> bytes" where
  "transform_blocks dir pl offset out =
     (if offset < length out
      then let key = block_key (case dir of Encode \<Rightarrow> out | Decode \<Rightarrow> pl) offset; n = min (length out - offset) 4 in
        transform_blocks dir pl (offset + n) (xor_lanes [0..<n] key offset out)
      else out)"
  by pat_completeness auto
termination
  by (relation "measure (\<lambda>(dir, pl, offset, out). length out - offset)") (auto simp: Let_def)

declare transform_blocks.simps [simp del]

definition transform :: "envelope \<Rightarrow> bytes \<Rightarrow> direction \<Rightarrow> bytes" where
  "transform env pl dir =
     transform_blocks dir pl 4 (xor_lanes [0..<min (length pl) 4] (seed env) 0 pl)"

definition envelope_encode :: "envelope \<Rightarrow> bytes \<Rightarrow> bytes" where
  "envelope_encode env pl = transform env pl Encode"

definition envelope_decode :: "envelope \<Rightarrow> bytes \<Rightarrow> bytes" where
  "envelope_decode env pl = transform env pl Decode"

section \<open>The pad\<close>

text \<open>
  The byte a position is XORed with: a function of the seed in the first block and of the four encoded
  bytes in front of the block in every later one.
\<close>

definition pad :: "u32 \<Rightarrow> bytes \<Rightarrow> nat \<Rightarrow> u8" where
  "pad s wire i =
     (let lane = i mod 4; key = (if i < 4 then s else block_key wire (i - lane))
      in le_byte (word_rotl (Suc lane) key) lane)"

lemma word_rotl_word_rotl: "word_rotl m (word_rotl n w) = word_rotl (m + n) w"
  by (simp add: word_rotl_rev word_rotr_word_rotr_eq)

lemma xor_lanes_nth:
  assumes "a + n = m" and "offset + m \<le> length out" and "i < length out"
  shows "xor_lanes [a..<m] key offset out ! i =
    (if offset + a \<le> i \<and> i < offset + m then out ! i XOR le_byte (word_rotl (Suc (i - offset - a)) key) (i - offset) else out ! i)"
  using assms
proof (induction n arbitrary: a key out)
  case (Suc n)
  let ?out = "out[offset + a := out ! (offset + a) XOR le_byte (word_rotl 1 key) a]"
  have "[a..<m] = a # [Suc a..<m]"
    using Suc.prems(1) by (simp add: upt_conv_Cons)
  then have step: "xor_lanes [a..<m] key offset out = xor_lanes [Suc a..<m] (word_rotl 1 key) offset ?out"
    by (simp add: Let_def)
  have IH: "xor_lanes [Suc a..<m] (word_rotl 1 key) offset ?out ! i =
    (if offset + Suc a \<le> i \<and> i < offset + m
     then ?out ! i XOR le_byte (word_rotl (Suc (i - offset - Suc a)) (word_rotl 1 key)) (i - offset) else ?out ! i)"
    using Suc.prems by (intro Suc.IH) simp_all
  consider "i = offset + a" | "offset + Suc a \<le> i" | "i < offset + a"
    by linarith
  then show ?case
  proof cases
    case 1
    then show ?thesis
      unfolding step IH using Suc.prems by simp
  next
    case 2
    then have "Suc (i - offset - Suc a) + 1 = Suc (i - offset - a)"
      by simp
    then show ?thesis
      unfolding step IH word_rotl_word_rotl using 2 Suc.prems by simp
  next
    case 3
    then show ?thesis
      unfolding step IH by simp
  qed
qed auto

lemma length_transform_blocks [simp]: "length (transform_blocks dir pl offset out) = length out"
proof (induction dir pl offset out rule: transform_blocks.induct)
  case (1 dir pl offset out)
  then show ?case
    by (subst transform_blocks.simps) (simp add: Let_def)
qed

lemma block_key_cong:
  "(\<And>i. offset - 4 \<le> i \<Longrightarrow> i < offset \<Longrightarrow> a ! i = b ! i) \<Longrightarrow> offset \<le> length a \<Longrightarrow> offset \<le> length b \<Longrightarrow>
    block_key a offset = block_key b offset"
proof -
  assume *: "\<And>i. offset - 4 \<le> i \<Longrightarrow> i < offset \<Longrightarrow> a ! i = b ! i" "offset \<le> length a" "offset \<le> length b"
  have "slice_of a (offset - 4) offset = slice_of b (offset - 4) offset"
    by (rule nth_equalityI) (use * in \<open>auto simp: slice_of_def\<close>)
  then show ?thesis
    by (simp add: block_key_def)
qed

text \<open>What the blocks from an offset on are XORed with: the key comes from the encoded side.\<close>

lemma transform_blocks_nth:
  assumes "4 \<le> offset" and "offset mod 4 = 0 \<or> length out \<le> offset" and "length pl = length out" and "i < length out"
  shows "transform_blocks dir pl offset out ! i =
    (if i < offset then out ! i
     else out ! i XOR pad s (case dir of Encode \<Rightarrow> transform_blocks dir pl offset out | Decode \<Rightarrow> pl) i)"
  using assms
proof (induction dir pl offset out arbitrary: i rule: transform_blocks.induct)
  case (1 dir pl offset out)
  show ?case
  proof (cases "offset < length out")
    case False
    then show ?thesis
      using "1.prems" by (simp add: transform_blocks.simps[of dir pl offset out])
  next
    case True
    define n where "n = min (length out - offset) 4"
    define key where "key = block_key (case dir of Encode \<Rightarrow> out | Decode \<Rightarrow> pl) offset"
    define out' where "out' = xor_lanes [0..<n] key offset out"
    define res where "res = transform_blocks dir pl offset out"
    have res: "res = transform_blocks dir pl (offset + n) out'"
      using True by (simp add: res_def transform_blocks.simps[of dir pl offset out] n_def key_def out'_def Let_def)
    have len: "length out' = length out" "offset + n \<le> length out"
      using True by (simp_all add: out'_def n_def)
    have aligned: "offset mod 4 = 0" "(offset + n) mod 4 = 0 \<or> length out' \<le> offset + n"
      using "1.prems"(2) True by (auto simp: n_def len min_def)
    have out': "out' ! j = (if offset \<le> j \<and> j < offset + n then out ! j XOR le_byte (word_rotl (Suc (j - offset)) key) (j - offset) else out ! j)"
      if "j < length out" for j
      using xor_lanes_nth[of 0 n n offset out j key] that len(2) by (simp add: out'_def)
    have IH: "res ! j = (if j < offset + n then out' ! j
        else out' ! j XOR pad s (case dir of Encode \<Rightarrow> res | Decode \<Rightarrow> pl) j)" if "j < length out" for j
      using "1.IH"[OF True refl refl, folded n_def key_def, folded out'_def, of j] "1.prems"(1,3) aligned(2) that
      unfolding res by (simp add: len)
    show ?thesis
    proof (cases "offset \<le> i \<and> i < offset + n")
      case False
      then show ?thesis
        unfolding res_def[symmetric] using IH[of i] out'[of i] "1.prems"(4) by auto
    next
      case inside: True
      have "block_key (case dir of Encode \<Rightarrow> res | Decode \<Rightarrow> pl) offset = key"
        unfolding key_def
        using IH out' True len "1.prems"(3)
        by (cases dir) (auto intro!: block_key_cong simp: res_def)
      moreover have "i mod 4 = i - offset" "i - i mod 4 = offset"
      proof -
        have "i - offset < 4"
          using inside by (auto simp: n_def)
        moreover have "i = offset + (i - offset)"
          using inside by simp
        ultimately show "i mod 4 = i - offset"
          using aligned(1) by (metis mod_add_left_eq add_0 mod_less)
        then show "i - i mod 4 = offset"
          using inside by simp
      qed
      ultimately have "pad s (case dir of Encode \<Rightarrow> res | Decode \<Rightarrow> pl) i = le_byte (word_rotl (Suc (i - offset)) key) (i - offset)"
        using "1.prems"(1) inside by (simp add: pad_def Let_def)
      then show ?thesis
        unfolding res_def[symmetric] using IH[of i] out'[of i] inside "1.prems"(4) by simp
    qed
  qed
qed

lemma length_transform [simp]: "length (transform env pl dir) = length pl"
  by (simp add: transform_def)

lemma transform_nth:
  assumes "i < length pl"
  shows "transform env pl dir ! i =
    pl ! i XOR pad (seed env) (case dir of Encode \<Rightarrow> transform env pl dir | Decode \<Rightarrow> pl) i"
proof -
  let ?first = "xor_lanes [0..<min (length pl) 4] (seed env) 0 pl"
  have first: "?first ! i = (if i < 4 then pl ! i XOR le_byte (word_rotl (Suc i) (seed env)) i else pl ! i)"
    using xor_lanes_nth[of 0 "min (length pl) 4" "min (length pl) 4" 0 pl i "seed env"] assms by auto
  show ?thesis
    unfolding transform_def using transform_blocks_nth[of 4 ?first pl i dir "seed env"] assms first
    by (auto simp: pad_def)
qed

lemma pad_cong:
  assumes "\<And>j. j < i \<Longrightarrow> a ! j = b ! j" and "i < length a" and "i < length b"
  shows "pad s a i = pad s b i"
proof (cases "i < 4")
  case False
  have "i - i mod 4 \<le> i"
    by simp
  then have "block_key a (i - i mod 4) = block_key b (i - i mod 4)"
    using assms by (intro block_key_cong) auto
  then show ?thesis
    by (simp add: pad_def Let_def)
qed (simp add: pad_def Let_def)

lemma decode_encode: "envelope_decode env (envelope_encode env pl) = pl"
proof (rule nth_equalityI)
  fix i
  assume "i < length (envelope_decode env (envelope_encode env pl))"
  then have i: "i < length pl"
    by (simp add: envelope_decode_def envelope_encode_def)
  then show "envelope_decode env (envelope_encode env pl) ! i = pl ! i"
    using transform_nth[of i "transform env pl Encode" env Decode] transform_nth[of i pl env Encode]
    by (simp add: envelope_decode_def envelope_encode_def xor.assoc)
qed (simp add: envelope_decode_def envelope_encode_def)

lemma encode_decode: "envelope_encode env (envelope_decode env pl) = pl"
proof (rule nth_equalityI)
  let ?d = "envelope_decode env pl" and ?e = "envelope_encode env (envelope_decode env pl)"
  have len: "length ?d = length pl" "length ?e = length pl"
    by (simp_all add: envelope_decode_def envelope_encode_def)
  have "?e ! i = pl ! i" if "i < length pl" for i
    using that
  proof (induction i rule: less_induct)
    case (less i)
    have "pad (seed env) ?e i = pad (seed env) pl i"
      using less len by (intro pad_cong) auto
    then show ?case
      using transform_nth[of i ?d env Encode] transform_nth[of i pl env Decode] less.prems len
      by (simp add: envelope_encode_def envelope_decode_def xor.assoc)
  qed
  then show "?e ! i = pl ! i" if "i < length ?e" for i
    using that len by simp
qed (simp add: envelope_decode_def envelope_encode_def)

section \<open>What the seed depends on\<close>

text \<open>
  The first four bytes of the nonce are merged into the base with OR, so bases that differ only in bits that
  those bytes set give the same seed.
\<close>

definition first_lanes :: "bytes \<Rightarrow> u32" where
  "first_lanes nonce = fold (\<lambda>(index, byte) v. v OR signed_lane index byte) (enumerate 0 (take 4 nonce)) 0"

definition later_lanes :: "bytes \<Rightarrow> u32" where
  "later_lanes nonce = fold (\<lambda>(index, byte) v. v XOR signed_lane index byte) (enumerate 4 (drop 4 nonce)) 0"

lemma fold_or: "fold (\<lambda>(index, byte) v. v OR signed_lane index byte) xs v
    = v OR fold (\<lambda>(index, byte) v. v OR signed_lane index byte) xs 0"
proof (induction xs arbitrary: v)
  case (Cons x xs)
  show ?case
    using Cons.IH[of "v OR signed_lane (fst x) (snd x)"] Cons.IH[of "signed_lane (fst x) (snd x)"]
    by (simp add: case_prod_beta or.assoc)
qed simp

lemma fold_xor: "fold (\<lambda>(index, byte) v. v XOR signed_lane index byte) xs v
    = v XOR fold (\<lambda>(index, byte) v. v XOR signed_lane index byte) xs 0"
proof (induction xs arbitrary: v)
  case (Cons x xs)
  show ?case
    using Cons.IH[of "v XOR signed_lane (fst x) (snd x)"] Cons.IH[of "signed_lane (fst x) (snd x)"]
    by (simp add: case_prod_beta xor.assoc)
qed simp

lemma fold_from_split: "fold_from nonce v = (v OR first_lanes nonce) XOR later_lanes nonce"
proof -
  let ?f = "\<lambda>(index, byte) v. if index < 4 then v OR signed_lane index byte else v XOR signed_lane index byte"
  have split: "enumerate 0 nonce = enumerate 0 (take 4 nonce) @ enumerate (min (length nonce) 4) (drop 4 nonce)"
    using enumerate_append_eq[of 0 "take 4 nonce" "drop 4 nonce"] by simp
  have late: "enumerate (min (length nonce) 4) (drop 4 nonce) = enumerate 4 (drop 4 nonce)"
    by (cases "4 \<le> length nonce") simp_all
  have "fold ?f (enumerate 0 (take 4 nonce)) w = fold (\<lambda>(index, byte) v. v OR signed_lane index byte) (enumerate 0 (take 4 nonce)) w" for w
    by (rule fold_cong) (auto simp: in_set_enumerate_eq)
  moreover have "fold ?f (enumerate 4 (drop 4 nonce)) w = fold (\<lambda>(index, byte) v. v XOR signed_lane index byte) (enumerate 4 (drop 4 nonce)) w" for w
    by (rule fold_cong) (auto simp: in_set_enumerate_eq)
  ultimately show ?thesis
    unfolding fold_from_def split late fold_append comp_apply
    using fold_or[of "enumerate 0 (take 4 nonce)" v] fold_xor[of "enumerate 4 (drop 4 nonce)" "v OR first_lanes nonce"]
    by (simp add: first_lanes_def later_lanes_def)
qed

lemma fold_from_eq_iff: "fold_from nonce a = fold_from nonce b \<longleftrightarrow> a OR first_lanes nonce = b OR first_lanes nonce"
proof -
  have cancel: "x XOR z = y XOR z \<longleftrightarrow> x = y" for x y z :: u32
  proof
    assume "x XOR z = y XOR z"
    then have "(x XOR z) XOR z = (y XOR z) XOR z"
      by simp
    then show "x = y"
      by (simp only: xor.assoc xor_self_eq xor.right_neutral)
  qed simp
  show ?thesis
    unfolding fold_from_split cancel ..
qed

end
