(* ===== verification/Classic_Client.thy ===== *)
theory Classic_Client
  imports Socket_Laws Classic_Rpc Check_Value
begin

text \<open>
  The client of the classic channel (\<open>ClassicClient\<close> of \<open>core/src/games/scr/client.rs\<close>) on top of the socket:
  requests with tokens, the wait that acknowledges the service's own requests while it looks for its answer,
  and the poll.  The frames handed to the callbacks are collected in a list.
\<close>

section \<open>State\<close>

abbreviation DEFAULT_ROUTING_ID :: u32 where "DEFAULT_ROUTING_ID \<equiv> 2525111537"

text \<open>\<open>Product::Remastered.fourcc()\<close>, the letters S1.\<close>

abbreviation REMASTERED_FOURCC :: u32 where "REMASTERED_FOURCC \<equiv> 0x5331"

record request =
  rq_service :: u32
  rq_method :: u32
  rq_body :: bytes
  rq_trace :: "bytes option"

definition request_new :: "u32 \<Rightarrow> u32 \<Rightarrow> bytes \<Rightarrow> request" where
  "request_new service method bs = \<lparr>rq_service = service, rq_method = method, rq_body = bs, rq_trace = None\<rparr>"

definition with_trace :: "bytes \<Rightarrow> request \<Rightarrow> request" where
  "with_trace trace rq = rq\<lparr>rq_trace := Some trace\<rparr>"

record 'w classic_client =
  link :: "'w rpc_socket"
  next_token :: u32
  route :: u32

text \<open>\<open>impl PayloadTransform for CheckValueEnvelope\<close>\<close>

definition check_value_transform :: "envelope \<Rightarrow> payload_transform" where
  "check_value_transform env = \<lparr>pt_encode = envelope_encode env, pt_decode = envelope_decode env\<rparr>"

text \<open>\<open>ClassicClient::connect\<close> once the socket is connected.\<close>

definition classic_connect :: "(bytes \<Rightarrow> bytes option) \<Rightarrow> 'w rpc_socket \<Rightarrow> 'w classic_client result" where
  "classic_connect base64_decode s =
     rbind (from_websocket_key base64_decode (handshake_key s) REMASTERED_FOURCC) (\<lambda>env.
     Inr \<lparr>link = set_transform (check_value_transform env) s, next_token = 1, route = DEFAULT_ROUTING_ID\<rparr>)"

section \<open>Sending\<close>

definition on_link :: "('w rpc_socket, 'a) op \<Rightarrow> ('w classic_client, 'a) op" where
  "on_link m c = (case m (link c) of (v, s) \<Rightarrow> (v, c\<lparr>link := s\<rparr>))"

definition transmit :: "'w outside \<Rightarrow> classic_header \<Rightarrow> bytes \<Rightarrow> ('w classic_client, unit) op" where
  "transmit E h bs = bindM (liftR (frame_encode h bs)) (\<lambda>rpc. on_link (send_raw E rpc))"

definition request_header :: "request \<Rightarrow> u32 \<Rightarrow> u32 \<Rightarrow> classic_header" where
  "request_header rq tk rt =
     header_default\<lparr>service_id := rq_service rq, method_id := rq_method rq, token := tk, routing_id := Some rt,
       object_id := Some 0, is_response := Some False, request_trace := rq_trace rq\<rparr>"

definition client_send :: "'w outside \<Rightarrow> request \<Rightarrow> ('w classic_client, u32) op" where
  "client_send E rq =
     bindM (getsM next_token) (\<lambda>tk.
     bindM (modifyM (\<lambda>c. c\<lparr>next_token := next_token c + 1\<rparr>)) (\<lambda>_.
     bindM (getsM route) (\<lambda>rt.
     bindM (transmit E (request_header rq tk rt) (rq_body rq)) (\<lambda>_.
     ret tk))))"

definition ack_header :: "u32 \<Rightarrow> classic_header \<Rightarrow> bytes option \<Rightarrow> classic_header" where
  "ack_header rt h trace =
     header_default\<lparr>service_id := service_id h, method_id := method_id h, token := token h,
       routing_id := (case routing_id h of None \<Rightarrow> Some rt | Some r \<Rightarrow> Some r),
       object_id := object_id h, is_response := Some True, request_trace := trace\<rparr>"

definition acknowledge :: "'w outside \<Rightarrow> classic_frame \<Rightarrow> bytes option \<Rightarrow> ('w classic_client, unit) op" where
  "acknowledge E f trace =
     bindM (getsM route) (\<lambda>rt. transmit E (ack_header rt (cf_header f) trace) [])"

section \<open>Waiting\<close>

definition quiet_read :: "error \<Rightarrow> bool" where
  "quiet_read e \<longleftrightarrow> e = Io WouldBlock \<or> e = Io TimedOut"

partial_function (option) client_receive ::
    "'w outside \<Rightarrow> nat \<Rightarrow> 'w classic_client \<Rightarrow> (classic_frame result \<times> 'w classic_client) option" where
  "client_receive E deadline c =
     (case read_clock E (link c) of (now, s) \<Rightarrow>
      if now \<ge> deadline then Some (Inl (Io TimedOut), c\<lparr>link := s\<rparr>)
      else Option.bind (receive_raw E s) (\<lambda>(v, s).
        case v of
          Inr raw \<Rightarrow> Some (frame_decode raw, c\<lparr>link := s\<rparr>)
        | Inl e \<Rightarrow> if quiet_read e then client_receive E deadline (c\<lparr>link := s\<rparr>) else Some (Inl e, c\<lparr>link := s\<rparr>)))"

definition answers :: "u32 \<Rightarrow> request \<Rightarrow> classic_header \<Rightarrow> bool" where
  "answers tk rq h \<longleftrightarrow> token h = tk \<and> service_id h = rq_service rq \<and> method_id h = rq_method rq"

partial_function (option) await_response ::
    "'w outside \<Rightarrow> u32 \<Rightarrow> request \<Rightarrow> nat \<Rightarrow> bytes option \<Rightarrow> classic_frame list \<Rightarrow> 'w classic_client
      \<Rightarrow> (classic_frame result \<times> classic_frame list \<times> 'w classic_client) option" where
  "await_response E tk rq deadline ack_trace seen c =
     Option.bind (client_receive E deadline c) (\<lambda>(v, c).
     case v of
       Inl e \<Rightarrow> Some (Inl e, seen, c)
     | Inr f \<Rightarrow>
         if header_is_response (cf_header f) then
           if answers tk rq (cf_header f) then Some (Inr f, seen, c)
           else await_response E tk rq deadline ack_trace seen c
         else
           case acknowledge E f ack_trace c of
             (Inl e, c) \<Rightarrow> Some (Inl e, seen @ [f], c)
           | (Inr _, c) \<Rightarrow> await_response E tk rq deadline None (seen @ [f]) c)"

definition call :: "'w outside \<Rightarrow> request \<Rightarrow> nat \<Rightarrow> 'w classic_client
    \<Rightarrow> (classic_frame result \<times> classic_frame list \<times> 'w classic_client) option" where
  "call E rq timeout c =
     (case client_send E rq c of
        (Inl e, c) \<Rightarrow> Some (Inl e, [], c)
      | (Inr tk, c) \<Rightarrow>
          (case read_clock E (link c) of (now, s) \<Rightarrow>
             await_response E tk rq (now + timeout) (rq_trace rq) [] (c\<lparr>link := s\<rparr>)))"

partial_function (option) pump_until ::
    "'w outside \<Rightarrow> nat \<Rightarrow> 'w classic_client \<Rightarrow> (classic_frame result \<times> classic_frame list \<times> 'w classic_client) option" where
  "pump_until E deadline c =
     Option.bind (client_receive E deadline c) (\<lambda>(v, c).
     case v of
       Inl e \<Rightarrow> Some (Inl e, [], c)
     | Inr f \<Rightarrow>
         if header_is_response (cf_header f) then pump_until E deadline c
         else case acknowledge E f None c of
             (Inl e, c) \<Rightarrow> Some (Inl e, [f], c)
           | (Inr _, c) \<Rightarrow> Some (Inr f, [f], c))"

definition pump :: "'w outside \<Rightarrow> nat \<Rightarrow> 'w classic_client
    \<Rightarrow> (classic_frame result \<times> classic_frame list \<times> 'w classic_client) option" where
  "pump E timeout c =
     (case read_clock E (link c) of (now, s) \<Rightarrow> pump_until E (now + timeout) (c\<lparr>link := s\<rparr>))"

end
