(* ===== verification/Classic_Laws.thy ===== *)
theory Classic_Laws
  imports Classic_Rpc
begin

text \<open>
  The laws of the classic RPC messages: a header is the message of its known fields followed by its
  unknown ones, reading it back gives the header, and everything that was read can be written again.
\<close>

section \<open>The loop over collected fields\<close>

fun absorb_all :: "pb_field list \<Rightarrow> header_scan \<Rightarrow> header_scan result" where
  "absorb_all [] s = Inr s"
| "absorb_all (f # fs) s = rbind (absorb_field f s) (absorb_all fs)"

lemma absorb_all_append: "absorb_all (fs @ gs) s = rbind (absorb_all fs s) (absorb_all gs)"
  by (induction fs arbitrary: s) (auto simp: rbind_def split: sum.splits)

lemma scan_fields_collect: "collect_fields items = Inr fs \<Longrightarrow> scan_fields items s = absorb_all fs s"
proof (induction items arbitrary: fs s rule: collect_fields.induct)
  case (1 items)
  obtain item items' where nx: "fields_next items = (item, items')" by (cases "fields_next items")
  show ?case
  proof (cases item)
    case None
    then show ?thesis
      using "1.prems" nx by (simp add: collect_fields.simps[of items] scan_fields.simps[of items])
  next
    case (Some r)
    then obtain f where f: "r = Inr f"
      using "1.prems" nx by (cases r) (simp_all add: collect_fields.simps[of items])
    then obtain rest where "collect_fields items' = Inr rest" "fs = f # rest"
      using "1.prems" nx Some by (auto simp: collect_fields.simps[of items] rbind_Inr_iff)
    then show ?thesis
      using "1.IH"[OF nx[symmetric] Some f] nx Some f
      by (simp add: scan_fields.simps[of items] rbind_def split: sum.split)
  qed
qed

lemma scan_fields_ok:
  "scan_fields items s = Inr s' \<Longrightarrow> \<exists>fs. collect_fields items = Inr fs \<and> absorb_all fs s = Inr s'"
proof (induction items s arbitrary: s' rule: scan_fields.induct)
  case (1 items s)
  obtain item items' where nx: "fields_next items = (item, items')" by (cases "fields_next items")
  show ?case
  proof (cases item)
    case None
    then show ?thesis
      using "1.prems" nx by (simp add: collect_fields.simps[of items] scan_fields.simps[of items])
  next
    case (Some r)
    then obtain f where f: "r = Inr f"
      using "1.prems" nx by (cases r) (simp_all add: scan_fields.simps[of items])
    then obtain s1 where s1: "absorb_field f s = Inr s1" "scan_fields items' s1 = Inr s'"
      using "1.prems" nx Some by (auto simp: scan_fields.simps[of items] rbind_Inr_iff)
    then obtain fs where "collect_fields items' = Inr fs" "absorb_all fs s1 = Inr s'"
      using "1.IH"[OF nx[symmetric] Some f] by blast
    then show ?thesis
      using nx Some f s1(1) by (intro exI[of _ "f # fs"]) (simp add: collect_fields.simps[of items])
  qed
qed

section \<open>Known and unknown fields\<close>

fun known_field :: "pb_field \<Rightarrow> bool" where
  "known_field (PField n (Varint _)) = (n \<in> {SERVICE_ID, METHOD_ID, TOKEN, ROUTING_ID, SIZE, OBJECT_ID, IS_RESPONSE})"
| "known_field (PField n (PBytes _)) = (n = REQUEST_TRACE)"
| "known_field _ = False"

definition opt_list :: "('a \<Rightarrow> 'b) \<Rightarrow> 'a option \<Rightarrow> 'b list" where
  "opt_list f v = (case v of None \<Rightarrow> [] | Some x \<Rightarrow> [f x])"

lemma opt_list_simps [simp]: "opt_list f None = []" "opt_list f (Some x) = [f x]"
  by (simp_all add: opt_list_def)

lemma opt_field_simps [simp]: "opt_field f None m = m" "opt_field f (Some x) m = f x m"
  by (simp_all add: opt_field_def)

definition known_fields :: "classic_header \<Rightarrow> pb_field list" where
  "known_fields h =
     [PField SERVICE_ID (Varint (ucast (service_id h))), PField METHOD_ID (Varint (ucast (method_id h))),
      PField TOKEN (Varint (ucast (token h)))]
     @ opt_list (\<lambda>x. PField ROUTING_ID (Varint (ucast x))) (routing_id h)
     @ opt_list (\<lambda>x. PField SIZE (Varint (ucast x))) (declared_size h)
     @ opt_list (\<lambda>x. PField OBJECT_ID (Varint x)) (object_id h)
     @ opt_list (\<lambda>x. PField IS_RESPONSE (Varint (of_bool x))) (is_response h)
     @ opt_list (\<lambda>x. PField REQUEST_TRACE (PBytes x)) (request_trace h)"

lemma message_field_snoc: "message_field f (message_fields fs) = message_fields (fs @ [f])"
  by (simp add: message_fields_def)

lemma message_fields_append: "message_fields (fs @ gs) = message_fields fs @ message_fields gs"
  by (simp add: message_fields_concat)

lemma opt_field_message:
  assumes "\<And>x m. f x m = message_field (g x) m"
  shows "opt_field f v (message_fields fs) = message_fields (fs @ opt_list g v)"
  by (cases v) (simp_all add: assms message_field_snoc)

lemma header_encode_fields: "header_encode h = message_fields (known_fields h) @ unknown h"
proof -
  have "message_varint TOKEN (ucast (token h)) (message_varint METHOD_ID (ucast (method_id h))
         (message_varint SERVICE_ID (ucast (service_id h)) []))
    = message_fields [PField SERVICE_ID (Varint (ucast (service_id h))), PField METHOD_ID (Varint (ucast (method_id h))),
      PField TOKEN (Varint (ucast (token h)))]"
    by (simp add: message_fields_def)
  then show ?thesis
    unfolding header_encode_def known_fields_def Let_def
    by (simp only: opt_field_message[of _ "\<lambda>x. PField ROUTING_ID (Varint (ucast x))"]
        opt_field_message[of _ "\<lambda>x. PField SIZE (Varint (ucast x))"] opt_field_message[of _ "\<lambda>x. PField OBJECT_ID (Varint x)"]
        opt_field_message[of _ "\<lambda>x. PField IS_RESPONSE (Varint (of_bool x))"]
        opt_field_message[of _ "\<lambda>x. PField REQUEST_TRACE (PBytes x)"] message_field.simps append_assoc)
qed

lemma narrow_ucast [simp]: "narrow (ucast (x :: u32)) n = Inr x"
proof -
  have "unat (ucast x :: u64) = unat x"
    by (rule unat_ucast_up) simp
  moreover have "unat x < 2 ^ LENGTH(32)"
    by (rule unsigned_less)
  ultimately have "(ucast x :: u64) < 2 ^ 32"
    by (simp add: word_less_nat_alt)
  moreover have "ucast (ucast x :: u64) = x"
    by (rule ucast_up_ucast_id) (simp add: is_up)
  ultimately show ?thesis
    by (simp add: narrow_def)
qed

lemma narrow_Inr: "narrow v n = Inr x \<Longrightarrow> v < 2 ^ 32 \<and> x = ucast v"
  by (simp add: narrow_def split: if_split_asm)

lemma absorb_optional:
  "absorb_all (opt_list (\<lambda>x. PField ROUTING_ID (Varint (ucast x))) r) s
     = Inr (case r of None \<Rightarrow> s | Some x \<Rightarrow> edit_header (\<lambda>h. h\<lparr>routing_id := Some x\<rparr>) s)"
  "absorb_all (opt_list (\<lambda>x. PField SIZE (Varint (ucast x))) r) s
     = Inr (case r of None \<Rightarrow> s | Some x \<Rightarrow> edit_header (\<lambda>h. h\<lparr>declared_size := Some x\<rparr>) s)"
  "absorb_all (opt_list (\<lambda>x. PField OBJECT_ID (Varint x)) u) s
     = Inr (case u of None \<Rightarrow> s | Some x \<Rightarrow> edit_header (\<lambda>h. h\<lparr>object_id := Some x\<rparr>) s)"
  "absorb_all (opt_list (\<lambda>x. PField IS_RESPONSE (Varint (of_bool x))) b) s
     = Inr (case b of None \<Rightarrow> s | Some x \<Rightarrow> edit_header (\<lambda>h. h\<lparr>is_response := Some x\<rparr>) s)"
  "absorb_all (opt_list (\<lambda>x. PField REQUEST_TRACE (PBytes x)) t) s
     = Inr (case t of None \<Rightarrow> s | Some x \<Rightarrow> edit_header (\<lambda>h. h\<lparr>request_trace := Some x\<rparr>) s)"
  by (simp_all add: absorb_field_def absorb_varint_def split: option.split)

lemma absorb_known:
  "absorb_all (known_fields h) scan_start =
     Inr \<lparr>scanned = h\<lparr>unknown := []\<rparr>, has_service = True, has_method = True, has_token = True\<rparr>"
  unfolding known_fields_def
  by (simp add: absorb_all_append absorb_optional absorb_field_def absorb_varint_def scan_start_def header_default_def
      del: opt_list_simps)
    (cases h; simp split: option.split)

lemma absorb_unknown: "\<not> known_field f \<Longrightarrow> absorb_field f s = Inr (edit_header (\<lambda>h. h\<lparr>unknown := message_field f (unknown h)\<rparr>) s)"
  by (cases f; cases "pb_value f") (auto simp: absorb_field_def absorb_varint_def)

lemma absorb_all_unknown:
  "\<forall>f \<in> set us. \<not> known_field f \<Longrightarrow>
     absorb_all us s = Inr (edit_header (\<lambda>h. h\<lparr>unknown := unknown h @ message_fields us\<rparr>) s)"
proof (induction us arbitrary: s)
  case Nil
  then show ?case
    by (simp add: message_fields_def)
next
  case (Cons f us)
  then show ?case
    by (simp add: absorb_unknown message_field_append field_image_eq message_fields_concat o_def)
qed

section \<open>Round trips of headers\<close>

text \<open>What a header of this program satisfies: its unknown bytes are fields the decoder does not know.\<close>

definition wf_header :: "classic_header \<Rightarrow> bool" where
  "wf_header h \<longleftrightarrow> (\<exists>us. unknown h = message_fields us \<and> (\<forall>f \<in> set us. wf_field f \<and> \<not> known_field f))
     \<and> (\<forall>t. request_trace h = Some t \<longrightarrow> length t < 2 ^ 63)"

lemma known_fields_wf: "wf_header h \<Longrightarrow> \<forall>f \<in> set (known_fields h). wf_field f"
  by (auto simp: known_fields_def wf_field_def wf_header_def opt_list_def split: option.split)

lemma header_decode_encode:
  assumes "wf_header h" and "length (header_encode h) < 2 ^ 64"
  shows "header_decode (header_encode h) = Inr h"
proof -
  obtain us where us: "unknown h = message_fields us" "\<forall>f \<in> set us. wf_field f \<and> \<not> known_field f"
    using assms(1) by (auto simp: wf_header_def)
  have img: "header_encode h = message_fields (known_fields h @ us)"
    by (simp add: header_encode_fields us(1) message_fields_append)
  have "collect_fields (fields_of (header_encode h)) = Inr (known_fields h @ us)"
    unfolding img using known_fields_wf[OF assms(1)] us(2) assms(2)[unfolded img]
    by (intro collect_message) auto
  then show ?thesis
    using us by (simp add: header_decode_def scan_fields_collect absorb_all_append absorb_known absorb_all_unknown
        missing_fields_def)
qed

lemma wf_header_edits [simp]:
  "wf_header (h\<lparr>service_id := x\<rparr>) = wf_header h" "wf_header (h\<lparr>method_id := x\<rparr>) = wf_header h"
  "wf_header (h\<lparr>token := x\<rparr>) = wf_header h" "wf_header (h\<lparr>routing_id := r\<rparr>) = wf_header h"
  "wf_header (h\<lparr>declared_size := r\<rparr>) = wf_header h" "wf_header (h\<lparr>object_id := u\<rparr>) = wf_header h"
  "wf_header (h\<lparr>is_response := b\<rparr>) = wf_header h"
  by (simp_all add: wf_header_def)

lemma wf_header_trace: "wf_header h \<Longrightarrow> length t < 2 ^ 63 \<Longrightarrow> wf_header (h\<lparr>request_trace := Some t\<rparr>)"
  by (simp add: wf_header_def)

lemma wf_header_unknown:
  assumes "wf_header h" and "wf_field f" and "\<not> known_field f"
  shows "wf_header (h\<lparr>unknown := message_field f (unknown h)\<rparr>)"
proof -
  obtain us where us: "unknown h = message_fields us" "\<forall>f \<in> set us. wf_field f \<and> \<not> known_field f"
    using assms(1) by (auto simp: wf_header_def)
  then have "message_field f (unknown h) = message_fields (us @ [f])"
    by (simp add: message_field_snoc)
  moreover have "\<forall>g \<in> set (us @ [f]). wf_field g \<and> \<not> known_field g"
    using us(2) assms(2,3) by auto
  ultimately have "\<exists>vs. message_field f (unknown h) = message_fields vs \<and> (\<forall>g \<in> set vs. wf_field g \<and> \<not> known_field g)"
    by blast
  then show ?thesis
    using assms(1) by (simp add: wf_header_def)
qed

lemma absorb_varint_wf:
  assumes "absorb_varint n v s = Inr s'" and "wf_header (scanned s)" and "wf_field (PField n (Varint v))"
  shows "wf_header (scanned s')"
  using assms wf_header_unknown[OF assms(2,3)]
  by (auto simp: absorb_varint_def rbind_Inr_iff split: if_split_asm)

lemma absorb_field_wf:
  assumes "absorb_field f s = Inr s'" and "wf_header (scanned s)" and "wf_field f"
  shows "wf_header (scanned s')"
proof (cases "pb_value f")
  case (Varint v)
  then show ?thesis
    using assms absorb_varint_wf[of "pb_number f" v s s'] by (cases f) (simp add: absorb_field_def)
next
  case (PBytes t)
  then show ?thesis
    using assms wf_header_unknown[OF assms(2,3)] wf_header_trace[OF assms(2), of t]
    by (cases f) (auto simp: absorb_field_def wf_field_def split: if_split_asm)
qed (use assms wf_header_unknown[OF assms(2,3)] in \<open>cases f; auto simp: absorb_field_def\<close>)+

lemma absorb_all_wf:
  "absorb_all fs s = Inr s' \<Longrightarrow> wf_header (scanned s) \<Longrightarrow> \<forall>f \<in> set fs. wf_field f \<Longrightarrow> wf_header (scanned s')"
  by (induction fs arbitrary: s) (auto simp: rbind_Inr_iff dest: absorb_field_wf)

lemma wf_header_default: "wf_header header_default"
  by (auto simp: wf_header_def header_default_def message_fields_def intro!: exI[of _ "[]"])

text \<open>What was read is a header of the program, whatever was in the bytes.\<close>

lemma header_decode_wf:
  assumes "header_decode data = Inr h" and "length data < 2 ^ 63"
  shows "wf_header h"
proof -
  obtain s where s: "scan_fields (fields_of data) scan_start = Inr s" "h = scanned s"
    using assms(1) by (auto simp: header_decode_def rbind_Inr_iff split: if_split_asm)
  then obtain fs where fs: "collect_fields (fields_of data) = Inr fs" "absorb_all fs scan_start = Inr s"
    using scan_fields_ok by blast
  have "\<forall>f \<in> set fs. wf_field f"
    using collect_wf[OF fs(1)] assms(2) by (simp add: fields_of_def)
  then show ?thesis
    using absorb_all_wf[OF fs(2)] s(2) by (simp add: scan_start_def wf_header_default)
qed

section \<open>Round trips of frames\<close>

lemma frame_encode_Inr:
  assumes "frame_encode h bs = Inr img"
  shows "length bs < 2 ^ 32" and "declared_size h \<in> {None, Some (of_nat (length bs))}"
    and "length (header_encode (h\<lparr>declared_size := Some (of_nat (length bs))\<rparr>)) < 2 ^ 16"
    and "img = to_be 2 (length (header_encode (h\<lparr>declared_size := Some (of_nat (length bs))\<rparr>)))
      @ header_encode (h\<lparr>declared_size := Some (of_nat (length bs))\<rparr>) @ bs"
  using assms by (auto simp: frame_encode_def Let_def split: if_split_asm option.split_asm)

lemma frame_decode_encode:
  assumes "wf_header h" and "frame_encode h bs = Inr img"
  shows "frame_decode img = Inr \<lparr>cf_header = h\<lparr>declared_size := Some (of_nat (length bs))\<rparr>, cf_body = bs\<rparr>"
proof -
  let ?h = "h\<lparr>declared_size := Some (of_nat (length bs))\<rparr>" and ?n = "length (header_encode (h\<lparr>declared_size := Some (of_nat (length bs))\<rparr>))"
  note enc = frame_encode_Inr[OF assms(2)]
  have dec: "header_decode (header_encode ?h) = Inr ?h"
    using assms(1) enc(3) by (intro header_decode_encode) simp_all
  have len: "unat (of_nat (length bs) :: u32) = length bs"
    using enc(1) by (simp add: unsigned_of_nat take_bit_nat_eq_self)
  have "from_be (to_be 2 ?n) = ?n"
    using enc(3) by (simp add: from_be_to_be)
  then show ?thesis
    unfolding enc(4)
    by (simp add: frame_decode_def get_slice_def slice_of_def dec len Let_def)
qed

lemma frame_decode_Inr:
  assumes "frame_decode data = Inr f"
  shows "\<exists>img. data = to_be 2 (length img) @ img @ cf_body f \<and> header_decode img = Inr (cf_header f)
    \<and> declared_size (cf_header f) \<in> {None, Some (of_nat (length (cf_body f)))}"
proof -
  let ?n = "from_be (slice_of data 0 2)"
  have run: "2 \<le> length data" "2 + ?n \<le> length data" "header_decode (slice_of data 2 (2 + ?n)) = Inr (cf_header f)"
    "cf_body f = drop (2 + ?n) data" "\<forall>sz. declared_size (cf_header f) = Some sz \<longrightarrow> unat sz = length (cf_body f)"
    using assms by (auto simp: frame_decode_def rbind_Inr_iff get_slice_def Let_def split: if_split_asm option.split_asm)
  have two: "length (slice_of data 0 2) = 2"
    using run(1) by simp
  then have prefix: "to_be 2 ?n = take 2 data"
    using to_be_from_be[of "slice_of data 0 2"] by (simp add: slice_of_def)
  have parts: "data = take 2 data @ slice_of data 2 (2 + ?n) @ drop (2 + ?n) data"
  proof -
    have "data = take 2 data @ take ?n (drop 2 data) @ drop ?n (drop 2 data)"
      by (simp only: append_take_drop_id)
    then show ?thesis
      by (simp add: slice_of_def add.commute)
  qed
  have "length (slice_of data 2 (2 + ?n)) = ?n"
    using run(2) by simp
  moreover have "declared_size (cf_header f) \<in> {None, Some (of_nat (length (cf_body f)))}"
  proof (cases "declared_size (cf_header f)")
    case (Some sz)
    then have "(of_nat (length (cf_body f)) :: u32) = of_nat (unat sz)"
      using run(5) by simp
    then show ?thesis
      using Some by simp
  qed simp
  ultimately show ?thesis
    using parts prefix run(3,4) by (intro exI[of _ "slice_of data 2 (2 + ?n)"]) simp
qed

section \<open>No panic\<close>

lemma varint_loop_error: "varint_loop shifts val s = (Inl e, s') \<Longrightarrow> \<exists>r. e = ClassicWire r"
  by (induction shifts arbitrary: val s)
    (auto simp: bindM_Inl_iff pb_byte_def Let_def split: option.split_asm if_split_asm)

lemma read_varint_error: "read_varint s = (Inl e, s') \<Longrightarrow> \<exists>r. e = ClassicWire r"
  unfolding read_varint_def by (rule varint_loop_error)

lemma read_array_error: "read_array n number s = (Inl e, s') \<Longrightarrow> \<exists>r. e = ClassicWire r"
  by (auto simp: read_array_def split: option.split_asm)

lemma read_length_delimited_error: "read_length_delimited n s = (Inl e, s') \<Longrightarrow> \<exists>r. e = ClassicWire r"
  unfolding read_length_delimited_def bindM_Inl_iff
  by (auto dest: read_varint_error split: option.split_asm)

lemma read_value_error: "read_value wt n start s = (Inl e, s') \<Longrightarrow> \<exists>r. e = ClassicWire r"
  unfolding read_value_def
  by (auto simp: bindM_Inl_iff dest: read_varint_error read_array_error read_length_delimited_error split: if_split_asm)

lemma read_field_error: "read_field s = (Inl e, s') \<Longrightarrow> \<exists>r. e = ClassicWire r"
  unfolding read_field_def Let_def
  by (auto simp: bindM_Inl_iff dest: read_varint_error read_value_error split: if_split_asm)

lemma fields_next_error: "fields_next s = (Some (Inl e), s') \<Longrightarrow> \<exists>r. e = ClassicWire r"
  by (auto simp: fields_next_def dest!: read_field_error split: if_split_asm prod.split_asm sum.split_asm)

lemma absorb_field_error: "absorb_field f s = Inl e \<Longrightarrow> \<exists>r. e = ClassicWire r"
  by (auto simp: absorb_field_def absorb_varint_def rbind_Inl_iff narrow_def split: pb_value.split_asm if_split_asm)

lemma scan_fields_error: "scan_fields items s = Inl e \<Longrightarrow> \<exists>r. e = ClassicWire r"
proof (induction items s rule: scan_fields.induct)
  case (1 items s)
  obtain item items' where nx: "fields_next items = (item, items')" by (cases "fields_next items")
  show ?case
  proof (cases item)
    case None
    then show ?thesis
      using "1.prems" nx by (simp add: scan_fields.simps[of items])
  next
    case (Some r)
    show ?thesis
    proof (cases r)
      case (Inl e')
      then show ?thesis
        using "1.prems" nx Some fields_next_error[of items e' items'] by (simp add: scan_fields.simps[of items])
    next
      case (Inr f)
      then show ?thesis
        using "1.prems" "1.IH"[OF nx[symmetric] Some Inr] nx Some absorb_field_error[of f s e]
        by (auto simp: scan_fields.simps[of items] rbind_Inl_iff)
    qed
  qed
qed

lemma frame_decode_error: "frame_decode data = Inl e \<Longrightarrow> \<exists>r. e = ClassicWire r"
  by (auto simp: frame_decode_def header_decode_def rbind_Inl_iff Let_def dest: scan_fields_error split: if_split_asm)

end
