(* ===== verification/Client_Laws.thy ===== *)
theory Client_Laws
  imports Classic_Client Classic_Laws
begin

text \<open>
  The laws of the classic client: its waits end with the clock, an answer is the answer of the request it
  was waited for, and the requests of the service that arrive in between are acknowledged one by one.
\<close>

section \<open>Waits end\<close>

lemma tidy_send_raw: "tidy (send_raw E bs)"
proof -
  have "tidy (\<lambda>s. transport_send E (MBinary (outbound (transform_of s) bs)) s)"
    unfolding tidy_def transport_send_def
    by (auto dest: tidyD[OF tidy_basic(5)] tidyD[OF tidy_basic(6)] split: transport.split_asm)
  then show ?thesis
    by (simp add: send_raw_def tidy_def bindM_def)
qed

definition same_client :: "'w classic_client \<Rightarrow> 'w classic_client \<Rightarrow> bool" where
  "same_client c c' \<longleftrightarrow> next_token c' = next_token c \<and> route c' = route c \<and> same_settings (link c) (link c')"

lemma transmit_same:
  "transmit E h bs c = (v, c') \<Longrightarrow> same_client c c' \<and> clock_reads (link c') = clock_reads (link c)"
  by (auto simp: transmit_def on_link_def bindM_def same_client_def dest: tidyD[OF tidy_send_raw]
      split: sum.split_asm prod.split_asm)

lemma acknowledge_same:
  "acknowledge E f trace c = (v, c') \<Longrightarrow> same_client c c' \<and> clock_reads (link c') = clock_reads (link c)"
  by (auto simp: acknowledge_def bindM_def dest: transmit_same)

lemma client_receive_total:
  assumes "clock_runs E"
  shows "\<exists>v c'. client_receive E deadline c = Some (v, c') \<and> clock_reads (link c) < clock_reads (link c') \<and> same_client c c'"
proof -
  obtain K where K: "\<And>n. K \<le> n \<Longrightarrow> deadline \<le> clock E n"
    using assms unfolding clock_runs_def by blast
  show ?thesis
  proof (induction "K - clock_reads (link c)" arbitrary: c rule: less_induct)
    case less
    let ?s = "(link c)\<lparr>clock_reads := clock_reads (link c) + 1\<rparr>"
    show ?case
    proof (cases "deadline \<le> clock E (clock_reads (link c))")
      case True
      then show ?thesis
        by (simp add: client_receive.simps[of E deadline c] read_clock_def same_client_def same_settings_def)
    next
      case False
      obtain v s where s: "receive_raw E ?s = Some (v, s)" "clock_reads ?s < clock_reads s" "same_settings ?s s"
        using await_answer_total[OF assms, of "judge_raw (transform_of ?s)" ?s] by (auto simp: receive_raw_def)
      have same: "same_client c (c\<lparr>link := s\<rparr>)" "clock_reads (link c) < clock_reads s"
        using s(2,3) by (simp_all add: same_client_def same_settings_def)
      show ?thesis
      proof (cases "\<exists>e. v = Inl e \<and> quiet_read e")
        case quiet: True
        have "clock_reads (link c) < K"
          using K[of "clock_reads (link c)"] False by fastforce
        then have "K - clock_reads (link (c\<lparr>link := s\<rparr>)) < K - clock_reads (link c)"
          using same(2) by simp
        from less.hyps[OF this] show ?thesis
          using quiet same False s(1)
          by (auto simp: client_receive.simps[of E deadline c] read_clock_def same_client_def intro: same_settings_trans)
      next
        case False
        then show ?thesis
          using \<open>\<not> deadline \<le> _\<close> same s(1)
          by (cases v) (auto simp: client_receive.simps[of E deadline c] read_clock_def)
      qed
    qed
  qed
qed

lemma client_receive_late:
  "deadline \<le> clock E (clock_reads (link c)) \<Longrightarrow>
    \<exists>c'. client_receive E deadline c = Some (Inl (Io TimedOut), c')"
  by (simp add: client_receive.simps[of E deadline c] read_clock_def)

lemma await_response_total:
  assumes "clock_runs E"
  shows "\<exists>v seen' c'. await_response E tk rq deadline trace seen c = Some (v, seen', c')"
proof -
  obtain K where K: "\<And>n. K \<le> n \<Longrightarrow> deadline \<le> clock E n"
    using assms unfolding clock_runs_def by blast
  show ?thesis
  proof (induction "K - clock_reads (link c)" arbitrary: c trace seen rule: less_induct)
    case less
    obtain v c1 where c1: "client_receive E deadline c = Some (v, c1)" "clock_reads (link c) < clock_reads (link c1)"
      using client_receive_total[OF assms] by blast
    show ?case
    proof (cases v)
      case (Inl e)
      then show ?thesis
        using c1(1) by (simp add: await_response.simps[of E tk rq deadline trace seen c])
    next
      case (Inr f)
      have "clock_reads (link c) < K"
        using K[of "clock_reads (link c)"] client_receive_late[of deadline E c] c1(1) Inr by fastforce
      then have smaller: "K - clock_reads (link c2) < K - clock_reads (link c)"
        if "clock_reads (link c2) = clock_reads (link c1)" for c2 :: "'a classic_client"
        using that c1(2) by simp
      obtain a c2 where c2: "acknowledge E f trace c1 = (a, c2)" "clock_reads (link c2) = clock_reads (link c1)"
        using acknowledge_same by (cases "acknowledge E f trace c1") blast
      show ?thesis
        using c1(1) Inr c2 less.hyps[OF smaller, of c1] less.hyps[OF smaller, of c2]
        by (auto simp: await_response.simps[of E tk rq deadline trace seen c] split: sum.split)
    qed
  qed
qed

lemma call_total: "clock_runs E \<Longrightarrow> \<exists>v seen c'. call E rq timeout c = Some (v, seen, c')"
  using await_response_total by (auto simp: call_def split: prod.split sum.split)

lemma pump_total:
  assumes "clock_runs E"
  shows "\<exists>v seen c'. pump E timeout c = Some (v, seen, c')"
proof -
  have "\<exists>v seen c'. pump_until E deadline c = Some (v, seen, c')" for deadline and c :: "'a classic_client"
  proof -
    obtain K where K: "\<And>n. K \<le> n \<Longrightarrow> deadline \<le> clock E n"
      using assms unfolding clock_runs_def by blast
    show ?thesis
    proof (induction "K - clock_reads (link c)" arbitrary: c rule: less_induct)
      case less
      obtain v c1 where c1: "client_receive E deadline c = Some (v, c1)" "clock_reads (link c) < clock_reads (link c1)"
        using client_receive_total[OF assms] by blast
      show ?case
      proof (cases v)
        case (Inl e)
        then show ?thesis
          using c1(1) by (simp add: pump_until.simps[of E deadline c])
      next
        case (Inr f)
        have "clock_reads (link c) < K"
          using K[of "clock_reads (link c)"] client_receive_late[of deadline E c] c1(1) Inr by fastforce
        then have "K - clock_reads (link c1) < K - clock_reads (link c)"
          using c1(2) by simp
        from less.hyps[OF this] show ?thesis
          using c1(1) Inr by (auto simp: pump_until.simps[of E deadline c] split: sum.split prod.split)
      qed
    qed
  qed
  then show ?thesis
    by (simp add: pump_def split: prod.split)
qed

text \<open>A call and a poll do not stay blocked while the reads and writes of their socket return.\<close>

lemma returning_transmit:
  "transmit E h bs c = (v, c') \<Longrightarrow> responsive E (link c) \<Longrightarrow> responsive E (link c') \<and> v \<noteq> Inl NoReturn"
proof -
  assume run: "transmit E h bs c = (v, c')" and c: "responsive E (link c)"
  have send: "returning E (send_raw E rpc)" for rpc
    unfolding send_raw_def by (intro returning_bind returning_basic returning_transport)
  show ?thesis
  proof (cases "frame_encode h bs")
    case (Inl e)
    then have "e \<noteq> NoReturn"
      by (auto simp: frame_encode_def Let_def split: if_split_asm)
    then show ?thesis
      using run c Inl by (auto simp: transmit_def)
  next
    case (Inr rpc)
    obtain w s where sent: "send_raw E rpc (link c) = (w, s)"
      by fastforce
    then show ?thesis
      using run returningD[OF send sent c] Inr by (auto simp: transmit_def on_link_def)
  qed
qed

lemma returning_acknowledge:
  "acknowledge E f trace c = (v, c') \<Longrightarrow> responsive E (link c) \<Longrightarrow> responsive E (link c') \<and> v \<noteq> Inl NoReturn"
  by (auto simp: acknowledge_def bindM_def dest: returning_transmit)

definition awake :: "'w outside \<Rightarrow> 'w classic_client \<Rightarrow> 'a result \<Rightarrow> 'w classic_client \<Rightarrow> bool" where
  "awake E c v c' \<longleftrightarrow> (responsive E (link c) \<longrightarrow> responsive E (link c') \<and> v \<noteq> Inl NoReturn)"

lemma client_receive_awake:
  assumes "client_receive E deadline c = Some y"
  shows "awake E c (fst y) (snd y)"
proof (rule client_receive.raw_induct[where P = "\<lambda>E deadline c y. awake E c (fst y) (snd y)", OF _ assms])
  fix rec E deadline c y
  assume rec: "\<And>E deadline c y. rec E deadline c = Some y \<Longrightarrow> awake E c (fst y) (snd y)"
    and run: "(case read_clock E (link c) of (now, s) \<Rightarrow>
      if now \<ge> deadline then Some (Inl (Io TimedOut), c\<lparr>link := s\<rparr>)
      else Option.bind (receive_raw E s) (\<lambda>(v, s).
        case v of
          Inr raw \<Rightarrow> Some (frame_decode raw, c\<lparr>link := s\<rparr>)
        | Inl e \<Rightarrow> if quiet_read e then rec E deadline (c\<lparr>link := s\<rparr>) else Some (Inl e, c\<lparr>link := s\<rparr>))) = Some y"
  show "awake E c (fst y) (snd y)"
    unfolding awake_def
  proof
    assume c: "responsive E (link c)"
    let ?s = "(link c)\<lparr>clock_reads := clock_reads (link c) + 1\<rparr>"
    have raw: "responsive E s' \<and> v \<noteq> Inl NoReturn" if "receive_raw E ?s = Some (v, s')" for v s'
      using await_answer_returning[of E "judge_raw (transform_of ?s)" ?s v s'] that c judges_return(1)
      by (simp add: receive_raw_def)
    have decoded: "frame_decode bs \<noteq> Inl NoReturn" for bs
      using frame_decode_error[of bs NoReturn] by auto
    show "responsive E (link (snd y)) \<and> fst y \<noteq> Inl NoReturn"
    proof (cases "deadline \<le> clock E (clock_reads (link c))")
      case True
      then show ?thesis
        using run c by (auto simp: read_clock_def)
    next
      case False
      then obtain v s' where got: "receive_raw E ?s = Some (v, s')"
        using run by (cases "receive_raw E ?s") (auto simp: read_clock_def)
      then show ?thesis
        using run False got raw[OF got] decoded rec[of E deadline "c\<lparr>link := s'\<rparr>" y]
        by (cases v) (auto simp: read_clock_def awake_def split: if_split_asm)
    qed
  qed
qed

lemma await_response_awake:
  assumes "await_response E tk rq deadline trace seen c = Some y"
  shows "awake E c (fst y) (snd (snd y))"
proof (rule await_response.raw_induct[where P = "\<lambda>E tk rq deadline trace seen c y. awake E c (fst y) (snd (snd y))", OF _ assms])
  fix rec E tk rq deadline trace seen c y
  assume rec: "\<And>E tk rq deadline trace seen c y. rec E tk rq deadline trace seen c = Some y \<Longrightarrow> awake E c (fst y) (snd (snd y))"
    and run: "Option.bind (client_receive E deadline c) (\<lambda>(v, c).
        case v of Inl e \<Rightarrow> Some (Inl e, seen, c)
        | Inr f \<Rightarrow>
            if header_is_response (cf_header f)
            then if answers tk rq (cf_header f) then Some (Inr f, seen, c) else rec E tk rq deadline trace seen c
            else case acknowledge E f trace c of
              (Inl e, c) \<Rightarrow> Some (Inl e, seen @ [f], c)
            | (Inr _, c) \<Rightarrow> rec E tk rq deadline None (seen @ [f]) c) = Some y"
  obtain v c1 where c1: "client_receive E deadline c = Some (v, c1)"
    using run by (cases "client_receive E deadline c") auto
  have "awake E c v c1"
    using client_receive_awake[OF c1] by simp
  then show "awake E c (fst y) (snd (snd y))"
    using run c1
    by (auto simp: awake_def split: sum.split_asm if_split_asm prod.split_asm dest!: rec dest: returning_acknowledge)
qed

lemma pump_until_awake:
  assumes "pump_until E deadline c = Some y"
  shows "awake E c (fst y) (snd (snd y))"
proof (rule pump_until.raw_induct[where P = "\<lambda>E deadline c y. awake E c (fst y) (snd (snd y))", OF _ assms])
  fix rec E deadline c y
  assume rec: "\<And>E deadline c y. rec E deadline c = Some y \<Longrightarrow> awake E c (fst y) (snd (snd y))"
    and run: "Option.bind (client_receive E deadline c) (\<lambda>(v, c).
        case v of Inl e \<Rightarrow> Some (Inl e, [], c)
        | Inr f \<Rightarrow>
            if header_is_response (cf_header f) then rec E deadline c
            else case acknowledge E f None c of
              (Inl e, c) \<Rightarrow> Some (Inl e, [f], c)
            | (Inr _, c) \<Rightarrow> Some (Inr f, [f], c)) = Some y"
  obtain v c1 where c1: "client_receive E deadline c = Some (v, c1)"
    using run by (cases "client_receive E deadline c") auto
  have "awake E c v c1"
    using client_receive_awake[OF c1] by simp
  then show "awake E c (fst y) (snd (snd y))"
    using run c1
    by (auto simp: awake_def split: sum.split_asm if_split_asm prod.split_asm dest!: rec dest: returning_acknowledge)
qed

lemma call_awake:
  assumes "call E rq timeout c = Some (v, seen, c')" and "responsive E (link c)"
  shows "v \<noteq> Inl NoReturn"
proof -
  obtain r c1 where send: "client_send E rq c = (r, c1)"
    by fastforce
  have c1: "responsive E (link c1) \<and> r \<noteq> Inl NoReturn"
    using send assms(2)
    by (auto simp: client_send_def bindM_def split: sum.split_asm prod.split_asm dest!: returning_transmit)
  then show ?thesis
    using assms(1) send await_response_awake
    by (fastforce simp: call_def read_clock_def awake_def split: sum.split_asm)
qed

lemma pump_awake:
  assumes "pump E timeout c = Some (v, seen, c')" and "responsive E (link c)"
  shows "v \<noteq> Inl NoReturn"
  using assms pump_until_awake by (fastforce simp: pump_def read_clock_def awake_def)

section \<open>An answer is the answer\<close>

abbreviation response :: "classic_frame \<Rightarrow> bool" where
  "response f \<equiv> header_is_response (cf_header f)"

text \<open>What any wait promises, whatever arrives: only requests are handed out, and the result answers.\<close>

definition proper_outcome :: "u32 \<Rightarrow> request \<Rightarrow> classic_frame list \<Rightarrow> classic_frame result \<times> classic_frame list \<times> 'w classic_client \<Rightarrow> bool" where
  "proper_outcome tk rq seen y \<longleftrightarrow> (\<forall>g \<in> set seen. \<not> response g) \<longrightarrow>
     (\<forall>g \<in> set (fst (snd y)). \<not> response g) \<and> (\<forall>f. fst y = Inr f \<longrightarrow> response f \<and> answers tk rq (cf_header f))"

lemma proper_outcome_handed:
  assumes "proper_outcome tk rq (seen @ [f]) y" and "\<not> response f"
  shows "proper_outcome tk rq seen y"
proof -
  have "\<forall>g \<in> set (seen @ [f]). \<not> response g" if "\<forall>g \<in> set seen. \<not> response g"
    using that assms(2) by (simp only: set_append list.set ball_Un ball_simps simp_thms)
  with assms(1) show ?thesis
    unfolding proper_outcome_def by blast
qed

lemma await_response_proper:
  assumes "await_response E tk rq deadline trace seen c = Some y"
  shows "proper_outcome tk rq seen y"
proof (rule await_response.raw_induct[where P = "\<lambda>E tk rq deadline trace seen c y. proper_outcome tk rq seen y", OF _ assms])
  fix rec E tk rq deadline trace seen c y
  assume rec: "\<And>E tk rq deadline trace seen c y. rec E tk rq deadline trace seen c = Some y \<Longrightarrow> proper_outcome tk rq seen y"
    and run: "Option.bind (client_receive E deadline c) (\<lambda>(v, c).
        case v of Inl e \<Rightarrow> Some (Inl e, seen, c)
        | Inr f \<Rightarrow>
            if response f then if answers tk rq (cf_header f) then Some (Inr f, seen, c) else rec E tk rq deadline trace seen c
            else case acknowledge E f trace c of
                (Inl e, c) \<Rightarrow> Some (Inl e, seen @ [f], c)
              | (Inr _, c) \<Rightarrow> rec E tk rq deadline None (seen @ [f]) c) = Some y"
  have now: "proper_outcome tk rq seen (Inl e, seen, c)" "\<not> response f \<Longrightarrow> proper_outcome tk rq seen (Inl e, seen @ [f], c)"
      "response f \<Longrightarrow> answers tk rq (cf_header f) \<Longrightarrow> proper_outcome tk rq seen (Inr f, seen, c)" for e f c
    by (auto simp: proper_outcome_def)
  obtain v c1 where c1: "client_receive E deadline c = Some (v, c1)"
    using run by (auto simp: bind_eq_Some_conv)
  note run = run[unfolded c1 bind.simps prod.case]
  show "proper_outcome tk rq seen y"
  proof (cases v)
    case (Inl e)
    then show ?thesis
      using run now(1)[of e c1] by simp
  next
    case (Inr f)
    note run = run[unfolded Inr sum.case]
    show ?thesis
    proof (cases "response f")
      case True
      note run = run[unfolded if_P[OF True]]
      show ?thesis
      proof (cases "answers tk rq (cf_header f)")
        case False
        from run[unfolded if_not_P[OF this]] show ?thesis
          by (rule rec)
      next
        case answered: True
        with run now(3)[OF True this, of c1] show ?thesis
          by simp
      qed
    next
      case False
      obtain a c2 where acked: "acknowledge E f trace c1 = (a, c2)"
        by (cases "acknowledge E f trace c1")
      note run = run[unfolded if_not_P[OF False] acked prod.case]
      show ?thesis
      proof (cases a)
        case (Inl e)
        with run now(2)[OF False, of e c2] show ?thesis
          by simp
      next
        case (Inr u)
        from run[unfolded Inr sum.case] have "proper_outcome tk rq (seen @ [f]) y"
          by (rule rec)
        then show ?thesis
          using False by (rule proper_outcome_handed)
      qed
    qed
  qed
qed

lemma call_proper:
  assumes "call E rq timeout c = Some (v, seen, c')"
  shows "(\<forall>g \<in> set seen. \<not> response g) \<and>
    (\<forall>f. v = Inr f \<longrightarrow> response f \<and> answers (next_token c) rq (cf_header f))"
proof -
  obtain r c1 where c1: "client_send E rq c = (r, c1)"
    by (cases "client_send E rq c")
  show ?thesis
  proof (cases r)
    case (Inl e)
    then show ?thesis
      using assms c1 by (auto simp: call_def)
  next
    case (Inr tk)
    then have "tk = next_token c"
      using c1 by (auto simp: client_send_def bindM_Inr_iff)
    moreover obtain deadline c2 where "await_response E tk rq deadline (rq_trace rq) [] c2 = Some (v, seen, c')"
      using assms c1 Inr by (auto simp: call_def split: prod.split_asm)
    ultimately show ?thesis
      using await_response_proper[of E tk rq deadline "rq_trace rq" "[]" c2 "(v, seen, c')"] by (simp add: proper_outcome_def)
  qed
qed

section \<open>An exchange\<close>

text \<open>A message as the classic channel carries it.\<close>

definition carried :: "envelope \<Rightarrow> bytes \<Rightarrow> bytes" where
  "carried env raw = frame_image (binary_packet (envelope_encode env raw))"

definition client_line :: "envelope \<Rightarrow> framing \<Rightarrow> 'w classic_client \<Rightarrow> bool" where
  "client_line env f c \<longleftrightarrow> on_line f (link c) \<and> transform_of (link c) = Some (check_value_transform env)"

lemma length_envelope [simp]: "length (envelope_encode env raw) = length raw"
  by (simp add: envelope_encode_def)

lemma outbound_check_value [simp]: "outbound (Some (check_value_transform env)) raw = envelope_encode env raw"
  by (simp add: outbound_def check_value_transform_def)

lemma inbound_check_value [simp]: "inbound (Some (check_value_transform env)) (envelope_encode env raw) = raw"
  by (simp add: inbound_def check_value_transform_def decode_encode)

lemma frame_encode_length: "frame_encode h bs = Inr img \<Longrightarrow> length img < 2 ^ 63"
  using frame_encode_Inr[of h bs img] by simp

lemma transmit_ok:
  assumes "client_line env f c" and "frame_encode h bs = Inr img"
  shows "\<exists>f' c'. transmit E h bs c = (Inr (), c') \<and> client_line env f' c' \<and> ahead f' = ahead f
    \<and> outgoing (stream f') = outgoing (stream f) @ carried env img
    \<and> same_client c c' \<and> clock_reads (link c') = clock_reads (link c)"
proof -
  let ?f' = "f\<lparr>stream := (stream f)\<lparr>outgoing := outgoing (stream f) @ carried env img\<rparr>\<rparr>"
  have "send_raw E img (link c) = (Inr (), (link c)\<lparr>socket := Classic ?f'\<rparr>)"
    using send_raw_ok[of "link c" f img E] assms frame_encode_length[OF assms(2)]
    by (simp add: client_line_def on_line_def carried_def)
  then have "transmit E h bs c = (Inr (), c\<lparr>link := (link c)\<lparr>socket := Classic ?f'\<rparr>\<rparr>)"
    using assms(2) by (simp add: transmit_def on_link_def bindM_def)
  moreover have "client_line env ?f' (c\<lparr>link := (link c)\<lparr>socket := Classic ?f'\<rparr>\<rparr>)"
    using assms(1) by (simp add: client_line_def on_line_def steady_def quiet_def writable_def)
  ultimately show ?thesis
    by (intro exI[of _ ?f'] exI[of _ "c\<lparr>link := (link c)\<lparr>socket := Classic ?f'\<rparr>\<rparr>"])
      (simp add: ahead_def pending_def same_client_def same_settings_def)
qed

text \<open>
  The next \<open>k\<close> readings of the clock are before the deadline of the call, and so close together that the
  socket's own patience outlasts them.
\<close>

definition prompt :: "'w outside \<Rightarrow> nat \<Rightarrow> nat \<Rightarrow> nat \<Rightarrow> nat \<Rightarrow> bool" where
  "prompt E deadline p a k \<longleftrightarrow> in_time E deadline a k \<and> (\<forall>n < k. in_time E (clock E (a + n) + p) a k)"

lemma prompt_later:
  assumes "prompt E deadline p a (m + k)"
  shows "prompt E deadline p (a + m) k"
proof -
  have 1: "clock E (a + n) < deadline" if "n < m + k" for n
    using assms that by (simp add: prompt_def in_time_def)
  have 2: "clock E (a + i) < clock E (a + n) + p" if "n < m + k" "i < m + k" for n i
    using assms that by (simp add: prompt_def in_time_def)
  show ?thesis
    using 1[of "m + _"] 2[of "m + _" "m + _"] by (simp add: prompt_def in_time_def add.assoc)
qed

lemma prompt_prefix: "prompt E deadline p a (k + m) \<Longrightarrow> prompt E deadline p a k"
  by (auto simp: prompt_def in_time_def)

abbreviation client_prompt :: "'w outside \<Rightarrow> nat \<Rightarrow> 'w classic_client \<Rightarrow> nat \<Rightarrow> bool" where
  "client_prompt E deadline c k \<equiv> prompt E deadline (patience (link c)) (clock_reads (link c)) k"

lemma client_prompt_later:
  assumes "client_prompt E deadline c (m + k)" and "same_client c c'" and "clock_reads (link c') = clock_reads (link c) + m"
  shows "client_prompt E deadline c' k"
  using prompt_later[OF assms(1)] assms(2,3) by (simp add: same_client_def same_settings_def)

lemma client_receive_ok:
  assumes "client_prompt E deadline c 3" and "client_line env f c"
    and "ahead f = carried env raw @ rest" and "length raw < 2 ^ 63"
  shows "\<exists>f' c'. client_receive E deadline c = Some (frame_decode raw, c') \<and> client_line env f' c' \<and> ahead f' = rest
    \<and> outgoing (stream f') = outgoing (stream f) \<and> same_client c c' \<and> clock_reads (link c') = clock_reads (link c) + 3"
proof -
  let ?s = "(link c)\<lparr>clock_reads := clock_reads (link c) + 1\<rparr>"
  have early: "clock E (clock_reads (link c)) < deadline"
      "clock E (clock_reads (link c) + 2) < clock E (clock_reads (link c) + 1) + patience (link c)"
    using assms(1) by (simp_all add: prompt_def in_time_def numeral_3_eq_3 All_less_Suc)
  then have "quick E ?s 1" "on_line f ?s" "transform_of ?s = Some (check_value_transform env)"
    using assms(2) by (simp_all add: quick_def in_time_def client_line_def on_line_def)
  then obtain f' s' where s': "receive_raw E ?s = Some (Inr raw, s')" "on_line f' s'" "ahead f' = rest"
      "outgoing (stream f') = outgoing (stream f)" "same_settings ?s s'" "clock_reads s' = clock_reads ?s + 2"
    using receive_raw_ok[of E ?s "[]" f "envelope_encode env raw" rest] assms(3,4) by (auto simp: carried_def)
  have "client_receive E deadline c = Some (frame_decode raw, c\<lparr>link := s'\<rparr>)"
    using s'(1) early(1) by (simp add: client_receive.simps[of E deadline c] read_clock_def)
  then show ?thesis
    using s' assms(2)
    by (intro exI[of _ f'] exI[of _ "c\<lparr>link := s'\<rparr>"]) (simp add: client_line_def same_client_def same_settings_def)
qed

text \<open>The acknowledgements of a list of requests: the first one carries the trace.\<close>

fun ack_headers :: "u32 \<Rightarrow> bytes option \<Rightarrow> classic_frame list \<Rightarrow> classic_header list" where
  "ack_headers rt trace [] = []"
| "ack_headers rt trace (f # fs) = ack_header rt (cf_header f) trace # ack_headers rt None fs"

lemma same_client_trans: "same_client a b \<Longrightarrow> same_client b c \<Longrightarrow> same_client a c"
  by (auto simp: same_client_def intro: same_settings_trans)

lemma await_response_ok:
  assumes "client_prompt E deadline c (3 * Suc (length ms))" and "client_line env f c"
    and "\<forall>(raw, g) \<in> set ms. frame_decode raw = Inr g \<and> length raw < 2 ^ 63 \<and> \<not> (response g \<and> answers tk rq (cf_header g))"
    and "frame_decode raw0 = Inr answer" and "length raw0 < 2 ^ 63" and "response answer" and "answers tk rq (cf_header answer)"
    and "ahead f = concat (map (\<lambda>m. carried env (fst m)) ms) @ carried env raw0 @ rest"
    and "list_all2 (\<lambda>h img. frame_encode h [] = Inr img) (ack_headers (route c) trace (filter (\<lambda>g. \<not> response g) (map snd ms))) imgs"
  shows "\<exists>f' c'. await_response E tk rq deadline trace seen c = Some (Inr answer, seen @ filter (\<lambda>g. \<not> response g) (map snd ms), c')
    \<and> client_line env f' c' \<and> ahead f' = rest
    \<and> outgoing (stream f') = outgoing (stream f) @ concat (map (carried env) imgs) \<and> same_client c c'"
  using assms(1-3,8,9)
proof (induction ms arbitrary: c f trace seen imgs)
  case Nil
  obtain f1 c1 where "client_receive E deadline c = Some (Inr answer, c1)" "client_line env f1 c1" "ahead f1 = rest"
      "outgoing (stream f1) = outgoing (stream f)" "same_client c c1"
    using client_receive_ok[of E deadline c env f raw0 rest] Nil(1,2,4) assms(4,5) by auto
  then show ?case
    using Nil(5) assms(6,7) by (intro exI[of _ f1] exI[of _ c1]) (simp add: await_response.simps[of E tk rq deadline trace seen c])
next
  case (Cons m ms)
  obtain raw g where m: "m = (raw, g)" by (cases m)
  have g: "frame_decode raw = Inr g" "length raw < 2 ^ 63" "\<not> (response g \<and> answers tk rq (cf_header g))"
    using Cons.prems(3) m by auto
  have now: "client_prompt E deadline c 3"
    using Cons.prems(1) prompt_prefix[of E deadline _ _ 3 "3 * Suc (length ms)"] by simp
  obtain f1 c1 where c1: "client_receive E deadline c = Some (Inr g, c1)" "client_line env f1 c1"
      "ahead f1 = concat (map (\<lambda>m. carried env (fst m)) ms) @ carried env raw0 @ rest"
      "outgoing (stream f1) = outgoing (stream f)" "same_client c c1" and reads: "clock_reads (link c1) = clock_reads (link c) + 3"
    using client_receive_ok[OF now Cons.prems(2) _ g(2)] Cons.prems(4) m g(1) by auto
  have prompt1: "client_prompt E deadline c1 (3 * Suc (length ms))"
    using Cons.prems(1) c1(5) reads by (intro client_prompt_later[of E deadline c 3 _ c1]) simp_all
  have rest_ms: "\<forall>(raw, g) \<in> set ms. frame_decode raw = Inr g \<and> length raw < 2 ^ 63 \<and> \<not> (response g \<and> answers tk rq (cf_header g))"
    using Cons.prems(3) by simp
  show ?case
  proof (cases "response g")
    case True
    have acks: "list_all2 (\<lambda>h img. frame_encode h [] = Inr img) (ack_headers (route c1) trace (filter (\<lambda>g. \<not> response g) (map snd ms))) imgs"
      using Cons.prems(5) True m c1(5) by (simp add: same_client_def)
    have "await_response E tk rq deadline trace seen c = await_response E tk rq deadline trace seen c1"
      using c1(1) True g(3) by (simp add: await_response.simps[of E tk rq deadline trace seen c])
    then show ?thesis
      using Cons.IH[OF prompt1 c1(2) rest_ms c1(3) acks, of seen] c1(4,5) True m by (auto intro: same_client_trans)
  next
    case False
    obtain img imgs' where imgs: "imgs = img # imgs'" "frame_encode (ack_header (route c) (cf_header g) trace) [] = Inr img"
        "list_all2 (\<lambda>h img. frame_encode h [] = Inr img) (ack_headers (route c) None (filter (\<lambda>g. \<not> response g) (map snd ms))) imgs'"
      using Cons.prems(5) False m by (auto simp: list_all2_Cons1)
    have rt: "route c1 = route c"
      using c1(5) by (simp add: same_client_def)
    obtain f2 c2 where c2: "transmit E (ack_header (route c) (cf_header g) trace) [] c1 = (Inr (), c2)" "client_line env f2 c2"
        "ahead f2 = ahead f1" "outgoing (stream f2) = outgoing (stream f1) @ carried env img" "same_client c1 c2"
      and reads2: "clock_reads (link c2) = clock_reads (link c1)"
      using transmit_ok[OF c1(2) imgs(2)] by blast
    have step: "await_response E tk rq deadline trace seen c = await_response E tk rq deadline None (seen @ [g]) c2"
      using c1(1) c2(1) False rt
      by (simp add: await_response.simps[of E tk rq deadline trace seen c] acknowledge_def bindM_def)
    have prompt2: "client_prompt E deadline c2 (3 * Suc (length ms))"
      using prompt1 c2(5) reads2 by (intro client_prompt_later[of E deadline c1 0 _ c2]) simp_all
    have "route c2 = route c"
      using c2(5) rt by (simp add: same_client_def)
    then have "\<exists>f' c'. await_response E tk rq deadline None (seen @ [g]) c2 = Some (Inr answer, (seen @ [g]) @ filter (\<lambda>g. \<not> response g) (map snd ms), c')
        \<and> client_line env f' c' \<and> ahead f' = rest
        \<and> outgoing (stream f') = outgoing (stream f2) @ concat (map (carried env) imgs') \<and> same_client c2 c'"
      using c1(3) c2(3) imgs(3) by (intro Cons.IH[OF prompt2 c2(2) rest_ms]) simp_all
    then obtain f' c' where run: "await_response E tk rq deadline None (seen @ [g]) c2 = Some (Inr answer, (seen @ [g]) @ filter (\<lambda>g. \<not> response g) (map snd ms), c')"
        "client_line env f' c'" "ahead f' = rest"
        "outgoing (stream f') = outgoing (stream f2) @ concat (map (carried env) imgs')" "same_client c2 c'"
      by blast
    moreover have "same_client c c'"
      using c1(5) c2(5) run(5) by (blast intro: same_client_trans)
    ultimately show ?thesis
      unfolding step using c1(4) c2(4) imgs(1) False m by (intro exI[of _ f'] exI[of _ c']) simp
  qed
qed

text \<open>A whole call: the request goes out, then the acknowledgements, and the answer comes back.\<close>

lemma client_send_ok:
  assumes "client_line env f c" and "frame_encode (request_header rq (next_token c) (route c)) (rq_body rq) = Inr img"
  shows "\<exists>f' c'. client_send E rq c = (Inr (next_token c), c') \<and> client_line env f' c' \<and> ahead f' = ahead f
    \<and> outgoing (stream f') = outgoing (stream f) @ carried env img
    \<and> same_client (c\<lparr>next_token := next_token c + 1\<rparr>) c' \<and> clock_reads (link c') = clock_reads (link c)"
proof -
  let ?c = "c\<lparr>next_token := next_token c + 1\<rparr>"
  have "client_line env f ?c"
    using assms(1) by (simp add: client_line_def)
  from transmit_ok[OF this assms(2), of E] show ?thesis
    by (auto simp: client_send_def bindM_def)
qed

lemma call_ok:
  assumes "prompt E (clock E (clock_reads (link c)) + timeout) (patience (link c)) (Suc (clock_reads (link c))) (3 * Suc (length ms))"
    and "client_line env f c" and "frame_encode (request_header rq (next_token c) (route c)) (rq_body rq) = Inr img"
    and "\<forall>(raw, g) \<in> set ms. frame_decode raw = Inr g \<and> length raw < 2 ^ 63
           \<and> \<not> (response g \<and> answers (next_token c) rq (cf_header g))"
    and "frame_decode raw0 = Inr answer" and "length raw0 < 2 ^ 63" and "response answer" and "answers (next_token c) rq (cf_header answer)"
    and "ahead f = concat (map (\<lambda>m. carried env (fst m)) ms) @ carried env raw0 @ rest"
    and "list_all2 (\<lambda>h img. frame_encode h [] = Inr img)
           (ack_headers (route c) (rq_trace rq) (filter (\<lambda>g. \<not> response g) (map snd ms))) imgs"
  shows "\<exists>f' c'. call E rq timeout c = Some (Inr answer, filter (\<lambda>g. \<not> response g) (map snd ms), c')
    \<and> client_line env f' c' \<and> ahead f' = rest
    \<and> outgoing (stream f') = outgoing (stream f) @ carried env img @ concat (map (carried env) imgs)
    \<and> next_token c' = next_token c + 1 \<and> route c' = route c"
proof -
  obtain f1 c1 where c1: "client_send E rq c = (Inr (next_token c), c1)" "client_line env f1 c1" "ahead f1 = ahead f"
      "outgoing (stream f1) = outgoing (stream f) @ carried env img"
      "same_client (c\<lparr>next_token := next_token c + 1\<rparr>) c1" "clock_reads (link c1) = clock_reads (link c)"
    using client_send_ok[OF assms(2,3)] by blast
  let ?c2 = "c1\<lparr>link := (link c1)\<lparr>clock_reads := clock_reads (link c1) + 1\<rparr>\<rparr>"
  let ?deadline = "clock E (clock_reads (link c)) + timeout"
  have settings: "route ?c2 = route c" "patience (link ?c2) = patience (link c)" "clock_reads (link ?c2) = Suc (clock_reads (link c))"
    using c1(5,6) by (simp_all add: same_client_def same_settings_def)
  have line: "client_line env f1 ?c2"
    using c1(2) by (simp add: client_line_def on_line_def)
  have "call E rq timeout c = await_response E (next_token c) rq ?deadline (rq_trace rq) [] ?c2"
    using c1(1,6) by (simp add: call_def read_clock_def)
  moreover have "\<exists>f' c'. await_response E (next_token c) rq ?deadline (rq_trace rq) [] ?c2
        = Some (Inr answer, [] @ filter (\<lambda>g. \<not> response g) (map snd ms), c')
      \<and> client_line env f' c' \<and> ahead f' = rest
      \<and> outgoing (stream f') = outgoing (stream f1) @ concat (map (carried env) imgs) \<and> same_client ?c2 c'"
    by (rule await_response_ok[OF _ line assms(4-8)]) (use assms(1,9,10) c1(3) settings in simp_all)
  ultimately show ?thesis
    using c1(4,5) by (auto simp: same_client_def)
qed

end
