(* ===== verification/Classic_Properties.thy ===== *)
theory Classic_Properties
  imports Client_Laws "HOL-Library.Code_Target_Nat"
begin

text \<open>
  The properties of the classic channel: its headers and frames, the check-value envelope, the socket's waits
  and the exchanges of the client, each with an input at which its hypotheses hold.
\<close>

section \<open>Headers and frames\<close>

definition sample_header :: classic_header where
  "sample_header = header_default\<lparr>service_id := 7, method_id := 2, token := 7, is_response := Some True,
     request_trace := Some [1, 2], unknown := message_field (PField 40 (Fixed32 9)) []\<rparr>"

lemma sample_header_wf: "wf_header sample_header"
proof -
  have "wf_header (header_default\<lparr>service_id := 7, method_id := 2, token := 7, is_response := Some True,
      request_trace := Some [1, 2]\<rparr>)"
    by (intro wf_header_trace) (simp_all add: wf_header_default)
  from wf_header_unknown[OF this, of "PField 40 (Fixed32 9)"] show ?thesis
    by (simp add: sample_header_def wf_field_def header_default_def)
qed

definition sample_image :: bytes where
  "sample_image = [0, 20, 0x08, 7, 0x10, 2, 0x18, 7, 0x28, 3, 0x48, 1, 0x62, 2, 1, 2, 0xC5, 0x02, 9, 0, 0, 0, 5, 6, 7]"

lemma sample_image_encode: "frame_encode sample_header [5, 6, 7] = Inr sample_image"
  by code_simp

text \<open>C31: a frame that the encoder accepts is read back with the same header, unknown fields included, the same
  body, and the size the encoder filled in.\<close>

theorem classic_frames_roundtrip:
  assumes "wf_header h" and "frame_encode h bs = Inr img"
  shows "frame_decode img = Inr \<lparr>cf_header = h\<lparr>declared_size := Some (of_nat (length bs))\<rparr>, cf_body = bs\<rparr>"
  using assms by (rule frame_decode_encode)

theorem classic_frames_roundtrip_witness:
  "frame_decode sample_image = Inr \<lparr>cf_header = sample_header\<lparr>declared_size := Some 3\<rparr>, cf_body = [5, 6, 7]\<rparr>"
  using classic_frames_roundtrip[OF sample_header_wf sample_image_encode] by simp



section \<open>The envelope\<close>

text \<open>C33: decoding undoes encoding and encoding undoes decoding, at every length and for every seed, and the
  envelope keeps the length of a message.\<close>

theorem envelope_roundtrip:
  "envelope_decode env (envelope_encode env pl) = pl \<and> envelope_encode env (envelope_decode env pl) = pl
    \<and> length (envelope_encode env pl) = length pl"
  by (simp add: decode_encode encode_decode)

definition captured_nonce :: bytes where
  "captured_nonce = [0xCA, 0x2A, 0xB6, 0x21, 0xF6, 0xAC, 0x73, 0x2A, 0x85, 0xBB, 0x8A, 0x8A, 0xF0, 0x77, 0xC4, 0xF1]"

lemma captured_lanes: "first_lanes captured_nonce = 0xFFFFFFCA" "later_lanes captured_nonce = 0xAEC29F83"
  by code_simp+

lemma bases: "check_value_base REMASTERED_FOURCC = 0x10AA8985" "check_value_base 0x5733 = 0x10A88885"
  by code_simp+

text \<open>The seed and the first block of a captured connection.\<close>

lemma captured_seed: "fold_nonce captured_nonce REMASTERED_FOURCC = 0x513D604C"
  by (simp add: fold_nonce_def fold_from_split captured_lanes bases)

lemma captured_block: "envelope_encode \<lparr>seed = 0x513D604C\<rparr> [0, 0x44, 8, 0x87] = [0x98, 0xC5, 0xE3, 0x94]"
  by code_simp

text \<open>Two products get the same seed from a connection exactly when their bases agree outside the bits which the
  first four bytes of the nonce set, so a nonce can hide a wrong base, and the later bytes never do.\<close>

theorem seeds_agree_iff:
  assumes "from_websocket_key b64 key p = Inr a" and "from_websocket_key b64 key q = Inr b" and "b64 key = Some nonce"
  shows "a = b \<longleftrightarrow> check_value_base p OR first_lanes nonce = check_value_base q OR first_lanes nonce"
  using assms by (auto simp: from_websocket_key_def rbind_def ok_or_def fold_nonce_def fold_from_eq_iff split: if_split_asm)

theorem seeds_agree_iff_witness:
  "from_websocket_key (\<lambda>_. Some (replicate 16 0)) [] REMASTERED_FOURCC
    \<noteq> from_websocket_key (\<lambda>_. Some (replicate 16 0)) [] 0x5733"
proof -
  let ?b = "\<lambda>_ :: bytes. Some (replicate 16 (0 :: u8))"
  have 1: "from_websocket_key ?b [] REMASTERED_FOURCC = Inr \<lparr>seed = fold_nonce (replicate 16 0) REMASTERED_FOURCC\<rparr>"
    and 2: "from_websocket_key ?b [] 0x5733 = Inr \<lparr>seed = fold_nonce (replicate 16 0) 0x5733\<rparr>"
    by (simp_all add: from_websocket_key_def ok_or_def)
  have "first_lanes (replicate 16 0) = 0"
    by code_simp
  then show ?thesis
    using seeds_agree_iff[OF 1 2 refl] 1 2 bases by simp
qed

section \<open>Waiting\<close>

text \<open>A service that only ever pings, on a clock that ticks once per reading.\<close>

definition pinging :: "unit outside" where
  "pinging = \<lparr>strict_send = (\<lambda>m. ret ()), strict_read = ret (MPing []), strict_close = ret (),
     clock = (\<lambda>n. n), mask_source = (\<lambda>n. [1, 2, 3, 4])\<rparr>"

definition waiting_socket :: "unit transport \<Rightarrow> unit rpc_socket" where
  "waiting_socket t = \<lparr>socket = t, handshake_key = [], transform_of = None, patience = 9, clock_reads = 0, masks_drawn = 0\<rparr>"





definition waiting_client :: "unit transport \<Rightarrow> unit classic_client" where
  "waiting_client t = \<lparr>link = (waiting_socket t)\<lparr>transform_of := Some (check_value_transform \<lparr>seed = 0x513D604C\<rparr>)\<rparr>,
     next_token = 1, route = DEFAULT_ROUTING_ID\<rparr>"



section \<open>Exchanges on a classic connection\<close>

text \<open>C36: a message arrives whole behind any number of keepalives; every ping among them is answered with a pong
  of its payload, in order, and nothing else is written.\<close>

theorem keepalives_are_answered:
  assumes "quick E s (Suc (length ks))" and "\<forall>k \<in> set ks. keepalive k" and "on_line f s"
    and "ahead f = concat (map frame_image ks) @ frame_image (binary_packet wire) @ rest" and "length wire < 2 ^ 63"
  shows "\<exists>f' s'. receive_raw E s = Some (Inr (inbound (transform_of s) wire), s') \<and> on_line f' s' \<and> ahead f' = rest
    \<and> outgoing (stream f') = outgoing (stream f) @ pong_bytes E (masks_drawn s) ks"
  using receive_raw_ok[OF assms] by blast

definition line_of :: "bytes \<Rightarrow> framing" where
  "line_of bs = framing_new \<lparr>incoming = [Arrived bs], outgoing = [], room = None, flush_fails = False\<rparr>"

lemma line_of_facts: "bs \<noteq> [] \<Longrightarrow> steady (stream (line_of bs)) \<and> writable (stream (line_of bs)) \<and> ahead (line_of bs) = bs
    \<and> outgoing (stream (line_of bs)) = []"
  by (simp add: line_of_def framing_new_def steady_def quiet_def writable_def ahead_def pending_def)

definition sample_ping :: "frame \<times> bytes" where
  "sample_ping = (\<lparr>fin = True, opcode = OP_PING, payload = [9]\<rparr>, [0, 0, 0, 0])"

theorem keepalives_are_answered_witness:
  "\<exists>f' s'. receive_raw pinging (waiting_socket (Classic (line_of [0x89, 0x81, 0, 0, 0, 0, 9, 0x82, 0x82, 0, 0, 0, 0, 5, 6])))
      = Some (Inr [5, 6], s') \<and> on_line f' s' \<and> outgoing (stream f') = [0x8A, 0x81, 1, 2, 3, 4, 8]"
proof -
  let ?bs = "[0x89, 0x81, 0, 0, 0, 0, 9, 0x82, 0x82, 0, 0, 0, 0, 5, 6] :: bytes"
  let ?s = "waiting_socket (Classic (line_of ?bs))"
  have wire: "concat (map frame_image [sample_ping]) @ frame_image (binary_packet [5, 6]) @ [] = ?bs"
    by code_simp
  have pong: "pong_bytes pinging 0 [sample_ping] = [0x8A, 0x81, 1, 2, 3, 4, 8]"
    by code_simp
  have "quick pinging ?s (Suc (length [sample_ping]))"
    by (simp add: quick_def in_time_def pinging_def waiting_socket_def)
  moreover have "\<forall>k \<in> set [sample_ping]. keepalive k"
    by (simp add: keepalive_def sample_ping_def maskable_def sendable_def)
  moreover have "on_line (line_of ?bs) ?s" and "ahead (line_of ?bs) = ?bs" and quiet: "outgoing (stream (line_of ?bs)) = []"
    using line_of_facts[of ?bs] by (simp_all add: on_line_def waiting_socket_def)
  moreover have "masks_drawn ?s = 0" and "transform_of ?s = None"
    by (simp_all add: waiting_socket_def)
  ultimately show ?thesis
    using keepalives_are_answered[of pinging ?s "[sample_ping]" "line_of ?bs" "[5, 6]" "[]"] pong
    unfolding wire by (auto simp: inbound_def)
qed

text \<open>A client on a classic connection, and one service's side of it; both sides use the same envelope.\<close>

definition classic_side :: "bytes \<Rightarrow> unit classic_client" where
  "classic_side bs = waiting_client (Classic (line_of bs))"

abbreviation sample_env :: envelope where "sample_env \<equiv> \<lparr>seed = 0x513D604C\<rparr>"

lemma classic_side_facts:
  "bs \<noteq> [] \<Longrightarrow> client_line sample_env (line_of bs) (classic_side bs)"
  "next_token (classic_side bs) = 1" "route (classic_side bs) = DEFAULT_ROUTING_ID"
  "patience (link (classic_side bs)) = 9" "clock_reads (link (classic_side bs)) = 0"
  using line_of_facts[of bs]
  by (simp_all add: client_line_def classic_side_def waiting_client_def waiting_socket_def on_line_def)

text \<open>C37: a request goes out as one enveloped message under the next token, and the other side reads exactly that
  request: its service, method, token, route, trace and body.\<close>

theorem requests_arrive:
  assumes "client_line env f c" and "frame_encode (request_header rq (next_token c) (route c)) (rq_body rq) = Inr img"
    and "\<forall>t. rq_trace rq = Some t \<longrightarrow> length t < 2 ^ 63"
    and "client_line env g d" and "ahead g = carried env img @ rest" and "client_prompt F deadline d 3"
  shows "\<exists>f' c' d'. client_send E rq c = (Inr (next_token c), c') \<and> client_line env f' c'
    \<and> outgoing (stream f') = outgoing (stream f) @ carried env img \<and> next_token c' = next_token c + 1
    \<and> client_receive F deadline d = Some (Inr
        \<lparr>cf_header = (request_header rq (next_token c) (route c))\<lparr>declared_size := Some (of_nat (length (rq_body rq)))\<rparr>,
         cf_body = rq_body rq\<rparr>, d')"
proof -
  have "wf_header (request_header rq (next_token c) (route c))"
    using assms(3) wf_header_default by (auto simp: wf_header_def request_header_def header_default_def)
  from frame_decode_encode[OF this assms(2)] show ?thesis
    using client_send_ok[OF assms(1,2), of E] client_receive_ok[OF assms(6,4,5) frame_encode_length[OF assms(2)]]
    by (fastforce simp: same_client_def)
qed

definition sample_request :: request where
  "sample_request = with_trace [3] (request_new 7 2 [5, 6])"

definition request_image :: bytes where
  "request_image = [0, 21, 0x08, 7, 0x10, 2, 0x18, 1, 0x20, 0xF1, 0xC9, 0x88, 0xB4, 0x09, 0x28, 2, 0x30, 0, 0x48, 0, 0x62, 1, 3, 5, 6]"

lemma request_image_encode:
  "frame_encode (request_header sample_request 1 DEFAULT_ROUTING_ID) (rq_body sample_request) = Inr request_image"
  by code_simp

lemma carried_nonempty: "carried env bs \<noteq> []"
  by (simp add: carried_def frame_image_def binary_packet_def encode_frame_def)

theorem requests_arrive_witness:
  "\<exists>d'. client_receive pinging 10 (classic_side (carried sample_env request_image)) = Some (Inr
      \<lparr>cf_header = (request_header sample_request 1 DEFAULT_ROUTING_ID)\<lparr>declared_size := Some 2\<rparr>, cf_body = [5, 6]\<rparr>, d')"
proof -
  let ?wire = "carried sample_env request_image"
  have "client_line sample_env (line_of ?wire) (classic_side ?wire)" and "ahead (line_of ?wire) = carried sample_env request_image @ []"
    using classic_side_facts(1) line_of_facts carried_nonempty by simp_all
  moreover have "client_prompt pinging 10 (classic_side ?wire) 3"
    by (simp add: classic_side_facts prompt_def in_time_def pinging_def)
  moreover have "frame_encode (request_header sample_request (next_token (classic_side [0])) (route (classic_side [0])))
      (rq_body sample_request) = Inr request_image"
    using request_image_encode by (simp add: classic_side_facts)
  moreover have "rq_trace sample_request = Some [3]" and "rq_body sample_request = [5, 6]"
    by (simp_all add: sample_request_def with_trace_def request_new_def)
  ultimately show ?thesis
    using requests_arrive[OF classic_side_facts(1)[of "[0]"], of sample_request request_image "line_of ?wire" "classic_side ?wire" "[]" pinging 10 pinging]
    by (auto simp: classic_side_facts)
qed

text \<open>C38: a call returns the answer to its own request, however many foreign answers and requests of the service
  come before it: the former are skipped, the latter are handed out in order and each acknowledged once, the
  first acknowledgement with the trace of the request.\<close>

theorem calls_are_answered:
  assumes "prompt E (clock E (clock_reads (link c)) + timeout) (patience (link c)) (Suc (clock_reads (link c))) (3 * Suc (length ms))"
    and "client_line env f c" and "frame_encode (request_header rq (next_token c) (route c)) (rq_body rq) = Inr img"
    and "\<forall>(raw, g) \<in> set ms. frame_decode raw = Inr g \<and> length raw < 2 ^ 63
           \<and> \<not> (response g \<and> answers (next_token c) rq (cf_header g))"
    and "frame_decode raw0 = Inr answer" and "length raw0 < 2 ^ 63" and "response answer" and "answers (next_token c) rq (cf_header answer)"
    and "ahead f = concat (map (\<lambda>m. carried env (fst m)) ms) @ carried env raw0 @ rest"
    and "list_all2 (\<lambda>h img. frame_encode h [] = Inr img)
           (ack_headers (route c) (rq_trace rq) (filter (\<lambda>g. \<not> response g) (map snd ms))) imgs"
  shows "\<exists>f' c'. call E rq timeout c = Some (Inr answer, filter (\<lambda>g. \<not> response g) (map snd ms), c')
    \<and> client_line env f' c' \<and> ahead f' = rest
    \<and> outgoing (stream f') = outgoing (stream f) @ carried env img @ concat (map (carried env) imgs)
    \<and> next_token c' = next_token c + 1"
  using call_ok[OF assms] by blast

definition service_call :: classic_frame where
  "service_call = \<lparr>cf_header = header_default\<lparr>service_id := 9, method_id := 1, token := 4, declared_size := Some 0\<rparr>, cf_body = []\<rparr>"

definition sample_answer :: classic_frame where
  "sample_answer = \<lparr>cf_header = header_default\<lparr>service_id := 7, method_id := 2, token := 1, is_response := Some True,
     declared_size := Some 1\<rparr>, cf_body = [8]\<rparr>"

definition service_image :: bytes where
  "service_image = [0, 8, 0x08, 9, 0x10, 1, 0x18, 4, 0x28, 0]"

definition answer_image :: bytes where
  "answer_image = [0, 10, 0x08, 7, 0x10, 2, 0x18, 1, 0x28, 1, 0x48, 1, 8]"

definition ack_image :: bytes where
  "ack_image = [0, 19, 0x08, 9, 0x10, 1, 0x18, 4, 0x20, 0xF1, 0xC9, 0x88, 0xB4, 0x09, 0x28, 0, 0x48, 1, 0x62, 1, 3]"

lemma sample_frames:
  "frame_decode service_image = Inr service_call" "frame_decode answer_image = Inr sample_answer"
proof -
  have "frame_encode (cf_header service_call) [] = Inr service_image"
    and "frame_encode (cf_header sample_answer) [8] = Inr answer_image"
    by code_simp+
  then show "frame_decode service_image = Inr service_call" "frame_decode answer_image = Inr sample_answer"
    using frame_decode_encode[of "cf_header service_call" "[]" service_image]
      frame_decode_encode[of "cf_header sample_answer" "[8]" answer_image]
    by (simp_all add: service_call_def sample_answer_def wf_header_default)
qed

definition sample_wire :: bytes where
  "sample_wire = carried sample_env service_image @ carried sample_env answer_image"

lemma sample_side:
  "client_line sample_env (line_of sample_wire) (classic_side sample_wire)"
  "ahead (line_of sample_wire) =
     concat (map (\<lambda>m. carried sample_env (fst m)) [(service_image, service_call)]) @ carried sample_env answer_image @ []"
  "outgoing (stream (line_of sample_wire)) = []"
  using classic_side_facts(1)[of sample_wire] line_of_facts[of sample_wire] carried_nonempty
  by (simp_all add: sample_wire_def)

lemma sample_prompt:
  "prompt pinging (clock pinging (clock_reads (link (classic_side bs))) + 30) (patience (link (classic_side bs)))
     (Suc (clock_reads (link (classic_side bs)))) 6"
  by (simp add: classic_side_facts prompt_def in_time_def pinging_def)

lemma sample_exchange:
  "\<not> response service_call" "response sample_answer" "answers 1 sample_request (cf_header sample_answer)"
  "rq_trace sample_request = Some [3]" "length service_image < 2 ^ 63" "length answer_image < 2 ^ 63"
  by (simp_all add: service_call_def sample_answer_def header_default_def header_is_response_def answers_def
      sample_request_def with_trace_def request_new_def service_image_def answer_image_def)

lemma sample_acks:
  "list_all2 (\<lambda>h img. frame_encode h [] = Inr img) (ack_headers DEFAULT_ROUTING_ID (Some [3]) [service_call]) [ack_image]"
proof -
  have "frame_encode (ack_header DEFAULT_ROUTING_ID (cf_header service_call) (Some [3])) [] = Inr ack_image"
    by code_simp
  then show ?thesis
    by simp
qed

theorem calls_are_answered_witness:
  "\<exists>f' c'. call pinging sample_request 30 (classic_side sample_wire) = Some (Inr sample_answer, [service_call], c')
    \<and> client_line sample_env f' c'
    \<and> outgoing (stream f') = carried sample_env request_image @ carried sample_env ack_image"
proof -
  have "prompt pinging (clock pinging (clock_reads (link (classic_side sample_wire))) + 30)
      (patience (link (classic_side sample_wire))) (Suc (clock_reads (link (classic_side sample_wire))))
      (3 * Suc (length [(service_image, service_call)]))"
    using sample_prompt by simp
  from calls_are_answered[OF this sample_side(1) _ _ sample_frames(2) sample_exchange(6,2) _ sample_side(2), of sample_request request_image "[ack_image]"]
  show ?thesis
    using sample_frames(1) sample_exchange sample_acks request_image_encode sample_side(3)
    by (auto simp: classic_side_facts)
qed

text \<open>C39: whatever arrives, a call never returns an answer to another request, and never hands out an answer.\<close>

theorem answers_match_requests:
  assumes "call E rq timeout c = Some (v, seen, c')"
  shows "(\<forall>g \<in> set seen. \<not> response g) \<and> (\<forall>f. v = Inr f \<longrightarrow> response f \<and> answers (next_token c) rq (cf_header f))"
  by (rule call_proper[OF assms])

theorem answers_match_requests_witness:
  "\<exists>f c'. call pinging sample_request 30 (classic_side sample_wire) = Some (Inr f, [service_call], c')
    \<and> answers 1 sample_request (cf_header f)"
proof -
  have "prompt pinging (clock pinging (clock_reads (link (classic_side sample_wire))) + 30)
      (patience (link (classic_side sample_wire))) (Suc (clock_reads (link (classic_side sample_wire))))
      (3 * Suc (length [(service_image, service_call)]))"
    using sample_prompt by simp
  from call_ok[OF this sample_side(1) _ _ sample_frames(2) sample_exchange(6,2) _ sample_side(2), of sample_request request_image "[ack_image]"]
  obtain c' where "call pinging sample_request 30 (classic_side sample_wire) = Some (Inr sample_answer, [service_call], c')"
    using sample_frames(1) sample_exchange sample_acks request_image_encode by (auto simp: classic_side_facts)
  then show ?thesis
    using answers_match_requests classic_side_facts(2) by fastforce
qed

end
