(* ===== verification/Native_Model.thy ===== *)
theory Native_Model
  imports Values
begin

text \<open>
  The data of the native StarCraft II protocol (\<open>core/src/games/sc2/native/model.rs\<close>): what the payload of a
  record is decoded into.  A \<open>String\<close> is its UTF-8 bytes, a content handle its 40 bytes.
\<close>

section \<open>Names and handles\<close>

record toon_full_name =
  tn_region :: u8
  tn_program_id :: u32
  tn_realm :: u32
  tn_name :: bytes

record toon_handle =
  th_region :: u8
  th_program_id :: u32
  th_realm :: u32
  th_id :: u64

record profile_address =
  pa_label :: u32
  pa_id :: u64

record advert_handle =
  server_label :: u32
  server_epoch :: "32 word"
  advert_id :: u32

record image_table_entry =
  table_id :: u16
  table_offset :: u16

record command_response =
  cr_command_id :: u8
  cr_result :: u16

section \<open>Friends\<close>

datatype friend_identity =
    Account u32
  | Character u32 u32 u32 u64        \<comment> \<open>program, region, realm, id\<close>

datatype social_operation = Add | Remove | Modify

record friend_entry =
  fe_identity :: friend_identity
  fe_display_name :: "bytes option"
  fe_full_name :: "bytes option"
  fe_note :: "bytes option"
  fe_profile :: "profile_address option"
  fe_toon_name :: "toon_full_name option"

record friend_update =
  fu_operation :: social_operation
  fu_entry :: friend_entry

record friends_page =
  fp_updates :: "friend_update list"
  fp_complete :: "bool option"

record friend_toon =
  ft_account_id :: u32
  ft_program_id :: u32
  ft_profile :: "profile_address option"
  ft_toon_name :: toon_full_name

record friend_toon_page =
  ftp_entries :: "friend_toon list"
  ftp_complete :: bool

record profile_address_query_response =
  paq_request_id :: u32
  paq_address :: "profile_address option"
  paq_error :: "u32 option"

record account_block_entry =
  ab_account_id :: u32
  ab_nickname :: "bytes option"
  ab_full_name :: "bytes option"
  ab_role :: u32

record account_block_page =
  abp_entries :: "account_block_entry list"
  abp_complete :: "bool option"

section \<open>Clubs, conferences and channels\<close>

record club_invite_action =
  cia_club_id :: u32
  cia_program :: u32
  cia_member_kind :: u8
  cia_member_realm :: u32
  cia_member_id :: u64

record chat_invite =
  ci_channel_type :: u8
  ci_channel_index :: u8
  ci_inviter_presence :: u32

record club_summary =
  cs_club_id :: u32
  cs_name :: "bytes option"
  cs_kind :: u8
  cs_category :: u8
  cs_private :: bool
  cs_member_count :: "u32 option"
  cs_online :: "u32 option"

record connection_message_frame =
  cm_frame_type :: int
  cm_headers :: "(u32 \<times> bsn_field list) list"
  cm_payload :: bytes

record cache_stream_item =
  publication_time :: "32 word"
  content_handle :: bytes

record cache_stream_items =
  csi_items :: "cache_stream_item list"
  csi_offset :: u16
  csi_total_items :: u16
  csi_token :: u32

record conference_description =
  cd_conference_id :: u32
  cd_locale :: u32
  cd_channel_name_id :: u16
  cd_shard :: u16
  cd_sort_order :: u16
  cd_max_members :: u16
  cd_target_proportion_bits :: u32

record conference_descriptions =
  cds_entries :: "conference_description list"
  cds_is_last :: bool

record conference_member_count =
  cmc_conference_id :: u32
  cmc_members :: u16
  cmc_full :: bool

record conference_member_counts =
  cmcs_entries :: "conference_member_count list"
  cmcs_is_last :: bool
  cmcs_sampled_at :: "32 word option"

record channel_descriptor =
  chd_kind :: u8
  chd_index :: u16
  chd_identifier :: u16

record channel_list =
  cl_entries :: "channel_descriptor list"

section \<open>Chat\<close>

record chat_join =
  cj_success :: bool
  cj_channel_index :: "u8 option"
  cj_member_handle :: "u32 option"
  cj_channel_type :: "u8 option"
  cj_channel_name_id :: "u16 option"
  cj_channel_shard_index :: "u16 option"
  cj_reason :: "u16 option"
  cj_token :: "u32 option"

datatype membership_kind = Join | Leave | Status

datatype party_member_status = Invalid | Online | Offline | Invited

record membership_change =
  mc_kind :: membership_kind
  mc_member_handle :: u32
  mc_presence_id :: "u32 option"
  mc_display_name :: "bytes option"
  mc_toon_name :: "toon_full_name option"
  mc_party_status :: "party_member_status option"
  mc_reason :: "u16 option"

record chat_membership =
  cms_channel_index :: u8
  cms_end_of_initial :: bool
  cms_changes :: "membership_change list"

record chat_message =
  msg_channel_index :: u8
  msg_member_handle :: u32
  msg_body :: bytes

record chat_whisper =
  cw_peer :: toon_full_name
  cw_body :: bytes

datatype whisper_target =
    ToPresence u32
  | ToAccount u32
  | ToWarcraftAccount u64
  | ToToonHandle toon_handle
  | ToToonName toon_full_name
  | ToName bytes

section \<open>Toons, presence and profiles\<close>

record toon_display =
  td_name :: bytes
  td_realm :: u32

record toon_name_resolved =
  tnr_name :: toon_full_name
  tnr_result :: u16
  tnr_handle :: "toon_handle option"

record member_clan_tag =
  mct_token :: u32
  mct_result :: u16
  mct_club_id :: "u32 option"
  mct_tag :: "bytes option"

record toon_list =
  tl_displays :: "toon_display list"

record toon_selected =
  ts_name :: bytes
  ts_realm :: u32
  ts_handle :: toon_handle

text \<open>\<open>PresenceFieldFlags\<close> is its byte.\<close>

definition FLAG_WRITABLE :: u8 where "FLAG_WRITABLE = 1"
definition FLAG_EPHEMERAL :: u8 where "FLAG_EPHEMERAL = 2"
definition FLAG_SERVER_ONLY :: u8 where "FLAG_SERVER_ONLY = 4"
definition FLAG_CLIENT_ONLY :: u8 where "FLAG_CLIENT_ONLY = 8"

record presence_field =
  pf_handle :: u32
  pf_identifier :: u8
  pf_flags :: u8
  pf_fixed_size :: "u16 option"

unbundle bit_operations_syntax

definition flags_from_bits :: "u8 \<Rightarrow> u8" where
  "flags_from_bits bits = bits AND 0x0F"

definition flag_set :: "u8 \<Rightarrow> u8 \<Rightarrow> bool" where
  "flag_set fl m \<longleftrightarrow> fl AND m \<noteq> 0"

record presence_fields =
  pfs_entries :: "presence_field list"

record presence_update =
  pu_local_presence_id :: u32
  pu_master_presence_id :: u32
  pu_field_data :: bytes
  pu_cleared_handles :: "u32 list"
  pu_handles :: "u32 list"
  pu_variable_sizes :: "u16 list"
  pu_online :: bool

datatype profile_read_result =
    PrStart u32 int
  | PrBlock bytes
  | PrFailure u16
  | PrCache

record profile_read_response =
  prr_request_id :: u32
  prr_result :: profile_read_result

record startup_summary =
  su_kind :: bytes
  su_item_count :: nat
  su_complete :: "bool option"

section \<open>Payloads\<close>

datatype payload =
    Reflected bsn_value
  | CommandResponse command_response
  | MessageFrame connection_message_frame
  | ChatInvite chat_invite
  | ClubInviteAction club_invite_action
  | ClubSearch "u32 list"
  | ClubInfo "club_summary list"
  | ClubSummaries "club_summary list"
  | CacheStreamItems cache_stream_items
  | ConferenceDescriptions conference_descriptions
  | ConferenceMemberCounts conference_member_counts
  | ChannelList channel_list
  | ChatJoin chat_join
  | ChatMembership chat_membership
  | ChatMessage chat_message
  | ChatWhisper chat_whisper
  | ChatWhisperEcho chat_whisper
  | ToonList toon_list
  | ToonSelected toon_selected
  | PresenceFields presence_fields
  | PresenceUpdate presence_update
  | ToonNameResolved toon_name_resolved
  | MemberClanTag member_clan_tag
  | ProfileRead profile_read_response
  | ProfileAddressQuery profile_address_query_response
  | Friends friends_page
  | FriendToons friend_toon_page
  | AccountBlocks account_block_page
  | StartupSummary startup_summary

fun reflected :: "payload \<Rightarrow> bsn_value option" where
  "reflected (Reflected v) = Some v"
| "reflected _ = None"

end
