(* ===== verification/Native_Records.thy ===== *)
theory Native_Records
  imports Native_Model Bit_Codec Byte_Order
begin

text \<open>
  The records of the native protocol that are written bit by bit (\<open>core/src/games/sc2/native/protocol.rs\<close>):
  the requests of the client and the answers of the server side, one definition per function.  A string
  argument is its UTF-8 bytes.
\<close>

section \<open>Slots and commands\<close>

definition CONNECTION_SLOT :: u8 where "CONNECTION_SLOT = 1"
definition FRIENDS_SLOT :: u8 where "FRIENDS_SLOT = 3"
definition PRESENCE_SLOT :: u8 where "PRESENCE_SLOT = 4"
definition CHAT_SLOT :: u8 where "CHAT_SLOT = 5"
definition S2_MASTER_SLOT :: u8 where "S2_MASTER_SLOT = 10"
definition CACHE_SLOT :: u8 where "CACHE_SLOT = 11"
definition PARTY_SLOT :: u8 where "PARTY_SLOT = 12"
definition S2_MULTIPLAYER_SLOT :: u8 where "S2_MULTIPLAYER_SLOT = 13"
definition PROFILE_SLOT :: u8 where "PROFILE_SLOT = 14"
definition TOON_SLOT :: u8 where "TOON_SLOT = 15"

definition CHANNEL_INDEX_COUNT :: nat where "CHANNEL_INDEX_COUNT = 7"

definition CHAT_JOIN_REQUEST_COMMAND :: u8 where "CHAT_JOIN_REQUEST_COMMAND = 0"
definition CHAT_MEMBERSHIP_COMMAND :: u8 where "CHAT_MEMBERSHIP_COMMAND = 1"
definition CHAT_LEAVE_REQUEST_COMMAND :: u8 where "CHAT_LEAVE_REQUEST_COMMAND = 2"
definition CHAT_INVITE_NOTIFY_COMMAND :: u8 where "CHAT_INVITE_NOTIFY_COMMAND = 4"
definition CHAT_INVITE_ACCEPT_COMMAND :: u8 where "CHAT_INVITE_ACCEPT_COMMAND = 5"
definition CHAT_INVITE_DECLINE_COMMAND :: u8 where "CHAT_INVITE_DECLINE_COMMAND = 6"
definition CHAT_MESSAGE_COMMAND :: u8 where "CHAT_MESSAGE_COMMAND = 11"
definition CHAT_WHISPER_SEND_COMMAND :: u8 where "CHAT_WHISPER_SEND_COMMAND = 19"
definition CHAT_CHANNEL_LIST_RESPONSE_COMMAND :: u8 where "CHAT_CHANNEL_LIST_RESPONSE_COMMAND = 22"
definition CHAT_CONFERENCE_DESCRIPTIONS_COMMAND :: u8 where "CHAT_CONFERENCE_DESCRIPTIONS_COMMAND = 24"
definition CHAT_CONFERENCE_MEMBER_COUNTS_COMMAND :: u8 where "CHAT_CONFERENCE_MEMBER_COUNTS_COMMAND = 26"
definition CHAT_JOIN_NOTIFY_COMMAND :: u8 where "CHAT_JOIN_NOTIFY_COMMAND = 27"
definition CACHE_GET_STREAM_ITEMS_COMMAND :: u8 where "CACHE_GET_STREAM_ITEMS_COMMAND = 9"
definition TOON_SELECT_COMMAND :: u8 where "TOON_SELECT_COMMAND = 5"
definition FRIENDS_LIST_COMMAND :: u8 where "FRIENDS_LIST_COMMAND = 30"
definition PRESENCE_UPDATE_COMMAND :: u8 where "PRESENCE_UPDATE_COMMAND = 0"
definition PRESENCE_FIELDS_COMMAND :: u8 where "PRESENCE_FIELDS_COMMAND = 1"
definition S2_MASTER_CURRENT_SEASON_COMMAND :: u8 where "S2_MASTER_CURRENT_SEASON_COMMAND = 27"
definition S2_MASTER_LOBBY_PREVIEW_COMMAND :: u8 where "S2_MASTER_LOBBY_PREVIEW_COMMAND = 40"
definition S2_MULTIPLAYER_CLUB_SETTINGS_COMMAND :: u8 where "S2_MULTIPLAYER_CLUB_SETTINGS_COMMAND = 57"
definition S2_MULTIPLAYER_GET_TOON_CLUBS_COMMAND :: u8 where "S2_MULTIPLAYER_GET_TOON_CLUBS_COMMAND = 46"
definition S2_MULTIPLAYER_INVITE_ACTION_COMMAND :: u8 where "S2_MULTIPLAYER_INVITE_ACTION_COMMAND = 54"

lemmas route_constants = CONNECTION_SLOT_def FRIENDS_SLOT_def PRESENCE_SLOT_def CHAT_SLOT_def S2_MASTER_SLOT_def
  CACHE_SLOT_def PARTY_SLOT_def S2_MULTIPLAYER_SLOT_def PROFILE_SLOT_def TOON_SLOT_def
  CHAT_JOIN_REQUEST_COMMAND_def CHAT_MEMBERSHIP_COMMAND_def CHAT_LEAVE_REQUEST_COMMAND_def
  CHAT_INVITE_NOTIFY_COMMAND_def CHAT_INVITE_ACCEPT_COMMAND_def CHAT_INVITE_DECLINE_COMMAND_def
  CHAT_MESSAGE_COMMAND_def CHAT_WHISPER_SEND_COMMAND_def CHAT_CHANNEL_LIST_RESPONSE_COMMAND_def
  CHAT_CONFERENCE_DESCRIPTIONS_COMMAND_def CHAT_CONFERENCE_MEMBER_COUNTS_COMMAND_def CHAT_JOIN_NOTIFY_COMMAND_def
  CACHE_GET_STREAM_ITEMS_COMMAND_def TOON_SELECT_COMMAND_def FRIENDS_LIST_COMMAND_def PRESENCE_UPDATE_COMMAND_def
  PRESENCE_FIELDS_COMMAND_def S2_MASTER_CURRENT_SEASON_COMMAND_def S2_MASTER_LOBBY_PREVIEW_COMMAND_def
  S2_MULTIPLAYER_CLUB_SETTINGS_COMMAND_def S2_MULTIPLAYER_GET_TOON_CLUBS_COMMAND_def S2_MULTIPLAYER_INVITE_ACTION_COMMAND_def

section \<open>Writing a record\<close>

abbreviation native_text :: "string \<Rightarrow> error" where
  "native_text s \<equiv> Native (NativeMessage (ascii s))"

text \<open>A run of writes, and the bit of a flag.\<close>

fun seqM :: "('s, unit) op list \<Rightarrow> ('s, unit) op" where
  "seqM [] = ret ()"
| "seqM (m # ms) = bindM m (\<lambda>_. seqM ms)"

abbreviation flag :: "bool \<Rightarrow> u64" where
  "flag b \<equiv> of_bool b"

text \<open>\<open>u64::try_from(n).unwrap_or(u64::MAX)\<close>\<close>

definition count_u64 :: "nat \<Rightarrow> u64" where
  "count_u64 n = (if n < 2 ^ 64 then of_nat n else - 1)"

definition record_writer :: "u8 \<Rightarrow> u8 \<Rightarrow> (writer, unit) op" where
  "record_writer command slot = seqM [write_bits (ucast command) 6, write_bits 1 1, write_bits (ucast slot) 4]"

text \<open>The record that a body makes: the header, the body, the padding.\<close>

definition record_bytes :: "u8 \<Rightarrow> u8 \<Rightarrow> (writer, unit) op \<Rightarrow> bytes result" where
  "record_bytes command slot body =
     (case bindM (record_writer command slot) (\<lambda>_. bindM body (\<lambda>_. writer_align)) writer_new of
        (Inl e, _) \<Rightarrow> Inl e
      | (Inr _, w) \<Rightarrow> Inr (into_bytes w))"

text \<open>\<open>chars().count()\<close> of a string: its bytes that continue no character.\<close>

definition char_count :: "bytes \<Rightarrow> nat" where
  "char_count s = length (filter (\<lambda>b. \<not> is_continuation b) s)"

definition encode_generated_utf8 :: "bytes \<Rightarrow> nat \<Rightarrow> nat \<Rightarrow> nat \<Rightarrow> (writer, unit) op" where
  "encode_generated_utf8 val length_bits maximum_bytes maximum_characters =
     (if length val > maximum_bytes \<or> char_count val > maximum_characters
      then fail (native_text ''generated native string exceeds its schema bound'')
      else seqM [write_bits (of_nat (length val)) length_bits, write_bytes val True])"

definition write_generated_checksum :: "nat \<Rightarrow> u32 \<Rightarrow> (writer, unit) op" where
  "write_generated_checksum width sd w =
     (if \<not> (1 \<le> width \<and> width \<le> 32) \<or> wposition w < 32
      then fail (native_text ''generated checksum parameters are invalid'') w
      else let byte_index = wposition w div 8 in
        if byte_index < 4 then fail (native_text ''generated checksum requires four preceding encoded bytes'') w
        else let encoded = as_bytes w;
                 preceding_four = of_nat (from_le (slice_of encoded (byte_index - 4) byte_index)) :: u32;
                 preceding_two = of_nat (from_le (slice_of encoded (byte_index - 2) byte_index)) :: u32;
                 checksum = word_rotl 8 (sd + preceding_four + preceding_two);
                 mask = (if width = 32 then - 1 else push_bit width 1 - 1 :: u32) in
          write_bits (ucast (checksum AND mask)) width w)"

text \<open>\<open>fourcc\<close> (\<open>core/src/platform/bgs/model.rs\<close>) asserts one to four bytes.\<close>

definition fourcc :: "bytes \<Rightarrow> u32" where
  "fourcc s = fold (\<lambda>b out. push_bit 8 out OR ucast b) s 0"

definition channel_index_ok :: "u8 \<Rightarrow> bool" where
  "channel_index_ok i \<longleftrightarrow> unat i < CHANNEL_INDEX_COUNT"

abbreviation channel_index_error :: error where
  "channel_index_error \<equiv> native_text ''chat channel index must be between 0 and 6''"

section \<open>Requests\<close>

definition cache_get_stream_items :: "u32 \<Rightarrow> bytes \<Rightarrow> bytes \<Rightarrow> bytes \<Rightarrow> bytes result" where
  "cache_get_stream_items token channel item_name locale_name =
     (if length channel \<noteq> 4 \<or> length item_name \<noteq> 4 \<or> length locale_name \<noteq> 4
      then Inl (native_text ''cache stream channel, item, and locale must be four-character FourCCs'')
      else record_bytes CACHE_GET_STREAM_ITEMS_COMMAND CACHE_SLOT (seqM
        [write_bits (ucast token) 32, write_generated_checksum 23 7, write_bits 0 6, write_bits 1 1,
         write_bits (ucast (fourcc channel)) 32, write_bits (ucast (fourcc item_name)) 32,
         write_bits (ucast (fourcc locale_name)) 32,
         write_bits (ucast ((0x7FFFFFFF :: u32) XOR 0x80000000)) 32, write_bits 0 1]))"

text \<open>An \<open>i32\<close> is its word; \<open>wrapping_sub(i32::MIN)\<close> flips its sign bit.\<close>

definition lobby_preview_request :: "u32 \<Rightarrow> 32 word \<Rightarrow> u32 \<Rightarrow> bytes result" where
  "lobby_preview_request label epoch advert =
     record_bytes S2_MASTER_LOBBY_PREVIEW_COMMAND S2_MASTER_SLOT (seqM
       [write_bits (ucast label) 32, write_bits (ucast (epoch - 0x80000000)) 32, write_bits (ucast advert) 32])"

definition chat_empty_request :: "u8 \<Rightarrow> bytes result" where
  "chat_empty_request command = record_bytes command CHAT_SLOT (ret ())"

definition chat_join_public :: "u16 \<Rightarrow> u32 \<Rightarrow> bytes \<Rightarrow> bytes result" where
  "chat_join_public channel_name token locale_name =
     (if length locale_name \<noteq> 4 then Inl (native_text ''chat locale must be a four-character FourCC'')
      else record_bytes CHAT_JOIN_REQUEST_COMMAND CHAT_SLOT (seqM
        [write_bits 2 2, write_bits (ucast (fourcc locale_name)) 32, write_bits (ucast channel_name) 16,
         write_bits (ucast token) 32]))"

definition chat_join_private :: "bytes \<Rightarrow> u32 \<Rightarrow> bytes result" where
  "chat_join_private name token =
     (if name = [] then Inl (native_text ''private chat channel name cannot be empty'')
      else record_bytes CHAT_JOIN_REQUEST_COMMAND CHAT_SLOT (seqM
        [write_bits 0 2, encode_generated_utf8 name 7 124 31, write_bits (ucast token) 32]))"

definition chat_join_club :: "u32 \<Rightarrow> u32 \<Rightarrow> bytes result" where
  "chat_join_club club token =
     record_bytes CHAT_JOIN_REQUEST_COMMAND CHAT_SLOT (seqM
       [write_bits 3 2, write_bits 0 16, write_bits (ucast club) 32, write_bits (ucast token) 32])"

definition chat_leave :: "u8 \<Rightarrow> bytes result" where
  "chat_leave channel_index =
     (if \<not> channel_index_ok channel_index then Inl channel_index_error
      else record_bytes CHAT_LEAVE_REQUEST_COMMAND CHAT_SLOT (write_bits (ucast channel_index) 3))"

definition chat_invite_answer :: "u8 \<Rightarrow> bool \<Rightarrow> bytes result" where
  "chat_invite_answer channel_index accept =
     (if \<not> channel_index_ok channel_index then Inl channel_index_error
      else record_bytes (if accept then CHAT_INVITE_ACCEPT_COMMAND else CHAT_INVITE_DECLINE_COMMAND) CHAT_SLOT
        (write_bits (ucast channel_index) 3))"

definition chat_message :: "u8 \<Rightarrow> bytes \<Rightarrow> bytes result" where
  "chat_message channel_index body =
     (if \<not> channel_index_ok channel_index then Inl channel_index_error
      else record_bytes CHAT_MESSAGE_COMMAND CHAT_SLOT (seqM
        [encode_generated_utf8 body 10 1020 255, write_bits (ucast channel_index) 3]))"

definition toon_select :: "bytes \<Rightarrow> u32 \<Rightarrow> bytes result" where
  "toon_select name realm =
     (if \<not> (2 \<le> char_count name \<and> char_count name \<le> 25) \<or> \<not> (2 \<le> length name \<and> length name \<le> 100)
      then Inl (native_text ''toon name must contain 2..=25 characters and 2..=100 UTF-8 bytes'')
      else record_bytes TOON_SELECT_COMMAND TOON_SLOT (seqM
        [write_bits (of_nat (length name - 2)) 7, write_bytes name True, write_generated_checksum 10 2,
         write_bits (ucast realm) 32]))"

definition club_invite_answer :: "u32 \<Rightarrow> u32 \<Rightarrow> u8 \<Rightarrow> bytes result" where
  "club_invite_answer program club code =
     record_bytes S2_MULTIPLAYER_INVITE_ACTION_COMMAND S2_MULTIPLAYER_SLOT (seqM
       [write_bits (ucast code) 2, write_bits (ucast program) 32, write_bits 0 8, write_bits 0 32, write_bits 0 64,
        write_bits (ucast club) 32, write_bits 4 11, write_bits 0 16])"

fun write_whisper_target :: "whisper_target \<Rightarrow> (writer, unit) op" where
  "write_whisper_target (ToPresence i) = seqM [write_bits 0 3, write_bits (ucast i) 32]"
| "write_whisper_target (ToAccount i) = seqM [write_bits 3 3, write_bits (ucast i) 32]"
| "write_whisper_target (ToWarcraftAccount _) = fail (native_text ''WC3 whisper target cannot be encoded by StarCraft II'')"
| "write_whisper_target (ToToonHandle h) = seqM
     [write_bits 5 3, write_bits (ucast (th_program_id h)) 32, write_bits (ucast (th_region h)) 8,
      write_bits (ucast (th_realm h)) 32, write_bits (th_id h) 64]"
| "write_whisper_target (ToToonName n) =
     (if \<not> (2 \<le> length (tn_name n) \<and> length (tn_name n) \<le> 100)
      then fail (native_text ''whisper toon name must contain between 2 and 100 UTF-8 bytes'')
      else seqM
        [write_bits 1 3, write_bits (ucast (tn_region n)) 8, write_bits (ucast (tn_program_id n)) 32,
         write_bits (ucast (tn_realm n)) 32, write_bits (of_nat (length (tn_name n) - 2)) 7,
         write_bytes (tn_name n) True])"
| "write_whisper_target (ToName _) = fail (native_text ''whisper target has no resolved Battle.net identity'')"

definition send_whisper :: "whisper_target \<Rightarrow> bytes \<Rightarrow> bytes result" where
  "send_whisper target body =
     record_bytes CHAT_WHISPER_SEND_COMMAND CHAT_SLOT
       (seqM [write_whisper_target target, encode_generated_utf8 body 10 1020 255])"

definition club_subscribe :: "u32 \<Rightarrow> toon_handle \<Rightarrow> bytes result" where
  "club_subscribe token handle =
     record_bytes S2_MULTIPLAYER_GET_TOON_CLUBS_COMMAND S2_MULTIPLAYER_SLOT (seqM
       [write_bits (ucast token) 32, write_bits (ucast (th_program_id handle)) 32, write_bits (ucast (th_region handle)) 8,
        write_bits (ucast (th_realm handle)) 32, write_bits (th_id handle) 64])"

section \<open>Answers\<close>

text \<open>A reply without a service slot.\<close>

definition command_response_bytes :: "u8 \<Rightarrow> u16 \<Rightarrow> bytes \<Rightarrow> bytes result" where
  "command_response_bytes command code body =
     (case bindM (seqM
             [write_bits (ucast command) 6, write_bits 0 1, write_bits (ucast code) 9,
              if body \<noteq> [] then write_bytes body False else ret ()]) (\<lambda>_. writer_align) writer_new of
        (Inl e, _) \<Rightarrow> Inl e
      | (Inr _, w) \<Rightarrow> Inr (into_bytes w))"

definition write_member_counts :: "(u32 \<times> u16 \<times> bool) list \<Rightarrow> bool \<Rightarrow> (writer, unit) op" where
  "write_member_counts entries is_last = seqM
     [write_bits (flag is_last) 1, write_bits 0 27, write_bits 0 1, write_bits (count_u64 (length entries)) 6,
      loopM entries (\<lambda>(conference, members, full) _. seqM
        [write_bits 0 23, write_bits (ucast conference) 32, write_bits (ucast members) 16, write_bits (flag full) 1]) ()]"

definition conference_member_counts_response :: "(u32 \<times> u16 \<times> bool) list \<Rightarrow> bool \<Rightarrow> bytes result" where
  "conference_member_counts_response entries is_last =
     record_bytes CHAT_CONFERENCE_MEMBER_COUNTS_COMMAND CHAT_SLOT (write_member_counts entries is_last)"

definition conference_descriptions_response :: "bool \<Rightarrow> bytes result" where
  "conference_descriptions_response is_last =
     record_bytes CHAT_CONFERENCE_DESCRIPTIONS_COMMAND CHAT_SLOT (seqM [write_bits (flag is_last) 1, write_bits 0 6])"

definition write_channels :: "(u8 \<times> u16 \<times> u16) list \<Rightarrow> (writer, unit) op" where
  "write_channels entries = seqM
     [write_bits 0 27, write_bits 0 1, write_bits 0 9, write_bits (count_u64 (length entries)) 6,
      loopM entries (\<lambda>(knd, index, identifier) _. seqM
        [write_bits (ucast knd) 8, write_bits (ucast index) 16, write_bits 0 24, write_bits (ucast identifier) 16]) ()]"

definition channel_list_response :: "(u8 \<times> u16 \<times> u16) list \<Rightarrow> bytes result" where
  "channel_list_response entries = record_bytes CHAT_CHANNEL_LIST_RESPONSE_COMMAND CHAT_SLOT (write_channels entries)"

definition write_join_result :: "u8 \<Rightarrow> u32 \<Rightarrow> u8 \<Rightarrow> (writer, unit) op" where
  "write_join_result channel_index member_handle channel_type = seqM
     [write_bits 0 1, write_bits (ucast member_handle) 32, write_bits (ucast channel_index) 3, write_bits 0 32,
      write_bits 0 32, write_bits (ucast channel_type) 4, write_bits 0 1, write_bits 0 1, write_bits 0 1, write_bits 0 1]"

definition chat_join_result :: "u8 \<Rightarrow> u32 \<Rightarrow> u8 \<Rightarrow> bytes result" where
  "chat_join_result channel_index member_handle channel_type =
     (if \<not> channel_index_ok channel_index then Inl channel_index_error
      else record_bytes CHAT_JOIN_NOTIFY_COMMAND CHAT_SLOT (write_join_result channel_index member_handle channel_type))"

definition write_membership :: "u8 \<Rightarrow> (u32 \<times> u32) list \<Rightarrow> bool \<Rightarrow> (writer, unit) op" where
  "write_membership channel_index members end_of_initial = seqM
     [write_bits (flag end_of_initial) 1, write_bits (ucast channel_index) 3,
      write_bits (count_u64 (length members - 1)) 6,
      loopM members (\<lambda>(member_handle, presence) _. seqM
        [write_bits 1 2, write_bits (ucast member_handle) 32, write_bits (ucast presence) 32, write_bits 0 3]) ()]"

definition chat_membership_response :: "u8 \<Rightarrow> (u32 \<times> u32) list \<Rightarrow> bool \<Rightarrow> bytes result" where
  "chat_membership_response channel_index members end_of_initial =
     (if \<not> channel_index_ok channel_index then Inl channel_index_error
      else if members = [] then Inl (native_text ''chat membership must carry at least one member'')
      else record_bytes CHAT_MEMBERSHIP_COMMAND CHAT_SLOT (write_membership channel_index members end_of_initial))"

definition write_stream_items :: "u32 \<Rightarrow> (32 word \<times> bytes) list \<Rightarrow> (writer, unit) op" where
  "write_stream_items token items = seqM
     [write_bits (count_u64 (length items)) 6,
      loopM items (\<lambda>(time, handle) _. seqM
        [write_bits 0 23, write_bytes handle True, write_bits (ucast time) 32]) (),
      write_bits (ucast token) 32, write_bits (count_u64 (length items)) 16, write_bits 0 16]"

definition cache_stream_items_response :: "u32 \<Rightarrow> (32 word \<times> bytes) list \<Rightarrow> bytes result" where
  "cache_stream_items_response token items =
     record_bytes CACHE_GET_STREAM_ITEMS_COMMAND CACHE_SLOT (write_stream_items token items)"

definition write_season :: "bool \<Rightarrow> (writer, unit) op" where
  "write_season authority = seqM
     [write_bits 0 1, write_bits (flag authority) 1, write_bits 0 7, write_bits 0 9,
      write_bits 0 32, write_bits 0 10, write_bits 0 1, write_bits 0 16, write_bits 0 1, write_bits 0 32,
      write_bits 0 16, write_bits 0 16, write_bits 0 25, write_bits 0 1, write_bits 0 1, write_bits 0 1,
      write_bits 0 64, write_bits 0 9]"

definition current_season_response :: "bool \<Rightarrow> bytes result" where
  "current_season_response authority =
     record_bytes S2_MASTER_CURRENT_SEASON_COMMAND S2_MASTER_SLOT (write_season authority)"

definition write_presence_update :: "u32 \<Rightarrow> u32 \<Rightarrow> bool \<Rightarrow> (writer, unit) op" where
  "write_presence_update presence handle online = seqM
     [write_bits 0 19, write_bits (flag (\<not> online)) 1, write_bits (ucast presence) 32, write_bits (ucast presence) 32,
      write_bits 0 11, write_bytes [] True, write_bits 0 11, write_bits 0 4, write_bits 1 4,
      write_bits (ucast handle) 32, write_bits 0 4, write_bits 0 1, write_bits 0 8]"

definition presence_update_response :: "u32 \<Rightarrow> u32 \<Rightarrow> bool \<Rightarrow> bytes result" where
  "presence_update_response presence handle online =
     record_bytes PRESENCE_UPDATE_COMMAND PRESENCE_SLOT (write_presence_update presence handle online)"

definition write_presence_field :: "presence_field \<Rightarrow> (writer, unit) op" where
  "write_presence_field f = seqM
     [write_bits (flag (flag_set (pf_flags f) FLAG_CLIENT_ONLY)) 1,
      write_bits (flag (flag_set (pf_flags f) FLAG_WRITABLE)) 1,
      write_bits (flag (flag_set (pf_flags f) FLAG_EPHEMERAL)) 1,
      (case pf_fixed_size f of None \<Rightarrow> write_bits 1 1 | Some n \<Rightarrow> seqM [write_bits 0 1, write_bits (ucast n) 16]),
      write_bits (flag (flag_set (pf_flags f) FLAG_SERVER_ONLY)) 1,
      write_bits (ucast (pf_identifier f)) 8, write_bits (ucast (pf_handle f)) 32]"

definition write_presence_fields :: "presence_field list \<Rightarrow> (writer, unit) op" where
  "write_presence_fields entries =
     seqM [write_bits (count_u64 (length entries)) 7, loopM entries (\<lambda>f _. write_presence_field f) ()]"

definition presence_fields_response :: "presence_field list \<Rightarrow> bytes result" where
  "presence_fields_response entries =
     (if length entries > 100 then Inl (native_text ''presence announcement contains too many field definitions'')
      else record_bytes PRESENCE_FIELDS_COMMAND PRESENCE_SLOT (write_presence_fields entries))"

definition write_club_settings :: "(writer, unit) op" where
  "write_club_settings = seqM
     [encode_generated_utf8 [] 13 4096 1024, encode_generated_utf8 [] 13 4096 1024, write_bits 0 32, write_bits 0 32,
      write_bits 0 32, write_bits 0 32, write_bits 0 32]"

definition club_settings_response :: "bytes result" where
  "club_settings_response = record_bytes S2_MULTIPLAYER_CLUB_SETTINGS_COMMAND S2_MULTIPLAYER_SLOT write_club_settings"

definition friends_list_response :: "bytes result" where
  "friends_list_response = record_bytes FRIENDS_LIST_COMMAND FRIENDS_SLOT (seqM [write_bits 0 1, write_bits 0 7])"

end
