(* ===== verification/Native_Crypto.thy ===== *)
theory Native_Crypto
  imports Wire_Prelude
begin

text \<open>
  The keys and proofs of the native StarCraft II connection (\<open>core/src/games/sc2/native/crypto.rs\<close>).  HMAC-SHA256,
  RC4 and the RSA thumbprint check are library code and arguments here, the record \<open>suite\<close>; what the
  program relies on about them is \<open>lawful_suite\<close>.  Random nonces are arguments, absent when the
  operating system fails to deliver one.
\<close>

section \<open>Primitives\<close>

record 'k suite =
  hmac :: "bytes \<Rightarrow> bytes \<Rightarrow> bytes option"
  rc4_key :: "bytes \<Rightarrow> 'k option"
  rc4_apply :: "'k \<Rightarrow> bytes \<Rightarrow> bytes \<times> 'k"
  thumbprint_ok :: "bytes \<Rightarrow> bytes \<Rightarrow> bool"

abbreviation native_error :: "native_reason \<Rightarrow> 'a result" where
  "native_error r \<equiv> Inl (Native r)"

text \<open>\<open>Rc4State::new\<close>\<close>

definition rc4_new :: "'k suite \<Rightarrow> bytes \<Rightarrow> 'k result" where
  "rc4_new S key = ok_or (Native Rc4KeyLength) (rc4_key S key)"

text \<open>The digest is fed part by part, which is the digest of the parts in a row.\<close>

definition hmac_sha256 :: "'k suite \<Rightarrow> bytes \<Rightarrow> bytes list \<Rightarrow> bytes result" where
  "hmac_sha256 S key parts = ok_or (Native HmacKeyRejected) (hmac S key (concat parts))"

definition require_length :: "bytes \<Rightarrow> nat \<Rightarrow> unit result" where
  "require_length val expected =
     (if length val = expected then Inr () else native_error (LengthIs (length val) expected))"

section \<open>Key derivation\<close>

definition INBOUND_RC4_LABEL :: bytes where
  "INBOUND_RC4_LABEL =
     [0x68, 0xE0, 0xC7, 0x2E, 0xDD, 0xD6, 0xD2, 0xF3, 0x1E, 0x5A, 0xB1, 0x55, 0xB1, 0x8B, 0x63, 0x1E]"

definition OUTBOUND_RC4_LABEL :: bytes where
  "OUTBOUND_RC4_LABEL =
     [0xDE, 0xA9, 0x65, 0xAE, 0x54, 0x3A, 0x1E, 0x93, 0x9E, 0x69, 0x0C, 0xAA, 0x68, 0xDE, 0x78, 0x39]"

definition transport_kdf64 :: "'k suite \<Rightarrow> bytes \<Rightarrow> u8 \<Rightarrow> bytes \<Rightarrow> bytes \<Rightarrow> bytes result" where
  "transport_kdf64 S key domain first_context second_context =
     rbind (require_length key 64) (\<lambda>_.
     rbind (require_length first_context 16) (\<lambda>_.
     rbind (require_length second_context 16) (\<lambda>_.
     rbind (hmac_sha256 S key [[domain], first_context, second_context]) (\<lambda>first.
     rbind (hmac_sha256 S key [[domain], second_context, first_context, [domain]]) (\<lambda>second.
     Inr (first @ second))))))"

definition derive_session_auth_key :: "'k suite \<Rightarrow> bytes \<Rightarrow> bytes \<Rightarrow> bytes \<Rightarrow> bytes result" where
  "derive_session_auth_key S session_seed client_nonce server_nonce =
     rbind (require_length session_seed 64) (\<lambda>_.
     rbind (require_length client_nonce 16) (\<lambda>_.
     rbind (require_length server_nonce 16) (\<lambda>_.
     rbind (hmac_sha256 S session_seed [[0], client_nonce, server_nonce]) (\<lambda>first.
     rbind (hmac_sha256 S session_seed [[1], server_nonce, client_nonce]) (\<lambda>second.
     Inr (first @ second))))))"

definition derive_transport_rc4_keys :: "'k suite \<Rightarrow> bytes \<Rightarrow> (bytes \<times> bytes) result" where
  "derive_transport_rc4_keys S protected_secret =
     rbind (require_length protected_secret 64) (\<lambda>_.
     rbind (hmac_sha256 S protected_secret [INBOUND_RC4_LABEL]) (\<lambda>inbound.
     rbind (hmac_sha256 S protected_secret [OUTBOUND_RC4_LABEL]) (\<lambda>outbound.
     Inr (inbound, outbound))))"

section \<open>The transport handshake\<close>

record transport_handshake =
  client_context :: bytes
  server_context :: bytes
  response :: bytes
  protected_secret :: bytes

definition build_transport_handshake_with_nonce ::
    "'k suite \<Rightarrow> bytes \<Rightarrow> bytes \<Rightarrow> bytes \<Rightarrow> transport_handshake result" where
  "build_transport_handshake_with_nonce S transport_key server_ctx client_ctx =
     rbind (require_length transport_key 64) (\<lambda>_.
     rbind (require_length server_ctx 16) (\<lambda>_.
     rbind (transport_kdf64 S transport_key 0 client_ctx server_ctx) (\<lambda>negotiation.
     let next_context = slice_of negotiation 32 48 in
     rbind (transport_kdf64 S transport_key 2 next_context server_ctx) (\<lambda>secret.
     Inr \<lparr>client_context = client_ctx, server_context = server_ctx,
          response = next_context @ slice_of negotiation 0 32, protected_secret = secret\<rparr>))))"

definition build_transport_handshake ::
    "'k suite \<Rightarrow> bytes option \<Rightarrow> bytes \<Rightarrow> bytes \<Rightarrow> transport_handshake result" where
  "build_transport_handshake S random transport_key server_ctx =
     rbind (ok_or (Native NonceGenerationFailed) random)
       (build_transport_handshake_with_nonce S transport_key server_ctx)"

section \<open>The session proof\<close>

record session_proof =
  proof_output :: bytes
  client_nonce :: bytes
  server_nonce :: bytes
  transport_key :: bytes
  expected_server_proof :: bytes

definition build_session_proof_with_nonce ::
    "'k suite \<Rightarrow> bytes \<Rightarrow> bytes \<Rightarrow> bytes \<Rightarrow> session_proof result" where
  "build_session_proof_with_nonce S session_seed srv_nonce cli_nonce =
     rbind (require_length session_seed 64) (\<lambda>_.
     rbind (require_length srv_nonce 16) (\<lambda>_.
     rbind (derive_session_auth_key S session_seed cli_nonce srv_nonce) (\<lambda>key.
     rbind (hmac_sha256 S key [[0], cli_nonce, srv_nonce]) (\<lambda>client_proof.
     rbind (hmac_sha256 S key [[1], srv_nonce, cli_nonce]) (\<lambda>server_proof.
     Inr \<lparr>proof_output = 1 # cli_nonce @ client_proof, client_nonce = cli_nonce, server_nonce = srv_nonce,
          transport_key = key, expected_server_proof = server_proof\<rparr>)))))"

definition build_session_proof :: "'k suite \<Rightarrow> bytes option \<Rightarrow> bytes \<Rightarrow> bytes \<Rightarrow> session_proof result" where
  "build_session_proof S random session_seed srv_nonce =
     rbind (ok_or (Native NonceGenerationFailed) random) (build_session_proof_with_nonce S session_seed srv_nonce)"

record server_session_proof =
  ssp_server_proof :: bytes
  ssp_transport_key :: bytes

definition verify_client_session_proof ::
    "'k suite \<Rightarrow> bytes \<Rightarrow> bytes \<Rightarrow> bytes \<Rightarrow> server_session_proof result" where
  "verify_client_session_proof S session_seed srv_nonce client_output =
     rbind (require_length session_seed 64) (\<lambda>_.
     if length client_output \<noteq> 49 \<or> client_output ! 0 \<noteq> 1 then native_error NotPhaseOneResponse
     else
       let cli_nonce = slice_of client_output 1 17; client_proof = slice_of client_output 17 49 in
       rbind (derive_session_auth_key S session_seed cli_nonce srv_nonce) (\<lambda>key.
       rbind (hmac_sha256 S key [[0], cli_nonce, srv_nonce]) (\<lambda>expected.
       if expected \<noteq> client_proof then native_error ClientProofFailed
       else rbind (hmac_sha256 S key [[1], srv_nonce, cli_nonce]) (\<lambda>server_proof.
            Inr \<lparr>ssp_server_proof = server_proof, ssp_transport_key = key\<rparr>))))"

text \<open>\<open>verify_thumbprint_proof\<close>: the lengths, then the signature check of the RSA library.\<close>

definition verify_thumbprint_proof :: "'k suite \<Rightarrow> bytes \<Rightarrow> bytes \<Rightarrow> bool" where
  "verify_thumbprint_proof S ctx signature \<longleftrightarrow>
     length ctx = 16 \<and> length signature = 512 \<and> thumbprint_ok S ctx signature"

section \<open>What the program relies on\<close>

text \<open>
  The documented behaviour of the libraries: HMAC takes any key and yields 32 bytes; RC4 takes keys
  of 1 to 256 bytes; a stream cipher keeps lengths, may be applied in pieces, advances with the length
  of the data only, and undoes itself from the same state.
\<close>

definition lawful_mac :: "'k suite \<Rightarrow> bool" where
  "lawful_mac S \<longleftrightarrow> (\<forall>key msg. \<exists>d. hmac S key msg = Some d \<and> length d = 32)"

definition lawful_cipher :: "'k suite \<Rightarrow> bool" where
  "lawful_cipher S \<longleftrightarrow>
     (\<forall>key. 1 \<le> length key \<and> length key \<le> 256 \<longrightarrow> rc4_key S key \<noteq> None)
     \<and> (\<forall>k a b. rc4_apply S k (a @ b) =
          (fst (rc4_apply S k a) @ fst (rc4_apply S (snd (rc4_apply S k a)) b), snd (rc4_apply S (snd (rc4_apply S k a)) b)))
     \<and> (\<forall>k a. length (fst (rc4_apply S k a)) = length a)
     \<and> (\<forall>k a b. length a = length b \<longrightarrow> snd (rc4_apply S k a) = snd (rc4_apply S k b))
     \<and> (\<forall>k a. fst (rc4_apply S k (fst (rc4_apply S k a))) = a)"

definition lawful_suite :: "'k suite \<Rightarrow> bool" where
  "lawful_suite S \<longleftrightarrow> lawful_mac S \<and> lawful_cipher S"

lemma require_length_iff [simp]:
  "require_length val n = Inr u \<longleftrightarrow> length val = n"
  "require_length val n = Inl e \<longleftrightarrow> length val \<noteq> n \<and> e = Native (LengthIs (length val) n)"
  by (auto simp: require_length_def)

lemma require_length_ok [simp]: "length val = n \<Longrightarrow> require_length val n = Inr ()"
  by (simp add: require_length_def)

lemma hmac_sha256_ok: "lawful_mac S \<Longrightarrow> \<exists>d. hmac_sha256 S key parts = Inr d \<and> length d = 32"
  unfolding lawful_mac_def hmac_sha256_def by (metis ok_or_simps(1))

lemma hmac_sha256_length: "lawful_mac S \<Longrightarrow> hmac_sha256 S key parts = Inr d \<Longrightarrow> length d = 32"
  using hmac_sha256_ok[of S key parts] by auto

lemma derive_session_auth_key_ok:
  assumes "lawful_mac S" and "length session_seed = 64" and "length cli = 16" and "length srv = 16"
  shows "\<exists>key. derive_session_auth_key S session_seed cli srv = Inr key \<and> length key = 64"
proof -
  obtain a b where "hmac_sha256 S session_seed [[0], cli, srv] = Inr a" "length a = 32"
      "hmac_sha256 S session_seed [[1], srv, cli] = Inr b" "length b = 32"
    using hmac_sha256_ok[OF assms(1)] by meson
  then show ?thesis
    using assms(2-4) by (simp add: derive_session_auth_key_def)
qed

section \<open>Both sides of the proof\<close>

text \<open>What a client with the seed builds is what a server with the seed accepts, and they end with the same key.\<close>

lemma session_proof_accepted:
  assumes "lawful_mac S" and "build_session_proof_with_nonce S session_seed srv cli = Inr p"
  shows "verify_client_session_proof S session_seed srv (proof_output p) =
    Inr \<lparr>ssp_server_proof = expected_server_proof p, ssp_transport_key = transport_key p\<rparr>"
proof -
  have cli: "length cli = 16"
    using assms(2) by (auto simp: build_session_proof_with_nonce_def derive_session_auth_key_def rbind_Inr_iff)
  obtain client_proof where d: "length session_seed = 64" "length srv = 16"
      "derive_session_auth_key S session_seed cli srv = Inr (transport_key p)"
      "hmac_sha256 S (transport_key p) [[0], cli, srv] = Inr client_proof"
      "hmac_sha256 S (transport_key p) [[1], srv, cli] = Inr (expected_server_proof p)"
      "proof_output p = 1 # cli @ client_proof"
    using assms(2) by (auto simp: build_session_proof_with_nonce_def rbind_Inr_iff)
  moreover have "length client_proof = 32"
    using hmac_sha256_length[OF assms(1) d(4)] .
  moreover have "slice_of (1 # cli @ client_proof) 1 17 = cli" "slice_of (1 # cli @ client_proof) 17 49 = client_proof"
    using cli calculation(7) by (simp_all add: slice_of_def)
  ultimately show ?thesis
    using cli by (simp add: verify_client_session_proof_def Let_def)
qed

text \<open>And the server accepts nothing else.\<close>

lemma verify_accepts:
  assumes "verify_client_session_proof S session_seed srv out = Inr q"
  shows "\<exists>p. build_session_proof_with_nonce S session_seed srv (slice_of out 1 17) = Inr p \<and> proof_output p = out
    \<and> ssp_transport_key q = transport_key p \<and> ssp_server_proof q = expected_server_proof p"
proof -
  have out: "length out = 49" "out ! 0 = 1" "length session_seed = 64"
    using assms by (auto simp: verify_client_session_proof_def Let_def rbind_Inr_iff split: if_split_asm)
  obtain key proof_bytes where k: "derive_session_auth_key S session_seed (slice_of out 1 17) srv = Inr key"
      "hmac_sha256 S key [[0], slice_of out 1 17, srv] = Inr (slice_of out 17 49)"
      "hmac_sha256 S key [[1], srv, slice_of out 1 17] = Inr proof_bytes"
      "q = \<lparr>ssp_server_proof = proof_bytes, ssp_transport_key = key\<rparr>"
    using assms out by (auto simp: verify_client_session_proof_def Let_def rbind_Inr_iff split: if_split_asm)
  have srv: "length srv = 16"
    using k(1) by (auto simp: derive_session_auth_key_def rbind_Inr_iff)
  have "1 # slice_of out 1 17 @ slice_of out 17 49 = out"
  proof (rule nth_equalityI)
    show "length (1 # slice_of out 1 17 @ slice_of out 17 49) = length out"
      using out(1) by simp
    show "(1 # slice_of out 1 17 @ slice_of out 17 49) ! i = out ! i" if "i < length (1 # slice_of out 1 17 @ slice_of out 17 49)" for i
      using that out(1,2) by (cases i) (auto simp: slice_of_def nth_append)
  qed
  then show ?thesis
    using k out srv by (simp add: build_session_proof_with_nonce_def)
qed

end
