(* ===== verification/Native_Auth.thy ===== *)
theory Native_Auth
  imports Native_Crypto Values
begin

text \<open>
  The two checks of the native logon (\<open>core/src/games/sc2/native/auth.rs\<close>): the answer to the proof request of the
  server, and the validation of its final proof.  Both take values the codec has decoded.
\<close>

section \<open>Access to values\<close>

text \<open>A struct value is its field list here.\<close>

definition require_field :: "bsn_field list \<Rightarrow> bytes \<Rightarrow> bsn_value result" where
  "require_field fs name = ok_or (Native (StructLacks name)) (struct_get fs name)"

fun transparent :: "bsn_value \<Rightarrow> bsn_value" where
  "transparent (Optional (Some v)) = transparent v"
| "transparent v = v"

definition expect_struct :: "bsn_value \<Rightarrow> bsn_field list result" where
  "expect_struct v = ok_or (Native (ExpectedNative LStruct)) (map_option snd (as_struct (transparent v)))"

definition expect_array :: "bsn_value \<Rightarrow> bsn_value list result" where
  "expect_array v = (case transparent v of Array vs \<Rightarrow> Inr vs | _ \<Rightarrow> native_error (ExpectedNative LArray))"

definition expect_bytes :: "bsn_value \<Rightarrow> bytes result" where
  "expect_bytes v = (case transparent v of Bytes bs \<Rightarrow> Inr bs | _ \<Rightarrow> native_error (ExpectedNative LBytes))"

definition expect_integer :: "bsn_value \<Rightarrow> int result" where
  "expect_integer v = (case transparent v of Integer i \<Rightarrow> Inr i | _ \<Rightarrow> native_error (ExpectedNative LInteger))"

definition expect_choice :: "bsn_value \<Rightarrow> (int \<times> bsn_value) result" where
  "expect_choice v = (case transparent v of Choice i w \<Rightarrow> Inr (i, w) | _ \<Rightarrow> native_error (ExpectedNative LChoice))"

definition require_integer :: "bsn_field list \<Rightarrow> bytes \<Rightarrow> int result" where
  "require_integer fs name = rbind (require_field fs name) expect_integer"

lemma transparent_idem [simp]: "transparent (transparent v) = transparent v"
  by (induction v rule: transparent.induct) simp_all

lemma expect_simps [simp]:
  "expect_struct (Struct tid fs) = Inr fs" "expect_array (Array vs) = Inr vs" "expect_bytes (Bytes bs) = Inr bs"
  "expect_integer (Integer i) = Inr i" "expect_choice (Choice i w) = Inr (i, w)"
  "expect_struct (Optional (Some v)) = expect_struct v" "expect_array (Optional (Some v)) = expect_array v"
  "expect_bytes (Optional (Some v)) = expect_bytes v" "expect_integer (Optional (Some v)) = expect_integer v"
  "expect_choice (Optional (Some v)) = expect_choice v"
  by (simp_all add: expect_struct_def expect_array_def expect_bytes_def expect_integer_def expect_choice_def)

section \<open>Modules\<close>

definition MODULE_USAGE :: bytes where
  "MODULE_USAGE = ascii ''auth'' @ [0, 0, 0, 0]"

definition SESSION_MODULE_HASH :: bytes where
  "SESSION_MODULE_HASH =
     [0x89, 0x50, 0x05, 0x34, 0x0A, 0x63, 0x0A, 0x64, 0x65, 0xA6, 0x5F, 0xEC, 0x96, 0x32, 0x3C, 0x31,
      0x0B, 0xCA, 0x8A, 0x9F, 0x66, 0xEC, 0xEE, 0xB1, 0x88, 0x7A, 0x9D, 0x6C, 0x0E, 0x67, 0x61, 0x2E]"

definition THUMBPRINT_MODULE_HASH :: bytes where
  "THUMBPRINT_MODULE_HASH =
     [0xD7, 0xE6, 0x62, 0x40, 0x80, 0xC1, 0xAB, 0xA6, 0x6D, 0xEE, 0x63, 0xA6, 0xF3, 0x92, 0x8D, 0x8A,
      0x54, 0x69, 0x25, 0x7F, 0x58, 0x20, 0xB5, 0x72, 0x1F, 0xB8, 0xC3, 0x2B, 0x6B, 0x5B, 0xEF, 0x5D]"

definition module_id :: "bytes \<Rightarrow> bytes" where
  "module_id hash = MODULE_USAGE @ hash"

definition SESSION_PROOF_MODULE_ID :: bytes where
  "SESSION_PROOF_MODULE_ID = module_id SESSION_MODULE_HASH"

definition THUMBPRINT_MODULE_ID :: bytes where
  "THUMBPRINT_MODULE_ID = module_id THUMBPRINT_MODULE_HASH"

lemma modules_differ [simp]:
  "SESSION_PROOF_MODULE_ID \<noteq> THUMBPRINT_MODULE_ID" "THUMBPRINT_MODULE_ID \<noteq> SESSION_PROOF_MODULE_ID"
  by (simp_all add: SESSION_PROOF_MODULE_ID_def THUMBPRINT_MODULE_ID_def module_id_def SESSION_MODULE_HASH_def
      THUMBPRINT_MODULE_HASH_def)

section \<open>The proof request\<close>

record proof_answer =
  outputs :: "bytes list"
  session :: session_proof

text \<open>The variables of the loop over the modules, and one turn of it.\<close>

record proof_scan =
  saw_thumbprint :: bool
  saw_session :: bool
  scan_outputs :: "bytes list"
  scan_session :: "session_proof option"

definition scan_new :: proof_scan where
  "scan_new = \<lparr>saw_thumbprint = False, saw_session = False, scan_outputs = [], scan_session = None\<rparr>"

definition scan_module :: "'k suite \<Rightarrow> bytes option \<Rightarrow> bytes \<Rightarrow> bytes \<Rightarrow> bsn_value \<Rightarrow> proof_scan \<Rightarrow> proof_scan result" where
  "scan_module S random session_seed ctx v s =
     rbind (expect_struct v) (\<lambda>module.
     rbind (rbind (require_field module (ascii ''m_id'')) expect_bytes) (\<lambda>identifier.
     rbind (rbind (require_field module (ascii ''m_data'')) expect_bytes) (\<lambda>data.
     if identifier = THUMBPRINT_MODULE_ID then
       if saw_thumbprint s then native_error RepeatedThumbprint
       else if \<not> verify_thumbprint_proof S ctx data then native_error ThumbprintFailed
       else Inr (s\<lparr>saw_thumbprint := True\<rparr>)
     else if identifier = SESSION_PROOF_MODULE_ID then
       if saw_session s then native_error RepeatedSessionModule
       else if length data \<noteq> 17 \<or> data ! 0 \<noteq> 0 then native_error UnsupportedProofPhase
       else rbind (build_session_proof S random session_seed (tl data)) (\<lambda>p.
            Inr (s\<lparr>saw_session := True, scan_outputs := scan_outputs s @ [proof_output p], scan_session := Some p\<rparr>))
     else native_error UnknownAuthModule)))"

fun scan_modules :: "'k suite \<Rightarrow> bytes option \<Rightarrow> bytes \<Rightarrow> bytes \<Rightarrow> bsn_value list \<Rightarrow> proof_scan \<Rightarrow> proof_scan result" where
  "scan_modules S random session_seed ctx [] s = Inr s"
| "scan_modules S random session_seed ctx (v # vs) s =
     rbind (scan_module S random session_seed ctx v s) (scan_modules S random session_seed ctx vs)"

definition answer_proof_request ::
    "'k suite \<Rightarrow> bytes option \<Rightarrow> bsn_field list \<Rightarrow> bytes \<Rightarrow> bytes \<Rightarrow> proof_answer result" where
  "answer_proof_request S random request session_seed ctx =
     rbind (rbind (require_field request (ascii ''m_request'')) expect_array) (\<lambda>modules.
     rbind (scan_modules S random session_seed ctx modules scan_new) (\<lambda>s.
     if \<not> saw_thumbprint s \<or> \<not> saw_session s then native_error MissingAuthModule
     else rbind (ok_or (Panic ExpectFailed) (scan_session s)) (\<lambda>p.
          Inr \<lparr>outputs = scan_outputs s, session = p\<rparr>)))"

section \<open>The final proof\<close>

text \<open>The \<open>let\<close> chain that looks for the detail of a refusal.\<close>

definition resume_failure :: "bsn_value \<Rightarrow> bsn_field list option" where
  "resume_failure v =
     (case expect_struct v of
        Inr failure \<Rightarrow>
          (case struct_get failure (ascii ''m_result'') of
             Some res \<Rightarrow>
               (case expect_choice res of
                  Inr (i, detail) \<Rightarrow>
                    if i = 1 then (case expect_struct detail of Inr fs \<Rightarrow> Some fs | Inl _ \<Rightarrow> None) else None
                | Inl _ \<Rightarrow> None)
           | None \<Rightarrow> None)
      | Inl _ \<Rightarrow> None)"

definition resume_rejection :: "int \<Rightarrow> bsn_value \<Rightarrow> error" where
  "resume_rejection outer_index outer =
     (case if outer_index = 1 then resume_failure outer else None of
        Some detail \<Rightarrow>
          (case rbind (require_integer detail (ascii ''m_error'')) (\<lambda>code.
                 rbind (require_integer detail (ascii ''m_wait'')) (\<lambda>wait. Inr (code, wait))) of
             Inl e \<Rightarrow> e
           | Inr (code, wait) \<Rightarrow> NativeResumeRejected code wait)
      | None \<Rightarrow> Native (ResumeRejected outer_index))"

definition validate_resume_server_proof :: "bsn_field list \<Rightarrow> session_proof \<Rightarrow> unit result" where
  "validate_resume_server_proof resume p =
     rbind (rbind (require_field resume (ascii ''m_result'')) expect_choice) (\<lambda>(outer_index, outer).
     if outer_index \<noteq> 0 then Inl (resume_rejection outer_index outer)
     else
       rbind (expect_struct outer) (\<lambda>success.
       rbind (rbind (require_field success (ascii ''ResponseSuccessCommon'')) expect_struct) (\<lambda>common.
       rbind (rbind (require_field common (ascii ''m_finalRequest'')) expect_array) (\<lambda>modules.
       if length modules \<noteq> 1 then native_error FinalModuleSet
       else
         rbind (expect_struct (modules ! 0)) (\<lambda>module.
         rbind (rbind (require_field module (ascii ''m_id'')) expect_bytes) (\<lambda>identifier.
         rbind (rbind (require_field module (ascii ''m_data'')) expect_bytes) (\<lambda>data.
         if identifier \<noteq> SESSION_PROOF_MODULE_ID then native_error UnknownFinalModule
         else if length data \<noteq> 33 \<or> data ! 0 \<noteq> 2 then native_error InvalidProofPhase
         else if tl data \<noteq> expected_server_proof p then native_error ServerProofFailed
         else Inr ())))))))"

definition native_server_error :: "bsn_field list \<Rightarrow> error result" where
  "native_server_error record = rbind (require_integer record (ascii ''m_error'')) (\<lambda>code. Inr (NativeServerRejected code))"

section \<open>What the checks promise\<close>

text \<open>The modules of a request that was answered.\<close>

definition module_parts :: "bsn_value \<Rightarrow> (bytes \<times> bytes) option" where
  "module_parts v =
     (case rbind (expect_struct v) (\<lambda>m.
        rbind (rbind (require_field m (ascii ''m_id'')) expect_bytes) (\<lambda>i.
        rbind (rbind (require_field m (ascii ''m_data'')) expect_bytes) (\<lambda>d. Inr (i, d)))) of
        Inl _ \<Rightarrow> None | Inr x \<Rightarrow> Some x)"

lemma scan_module_parts:
  assumes "scan_module S random session_seed ctx v s = Inr s'"
  shows "(\<exists>d. module_parts v = Some (THUMBPRINT_MODULE_ID, d) \<and> \<not> saw_thumbprint s
        \<and> verify_thumbprint_proof S ctx d \<and> s' = s\<lparr>saw_thumbprint := True\<rparr>)
    \<or> (\<exists>srv p. module_parts v = Some (SESSION_PROOF_MODULE_ID, 0 # srv) \<and> \<not> saw_session s \<and> length srv = 16
        \<and> build_session_proof S random session_seed srv = Inr p
        \<and> s' = s\<lparr>saw_session := True, scan_outputs := scan_outputs s @ [proof_output p], scan_session := Some p\<rparr>)"
proof -
  obtain m i d where v: "expect_struct v = Inr m" "rbind (require_field m (ascii ''m_id'')) expect_bytes = Inr i"
      "rbind (require_field m (ascii ''m_data'')) expect_bytes = Inr d"
    using assms by (auto simp: scan_module_def rbind_Inr_iff)
  then have parts: "module_parts v = Some (i, d)"
    by (simp add: module_parts_def)
  have split17: "length d = 17 \<Longrightarrow> d ! 0 = 0 \<Longrightarrow> d = 0 # tl d"
    by (cases d) simp_all
  show ?thesis
    using assms v parts split17
    by (auto simp: scan_module_def rbind_Inr_iff split: if_split_asm)
qed

end
