(* ===== verification/Wire_Layout.thy ===== *)
theory Wire_Layout
  imports Codec
begin

text \<open>
  The wire layouts the native protocol registers with its codec (\<open>core/src/games/sc2/native/wire_layout.rs\<close>):
  the tables, the registration, and the three layouts that are code.  Those three are all inbound, and
  read the types of their members through the codec again.  The codec calls code through the table
  \<open>program\<close>, so the table of this protocol is built by recursion: \<open>layout_program B d\<close> is the table whose
  code may call itself through the codec \<open>d\<close> levels deep.
\<close>

section \<open>Tables\<close>

definition field_entry :: "nat \<Rightarrow> u8 \<Rightarrow> wire_field" where
  "field_entry logical filler = \<lparr>logical_field = logical, filler_before = filler\<rparr>"

definition VERIFIED_REFLECTED :: "bytes list" where
  "VERIFIED_REFLECTED =
    [ascii ''Battlenet::Client::Achievement::ListenRequest'',
     ascii ''Battlenet::Client::Chat::StatusChangeRequest'',
     ascii ''Battlenet::Client::Chat::DatagramConnectionUpdate'',
     ascii ''Battlenet::Client::Chat::WhisperRecv'',
     ascii ''Battlenet::Client::Chat::WhisperEchoRecv'',
     ascii ''Battlenet::Client::Connection::ServerVersion'',
     ascii ''Battlenet::Client::Connection::RegulatorUpdate'',
     ascii ''Battlenet::Client::Party::BeginReadyProcess'',
     ascii ''Battlenet::Client::Party::ModifyMapOptions'',
     ascii ''Battlenet::Client::Party::MapOptionsChange'',
     ascii ''Battlenet::Client::Party::ReadyProcessUpdate'',
     ascii ''Battlenet::Client::Presence::StatisticsUpdate'',
     ascii ''Battlenet::Client::Presence::TemporaryPresenceResponse'',
     ascii ''Battlenet::Client::Profile::SendStatsUIEvent'',
     ascii ''Battlenet::Client::S2Master::MMQGetInfoRequest'',
     ascii ''Battlenet::Client::S2Master::MMQGetListResponse'',
     ascii ''Battlenet::Client::Toon::InitialNotifiesComplete'']"

definition CANDIDATE_REFLECTED :: "bytes list" where
  "CANDIDATE_REFLECTED =
    [ascii ''Battlenet::Client::Toon::CaisTimeUpdate'',
     ascii ''Battlenet::Client::S2Master::MMQAnnounce'',
     ascii ''Battlenet::MatchMaker::Announce'',
     ascii ''Battlenet::MatchMaker::StaticInfo'',
     ascii ''Battlenet::MatchMaker::HistogramSet'',
     ascii ''Battlenet::MatchMaker::PerGameQueueInfo'']"

definition IDENTITY_0 :: "wire_field list" where
  "IDENTITY_0 = []"

definition IDENTITY_1 :: "wire_field list" where
  "IDENTITY_1 = [field_entry 0 0]"

definition CONFERENCE_DESCRIPTIONS :: "wire_field list" where
  "CONFERENCE_DESCRIPTIONS = [field_entry 1 0, field_entry 0 0]"

definition FULL_CONFERENCE_DESCRIPTION :: "wire_field list" where
  "FULL_CONFERENCE_DESCRIPTION = [field_entry 4 0, field_entry 3 0, field_entry 1 0, field_entry 0 0, field_entry 2 0]"

definition CONFERENCE_CONFIGURATION :: "wire_field list" where
  "CONFERENCE_CONFIGURATION = [field_entry 0 8, field_entry 1 0, field_entry 4 0, field_entry 2 0, field_entry 3 0]"

definition SHARD_NAME :: "wire_field list" where
  "SHARD_NAME = [field_entry 1 0, field_entry 0 29]"

definition IDENTITY_2 :: "wire_field list" where
  "IDENTITY_2 = [field_entry 0 0, field_entry 1 0]"

definition IDENTITY_3 :: "wire_field list" where
  "IDENTITY_3 = [field_entry 0 0, field_entry 1 0, field_entry 2 0]"

definition IDENTITY_4 :: "wire_field list" where
  "IDENTITY_4 = [field_entry 0 0, field_entry 1 0, field_entry 2 0, field_entry 3 0]"

definition FRIEND_INVITATION_ADDED :: "wire_field list" where
  "FRIEND_INVITATION_ADDED = [field_entry 1 0, field_entry 0 0]"

definition FRIEND_INVITATION :: "wire_field list" where
  "FRIEND_INVITATION = [field_entry 3 0, field_entry 4 0, field_entry 6 14, field_entry 1 0, field_entry 5 0, field_entry 7 0, field_entry 0 0, field_entry 2 0]"

definition TOON_HANDLE :: "wire_field list" where
  "TOON_HANDLE = [field_entry 1 0, field_entry 0 0, field_entry 2 0, field_entry 3 0]"

definition CLUB_INVITE_ACTION :: "wire_field list" where
  "CLUB_INVITE_ACTION = [field_entry 2 0, field_entry 1 0, field_entry 0 0, field_entry 3 11]"

definition MODIFY_CHANNEL_LIST :: "wire_field list" where
  "MODIFY_CHANNEL_LIST = [field_entry 0 0, field_entry 3 0, field_entry 2 4, field_entry 1 0]"

definition ACHIEVEMENT_CRITERIA_UPDATE :: "wire_field list" where
  "ACHIEVEMENT_CRITERIA_UPDATE = [field_entry 1 0, field_entry 3 0, field_entry 0 0, field_entry 4 0, field_entry 2 0]"

definition ACHIEVEMENT_PERSISTENT_RECORD :: "wire_field list" where
  "ACHIEVEMENT_PERSISTENT_RECORD = [field_entry 2 0, field_entry 0 0, field_entry 1 0]"

definition CHAT_CATEGORY_DESCRIPTIONS :: "wire_field list" where
  "CHAT_CATEGORY_DESCRIPTIONS = [field_entry 1 0, field_entry 0 0]"

definition CHAT_CREATE_AND_INVITE :: "wire_field list" where
  "CHAT_CREATE_AND_INVITE = [field_entry 0 0, field_entry 3 0, field_entry 1 0, field_entry 2 0]"

definition PARTY_MODIFY_NON_LOBBY_ATTRIBUTE_LIST :: "wire_field list" where
  "PARTY_MODIFY_NON_LOBBY_ATTRIBUTE_LIST = [field_entry 0 20]"

definition MATCHMAKER_FILTER :: "wire_field list" where
  "MATCHMAKER_FILTER = [field_entry 1 0, field_entry 0 17, field_entry 2 0]"

definition CLUB_NAME :: "wire_field list" where
  "CLUB_NAME = [field_entry 0 16]"

definition CLUB_SUBSCRIPTION_SYNC_INFO :: "wire_field list" where
  "CLUB_SUBSCRIPTION_SYNC_INFO = [field_entry 2 11, field_entry 0 0, field_entry 1 0]"

definition CLUB_CHANGE_INFO :: "wire_field list" where
  "CLUB_CHANGE_INFO = [field_entry 0 6, field_entry 3 0, field_entry 1 0, field_entry 2 0]"

definition BILLING_INFO :: "wire_field list" where
  "BILLING_INFO = [field_entry 2 0, field_entry 1 19, field_entry 0 28, field_entry 3 0]"

definition CONNECTION_CLOSING :: "wire_field list" where
  "CONNECTION_CLOSING = [field_entry 4 0, field_entry 0 0, field_entry 3 0, field_entry 1 0, field_entry 2 0]"

definition PACKET_INFO :: "wire_field list" where
  "PACKET_INFO = [field_entry 1 0, field_entry 0 0, field_entry 4 0, field_entry 2 0, field_entry 3 0]"

definition BATTLEPAY_GET_INFO_RESPONSE :: "wire_field list" where
  "BATTLEPAY_GET_INFO_RESPONSE = [field_entry 3 0, field_entry 2 0, field_entry 6 0, field_entry 5 0, field_entry 4 0, field_entry 1 0, field_entry 7 0, field_entry 0 0]"

section \<open>Registration\<close>

text \<open>The addresses of the functions of the three layouts.\<close>

abbreviation CLUB_SUMMARY_CODE :: nat where "CLUB_SUMMARY_CODE \<equiv> 0"
abbreviation CLUB_USER_TEXT_CODE :: nat where "CLUB_USER_TEXT_CODE \<equiv> 1"
abbreviation CATEGORY_CODE :: nat where "CATEGORY_CODE \<equiv> 2"

text \<open>One call of a registration function: the type, the name of the layout, the layout.\<close>

datatype layout_entry =
    StructEntry bytes bytes "wire_field list"
  | CandidateStructEntry bytes bytes "wire_field list"
  | CustomEntry bytes bytes nat

fun register_entry :: "layout_entry \<Rightarrow> (codec, unit) op" where
  "register_entry (StructEntry type_name name fs) =
     register_struct_wire_layout type_name \<lparr>sl_name = name, sl_fields = fs\<rparr>"
| "register_entry (CandidateStructEntry type_name name fs) =
     register_candidate_struct_wire_layout type_name \<lparr>sl_name = name, sl_fields = fs\<rparr>"
| "register_entry (CustomEntry type_name name code) =
     register_wire_layout type_name \<lparr>wl_name = name, wl_decode = code, wl_decode_traced = Some code, wl_encode = code\<rparr>"

definition friend_and_club_layouts :: "layout_entry list" where
  "friend_and_club_layouts =
    [StructEntry (ascii ''Battlenet::Client::Friends::FriendInvitationAddedNotify'') (ascii ''generated Friends::FriendInvitationAddedNotify'') FRIEND_INVITATION_ADDED,
     StructEntry (ascii ''Battlenet::Friends::FriendInvitation'') (ascii ''generated Friends::FriendInvitation'') FRIEND_INVITATION,
     CandidateStructEntry (ascii ''Battlenet::Client::Club::ClubChangeNotification'') (ascii ''captured Club::ClubChangeNotification'') IDENTITY_1,
     CandidateStructEntry (ascii ''Battlenet::Club::ClubChangeInfo'') (ascii ''captured Club::ClubChangeInfo'') CLUB_CHANGE_INFO,
     CustomEntry (ascii ''Battlenet::Club::ClubSummaryInfo'') (ascii ''generated Club::ClubSummaryInfo'') CLUB_SUMMARY_CODE,
     CustomEntry (ascii ''Battlenet::Club::ClubUserText'') (ascii ''generated Club::ClubUserText'') CLUB_USER_TEXT_CODE,
     StructEntry (ascii ''Battlenet::Client::Club::ClubSubscribeRequest'') (ascii ''generated Club::ClubSubscribeRequest'') IDENTITY_1,
     StructEntry (ascii ''Battlenet::Club::SubscriptionSyncInfo'') (ascii ''generated Club::SubscriptionSyncInfo'') CLUB_SUBSCRIPTION_SYNC_INFO,
     CandidateStructEntry (ascii ''Battlenet::Client::Chat::CreateAndInviteRequest'') (ascii ''captured Chat::CreateAndInviteRequest'') CHAT_CREATE_AND_INVITE,
     CandidateStructEntry (ascii ''Battlenet::Client::Party::ModifyNonLobbyAttributeList'') (ascii ''captured Party::ModifyNonLobbyAttributeList'') PARTY_MODIFY_NON_LOBBY_ATTRIBUTE_LIST,
     CandidateStructEntry (ascii ''Battlenet::Client::Profile::ResolveToonHandleToNameRequest'') (ascii ''captured Profile::ResolveToonHandleToNameRequest'') IDENTITY_2,
     StructEntry (ascii ''Battlenet::Client::Profile::ResolveToonHandleToName'') (ascii ''empty Profile::ResolveToonHandleToName'') IDENTITY_0,
     StructEntry (ascii ''Battlenet::Client::Connection::LogoutRequest'') (ascii ''empty Connection::LogoutRequest'') IDENTITY_0,
     StructEntry (ascii ''Battlenet::Client::BattlePay::GetWallets'') (ascii ''empty BattlePay::GetWallets'') IDENTITY_0,
     StructEntry (ascii ''Battlenet::Client::BattlePay::GetWalletsResponse'') (ascii ''generated BattlePay::GetWalletsResponse'') IDENTITY_2,
     StructEntry (ascii ''Battlenet::Client::BattlePay::GetInfo'') (ascii ''empty BattlePay::GetInfo'') IDENTITY_0,
     StructEntry (ascii ''Battlenet::Client::BattlePay::GetInfoResponse'') (ascii ''generated BattlePay::GetInfoResponse'') BATTLEPAY_GET_INFO_RESPONSE,
     StructEntry (ascii ''Battlenet::Client::Connection::ConnectionClosing'') (ascii ''generated Connection::ConnectionClosing'') CONNECTION_CLOSING,
     StructEntry (ascii ''Battlenet::PacketInfo'') (ascii ''generated Connection::PacketInfo'') PACKET_INFO,
     StructEntry (ascii ''Battlenet::Client::S2Map::S2ListMapFavorites'') (ascii ''empty S2Map::S2ListMapFavorites'') IDENTITY_0,
     StructEntry (ascii ''Battlenet::Client::Club::InviteAction'') (ascii ''identity Client::Club::InviteAction'') IDENTITY_1,
     StructEntry (ascii ''Battlenet::Client::Achievement::Data'') (ascii ''identity Client::Achievement::Data'') IDENTITY_2,
     StructEntry (ascii ''Battlenet::Achievement::PersistentRecord'') (ascii ''generated Achievement::PersistentRecord'') ACHIEVEMENT_PERSISTENT_RECORD,
     StructEntry (ascii ''Battlenet::Achievement::QuestUpdateRecord'') (ascii ''identity Achievement::QuestUpdateRecord'') IDENTITY_1,
     StructEntry (ascii ''Battlenet::Achievement::CriteriaUpdateRecord'') (ascii ''generated Achievement::CriteriaUpdateRecord'') ACHIEVEMENT_CRITERIA_UPDATE,
     StructEntry (ascii ''Battlenet::Club::InviteAction'') (ascii ''generated Club::InviteAction'') CLUB_INVITE_ACTION,
     StructEntry (ascii ''Battlenet::Client::Chat::ModifyChannelListRequest'') (ascii ''generated Chat::ModifyChannelListRequest'') MODIFY_CHANNEL_LIST]"

definition channel_layouts :: "layout_entry list" where
  "channel_layouts =
    [StructEntry (ascii ''Battlenet::Client::Chat::ModifyChannelListRequest2'') (ascii ''identity Chat::ModifyChannelListRequest2'') IDENTITY_4,
     StructEntry (ascii ''Battlenet::Client::Chat::ModifyChannelListResponse2'') (ascii ''identity Chat::ModifyChannelListResponse2'') IDENTITY_2,
     StructEntry (ascii ''Battlenet::Client::Chat::CategoryDescriptions'') (ascii ''generated Chat::CategoryDescriptions'') CHAT_CATEGORY_DESCRIPTIONS,
     StructEntry (ascii ''Battlenet::Client::S2Map::S2ListMapFavoritesRequest'') (ascii ''identity S2Map::S2ListMapFavoritesRequest'') IDENTITY_2,
     StructEntry (ascii ''Battlenet::Client::S2Map::S2ListMapFavoritesResponse'') (ascii ''identity S2Map::S2ListMapFavoritesResponse'') IDENTITY_2,
     StructEntry (ascii ''Battlenet::Client::S2Master::MMQSubscribe'') (ascii ''identity S2Master::MMQSubscribe'') IDENTITY_2,
     StructEntry (ascii ''Battlenet::MatchMaker::Filter'') (ascii ''generated MatchMaker::Filter'') MATCHMAKER_FILTER,
     CustomEntry (ascii ''Battlenet::Conference::CategoryDescription'') (ascii ''generated Conference::CategoryDescription'') CATEGORY_CODE,
     StructEntry (ascii ''Battlenet::Client::Chat::ConferenceDescriptions'') (ascii ''generated Chat::ConferenceDescriptions'') CONFERENCE_DESCRIPTIONS,
     StructEntry (ascii ''Battlenet::Conference::FullConferenceDescription'') (ascii ''generated Conference::FullConferenceDescription'') FULL_CONFERENCE_DESCRIPTION,
     StructEntry (ascii ''Battlenet::Conference::ConferenceConfiguration'') (ascii ''generated Conference::ConferenceConfiguration'') CONFERENCE_CONFIGURATION,
     StructEntry (ascii ''Battlenet::Conference::ShardName'') (ascii ''generated Conference::ShardName'') SHARD_NAME,
     StructEntry (ascii ''Battlenet::Conference::PublicPartialName'') (ascii ''identity Conference::PublicPartialName'') IDENTITY_2,
     StructEntry (ascii ''Battlenet::Conference::ClubName'') (ascii ''generated Conference::ClubName'') CLUB_NAME,
     StructEntry (ascii ''Battlenet::Toon::Handle'') (ascii ''generated Toon::Handle'') TOON_HANDLE,
     StructEntry (ascii ''Battlenet::Client::Toon::BillingUpdateNotify'') (ascii ''identity Toon::BillingUpdateNotify'') IDENTITY_1]"

definition shared_layouts :: "layout_entry list" where
  "shared_layouts = friend_and_club_layouts @ channel_layouts"

definition session_and_toon_layouts :: "layout_entry list" where
  "session_and_toon_layouts =
    [StructEntry (ascii ''Battlenet::Session::BillingInfo'') (ascii ''generated Session::BillingInfo'') BILLING_INFO,
     StructEntry (ascii ''Battlenet::Client::Toon::ToonCreateInit'') (ascii ''empty Toon::ToonCreateInit'') IDENTITY_0,
     StructEntry (ascii ''Battlenet::Client::Toon::ToonCreateSetup'') (ascii ''empty Toon::ToonCreateSetup'') IDENTITY_0,
     StructEntry (ascii ''Battlenet::Client::Toon::ToonCreateFinal'') (ascii ''identity Toon::ToonCreateFinal'') IDENTITY_1,
     StructEntry (ascii ''Battlenet::Toon::ToonCreationData'') (ascii ''identity Toon::ToonCreationData'') IDENTITY_1,
     StructEntry (ascii ''Battlenet::Client::Toon::ToonCreateCancel'') (ascii ''empty Toon::ToonCreateCancel'') IDENTITY_0,
     StructEntry (ascii ''Battlenet::Client::Toon::ToonCreated'') (ascii ''identity Toon::ToonCreated'') IDENTITY_3,
     StructEntry (ascii ''Battlenet::Client::Toon::Failure'') (ascii ''identity Toon::Failure'') IDENTITY_1]"

definition empty_layouts :: "layout_entry list" where
  "empty_layouts =
    [StructEntry (ascii ''Battlenet::Client::Cache::GetStreamItems'') (ascii ''empty Cache::GetStreamItems'') IDENTITY_0,
     StructEntry (ascii ''Battlenet::Client::Chat::ChannelList'') (ascii ''empty Chat::ChannelList'') IDENTITY_0,
     StructEntry (ascii ''Battlenet::Client::Chat::EnumCategoryDescriptions'') (ascii ''empty Chat::EnumCategoryDescriptions'') IDENTITY_0,
     StructEntry (ascii ''Battlenet::Client::Chat::EnumConferenceDescriptions'') (ascii ''empty Chat::EnumConferenceDescriptions'') IDENTITY_0,
     StructEntry (ascii ''Battlenet::Client::Chat::EnumConferenceMemberCounts'') (ascii ''empty Chat::EnumConferenceMemberCounts'') IDENTITY_0,
     StructEntry (ascii ''Battlenet::Client::Chat::Message'') (ascii ''empty Chat::Message'') IDENTITY_0,
     StructEntry (ascii ''Battlenet::Client::Chat::Whisper'') (ascii ''empty Chat::Whisper'') IDENTITY_0,
     StructEntry (ascii ''Battlenet::Client::Chat::WhisperEcho'') (ascii ''empty Chat::WhisperEcho'') IDENTITY_0,
     StructEntry (ascii ''Battlenet::Client::Connection::EnableEncryption'') (ascii ''empty Connection::EnableEncryption'') IDENTITY_0,
     StructEntry (ascii ''Battlenet::Client::Friends::ToonsOfFriendPacket'') (ascii ''empty Friends::ToonsOfFriendPacket'') IDENTITY_0,
     StructEntry (ascii ''Battlenet::Client::Presence::TemporaryPresence'') (ascii ''empty Presence::TemporaryPresence'') IDENTITY_0,
     StructEntry (ascii ''Battlenet::Client::Profile::AddressQuery'') (ascii ''empty Profile::AddressQuery'') IDENTITY_0,
     StructEntry (ascii ''Battlenet::Client::Profile::Read'') (ascii ''empty Profile::Read'') IDENTITY_0,
     StructEntry (ascii ''Battlenet::Client::Profile::ResolveToonNameToHandle'') (ascii ''empty Profile::ResolveToonNameToHandle'') IDENTITY_0,
     StructEntry (ascii ''Battlenet::Client::S2Master::CurrentSeason'') (ascii ''empty S2Master::CurrentSeason'') IDENTITY_0,
     StructEntry (ascii ''Battlenet::Client::S2Master::MMQGetInfo'') (ascii ''empty S2Master::MMQGetInfo'') IDENTITY_0,
     StructEntry (ascii ''Battlenet::Client::S2Master::MMQGetList'') (ascii ''empty S2Master::MMQGetList'') IDENTITY_0,
     StructEntry (ascii ''Battlenet::Presence::SharedPackets::UpdateBase'') (ascii ''empty Presence::SharedPackets::UpdateBase'') IDENTITY_0]"

definition register_layouts :: "(codec, unit) op" where
  "register_layouts =
     bindM (forM shared_layouts register_entry) (\<lambda>_.
     bindM (forM session_and_toon_layouts register_entry) (\<lambda>_.
     bindM (forM empty_layouts register_entry) (\<lambda>_.
     bindM (forM VERIFIED_REFLECTED register_verified_reflected) (\<lambda>_.
     bindM (forM CANDIDATE_REFLECTED register_candidate_reflected) (\<lambda>_.
     ret ())))))"

section \<open>Club summaries and texts\<close>

text \<open>How a layout reads a member: \<open>codec.decode_from\<close> at the member's type.\<close>

type_synonym member_decoder = "u32 \<Rightarrow> (reader, bsn_value) op"

text \<open>A value with its position in the struct and the bits it was read from.\<close>

type_synonym placed_value = "nat \<times> bsn_value \<times> nat \<times> nat"

record layout_values =
  lv_start :: nat
  lv_end :: nat
  lv_fields :: "placed_value list"

abbreviation here :: "(reader, nat) op" where
  "here \<equiv> getsM rposition"

definition read_club_field :: "member_decoder \<Rightarrow> codec \<Rightarrow> u32 \<Rightarrow> nat \<Rightarrow> placed_value list \<Rightarrow> (reader, placed_value list) op" where
  "read_club_field dec c root position fs =
     bindM (liftR (schema_shape (cschema c) root)) (\<lambda>sh.
     bindM (liftR (ok_or (BsnWire (ClubFieldMissing position)) (get_at (member_types sh) position))) (\<lambda>member.
     bindM here (\<lambda>start.
     bindM (dec member) (\<lambda>v.
     bindM here (\<lambda>stop.
     ret (fs @ [(position, v, start, stop)]))))))"

definition read_generated_string :: "nat \<Rightarrow> nat \<Rightarrow> (reader, bytes) op" where
  "read_generated_string count_width greatest =
     bindM (read_bits count_width) (\<lambda>raw.
     if unat raw > greatest then codec_error (GeneratedStringTooLong (unat raw) greatest)
     else bindM (read_bytes (unat raw) True) (\<lambda>d. ret (from_utf8_lossy d)))"

text \<open>A value read in place that is no member of the schema's making.\<close>

definition read_placed :: "nat \<Rightarrow> (reader, bsn_value) op \<Rightarrow> placed_value list \<Rightarrow> (reader, placed_value list) op" where
  "read_placed position m fs =
     bindM here (\<lambda>start. bindM m (\<lambda>v. bindM here (\<lambda>stop. ret (fs @ [(position, v, start, stop)]))))"

definition read_club_fields :: "member_decoder \<Rightarrow> codec \<Rightarrow> u32 \<Rightarrow> nat list \<Rightarrow> placed_value list \<Rightarrow> (reader, placed_value list) op" where
  "read_club_fields dec c root positions fs = loopM positions (read_club_field dec c root) fs"

definition read_club_tag :: "(reader, bsn_value) op" where
  "read_club_tag =
     bindM (read_bits 1) (\<lambda>present.
     if present = 0 then ret (Optional None)
     else bindM (read_generated_string 5 24) (\<lambda>s. ret (Optional (Some (Str s)))))"

definition read_club_summary_info :: "member_decoder \<Rightarrow> codec \<Rightarrow> u32 \<Rightarrow> (reader, layout_values) op" where
  "read_club_summary_info dec c root =
     bindM here (\<lambda>start.
     bindM (read_club_fields dec c root [6, 10, 0, 5] []) (\<lambda>fs.
     bindM (read_placed 2 (bindM (read_generated_string 8 32) (\<lambda>s. ret (Str s))) fs) (\<lambda>fs.
     bindM (read_bits 6) (\<lambda>_.
     bindM (read_club_fields dec c root [9, 7, 4, 1, 11] fs) (\<lambda>fs.
     bindM (read_placed 3 read_club_tag fs) (\<lambda>fs.
     bindM (read_bits 25) (\<lambda>_.
     bindM (read_club_field dec c root 8 fs) (\<lambda>fs.
     bindM here (\<lambda>stop.
     ret \<lparr>lv_start = start, lv_end = stop, lv_fields = fs\<rparr>)))))))))"

definition read_club_user_text :: "member_decoder \<Rightarrow> codec \<Rightarrow> u32 \<Rightarrow> (reader, layout_values) op" where
  "read_club_user_text dec c root =
     bindM here (\<lambda>start.
     bindM (read_club_fields dec c root [0, 3] []) (\<lambda>fs.
     bindM (read_placed 2 (bindM (read_generated_string 13 4096) (\<lambda>s. ret (Str s))) fs) (\<lambda>fs.
     bindM (read_club_field dec c root 1 fs) (\<lambda>fs.
     bindM here (\<lambda>stop.
     ret \<lparr>lv_start = start, lv_end = stop, lv_fields = fs\<rparr>)))))"

text \<open>\<open>build_struct\<close>: of several values for one position the last is kept.\<close>

definition build_field :: "type_shape \<Rightarrow> (nat \<rightharpoonup> bsn_value) \<Rightarrow> nat \<Rightarrow> bsn_field result" where
  "build_field sh vals position =
     rbind (ok_or (Panic IndexOutOfBounds) (get_at (index_values sh) position)) (\<lambda>index.
     rbind (ok_or (Panic IndexOutOfBounds) (get_at (member_names sh) position)) (\<lambda>name.
     rbind (ok_or (BsnWire (GeneratedOmitsField position)) (vals position)) (\<lambda>v.
     Inr (Field index name v))))"

definition build_struct :: "codec \<Rightarrow> u32 \<Rightarrow> placed_value list \<Rightarrow> bsn_value result" where
  "build_struct c root fs =
     rbind (schema_shape (cschema c) root) (\<lambda>sh.
     rbind (rmap (build_field sh (map_of (rev (map (\<lambda>(position, v, _). (position, v)) fs)))) [0..<length (member_types sh)])
       (\<lambda>members. Inr (Struct root members)))"

fun display_value :: "program \<Rightarrow> bsn_value \<Rightarrow> bytes" where
  "display_value B (Integer i) = decimal i"
| "display_value B (FourCc code) = from_utf8_lossy (to_be 4 (unat code))"
| "display_value B (Str s) = s"
| "display_value B (Bool b) = (if b then ascii ''true'' else ascii ''false'')"
| "display_value B (Optional (Some v)) = display_value B v"
| "display_value B (Optional None) = ascii ''none''"
| "display_value B (Array vs) = decimal_nat (length vs) @ ascii '' items''"
| "display_value B (Struct _ fs) = decimal_nat (length fs) @ ascii '' fields''"
| "display_value B (Bytes bs) = decimal_nat (length bs) @ ascii '' bytes''"
| "display_value B (Choice i _) = ascii ''variant '' @ decimal i"
| "display_value B (BitArray b) = decimal_nat (ba_bit_count b) @ ascii '' bits''"
| "display_value B (Float32 x) = f32_text B x"
| "display_value B (Float64 x) = f64_text B x"
| "display_value B Void = ascii ''void''"

definition trace_part :: "program \<Rightarrow> bytes \<Rightarrow> nat \<Rightarrow> type_shape \<Rightarrow> placed_value \<Rightarrow> decoded_field result" where
  "trace_part B path depth sh = (\<lambda>(position, v, start, stop).
     rbind (ok_or (Panic IndexOutOfBounds) (get_at (member_names sh) position)) (\<lambda>name.
     Inr \<lparr>df_path = path @ ascii ''.'' @ (case name of None \<Rightarrow> ascii ''field'' | Some s \<Rightarrow> s),
          df_kind = ascii ''value'', df_value = display_value B v,
          df_start_bit = start, df_end_bit = stop, df_depth = depth + 1\<rparr>))"

definition trace_values :: "program \<Rightarrow> codec \<Rightarrow> u32 \<Rightarrow> bytes \<Rightarrow> nat \<Rightarrow> layout_values \<Rightarrow> (bsn_value \<times> decoded_field list) result" where
  "trace_values B c root path depth vals =
     rbind (schema_shape (cschema c) root) (\<lambda>sh.
     rbind (rmap (trace_part B path depth sh) (lv_fields vals)) (\<lambda>parts.
     rbind (build_struct c root (lv_fields vals)) (\<lambda>v.
     Inr (v, \<lparr>df_path = path, df_kind = ascii ''struct'',
              df_value = decimal_nat (length (lv_fields vals)) @ ascii '' fields'',
              df_start_bit = lv_start vals, df_end_bit = lv_end vals, df_depth = depth\<rparr> # parts))))"

definition decode_club_summary_info :: "member_decoder \<Rightarrow> codec \<Rightarrow> u32 \<Rightarrow> (reader, bsn_value) op" where
  "decode_club_summary_info dec c root =
     bindM (read_club_summary_info dec c root) (\<lambda>vals. liftR (build_struct c root (lv_fields vals)))"

definition decode_club_summary_info_traced ::
    "program \<Rightarrow> member_decoder \<Rightarrow> codec \<Rightarrow> u32 \<Rightarrow> bytes \<Rightarrow> nat \<Rightarrow> (reader, bsn_value \<times> decoded_field list) op" where
  "decode_club_summary_info_traced B dec c root path depth =
     bindM (read_club_summary_info dec c root) (\<lambda>vals. liftR (trace_values B c root path depth vals))"

definition decode_club_user_text :: "member_decoder \<Rightarrow> codec \<Rightarrow> u32 \<Rightarrow> (reader, bsn_value) op" where
  "decode_club_user_text dec c root =
     bindM (read_club_user_text dec c root) (\<lambda>vals. liftR (build_struct c root (lv_fields vals)))"

definition decode_club_user_text_traced ::
    "program \<Rightarrow> member_decoder \<Rightarrow> codec \<Rightarrow> u32 \<Rightarrow> bytes \<Rightarrow> nat \<Rightarrow> (reader, bsn_value \<times> decoded_field list) op" where
  "decode_club_user_text_traced B dec c root path depth =
     bindM (read_club_user_text dec c root) (\<lambda>vals. liftR (trace_values B c root path depth vals))"

section \<open>Category descriptions\<close>

record spanned =
  sp_value :: int
  sp_start :: nat
  sp_end :: nat

record category_values =
  cv_start :: nat
  cv_end :: nat
  cv_name :: spanned
  generated_start_bit :: nat
  generated_end_bit :: nat
  cv_id :: spanned
  cv_sort_order :: spanned

definition read_spanned :: "nat \<Rightarrow> (reader, spanned) op" where
  "read_spanned width =
     bindM here (\<lambda>start. bindM (read_bits width) (\<lambda>raw. bindM here (\<lambda>stop.
     ret \<lparr>sp_value = uint raw, sp_start = start, sp_end = stop\<rparr>)))"

definition read_bounded_u32_array :: "(reader, unit) op" where
  "read_bounded_u32_array =
     bindM (read_bits 3) (\<lambda>raw.
     if unat raw \<ge> 5 then codec_error (CategoryArrayCount (unat raw))
     else bindM (forM [0..<unat raw] (\<lambda>_. read_bits 32)) (\<lambda>_. ret ()))"

definition read_category_generated_state :: "(reader, unit) op" where
  "read_category_generated_state =
     bindM (read_bits 8) (\<lambda>_.
     bindM (read_bits 16) (\<lambda>_.
     bindM read_bounded_u32_array (\<lambda>_.
     bindM (read_bits 32) (\<lambda>_.
     bindM read_bounded_u32_array (\<lambda>_.
     bindM (read_bits 32) (\<lambda>_. ret ()))))))"

definition read_category_generated_variant :: "(reader, unit) op" where
  "read_category_generated_variant =
     bindM (read_bits 16) (\<lambda>_.
     bindM (read_bits 29) (\<lambda>_.
     bindM (read_bits 2) (\<lambda>tag.
     if tag = 0 then
       bindM (read_bits 7) (\<lambda>raw.
       if unat raw \<ge> 125 then codec_error (CategoryStringTooLong (unat raw))
       else bindM (read_bytes (unat raw) True) (\<lambda>_. ret ()))
     else if tag = 2 then bindM (read_bits 32) (\<lambda>_. bindM (read_bits 16) (\<lambda>_. ret ()))
     else if tag = 3 then bindM (read_bits 16) (\<lambda>_. bindM (read_bits 32) (\<lambda>_. ret ()))
     else codec_error (CategoryVariant (unat tag)))))"

definition read_category_description :: "(reader, category_values) op" where
  "read_category_description =
     bindM here (\<lambda>start.
     bindM (read_spanned 32) (\<lambda>name.
     bindM here (\<lambda>generated_start.
     bindM read_category_generated_state (\<lambda>_.
     bindM read_category_generated_variant (\<lambda>_.
     bindM here (\<lambda>generated_end.
     bindM (read_spanned 8) (\<lambda>i.
     bindM (read_spanned 16) (\<lambda>sort_order.
     bindM here (\<lambda>stop.
     ret \<lparr>cv_start = start, cv_end = stop, cv_name = name, generated_start_bit = generated_start,
          generated_end_bit = generated_end, cv_id = i, cv_sort_order = sort_order\<rparr>)))))))))"

definition category_field :: "type_shape \<Rightarrow> bytes \<times> int \<Rightarrow> bsn_field result" where
  "category_field sh = (\<lambda>(name, v).
     rbind (ok_or (BsnWire CategoryFieldMissing) (position_of (\<lambda>candidate. candidate = Some name) (member_names sh))) (\<lambda>position.
     rbind (ok_or (Panic IndexOutOfBounds) (get_at (index_values sh) position)) (\<lambda>index.
     rbind (ok_or (Panic IndexOutOfBounds) (get_at (member_names sh) position)) (\<lambda>member_name.
     Inr (Field index member_name (Integer v))))))"

definition build_category_description :: "codec \<Rightarrow> u32 \<Rightarrow> category_values \<Rightarrow> bsn_value result" where
  "build_category_description c root vals =
     rbind (schema_shape (cschema c) root) (\<lambda>sh.
     rbind (rmap (category_field sh)
       [(ascii ''m_id'', sp_value (cv_id vals)), (ascii ''m_name'', sp_value (cv_name vals)),
        (ascii ''m_sortOrder'', sp_value (cv_sort_order vals))]) (\<lambda>fs.
     Inr (Struct root fs)))"

definition traced_integer :: "bytes \<Rightarrow> bytes \<Rightarrow> spanned \<Rightarrow> nat \<Rightarrow> decoded_field" where
  "traced_integer path knd v depth =
     \<lparr>df_path = path, df_kind = knd, df_value = decimal (sp_value v),
      df_start_bit = sp_start v, df_end_bit = sp_end v, df_depth = depth\<rparr>"

definition category_trace :: "bytes \<Rightarrow> nat \<Rightarrow> category_values \<Rightarrow> decoded_field list" where
  "category_trace path depth vals =
     [\<lparr>df_path = path, df_kind = ascii ''struct'', df_value = ascii ''3 fields'',
       df_start_bit = cv_start vals, df_end_bit = cv_end vals, df_depth = depth\<rparr>,
      traced_integer (path @ ascii ''.m_name'') (ascii ''uint32'') (cv_name vals) (depth + 1),
      \<lparr>df_path = path @ ascii ''.generated'', df_kind = ascii ''generated fields'', df_value = ascii ''ignored'',
       df_start_bit = generated_start_bit vals, df_end_bit = generated_end_bit vals, df_depth = depth + 1\<rparr>,
      traced_integer (path @ ascii ''.m_id'') (ascii ''uint8'') (cv_id vals) (depth + 1),
      traced_integer (path @ ascii ''.m_sortOrder'') (ascii ''uint16'') (cv_sort_order vals) (depth + 1)]"

definition decode_category_description :: "codec \<Rightarrow> u32 \<Rightarrow> (reader, bsn_value) op" where
  "decode_category_description c root =
     bindM read_category_description (\<lambda>vals. liftR (build_category_description c root vals))"

definition decode_category_description_traced ::
    "codec \<Rightarrow> u32 \<Rightarrow> bytes \<Rightarrow> nat \<Rightarrow> (reader, bsn_value \<times> decoded_field list) op" where
  "decode_category_description_traced c root path depth =
     bindM read_category_description (\<lambda>vals.
     bindM (liftR (build_category_description c root vals)) (\<lambda>v.
     ret (v, category_trace path depth vals)))"

section \<open>The table of the code\<close>

definition layout_decode :: "nat \<Rightarrow> member_decoder \<Rightarrow> codec \<Rightarrow> u32 \<Rightarrow> (reader, bsn_value) op" where
  "layout_decode code dec c root =
     (if code = CLUB_SUMMARY_CODE then decode_club_summary_info dec c root
      else if code = CLUB_USER_TEXT_CODE then decode_club_user_text dec c root
      else if code = CATEGORY_CODE then decode_category_description c root
      else fail (Panic Unreachable))"

definition layout_decode_traced ::
    "program \<Rightarrow> nat \<Rightarrow> member_decoder \<Rightarrow> codec \<Rightarrow> u32 \<Rightarrow> bytes \<Rightarrow> nat \<Rightarrow> (reader, bsn_value \<times> decoded_field list) op" where
  "layout_decode_traced B code dec c root path depth =
     (if code = CLUB_SUMMARY_CODE then decode_club_summary_info_traced B dec c root path depth
      else if code = CLUB_USER_TEXT_CODE then decode_club_user_text_traced B dec c root path depth
      else if code = CATEGORY_CODE then decode_category_description_traced c root path depth
      else fail (Panic Unreachable))"

text \<open>\<open>encode_club_summary_info\<close>, \<open>encode_club_user_text\<close> and \<open>encode_category_description\<close> refuse every value.\<close>

definition layout_encode :: "nat \<Rightarrow> codec \<Rightarrow> u32 \<Rightarrow> bsn_value \<Rightarrow> (writer, unit) op" where
  "layout_encode code c root v = codec_error InboundOnly"

text \<open>\<open>B\<close> holds the texts of floats and error codes and the capacity, which the layouts do not change.\<close>

primrec layout_program :: "program \<Rightarrow> nat \<Rightarrow> program" where
  "layout_program B 0 = B\<lparr>run_encode := (\<lambda>code n. layout_encode code),
     run_decode := (\<lambda>code n c tid. fail StackOverflow),
     run_decode_traced := (\<lambda>code n c tid path depth. fail StackOverflow)\<rparr>"
| "layout_program B (Suc d) = B\<lparr>run_encode := (\<lambda>code n. layout_encode code),
     run_decode := (\<lambda>code n c tid. layout_decode code (decode_from (layout_program B d) n c) c tid),
     run_decode_traced := (\<lambda>code n c tid path depth.
       layout_decode_traced B code (decode_from (layout_program B d) n c) c tid path depth)\<rparr>"

end
