(* ===== verification/Native_Schema.thy ===== *)
theory Native_Schema
  imports Native_Records Native_Auth Wire_Layout "HOL-Library.AList"
begin

text \<open>
  The native protocol over a schema (\<open>core/src/games/sc2/native/protocol.rs\<close>): the types it looks up by name
  when it is made, the routes of inbound records, and the functions that walk the schema to build values.
  A string is its UTF-8 bytes.  Defaults recurse along the schema: the argument \<open>stack\<close> is the depth of calls
  the stack holds, as in the codec.  \<open>coerce_field_value\<close> follows aliases without a bound; where it does not
  return the model has the error \<open>NoReturn\<close>.
\<close>

section \<open>Further slots and commands\<close>

definition AUTHENTICATION_SLOT :: u8 where "AUTHENTICATION_SLOT = 0"
definition AUTH_LOGON_COMMAND :: u8 where "AUTH_LOGON_COMMAND = 0"
definition AUTH_RESUME_COMMAND :: u8 where "AUTH_RESUME_COMMAND = 1"
definition AUTH_PROOF_COMMAND :: u8 where "AUTH_PROOF_COMMAND = 2"
definition AUTH_CONFIGURATION_COMMAND :: u8 where "AUTH_CONFIGURATION_COMMAND = 18"
definition AUTH_SINGLE_SIGN_ON_COMMAND :: u8 where "AUTH_SINGLE_SIGN_ON_COMMAND = 17"
definition CONNECTION_ENABLE_ENCRYPTION_COMMAND :: u8 where "CONNECTION_ENABLE_ENCRYPTION_COMMAND = 5"
definition CONNECTION_PING_COMMAND :: u8 where "CONNECTION_PING_COMMAND = 10"
definition CONNECTION_MESSAGE_FRAME_COMMAND :: u8 where "CONNECTION_MESSAGE_FRAME_COMMAND = 13"
definition CONNECTION_GAME_SITE_INFO_COMMAND :: u8 where "CONNECTION_GAME_SITE_INFO_COMMAND = 14"
definition CHAT_STATUS_CHANGE_COMMAND :: u8 where "CHAT_STATUS_CHANGE_COMMAND = 9"
definition CHAT_WHISPER_RECV_COMMAND :: u8 where "CHAT_WHISPER_RECV_COMMAND = 19"
definition CHAT_WHISPER_ECHO_COMMAND :: u8 where "CHAT_WHISPER_ECHO_COMMAND = 30"
definition CHAT_MODIFY_CHANNEL_LIST_RESPONSE_COMMAND :: u8 where "CHAT_MODIFY_CHANNEL_LIST_RESPONSE_COMMAND = 33"
definition CHAT_CHANNEL_LIST_REQUEST_COMMAND :: u8 where "CHAT_CHANNEL_LIST_REQUEST_COMMAND = 21"
definition CHAT_ENUM_CONFERENCE_MEMBER_COUNTS_COMMAND :: u8 where "CHAT_ENUM_CONFERENCE_MEMBER_COUNTS_COMMAND = 25"
definition CHAT_ENUM_CONFERENCE_DESCRIPTIONS_COMMAND :: u8 where "CHAT_ENUM_CONFERENCE_DESCRIPTIONS_COMMAND = 23"
definition FRIENDS_TOONS_COMMAND :: u8 where "FRIENDS_TOONS_COMMAND = 6"
definition FRIENDS_ACCOUNT_BLOCK_COMMAND :: u8 where "FRIENDS_ACCOUNT_BLOCK_COMMAND = 31"
definition FRIENDS_TOON_BLOCK_COMMAND :: u8 where "FRIENDS_TOON_BLOCK_COMMAND = 33"
definition PRESENCE_STATISTICS_SUBSCRIBE_COMMAND :: u8 where "PRESENCE_STATISTICS_SUBSCRIBE_COMMAND = 2"
definition PRESENCE_TEMPORARY_COMMAND :: u8 where "PRESENCE_TEMPORARY_COMMAND = 4"
definition S2_MULTIPLAYER_MEMBER_CLAN_TAGS_RESPONSE_COMMAND :: u8 where "S2_MULTIPLAYER_MEMBER_CLAN_TAGS_RESPONSE_COMMAND = 53"
definition S2_MULTIPLAYER_SEARCH_CLUBS_COMMAND :: u8 where "S2_MULTIPLAYER_SEARCH_CLUBS_COMMAND = 51"
definition S2_MULTIPLAYER_GET_CLUB_INFO_COMMAND :: u8 where "S2_MULTIPLAYER_GET_CLUB_INFO_COMMAND = 55"
definition PROFILE_SETTINGS_AVAILABLE_COMMAND :: u8 where "PROFILE_SETTINGS_AVAILABLE_COMMAND = 4"
definition PROFILE_READ_COMMAND :: u8 where "PROFILE_READ_COMMAND = 0"
definition PROFILE_ADDRESS_QUERY_COMMAND :: u8 where "PROFILE_ADDRESS_QUERY_COMMAND = 1"
definition PROFILE_RESOLVE_TOON_NAME_REQUEST_COMMAND :: u8 where "PROFILE_RESOLVE_TOON_NAME_REQUEST_COMMAND = 3"
definition PROFILE_RESOLVE_TOON_NAME_RESPONSE_COMMAND :: u8 where "PROFILE_RESOLVE_TOON_NAME_RESPONSE_COMMAND = 3"
definition TOON_LIST_COMMAND :: u8 where "TOON_LIST_COMMAND = 0"
definition TOON_SELECTED_COMMAND :: u8 where "TOON_SELECTED_COMMAND = 6"
definition TOON_WELCOME_COMMAND :: u8 where "TOON_WELCOME_COMMAND = 10"

lemmas more_route_constants = AUTHENTICATION_SLOT_def AUTH_LOGON_COMMAND_def AUTH_RESUME_COMMAND_def
  AUTH_PROOF_COMMAND_def AUTH_CONFIGURATION_COMMAND_def AUTH_SINGLE_SIGN_ON_COMMAND_def
  CONNECTION_ENABLE_ENCRYPTION_COMMAND_def CONNECTION_PING_COMMAND_def CONNECTION_MESSAGE_FRAME_COMMAND_def
  CONNECTION_GAME_SITE_INFO_COMMAND_def CHAT_STATUS_CHANGE_COMMAND_def CHAT_WHISPER_RECV_COMMAND_def
  CHAT_WHISPER_ECHO_COMMAND_def CHAT_MODIFY_CHANNEL_LIST_RESPONSE_COMMAND_def CHAT_CHANNEL_LIST_REQUEST_COMMAND_def
  CHAT_ENUM_CONFERENCE_MEMBER_COUNTS_COMMAND_def CHAT_ENUM_CONFERENCE_DESCRIPTIONS_COMMAND_def FRIENDS_TOONS_COMMAND_def
  FRIENDS_ACCOUNT_BLOCK_COMMAND_def FRIENDS_TOON_BLOCK_COMMAND_def PRESENCE_STATISTICS_SUBSCRIBE_COMMAND_def
  PRESENCE_TEMPORARY_COMMAND_def S2_MULTIPLAYER_MEMBER_CLAN_TAGS_RESPONSE_COMMAND_def S2_MULTIPLAYER_SEARCH_CLUBS_COMMAND_def
  S2_MULTIPLAYER_GET_CLUB_INFO_COMMAND_def PROFILE_SETTINGS_AVAILABLE_COMMAND_def PROFILE_READ_COMMAND_def
  PROFILE_ADDRESS_QUERY_COMMAND_def PROFILE_RESOLVE_TOON_NAME_REQUEST_COMMAND_def PROFILE_RESOLVE_TOON_NAME_RESPONSE_COMMAND_def
  TOON_LIST_COMMAND_def TOON_SELECTED_COMMAND_def TOON_WELCOME_COMMAND_def

section \<open>Protocol\<close>

record protocol =
  pcodec :: codec
  incoming_types :: "u8 \<times> u8 \<rightharpoonup> u32"
  resume_request_type :: u32
  logon_request_type :: u32
  single_sign_on_request_type :: u32
  proof_response_type :: u32
  enable_encryption_type :: u32
  configuration_type :: u32
  proof_request_type :: u32
  resume_response_type :: u32
  ping_type :: u32
  message_frame_type :: u32
  front_logon_response_type :: u32
  chat_channel_list_request_type :: u32
  chat_enum_member_counts_type :: u32
  chat_enum_conference_descriptions_type :: u32
  chat_status_change_type :: u32
  friends_toons_request_type :: u32
  profile_address_query_request_type :: u32
  profile_resolve_toon_name_request_type :: u32
  presence_statistics_subscribe_type :: u32
  temporary_presence_request_type :: u32
  toon_full_name_type :: u32
  profile_record_address_type :: u32
  profile_data_response_type :: u32
  token_type :: u32

text \<open>Slot, command and type name of the records a client receives.\<close>

definition INCOMING_TYPES :: "((u8 \<times> u8) \<times> bytes) list" where
  "INCOMING_TYPES =
     [((0, 0), ascii ''Battlenet::Client::Authentication::LogonResponse3''),
      ((0, 18), ascii ''Battlenet::Client::Authentication::Configuration''),
      ((0, 2), ascii ''Battlenet::Client::Authentication::ProofRequest''),
      ((0, 1), ascii ''Battlenet::Client::Authentication::ResumeResponse''),
      ((0, 16), ascii ''Battlenet::Client::Authentication::GenerateWebTokenResponse''),
      ((1, 1), ascii ''Battlenet::Client::Connection::Boom''),
      ((1, 3), ascii ''Battlenet::Client::Connection::ServerVersion''),
      ((1, 11), ascii ''Battlenet::Client::Connection::RegulatorUpdate''),
      ((1, 13), ascii ''Battlenet::Client::Connection::MessageFrame''),
      ((1, 14), ascii ''Battlenet::Client::Connection::GameSiteInfo''),
      ((8, 2), ascii ''Battlenet::Client::Achievement::Data''),
      ((3, 6), ascii ''Battlenet::Client::Friends::ToonsOfFriendsNotify''),
      ((3, 28), ascii ''Battlenet::Client::Friends::FriendInvitationAddedNotify''),
      ((3, 30), ascii ''Battlenet::Client::Friends::FriendsListNotify5''),
      ((3, 31), ascii ''Battlenet::Client::Friends::AccountBlockAddedNotify''),
      ((3, 33), ascii ''Battlenet::Client::Friends::ToonBlockNotify''),
      ((4, 0), ascii ''Battlenet::Client::Presence::UpdateNotify''),
      ((4, 1), ascii ''Battlenet::Client::Presence::FieldSpecAnnounce''),
      ((4, 3), ascii ''Battlenet::Client::Presence::StatisticsUpdate''),
      ((4, 4), ascii ''Battlenet::Client::Presence::TemporaryPresenceResponse''),
      ((5, 1), ascii ''Battlenet::Client::Chat::MembershipChangeNotify''),
      ((5, 11), ascii ''Battlenet::Client::Chat::MessageRecv''),
      ((5, 13), ascii ''Battlenet::Client::Chat::DatagramConnectionUpdate''),
      ((5, 19), ascii ''Battlenet::Client::Chat::WhisperRecv''),
      ((5, 30), ascii ''Battlenet::Client::Chat::WhisperEchoRecv''),
      ((5, 22), ascii ''Battlenet::Client::Chat::ChannelListResponse''),
      ((5, 24), ascii ''Battlenet::Client::Chat::ConferenceDescriptions''),
      ((5, 26), ascii ''Battlenet::Client::Chat::ConferenceMemberCounts''),
      ((5, 27), ascii ''Battlenet::Client::Chat::JoinNotify2''),
      ((5, 33), ascii ''Battlenet::Client::Chat::ModifyChannelListResponse2''),
      ((5, 4), ascii ''Battlenet::Client::Chat::InviteNotify''),
      ((11, 9), ascii ''Battlenet::Client::Cache::GetStreamItemsResponse''),
      ((12, 12), ascii ''Battlenet::Client::Party::BeginReadyProcess''),
      ((12, 14), ascii ''Battlenet::Client::Party::ReadyProcessUpdate''),
      ((12, 20), ascii ''Battlenet::Client::Party::MapOptionsChange''),
      ((10, 27), ascii ''Battlenet::Client::S2Master::CurrentSeasonResponse''),
      ((10, 28), ascii ''Battlenet::Client::S2Master::MMQGetListResponse''),
      ((10, 36), ascii ''Battlenet::Client::S2Master::MMQAnnounce''),
      ((13, 13), ascii ''Battlenet::Client::S2Map::S2ListMapFavoritesResponse''),
      ((13, 49), ascii ''Battlenet::Client::Club::ClubChangeNotification''),
      ((13, 57), ascii ''Battlenet::Client::Club::ClubSettings''),
      ((13, 53), ascii ''Battlenet::Client::Club::GetMemberClanTagsResponse''),
      ((13, 46), ascii ''Battlenet::Client::Club::GetToonClubsResponse''),
      ((13, 51), ascii ''Battlenet::Client::Club::SearchClubsResponse''),
      ((13, 54), ascii ''Battlenet::Client::Club::InviteAction''),
      ((13, 55), ascii ''Battlenet::Client::Club::GetClubInfoResponse''),
      ((14, 0), ascii ''Battlenet::Client::Profile::ReadResponse''),
      ((14, 1), ascii ''Battlenet::Client::Profile::AddressQueryResponse''),
      ((14, 3), ascii ''Battlenet::Client::Profile::ResolveToonNameToHandleResponse''),
      ((14, 4), ascii ''Battlenet::Client::Profile::SettingsAvailable''),
      ((15, 0), ascii ''Battlenet::Client::Toon::ToonList''),
      ((15, 2), ascii ''Battlenet::Client::Toon::ToonCreateSetup''),
      ((15, 7), ascii ''Battlenet::Client::Toon::ToonCreated''),
      ((15, 6), ascii ''Battlenet::Client::Toon::ToonSelected''),
      ((15, 8), ascii ''Battlenet::Client::Toon::Failure''),
      ((15, 10), ascii ''Battlenet::Client::Toon::Welcome''),
      ((15, 13), ascii ''Battlenet::Client::Toon::BillingUpdateNotify''),
      ((15, 14), ascii ''Battlenet::Client::Toon::InitialNotifiesComplete'')]"

definition incoming_table :: "schema \<Rightarrow> ((u8 \<times> u8) \<times> u32) list result" where
  "incoming_table s = rmap (\<lambda>(route, name). rbind (unique_type_id s name) (\<lambda>t. Inr (route, t))) INCOMING_TYPES"

text \<open>A map that is collected keeps the last entry of a key.\<close>

definition from_schema :: "schema \<Rightarrow> protocol result" where
  "from_schema s =
     rbind (incoming_table s) (\<lambda>incoming.
     rbind (unique_type_id s (ascii ''Battlenet::Client::Authentication::ResumeRequest'')) (\<lambda>t0.
     rbind (unique_type_id s (ascii ''Battlenet::Client::Authentication::LogonRequest3'')) (\<lambda>t1.
     rbind (unique_type_id s (ascii ''Battlenet::Client::Authentication::SingleSignOnRequest3'')) (\<lambda>t2.
     rbind (unique_type_id s (ascii ''Battlenet::Client::Authentication::ProofResponse'')) (\<lambda>t3.
     rbind (unique_type_id s (ascii ''Battlenet::Client::Connection::EnableEncryption'')) (\<lambda>t4.
     rbind (unique_type_id s (ascii ''Battlenet::Client::Authentication::Configuration'')) (\<lambda>t5.
     rbind (unique_type_id s (ascii ''Battlenet::Client::Authentication::ProofRequest'')) (\<lambda>t6.
     rbind (unique_type_id s (ascii ''Battlenet::Client::Authentication::ResumeResponse'')) (\<lambda>t7.
     rbind (unique_type_id s (ascii ''Battlenet::Client::Connection::Ping'')) (\<lambda>t8.
     rbind (unique_type_id s (ascii ''Battlenet::Client::Connection::MessageFrame'')) (\<lambda>t9.
     rbind (unique_type_id s (ascii ''Battlenet::Client::Authentication::LogonResponse3'')) (\<lambda>t10.
     rbind (unique_type_id s (ascii ''Battlenet::Client::Chat::ChannelListRequest'')) (\<lambda>t11.
     rbind (unique_type_id s (ascii ''Battlenet::Client::Chat::EnumConferenceMemberCounts'')) (\<lambda>t12.
     rbind (unique_type_id s (ascii ''Battlenet::Client::Chat::EnumConferenceDescriptions'')) (\<lambda>t13.
     rbind (unique_type_id s (ascii ''Battlenet::Client::Chat::StatusChangeRequest'')) (\<lambda>t14.
     rbind (unique_type_id s (ascii ''Battlenet::Client::Friends::ToonsOfFriendsRequest'')) (\<lambda>t15.
     rbind (unique_type_id s (ascii ''Battlenet::Client::Profile::AddressQueryRequest'')) (\<lambda>t16.
     rbind (unique_type_id s (ascii ''Battlenet::Client::Profile::ResolveToonNameToHandleRequest'')) (\<lambda>t17.
     rbind (unique_type_id s (ascii ''Battlenet::Client::Presence::StatisticsSubscribe'')) (\<lambda>t18.
     rbind (unique_type_id s (ascii ''Battlenet::Client::Presence::TemporaryPresenceRequest'')) (\<lambda>t19.
     rbind (unique_type_id s (ascii ''Battlenet::Toon::FullName'')) (\<lambda>t20.
     rbind (unique_type_id s (ascii ''Battlenet::Profile::RecordAddress'')) (\<lambda>t21.
     rbind (unique_type_id s (ascii ''Battlenet::Profile::ProfileDataResponse'')) (\<lambda>t22.
     rbind (unique_type_id s (ascii ''Battlenet::Token'')) (\<lambda>t23.
     case register_layouts (codec_from_schema s) of
       (Inl e, _) \<Rightarrow> Inl e
     | (Inr _, c) \<Rightarrow>
         Inr \<lparr>pcodec = c, incoming_types = map_of (rev incoming),
          resume_request_type = t0,
          logon_request_type = t1,
          single_sign_on_request_type = t2,
          proof_response_type = t3,
          enable_encryption_type = t4,
          configuration_type = t5,
          proof_request_type = t6,
          resume_response_type = t7,
          ping_type = t8,
          message_frame_type = t9,
          front_logon_response_type = t10,
          chat_channel_list_request_type = t11,
          chat_enum_member_counts_type = t12,
          chat_enum_conference_descriptions_type = t13,
          chat_status_change_type = t14,
          friends_toons_request_type = t15,
          profile_address_query_request_type = t16,
          profile_resolve_toon_name_request_type = t17,
          presence_statistics_subscribe_type = t18,
          temporary_presence_request_type = t19,
          toon_full_name_type = t20,
          profile_record_address_type = t21,
          profile_data_response_type = t22,
          token_type = t23\<rparr>)))))))))))))))))))))))))"

definition protocol_new :: "metadata \<Rightarrow> protocol result" where
  "protocol_new m = from_schema (Runtime m)"

section \<open>Routes\<close>

definition incoming_type :: "protocol \<Rightarrow> u8 \<Rightarrow> u8 \<Rightarrow> u32 result" where
  "incoming_type P slot command = ok_or (UnmappedNativeRoute slot command) (incoming_types P (slot, command))"

definition has_custom_incoming_decoder :: "u8 \<times> u8 \<Rightarrow> bool" where
  "has_custom_incoming_decoder route \<longleftrightarrow>
     route \<in> {(CACHE_SLOT, CACHE_GET_STREAM_ITEMS_COMMAND),
       (CHAT_SLOT, CHAT_CONFERENCE_DESCRIPTIONS_COMMAND), (CHAT_SLOT, CHAT_CONFERENCE_MEMBER_COUNTS_COMMAND),
       (CHAT_SLOT, CHAT_CHANNEL_LIST_RESPONSE_COMMAND), (CHAT_SLOT, CHAT_JOIN_NOTIFY_COMMAND),
       (CHAT_SLOT, CHAT_INVITE_NOTIFY_COMMAND), (CHAT_SLOT, CHAT_MEMBERSHIP_COMMAND),
       (CHAT_SLOT, CHAT_MESSAGE_COMMAND), (CHAT_SLOT, CHAT_WHISPER_RECV_COMMAND), (CHAT_SLOT, CHAT_WHISPER_ECHO_COMMAND),
       (PRESENCE_SLOT, PRESENCE_FIELDS_COMMAND), (PRESENCE_SLOT, PRESENCE_UPDATE_COMMAND),
       (S2_MASTER_SLOT, S2_MASTER_CURRENT_SEASON_COMMAND),
       (S2_MULTIPLAYER_SLOT, S2_MULTIPLAYER_CLUB_SETTINGS_COMMAND), (S2_MULTIPLAYER_SLOT, S2_MULTIPLAYER_GET_TOON_CLUBS_COMMAND),
       (S2_MULTIPLAYER_SLOT, S2_MULTIPLAYER_SEARCH_CLUBS_COMMAND), (S2_MULTIPLAYER_SLOT, S2_MULTIPLAYER_INVITE_ACTION_COMMAND),
       (S2_MULTIPLAYER_SLOT, S2_MULTIPLAYER_GET_CLUB_INFO_COMMAND),
       (S2_MULTIPLAYER_SLOT, S2_MULTIPLAYER_MEMBER_CLAN_TAGS_RESPONSE_COMMAND),
       (CONNECTION_SLOT, CONNECTION_MESSAGE_FRAME_COMMAND), (CONNECTION_SLOT, CONNECTION_GAME_SITE_INFO_COMMAND),
       (FRIENDS_SLOT, FRIENDS_LIST_COMMAND), (FRIENDS_SLOT, FRIENDS_TOONS_COMMAND),
       (FRIENDS_SLOT, FRIENDS_ACCOUNT_BLOCK_COMMAND), (FRIENDS_SLOT, FRIENDS_TOON_BLOCK_COMMAND),
       (PROFILE_SLOT, PROFILE_SETTINGS_AVAILABLE_COMMAND), (PROFILE_SLOT, PROFILE_READ_COMMAND),
       (PROFILE_SLOT, PROFILE_ADDRESS_QUERY_COMMAND), (PROFILE_SLOT, PROFILE_RESOLVE_TOON_NAME_RESPONSE_COMMAND),
       (TOON_SLOT, TOON_LIST_COMMAND), (TOON_SLOT, TOON_SELECTED_COMMAND), (TOON_SLOT, TOON_WELCOME_COMMAND)}"

definition client_request_type :: "protocol \<Rightarrow> u8 \<Rightarrow> u8 \<Rightarrow> u32 result" where
  "client_request_type P slot command =
     (case map_of
        [((AUTHENTICATION_SLOT, AUTH_LOGON_COMMAND), logon_request_type P),
         ((AUTHENTICATION_SLOT, AUTH_RESUME_COMMAND), resume_request_type P),
         ((AUTHENTICATION_SLOT, AUTH_PROOF_COMMAND), proof_response_type P),
         ((AUTHENTICATION_SLOT, AUTH_SINGLE_SIGN_ON_COMMAND), single_sign_on_request_type P),
         ((CONNECTION_SLOT, CONNECTION_ENABLE_ENCRYPTION_COMMAND), enable_encryption_type P),
         ((CONNECTION_SLOT, CONNECTION_PING_COMMAND), ping_type P),
         ((CONNECTION_SLOT, CONNECTION_MESSAGE_FRAME_COMMAND), message_frame_type P),
         ((CHAT_SLOT, CHAT_CHANNEL_LIST_REQUEST_COMMAND), chat_channel_list_request_type P),
         ((CHAT_SLOT, CHAT_ENUM_CONFERENCE_MEMBER_COUNTS_COMMAND), chat_enum_member_counts_type P),
         ((CHAT_SLOT, CHAT_ENUM_CONFERENCE_DESCRIPTIONS_COMMAND), chat_enum_conference_descriptions_type P),
         ((CHAT_SLOT, CHAT_STATUS_CHANGE_COMMAND), chat_status_change_type P),
         ((FRIENDS_SLOT, FRIENDS_TOONS_COMMAND), friends_toons_request_type P),
         ((PRESENCE_SLOT, PRESENCE_STATISTICS_SUBSCRIBE_COMMAND), presence_statistics_subscribe_type P),
         ((PRESENCE_SLOT, PRESENCE_TEMPORARY_COMMAND), temporary_presence_request_type P)] (slot, command) of
        Some t \<Rightarrow> Inr t
      | None \<Rightarrow> Inl (UnmappedNativeRoute slot command))"

section \<open>Walking the schema\<close>

abbreviation pshape :: "protocol \<Rightarrow> u32 \<Rightarrow> type_shape result" where
  "pshape P tid \<equiv> schema_shape (cschema (pcodec P)) tid"

text \<open>An index into a table of a shape.\<close>

abbreviation at_index :: "'a list \<Rightarrow> nat \<Rightarrow> 'a result" where
  "at_index xs i \<equiv> ok_or (Panic IndexOutOfBounds) (get_at xs i)"

function peel_loop :: "protocol \<Rightarrow> nat \<Rightarrow> u32 \<Rightarrow> u32 result" where
  "peel_loop P depth tid =
     (case pshape P tid of
        Inl e \<Rightarrow> Inl e
      | Inr sh \<Rightarrow>
          if kind sh \<noteq> KAlias then Inr tid
          else (case element_type sh of
              None \<Rightarrow> native_error AliasWithoutElement
            | Some t \<Rightarrow>
                if depth + 1 > schema_type_count (cschema (pcodec P)) then native_error AliasCycle
                else peel_loop P (depth + 1) t))"
  by pat_completeness auto

termination peel_loop
  by (relation "measure (\<lambda>(P, depth, tid). Suc (schema_type_count (cschema (pcodec P))) - depth)") auto

declare peel_loop.simps [simp del]

definition peel_alias :: "protocol \<Rightarrow> u32 \<Rightarrow> u32 result" where
  "peel_alias P tid = peel_loop P 0 tid"

fun is_optional :: "bsn_value \<Rightarrow> bool" where
  "is_optional (Optional _) = True"
| "is_optional _ = False"

partial_function (option) coerce_loop :: "protocol \<Rightarrow> u32 \<Rightarrow> bsn_value \<Rightarrow> bsn_value result option" where
  "coerce_loop P tid v =
     (case pshape P tid of
        Inl e \<Rightarrow> Some (Inl e)
      | Inr sh \<Rightarrow>
          if kind sh = KAlias then
            (case element_type sh of
               None \<Rightarrow> Some (native_error AliasWithoutElement)
             | Some t \<Rightarrow> coerce_loop P t v)
          else if kind sh = KOptional \<and> \<not> is_optional v then Some (Inr (Optional (Some v)))
          else Some (Inr v))"

declare coerce_loop.simps [code]

definition coerce_field_value :: "protocol \<Rightarrow> u32 \<Rightarrow> bsn_value \<Rightarrow> bsn_value result" where
  "coerce_field_value P tid v = (case coerce_loop P tid v of None \<Rightarrow> Inl NoReturn | Some r \<Rightarrow> r)"

definition member_type :: "protocol \<Rightarrow> u32 \<Rightarrow> string \<Rightarrow> u32 result" where
  "member_type P tid name =
     rbind (peel_alias P tid) (\<lambda>tid.
     rbind (pshape P tid) (\<lambda>sh.
     rbind (ok_or (Native (NoFieldNamed (unat tid) (ascii name)))
              (position_of (\<lambda>n. n = Some (ascii name)) (member_names sh))) (\<lambda>position.
     at_index (member_types sh) position)))"

definition array_element :: "protocol \<Rightarrow> u32 \<Rightarrow> u32 result" where
  "array_element P tid =
     rbind (peel_alias P tid) (\<lambda>tid.
     rbind (pshape P tid) (\<lambda>sh.
     if kind sh \<noteq> KArray then native_error (NotAnArrayType (unat tid))
     else ok_or (Native (ArrayWithoutElement (unat tid))) (element_type sh)))"

definition choice_variant :: "protocol \<Rightarrow> u32 \<Rightarrow> string \<Rightarrow> (int \<times> u32) result" where
  "choice_variant P tid variant =
     rbind (peel_alias P tid) (\<lambda>tid.
     rbind (pshape P tid) (\<lambda>sh.
     if kind sh \<noteq> KChoice then native_error (NotAChoiceType (unat tid))
     else
       rbind (ok_or (Native (NoVariantNamed (unat tid) (ascii variant)))
                (position_of (\<lambda>n. n = Some (ascii variant)) (member_names sh))) (\<lambda>position.
       rbind (at_index (index_values sh) position) (\<lambda>i.
       rbind (at_index (member_types sh) position) (\<lambda>t. Inr (i, t))))))"

definition choice_variant_by_index :: "protocol \<Rightarrow> u32 \<Rightarrow> int \<Rightarrow> u32 result" where
  "choice_variant_by_index P tid index =
     rbind (peel_alias P tid) (\<lambda>peeled.
     rbind (pshape P peeled) (\<lambda>sh.
     rbind (if kind sh = KOptional then
              rbind (ok_or (Native (OptionalWithoutInner (unat peeled)))
                       (case member_types sh of t # _ \<Rightarrow> Some t | [] \<Rightarrow> element_type sh)) (\<lambda>inner.
              rbind (peel_alias P inner) (pshape P))
            else Inr sh) (\<lambda>sh.
     if kind sh \<noteq> KChoice then native_error (NotAChoiceType (unat peeled))
     else
       rbind (ok_or (Native (NoVariantIndex (unat peeled) index)) (position_of (\<lambda>i. i = index) (index_values sh)))
         (at_index (member_types sh)))))"

section \<open>Building values\<close>

definition struct_field :: "protocol \<Rightarrow> u32 \<Rightarrow> type_shape \<Rightarrow> string \<times> bsn_value \<Rightarrow> bsn_field result" where
  "struct_field P tid sh = (\<lambda>(name, v).
     rbind (ok_or (Native (NoFieldNamed (unat tid) (ascii name)))
              (position_of (\<lambda>n. n = Some (ascii name)) (member_names sh))) (\<lambda>position.
     rbind (at_index (index_values sh) position) (\<lambda>i.
     rbind (at_index (member_types sh) position) (\<lambda>t.
     rbind (coerce_field_value P t v) (\<lambda>v. Inr (Field i (Some (ascii name)) v))))))"

definition struct_value :: "protocol \<Rightarrow> u32 \<Rightarrow> (string \<times> bsn_value) list \<Rightarrow> bsn_value result" where
  "struct_value P tid vs =
     rbind (peel_alias P tid) (\<lambda>tid.
     rbind (pshape P tid) (\<lambda>sh.
     if kind sh \<noteq> KStruct then native_error (NotAStructType (unat tid))
     else rbind (rmap (struct_field P tid sh) vs) (\<lambda>fs. Inr (Struct tid fs))))"

definition name_or_empty :: "bytes option \<Rightarrow> bytes" where
  "name_or_empty name = (case name of None \<Rightarrow> [] | Some s \<Rightarrow> s)"

text \<open>The value that fills a field whose value the server has not pinned.\<close>

definition default_field :: "(u32 \<Rightarrow> bsn_value result) \<Rightarrow> type_shape \<Rightarrow> nat \<Rightarrow> bsn_field result" where
  "default_field rec sh position =
     rbind (at_index (member_names sh) position) (\<lambda>name.
     rbind (at_index (index_values sh) position) (\<lambda>i.
     rbind (at_index (member_types sh) position) (\<lambda>t.
     rbind (rec t) (\<lambda>v. Inr (Field i (Some (name_or_empty name)) v)))))"

definition default_body :: "(u32 \<Rightarrow> bsn_value result) \<Rightarrow> u32 \<Rightarrow> type_shape \<Rightarrow> bsn_value result" where
  "default_body rec tid sh =
     (case kind sh of
        KVoid \<Rightarrow> Inr Void
      | KBool \<Rightarrow> Inr (Bool False)
      | KInteger \<Rightarrow> Inr (Integer (case value_range sh of None \<Rightarrow> 0 | Some r \<Rightarrow> minimum r))
      | KEnum \<Rightarrow> Inr (Integer (case value_range sh of None \<Rightarrow> 0 | Some r \<Rightarrow> minimum r))
      | KFourCc \<Rightarrow> Inr (FourCc 0)
      | KFloat32 \<Rightarrow> Inr (Float32 0)
      | KFloat64 \<Rightarrow> Inr (Float64 0)
      | KString \<Rightarrow> Inr (Str [])
      | KByteString \<Rightarrow> Inr (Bytes [])
      | KBlob \<Rightarrow> Inr (Bytes [])
      | KArray \<Rightarrow> Inr (Array [])
      | KOptional \<Rightarrow> Inr (Optional None)
      | KStruct \<Rightarrow> rbind (rmap (default_field rec sh) [0..<length (member_types sh)]) (\<lambda>fs. Inr (Struct tid fs))
      | KChoice \<Rightarrow>
          rbind (ok_or (Native (ChoiceWithoutVariants (unat tid))) (get_at (member_types sh) 0)) (\<lambda>variant.
          rbind (ok_or (Native (ChoiceWithoutIndices (unat tid))) (get_at (index_values sh) 0)) (\<lambda>i.
          rbind (rec variant) (\<lambda>v. Inr (Choice i v))))
      | KBitArray \<Rightarrow> native_error (BitArrayDefault (unat tid))
      | KAlias \<Rightarrow> native_error AliasNotPeeled)"

primrec protocol_default_value :: "protocol \<Rightarrow> nat \<Rightarrow> u32 \<Rightarrow> bsn_value result" where
  "protocol_default_value P 0 tid = Inl StackOverflow"
| "protocol_default_value P (Suc stack) tid =
     rbind (peel_alias P tid) (\<lambda>tid. rbind (pshape P tid) (default_body (protocol_default_value P stack) tid))"

text \<open>
  The overrides are a hash map: a later one of a name replaces an earlier one, and each is removed when a member
  takes it.  Of several names that no member has the code reports one in the order of the map; here it is the
  first that is left.
\<close>

type_synonym overrides = "(bytes \<times> bsn_value) list"

definition override_map :: "(string \<times> bsn_value) list \<Rightarrow> overrides" where
  "override_map vs = fold (\<lambda>(name, v) m. AList.update (ascii name) v m) vs []"

definition defaulted_field :: "protocol \<Rightarrow> nat \<Rightarrow> type_shape \<Rightarrow> nat \<Rightarrow> overrides \<Rightarrow> (bsn_field \<times> overrides) result" where
  "defaulted_field P stack sh position os =
     rbind (at_index (member_types sh) position) (\<lambda>member.
     rbind (at_index (member_names sh) position) (\<lambda>name.
     rbind (case Option.bind name (map_of os) of
              Some v \<Rightarrow> Inr (v, AList.delete (the name) os)
            | None \<Rightarrow> rbind (protocol_default_value P stack member) (\<lambda>v. Inr (v, os))) (\<lambda>(raw, os).
     rbind (at_index (index_values sh) position) (\<lambda>i.
     rbind (coerce_field_value P member raw) (\<lambda>v. Inr (Field i (Some (name_or_empty name)) v, os))))))"

primrec defaulted_fields :: "protocol \<Rightarrow> nat \<Rightarrow> type_shape \<Rightarrow> nat list \<Rightarrow> overrides \<Rightarrow> (bsn_field list \<times> overrides) result" where
  "defaulted_fields P stack sh [] os = Inr ([], os)"
| "defaulted_fields P stack sh (position # positions) os =
     rbind (defaulted_field P stack sh position os) (\<lambda>(f, os).
     rbind (defaulted_fields P stack sh positions os) (\<lambda>(fs, os). Inr (f # fs, os)))"

definition struct_with_defaults :: "protocol \<Rightarrow> nat \<Rightarrow> u32 \<Rightarrow> (string \<times> bsn_value) list \<Rightarrow> bsn_value result" where
  "struct_with_defaults P stack tid vs =
     rbind (peel_alias P tid) (\<lambda>peeled.
     rbind (pshape P peeled) (\<lambda>sh.
     if kind sh \<noteq> KStruct then native_error (NotAStructType (unat peeled))
     else
       rbind (defaulted_fields P stack sh [0..<length (member_types sh)] (override_map vs)) (\<lambda>(fs, os).
       case os of
         (name, _) # _ \<Rightarrow> native_error (NoFieldNamed (unat peeled) name)
       | [] \<Rightarrow> Inr (Struct peeled fs))))"

end
