(* ===== verification/Native_Decode.thy ===== *)
theory Native_Decode
  imports Native_Records Codec
begin

text \<open>
  The hand-written decoders of inbound records (\<open>core/src/games/sc2/native/decode.rs\<close>) that read the bits
  themselves: each yields the payload and the provenance of every field it read.  The decoders the program
  calls when nothing is traced are the projections to the payload, except \<open>chat_join\<close> and \<open>chat_invite\<close>,
  which are written out twice.
\<close>

section \<open>Payloads with provenance\<close>

record decoded_payload =
  dp_payload :: payload
  dp_provenance :: "decoded_field list"

text \<open>A value with the bits it was read from; an \<open>i32\<close> is its word.\<close>

record 'a spanned_value =
  sv_value :: 'a
  sv_start :: nat
  sv_end :: nat

abbreviation here_bit :: "(reader, nat) op" where
  "here_bit \<equiv> getsM rposition"

definition plain_field :: "bytes \<Rightarrow> string \<Rightarrow> bytes \<Rightarrow> nat \<Rightarrow> nat \<Rightarrow> nat \<Rightarrow> decoded_field" where
  "plain_field path knd val start stop depth =
     \<lparr>df_path = path, df_kind = ascii knd, df_value = val, df_start_bit = start, df_end_bit = stop, df_depth = depth\<rparr>"

text \<open>\<open>spanned_field\<close>, with the text of the value as an argument.\<close>

definition spanned_field :: "('a \<Rightarrow> bytes) \<Rightarrow> bytes \<Rightarrow> string \<Rightarrow> 'a spanned_value \<Rightarrow> nat \<Rightarrow> decoded_field" where
  "spanned_field show path knd v depth = plain_field path knd (show (sv_value v)) (sv_start v) (sv_end v) depth"

definition word_text :: "'a::len word \<Rightarrow> bytes" where
  "word_text w = decimal_nat (unat w)"

definition int32_text :: "32 word \<Rightarrow> bytes" where
  "int32_text w = decimal (sint w)"

definition bool_text :: "bool \<Rightarrow> bytes" where
  "bool_text b = (if b then ascii ''true'' else ascii ''false'')"

definition items_text :: "nat \<Rightarrow> bytes" where
  "items_text n = decimal_nat n @ ascii '' items''"

definition sort_provenance :: "decoded_field list \<Rightarrow> decoded_field list" where
  "sort_provenance fs = sort_key (\<lambda>f. (df_start_bit f, df_depth f, - int (df_end_bit f))) fs"

definition custom_payload :: "payload \<Rightarrow> decoded_field list \<Rightarrow> string \<Rightarrow> bytes \<Rightarrow> nat \<Rightarrow> nat \<Rightarrow> decoded_payload" where
  "custom_payload p provenance knd summary start stop =
     \<lparr>dp_payload = p, dp_provenance = sort_provenance (provenance @ [plain_field (ascii ''value'') knd summary start stop 0])\<rparr>"

abbreviation payload_of :: "(reader, decoded_payload) op \<Rightarrow> (reader, payload) op" where
  "payload_of m \<equiv> bindM m (\<lambda>d. ret (dp_payload d))"

section \<open>Reading\<close>

definition read_spanned_u64 :: "nat \<Rightarrow> (reader, u64 spanned_value) op" where
  "read_spanned_u64 width =
     bindM here_bit (\<lambda>start. bindM (read_bits width) (\<lambda>v. bindM here_bit (\<lambda>stop.
     ret \<lparr>sv_value = v, sv_start = start, sv_end = stop\<rparr>)))"

definition respan :: "'b \<Rightarrow> 'a spanned_value \<Rightarrow> 'b spanned_value" where
  "respan x v = \<lparr>sv_value = x, sv_start = sv_start v, sv_end = sv_end v\<rparr>"

definition read_spanned_usize :: "nat \<Rightarrow> (reader, nat spanned_value) op" where
  "read_spanned_usize width = bindM (read_spanned_u64 width) (\<lambda>v. ret (respan (unat (sv_value v)) v))"

definition read_spanned_u32 :: "nat \<Rightarrow> (reader, u32 spanned_value) op" where
  "read_spanned_u32 width =
     bindM (read_spanned_u64 width) (\<lambda>v.
     if unat (sv_value v) < 2 ^ 32 then ret (respan (ucast (sv_value v)) v)
     else fail (native_text ''integer exceeds u32''))"

definition read_spanned_u8 :: "nat \<Rightarrow> (reader, u8 spanned_value) op" where
  "read_spanned_u8 width =
     bindM (read_spanned_u64 width) (\<lambda>v.
     if unat (sv_value v) < 2 ^ 8 then ret (respan (ucast (sv_value v)) v)
     else fail (native_text ''integer exceeds u8''))"

definition read_spanned_i32 :: "(reader, 32 word spanned_value) op" where
  "read_spanned_i32 = bindM (read_spanned_u32 32) (\<lambda>v. ret (respan (sv_value v XOR 0x80000000) v))"

definition read_usize :: "nat \<Rightarrow> (reader, nat) op" where
  "read_usize width = bindM (read_bits width) (\<lambda>v. ret (unat v))"

definition read_u32 :: "nat \<Rightarrow> (reader, u32) op" where
  "read_u32 width = bindM (read_bits width) (\<lambda>v.
     if unat v < 2 ^ 32 then ret (ucast v) else fail (native_text ''integer exceeds u32''))"

definition read_u16 :: "nat \<Rightarrow> (reader, u16) op" where
  "read_u16 width = bindM (read_bits width) (\<lambda>v.
     if unat v < 2 ^ 16 then ret (ucast v) else fail (native_text ''integer exceeds u16''))"

definition read_u8 :: "nat \<Rightarrow> (reader, u8) op" where
  "read_u8 width = bindM (read_bits width) (\<lambda>v.
     if unat v < 2 ^ 8 then ret (ucast v) else fail (native_text ''integer exceeds u8''))"

text \<open>\<open>u16::try_from(v).expect(..)\<close> on a value read with 16 bits, and its \<open>unwrap_or_default\<close> sibling.\<close>

definition expect_u16 :: "u64 \<Rightarrow> u16 result" where
  "expect_u16 v = (if unat v < 2 ^ 16 then Inr (ucast v) else Inl (Panic ExpectFailed))"

definition u16_or_default :: "u64 \<Rightarrow> u16" where
  "u16_or_default v = (if unat v < 2 ^ 16 then ucast v else 0)"

definition u32_or_default :: "u64 \<Rightarrow> u32" where
  "u32_or_default v = (if unat v < 2 ^ 32 then ucast v else 0)"

text \<open>An optional read behind a flag.\<close>

definition when_set :: "u64 \<Rightarrow> (reader, 'a) op \<Rightarrow> (reader, 'a option) op" where
  "when_set f m = (if f \<noteq> 0 then bindM m (\<lambda>x. ret (Some x)) else ret None)"

definition decode_generated_utf8 :: "nat \<Rightarrow> nat \<Rightarrow> nat \<Rightarrow> nat \<Rightarrow> (reader, bytes) op" where
  "decode_generated_utf8 length_bits minimum_bytes maximum_bytes maximum_characters =
     bindM (read_usize length_bits) (\<lambda>n.
     if n + minimum_bytes > maximum_bytes then fail (native_text ''generated native string is too long'')
     else bindM (read_bytes (n + minimum_bytes) True) (\<lambda>bs.
     bindM (liftR (ok_or (native_text ''generated native string is not UTF-8'') (from_utf8 bs))) (\<lambda>s.
     if char_count s > maximum_characters then fail (native_text ''generated native string has too many characters'')
     else ret s)))"

definition decode_spanned_generated_utf8 :: "nat \<Rightarrow> nat \<Rightarrow> nat \<Rightarrow> nat \<Rightarrow> (reader, bytes spanned_value) op" where
  "decode_spanned_generated_utf8 length_bits minimum_bytes maximum_bytes maximum_characters =
     bindM here_bit (\<lambda>start.
     bindM (decode_generated_utf8 length_bits minimum_bytes maximum_bytes maximum_characters) (\<lambda>s.
     bindM here_bit (\<lambda>stop. ret \<lparr>sv_value = s, sv_start = start, sv_end = stop\<rparr>)))"

text \<open>Reads whose value is not used.\<close>

fun skip_bits :: "nat list \<Rightarrow> (reader, unit) op" where
  "skip_bits [] = ret ()"
| "skip_bits (n # ns) = bindM (read_bits n) (\<lambda>_. skip_bits ns)"

text \<open>An array: the items with their fields, read in order.\<close>

definition read_items :: "nat \<Rightarrow> (nat \<Rightarrow> (reader, 'a \<times> decoded_field list) op) \<Rightarrow> (reader, 'a list \<times> decoded_field list) op" where
  "read_items count item =
     bindM (forM [0..<count] item) (\<lambda>xs. ret (map fst xs, concat (map snd xs)))"

definition indexed :: "string \<Rightarrow> nat \<Rightarrow> bytes" where
  "indexed path i = ascii path @ ascii ''['' @ decimal_nat i @ ascii '']''"

definition array_field :: "string \<Rightarrow> nat \<Rightarrow> nat \<Rightarrow> nat \<Rightarrow> decoded_field" where
  "array_field path n start stop = plain_field (ascii path) ''array'' (items_text n) start stop 1"

section \<open>Chat channels\<close>

definition channel_item :: "nat \<Rightarrow> (reader, channel_descriptor \<times> decoded_field list) op" where
  "channel_item i =
     bindM here_bit (\<lambda>item_start.
     bindM (read_spanned_u8 8) (\<lambda>knd.
     bindM (read_spanned_u64 16) (\<lambda>index.
     bindM (read_spanned_u64 24) (\<lambda>reserved.
     bindM (read_spanned_u64 16) (\<lambda>identifier.
     bindM here_bit (\<lambda>item_end.
     bindM (liftR (expect_u16 (sv_value index))) (\<lambda>index_value.
     bindM (liftR (expect_u16 (sv_value identifier))) (\<lambda>identifier_value.
     let path = indexed ''value.entries'' i in
     ret (\<lparr>chd_kind = sv_value knd, chd_index = index_value, chd_identifier = identifier_value\<rparr>,
       [plain_field path ''ChannelDescriptor'' (ascii ''4 fields'') item_start item_end 2,
        spanned_field word_text (path @ ascii ''.kind'') ''uint8'' knd 3,
        spanned_field word_text (path @ ascii ''.index'') ''uint16'' index 3,
        spanned_field word_text (path @ ascii ''.reserved'') ''reserved bits'' reserved 3,
        spanned_field word_text (path @ ascii ''.identifier'') ''uint16'' identifier 3])))))))))"

definition channel_list_with_provenance :: "(reader, decoded_payload) op" where
  "channel_list_with_provenance =
     bindM here_bit (\<lambda>start.
     bindM (read_spanned_u64 27) (\<lambda>reserved.
     bindM (read_spanned_u64 1) (\<lambda>flg.
     bindM (read_spanned_u64 9) (\<lambda>selector.
     bindM (read_spanned_usize 6) (\<lambda>count.
     bindM (read_items (sv_value count) channel_item) (\<lambda>(entries, fs).
     bindM here_bit (\<lambda>stop.
     ret (custom_payload (ChannelList \<lparr>cl_entries = entries\<rparr>)
       ([spanned_field word_text (ascii ''value.reserved'') ''reserved bits'' reserved 1,
         spanned_field word_text (ascii ''value.flag'') ''wire flag'' flg 1,
         spanned_field word_text (ascii ''value.wire_layout_selector'') ''obfuscation selector'' selector 1,
         spanned_field decimal_nat (ascii ''value.entries.count'') ''array length'' count 2] @ fs @
        [array_field ''value.entries'' (length entries) (sv_start count) stop])
       ''ChannelList'' (ascii ''4 fields'') start stop))))))))"

definition decode_channel_list :: "(reader, payload) op" where
  "decode_channel_list = payload_of channel_list_with_provenance"

section \<open>Conferences\<close>

definition member_count_item :: "nat \<Rightarrow> (reader, conference_member_count \<times> decoded_field list) op" where
  "member_count_item i =
     bindM here_bit (\<lambda>entry_start.
     bindM (read_spanned_u64 23) (\<lambda>reserved.
     bindM (read_spanned_u32 32) (\<lambda>conference.
     bindM (read_spanned_u64 16) (\<lambda>members.
     bindM (read_spanned_u64 1) (\<lambda>full.
     bindM here_bit (\<lambda>entry_end.
     bindM (liftR (expect_u16 (sv_value members))) (\<lambda>member_count.
     let path = indexed ''value.entries'' i in
     ret (\<lparr>cmc_conference_id = sv_value conference, cmc_members = member_count, cmc_full = (sv_value full \<noteq> 0)\<rparr>,
       [plain_field path ''MembershipInfo'' (ascii ''4 fields'') entry_start entry_end 2,
        spanned_field word_text (path @ ascii ''.reserved'') ''reserved bits'' reserved 3,
        spanned_field word_text (path @ ascii ''.m_id'') ''Conference::Id'' conference 3,
        spanned_field word_text (path @ ascii ''.m_numMembers'') ''uint16'' members 3,
        spanned_field word_text (path @ ascii ''.m_isFull'') ''bool'' full 3]))))))))"

definition conference_member_counts_with_provenance :: "(reader, decoded_payload) op" where
  "conference_member_counts_with_provenance =
     bindM here_bit (\<lambda>start.
     bindM (read_spanned_u64 1) (\<lambda>is_last.
     bindM (read_spanned_u64 27) (\<lambda>reserved.
     bindM (read_spanned_u64 1) (\<lambda>sampled_present.
     bindM (when_set (sv_value sampled_present) read_spanned_i32) (\<lambda>sampled_at.
     bindM (read_spanned_usize 6) (\<lambda>count.
     bindM (read_items (sv_value count) member_count_item) (\<lambda>(entries, fs).
     bindM here_bit (\<lambda>stop.
     ret (custom_payload
       (ConferenceMemberCounts \<lparr>cmcs_entries = entries, cmcs_is_last = (sv_value is_last \<noteq> 0),
          cmcs_sampled_at = map_option sv_value sampled_at\<rparr>)
       ([spanned_field word_text (ascii ''value.is_last'') ''bool'' is_last 1,
         spanned_field word_text (ascii ''value.reserved'') ''reserved bits'' reserved 1,
         spanned_field word_text (ascii ''value.generated.present'') ''optional flag'' sampled_present 1,
         spanned_field decimal_nat (ascii ''value.entries.count'') ''array length'' count 2] @
        (case sampled_at of None \<Rightarrow> []
         | Some t \<Rightarrow> [spanned_field int32_text (ascii ''value.m_time.value'') ''Time::Seconds'' t 1]) @ fs @
        [array_field ''value.entries'' (length entries) (sv_start count) stop])
       ''ConferenceMemberCounts'' (ascii ''4 fields'') start stop)))))))))"

definition decode_conference_member_counts :: "(reader, payload) op" where
  "decode_conference_member_counts = payload_of conference_member_counts_with_provenance"

definition read_conference_array :: "(reader, unit) op" where
  "read_conference_array = bindM (read_bits 3) (\<lambda>n. bindM (forM [0..<unat n] (\<lambda>_. read_bits 32)) (\<lambda>_. ret ()))"

definition conference_item :: "nat \<Rightarrow> (reader, conference_description \<times> decoded_field list) op" where
  "conference_item i =
     bindM here_bit (\<lambda>entry_start.
     bindM (read_spanned_u32 32) (\<lambda>conference.
     bindM (read_bits 8) (\<lambda>_.
     bindM (read_bits 16) (\<lambda>max_members.
     bindM read_conference_array (\<lambda>_.
     bindM (read_bits 32) (\<lambda>proportion.
     bindM read_conference_array (\<lambda>_.
     bindM (read_bits 32) (\<lambda>_.
     bindM (read_bits 16) (\<lambda>shard.
     bindM (read_bits 29) (\<lambda>_.
     bindM (read_bits 2) (\<lambda>locator.
     if locator \<noteq> 2 then fail (Native (NativeMessage (ascii ''conference description '' @ decimal_nat i
         @ ascii '' uses locator arm '' @ word_text locator @ ascii '', not a public channel'')))
     else
     bindM (read_bits 32) (\<lambda>locale_code.
     bindM (read_bits 16) (\<lambda>channel_name.
     bindM (read_bits 8) (\<lambda>_.
     bindM (read_bits 16) (\<lambda>sort_order.
     bindM here_bit (\<lambda>entry_end.
     let path = indexed ''value.entries'' i in
     ret (\<lparr>cd_conference_id = sv_value conference, cd_locale = u32_or_default locale_code,
           cd_channel_name_id = u16_or_default channel_name, cd_shard = u16_or_default shard,
           cd_sort_order = u16_or_default sort_order, cd_max_members = u16_or_default max_members,
           cd_target_proportion_bits = u32_or_default proportion\<rparr>,
       [plain_field path ''FullConferenceDescription'' (ascii ''5 fields'') entry_start entry_end 2,
        spanned_field word_text (path @ ascii ''.m_id'') ''Conference::Id'' conference 3])))))))))))))))))"

definition conference_descriptions_with_provenance :: "(reader, decoded_payload) op" where
  "conference_descriptions_with_provenance =
     bindM here_bit (\<lambda>start.
     bindM (read_spanned_u64 1) (\<lambda>is_last.
     bindM (read_spanned_usize 6) (\<lambda>count.
     bindM (read_items (sv_value count) conference_item) (\<lambda>(entries, fs).
     bindM here_bit (\<lambda>stop.
     ret (custom_payload (ConferenceDescriptions \<lparr>cds_entries = entries, cds_is_last = (sv_value is_last \<noteq> 0)\<rparr>)
       ([spanned_field word_text (ascii ''value.is_last'') ''bool'' is_last 1,
         spanned_field decimal_nat (ascii ''value.entries.count'') ''array length'' count 2] @ fs @
        [array_field ''value.entries'' (length entries) (sv_start count) stop])
       ''ConferenceDescriptions'' (ascii ''2 fields'') start stop))))))"

definition decode_conference_descriptions :: "(reader, payload) op" where
  "decode_conference_descriptions = payload_of conference_descriptions_with_provenance"

section \<open>The cache\<close>

definition stream_item :: "nat \<Rightarrow> (reader, cache_stream_item \<times> decoded_field list) op" where
  "stream_item i =
     bindM here_bit (\<lambda>item_start.
     bindM (read_spanned_u64 23) (\<lambda>selector.
     bindM here_bit (\<lambda>handle_start.
     bindM (read_bytes 40 True) (\<lambda>handle.
     if length handle \<noteq> 40 then fail (Panic ExpectFailed)
     else
     bindM here_bit (\<lambda>handle_end.
     bindM read_spanned_i32 (\<lambda>time.
     bindM here_bit (\<lambda>item_end.
     let path = indexed ''value.items'' i in
     ret (\<lparr>publication_time = sv_value time, content_handle = handle\<rparr>,
       [plain_field path ''CacheStreamItem'' (ascii ''3 fields'') item_start item_end 2,
        spanned_field word_text (path @ ascii ''.wire_layout_selector'') ''obfuscation selector'' selector 3,
        plain_field (path @ ascii ''.content_handle'') ''bytes'' (ascii ''40 bytes'') handle_start handle_end 3,
        spanned_field int32_text (path @ ascii ''.publication_time'') ''int32'' time 3]))))))))"

definition cache_stream_items_with_provenance :: "(reader, decoded_payload) op" where
  "cache_stream_items_with_provenance =
     bindM here_bit (\<lambda>start.
     bindM (read_spanned_usize 6) (\<lambda>count.
     if sv_value count > 49 then fail (native_text ''cache response contains too many items'')
     else
     bindM (read_items (sv_value count) stream_item) (\<lambda>(items, fs).
     bindM here_bit (\<lambda>items_end.
     bindM (read_spanned_u32 32) (\<lambda>token.
     bindM (read_spanned_u64 16) (\<lambda>total_items.
     bindM (read_spanned_u64 16) (\<lambda>offset.
     bindM (liftR (expect_u16 (sv_value offset))) (\<lambda>offset_value.
     bindM (liftR (expect_u16 (sv_value total_items))) (\<lambda>total_value.
     bindM here_bit (\<lambda>stop.
     ret (custom_payload
       (CacheStreamItems \<lparr>csi_items = items, csi_offset = offset_value, csi_total_items = total_value, csi_token = sv_value token\<rparr>)
       ([spanned_field decimal_nat (ascii ''value.items.count'') ''array length'' count 2] @ fs @
        [array_field ''value.items'' (length items) (sv_start count) items_end,
         spanned_field word_text (ascii ''value.token'') ''uint32'' token 1,
         spanned_field word_text (ascii ''value.total_items'') ''uint16'' total_items 1,
         spanned_field word_text (ascii ''value.offset'') ''uint16'' offset 1])
       ''CacheStreamItems'' (ascii ''4 fields'') start stop)))))))))))"

definition decode_cache_stream_items :: "(reader, payload) op" where
  "decode_cache_stream_items = payload_of cache_stream_items_with_provenance"

end
