(* ===== verification/Decode_Values.thy ===== *)
theory Decode_Values
  imports Native_Schema Native_Decode
begin

text \<open>
  What the decoders of inbound records that follow the schema share (\<open>core/src/games/sc2/native/decode.rs\<close>):
  fields read through the codec, a trace that grows while bits are read, and the values they take apart.

  An \<open>env\<close> is the protocol with the code of its custom layouts and the depth of the stack.
\<close>

record env =
  code :: program
  stack :: nat
  proto :: protocol

section \<open>A growing trace\<close>

type_synonym 'a tracer = "(reader \<times> decoded_field list, 'a) op"

definition reading :: "(reader, 'a) op \<Rightarrow> 'a tracer" where
  "reading m s = (case m (fst s) of (v, r) \<Rightarrow> (v, (r, snd s)))"

definition push_fields :: "decoded_field list \<Rightarrow> unit tracer" where
  "push_fields fs = modifyM (\<lambda>(r, gs). (r, gs @ fs))"

abbreviation trace_here :: "nat tracer" where
  "trace_here \<equiv> reading here_bit"

definition with_trace :: "'a tracer \<Rightarrow> (reader, 'a \<times> decoded_field list) op" where
  "with_trace m r =
     (case m (r, []) of
        (Inl e, s) \<Rightarrow> (Inl e, fst s)
      | (Inr x, s) \<Rightarrow> (Inr (x, snd s), fst s))"

text \<open>A decoder that ends with \<open>custom_payload\<close>.\<close>

definition custom_decoder :: "payload tracer \<Rightarrow> string \<Rightarrow> string \<Rightarrow> (reader, decoded_payload) op" where
  "custom_decoder m knd summary =
     bindM here_bit (\<lambda>start.
     bindM (with_trace m) (\<lambda>(p, fs).
     bindM here_bit (\<lambda>stop. ret (custom_payload p fs knd (ascii summary) start stop))))"

text \<open>A loop over indices.\<close>

fun each :: "nat list \<Rightarrow> (nat \<Rightarrow> ('s, unit) op) \<Rightarrow> ('s, unit) op" where
  "each [] body = ret ()"
| "each (i # is) body = bindM (body i) (\<lambda>_. each is body)"

text \<open>A flag in front of a value.\<close>

definition if_flag :: "'a tracer \<Rightarrow> 'a option tracer" where
  "if_flag m = bindM (reading (read_bits 1)) (\<lambda>b. if b \<noteq> 0 then bindM m (\<lambda>x. ret (Some x)) else ret None)"

definition optional_flag :: "bool option tracer" where
  "optional_flag = if_flag (bindM (reading (read_bits 1)) (\<lambda>b. ret (b \<noteq> 0)))"

definition optional_flag_text :: "bool option \<Rightarrow> bytes" where
  "optional_flag_text v = (case v of None \<Rightarrow> ascii ''none'' | Some b \<Rightarrow> bool_text b)"

definition text_or_none :: "bytes option \<Rightarrow> bytes" where
  "text_or_none v = (case v of None \<Rightarrow> ascii ''none'' | Some s \<Rightarrow> s)"

section \<open>Fields read through the codec\<close>

definition reflected_at :: "env \<Rightarrow> u32 \<Rightarrow> bytes \<Rightarrow> nat \<Rightarrow> (reader, traced_decoded_value) op" where
  "reflected_at E tid path depth = decode_reflected_traced_from (code E) (stack E) (pcodec (proto E)) tid path depth"

definition reflected_plain :: "env \<Rightarrow> u32 \<Rightarrow> (reader, bsn_value) op" where
  "reflected_plain E tid = decode_reflected_from (code E) (stack E) (pcodec (proto E)) tid"

definition trace_reflected :: "env \<Rightarrow> u32 \<Rightarrow> bytes \<Rightarrow> nat \<Rightarrow> bsn_value tracer" where
  "trace_reflected E tid path depth =
     bindM (reading (reflected_at E tid path depth)) (\<lambda>d.
     bindM (push_fields (tv_fields d)) (\<lambda>_. ret (dv_value d)))"

definition traced_reflected_field :: "env \<Rightarrow> u32 \<Rightarrow> string \<Rightarrow> bytes \<Rightarrow> nat \<Rightarrow> bsn_value tracer" where
  "traced_reflected_field E tid name path depth =
     bindM (liftR (member_type (proto E) tid name)) (\<lambda>t. trace_reflected E t path depth)"

definition reflected_payload :: "env \<Rightarrow> u32 \<Rightarrow> (bsn_value \<Rightarrow> payload result) \<Rightarrow> (reader, decoded_payload) op" where
  "reflected_payload E tid project =
     bindM (reflected_at E tid (ascii ''value'') 0) (\<lambda>d.
     bindM (liftR (project (dv_value d))) (\<lambda>p.
     ret \<lparr>dp_payload = p, dp_provenance = tv_fields d\<rparr>))"

section \<open>Taking values apart\<close>

fun unwrap_optional :: "bsn_value \<Rightarrow> bsn_value option" where
  "unwrap_optional (Optional (Some v)) = unwrap_optional v"
| "unwrap_optional (Optional None) = None"
| "unwrap_optional v = Some v"

definition bsn_string :: "bsn_value \<Rightarrow> bytes option" where
  "bsn_string v = Option.bind (unwrap_optional v) as_string"

abbreviation native_label :: "string \<Rightarrow> string \<Rightarrow> error" where
  "native_label label what \<equiv> native_text (label @ what)"

fun int_of_value :: "bsn_value \<Rightarrow> string \<Rightarrow> int result" where
  "int_of_value (Integer i) label = Inr i"
| "int_of_value (Optional (Some v)) label = int_of_value v label"
| "int_of_value v label = Inl (native_label label '' is not an integer'')"

text \<open>\<open>u8::try_from\<close> and its siblings, with the error the caller maps to.\<close>

definition narrow_int :: "nat \<Rightarrow> error \<Rightarrow> int \<Rightarrow> 'a::len word result" where
  "narrow_int width e i = (if 0 \<le> i \<and> i < 2 ^ width then Inr (of_int i) else Inl e)"

definition u16_of_value :: "bsn_value \<Rightarrow> string \<Rightarrow> u16 result" where
  "u16_of_value v label = rbind (int_of_value v label) (narrow_int 16 (native_label label '' is outside u16''))"

definition u8_of_value :: "bsn_value \<Rightarrow> string \<Rightarrow> u8 result" where
  "u8_of_value v label = rbind (int_of_value v label) (narrow_int 8 (native_label label '' is outside u8''))"

text \<open>An \<open>i128\<close> narrowed to \<open>u32\<close>, and \<open>expect_u32\<close>, which takes a four-character code as well.\<close>

definition plain_u32_of_value :: "bsn_value \<Rightarrow> string \<Rightarrow> u32 result" where
  "plain_u32_of_value v label = rbind (int_of_value v label) (narrow_int 32 (native_label label '' is outside u32''))"

fun u32_of_value :: "bsn_value \<Rightarrow> string \<Rightarrow> u32 result" where
  "u32_of_value (FourCc c) label = Inr c"
| "u32_of_value v label = plain_u32_of_value v label"

definition u64_of_value :: "bsn_value \<Rightarrow> string \<Rightarrow> u64 result" where
  "u64_of_value v label = rbind (int_of_value v label) (narrow_int 64 (native_label label '' is outside u64''))"

fun bytes_of_value :: "bsn_value \<Rightarrow> string \<Rightarrow> bytes result" where
  "bytes_of_value (Bytes bs) label = Inr bs"
| "bytes_of_value (Optional (Some v)) label = bytes_of_value v label"
| "bytes_of_value v label = Inl (native_label label '' is not bytes'')"

text \<open>A field that must be there, and the fields of a struct value.\<close>

definition field_or :: "string \<Rightarrow> bsn_field list \<Rightarrow> string \<Rightarrow> bsn_value result" where
  "field_or message fs name = ok_or (native_text message) (struct_get fs (ascii name))"

definition struct_fields :: "bsn_value \<Rightarrow> bsn_field list option" where
  "struct_fields v = map_option snd (as_struct v)"

definition struct_or :: "string \<Rightarrow> bsn_value option \<Rightarrow> bsn_field list result" where
  "struct_or message v = ok_or (native_text message) (Option.bind v struct_fields)"

definition full_name_from_value :: "bsn_value \<Rightarrow> bytes option" where
  "full_name_from_value v =
     Option.bind (Option.bind (unwrap_optional v) struct_fields) (\<lambda>fs.
     case (Option.bind (struct_get fs (ascii ''m_givenName'')) bsn_string,
           Option.bind (struct_get fs (ascii ''m_surname'')) bsn_string) of
       (Some given, Some surname) \<Rightarrow> Some (given @ ascii '' '' @ surname)
     | (Some given, None) \<Rightarrow> Some given
     | (None, Some surname) \<Rightarrow> Some surname
     | (None, None) \<Rightarrow> None)"

definition toon_full_name_from_value :: "bsn_value \<Rightarrow> toon_full_name result" where
  "toon_full_name_from_value v =
     rbind (ok_or (native_text ''toon full name is absent'') (unwrap_optional v)) (\<lambda>v.
     rbind (struct_or ''toon full name is not a struct'' (Some v)) (\<lambda>fs.
     rbind (field_or ''toon full name omits its region'' fs ''m_region'') (\<lambda>region.
     rbind (u8_of_value region ''toon region'') (\<lambda>region.
     rbind (field_or ''toon full name omits its program'' fs ''m_programId'') (\<lambda>program.
     rbind (u32_of_value program ''toon program'') (\<lambda>program.
     rbind (field_or ''toon full name omits its realm'' fs ''m_realm'') (\<lambda>realm.
     rbind (u32_of_value realm ''toon realm'') (\<lambda>realm.
     rbind (ok_or (native_text ''toon full name omits its name'')
              (Option.bind (struct_get fs (ascii ''m_name'')) bsn_string)) (\<lambda>name.
     Inr \<lparr>tn_region = region, tn_program_id = program, tn_realm = realm, tn_name = name\<rparr>)))))))))"

definition toon_handle_from_value :: "bsn_value \<Rightarrow> toon_handle option result" where
  "toon_handle_from_value v =
     (case unwrap_optional v of
        None \<Rightarrow> Inr None
      | Some v \<Rightarrow>
          rbind (struct_or ''toon handle is not a struct'' (Some v)) (\<lambda>fs.
          rbind (field_or ''toon handle omits its region'' fs ''m_region'') (\<lambda>region.
          rbind (u8_of_value region ''toon region'') (\<lambda>region.
          rbind (field_or ''toon handle omits its program'' fs ''m_programId'') (\<lambda>program.
          rbind (u32_of_value program ''toon program'') (\<lambda>program.
          rbind (field_or ''toon handle omits its realm'' fs ''m_realm'') (\<lambda>realm.
          rbind (u32_of_value realm ''toon realm'') (\<lambda>realm.
          rbind (field_or ''toon handle omits its id'' fs ''m_id'') (\<lambda>i.
          rbind (u64_of_value i ''toon id'') (\<lambda>i.
          Inr (Some \<lparr>th_region = region, th_program_id = program, th_realm = realm, th_id = i\<rparr>)))))))))))"

definition profile_address_from_value :: "bsn_value \<Rightarrow> profile_address option result" where
  "profile_address_from_value v =
     rbind (ok_or (native_text ''friend profile address is absent'') (unwrap_optional v)) (\<lambda>v.
     rbind (struct_or ''friend profile address is not a struct'' (Some v)) (\<lambda>fs.
     rbind (field_or ''friend profile address omitted its label'' fs ''m_label'') (\<lambda>label.
     rbind (field_or ''friend profile address omitted its id'' fs ''m_id'') (\<lambda>i.
     rbind (u32_of_value label ''friend profile label'') (\<lambda>label.
     rbind (u64_of_value i ''friend profile id'') (\<lambda>i.
     Inr (if label \<noteq> 0 \<or> i \<noteq> 0 then Some \<lparr>pa_label = label, pa_id = i\<rparr> else None)))))))"

definition optional_element :: "protocol \<Rightarrow> u32 \<Rightarrow> u32 result" where
  "optional_element P tid =
     rbind (peel_alias P tid) (\<lambda>tid.
     rbind (pshape P tid) (\<lambda>sh.
     if kind sh \<noteq> KOptional then Inl (native_text ''expected an optional native field'')
     else ok_or (native_text ''optional native field has no element type'') (element_type sh)))"

text \<open>The variant of a choice by its index.\<close>

definition shape_variant :: "type_shape \<Rightarrow> int \<Rightarrow> u32 result" where
  "shape_variant sh index =
     rbind (ok_or (Native (NativeMessage (ascii ''choice has no variant '' @ decimal index)))
              (position_of (\<lambda>i. i = index) (index_values sh)))
       (at_index (member_types sh))"

end
