(* ===== verification/Native_Requests.thy ===== *)
theory Native_Requests
  imports Decode_Values
begin

text \<open>
  The records of the native protocol that are built along the schema (\<open>core/src/games/sc2/native/protocol.rs\<close>):
  the requests of the client, the authentication records of the server side and its other answers, one
  definition per function.
\<close>

section \<open>Parts\<close>

abbreviation int_of_word :: "'a::len word \<Rightarrow> bsn_value" where
  "int_of_word w \<equiv> Integer (uint w)"

abbreviation four_cc :: "string \<Rightarrow> bsn_value" where
  "four_cc s \<equiv> FourCc (fourcc (ascii s))"

definition write_reflected :: "env \<Rightarrow> u32 \<Rightarrow> bsn_value \<Rightarrow> (writer, unit) op" where
  "write_reflected E tid v = encode_reflected_into (code E) (stack E) (pcodec (proto E)) tid v"

definition encode_record :: "env \<Rightarrow> u8 \<Rightarrow> u8 \<Rightarrow> u32 \<Rightarrow> bsn_value \<Rightarrow> bytes result" where
  "encode_record E command slot tid v = record_bytes command slot (write_reflected E tid v)"

abbreviation defaults :: "env \<Rightarrow> u32 \<Rightarrow> (string \<times> bsn_value) list \<Rightarrow> bsn_value result" where
  "defaults E tid vs \<equiv> struct_with_defaults (proto E) (stack E) tid vs"

abbreviation default_of :: "env \<Rightarrow> u32 \<Rightarrow> bsn_value result" where
  "default_of E tid \<equiv> protocol_default_value (proto E) (stack E) tid"

definition write_default_field :: "env \<Rightarrow> u32 \<Rightarrow> string \<Rightarrow> (writer, unit) op" where
  "write_default_field E tid name =
     bindM (liftR (member_type (proto E) tid name)) (\<lambda>t.
     bindM (liftR (default_of E t)) (\<lambda>v. write_reflected E t v))"

section \<open>Authentication requests\<close>

definition SC2_NATIVE_VERSION :: u64 where
  "SC2_NATIVE_VERSION = 0x000a16a7"

definition SC2_MACOS_NATIVE_VERSIONS :: "(string \<times> string \<times> u64) list" where
  "SC2_MACOS_NATIVE_VERSIONS =
     [(''S2'', ''NGD1'', 0x5bc8dcc1), (''S2'', ''NGD2'', 0xfade3a32), (''S2'', ''NGD3'', 0x0c129365),
      (''S2'', ''NGD4'', 0x86b7c0ed), (''Bnet'', ''Mc64'', SC2_NATIVE_VERSION)]"

record native_handoff =
  nh_address :: bytes
  nh_session_key :: bytes
  nh_account_region :: u8
  nh_game_account_name :: bytes
  nh_account_mail :: bytes
  nh_logon_response :: bytes

definition request_common :: "env \<Rightarrow> u32 \<Rightarrow> string \<Rightarrow> bsn_value result" where
  "request_common E root_type name =
     rbind (member_type (proto E) root_type name) (\<lambda>common_type.
     rbind (member_type (proto E) common_type ''m_versions'') (\<lambda>versions_field.
     rbind (array_element (proto E) versions_field) (\<lambda>version_type.
     rbind (rmap (\<lambda>(program, component, version). struct_value (proto E) version_type
              [(''m_programId'', four_cc program), (''m_component'', four_cc component),
               (''m_version'', int_of_word version)]) SC2_MACOS_NATIVE_VERSIONS) (\<lambda>versions.
     struct_value (proto E) common_type
       [(''m_program'', four_cc ''S2''), (''m_platform'', four_cc ''Mc64''), (''m_locale'', four_cc ''enUS''),
        (''m_versions'', Array versions)]))))"

definition resume_request_fields :: "env \<Rightarrow> bytes \<Rightarrow> bytes \<Rightarrow> u8 \<Rightarrow> bytes result" where
  "resume_request_fields E account_mail game_account_name game_account_region =
     (let tid = resume_request_type (proto E) in
      rbind (request_common E tid ''RequestCommon'') (\<lambda>common.
      rbind (struct_value (proto E) tid
               [(''RequestCommon'', common), (''m_account'', Bytes account_mail),
                (''m_gameAccountRegion'', int_of_word game_account_region),
                (''m_gameAccountName'', Bytes game_account_name)]) (\<lambda>v.
      encode_record E AUTH_RESUME_COMMAND AUTHENTICATION_SLOT tid v)))"

definition resume_request :: "env \<Rightarrow> native_handoff \<Rightarrow> u8 option \<Rightarrow> bytes result" where
  "resume_request E bootstrap game_account_region =
     resume_request_fields E (nh_account_mail bootstrap) (nh_game_account_name bootstrap)
       (case game_account_region of Some r \<Rightarrow> r | None \<Rightarrow> nh_account_region bootstrap)"

definition logon_request :: "env \<Rightarrow> bytes \<Rightarrow> bytes result" where
  "logon_request E account_mail =
     (let tid = logon_request_type (proto E) in
      if account_mail = [] then Inl (native_text ''native logon account is empty'')
      else
        rbind (request_common E tid ''m_requestCommon'') (\<lambda>common.
        rbind (struct_value (proto E) tid
                 [(''m_requestCommon'', common), (''m_account'', Bytes account_mail),
                  (''m_compatibility'', int_of_word SC2_NATIVE_VERSION)]) (\<lambda>v.
        encode_record E AUTH_LOGON_COMMAND AUTHENTICATION_SLOT tid v)))"

definition single_sign_on_request :: "env \<Rightarrow> bytes \<Rightarrow> bytes result" where
  "single_sign_on_request E identifier =
     (let tid = single_sign_on_request_type (proto E) in
      if identifier = [] \<or> length identifier > 512
      then Inl (native_text ''native SSO identifier length is outside 1..=512 bytes'')
      else
        rbind (request_common E tid ''m_requestCommon'') (\<lambda>common.
        rbind (struct_value (proto E) tid
                 [(''m_requestCommon'', common), (''m_ssoId'', Bytes identifier),
                  (''m_compatibility'', int_of_word SC2_NATIVE_VERSION)]) (\<lambda>v.
        encode_record E AUTH_SINGLE_SIGN_ON_COMMAND AUTHENTICATION_SLOT tid v)))"

definition proof_response :: "env \<Rightarrow> bytes list \<Rightarrow> bytes result" where
  "proof_response E parts =
     (let tid = proof_response_type (proto E) in
      rbind (member_type (proto E) tid ''m_response'') (\<lambda>response_field.
      rbind (array_element (proto E) response_field) (\<lambda>item_type.
      rbind (rmap (\<lambda>part. struct_value (proto E) item_type [(''m_data'', Bytes part)]) parts) (\<lambda>responses.
      rbind (struct_value (proto E) tid [(''m_response'', Array responses)]) (\<lambda>v.
      encode_record E AUTH_PROOF_COMMAND AUTHENTICATION_SLOT tid v)))))"

definition enable_encryption :: "env \<Rightarrow> bytes result" where
  "enable_encryption E =
     (let tid = enable_encryption_type (proto E) in
      rbind (struct_value (proto E) tid []) (\<lambda>v.
      encode_record E CONNECTION_ENABLE_ENCRYPTION_COMMAND CONNECTION_SLOT tid v))"

section \<open>Authentication records of the server\<close>

definition configuration :: "env \<Rightarrow> bool \<Rightarrow> bytes result" where
  "configuration E use_s3_depot =
     (let tid = configuration_type (proto E) in
      rbind (defaults E tid [(''m_useS3Depot'', Bool use_s3_depot)]) (\<lambda>v.
      encode_record E AUTH_CONFIGURATION_COMMAND AUTHENTICATION_SLOT tid v))"

definition proof_request :: "env \<Rightarrow> bytes \<Rightarrow> bytes \<Rightarrow> bytes result" where
  "proof_request E thumbprint_signature nonce =
     (let tid = proof_request_type (proto E) in
      rbind (member_type (proto E) tid ''m_request'') (\<lambda>request_field.
      rbind (array_element (proto E) request_field) (\<lambda>module_type.
      rbind (defaults E module_type [(''m_id'', Bytes THUMBPRINT_MODULE_ID), (''m_data'', Bytes thumbprint_signature)]) (\<lambda>thumbprint_module.
      rbind (defaults E module_type [(''m_id'', Bytes SESSION_PROOF_MODULE_ID), (''m_data'', Bytes (0 # nonce))]) (\<lambda>session_module.
      rbind (defaults E tid [(''m_request'', Array [thumbprint_module, session_module])]) (\<lambda>v.
      encode_record E AUTH_PROOF_COMMAND AUTHENTICATION_SLOT tid v))))))"

definition resume_response :: "env \<Rightarrow> bytes \<Rightarrow> bytes result" where
  "resume_response E final_proof =
     (let tid = resume_response_type (proto E) in
      rbind (member_type (proto E) tid ''m_result'') (\<lambda>result_type.
      rbind (choice_variant_by_index (proto E) result_type 0) (\<lambda>success_type.
      rbind (member_type (proto E) success_type ''ResponseSuccessCommon'') (\<lambda>common_type.
      rbind (member_type (proto E) common_type ''m_finalRequest'') (\<lambda>final_field_type.
      rbind (array_element (proto E) final_field_type) (\<lambda>module_type.
      rbind (defaults E module_type [(''m_id'', Bytes SESSION_PROOF_MODULE_ID), (''m_data'', Bytes (2 # final_proof))]) (\<lambda>proof_module.
      rbind (defaults E common_type [(''m_finalRequest'', Array [proof_module]), (''m_pingTimeout'', Integer 60000)]) (\<lambda>common.
      rbind (defaults E success_type [(''ResponseSuccessCommon'', common)]) (\<lambda>success.
      rbind (defaults E tid [(''m_result'', Choice 0 success)]) (\<lambda>v.
      encode_record E AUTH_RESUME_COMMAND AUTHENTICATION_SLOT tid v))))))))))"

text \<open>\<open>encode\<close> of the codec: no route, and types that are not reflected need a layout.\<close>

definition encode_data :: "env \<Rightarrow> u32 \<Rightarrow> bsn_value \<Rightarrow> bytes result" where
  "encode_data E tid v = rbind (encode_value (code E) (stack E) (pcodec (proto E)) tid v) (\<lambda>e. Inr (ev_data e))"

definition front_logon_response :: "env \<Rightarrow> u8 \<Rightarrow> u8 \<Rightarrow> bytes \<Rightarrow> bytes result" where
  "front_logon_response E account_region game_account_region game_account_name =
     (let tid = front_logon_response_type (proto E) in
      if game_account_name = [] \<or> length game_account_name > 32
      then Inl (native_text ''Front game-account name must contain 1..=32 bytes'')
      else
        rbind (member_type (proto E) tid ''LogonResponse'') (\<lambda>response_type.
        rbind (member_type (proto E) response_type ''m_result'') (\<lambda>result_type.
        rbind (choice_variant_by_index (proto E) result_type 0) (\<lambda>success_type.
        rbind (member_type (proto E) success_type ''ResponseSuccessCommon'') (\<lambda>common_type.
        rbind (defaults E common_type [(''m_pingTimeout'', Integer 60000)]) (\<lambda>common.
        rbind (defaults E success_type
                 [(''ResponseSuccessCommon'', common), (''m_accountRegion'', int_of_word account_region),
                  (''m_gameAccountRegion'', int_of_word game_account_region),
                  (''m_gameAccountName'', Bytes game_account_name), (''m_logonFailures'', Integer 0)]) (\<lambda>success.
        rbind (defaults E response_type [(''m_result'', Choice 0 success)]) (\<lambda>response.
        rbind (defaults E tid [(''LogonResponse'', response)]) (\<lambda>wrapper.
        encode_data E tid wrapper)))))))))"

section \<open>Requests of the session\<close>

text \<open>The \<open>i64\<close> of \<open>ping\<close> is an integer here.\<close>

definition ping :: "env \<Rightarrow> int \<Rightarrow> bytes result" where
  "ping E unix_time_micros =
     (let tid = ping_type (proto E) in
      rbind (struct_value (proto E) tid [(''m_timeData'', Integer unix_time_micros)]) (\<lambda>v.
      encode_record E CONNECTION_PING_COMMAND CONNECTION_SLOT tid v))"

definition empty_request :: "env \<Rightarrow> u8 \<Rightarrow> u32 \<Rightarrow> bytes result" where
  "empty_request E command tid =
     rbind (struct_value (proto E) tid []) (\<lambda>v. encode_record E command CHAT_SLOT tid v)"

definition chat_enum_conference_descriptions :: "env \<Rightarrow> bytes result" where
  "chat_enum_conference_descriptions E =
     empty_request E CHAT_ENUM_CONFERENCE_DESCRIPTIONS_COMMAND (chat_enum_conference_descriptions_type (proto E))"

definition chat_enum_conference_member_counts :: "env \<Rightarrow> bytes result" where
  "chat_enum_conference_member_counts E =
     empty_request E CHAT_ENUM_CONFERENCE_MEMBER_COUNTS_COMMAND (chat_enum_member_counts_type (proto E))"

definition chat_channel_list :: "env \<Rightarrow> bytes result" where
  "chat_channel_list E = empty_request E CHAT_CHANNEL_LIST_REQUEST_COMMAND (chat_channel_list_request_type (proto E))"

definition friend_toons :: "env \<Rightarrow> u32 \<Rightarrow> bytes result" where
  "friend_toons E account_id =
     (let tid = friends_toons_request_type (proto E) in
      rbind (member_type (proto E) tid ''ToonsOfFriendPacket'') (\<lambda>marker_type.
      rbind (struct_value (proto E) marker_type []) (\<lambda>marker.
      rbind (struct_value (proto E) tid [(''ToonsOfFriendPacket'', marker), (''m_accountId'', int_of_word account_id)]) (\<lambda>v.
      encode_record E FRIENDS_TOONS_COMMAND FRIENDS_SLOT tid v))))"

definition presence_statistics_subscribe :: "env \<Rightarrow> bool \<Rightarrow> bytes result" where
  "presence_statistics_subscribe E on =
     (let tid = presence_statistics_subscribe_type (proto E) in
      rbind (struct_value (proto E) tid [(''m_on'', Bool on)]) (\<lambda>v.
      encode_record E PRESENCE_STATISTICS_SUBSCRIBE_COMMAND PRESENCE_SLOT tid v))"

definition profile_address_query :: "env \<Rightarrow> u32 \<Rightarrow> u32 \<Rightarrow> bytes result" where
  "profile_address_query E request_id account_id =
     (let tid = profile_address_query_request_type (proto E) in
      rbind (member_type (proto E) tid ''m_playerTarget'') (\<lambda>target_type.
      rbind (choice_variant (proto E) target_type ''accountId'') (\<lambda>(account_variant, _).
      rbind (struct_value (proto E) tid
               [(''m_requestId'', int_of_word request_id),
                (''m_playerTarget'', Choice account_variant (int_of_word account_id))]) (\<lambda>v.
      encode_record E PROFILE_ADDRESS_QUERY_COMMAND PROFILE_SLOT tid v))))"

definition toon_full_name_value :: "env \<Rightarrow> toon_full_name \<Rightarrow> bsn_value result" where
  "toon_full_name_value E name =
     struct_value (proto E) (toon_full_name_type (proto E))
       [(''m_region'', int_of_word (tn_region name)), (''m_programId'', FourCc (tn_program_id name)),
        (''m_realm'', int_of_word (tn_realm name)), (''m_name'', Str (tn_name name))]"

definition resolve_toon_name :: "env \<Rightarrow> toon_full_name \<Rightarrow> bytes result" where
  "resolve_toon_name E name =
     (let tid = profile_resolve_toon_name_request_type (proto E) in
      rbind (member_type (proto E) tid ''ResolveToonNameToHandle'') (\<lambda>marker_type.
      rbind (struct_value (proto E) marker_type []) (\<lambda>marker.
      rbind (toon_full_name_value E name) (\<lambda>name.
      rbind (struct_value (proto E) tid [(''ResolveToonNameToHandle'', marker), (''m_name'', name)]) (\<lambda>v.
      encode_record E PROFILE_RESOLVE_TOON_NAME_REQUEST_COMMAND PROFILE_SLOT tid v)))))"

definition profile_address_value :: "env \<Rightarrow> profile_address \<Rightarrow> bsn_value result" where
  "profile_address_value E address =
     struct_value (proto E) (profile_record_address_type (proto E))
       [(''m_label'', int_of_word (pa_label address)), (''m_id'', int_of_word (pa_id address))]"

definition profile_read :: "env \<Rightarrow> u32 \<Rightarrow> profile_address \<Rightarrow> bytes \<Rightarrow> bytes result" where
  "profile_read E request_id address path =
     (if length path > 255 then Inl (native_text ''profile read path is longer than 255 bytes'')
      else
        rbind (profile_address_value E address) (\<lambda>address.
        record_bytes PROFILE_READ_COMMAND PROFILE_SLOT (seqM
          [write_bits 0 32, write_bits (ucast request_id) 32,
           write_reflected E (profile_record_address_type (proto E)) address,
           write_bits 0 5, write_bits (of_nat (length path)) 8, write_bytes path True])))"

definition temporary_presence :: "env \<Rightarrow> toon_handle list \<Rightarrow> bytes result" where
  "temporary_presence E handles =
     (let tid = temporary_presence_request_type (proto E) in
      if handles = [] \<or> length handles > 10
      then Inl (native_text ''temporary presence requires between one and ten toon handles'')
      else
        rbind (member_type (proto E) tid ''TemporaryPresence'') (\<lambda>marker_type.
        rbind (struct_value (proto E) marker_type []) (\<lambda>marker.
        rbind (member_type (proto E) tid ''m_toonList'') (\<lambda>toon_list_type.
        rbind (array_element (proto E) toon_list_type) (\<lambda>handle_type.
        rbind (rmap (\<lambda>h. struct_value (proto E) handle_type
                 [(''m_region'', int_of_word (th_region h)), (''m_programId'', FourCc (th_program_id h)),
                  (''m_realm'', int_of_word (th_realm h)), (''m_id'', int_of_word (th_id h))]) handles) (\<lambda>handles.
        rbind (struct_value (proto E) tid [(''TemporaryPresence'', marker), (''m_toonList'', Array handles)]) (\<lambda>v.
        encode_record E PRESENCE_TEMPORARY_COMMAND PRESENCE_SLOT tid v)))))))"

definition modify_channel_list_response :: "env \<Rightarrow> u32 \<Rightarrow> u32 \<Rightarrow> bytes result" where
  "modify_channel_list_response E token seconds =
     rbind (incoming_type (proto E) CHAT_SLOT CHAT_MODIFY_CHANNEL_LIST_RESPONSE_COMMAND) (\<lambda>root.
     record_bytes CHAT_MODIFY_CHANNEL_LIST_RESPONSE_COMMAND CHAT_SLOT
       (bindM (liftR (struct_value (proto E) root
                [(''m_token'', int_of_word token), (''m_result'', Choice 0 (int_of_word seconds))]))
          (write_reflected E root)))"

definition chat_party_online :: "env \<Rightarrow> u8 \<Rightarrow> u32 \<Rightarrow> bytes result" where
  "chat_party_online E channel_index member_handle =
     (let tid = chat_status_change_type (proto E) in
      if \<not> channel_index_ok channel_index then Inl channel_index_error
      else
        rbind (member_type (proto E) tid ''m_statusChange'') (\<lambda>status_type.
        rbind (choice_variant (proto E) status_type ''Party'') (\<lambda>(party_index, party_type).
        rbind (struct_value (proto E) party_type
                 [(''m_partyStatus'', Integer 1), (''m_expansionLevel'', Optional (Some (Integer 3))),
                  (''m_captain'', Bool False)]) (\<lambda>party.
        rbind (struct_value (proto E) tid
                 [(''m_channelIndex'', int_of_word channel_index), (''m_memberHandle'', int_of_word member_handle),
                  (''m_statusChange'', Choice party_index party)]) (\<lambda>v.
        encode_record E CHAT_STATUS_CHANGE_COMMAND CHAT_SLOT tid v)))))"

definition club_search_request :: "env \<Rightarrow> u32 \<Rightarrow> bytes \<Rightarrow> bytes result" where
  "club_search_request E token name =
     (let s = cschema (pcodec (proto E)) in
      rbind (unique_type_id s (ascii ''Battlenet::Client::Club::SearchClubsRequest'')) (\<lambda>request_type.
      rbind (unique_type_id s (ascii ''Battlenet::Client::Club::SearchClubsRequest::Search::Name'')) (\<lambda>name_type.
      rbind (unique_type_id s (ascii ''Battlenet::Client::Club::SearchClubs'')) (\<lambda>base_type.
      rbind (struct_value (proto E) name_type
               [(''m_name'', Str name), (''m_type'', Integer 1), (''m_category'', Integer 0), (''m_locale'', FourCc 0)]) (\<lambda>search.
      rbind (struct_value (proto E) base_type [(''m_token'', int_of_word token)]) (\<lambda>base.
      rbind (struct_value (proto E) request_type [(''SearchClubs'', base), (''m_search'', Choice 0 search)]) (\<lambda>v.
      encode_record E S2_MULTIPLAYER_SEARCH_CLUBS_COMMAND S2_MULTIPLAYER_SLOT request_type v)))))))"

text \<open>\<open>unwrap_or\<close> keeps the type of the answer where the request has none of its own.\<close>

definition club_info_request :: "env \<Rightarrow> u32 \<Rightarrow> u32 list \<Rightarrow> bytes result" where
  "club_info_request E token club_ids =
     rbind (incoming_type (proto E) S2_MULTIPLAYER_SLOT S2_MULTIPLAYER_GET_CLUB_INFO_COMMAND) (\<lambda>fallback.
     rbind (case unique_type_id (cschema (pcodec (proto E))) (ascii ''Battlenet::Client::Club::GetClubInfoRequest'') of
              Inr t \<Rightarrow> Inr t
            | Inl e \<Rightarrow> if aborting e then Inl e else Inr fallback) (\<lambda>request_type.
     rbind (struct_value (proto E) request_type
              [(''m_token'', int_of_word token), (''m_clubs'', Array (map int_of_word club_ids))]) (\<lambda>v.
     encode_record E S2_MULTIPLAYER_GET_CLUB_INFO_COMMAND S2_MULTIPLAYER_SLOT request_type v)))"

section \<open>Profile answers\<close>

definition profile_read_response :: "env \<Rightarrow> u32 \<Rightarrow> bsn_value \<Rightarrow> bytes result" where
  "profile_read_response E request_id res =
     record_bytes PROFILE_READ_COMMAND PROFILE_SLOT (seqM
       [write_reflected E (profile_data_response_type (proto E)) res,
        write_reflected E (token_type (proto E)) (int_of_word request_id)])"

definition profile_read_cache :: "env \<Rightarrow> u32 \<Rightarrow> bytes result" where
  "profile_read_cache E request_id = profile_read_response E request_id (Choice 3 Void)"

definition profile_read_start :: "env \<Rightarrow> int \<Rightarrow> u32 \<Rightarrow> bsn_value result" where
  "profile_read_start E packets record_type =
     rbind (choice_variant_by_index (proto E) (profile_data_response_type (proto E)) 0) (\<lambda>start_type.
     struct_value (proto E) start_type [(''m_numPackets'', Integer packets), (''m_type'', int_of_word record_type)])"

definition profile_read_record :: "env \<Rightarrow> u32 \<Rightarrow> u32 \<Rightarrow> bytes \<Rightarrow> (bytes \<times> bytes) result" where
  "profile_read_record E request_id record_type block =
     rbind (profile_read_start E 1 record_type) (\<lambda>start.
     rbind (profile_read_response E request_id (Choice 0 start)) (\<lambda>a.
     rbind (profile_read_response E request_id (Choice 1 (Bytes block))) (\<lambda>b. Inr (a, b))))"

definition profile_read_empty :: "env \<Rightarrow> u32 \<Rightarrow> u32 \<Rightarrow> bytes result" where
  "profile_read_empty E request_id record_type =
     rbind (profile_read_start E 0 record_type) (\<lambda>start. profile_read_response E request_id (Choice 0 start))"

definition write_named :: "env \<Rightarrow> u32 \<Rightarrow> string \<times> bsn_value \<Rightarrow> (writer, unit) op" where
  "write_named E tid = (\<lambda>(name, v). bindM (liftR (member_type (proto E) tid name)) (\<lambda>t. write_reflected E t v))"

definition profile_settings_available :: "env \<Rightarrow> bsn_value \<Rightarrow> bsn_value \<Rightarrow> bsn_value \<Rightarrow> bytes result" where
  "profile_settings_available E profile_type path address =
     rbind (incoming_type (proto E) PROFILE_SLOT PROFILE_SETTINGS_AVAILABLE_COMMAND) (\<lambda>tid.
     record_bytes PROFILE_SETTINGS_AVAILABLE_COMMAND PROFILE_SLOT (seqM
       (map (write_named E tid) [(''m_type'', profile_type), (''m_path'', path), (''m_address'', address)])))"

definition profile_settings_available_record :: "env \<Rightarrow> u32 \<Rightarrow> bytes \<Rightarrow> profile_address \<Rightarrow> bytes result" where
  "profile_settings_available_record E profile_type path address =
     rbind (profile_address_value E address) (\<lambda>address.
     profile_settings_available E (int_of_word profile_type) (Bytes path) address)"

definition profile_settings_response :: "env \<Rightarrow> bytes result" where
  "profile_settings_response E =
     rbind (incoming_type (proto E) PROFILE_SLOT PROFILE_SETTINGS_AVAILABLE_COMMAND) (\<lambda>tid.
     rbind (member_type (proto E) tid ''m_type'') (\<lambda>type_field.
     rbind (member_type (proto E) tid ''m_path'') (\<lambda>path_field.
     rbind (member_type (proto E) tid ''m_address'') (\<lambda>address_field.
     rbind (default_of E type_field) (\<lambda>profile_type.
     rbind (default_of E path_field) (\<lambda>path.
     rbind (default_of E address_field) (\<lambda>address.
     profile_settings_available E profile_type path address)))))))"

section \<open>Toon, site and club answers\<close>

definition toon_welcome_response :: "env \<Rightarrow> bytes result" where
  "toon_welcome_response E =
     rbind (incoming_type (proto E) TOON_SLOT TOON_WELCOME_COMMAND) (\<lambda>tid.
     record_bytes TOON_WELCOME_COMMAND TOON_SLOT (seqM
       ([write_default_field E tid ''m_depotRegion'', write_bits 0 4] @
        map (write_default_field E tid) [''m_isPlayingFromIGR'', ''m_defaultPortrait''] @
        [write_bits 0 31] @
        map (write_default_field E tid) [''m_maxGameServerConnectTimeoutMS'', ''m_programName'', ''m_programFlags''] @
        [write_bits 0 3, write_bits 0 8, write_bits 0 3, write_default_field E tid ''m_maxMapFavorites'',
         encode_generated_utf8 [] 13 4096 1024, encode_generated_utf8 [] 13 4096 1024,
         write_default_field E tid ''m_currentTime''])))"

definition TOON_PROFILE_LABEL :: u32 where
  "TOON_PROFILE_LABEL = 0xCAFEBABE"

definition toon_list_response :: "env \<Rightarrow> bytes \<Rightarrow> u32 \<Rightarrow> u64 \<Rightarrow> u32 \<Rightarrow> bytes result" where
  "toon_list_response E name realm profile_id last_online =
     rbind (incoming_type (proto E) TOON_SLOT TOON_LIST_COMMAND) (\<lambda>root_type.
     rbind (member_type (proto E) root_type ''m_toonDisplays'') (\<lambda>displays.
     rbind (array_element (proto E) displays) (\<lambda>display_type.
     rbind (member_type (proto E) display_type ''m_profile'') (\<lambda>profile_type.
     rbind (member_type (proto E) display_type ''m_realm'') (\<lambda>realm_type.
     if \<not> (2 \<le> char_count name \<and> char_count name \<le> 25) \<or> \<not> (2 \<le> length name \<and> length name \<le> 100)
     then Inl (native_text ''toon name must be 2..=25 chars / 2..=100 bytes'')
     else
       record_bytes TOON_LIST_COMMAND TOON_SLOT
         (bindM (seqM [write_bits 1 6, write_bits (of_nat (length name - 2)) 7, write_bytes name True,
                       write_bits (ucast (last_online XOR 0x80000000)) 32, write_bits 0 3, write_bits 0 32]) (\<lambda>_.
          bindM (liftR (struct_value (proto E) profile_type
                   [(''m_label'', int_of_word TOON_PROFILE_LABEL), (''m_id'', int_of_word profile_id)])) (\<lambda>profile.
          seqM [write_reflected E profile_type profile, write_reflected E realm_type (int_of_word realm)]))))))))"

definition game_site_info_response :: "env \<Rightarrow> bytes result" where
  "game_site_info_response E =
     rbind (incoming_type (proto E) CONNECTION_SLOT CONNECTION_GAME_SITE_INFO_COMMAND) (\<lambda>tid.
     rbind (member_type (proto E) tid ''m_externalIp4Addr'') (\<lambda>external_type.
     rbind (member_type (proto E) tid ''m_siteData'') (\<lambda>sites_type.
     rbind (struct_value (proto E) external_type
              [(''m_address'', Bytes (replicate 4 0)), (''m_port'', Bytes (replicate 2 0))]) (\<lambda>external_value.
     record_bytes CONNECTION_GAME_SITE_INFO_COMMAND CONNECTION_SLOT (seqM
       [write_reflected E external_type external_value, write_reflected E sites_type (Array [])])))))"

definition toon_selected_response :: "env \<Rightarrow> bytes result" where
  "toon_selected_response E =
     rbind (incoming_type (proto E) TOON_SLOT TOON_SELECTED_COMMAND) (\<lambda>tid.
     rbind (member_type (proto E) tid ''m_recordAddress'') (\<lambda>record_address_type.
     rbind (member_type (proto E) tid ''m_toonHandle'') (\<lambda>handle_type.
     rbind (member_type (proto E) tid ''m_realm'') (\<lambda>realm_type.
     rbind (member_type (proto E) tid ''m_lastLogon'') (\<lambda>last_logon_type.
     record_bytes TOON_SELECTED_COMMAND TOON_SLOT (seqM
       [bindM (liftR (default_of E record_address_type)) (write_reflected E record_address_type),
        write_default_field E handle_type ''m_programId'',
        write_default_field E handle_type ''m_region'',
        write_named E handle_type (''m_realm'', Integer 1),
        write_named E handle_type (''m_id'', Integer 42),
        write_reflected E realm_type (Integer 1),
        bindM (liftR (default_of E last_logon_type)) (write_reflected E last_logon_type),
        write_bits (of_nat (length (ascii ''Sunken'') - 2)) 7, write_bytes (ascii ''Sunken'') True]))))))"

definition club_summaries_response :: "u32 \<Rightarrow> bytes result" where
  "club_summaries_response token =
     record_bytes S2_MULTIPLAYER_GET_TOON_CLUBS_COMMAND S2_MULTIPLAYER_SLOT (seqM
       [write_bits 0 1, write_bits 0 8, write_bits 0 32, write_bits (ucast token) 32, write_bits 0 8, write_bits 0 1])"

section \<open>Battle pay\<close>

definition empty_battlepay_wallets_response :: "env \<Rightarrow> bytes result" where
  "empty_battlepay_wallets_response E =
     rbind (unique_type_id (cschema (pcodec (proto E))) (ascii ''Battlenet::Client::BattlePay::GetWalletsResponse'')) (\<lambda>root_type.
     rbind (member_type (proto E) root_type ''GetWallets'') (\<lambda>marker_type.
     rbind (member_type (proto E) root_type ''m_result'') (\<lambda>result_type.
     rbind (choice_variant_by_index (proto E) result_type 0) (\<lambda>success_type.
     rbind (struct_value (proto E) marker_type []) (\<lambda>marker.
     rbind (defaults E success_type [(''m_wallets'', Array [])]) (\<lambda>success.
     rbind (struct_value (proto E) root_type [(''GetWallets'', marker), (''m_result'', Choice 0 success)]) (\<lambda>root.
     encode_data E root_type root)))))))"

definition PRODUCT_CATALOG :: bytes where
  "PRODUCT_CATALOG =
     [0x63, 0x61, 0x74, 0x61, 0x00, 0x00, 0x55, 0x53, 0xa3, 0x6e, 0x1f, 0x84, 0xdb, 0x40, 0x35, 0x0e, 0x10, 0xfb,
      0x6c, 0xf7, 0x46, 0x33, 0x27, 0x87, 0x65, 0xe0, 0xd7, 0xc8, 0x33, 0xf1, 0x49, 0x85, 0x19, 0x74, 0x4f, 0xb1,
      0xd6, 0x90, 0x82, 0xb7]"

definition LICENSE_CATALOG :: bytes where
  "LICENSE_CATALOG =
     [0x63, 0x61, 0x74, 0x61, 0x00, 0x00, 0x55, 0x53, 0x2f, 0x14, 0x3c, 0x9b, 0x1b, 0x2b, 0x7f, 0x2b, 0x1c, 0xfa,
      0x4c, 0xdb, 0x6b, 0x31, 0x27, 0xd3, 0x25, 0x88, 0xf9, 0x83, 0xb5, 0xe1, 0xf6, 0xb1, 0x86, 0xb2, 0x2f, 0xdf,
      0x20, 0xf7, 0x98, 0x61]"

definition empty_battlepay_info_response :: "env \<Rightarrow> bytes result" where
  "empty_battlepay_info_response E =
     rbind (unique_type_id (cschema (pcodec (proto E))) (ascii ''Battlenet::Client::BattlePay::GetInfoResponse'')) (\<lambda>root_type.
     rbind (member_type (proto E) root_type ''GetInfo'') (\<lambda>marker_type.
     rbind (defaults E marker_type []) (\<lambda>marker.
     rbind (defaults E root_type
              [(''GetInfo'', marker), (''m_licenseResult'', Integer 0), (''m_accountCountry'', Bytes (ascii ''USA'')),
               (''m_productCatalog'', Bytes PRODUCT_CATALOG), (''m_licenseCatalog'', Bytes LICENSE_CATALOG),
               (''m_currencies'', Array []), (''m_balances'', Array []), (''m_licenses'', Array [])]) (\<lambda>root.
     encode_data E root_type root))))"

end
