(* ===== verification/Ip_Literal.thy ===== *)
theory Ip_Literal
  imports Byte_Order
begin

text \<open>
  What the program uses of the standard library's \<open>IpAddr\<close>: its parser of IPv4 and IPv6 literals, the octets of
  an address and the dotted form an IPv4 address is printed in.  The parser is the library's: every alternative
  starts again where the failed one began, and the whole text has to be consumed.
\<close>

section \<open>Numbers\<close>

definition digit_of :: "nat \<Rightarrow> u8 \<Rightarrow> nat option" where
  "digit_of radix b =
     (let n = unat b;
          d = if 48 \<le> n \<and> n \<le> 57 then n - 48
              else if 97 \<le> n \<and> n \<le> 122 then n - 87
              else if 65 \<le> n \<and> n \<le> 90 then n - 55
              else radix
      in if d < radix then Some d else None)"

text \<open>The loop of \<open>read_number\<close>: the value has to stay below the bound of its type, the digits within their number.\<close>

fun read_digits :: "nat \<Rightarrow> nat \<Rightarrow> nat \<Rightarrow> nat \<Rightarrow> nat \<Rightarrow> bytes \<Rightarrow> (nat \<times> nat \<times> bytes) option" where
  "read_digits radix bound most acc count [] = Some (acc, count, [])"
| "read_digits radix bound most acc count (b # bs) =
     (case digit_of radix b of
        None \<Rightarrow> Some (acc, count, b # bs)
      | Some d \<Rightarrow>
          if bound \<le> acc * radix + d \<or> most \<le> count then None
          else read_digits radix bound most (acc * radix + d) (count + 1) bs)"

definition read_number :: "nat \<Rightarrow> nat \<Rightarrow> nat \<Rightarrow> bool \<Rightarrow> bytes \<Rightarrow> (nat \<times> bytes) option" where
  "read_number radix bound most zero_prefix bs =
     (case read_digits radix bound most 0 0 bs of
        None \<Rightarrow> None
      | Some (v, count, rest) \<Rightarrow>
          if count = 0 \<or> \<not> zero_prefix \<and> hd bs = 0x30 \<and> 1 < count then None else Some (v, rest))"

definition read_separated :: "u8 \<Rightarrow> nat \<Rightarrow> (bytes \<Rightarrow> ('a \<times> bytes) option) \<Rightarrow> bytes \<Rightarrow> ('a \<times> bytes) option" where
  "read_separated sep i inner bs =
     (if i = 0 then inner bs
      else case bs of [] \<Rightarrow> None | b # rest \<Rightarrow> if b = sep then inner rest else None)"

section \<open>Addresses\<close>

datatype ip_addr = V4 "u8 list" | V6 "u16 list"

fun read_octets :: "nat \<Rightarrow> nat \<Rightarrow> bytes \<Rightarrow> (u8 list \<times> bytes) option" where
  "read_octets i 0 bs = Some ([], bs)"
| "read_octets i (Suc n) bs =
     (case read_separated 0x2E i (read_number 10 256 3 False) bs of
        None \<Rightarrow> None
      | Some (v, rest) \<Rightarrow> (case read_octets (i + 1) n rest of None \<Rightarrow> None | Some (os, rest) \<Rightarrow> Some (of_nat v # os, rest)))"

definition read_ipv4 :: "bytes \<Rightarrow> (u8 list \<times> bytes) option" where
  "read_ipv4 = read_octets 0 4"

fun pair_groups :: "u8 list \<Rightarrow> u16 list" where
  "pair_groups (a # b # os) = (push_bit 8 (ucast a) OR ucast b) # pair_groups os"
| "pair_groups os = []"

text \<open>The groups of one half: an embedded IPv4 address ends it.\<close>

function read_groups :: "nat \<Rightarrow> nat \<Rightarrow> bytes \<Rightarrow> u16 list \<times> bool \<times> bytes" where
  "read_groups limit i bs =
     (if limit \<le> i then ([], False, bs)
      else case (if i < limit - 1 then read_separated 0x3A i read_ipv4 bs else None) of
        Some (os, rest) \<Rightarrow> (pair_groups os, True, rest)
      | None \<Rightarrow>
          (case read_separated 0x3A i (read_number 16 65536 4 True) bs of
             None \<Rightarrow> ([], False, bs)
           | Some (g, rest) \<Rightarrow> (case read_groups limit (i + 1) rest of (gs, v4, rest) \<Rightarrow> (of_nat g # gs, v4, rest))))"
  by pat_completeness auto
termination
  by (relation "measure (\<lambda>(limit, i, bs). limit - i)") auto

declare read_groups.simps [simp del]

definition read_ipv6 :: "bytes \<Rightarrow> (u16 list \<times> bytes) option" where
  "read_ipv6 bs =
     (case read_groups 8 0 bs of (front, front_v4, rest) \<Rightarrow>
        if length front = 8 then Some (front, rest)
        else if front_v4 \<or> take 2 rest \<noteq> [0x3A, 0x3A] then None
        else case read_groups (8 - (length front + 1)) 0 (drop 2 rest) of (rear, _, rest) \<Rightarrow>
          Some (front @ replicate (8 - length front - length rear) 0 @ rear, rest))"

definition parse_ip :: "bytes \<Rightarrow> ip_addr option" where
  "parse_ip bs =
     (case (case read_ipv4 bs of
              Some (os, rest) \<Rightarrow> Some (V4 os, rest)
            | None \<Rightarrow> map_option (\<lambda>(gs, rest). (V6 gs, rest)) (read_ipv6 bs)) of
        Some (a, []) \<Rightarrow> Some a
      | _ \<Rightarrow> None)"

text \<open>\<open>to_ipv6_mapped().octets()\<close> and \<open>octets()\<close>.\<close>

fun ipv6_octets :: "ip_addr \<Rightarrow> bytes" where
  "ipv6_octets (V4 os) = replicate 10 0 @ [0xFF, 0xFF] @ os"
| "ipv6_octets (V6 gs) = concat (map (\<lambda>g. [ucast (drop_bit 8 g), ucast g]) gs)"

section \<open>Sixteen octets\<close>

lemma read_octets_length: "read_octets i n bs = Some (os, rest) \<Longrightarrow> length os = n"
  by (induction i n bs arbitrary: os rest rule: read_octets.induct) (auto split: option.splits)

lemma length_pair_groups: "length os = 4 \<Longrightarrow> length (pair_groups os) = 2"
  by (auto simp: numeral_eq_Suc length_Suc_conv)

lemma read_groups_length: "read_groups limit i bs = (gs, v4, rest) \<Longrightarrow> i \<le> limit \<Longrightarrow> length gs \<le> limit - i"
proof (induction limit i bs arbitrary: gs v4 rest rule: read_groups.induct)
  case (1 limit i bs)
  show ?case
  proof (cases "limit \<le> i")
    case True
    then show ?thesis
      using "1.prems"(1) by (subst (asm) read_groups.simps) auto
  next
    case inside: False
    show ?thesis
    proof (cases "if i < limit - 1 then read_separated 0x3A i read_ipv4 bs else None")
      case (Some p)
      obtain os r where p: "p = (os, r)"
        by fastforce
      then have "length os = 4" "i < limit - 1"
        using Some by (auto simp: read_separated_def read_ipv4_def split: if_split_asm list.splits dest: read_octets_length)
      then show ?thesis
        using "1.prems"(1) inside Some p length_pair_groups[of os] by (subst (asm) read_groups.simps) auto
    next
      case None
      show ?thesis
      proof (cases "read_separated 0x3A i (read_number 16 65536 4 True) bs")
        case None': None
        then show ?thesis
          using "1.prems"(1) inside None by (subst (asm) read_groups.simps) auto
      next
        case (Some p)
        obtain g r gs' v r' where p: "p = (g, r)" "read_groups limit (i + 1) r = (gs', v, r')"
          by (metis prod.collapse)
        then have "length gs' \<le> limit - (i + 1)"
          using "1.IH"[OF inside None Some p(1)[symmetric] p(2)] inside by simp
        moreover have "gs = of_nat g # gs'"
          using "1.prems"(1) inside None Some p by (subst (asm) read_groups.simps) auto
        ultimately show ?thesis
          using inside by simp
      qed
    qed
  qed
qed

lemma read_ipv6_length: "read_ipv6 bs = Some (gs, rest) \<Longrightarrow> length gs = 8"
  by (auto simp: read_ipv6_def split: prod.splits if_split_asm dest!: read_groups_length)

lemma length_group_octets: "length (concat (map (\<lambda>g. [f g, h g]) gs)) = 2 * length gs"
  by (induction gs) simp_all

lemma parse_ip_octets: "parse_ip bs = Some a \<Longrightarrow> length (ipv6_octets a) = 16"
  by (auto simp: parse_ip_def read_ipv4_def length_group_octets split: option.splits list.splits prod.splits
      dest!: read_octets_length read_ipv6_length)

section \<open>Dotted addresses\<close>

definition decimal :: "nat \<Rightarrow> bytes" where
  "decimal n = (if n < 10 then [of_nat (48 + n)]
     else if n < 100 then [of_nat (48 + n div 10), of_nat (48 + n mod 10)]
     else [of_nat (48 + n div 100), of_nat (48 + n div 10 mod 10), of_nat (48 + n mod 10)])"

fun dotted_from :: "nat \<Rightarrow> u8 list \<Rightarrow> bytes" where
  "dotted_from i [] = []"
| "dotted_from i (b # bs) = (if i = 0 then [] else [0x2E]) @ decimal (unat b) @ dotted_from (i + 1) bs"

definition dotted :: "u8 list \<Rightarrow> bytes" where
  "dotted = dotted_from 0"

lemma unat_digit: "d < 10 \<Longrightarrow> unat (of_nat (48 + d) :: u8) = 48 + d"
  by (simp add: unat_of_nat del: of_nat_add)

lemma digit_decimal: "d < 10 \<Longrightarrow> digit_of 10 (of_nat (48 + d)) = Some d"
  unfolding digit_of_def Let_def by (simp add: unat_digit del: of_nat_add)

lemma digit_zero: "d < 10 \<Longrightarrow> (of_nat (48 + d) :: u8) = 0x30 \<longleftrightarrow> d = 0"
  using unat_digit[of d] by (auto simp del: of_nat_add simp: word_eq_iff_unsigned)

lemma read_decimal:
  assumes "n < 256" and stop: "rest = [] \<or> digit_of 10 (hd rest) = None"
  shows "read_number 10 256 3 False (decimal n @ rest) = Some (n, rest)"
proof -
  have stops: "read_digits 10 256 3 a c rest = Some (a, c, rest)" for a c
    using stop by (cases rest) auto
  have "n div 100 * 10 + n div 10 mod 10 = n div 10"
    using div_mult_mod_eq[of "n div 10" 10] by (simp add: div_mult2_eq[symmetric] mult.commute)
  then show ?thesis
    using assms(1) by (auto simp: read_number_def decimal_def digit_decimal digit_zero stops simp del: of_nat_add)
qed

lemma dotted_stops: "0 < i \<Longrightarrow> dotted_from i bs = [] \<or> digit_of 10 (hd (dotted_from i bs)) = None"
  by (cases bs) (simp_all add: digit_of_def)

lemma read_dotted: "read_octets i (length bs) (dotted_from i bs) = Some (bs, [])"
proof (induction bs arbitrary: i)
  case (Cons b bs)
  have "unat b < 256"
    using unsigned_less[of b] by simp
  then have "read_number 10 256 3 False (decimal (unat b) @ dotted_from (Suc i) bs) = Some (unat b, dotted_from (Suc i) bs)"
    using dotted_stops[of "Suc i" bs] by (intro read_decimal) simp_all
  then show ?case
    using Cons.IH[of "Suc i"] by (cases i) (simp_all add: read_separated_def)
qed simp

lemma parse_dotted:
  assumes "length bs = 4"
  shows "parse_ip (dotted bs) = Some (V4 bs)"
  using read_dotted[of 0 bs] assms by (simp add: parse_ip_def read_ipv4_def dotted_def)

end
