(* ===== verification/Bgs_Model.thy ===== *)
theory Bgs_Model
  imports Native_Requests Ip_Literal
begin

text \<open>
  The account service's side of a native connection (\<open>core/src/platform/bgs/model.rs\<close>, \<open>core/src/product.rs\<close>): the
  products, the logon session, the handoff to a native endpoint and the catalogue of an account.  The protobuf
  types are generated code: the fields the program reads are records here and the parsers of messages and URLs
  are arguments.
\<close>

section \<open>Products\<close>

definition model_error :: "string \<Rightarrow> 'a result" where
  "model_error s = Inl (BgsWire (BgsMessage (ascii s)))"

text \<open>\<open>fourcc\<close> asserts the length of its argument; the fold shifts the letters into 32 bits.\<close>

definition fourcc_of :: "bytes \<Rightarrow> u32 result" where
  "fourcc_of s =
     (if 1 \<le> length s \<and> length s \<le> 4 then Inr (foldl (\<lambda>out b. push_bit 8 out OR ucast b) 0 s)
      else Inl (Panic AssertionFailed))"

datatype product = StarCraft2 | Remastered | Warcraft3

record logon_profile =
  lpr_platform :: bytes
  lpr_locale :: bytes
  lpr_sdk_version :: "bytes option"
  lpr_application_version :: u32

definition SC2_BGS_SDK_VERSION :: bytes where
  "SC2_BGS_SDK_VERSION = ascii ''Battle.net Game Service SDK v1.48.2 '' @ [0x22] @ ascii ''cf68e241e0'' @ [0x22]
     @ ascii ''/104 (Jul 14 2026 19:45:54)''"

definition STARCRAFT2_LOGON :: logon_profile where
  "STARCRAFT2_LOGON = \<lparr>lpr_platform = ascii ''Mc64'', lpr_locale = ascii ''enUS'',
     lpr_sdk_version = Some SC2_BGS_SDK_VERSION, lpr_application_version = 0\<rparr>"

definition REMASTERED_LOGON :: logon_profile where
  "REMASTERED_LOGON = \<lparr>lpr_platform = ascii ''Mc64'', lpr_locale = ascii ''enUS'',
     lpr_sdk_version = None, lpr_application_version = 65559\<rparr>"

definition WARCRAFT3_LOGON :: logon_profile where
  "WARCRAFT3_LOGON = \<lparr>lpr_platform = ascii ''Mc64'', lpr_locale = ascii ''enUS'',
     lpr_sdk_version = None, lpr_application_version = 131072\<rparr>"

definition all_products :: "product list" where
  "all_products = [StarCraft2, Remastered, Warcraft3]"

fun product_code :: "product \<Rightarrow> bytes" where
  "product_code StarCraft2 = ascii ''S2''"
| "product_code Remastered = ascii ''S1''"
| "product_code Warcraft3 = ascii ''W3''"

fun product_name :: "product \<Rightarrow> bytes" where
  "product_name StarCraft2 = ascii ''StarCraft II''"
| "product_name Remastered = ascii ''StarCraft: Remastered''"
| "product_name Warcraft3 = ascii ''Warcraft III''"

definition from_code :: "bytes \<Rightarrow> product option" where
  "from_code c = find (\<lambda>p. product_code p = c) all_products"

fun product_slug :: "product \<Rightarrow> bytes" where
  "product_slug StarCraft2 = ascii ''sc2''"
| "product_slug Remastered = ascii ''scr''"
| "product_slug Warcraft3 = ascii ''wc3''"

definition from_slug :: "bytes \<Rightarrow> product option" where
  "from_slug s = find (\<lambda>p. product_slug p = s) all_products"

definition product_fourcc :: "product \<Rightarrow> u32 result" where
  "product_fourcc p = fourcc_of (product_code p)"

fun product_logon :: "product \<Rightarrow> logon_profile option" where
  "product_logon StarCraft2 = Some STARCRAFT2_LOGON"
| "product_logon Remastered = Some REMASTERED_LOGON"
| "product_logon Warcraft3 = Some WARCRAFT3_LOGON"

definition can_sign_in :: "product \<Rightarrow> bool" where
  "can_sign_in p \<longleftrightarrow> product_logon p \<noteq> None"

section \<open>The logon session\<close>

definition secret_new :: "bytes \<Rightarrow> bytes result" where
  "secret_new val = (if val = [] then model_error ''secret byte string cannot be empty'' else Inr val)"

record entity_id =
  ei_high :: u64
  ei_low :: u64

record logon_result =
  lr_error_code :: u32
  lr_account_id :: "entity_id option"
  lr_battle_tag :: "bytes option"
  lr_game_account_id :: "entity_id list"
  lr_available_region :: "u32 list"
  lr_connected_region :: "u32 option"
  lr_restricted_mode :: "bool option"
  lr_session_key :: "bytes option"

record logon_session =
  ls_account_id :: "entity_id option"
  ls_battle_tag :: "bytes option"
  ls_game_account_ids :: "entity_id list"
  ls_available_regions :: "u32 list"
  ls_connected_region :: "u32 option"
  ls_restricted_mode :: bool
  ls_session_key :: bytes

definition logon_session_of :: "logon_result \<Rightarrow> logon_session result" where
  "logon_session_of r =
     (if lr_error_code r \<noteq> 0 then Inl (error.Server (LogonFailed (unat (lr_error_code r))))
      else
        rbind (ok_or (BgsWire (BgsMessage (ascii ''LogonResult has no session key''))) (lr_session_key r)) (\<lambda>key.
        rbind (secret_new key) (\<lambda>key.
        Inr \<lparr>ls_account_id = lr_account_id r, ls_battle_tag = lr_battle_tag r,
             ls_game_account_ids = lr_game_account_id r, ls_available_regions = lr_available_region r,
             ls_connected_region = lr_connected_region r,
             ls_restricted_mode = (case lr_restricted_mode r of Some b \<Rightarrow> b | None \<Rightarrow> False), ls_session_key = key\<rparr>)))"

section \<open>Attributes\<close>

record variant =
  v_bool :: "bool option"
  v_int :: "64 word option"
  v_float :: "64 word option"
  v_string :: "bytes option"
  v_blob :: "bytes option"
  v_message :: "bytes option"
  v_fourcc :: "bytes option"
  v_uint :: "u64 option"
  v_entity_id :: "entity_id option"

definition variant_default :: variant where
  "variant_default = \<lparr>v_bool = None, v_int = None, v_float = None, v_string = None, v_blob = None, v_message = None,
     v_fourcc = None, v_uint = None, v_entity_id = None\<rparr>"

record attribute =
  attr_name :: bytes
  attr_value :: variant

datatype variant_value =
    VBool bool
  | VSigned "64 word"
  | VFloat "64 word"
  | VString bytes
  | VBlob bytes
  | VMessage bytes
  | VFourCc bytes
  | VUnsigned u64
  | VEntityId entity_id

text \<open>The count over the nine fields, and the first one that is present.\<close>

definition variant_decode :: "variant \<Rightarrow> variant_value result" where
  "variant_decode v =
     (let variants = [v_bool v \<noteq> None, v_int v \<noteq> None, v_float v \<noteq> None, v_string v \<noteq> None, v_blob v \<noteq> None,
        v_message v \<noteq> None, v_fourcc v \<noteq> None, v_uint v \<noteq> None, v_entity_id v \<noteq> None] in
      if length (filter id variants) \<noteq> 1
      then model_error ''GameUtilities Variant must contain exactly one typed value''
      else case v_bool v of Some x \<Rightarrow> Inr (VBool x) | None \<Rightarrow>
      (case v_int v of Some x \<Rightarrow> Inr (VSigned x) | None \<Rightarrow>
      (case v_float v of Some x \<Rightarrow> Inr (VFloat x) | None \<Rightarrow>
      (case v_string v of Some x \<Rightarrow> Inr (VString x) | None \<Rightarrow>
      (case v_blob v of Some x \<Rightarrow> Inr (VBlob x) | None \<Rightarrow>
      (case v_message v of Some x \<Rightarrow> Inr (VMessage x) | None \<Rightarrow>
      (case v_fourcc v of Some x \<Rightarrow> Inr (VFourCc x) | None \<Rightarrow>
      (case v_uint v of Some x \<Rightarrow> Inr (VUnsigned x) | None \<Rightarrow>
      (case v_entity_id v of Some x \<Rightarrow> Inr (VEntityId x) | None \<Rightarrow> Inl (Panic Unreachable))))))))))"

definition attribute_string :: "bytes \<Rightarrow> bytes \<Rightarrow> attribute" where
  "attribute_string name val = \<lparr>attr_name = name, attr_value = variant_default\<lparr>v_string := Some val\<rparr>\<rparr>"

definition attribute_blob :: "bytes \<Rightarrow> bytes \<Rightarrow> attribute" where
  "attribute_blob name val = \<lparr>attr_name = name, attr_value = variant_default\<lparr>v_blob := Some val\<rparr>\<rparr>"

fun attribute_text :: "variant_value option \<Rightarrow> bytes \<Rightarrow> bytes result" where
  "attribute_text (Some (VString s)) name = Inr s"
| "attribute_text (Some _) name = Inl (BgsWire (AttributeNot name (ascii ''string'')))"
| "attribute_text None name = Inl (BgsWire (AttributeMissing name))"

fun attribute_bytes :: "variant_value option \<Rightarrow> bytes \<Rightarrow> bytes result" where
  "attribute_bytes (Some (VBlob s)) name = Inr s"
| "attribute_bytes (Some _) name = Inl (BgsWire (AttributeNot name (ascii ''blob'')))"
| "attribute_bytes None name = Inl (BgsWire (AttributeMissing name))"

fun attribute_unsigned :: "variant_value option \<Rightarrow> bytes \<Rightarrow> u64 result" where
  "attribute_unsigned (Some (VUnsigned n)) name = Inr n"
| "attribute_unsigned (Some _) name = Inl (BgsWire (AttributeNot name (ascii ''uint'')))"
| "attribute_unsigned None name = Inl (BgsWire (AttributeMissing name))"

section \<open>The handoff\<close>

definition handoff_names :: "bytes list" where
  "handoff_names = map ascii [''address'', ''session_key'', ''account_region'', ''game_account_name'', ''account_mail'',
     ''logon_response'']"

text \<open>The loop over the attributes; its six destinations are a map from their names.\<close>

fun scan_attributes :: "attribute list \<Rightarrow> (bytes \<rightharpoonup> variant_value) \<Rightarrow> (bytes \<rightharpoonup> variant_value) result" where
  "scan_attributes [] found = Inr found"
| "scan_attributes (a # as) found =
     (if attr_name a \<notin> set handoff_names then scan_attributes as found
      else if found (attr_name a) \<noteq> None then Inl (BgsWire (AttributeTwice (attr_name a)))
      else rbind (variant_decode (attr_value a)) (\<lambda>v. scan_attributes as (found(attr_name a \<mapsto> v))))"

text \<open>\<open>NativeHandoff::decode\<close>, over the protobuf parser of the response.\<close>

definition handoff_decode :: "(bytes \<Rightarrow> attribute list result) \<Rightarrow> bytes \<Rightarrow> native_handoff result" where
  "handoff_decode client_response body =
     rbind (client_response body) (\<lambda>attributes.
     rbind (scan_attributes attributes (\<lambda>_. None)) (\<lambda>found.
     rbind (attribute_text (found (ascii ''address'')) (ascii ''address'')) (\<lambda>address.
     rbind (attribute_bytes (found (ascii ''session_key'')) (ascii ''session_key'')) (\<lambda>session_key.
     rbind (attribute_unsigned (found (ascii ''account_region'')) (ascii ''account_region'')) (\<lambda>region.
     if 256 \<le> unat region then model_error ''SC2 account region is outside byte range''
     else
     rbind (attribute_text (found (ascii ''game_account_name'')) (ascii ''game_account_name'')) (\<lambda>game_account_name.
     rbind (attribute_text (found (ascii ''account_mail'')) (ascii ''account_mail'')) (\<lambda>account_mail.
     rbind (attribute_bytes (found (ascii ''logon_response'')) (ascii ''logon_response'')) (\<lambda>logon_response.
     if address = [] \<or> length address > 255 then model_error ''SC2 native endpoint has an invalid length''
     else if length session_key \<noteq> 64 then model_error ''SC2 native session key is not 64 bytes''
     else if game_account_name = [] \<or> length game_account_name > 32
       then model_error ''SC2 game-account name has an invalid length''
     else if account_mail = [] \<or> length account_mail > 320 then model_error ''SC2 account mail has an invalid length''
     else
     rbind (secret_new session_key) (\<lambda>session_key.
     rbind (secret_new logon_response) (\<lambda>logon_response.
     Inr \<lparr>nh_address = address, nh_session_key = session_key, nh_account_region = ucast region,
          nh_game_account_name = game_account_name, nh_account_mail = account_mail,
          nh_logon_response = logon_response\<rparr>))))))))))"

definition set_address :: "native_handoff \<Rightarrow> bytes \<Rightarrow> native_handoff" where
  "set_address h address = h\<lparr>nh_address := address\<rparr>"

section \<open>The native endpoint\<close>

text \<open>The characters with the White-Space property, as UTF-8, and \<open>str::trim\<close>.\<close>

definition white_space :: "bytes list" where
  "white_space = map (\<lambda>b. [b]) [0x09, 0x0A, 0x0B, 0x0C, 0x0D, 0x20] @ [[0xC2, 0x85], [0xC2, 0xA0], [0xE1, 0x9A, 0x80]]
     @ map (\<lambda>b. [0xE2, 0x80, b]) [0x80, 0x81, 0x82, 0x83, 0x84, 0x85, 0x86, 0x87, 0x88, 0x89, 0x8A, 0xA8, 0xA9, 0xAF]
     @ [[0xE2, 0x81, 0x9F], [0xE3, 0x80, 0x80]]"

definition starts_with :: "bytes \<Rightarrow> bytes \<Rightarrow> bool" where
  "starts_with s p \<longleftrightarrow> take (length p) s = p"

function trim_with :: "bytes list \<Rightarrow> bytes \<Rightarrow> bytes" where
  "trim_with ws s =
     (case find (\<lambda>w. w \<noteq> [] \<and> starts_with s w) ws of
        None \<Rightarrow> s
      | Some w \<Rightarrow> trim_with ws (drop (length w) s))"
  by pat_completeness auto
termination
  by (relation "measure (length \<circ> snd)") (auto simp: starts_with_def find_Some_iff intro!: diff_less)

declare trim_with.simps [simp del]

definition trim :: "bytes \<Rightarrow> bytes" where
  "trim s = rev (trim_with (map rev white_space) (rev (trim_with white_space s)))"

definition has_white_space :: "bytes \<Rightarrow> bool" where
  "has_white_space s \<longleftrightarrow> (\<exists>i \<in> set [0..<length s]. \<exists>w \<in> set white_space. starts_with (drop i s) w)"

text \<open>\<open>split_once(c)\<close>.\<close>

definition split_at_byte :: "u8 \<Rightarrow> bytes \<Rightarrow> (bytes \<times> bytes) option" where
  "split_at_byte c s = (if c \<in> set s then Some (takeWhile (\<lambda>b. b \<noteq> c) s, tl (dropWhile (\<lambda>b. b \<noteq> c) s)) else None)"

text \<open>\<open>str::parse::<u16>\<close>: an optional plus sign and decimal digits.\<close>

fun decimal_digits :: "nat \<Rightarrow> bytes \<Rightarrow> nat option" where
  "decimal_digits acc [] = Some acc"
| "decimal_digits acc (b # bs) =
     (case digit_of 10 b of
        None \<Rightarrow> None
      | Some d \<Rightarrow> if 65536 \<le> acc * 10 + d then None else decimal_digits (acc * 10 + d) bs)"

definition parse_port :: "bytes \<Rightarrow> u16 result" where
  "parse_port val =
     (let digits = if take 1 val = [0x2B] then drop 1 val else val in
      case (if digits = [] then None else decimal_digits 0 digits) of
        None \<Rightarrow> model_error ''SC2 native endpoint port is not numeric''
      | Some n \<Rightarrow> Inr (of_nat n))"

definition bracketed_endpoint :: "bytes \<Rightarrow> u16 \<Rightarrow> (bytes \<times> u16) result" where
  "bracketed_endpoint val default_port =
     (case split_at_byte 0x5D val of
        None \<Rightarrow> model_error ''SC2 native endpoint has invalid IPv6 syntax''
      | Some (host, suffix) \<Rightarrow>
          rbind (if suffix = [] then Inr default_port
                 else if hd suffix = 0x3A then parse_port (tl suffix)
                 else model_error ''SC2 native endpoint has invalid IPv6 syntax'') (\<lambda>port.
          Inr (host, port)))"

definition endpoint :: "native_handoff \<Rightarrow> u16 \<Rightarrow> (bytes \<times> u16) result" where
  "endpoint h default_port =
     (let val = trim (nh_address h) in
      rbind (if take 1 val = [0x5B] then bracketed_endpoint (drop 1 val) default_port
             else if length (filter (\<lambda>b. b = 0x3A) val) = 1 then
               (case split_at_byte 0x3A val of
                  None \<Rightarrow> model_error ''SC2 native endpoint is malformed''
                | Some (host, port) \<Rightarrow> rbind (parse_port port) (\<lambda>port. Inr (host, port)))
             else Inr (val, default_port)) (\<lambda>(host, port).
      if host = [] \<or> has_white_space host then model_error ''SC2 native endpoint has an invalid host''
      else if 0x3A \<in> set host \<and> parse_ip host = None then model_error ''SC2 native endpoint has invalid IPv6 syntax''
      else Inr (host, port)))"

section \<open>Requests of the account service\<close>

record logon_message =
  lm_program :: "bytes option"
  lm_platform :: "bytes option"
  lm_locale :: "bytes option"
  lm_version :: "bytes option"
  lm_application_version :: "32 word option"
  lm_allow_logon_queue_notifications :: "bool option"
  lm_cached_web_credentials :: "bytes option"

definition default_logon_request :: "product \<Rightarrow> bytes option \<Rightarrow> logon_message result" where
  "default_logon_request p cached =
     rbind (ok_or (BgsWire (NoLogonProfile (product_name p))) (product_logon p)) (\<lambda>profile.
     Inr \<lparr>lm_program = Some (product_code p), lm_platform = Some (lpr_platform profile),
          lm_locale = Some (lpr_locale profile), lm_version = lpr_sdk_version profile,
          lm_application_version = Some (lpr_application_version profile),
          lm_allow_logon_queue_notifications = Some True, lm_cached_web_credentials = cached\<rparr>)"

record client_request =
  crq_attributes :: "attribute list"
  crq_game_account_id :: "entity_id option"

definition build_front_request :: "logon_session \<Rightarrow> client_request result" where
  "build_front_request s =
     (case ls_game_account_ids s of
        [] \<Rightarrow> model_error ''LogonResult named no game account for this product''
      | account # _ \<Rightarrow>
          Inr \<lparr>crq_attributes =
                 [attribute_string (ascii ''LogonTokenRequest'') (ascii ''0.0.1''),
                  attribute_string (ascii ''environment'') (ascii ''US''),
                  attribute_blob (ascii ''session_key'') (ls_session_key s),
                  attribute_string (ascii ''locale'') (ascii ''enUS'')],
               crq_game_account_id = Some account\<rparr>)"

text \<open>A parsed URL shows its scheme and its host.\<close>

record url =
  url_scheme :: bytes
  url_host :: "bytes option"
  url_text :: bytes

definition ends_with :: "bytes \<Rightarrow> bytes \<Rightarrow> bool" where
  "ends_with s p \<longleftrightarrow> length p \<le> length s \<and> drop (length s - length p) s = p"

definition challenge_url :: "(bytes \<Rightarrow> url option) \<Rightarrow> bytes option \<Rightarrow> bytes option \<Rightarrow> url result" where
  "challenge_url parse_url payload_type payload =
     (if payload_type \<noteq> Some (ascii ''web_auth_url'') then Inl (Authentication (UnsupportedChallenge payload_type))
      else
        rbind (ok_or (BgsWire (BgsMessage (ascii ''external challenge has no payload''))) payload) (\<lambda>payload.
        rbind (ok_or (BgsWire (BgsMessage (ascii ''web authentication URL is not UTF-8''))) (from_utf8 payload)) (\<lambda>text.
        rbind (ok_or UrlParse (parse_url text)) (\<lambda>u.
        let allowed_host = (case url_host u of Some host \<Rightarrow> ends_with host (ascii ''.account.battle.net'') | None \<Rightarrow> False) in
        if url_scheme u \<noteq> ascii ''https'' \<or> \<not> allowed_host then Inl (Authentication UnexpectedUrl)
        else Inr u))))"

section \<open>The catalogue of an account\<close>

record account_license =
  al_id :: u32
  al_expires :: "u64 option"

record game_level_info =
  gl_program :: "u32 option"
  gl_name :: "bytes option"
  gl_is_trial :: "bool option"
  gl_is_restricted :: "bool option"

text \<open>Of the account state: the licences of its level information, when there is one, the game levels, and the
  program of every handle of every list.\<close>

record account_state =
  as_licenses :: "account_license list option"
  as_game_levels :: "game_level_info list"
  as_game_accounts :: "u32 list list"

record game_program =
  gp_program :: u32
  gp_name :: "bytes option"
  gp_is_trial :: bool
  gp_is_restricted :: bool
  gp_accounts :: nat

record account_catalog =
  cat_licenses :: "account_license list"
  cat_games :: "game_program list"

definition level_program :: "game_level_info \<Rightarrow> game_program option" where
  "level_program level = map_option (\<lambda>program.
     \<lparr>gp_program = program, gp_name = gl_name level,
      gp_is_trial = (case gl_is_trial level of Some b \<Rightarrow> b | None \<Rightarrow> False),
      gp_is_restricted = (case gl_is_restricted level of Some b \<Rightarrow> b | None \<Rightarrow> False), gp_accounts = 0\<rparr>) (gl_program level)"

text \<open>One handle: the first record of its program counts it, or a new record is appended.\<close>

fun count_handle :: "u32 \<Rightarrow> game_program list \<Rightarrow> game_program list" where
  "count_handle program [] = [\<lparr>gp_program = program, gp_name = None, gp_is_trial = False, gp_is_restricted = False, gp_accounts = 1\<rparr>]"
| "count_handle program (g # gs) =
     (if gp_program g = program then g\<lparr>gp_accounts := gp_accounts g + 1\<rparr> # gs else g # count_handle program gs)"

definition programs_of_state :: "account_state option \<Rightarrow> game_program list" where
  "programs_of_state state =
     (case state of
        None \<Rightarrow> []
      | Some st \<Rightarrow>
          fold (fold count_handle) (as_game_accounts st) (List.map_filter level_program (as_game_levels st)))"

definition catalog_of_state :: "account_state option \<Rightarrow> account_catalog" where
  "catalog_of_state state =
     \<lparr>cat_licenses = (case Option.bind state as_licenses of Some ls \<Rightarrow> ls | None \<Rightarrow> []), cat_games = programs_of_state state\<rparr>"

definition active_license :: "account_catalog \<Rightarrow> u64 \<Rightarrow> u32 list \<Rightarrow> bool" where
  "active_license c now wanted \<longleftrightarrow>
     (\<exists>l \<in> set (cat_licenses c). al_id l \<in> set wanted \<and> (case al_expires l of None \<Rightarrow> True | Some e \<Rightarrow> now < e))"

definition has_game_account :: "account_catalog \<Rightarrow> product \<Rightarrow> bool" where
  "has_game_account c p \<longleftrightarrow> (\<exists>g \<in> set (cat_games c). product_fourcc p = Inr (gp_program g) \<and> 0 < gp_accounts g)"

definition retail_products_at :: "account_catalog \<Rightarrow> u64 \<Rightarrow> bool \<Rightarrow> product list" where
  "retail_products_at c now playing_from_igr =
     [StarCraft2]
     @ (if active_license c now [17019] \<or> has_game_account c Remastered then [Remastered] else [])
     @ (if active_license c now [34998, 9, 13] \<or> playing_from_igr then [Warcraft3] else [])"

text \<open>\<open>char::from\<close> of a byte is a character below U+0100, which UTF-8 writes in one or two bytes.\<close>

definition latin1 :: "u8 \<Rightarrow> bytes" where
  "latin1 b = (if b < 0x80 then [b] else [0xC0 OR drop_bit 6 b, 0x80 OR (b AND 0x3F)])"

definition program_code :: "game_program \<Rightarrow> bytes" where
  "program_code g = concat (map latin1 (filter (\<lambda>b. b \<noteq> 0) (to_be 4 (unat (gp_program g)))))"

end
