(* ===== verification/Decode_Toon.thy ===== *)
theory Decode_Toon
  imports Decode_Values
begin

text \<open>
  The decoders of the connection, profile and toon records (\<open>core/src/games/sc2/native/decode.rs\<close>), with the
  provenance of what they read; a decoder that is written out twice in the source has both forms here.
\<close>

section \<open>Connection\<close>

definition message_frame_header :: "bsn_value \<Rightarrow> (u32 \<times> bsn_field list) result" where
  "message_frame_header v = ok_or (native_text ''message frame header is not a struct'') (as_struct v)"

definition message_frame_with_provenance :: "env \<Rightarrow> u32 \<Rightarrow> (reader, decoded_payload) op" where
  "message_frame_with_provenance E tid =
     custom_decoder
       (bindM (traced_reflected_field E tid ''m_payload'' (ascii ''value.m_payload'') 1) (\<lambda>v.
        bindM (liftR (bytes_of_value v ''message frame payload'')) (\<lambda>data.
        bindM (traced_reflected_field E tid ''m_frameType'' (ascii ''value.m_frameType'') 1) (\<lambda>v.
        bindM (liftR (int_of_value v ''message frame type'')) (\<lambda>frame_type.
        bindM (traced_reflected_field E tid ''m_headers'' (ascii ''value.m_headers'') 1) (\<lambda>v.
        case v of
          Array vs \<Rightarrow>
            bindM (liftR (rmap message_frame_header vs)) (\<lambda>headers.
            ret (MessageFrame \<lparr>cm_frame_type = frame_type, cm_headers = headers, cm_payload = data\<rparr>))
        | _ \<Rightarrow> fail (native_text ''message frame headers are not an array'')))))))
       ''MessageFrame'' ''3 fields''"

definition decode_message_frame :: "env \<Rightarrow> u32 \<Rightarrow> (reader, payload) op" where
  "decode_message_frame E tid = payload_of (message_frame_with_provenance E tid)"

fun array_count :: "bsn_value \<Rightarrow> nat" where
  "array_count (Array vs) = length vs"
| "array_count _ = 0"

definition startup :: "string \<Rightarrow> nat \<Rightarrow> bool option \<Rightarrow> payload" where
  "startup knd n complete = StartupSummary \<lparr>su_kind = ascii knd, su_item_count = n, su_complete = complete\<rparr>"

definition decode_game_site_info :: "env \<Rightarrow> u32 \<Rightarrow> (reader, payload) op" where
  "decode_game_site_info E tid =
     bindM (liftR (member_type (proto E) tid ''m_externalIp4Addr'')) (\<lambda>external.
     bindM (liftR (member_type (proto E) tid ''m_siteData'')) (\<lambda>sites.
     bindM (reflected_plain E external) (\<lambda>_.
     bindM (reflected_plain E sites) (\<lambda>v.
     ret (startup ''game-site-info'' (array_count v) None)))))"

definition game_site_info_with_provenance :: "env \<Rightarrow> u32 \<Rightarrow> (reader, decoded_payload) op" where
  "game_site_info_with_provenance E tid =
     custom_decoder
       (bindM (traced_reflected_field E tid ''m_externalIp4Addr'' (ascii ''value.m_externalIp4Addr'') 1) (\<lambda>_.
        bindM (traced_reflected_field E tid ''m_siteData'' (ascii ''value.m_siteData'') 1) (\<lambda>v.
        ret (startup ''game-site-info'' (array_count v) None))))
       ''GameSiteInfo'' ''2 fields''"

section \<open>Profiles\<close>

fun skip_reflected :: "env \<Rightarrow> u32 \<Rightarrow> string list \<Rightarrow> (reader, unit) op" where
  "skip_reflected E tid [] = ret ()"
| "skip_reflected E tid (name # names) =
     bindM (liftR (member_type (proto E) tid name)) (\<lambda>t.
     bindM (reflected_plain E t) (\<lambda>_. skip_reflected E tid names))"

fun trace_fields :: "env \<Rightarrow> u32 \<Rightarrow> string list \<Rightarrow> bytes \<Rightarrow> nat \<Rightarrow> unit tracer" where
  "trace_fields E tid [] path depth = ret ()"
| "trace_fields E tid (name # names) path depth =
     bindM (traced_reflected_field E tid name (path @ ascii ''.'' @ ascii name) depth) (\<lambda>_.
     trace_fields E tid names path depth)"

abbreviation profile_settings_names :: "string list" where
  "profile_settings_names \<equiv> [''m_type'', ''m_path'', ''m_address'']"

definition decode_profile_settings :: "env \<Rightarrow> u32 \<Rightarrow> (reader, payload) op" where
  "decode_profile_settings E tid =
     bindM (skip_reflected E tid profile_settings_names) (\<lambda>_. ret (startup ''profile-settings'' 1 None))"

definition profile_settings_with_provenance :: "env \<Rightarrow> u32 \<Rightarrow> (reader, decoded_payload) op" where
  "profile_settings_with_provenance E tid =
     custom_decoder
       (bindM (trace_fields E tid profile_settings_names (ascii ''value'') 1) (\<lambda>_.
        ret (startup ''profile-settings'' 1 None)))
       ''ProfileSettings'' ''3 fields''"

definition read_result_of :: "int \<Rightarrow> bsn_value \<Rightarrow> profile_read_result result" where
  "read_result_of index v =
     (if index = 0 then
        rbind (struct_or ''profile read start is not a struct'' (Some v)) (\<lambda>fs.
        rbind (field_or ''profile read start omits packet count'' fs ''m_numPackets'') (\<lambda>n.
        rbind (plain_u32_of_value n ''profile read packet count'') (\<lambda>packet_count.
        rbind (field_or ''profile read start omits record type'' fs ''m_type'') (\<lambda>t.
        rbind (int_of_value t ''profile read record type'') (\<lambda>record_type.
        Inr (PrStart packet_count record_type))))))
      else if index = 1 then rbind (bytes_of_value v ''profile read block'') (\<lambda>bs. Inr (PrBlock bs))
      else if index = 2 then rbind (u16_of_value v ''profile read failure'') (\<lambda>c. Inr (PrFailure c))
      else if index = 3 then Inr PrCache
      else Inl (native_text ''profile read result has an unknown choice''))"

definition profile_read_with_provenance :: "env \<Rightarrow> u32 \<Rightarrow> u32 \<Rightarrow> (reader, decoded_payload) op" where
  "profile_read_with_provenance E result_type token_tid =
     custom_decoder
       (bindM (trace_reflected E result_type (ascii ''value.result'') 1) (\<lambda>result_value.
        bindM (trace_reflected E token_tid (ascii ''value.request_id'') 1) (\<lambda>request.
        bindM (liftR (plain_u32_of_value request ''profile read request id'')) (\<lambda>request_id.
        bindM (liftR (ok_or (native_text ''profile read result is not a choice'') (as_choice result_value))) (\<lambda>(index, v).
        bindM (liftR (read_result_of index v)) (\<lambda>res.
        ret (ProfileRead \<lparr>prr_request_id = request_id, prr_result = res\<rparr>)))))))
       ''ProfileRead'' ''2 fields''"

definition decode_profile_read :: "env \<Rightarrow> u32 \<Rightarrow> u32 \<Rightarrow> (reader, payload) op" where
  "decode_profile_read E result_type token_tid = payload_of (profile_read_with_provenance E result_type token_tid)"

text \<open>The result of an address query, below its optional.\<close>

definition address_result :: "bsn_value \<Rightarrow> (profile_address option \<times> u32 option) result" where
  "address_result v =
     rbind (ok_or (native_text ''profile address query result is not a choice'') (as_choice v)) (\<lambda>(index, v).
     if index = 0 then
       rbind (ok_or (native_text ''profile address query success result is absent'') (unwrap_optional v)) (\<lambda>v.
       rbind (struct_or ''profile address query success result is not a struct'' (Some v)) (\<lambda>fs.
       rbind (field_or ''profile address query omitted its address'' fs ''m_address'') (\<lambda>a.
       rbind (profile_address_from_value a) (\<lambda>address. Inr (address, None)))))
     else if index = 1 then
       rbind (ok_or (native_text ''profile address query failure result is absent'') (unwrap_optional v)) (\<lambda>v.
       rbind (struct_or ''profile address query failure result is not a struct'' (Some v)) (\<lambda>fs.
       rbind (field_or ''profile address query omitted its error'' fs ''m_error'') (\<lambda>c.
       rbind (u32_of_value c ''profile address query error'') (\<lambda>c. Inr (None, Some c)))))
     else Inl (Native (NativeMessage (ascii ''profile address query returned unknown result '' @ decimal index))))"

definition profile_address_query_value :: "bsn_value \<Rightarrow> payload result" where
  "profile_address_query_value v =
     rbind (struct_or ''profile address query response is not a struct'' (Some v)) (\<lambda>fs.
     rbind (field_or ''profile address query omitted its request id'' fs ''m_requestId'') (\<lambda>i.
     rbind (u32_of_value i ''profile address query request id'') (\<lambda>request_id.
     rbind (field_or ''profile address query omitted its result'' fs ''m_result'') (\<lambda>res.
     rbind (ok_or (native_text ''profile address query result is absent'') (unwrap_optional res)) (\<lambda>res.
     rbind (address_result res) (\<lambda>(address, err).
     Inr (ProfileAddressQuery \<lparr>paq_request_id = request_id, paq_address = address, paq_error = err\<rparr>)))))))"

definition profile_address_query_with_provenance :: "env \<Rightarrow> u32 \<Rightarrow> (reader, decoded_payload) op" where
  "profile_address_query_with_provenance E tid = reflected_payload E tid profile_address_query_value"

definition decode_profile_address_query :: "env \<Rightarrow> u32 \<Rightarrow> (reader, payload) op" where
  "decode_profile_address_query E tid = payload_of (profile_address_query_with_provenance E tid)"

definition toon_name_resolved_value :: "bsn_value \<Rightarrow> payload result" where
  "toon_name_resolved_value v =
     rbind (struct_or ''toon-name response is not a struct'' (Some v)) (\<lambda>root.
     rbind (field_or ''toon-name response omits its name'' root ''m_name'') (\<lambda>name.
     rbind (toon_full_name_from_value name) (\<lambda>name.
     rbind (field_or ''toon-name response omits its result'' root ''m_result'') (\<lambda>res.
     rbind (u16_of_value res ''toon-name result'') (\<lambda>res.
     rbind (field_or ''toon-name response omits its handle field'' root ''m_handle'') (\<lambda>handle.
     rbind (toon_handle_from_value handle) (\<lambda>handle.
     Inr (ToonNameResolved \<lparr>tnr_name = name, tnr_result = res, tnr_handle = handle\<rparr>))))))))"

definition decode_toon_name_resolved :: "env \<Rightarrow> u32 \<Rightarrow> (reader, payload) op" where
  "decode_toon_name_resolved E tid = bindM (reflected_plain E tid) (\<lambda>v. liftR (toon_name_resolved_value v))"

definition toon_name_resolved_with_provenance :: "env \<Rightarrow> u32 \<Rightarrow> (reader, decoded_payload) op" where
  "toon_name_resolved_with_provenance E tid = reflected_payload E tid toon_name_resolved_value"

definition optional_result :: "('a \<Rightarrow> 'b result) \<Rightarrow> 'a option \<Rightarrow> 'b option result" where
  "optional_result f v = (case v of None \<Rightarrow> Inr None | Some x \<Rightarrow> rbind (f x) (\<lambda>y. Inr (Some y)))"

definition member_clan_tag_value :: "bsn_value \<Rightarrow> payload result" where
  "member_clan_tag_value v =
     rbind (struct_or ''member-clan-tag response is not a struct'' (Some v)) (\<lambda>root.
     rbind (struct_or ''member-clan-tag response omits its request token''
              (struct_get root (ascii ''GetMemberClanTags''))) (\<lambda>request.
     rbind (field_or ''member-clan-tag response omits its token'' request ''m_token'') (\<lambda>token.
     rbind (u32_of_value token ''member-clan-tag token'') (\<lambda>token.
     rbind (field_or ''member-clan-tag response omits its result'' root ''m_result'') (\<lambda>res.
     rbind (u16_of_value res ''member-clan-tag result'') (\<lambda>res.
     rbind (optional_result (\<lambda>v. u32_of_value v ''member clan id'')
              (Option.bind (struct_get root (ascii ''m_clubId'')) unwrap_optional)) (\<lambda>club_id.
     let tag = Option.bind (Option.bind (struct_get root (ascii ''m_clubTag'')) unwrap_optional) bsn_string in
     Inr (MemberClanTag \<lparr>mct_token = token, mct_result = res, mct_club_id = club_id,
            mct_tag = (if tag = Some [] then None else tag)\<rparr>))))))))"

definition decode_member_clan_tag :: "env \<Rightarrow> u32 \<Rightarrow> (reader, payload) op" where
  "decode_member_clan_tag E tid = bindM (reflected_plain E tid) (\<lambda>v. liftR (member_clan_tag_value v))"

definition member_clan_tag_with_provenance :: "env \<Rightarrow> u32 \<Rightarrow> (reader, decoded_payload) op" where
  "member_clan_tag_with_provenance E tid = reflected_payload E tid member_clan_tag_value"

section \<open>Toons\<close>

definition toon_display_item :: "env \<Rightarrow> u32 \<Rightarrow> u32 \<Rightarrow> nat \<Rightarrow> (reader, toon_display \<times> decoded_field list) op" where
  "toon_display_item E profile_type realm_type i =
     (let path = indexed ''value.displays'' i in
      bindM here_bit (\<lambda>display_start.
      bindM (decode_spanned_generated_utf8 7 2 100 25) (\<lambda>name.
      bindM read_spanned_i32 (\<lambda>last_online.
      bindM (read_spanned_u64 3) (\<lambda>wire_layout.
      bindM (read_spanned_u32 32) (\<lambda>flags.
      bindM (reflected_at E profile_type (path @ ascii ''.profile'') 3) (\<lambda>profile.
      bindM (reflected_at E realm_type (path @ ascii ''.realm'') 3) (\<lambda>realm.
      bindM (liftR (plain_u32_of_value (dv_value realm) ''toon realm'')) (\<lambda>realm_value.
      bindM here_bit (\<lambda>display_end.
      ret (\<lparr>td_name = sv_value name, td_realm = realm_value\<rparr>,
        [plain_field path ''Toon.Display'' (ascii ''5 fields'') display_start display_end 2,
         spanned_field (\<lambda>s. s) (path @ ascii ''.name'') ''string'' name 3,
         spanned_field int32_text (path @ ascii ''.last_online'') ''int32'' last_online 3,
         spanned_field word_text (path @ ascii ''.wire_layout_selector'') ''obfuscation selector'' wire_layout 3,
         spanned_field word_text (path @ ascii ''.flags'') ''uint32'' flags 3] @
        tv_fields profile @ tv_fields realm)))))))))))"

definition toon_list_with_provenance :: "env \<Rightarrow> u32 \<Rightarrow> (reader, decoded_payload) op" where
  "toon_list_with_provenance E tid =
     bindM (liftR (member_type (proto E) tid ''m_toonDisplays'')) (\<lambda>displays_field.
     bindM (liftR (array_element (proto E) displays_field)) (\<lambda>display_type.
     bindM (liftR (member_type (proto E) display_type ''m_profile'')) (\<lambda>profile_type.
     bindM (liftR (member_type (proto E) display_type ''m_realm'')) (\<lambda>realm_type.
     bindM here_bit (\<lambda>payload_start.
     bindM (read_spanned_usize 6) (\<lambda>count.
     if sv_value count > 50 then fail (native_text ''native ToonList contains too many displays'')
     else
     bindM (read_items (sv_value count) (toon_display_item E profile_type realm_type)) (\<lambda>(displays, fs).
     bindM here_bit (\<lambda>payload_end.
     ret \<lparr>dp_payload = ToonList \<lparr>tl_displays = displays\<rparr>,
       dp_provenance = sort_provenance
         ([plain_field (ascii ''value.displays.count'') ''array length'' (decimal_nat (sv_value count))
             (sv_start count) (sv_end count) 2] @ fs @
          [array_field ''value.displays'' (length displays) (sv_start count) payload_end,
           plain_field (ascii ''value'') ''ToonList'' (ascii ''1 field'') payload_start payload_end 0])\<rparr>))))))))"

definition decode_toon_list :: "env \<Rightarrow> u32 \<Rightarrow> (reader, payload) op" where
  "decode_toon_list E tid = payload_of (toon_list_with_provenance E tid)"

text \<open>A member of a toon handle: a four-character code or an integer.\<close>

definition handle_part :: "string \<Rightarrow> bsn_value \<Rightarrow> u64 result" where
  "handle_part label v =
     (case v of FourCc c \<Rightarrow> Inr (ucast c)
      | _ \<Rightarrow> rbind (int_of_value v label) (narrow_int 64 (native_label label '' field is outside u64'')))"

definition narrow_word :: "nat \<Rightarrow> string \<Rightarrow> u64 \<Rightarrow> 'a::len word result" where
  "narrow_word width message w = (if unat w < 2 ^ width then Inr (ucast w) else Inl (native_text message))"

definition selected_handle_part :: "env \<Rightarrow> u32 \<Rightarrow> string \<Rightarrow> u64 tracer" where
  "selected_handle_part E handle_type name =
     bindM (traced_reflected_field E handle_type name (ascii ''value.handle.'' @ ascii name) 2) (\<lambda>v.
     liftR (handle_part ''selected toon handle'' v))"

definition toon_selected_with_provenance :: "env \<Rightarrow> u32 \<Rightarrow> (reader, decoded_payload) op" where
  "toon_selected_with_provenance E tid =
     bindM (liftR (member_type (proto E) tid ''m_recordAddress'')) (\<lambda>record_address.
     bindM (liftR (member_type (proto E) tid ''m_toonHandle'')) (\<lambda>handle_type.
     bindM (liftR (member_type (proto E) tid ''m_realm'')) (\<lambda>realm_type.
     bindM (liftR (member_type (proto E) tid ''m_lastLogon'')) (\<lambda>last_logon_type.
     custom_decoder
       (bindM (trace_reflected E record_address (ascii ''value.record_address'') 1) (\<lambda>_.
        bindM trace_here (\<lambda>handle_start.
        bindM (selected_handle_part E handle_type ''m_programId'') (\<lambda>program.
        bindM (selected_handle_part E handle_type ''m_region'') (\<lambda>region.
        bindM (selected_handle_part E handle_type ''m_realm'') (\<lambda>handle_realm.
        bindM (selected_handle_part E handle_type ''m_id'') (\<lambda>i.
        bindM trace_here (\<lambda>handle_end.
        bindM (push_fields [plain_field (ascii ''value.handle'') ''ToonHandle'' (ascii ''4 fields'') handle_start handle_end 1]) (\<lambda>_.
        bindM (liftR (narrow_word 32 ''selected toon program id is outside u32'' program)) (\<lambda>program.
        bindM (liftR (narrow_word 8 ''selected toon region is outside u8'' region)) (\<lambda>region.
        bindM (liftR (narrow_word 32 ''selected toon realm is outside u32'' handle_realm)) (\<lambda>handle_realm.
        bindM (reading (reflected_at E realm_type (ascii ''value.realm'') 1)) (\<lambda>realm.
        bindM (liftR (plain_u32_of_value (dv_value realm) ''selected toon realm'')) (\<lambda>realm_value.
        bindM (push_fields (tv_fields realm)) (\<lambda>_.
        bindM (trace_reflected E last_logon_type (ascii ''value.last_logon'') 1) (\<lambda>_.
        bindM (reading (decode_spanned_generated_utf8 7 2 100 25)) (\<lambda>name.
        bindM (push_fields [spanned_field (\<lambda>s. s) (ascii ''value.name'') ''string'' name 1]) (\<lambda>_.
        ret (ToonSelected \<lparr>ts_name = sv_value name, ts_realm = realm_value,
          ts_handle = \<lparr>th_region = region, th_program_id = program, th_realm = handle_realm, th_id = i\<rparr>\<rparr>)))))))))))))))))))
       ''ToonSelected'' ''5 fields''))))"

definition decode_toon_selected :: "env \<Rightarrow> u32 \<Rightarrow> (reader, payload) op" where
  "decode_toon_selected E tid = payload_of (toon_selected_with_provenance E tid)"

section \<open>The welcome of a toon\<close>

text \<open>A length in front of an array: its span, read and pushed.\<close>

definition trace_count :: "nat \<Rightarrow> nat option \<Rightarrow> string \<Rightarrow> bytes \<Rightarrow> nat \<Rightarrow> nat spanned_value tracer" where
  "trace_count width limit message path depth =
     bindM (reading (read_spanned_usize width)) (\<lambda>count.
     if (case limit of None \<Rightarrow> False | Some n \<Rightarrow> sv_value count > n) then fail (native_text message)
     else bindM (push_fields [spanned_field decimal_nat path ''array length'' count depth]) (\<lambda>_. ret count))"

definition trace_selector :: "nat \<Rightarrow> bytes \<Rightarrow> string \<Rightarrow> nat \<Rightarrow> unit tracer" where
  "trace_selector width path knd depth =
     bindM (reading (read_spanned_u64 width)) (\<lambda>v. push_fields [spanned_field word_text path knd v depth])"

text \<open>The field that spans what a step has read.\<close>

definition enclosing :: "unit tracer \<Rightarrow> bytes \<Rightarrow> string \<Rightarrow> bytes \<Rightarrow> nat \<Rightarrow> unit tracer" where
  "enclosing m path knd val depth =
     bindM trace_here (\<lambda>start. bindM m (\<lambda>_. bindM trace_here (\<lambda>stop.
     push_fields [plain_field path knd val start stop depth])))"

definition close_array :: "string \<Rightarrow> nat spanned_value \<Rightarrow> unit tracer" where
  "close_array path count =
     bindM trace_here (\<lambda>stop. push_fields [array_field path (sv_value count) (sv_start count) stop])"

definition trace_achievement :: "env \<Rightarrow> u32 \<Rightarrow> nat \<Rightarrow> unit tracer" where
  "trace_achievement E achievement_type i =
     (let path = indexed ''value.achievements'' i in
      enclosing (trace_fields E achievement_type [''m_handle'', ''m_program''] path 3) path ''AchievementHandle'' (ascii ''2 fields'') 2)"

definition trace_realm_map :: "env \<Rightarrow> u32 \<Rightarrow> u32 \<Rightarrow> nat \<Rightarrow> unit tracer" where
  "trace_realm_map E handle_type from_type i =
     (let path = indexed ''value.realm_map'' i in
      enclosing
        (bindM (trace_fields E handle_type [''m_id'', ''m_programId''] (path @ ascii ''.to'') 3) (\<lambda>_.
         bindM (trace_selector 1 (path @ ascii ''.to.flag'') ''wire flag'' 3) (\<lambda>_.
         bindM (trace_fields E handle_type [''m_region''] (path @ ascii ''.to'') 3) (\<lambda>_.
         bindM (trace_count 5 (Some 16) ''Welcome realm mapping is too large'' (path @ ascii ''.from.count'') 4) (\<lambda>count.
         each [0..<sv_value count] (\<lambda>j.
           bindM (trace_reflected E from_type (path @ ascii ''.from['' @ decimal_nat j @ ascii '']'') 4) (\<lambda>_. ret ())))))))
        path ''RealmMap'' (ascii ''2 fields'') 2)"

definition trace_unlockable :: "env \<Rightarrow> u32 \<Rightarrow> nat \<Rightarrow> unit tracer" where
  "trace_unlockable E handle i =
     (let path = indexed ''value.unlockables'' i in
      enclosing
        (bindM (trace_selector 4 (path @ ascii ''.wire_layout_selector'') ''obfuscation selector'' 3) (\<lambda>_.
         bindM (trace_reflected E handle (path @ ascii ''.handle'') 3) (\<lambda>_. ret ())))
        path ''UnlockableFile'' (ascii ''2 fields'') 2)"

definition welcome_achievements :: "env \<Rightarrow> u32 \<Rightarrow> nat tracer" where
  "welcome_achievements E tid =
     bindM (liftR (member_type (proto E) tid ''m_achievementHandles'')) (\<lambda>achievements.
     bindM (liftR (array_element (proto E) achievements)) (\<lambda>achievement_type.
     bindM (trace_count 4 None [] (ascii ''value.achievements.count'') 2) (\<lambda>count.
     bindM (each [0..<sv_value count] (trace_achievement E achievement_type)) (\<lambda>_.
     bindM (close_array ''value.achievements'' count) (\<lambda>_. ret (sv_value count))))))"

definition welcome_realms :: "env \<Rightarrow> u32 \<Rightarrow> nat tracer" where
  "welcome_realms E tid =
     bindM (liftR (member_type (proto E) tid ''m_realmMapList'')) (\<lambda>realms.
     bindM (liftR (array_element (proto E) realms)) (\<lambda>realm_type.
     bindM (liftR (member_type (proto E) realm_type ''m_to'')) (\<lambda>handle_type.
     bindM (liftR (member_type (proto E) realm_type ''m_fromList'')) (\<lambda>from_list.
     bindM (liftR (array_element (proto E) from_list)) (\<lambda>from_type.
     bindM (trace_count 3 (Some 4) ''Welcome has too many realm mappings'' (ascii ''value.realm_map.count'') 2) (\<lambda>count.
     bindM (each [0..<sv_value count] (trace_realm_map E handle_type from_type)) (\<lambda>_.
     bindM (close_array ''value.realm_map'' count) (\<lambda>_. ret (sv_value count)))))))))"

definition welcome_unlockables :: "env \<Rightarrow> u32 \<Rightarrow> nat tracer" where
  "welcome_unlockables E tid =
     bindM (liftR (member_type (proto E) tid ''m_unlockablesFiles'')) (\<lambda>unlockables.
     bindM (liftR (array_element (proto E) unlockables)) (\<lambda>unlockable_type.
     bindM (liftR (member_type (proto E) unlockable_type ''m_unlockDefinitionFileCacheHandle'')) (\<lambda>handle.
     bindM (trace_count 8 (Some 128) ''Welcome has too many unlockable files'' (ascii ''value.unlockables.count'') 2) (\<lambda>count.
     bindM (each [0..<sv_value count] (trace_unlockable E handle)) (\<lambda>_.
     bindM (close_array ''value.unlockables'' count) (\<lambda>_. ret (sv_value count)))))))"

definition trace_named :: "env \<Rightarrow> u32 \<Rightarrow> string \<Rightarrow> string \<Rightarrow> unit tracer" where
  "trace_named E tid name path = bindM (traced_reflected_field E tid name (ascii path) 1) (\<lambda>_. ret ())"

definition trace_restriction :: "(reader \<times> decoded_field list, bytes spanned_value) op" where
  "trace_restriction = reading (decode_spanned_generated_utf8 13 0 4096 1024)"

definition toon_welcome_with_provenance :: "env \<Rightarrow> u32 \<Rightarrow> (reader, decoded_payload) op" where
  "toon_welcome_with_provenance E tid =
     custom_decoder
       (bindM (trace_named E tid ''m_depotRegion'' ''value.depot_region'') (\<lambda>_.
        bindM (welcome_achievements E tid) (\<lambda>achievement_count.
        bindM (trace_named E tid ''m_isPlayingFromIGR'' ''value.is_playing_from_igr'') (\<lambda>_.
        bindM (trace_named E tid ''m_defaultPortrait'' ''value.default_portrait'') (\<lambda>_.
        bindM (trace_selector 31 (ascii ''value.portrait_wire_selector'') ''obfuscation selector'' 1) (\<lambda>_.
        bindM (trace_fields E tid [''m_maxGameServerConnectTimeoutMS'', ''m_programName'', ''m_programFlags''] (ascii ''value'') 1) (\<lambda>_.
        bindM (welcome_realms E tid) (\<lambda>realm_count.
        bindM (welcome_unlockables E tid) (\<lambda>unlockable_count.
        bindM (trace_selector 3 (ascii ''value.trailing_wire_selector'') ''obfuscation selector'' 1) (\<lambda>_.
        bindM (trace_named E tid ''m_maxMapFavorites'' ''value.max_map_favorites'') (\<lambda>_.
        bindM trace_restriction (\<lambda>intermediate.
        bindM trace_restriction (\<lambda>final.
        bindM (push_fields
          [spanned_field (\<lambda>s. s) (ascii ''value.intermediate_name_restriction'') ''string'' intermediate 1,
           spanned_field (\<lambda>s. s) (ascii ''value.final_name_restriction'') ''string'' final 1]) (\<lambda>_.
        bindM (trace_named E tid ''m_currentTime'' ''value.current_time'') (\<lambda>_.
        ret (startup ''toon-welcome'' (achievement_count + realm_count + unlockable_count) None))))))))))))))))
       ''ToonWelcome'' ''13 fields''"

definition decode_toon_welcome :: "env \<Rightarrow> u32 \<Rightarrow> (reader, payload) op" where
  "decode_toon_welcome E tid = payload_of (toon_welcome_with_provenance E tid)"

end
