(* ===== verification/Decode_Chat.thy ===== *)
theory Decode_Chat
  imports Decode_Toon
begin

text \<open>
  The decoders of chat messages, whispers and memberships (\<open>core/src/games/sc2/native/decode.rs\<close>).
\<close>

section \<open>Messages\<close>

definition chat_message_with_provenance :: "env \<Rightarrow> u32 \<Rightarrow> (reader, decoded_payload) op" where
  "chat_message_with_provenance E tid =
     custom_decoder
       (bindM (trace_named E tid ''Message'' ''value.message'') (\<lambda>_.
        bindM (traced_reflected_field E tid ''m_memberHandle'' (ascii ''value.member_handle'') 1) (\<lambda>v.
        bindM (liftR (plain_u32_of_value v ''chat member handle'')) (\<lambda>member_handle.
        bindM (reading (decode_spanned_generated_utf8 10 0 1020 255)) (\<lambda>body.
        bindM (push_fields [spanned_field (\<lambda>s. s) (ascii ''value.m_body'') ''string'' body 1]) (\<lambda>_.
        bindM (traced_reflected_field E tid ''m_channelIndex'' (ascii ''value.channel_index'') 1) (\<lambda>v.
        bindM (liftR (u8_of_value v ''chat channel index'')) (\<lambda>channel_index.
        ret (ChatMessage \<lparr>msg_channel_index = channel_index, msg_member_handle = member_handle,
               msg_body = sv_value body\<rparr>)))))))))
       ''ChatMessage'' ''4 fields''"

definition decode_chat_message :: "env \<Rightarrow> u32 \<Rightarrow> (reader, payload) op" where
  "decode_chat_message E tid = payload_of (chat_message_with_provenance E tid)"

definition trace_chat_display_name :: "bytes \<Rightarrow> nat \<Rightarrow> toon_full_name tracer" where
  "trace_chat_display_name path depth =
     bindM (reading (read_spanned_u8 8)) (\<lambda>region.
     bindM (reading (read_spanned_u32 32)) (\<lambda>program.
     bindM (reading (read_spanned_u32 32)) (\<lambda>realm.
     bindM (reading (decode_spanned_generated_utf8 7 2 100 25)) (\<lambda>name.
     bindM (push_fields
       [spanned_field word_text (path @ ascii ''.region'') ''uint8'' region depth,
        spanned_field word_text (path @ ascii ''.program_id'') ''fourcc'' program depth,
        spanned_field word_text (path @ ascii ''.realm'') ''uint32'' realm depth,
        spanned_field (\<lambda>s. s) (path @ ascii ''.name'') ''string'' name depth]) (\<lambda>_.
     ret \<lparr>tn_region = sv_value region, tn_program_id = sv_value program, tn_realm = sv_value realm,
          tn_name = sv_value name\<rparr>)))))"

section \<open>Whispers\<close>

definition whisper_marker :: "env \<Rightarrow> u32 \<Rightarrow> bool \<Rightarrow> unit tracer" where
  "whisper_marker E tid echo =
     (if echo then trace_named E tid ''WhisperEcho'' ''value.whisper_echo''
      else trace_named E tid ''Whisper'' ''value.whisper'')"

definition whisper_peer :: "toon_full_name tracer" where
  "whisper_peer =
     bindM trace_here (\<lambda>peer_start.
     bindM (trace_chat_display_name (ascii ''value.peer'') 2) (\<lambda>peer.
     bindM trace_here (\<lambda>peer_end.
     bindM (push_fields [plain_field (ascii ''value.peer'') ''ToonFullName'' (ascii ''4 fields'') peer_start peer_end 1]) (\<lambda>_.
     ret peer))))"

definition whisper_body :: "bytes tracer" where
  "whisper_body =
     bindM (reading (decode_spanned_generated_utf8 10 0 1020 255)) (\<lambda>body.
     bindM (push_fields [spanned_field (\<lambda>s. s) (ascii ''value.body'') ''string'' body 1]) (\<lambda>_.
     ret (sv_value body)))"

text \<open>The two callbacks carry the same values in a different order.\<close>

definition chat_whisper_with_provenance :: "env \<Rightarrow> u32 \<Rightarrow> bool \<Rightarrow> (reader, decoded_payload) op" where
  "chat_whisper_with_provenance E tid echo =
     custom_decoder
       (if echo then
          bindM (reading (read_bits 18)) (\<lambda>_.
          bindM whisper_body (\<lambda>body.
          bindM (whisper_marker E tid echo) (\<lambda>_.
          bindM whisper_peer (\<lambda>peer.
          ret (ChatWhisperEcho \<lparr>cw_peer = peer, cw_body = body\<rparr>)))))
        else
          bindM (whisper_marker E tid echo) (\<lambda>_.
          bindM whisper_peer (\<lambda>peer.
          bindM whisper_body (\<lambda>body.
          ret (ChatWhisper \<lparr>cw_peer = peer, cw_body = body\<rparr>)))))
       (if echo then ''WhisperEcho'' else ''WhisperRecv'') ''3 fields''"

definition decode_chat_whisper :: "env \<Rightarrow> u32 \<Rightarrow> bool \<Rightarrow> (reader, payload) op" where
  "decode_chat_whisper E tid echo = payload_of (chat_whisper_with_provenance E tid echo)"

section \<open>Memberships\<close>

record traced_member_status =
  tms_toon_name :: "toon_full_name option"
  tms_party_status :: "party_member_status option"

definition no_status :: traced_member_status where
  "no_status = \<lparr>tms_toon_name = None, tms_party_status = None\<rparr>"

definition party_status_of :: "bsn_value \<Rightarrow> party_member_status option" where
  "party_status_of v =
     Option.bind (Option.bind (Option.bind (struct_fields v) (\<lambda>fs. struct_get fs (ascii ''m_partyStatus''))) as_integer)
       (\<lambda>i. if i = 0 then Some Invalid else if i = 1 then Some Online else if i = 2 then Some Offline
            else if i = 3 then Some Invited else None)"

text \<open>The body of the status, by its variant.\<close>

definition status_body :: "env \<Rightarrow> nat \<Rightarrow> u32 \<Rightarrow> bytes \<Rightarrow> nat \<Rightarrow> traced_member_status tracer" where
  "status_body E choice variant path depth =
     (if choice = 0 \<or> choice = 1 then
        bindM (trace_reflected E variant (path @ ascii ''.value'') (depth + 1)) (\<lambda>v.
        ret (no_status\<lparr>tms_party_status := if choice = 1 then party_status_of v else None\<rparr>))
      else if choice = 2 then
        bindM (trace_selector 8 (path @ ascii ''.value'') ''uint8'' (depth + 1)) (\<lambda>_. ret no_status)
      else if choice = 3 then
        bindM (liftR (peel_alias (proto E) variant)) (\<lambda>wrapper.
        bindM (liftR (pshape (proto E) wrapper)) (\<lambda>wrapper_shape.
        bindM (liftR (ok_or (native_text ''talker status wrapper is empty'') (get_at (member_types wrapper_shape) 0))) (\<lambda>inner.
        bindM (traced_reflected_field E inner ''m_id'' (path @ ascii ''.id'') (depth + 1)) (\<lambda>_.
        bindM (trace_selector 1 (path @ ascii ''.flag'') ''bool'' (depth + 1)) (\<lambda>_. ret no_status)))))
      else if choice = 4 \<or> choice = 6 then
        bindM (trace_selector 1 (path @ ascii ''.value'') ''bool'' (depth + 1)) (\<lambda>_. ret no_status)
      else if choice = 5 then
        bindM (trace_chat_display_name path (depth + 1)) (\<lambda>name. ret (no_status\<lparr>tms_toon_name := Some name\<rparr>))
      else if choice = 7 then ret no_status
      else fail (native_text ''chat member status has an unknown choice''))"

definition trace_member_status :: "env \<Rightarrow> type_shape \<Rightarrow> bytes \<Rightarrow> nat \<Rightarrow> traced_member_status tracer" where
  "trace_member_status E status_shape path depth =
     bindM trace_here (\<lambda>start.
     bindM (reading (read_spanned_u64 3)) (\<lambda>choice.
     bindM (liftR (shape_variant status_shape (uint (sv_value choice)))) (\<lambda>variant.
     bindM (push_fields [spanned_field word_text (path @ ascii ''.kind'') ''choice selector'' choice (depth + 1)]) (\<lambda>_.
     bindM (status_body E (unat (sv_value choice)) variant path depth) (\<lambda>status.
     bindM trace_here (\<lambda>stop.
     bindM (push_fields [plain_field path ''MemberStatus'' (ascii ''variant '' @ word_text (sv_value choice)) start stop depth]) (\<lambda>_.
     ret status)))))))"

text \<open>The statuses of a member that joins: the last name and the last party status count.\<close>

fun trace_statuses :: "env \<Rightarrow> type_shape \<Rightarrow> bytes \<Rightarrow> nat list \<Rightarrow> traced_member_status \<Rightarrow> traced_member_status tracer" where
  "trace_statuses E status_shape path [] acc = ret acc"
| "trace_statuses E status_shape path (i # is) acc =
     bindM (trace_member_status E status_shape (path @ ascii ''.statuses['' @ decimal_nat i @ ascii '']'') 4) (\<lambda>status.
     trace_statuses E status_shape path is
       \<lparr>tms_toon_name = (case tms_toon_name status of Some n \<Rightarrow> Some n | None \<Rightarrow> tms_toon_name acc),
        tms_party_status = (case tms_party_status status of Some p \<Rightarrow> Some p | None \<Rightarrow> tms_party_status acc)\<rparr>)"

definition change_leave :: "bytes \<Rightarrow> membership_change tracer" where
  "change_leave path =
     bindM (reading (read_spanned_u32 32)) (\<lambda>member_handle.
     bindM (reading (read_spanned_u64 16)) (\<lambda>reason.
     bindM (push_fields
       [spanned_field word_text (path @ ascii ''.member_handle'') ''uint32'' member_handle 3,
        spanned_field word_text (path @ ascii ''.reason'') ''uint16'' reason 3]) (\<lambda>_.
     bindM (liftR (expect_u16 (sv_value reason))) (\<lambda>reason_value.
     ret \<lparr>mc_kind = Leave, mc_member_handle = sv_value member_handle, mc_presence_id = None, mc_display_name = None,
          mc_toon_name = None, mc_party_status = None, mc_reason = Some reason_value\<rparr>))))"

definition change_join :: "env \<Rightarrow> type_shape \<Rightarrow> bytes \<Rightarrow> membership_change tracer" where
  "change_join E status_shape path =
     bindM (reading (read_spanned_u32 32)) (\<lambda>member_handle.
     bindM (reading (read_spanned_u32 32)) (\<lambda>presence.
     bindM (reading (read_spanned_usize 3)) (\<lambda>status_count.
     bindM (push_fields
       [spanned_field word_text (path @ ascii ''.member_handle'') ''uint32'' member_handle 3,
        spanned_field word_text (path @ ascii ''.presence_id'') ''uint32'' presence 3,
        spanned_field decimal_nat (path @ ascii ''.statuses.count'') ''array length'' status_count 4]) (\<lambda>_.
     bindM (trace_statuses E status_shape path [0..<sv_value status_count] no_status) (\<lambda>status.
     ret \<lparr>mc_kind = Join, mc_member_handle = sv_value member_handle, mc_presence_id = Some (sv_value presence),
          mc_display_name = map_option tn_name (tms_toon_name status), mc_toon_name = tms_toon_name status,
          mc_party_status = tms_party_status status, mc_reason = None\<rparr>)))))"

definition change_status :: "env \<Rightarrow> type_shape \<Rightarrow> bytes \<Rightarrow> membership_change tracer" where
  "change_status E status_shape path =
     bindM (reading (read_spanned_u32 32)) (\<lambda>member_handle.
     bindM (push_fields [spanned_field word_text (path @ ascii ''.member_handle'') ''uint32'' member_handle 3]) (\<lambda>_.
     bindM (trace_member_status E status_shape (path @ ascii ''.status'') 3) (\<lambda>status.
     ret \<lparr>mc_kind = Status, mc_member_handle = sv_value member_handle, mc_presence_id = None,
          mc_display_name = map_option tn_name (tms_toon_name status), mc_toon_name = tms_toon_name status,
          mc_party_status = tms_party_status status, mc_reason = None\<rparr>)))"

definition membership_item :: "env \<Rightarrow> type_shape \<Rightarrow> nat \<Rightarrow> membership_change tracer" where
  "membership_item E status_shape i =
     (let path = indexed ''value.changes'' i in
      bindM trace_here (\<lambda>item_start.
      bindM (reading (read_spanned_u64 2)) (\<lambda>choice.
      bindM (push_fields [spanned_field word_text (path @ ascii ''.kind'') ''choice selector'' choice 3]) (\<lambda>_.
      bindM (if sv_value choice = 0 then change_leave path
             else if sv_value choice = 1 then change_join E status_shape path
             else if sv_value choice = 2 then change_status E status_shape path
             else fail (native_text ''chat membership change has an unknown choice'')) (\<lambda>change.
      bindM trace_here (\<lambda>item_end.
      bindM (push_fields [plain_field path ''MembershipChange''
               (ascii (if sv_value choice = 0 then ''Leave'' else if sv_value choice = 1 then ''Join'' else ''Status''))
               item_start item_end 2]) (\<lambda>_. ret change)))))))"

text \<open>The choice below an array: its shape, after its alias.\<close>

definition choice_below :: "env \<Rightarrow> u32 \<Rightarrow> string \<Rightarrow> string \<Rightarrow> type_shape result" where
  "choice_below E tid name message =
     rbind (member_type (proto E) tid name) (\<lambda>array_type.
     rbind (array_element (proto E) array_type) (\<lambda>element.
     rbind (peel_alias (proto E) element) (\<lambda>choice.
     rbind (pshape (proto E) choice) (\<lambda>sh.
     if kind sh \<noteq> KChoice then Inl (native_text message) else Inr sh))))"

definition chat_membership_with_provenance :: "env \<Rightarrow> u32 \<Rightarrow> (reader, decoded_payload) op" where
  "chat_membership_with_provenance E tid =
     custom_decoder
       (bindM (reading (read_spanned_u64 1)) (\<lambda>end_of_initial.
        bindM (reading (read_spanned_u8 3)) (\<lambda>channel_index.
        if CHANNEL_INDEX_COUNT \<le> unat (sv_value channel_index)
        then fail (native_text ''chat membership channel index is invalid'')
        else
        bindM (liftR (choice_below E tid ''m_changes'' ''chat membership change type is not a choice'')) (\<lambda>change_shape.
        bindM (liftR (shape_variant change_shape 1)) (\<lambda>join_type.
        bindM (liftR (choice_below E join_type ''m_memberStatus'' ''chat member status type is not a choice'')) (\<lambda>status_shape.
        bindM (reading (read_spanned_usize 6)) (\<lambda>count.
        let change_count = sv_value count + 1 in
        bindM (push_fields
          [spanned_field word_text (ascii ''value.end_of_initial'') ''bool'' end_of_initial 1,
           spanned_field word_text (ascii ''value.channel_index'') ''uint3'' channel_index 1,
           plain_field (ascii ''value.changes.count'') ''array length minus one'' (decimal_nat change_count)
             (sv_start count) (sv_end count) 2]) (\<lambda>_.
        bindM (forM [0..<change_count] (membership_item E status_shape)) (\<lambda>changes.
        bindM trace_here (\<lambda>changes_end.
        bindM (push_fields [array_field ''value.changes'' (length changes) (sv_start count) changes_end]) (\<lambda>_.
        ret (ChatMembership \<lparr>cms_channel_index = sv_value channel_index,
               cms_end_of_initial = (sv_value end_of_initial \<noteq> 0), cms_changes = changes\<rparr>))))))))))))
       ''ChatMembership'' ''3 fields''"

definition decode_chat_membership :: "env \<Rightarrow> u32 \<Rightarrow> (reader, payload) op" where
  "decode_chat_membership E tid = payload_of (chat_membership_with_provenance E tid)"

end
