(* ===== verification/Decode_Friends.thy ===== *)
theory Decode_Friends
  imports Decode_Chat
begin

text \<open>
  The decoders of the friends service (\<open>core/src/games/sc2/native/decode.rs\<close>): the friends list, the toons of
  friends and the two block lists.
\<close>

section \<open>Parts of an entry\<close>

definition identity_text :: "friend_identity \<Rightarrow> bytes" where
  "identity_text identity =
     (case identity of
        Account a \<Rightarrow> ascii ''Account('' @ word_text a @ ascii '')''
      | Character program region realm i \<Rightarrow>
          ascii ''Character { program_id: '' @ word_text program @ ascii '', region: '' @ word_text region
          @ ascii '', realm: '' @ word_text realm @ ascii '', id: '' @ word_text i @ ascii '' }'')"

definition friend_handle_part :: "env \<Rightarrow> u32 \<Rightarrow> bytes \<Rightarrow> nat \<Rightarrow> string \<Rightarrow> u64 tracer" where
  "friend_handle_part E handle_type path depth name =
     bindM (traced_reflected_field E handle_type name (path @ ascii ''.'' @ ascii name) (depth + 1)) (\<lambda>v.
     liftR (case v of FourCc c \<Rightarrow> Inr (ucast c) | _ \<Rightarrow> u64_of_value v ''toon handle field''))"

definition trace_toon_handle :: "env \<Rightarrow> bytes \<Rightarrow> nat \<Rightarrow> friend_identity tracer" where
  "trace_toon_handle E path depth =
     bindM trace_here (\<lambda>start.
     bindM (liftR (incoming_type (proto E) TOON_SLOT TOON_SELECTED_COMMAND)) (\<lambda>selected_type.
     bindM (liftR (member_type (proto E) selected_type ''m_toonHandle'')) (\<lambda>handle_type.
     bindM (friend_handle_part E handle_type path depth ''m_programId'') (\<lambda>program.
     bindM (friend_handle_part E handle_type path depth ''m_region'') (\<lambda>region.
     bindM (friend_handle_part E handle_type path depth ''m_realm'') (\<lambda>realm.
     bindM (friend_handle_part E handle_type path depth ''m_id'') (\<lambda>i.
     bindM trace_here (\<lambda>stop.
     bindM (push_fields [plain_field path ''ToonHandle'' (ascii ''4 fields'') start stop depth]) (\<lambda>_.
     bindM (liftR (narrow_word 32 ''friend character program id is outside u32'' program)) (\<lambda>program.
     bindM (liftR (narrow_word 32 ''friend character region is outside u32'' region)) (\<lambda>region.
     bindM (liftR (narrow_word 32 ''friend character realm is outside u32'' realm)) (\<lambda>realm.
     ret (Character program region realm i)))))))))))))"

definition trace_optional_utf8 :: "bytes \<Rightarrow> nat \<Rightarrow> nat \<Rightarrow> nat \<Rightarrow> nat \<Rightarrow> nat \<Rightarrow> bytes option tracer" where
  "trace_optional_utf8 path depth length_bits minimum_bytes maximum_bytes maximum_characters =
     bindM trace_here (\<lambda>start.
     bindM (if_flag (reading (decode_generated_utf8 length_bits minimum_bytes maximum_bytes maximum_characters))) (\<lambda>v.
     bindM trace_here (\<lambda>stop.
     bindM (push_fields [plain_field path ''optional string'' (text_or_none v) start stop depth]) (\<lambda>_. ret v))))"

definition trace_friend_custom_message :: "bytes \<Rightarrow> nat \<Rightarrow> unit tracer" where
  "trace_friend_custom_message path depth =
     bindM trace_here (\<lambda>start.
     bindM (reading (read_bits 1)) (\<lambda>present.
     bindM (if present \<noteq> 0 then
              bindM (reading read_spanned_i32) (\<lambda>timestamp.
              bindM (reading (decode_spanned_generated_utf8 9 0 508 127)) (\<lambda>message.
              push_fields
                [spanned_field int32_text (path @ ascii ''.custom_message.timestamp'') ''int32'' timestamp (depth + 1),
                 spanned_field (\<lambda>s. s) (path @ ascii ''.custom_message.text'') ''string'' message (depth + 1)]))
            else ret ()) (\<lambda>_.
     bindM trace_here (\<lambda>stop.
     push_fields [plain_field (path @ ascii ''.custom_message'') ''optional''
       (ascii (if present \<noteq> 0 then ''present'' else ''none'')) start stop depth]))))"

text \<open>A name that is there behind its flag, as the codec reads the element of the optional.\<close>

definition trace_full_name :: "env \<Rightarrow> u32 \<Rightarrow> bytes \<Rightarrow> nat \<Rightarrow> bytes option tracer" where
  "trace_full_name E tid path depth =
     bindM (reading (read_bits 1)) (\<lambda>present.
     if present \<noteq> 0 then
       bindM (liftR (member_type (proto E) tid ''m_fullName'')) (\<lambda>full_name_type.
       bindM (liftR (optional_element (proto E) full_name_type)) (\<lambda>element.
       bindM (trace_reflected E element (path @ ascii ''.full_name.value'') depth) (\<lambda>v.
       ret (full_name_from_value v))))
     else ret None)"

section \<open>The friends list\<close>

definition friend_entry :: "friend_identity \<Rightarrow> bytes option \<Rightarrow> bytes option \<Rightarrow> bytes option \<Rightarrow> profile_address option \<Rightarrow> friend_entry" where
  "friend_entry identity display full friend_note profile =
     \<lparr>fe_identity = identity, fe_display_name = display, fe_full_name = full, fe_note = friend_note,
      fe_profile = profile, fe_toon_name = None\<rparr>"

definition trace_friend_account :: "env \<Rightarrow> bytes \<Rightarrow> nat \<Rightarrow> friend_entry tracer" where
  "trace_friend_account E path depth =
     bindM (liftR (unique_type_id (cschema (pcodec (proto E))) (ascii ''Battlenet::Friends::FriendContainer5::Account''))) (\<lambda>account_type.
     bindM (reading (read_spanned_u32 32)) (\<lambda>account.
     bindM (push_fields [spanned_field word_text (path @ ascii ''.identity.account_id'') ''uint32'' account (depth + 1)]) (\<lambda>_.
     bindM trace_here (\<lambda>full_name_start.
     bindM (trace_full_name E account_type path (depth + 2)) (\<lambda>full_name.
     bindM trace_here (\<lambda>full_name_end.
     bindM (push_fields [plain_field (path @ ascii ''.full_name'') ''optional name'' (text_or_none full_name)
              full_name_start full_name_end (depth + 1)]) (\<lambda>_.
     bindM (trace_optional_utf8 (path @ ascii ''.display_name'') (depth + 1) 7 0 108 27) (\<lambda>display_name.
     bindM (traced_reflected_field E account_type ''m_profile'' (path @ ascii ''.profile'') (depth + 1)) (\<lambda>v.
     bindM (liftR (profile_address_from_value v)) (\<lambda>profile.
     bindM (trace_friend_custom_message path (depth + 1)) (\<lambda>_.
     bindM (trace_optional_utf8 (path @ ascii ''.note'') (depth + 1) 9 0 508 127) (\<lambda>friend_note.
     bindM (reading read_spanned_i32) (\<lambda>last_online.
     bindM (reading (read_spanned_u64 64)) (\<lambda>account_serial.
     bindM (reading (read_spanned_u32 32)) (\<lambda>game_account.
     bindM (push_fields
       [spanned_field int32_text (path @ ascii ''.last_online'') ''int32'' last_online (depth + 1),
        spanned_field word_text (path @ ascii ''.account_serial'') ''uint64'' account_serial (depth + 1),
        spanned_field word_text (path @ ascii ''.game_account_id'') ''uint32'' game_account (depth + 1)]) (\<lambda>_.
     ret (friend_entry (Account (sv_value account)) display_name full_name friend_note profile)))))))))))))))))"

definition trace_friend_character :: "env \<Rightarrow> bytes \<Rightarrow> nat \<Rightarrow> friend_entry tracer" where
  "trace_friend_character E path depth =
     bindM (liftR (unique_type_id (cschema (pcodec (proto E))) (ascii ''Battlenet::Friends::FriendContainer5::Character''))) (\<lambda>character_type.
     bindM (trace_toon_handle E (path @ ascii ''.identity'') (depth + 1)) (\<lambda>identity.
     bindM (reading (decode_spanned_generated_utf8 7 2 100 25)) (\<lambda>display_name.
     bindM (push_fields [spanned_field (\<lambda>s. s) (path @ ascii ''.display_name'') ''string'' display_name (depth + 1)]) (\<lambda>_.
     bindM (traced_reflected_field E character_type ''m_profile'' (path @ ascii ''.profile'') (depth + 1)) (\<lambda>v.
     bindM (liftR (profile_address_from_value v)) (\<lambda>profile.
     bindM (trace_optional_utf8 (path @ ascii ''.note'') (depth + 1) 9 0 508 127) (\<lambda>friend_note.
     ret (friend_entry identity (Some (sv_value display_name)) None friend_note profile))))))))"

definition trace_friend_presence :: "bytes \<Rightarrow> nat \<Rightarrow> friend_entry tracer" where
  "trace_friend_presence path depth =
     bindM (reading (read_spanned_u32 32)) (\<lambda>account.
     bindM (push_fields [spanned_field word_text (path @ ascii ''.identity.account_id'') ''uint32'' account (depth + 1)]) (\<lambda>_.
     bindM (trace_friend_custom_message path (depth + 1)) (\<lambda>_.
     bindM (reading read_spanned_i32) (\<lambda>last_online.
     bindM (push_fields [spanned_field int32_text (path @ ascii ''.last_online'') ''int32'' last_online (depth + 1)]) (\<lambda>_.
     ret (friend_entry (Account (sv_value account)) None None None None))))))"

definition trace_friend_container :: "env \<Rightarrow> bytes \<Rightarrow> nat \<Rightarrow> friend_entry tracer" where
  "trace_friend_container E path depth =
     bindM trace_here (\<lambda>start.
     bindM (reading (read_spanned_u64 2)) (\<lambda>choice.
     bindM (push_fields [spanned_field word_text (path @ ascii ''.kind'') ''choice selector'' choice (depth + 1)]) (\<lambda>_.
     bindM (if sv_value choice = 0 then trace_friend_character E path depth
            else if sv_value choice = 1 then trace_friend_account E path depth
            else if sv_value choice = 2 then trace_friend_presence path depth
            else fail (native_text ''friends update contains an unknown container choice'')) (\<lambda>entry.
     bindM trace_here (\<lambda>stop.
     bindM (push_fields [plain_field path ''FriendEntry'' (ascii ''variant '' @ word_text (sv_value choice)) start stop depth]) (\<lambda>_.
     ret entry))))))"

definition friend_removal :: "env \<Rightarrow> bytes \<Rightarrow> nat \<Rightarrow> nat \<Rightarrow> nat \<Rightarrow> friend_update tracer" where
  "friend_removal E path update_start operation_start operation_end =
     bindM trace_here (\<lambda>identity_start.
     bindM (reading (read_bits 1)) (\<lambda>b.
     bindM (if b = 0 then bindM (reading (read_u32 32)) (\<lambda>a. ret (Account a))
            else trace_toon_handle E (path @ ascii ''.entry.identity'') 3) (\<lambda>identity.
     bindM trace_here (\<lambda>identity_end.
     bindM (push_fields
       [plain_field (path @ ascii ''.operation'') ''choice selector'' (ascii ''Remove'') operation_start operation_end 2,
        plain_field (path @ ascii ''.entry.identity'') ''identity'' (identity_text identity) identity_start identity_end 3,
        plain_field (path @ ascii ''.entry'') ''FriendEntry'' (ascii ''identity only'') identity_start identity_end 2,
        plain_field path ''FriendUpdate'' (ascii ''Remove'') update_start identity_end 1]) (\<lambda>_.
     ret \<lparr>fu_operation = Remove, fu_entry = friend_entry identity None None None None\<rparr>)))))"

definition friend_change :: "env \<Rightarrow> social_operation \<Rightarrow> string \<Rightarrow> bytes \<Rightarrow> nat \<Rightarrow> nat \<Rightarrow> nat \<Rightarrow> friend_update tracer" where
  "friend_change E operation text_of path update_start operation_start operation_end =
     bindM (push_fields [plain_field (path @ ascii ''.operation'') ''choice selector'' (ascii text_of)
              operation_start operation_end 2]) (\<lambda>_.
     bindM (trace_friend_container E (path @ ascii ''.entry'') 2) (\<lambda>entry.
     bindM trace_here (\<lambda>entry_end.
     bindM (push_fields [plain_field path ''FriendUpdate'' (ascii text_of) update_start entry_end 1]) (\<lambda>_.
     ret \<lparr>fu_operation = operation, fu_entry = entry\<rparr>))))"

definition friend_update_item :: "env \<Rightarrow> nat \<Rightarrow> friend_update tracer" where
  "friend_update_item E i =
     (let path = indexed ''value.updates'' i in
      bindM trace_here (\<lambda>update_start.
      bindM (reading (read_bits 2)) (\<lambda>operation_index.
      bindM trace_here (\<lambda>operation_end.
      if operation_index = 0 then friend_change E Add ''Add'' path update_start update_start operation_end
      else if operation_index = 1 then friend_removal E path update_start update_start operation_end
      else if operation_index = 2 then friend_change E Modify ''Modify'' path update_start update_start operation_end
      else fail (native_text ''friends snapshot has an unknown update choice'')))))"

definition trace_complete :: "bool option tracer" where
  "trace_complete =
     bindM trace_here (\<lambda>start.
     bindM optional_flag (\<lambda>complete.
     bindM trace_here (\<lambda>stop.
     bindM (push_fields [plain_field (ascii ''value.complete'') ''optional bool'' (optional_flag_text complete) start stop 1]) (\<lambda>_.
     ret complete))))"

definition friends_list_with_provenance :: "env \<Rightarrow> (reader, decoded_payload) op" where
  "friends_list_with_provenance E =
     custom_decoder
       (bindM trace_complete (\<lambda>complete.
        bindM (trace_count 7 (Some 64) ''friends snapshot has too many updates'' (ascii ''value.updates.count'') 2) (\<lambda>count.
        bindM (forM [0..<sv_value count] (friend_update_item E)) (\<lambda>updates.
        bindM (close_array ''value.updates'' count) (\<lambda>_.
        ret (Friends \<lparr>fp_updates = updates, fp_complete = complete\<rparr>))))))
       ''FriendsPage'' ''2 fields''"

definition decode_friends_list :: "env \<Rightarrow> (reader, payload) op" where
  "decode_friends_list E = payload_of (friends_list_with_provenance E)"

section \<open>The toons of friends\<close>

record friend_toon_trace =
  ftt_entry_start :: nat
  ftt_entry_end :: nat
  ftt_region :: "u8 spanned_value"
  ftt_program :: "u32 spanned_value"
  ftt_realm :: "u32 spanned_value"
  ftt_name :: "bytes spanned_value"
  ftt_label :: "u32 spanned_value"
  ftt_id :: "u64 spanned_value"
  ftt_profile_start :: nat
  ftt_profile_end :: nat
  ftt_account :: "u32 spanned_value"

definition read_friend_toon :: "(reader, friend_toon_trace) op" where
  "read_friend_toon =
     bindM here_bit (\<lambda>entry_start.
     bindM (read_spanned_u8 8) (\<lambda>region.
     bindM (read_spanned_u32 32) (\<lambda>program.
     bindM (read_spanned_u32 32) (\<lambda>realm.
     bindM (decode_spanned_generated_utf8 7 2 100 25) (\<lambda>name.
     bindM here_bit (\<lambda>profile_start.
     bindM (read_spanned_u32 32) (\<lambda>label.
     bindM (read_spanned_u64 64) (\<lambda>i.
     bindM here_bit (\<lambda>profile_end.
     bindM (read_spanned_u32 32) (\<lambda>account.
     bindM here_bit (\<lambda>entry_end.
     ret \<lparr>ftt_entry_start = entry_start, ftt_entry_end = entry_end, ftt_region = region, ftt_program = program,
          ftt_realm = realm, ftt_name = name, ftt_label = label, ftt_id = i, ftt_profile_start = profile_start,
          ftt_profile_end = profile_end, ftt_account = account\<rparr>)))))))))))"

definition friend_toon_of :: "friend_toon_trace \<Rightarrow> friend_toon" where
  "friend_toon_of t =
     \<lparr>ft_account_id = sv_value (ftt_account t), ft_program_id = sv_value (ftt_program t),
      ft_profile = (if sv_value (ftt_label t) \<noteq> 0 \<or> sv_value (ftt_id t) \<noteq> 0
        then Some \<lparr>pa_label = sv_value (ftt_label t), pa_id = sv_value (ftt_id t)\<rparr> else None),
      ft_toon_name = \<lparr>tn_region = sv_value (ftt_region t), tn_program_id = sv_value (ftt_program t),
        tn_realm = sv_value (ftt_realm t), tn_name = sv_value (ftt_name t)\<rparr>\<rparr>"

definition friend_toon_entry_fields :: "bytes \<Rightarrow> friend_toon_trace \<Rightarrow> decoded_field list" where
  "friend_toon_entry_fields path t =
     [plain_field path ''object'' (ascii ''4 fields'') (ftt_entry_start t) (ftt_entry_end t) 2,
      spanned_field word_text (path @ ascii ''.account_id'') ''uint32'' (ftt_account t) 3,
      spanned_field word_text (path @ ascii ''.program_id'') ''fourcc'' (ftt_program t) 3,
      plain_field (path @ ascii ''.profile'') ''object'' (ascii ''2 fields'') (ftt_profile_start t) (ftt_profile_end t) 3,
      spanned_field word_text (path @ ascii ''.profile.label'') ''uint32'' (ftt_label t) 4,
      spanned_field word_text (path @ ascii ''.profile.id'') ''uint64'' (ftt_id t) 4,
      plain_field (path @ ascii ''.toon_name'') ''object'' (ascii ''4 fields'') (sv_start (ftt_region t)) (sv_end (ftt_name t)) 3,
      spanned_field word_text (path @ ascii ''.toon_name.region'') ''uint8'' (ftt_region t) 4,
      spanned_field word_text (path @ ascii ''.toon_name.program_id'') ''fourcc'' (ftt_program t) 4,
      spanned_field word_text (path @ ascii ''.toon_name.realm'') ''uint32'' (ftt_realm t) 4,
      spanned_field (\<lambda>s. s) (path @ ascii ''.toon_name.name'') ''string'' (ftt_name t) 4]"

definition friend_toon_provenance :: "friend_toon_trace list \<Rightarrow> nat \<Rightarrow> nat \<Rightarrow> u64 spanned_value \<Rightarrow> nat \<Rightarrow> nat \<Rightarrow> decoded_field list" where
  "friend_toon_provenance entries count_start entries_end complete start stop =
     [plain_field (ascii ''value'') ''FriendToons'' (decimal_nat (length entries) @ ascii '' entries'') start stop 0,
      array_field ''value.entries'' (length entries) count_start entries_end] @
     concat (map (\<lambda>(i, t). friend_toon_entry_fields (indexed ''value.entries'' i) t) (enumerate 0 entries)) @
     [plain_field (ascii ''value.complete'') ''bool'' (bool_text (sv_value complete \<noteq> 0)) (sv_start complete) (sv_end complete) 1]"

definition friend_toons_with_provenance :: "(reader, decoded_payload) op" where
  "friend_toons_with_provenance =
     bindM here_bit (\<lambda>start.
     bindM (read_usize 7) (\<lambda>count.
     if count > 100 then fail (native_text ''friend toon notification has too many entries'')
     else
     bindM (forM [0..<count] (\<lambda>_. read_friend_toon)) (\<lambda>traces.
     bindM here_bit (\<lambda>entries_end.
     bindM (read_spanned_u64 1) (\<lambda>complete.
     bindM here_bit (\<lambda>stop.
     ret \<lparr>dp_payload = FriendToons \<lparr>ftp_entries = map friend_toon_of traces, ftp_complete = (sv_value complete \<noteq> 0)\<rparr>,
          dp_provenance = friend_toon_provenance traces start entries_end complete start stop\<rparr>))))))"

definition decode_friend_toons :: "(reader, payload) op" where
  "decode_friend_toons = payload_of friend_toons_with_provenance"

section \<open>Block lists\<close>

definition account_block_item :: "env \<Rightarrow> u32 \<Rightarrow> nat \<Rightarrow> account_block_entry tracer" where
  "account_block_item E account_type i =
     (let path = indexed ''value.entries'' i in
      bindM trace_here (\<lambda>item_start.
      bindM (reading (read_spanned_u64 9)) (\<lambda>selector.
      bindM (reading (read_spanned_u32 32)) (\<lambda>account.
      bindM trace_here (\<lambda>nickname_start.
      bindM (if_flag (reading (decode_generated_utf8 7 0 108 27))) (\<lambda>nickname.
      bindM trace_here (\<lambda>nickname_end.
      bindM (reading (read_spanned_u64 20)) (\<lambda>reserved.
      bindM (liftR (member_type (proto E) account_type ''m_fullName'')) (\<lambda>_.
      bindM trace_here (\<lambda>full_name_start.
      bindM (trace_full_name E account_type path 4) (\<lambda>full_name.
      bindM trace_here (\<lambda>full_name_end.
      bindM (reading (read_spanned_u32 32)) (\<lambda>role.
      bindM trace_here (\<lambda>item_end.
      bindM (push_fields
        [plain_field path ''AccountBlockEntry'' (ascii ''6 fields'') item_start item_end 2,
         spanned_field word_text (path @ ascii ''.wire_layout_selector'') ''obfuscation selector'' selector 3,
         spanned_field word_text (path @ ascii ''.account_id'') ''uint32'' account 3,
         plain_field (path @ ascii ''.nickname'') ''optional string'' (text_or_none nickname) nickname_start nickname_end 3,
         spanned_field word_text (path @ ascii ''.reserved'') ''reserved bits'' reserved 3,
         plain_field (path @ ascii ''.full_name'') ''optional name'' (text_or_none full_name) full_name_start full_name_end 3,
         spanned_field word_text (path @ ascii ''.role'') ''uint32'' role 3]) (\<lambda>_.
      ret \<lparr>ab_account_id = sv_value account, ab_nickname = nickname, ab_full_name = full_name,
           ab_role = sv_value role\<rparr>)))))))))))))))"

definition account_blocks_with_provenance :: "env \<Rightarrow> (reader, decoded_payload) op" where
  "account_blocks_with_provenance E =
     custom_decoder
       (bindM trace_here (\<lambda>complete_start.
        bindM optional_flag (\<lambda>complete.
        bindM trace_here (\<lambda>complete_end.
        bindM (reading (read_spanned_usize 7)) (\<lambda>count.
        if sv_value count > 64 then fail (native_text ''account block snapshot is too large'')
        else
        bindM (liftR (unique_type_id (cschema (pcodec (proto E))) (ascii ''Battlenet::Friends::AccountBlockContainer''))) (\<lambda>account_type.
        bindM (push_fields
          [plain_field (ascii ''value.complete'') ''optional bool'' (optional_flag_text complete) complete_start complete_end 1,
           spanned_field decimal_nat (ascii ''value.entries.count'') ''array length'' count 2]) (\<lambda>_.
        bindM (forM [0..<sv_value count] (account_block_item E account_type)) (\<lambda>entries.
        bindM (close_array ''value.entries'' count) (\<lambda>_.
        ret (AccountBlocks \<lparr>abp_entries = entries, abp_complete = complete\<rparr>))))))))))
       ''AccountBlocks'' ''2 fields''"

definition decode_account_blocks :: "env \<Rightarrow> (reader, payload) op" where
  "decode_account_blocks E = payload_of (account_blocks_with_provenance E)"

definition toon_block_item :: "env \<Rightarrow> u32 \<Rightarrow> nat \<Rightarrow> unit tracer" where
  "toon_block_item E toon_name_type i =
     (let path = indexed ''value.entries'' i in
      bindM trace_here (\<lambda>item_start.
      bindM (reading (reflected_at E toon_name_type (path @ ascii ''.toon'') 3)) (\<lambda>toon.
      bindM (liftR (toon_full_name_from_value (dv_value toon))) (\<lambda>_.
      bindM (push_fields (tv_fields toon)) (\<lambda>_.
      bindM (reading (read_spanned_u64 1)) (\<lambda>update.
      bindM trace_here (\<lambda>item_end.
      push_fields
        [plain_field path ''ToonBlockContainer'' (ascii ''2 fields'') item_start item_end 2,
         plain_field (path @ ascii ''.update'') ''choice'' (ascii (if sv_value update = 0 then ''Add'' else ''Remove''))
           (sv_start update) (sv_end update) 3])))))))"

definition toon_blocks_with_provenance :: "env \<Rightarrow> (reader, decoded_payload) op" where
  "toon_blocks_with_provenance E =
     custom_decoder
       (bindM (reading (read_spanned_usize 7)) (\<lambda>count.
        if sv_value count > 64 then fail (native_text ''toon block snapshot is too large'')
        else
        bindM (liftR (unique_type_id (cschema (pcodec (proto E))) (ascii ''Battlenet::Friends::ToonBlockContainer''))) (\<lambda>container_type.
        bindM (liftR (member_type (proto E) container_type ''m_toonName'')) (\<lambda>t.
        bindM (liftR (peel_alias (proto E) t)) (\<lambda>toon_name_type.
        bindM (push_fields [spanned_field decimal_nat (ascii ''value.count'') ''array length'' count 1]) (\<lambda>_.
        bindM (each [0..<sv_value count] (toon_block_item E toon_name_type)) (\<lambda>_.
        bindM trace_complete (\<lambda>complete.
        ret (startup ''toon-blocks'' (sv_value count) complete)))))))))
       ''ToonBlocks'' ''2 fields''"

definition decode_toon_blocks :: "env \<Rightarrow> (reader, payload) op" where
  "decode_toon_blocks E = payload_of (toon_blocks_with_provenance E)"

end
