(* ===== verification/Decode_Clubs.thy ===== *)
theory Decode_Clubs
  imports Decode_Friends
begin

text \<open>
  The decoders of club records (\<open>core/src/games/sc2/native/decode.rs\<close>).  Summaries are scraped from fixed bit
  offsets; the walk of the codec over the same record only gives its end and the head counts.  The positions of
  the scraper are absolute: a record begins at the start of the buffer.
\<close>

section \<open>Invitations and searches\<close>

definition club_invite_action_value :: "bsn_value \<Rightarrow> payload result" where
  "club_invite_action_value v =
     rbind (struct_or ''client club invitation is not a struct'' (Some v)) (\<lambda>root.
     rbind (struct_or ''client club invitation omits its action'' (struct_get root (ascii ''m_action''))) (\<lambda>action.
     rbind (field_or ''club invitation omits its group id'' action ''m_clubId'') (\<lambda>i.
     rbind (u32_of_value i ''club invitation group id'') (\<lambda>club_id.
     rbind (field_or ''club invitation omits its member'' action ''m_member'') (\<lambda>m.
     rbind (toon_handle_from_value m) (\<lambda>m.
     rbind (ok_or (native_text ''club invitation member is absent'') m) (\<lambda>member.
     Inr (ClubInviteAction \<lparr>cia_club_id = club_id, cia_program = th_program_id member, cia_member_kind = th_region member,
            cia_member_realm = th_realm member, cia_member_id = th_id member\<rparr>))))))))"

definition club_from :: "env \<Rightarrow> u32 \<Rightarrow> (reader, bsn_value) op" where
  "club_from E tid = decode_from (code E) (stack E) (pcodec (proto E)) tid"

definition decode_club_invite_action :: "env \<Rightarrow> u32 \<Rightarrow> (reader, payload) op" where
  "decode_club_invite_action E tid = bindM (club_from E tid) (\<lambda>v. liftR (club_invite_action_value v))"

definition club_invite_action_with_provenance :: "env \<Rightarrow> u32 \<Rightarrow> (reader, decoded_payload) op" where
  "club_invite_action_with_provenance E tid =
     bindM (decode_traced_from (code E) (stack E) (pcodec (proto E)) tid) (\<lambda>d.
     bindM (liftR (club_invite_action_value (dv_value d))) (\<lambda>p.
     ret \<lparr>dp_payload = p, dp_provenance = tv_fields d\<rparr>))"

fun array_ids :: "bsn_value list \<Rightarrow> u32 list" where
  "array_ids [] = []"
| "array_ids (Integer i # vs) = (if 0 \<le> i \<and> i < 2 ^ 32 then of_int i # array_ids vs else array_ids vs)"
| "array_ids (v # vs) = array_ids vs"

lemma field_value_smaller [termination_simp]:
  assumes "x \<in> set fs"
  shows "size (field_value x) < Suc (size_list size fs)"
proof -
  have "size (field_value x) < size x" by (cases x) simp
  also have "\<dots> \<le> size_list size fs"
    using assms by (intro size_list_estimation'[OF assms]) simp
  finally show ?thesis by simp
qed

fun collect_club_ids :: "bsn_value \<Rightarrow> u32 list" where
  "collect_club_ids (Array items) = array_ids items"
| "collect_club_ids (Optional (Some v)) = collect_club_ids v"
| "collect_club_ids (Choice i v) = collect_club_ids v"
| "collect_club_ids (Struct tid fs) = concat (map (\<lambda>f. collect_club_ids (field_value f)) fs)"
| "collect_club_ids _ = []"

definition decode_club_search :: "env \<Rightarrow> u32 \<Rightarrow> (reader, payload) op" where
  "decode_club_search E tid = bindM (reflected_plain E tid) (\<lambda>v. ret (ClubSearch (collect_club_ids v)))"

definition club_search_with_provenance :: "env \<Rightarrow> u32 \<Rightarrow> (reader, decoded_payload) op" where
  "club_search_with_provenance E tid = reflected_payload E tid (\<lambda>v. Inr (ClubSearch (collect_club_ids v)))"

section \<open>Head counts\<close>

text \<open>The counts of a club, \<open>member_count\<close> and \<open>online\<close>.\<close>

type_synonym club_counts = "u32 \<rightharpoonup> u32 option \<times> u32 option"

definition struct_u32 :: "bsn_field list \<Rightarrow> string \<Rightarrow> u32 option" where
  "struct_u32 fs name =
     (case struct_get fs (ascii name) of
        Some (Integer i) \<Rightarrow> if 0 \<le> i \<and> i < 2 ^ 32 then Some (of_int i) else None
      | _ \<Rightarrow> None)"

definition or_else :: "'a option \<Rightarrow> 'a option \<Rightarrow> 'a option" where
  "or_else a b = (case a of Some _ \<Rightarrow> a | None \<Rightarrow> b)"

definition count_entry :: "club_counts \<Rightarrow> u32 \<Rightarrow> u32 option \<times> u32 option" where
  "count_entry counts club = (case counts club of Some c \<Rightarrow> c | None \<Rightarrow> (None, None))"

definition count_info :: "bsn_field list \<Rightarrow> club_counts \<Rightarrow> club_counts" where
  "count_info fs counts =
     (case (struct_get fs (ascii ''m_summary''), struct_get fs (ascii ''m_status'')) of
        (Some (Struct _ summary), Some (Struct _ status)) \<Rightarrow>
          (case struct_u32 summary ''m_id'' of
             Some club \<Rightarrow>
               (case count_entry counts club of (members, online) \<Rightarrow>
                  counts(club \<mapsto> (or_else members (struct_u32 summary ''m_memberCount''),
                                 or_else online (struct_u32 status ''m_online''))))
           | None \<Rightarrow> counts)
      | _ \<Rightarrow> counts)"

definition count_summary :: "bsn_field list \<Rightarrow> club_counts \<Rightarrow> club_counts" where
  "count_summary fs counts =
     (case (struct_u32 fs ''m_id'', struct_u32 fs ''m_memberCount'') of
        (Some club, Some member_count) \<Rightarrow>
          (case count_entry counts club of (members, online) \<Rightarrow>
             counts(club \<mapsto> (or_else members (Some member_count), online)))
      | _ \<Rightarrow> counts)"

fun collect_club_counts :: "bsn_value \<Rightarrow> club_counts \<Rightarrow> club_counts" where
  "collect_club_counts (Struct tid fs) counts =
     fold (\<lambda>f. collect_club_counts (field_value f)) fs (count_summary fs (count_info fs counts))"
| "collect_club_counts (Array items) counts = fold collect_club_counts items counts"
| "collect_club_counts (Optional (Some v)) counts = collect_club_counts v counts"
| "collect_club_counts (Choice i v) counts = collect_club_counts v counts"
| "collect_club_counts _ counts = counts"

definition apply_club_counts :: "club_counts \<Rightarrow> club_summary list \<Rightarrow> club_summary list" where
  "apply_club_counts counts clubs =
     map (\<lambda>c. case counts (cs_club_id c) of
            None \<Rightarrow> c
          | Some (members, online) \<Rightarrow> c\<lparr>cs_member_count := members, cs_online := online\<rparr>) clubs"

section \<open>Scraping summaries\<close>

definition CLUB_FIRST_ELEMENT :: nat where "CLUB_FIRST_ELEMENT = 52"
definition CLUB_ID_OFFSET :: nat where "CLUB_ID_OFFSET = 32"
definition CLUB_NAME_LENGTH_OFFSET :: nat where "CLUB_NAME_LENGTH_OFFSET = 72"
definition CLUB_NAME_LENGTH_BITS :: nat where "CLUB_NAME_LENGTH_BITS = 8"
definition CLUB_CATEGORY_OFFSET :: nat where "CLUB_CATEGORY_OFFSET = 64"
definition CLUB_TYPE_OFFSET :: nat where "CLUB_TYPE_OFFSET = 134"
definition CLUB_TAG_FLAG_OFFSET :: nat where "CLUB_TAG_FLAG_OFFSET = 206"
definition CLUB_PRIVATE_FLAG_OFFSET :: nat where "CLUB_PRIVATE_FLAG_OFFSET = 128"
definition CLUB_ELEMENT_TAIL :: nat where "CLUB_ELEMENT_TAIL = 158"
definition CLUB_ICON_FLAG_OFFSET :: nat where "CLUB_ICON_FLAG_OFFSET = 28"
definition CLUB_ICON_BYTES :: nat where "CLUB_ICON_BYTES = 40"
definition CLUB_ELEMENT_REMAINDER :: nat where "CLUB_ELEMENT_REMAINDER = CLUB_ELEMENT_TAIL - CLUB_ICON_FLAG_OFFSET - 1"
definition CLUB_COUNT_OFFSET :: nat where "CLUB_COUNT_OFFSET = 12"
definition CLUB_COUNT_BITS :: nat where "CLUB_COUNT_BITS = 8"
definition CLUB_LIMIT :: nat where "CLUB_LIMIT = 201"

record club_summary_trace =
  cst_item :: "nat \<times> nat"
  cst_club_id :: "nat \<times> nat"
  cst_name :: "nat \<times> nat"
  cst_kind :: "nat \<times> nat"
  cst_category :: "nat \<times> nat"
  cst_private :: "nat \<times> nat"

text \<open>What a pass over an element finds: it stops, or the next element begins; the club and its trace may be there.\<close>

datatype club_step =
    Stops "club_summary list" bool            \<comment> \<open>the club of this pass, if any; incomplete\<close>
  | Goes club_summary club_summary_trace nat  \<comment> \<open>the start of the next element\<close>

definition read_at :: "nat \<Rightarrow> nat \<Rightarrow> (reader, u64) op" where
  "read_at position width = bindM (set_position position) (\<lambda>_. read_bits width)"

text \<open>\<open>char::is_control\<close> of some character of a text: a byte below 32, 127, or 0xC2 before 0x80 to 0x9F.\<close>

fun has_control :: "bytes \<Rightarrow> bool" where
  "has_control [] = False"
| "has_control [b] \<longleftrightarrow> b < 0x20 \<or> b = 0x7F"
| "has_control (b # c # bs) \<longleftrightarrow> b < 0x20 \<or> b = 0x7F \<or> (b = 0xC2 \<and> 0x80 \<le> c \<and> c \<le> 0x9F) \<or> has_control (c # bs)"

definition align_bits :: "nat \<Rightarrow> nat" where
  "align_bits n = div_ceil n 8 * 8"

definition byte_or_zero :: "u64 \<Rightarrow> u8" where
  "byte_or_zero v = (if unat v < 2 ^ 8 then ucast v else 0)"

text \<open>The end of the tag that begins at a flag: \<open>None\<close> for a tag that is too long.\<close>

definition club_tag_end :: "nat \<Rightarrow> (reader, nat option) op" where
  "club_tag_end flag_at =
     bindM (read_at flag_at 1) (\<lambda>b.
     if b = 1 then
       bindM (read_bits 5) (\<lambda>tag.
       ret (if unat tag > 24 then None else Some (align_bits (flag_at + 1 + 5) + unat tag * 8)))
     else ret (Some (flag_at + 1)))"

definition club_icon_end :: "nat \<Rightarrow> nat \<Rightarrow> (reader, nat option) op" where
  "club_icon_end limit icon_at =
     bindM (read_at icon_at 1) (\<lambda>b.
     ret (if b = 1 then (let handle = align_bits (icon_at + 1) + CLUB_ICON_BYTES * 8 in
            if handle > limit then None else Some handle)
          else Some (icon_at + 1)))"

definition club_trace :: "nat \<Rightarrow> nat \<Rightarrow> nat \<Rightarrow> nat \<Rightarrow> club_summary_trace" where
  "club_trace start text_at name_end next_start =
     \<lparr>cst_item = (start, next_start),
      cst_club_id = (start + CLUB_ID_OFFSET, start + CLUB_ID_OFFSET + 32),
      cst_name = (text_at, name_end),
      cst_kind = (name_end + CLUB_TYPE_OFFSET, name_end + CLUB_TYPE_OFFSET + 8),
      cst_category = (start + CLUB_CATEGORY_OFFSET, start + CLUB_CATEGORY_OFFSET + 8),
      cst_private = (name_end + CLUB_PRIVATE_FLAG_OFFSET, name_end + CLUB_PRIVATE_FLAG_OFFSET + 1)\<rparr>"

text \<open>The part of a pass after the club is known.\<close>

definition club_rest :: "nat \<Rightarrow> nat \<Rightarrow> nat \<Rightarrow> nat \<Rightarrow> club_summary \<Rightarrow> (reader, club_step) op" where
  "club_rest limit start text_at name_end club =
     (let flag_at = name_end + CLUB_TAG_FLAG_OFFSET in
      if flag_at + 6 > limit then ret (Stops [club] True)
      else
        bindM (club_tag_end flag_at) (\<lambda>tag_end.
        case tag_end of
          None \<Rightarrow> ret (Stops [club] False)
        | Some cursor \<Rightarrow>
            let icon_at = cursor + CLUB_ICON_FLAG_OFFSET in
            if icon_at \<ge> limit then ret (Stops [club] True)
            else
              bindM (club_icon_end limit icon_at) (\<lambda>icon_end.
              case icon_end of
                None \<Rightarrow> ret (Stops [club] True)
              | Some cursor \<Rightarrow>
                  let next_start = cursor + CLUB_ELEMENT_REMAINDER in
                  ret (Goes club (club_trace start text_at name_end next_start) next_start))))"

definition club_named :: "nat \<Rightarrow> nat \<Rightarrow> u32 \<Rightarrow> nat \<Rightarrow> nat \<Rightarrow> bytes \<Rightarrow> (reader, club_step) op" where
  "club_named limit start club_id text_at name_end name =
     bindM (read_at (start + CLUB_CATEGORY_OFFSET) 8) (\<lambda>category.
     if name_end + CLUB_TYPE_OFFSET + 8 > limit then ret (Stops [] True)
     else
       bindM (read_at (name_end + CLUB_TYPE_OFFSET) 8) (\<lambda>knd.
       bindM (if name_end + CLUB_PRIVATE_FLAG_OFFSET < limit
              then bindM (read_at (name_end + CLUB_PRIVATE_FLAG_OFFSET) 1) (\<lambda>b. ret (b = 1)) else ret False) (\<lambda>private.
       club_rest limit start text_at name_end
         \<lparr>cs_club_id = club_id, cs_name = Some name, cs_kind = byte_or_zero knd, cs_category = byte_or_zero category,
          cs_private = private, cs_member_count = None, cs_online = None\<rparr>)))"

definition attempt :: "('s, 'a) op \<Rightarrow> ('s, 'a option) op" where
  "attempt m s = (case m s of (Inl e, s') \<Rightarrow> (if aborting e then (Inl e, s') else (Inr None, s')) | (Inr x, s') \<Rightarrow> (Inr (Some x), s'))"

definition club_element :: "nat \<Rightarrow> nat \<Rightarrow> (reader, club_step) op" where
  "club_element limit start =
     (let length_at = start + CLUB_NAME_LENGTH_OFFSET in
      if length_at + CLUB_NAME_LENGTH_BITS > limit then ret (Stops [] True)
      else
        bindM (read_at (start + CLUB_ID_OFFSET) 32) (\<lambda>club_id.
        if unat club_id \<ge> 2 ^ 32 then ret (Stops [] False)
        else
        bindM (read_at length_at CLUB_NAME_LENGTH_BITS) (\<lambda>n.
        let n = unat n; text_at = align_bits (length_at + CLUB_NAME_LENGTH_BITS) in
        if n = 0 \<or> n > 32 then ret (Stops [] False)
        else if text_at + n * 8 > limit then ret (Stops [] True)
        else
        bindM (set_position text_at) (\<lambda>_.
        bindM (attempt (read_bytes n False)) (\<lambda>raw.
        case Option.bind raw from_utf8 of
          None \<Rightarrow> ret (Stops [] False)
        | Some name \<Rightarrow>
            if has_control name then ret (Stops [] False)
            else club_named limit start (ucast club_id) text_at (text_at + n * 8) name)))))"

type_synonym walked = "club_summary list \<times> club_summary_trace list \<times> nat \<times> bool"

text \<open>Every pass that goes on adds a club, so \<open>declared\<close> passes are enough.\<close>

primrec club_walk :: "nat \<Rightarrow> nat \<Rightarrow> nat \<Rightarrow> (reader, walked) op" where
  "club_walk 0 limit start = ret ([], [], start, False)"
| "club_walk (Suc left) limit start =
     bindM (club_element limit start) (\<lambda>step.
     case step of
       Stops clubs incomplete \<Rightarrow> ret (clubs, [], start, incomplete)
     | Goes club trace next_start \<Rightarrow>
         bindM (club_walk left limit next_start) (\<lambda>(clubs, traces, stop, incomplete).
         ret (club # clubs, trace # traces, stop, incomplete)))"

definition walk_club_elements :: "nat \<Rightarrow> (reader, walked) op" where
  "walk_club_elements limit =
     bindM (read_at CLUB_COUNT_OFFSET CLUB_COUNT_BITS) (\<lambda>n.
     club_walk (min (unat n) CLUB_LIMIT) limit CLUB_FIRST_ELEMENT)"

section \<open>The two records\<close>

definition incomplete_club_frame :: "nat \<Rightarrow> error" where
  "incomplete_club_frame buffer_bits = IncompleteFrame (ClubRecordBeyond (buffer_bits div 8))"

text \<open>
  What both do first: the walk of the codec, whose failure only leaves its end unknown, then the scraper, whose
  failure means that more bytes are needed.
\<close>

definition scrape_clubs :: "env \<Rightarrow> u32 \<Rightarrow> (reader, walked \<times> nat) op" where
  "scrape_clubs E tid =
     bindM here_bit (\<lambda>start.
     bindM (getsM (\<lambda>r. length (rdata r) * 8)) (\<lambda>buffer_bits.
     bindM (attempt (club_from E tid)) (\<lambda>walked.
     bindM (case walked of None \<Rightarrow> ret buffer_bits | Some _ \<Rightarrow> here_bit) (\<lambda>limit.
     let counts = (case walked of None \<Rightarrow> Map.empty | Some v \<Rightarrow> collect_club_counts v Map.empty) in
     bindM (set_position start) (\<lambda>_.
     bindM (attempt (walk_club_elements limit)) (\<lambda>w.
     case w of
       None \<Rightarrow> fail (incomplete_club_frame buffer_bits)
     | Some (clubs, traces, elements_end, incomplete) \<Rightarrow>
         if incomplete then fail (incomplete_club_frame buffer_bits)
         else ret ((apply_club_counts counts clubs, traces, elements_end, incomplete), buffer_bits)))))))"

definition club_summaries_end :: "nat \<Rightarrow> nat \<Rightarrow> nat \<Rightarrow> (reader, nat) op" where
  "club_summaries_end clubs elements_end buffer_bits =
     (let stop = align_bits (elements_end + (32 + 8 + clubs * 8 + 1)) in
      if stop > buffer_bits then fail (incomplete_club_frame buffer_bits)
      else bindM (set_position stop) (\<lambda>_. ret stop))"

definition club_info_end :: "nat \<Rightarrow> nat \<Rightarrow> (reader, nat) op" where
  "club_info_end elements_end buffer_bits =
     (let stop = align_bits (elements_end + 1) in
      if stop > buffer_bits then fail (IncompleteFrame (ClubInfoNeeds (stop div 8) (buffer_bits div 8)))
      else bindM (set_position stop) (\<lambda>_. ret stop))"

definition decode_club_summaries :: "env \<Rightarrow> u32 \<Rightarrow> (reader, payload) op" where
  "decode_club_summaries E tid =
     bindM (scrape_clubs E tid) (\<lambda>((clubs, traces, elements_end, incomplete), buffer_bits).
     bindM (club_summaries_end (length clubs) elements_end buffer_bits) (\<lambda>_. ret (ClubSummaries clubs)))"

definition decode_club_info :: "env \<Rightarrow> u32 \<Rightarrow> (reader, payload) op" where
  "decode_club_info E tid =
     bindM (scrape_clubs E tid) (\<lambda>((clubs, traces, elements_end, incomplete), buffer_bits).
     bindM (club_info_end elements_end buffer_bits) (\<lambda>_. ret (ClubInfo clubs)))"

definition traced_club_field :: "bytes \<Rightarrow> string \<Rightarrow> bytes \<Rightarrow> nat \<times> nat \<Rightarrow> decoded_field" where
  "traced_club_field path knd val span = plain_field path knd val (fst span) (snd span) 2"

definition club_element_fields :: "nat \<Rightarrow> club_summary \<Rightarrow> club_summary_trace \<Rightarrow> decoded_field list" where
  "club_element_fields i club trace =
     (let path = indexed ''value'' i in
      [plain_field path ''object'' (ascii ''5 fields'') (fst (cst_item trace)) (snd (cst_item trace)) 1,
       traced_club_field (path @ ascii ''.club_id'') ''uint32'' (word_text (cs_club_id club)) (cst_club_id trace),
       traced_club_field (path @ ascii ''.name'') ''string'' (name_or_empty (cs_name club)) (cst_name trace),
       traced_club_field (path @ ascii ''.kind'') ''uint8'' (word_text (cs_kind club)) (cst_kind trace),
       traced_club_field (path @ ascii ''.category'') ''uint8'' (word_text (cs_category club)) (cst_category trace),
       traced_club_field (path @ ascii ''.private'') ''bool'' (bool_text (cs_private club)) (cst_private trace)])"

definition club_summary_provenance :: "club_summary list \<Rightarrow> club_summary_trace list \<Rightarrow> nat \<Rightarrow> nat \<Rightarrow> decoded_field list" where
  "club_summary_provenance clubs traces start stop =
     (if length traces \<noteq> length clubs then []
      else plain_field (ascii ''value'') ''array'' (if length clubs = 1 then ascii ''1 item'' else items_text (length clubs)) start stop 0
        # concat (map (\<lambda>(i, club, trace). club_element_fields i club trace) (enumerate 0 (zip clubs traces))))"

definition club_summaries_with_provenance :: "env \<Rightarrow> u32 \<Rightarrow> (reader, decoded_payload) op" where
  "club_summaries_with_provenance E tid =
     bindM here_bit (\<lambda>start.
     bindM (scrape_clubs E tid) (\<lambda>((clubs, traces, elements_end, incomplete), buffer_bits).
     bindM (club_summaries_end (length clubs) elements_end buffer_bits) (\<lambda>stop.
     ret \<lparr>dp_payload = ClubSummaries clubs, dp_provenance = club_summary_provenance clubs traces start stop\<rparr>)))"

definition club_info_with_provenance :: "env \<Rightarrow> u32 \<Rightarrow> (reader, decoded_payload) op" where
  "club_info_with_provenance E tid =
     bindM here_bit (\<lambda>start.
     bindM (scrape_clubs E tid) (\<lambda>((clubs, traces, elements_end, incomplete), buffer_bits).
     bindM (club_info_end elements_end buffer_bits) (\<lambda>stop.
     ret \<lparr>dp_payload = ClubInfo clubs, dp_provenance = club_summary_provenance clubs traces start stop\<rparr>)))"

end
