(* ===== verification/Decode_Join.thy ===== *)
theory Decode_Join
  imports Native_Decode
begin

text \<open>
  The decoder of the answer to a join request, once plain and once with the provenance of its fields, and
  the invitation to a channel (\<open>core/src/games/sc2/native/decode.rs\<close>).
\<close>

section \<open>The plain decoder\<close>

text \<open>An array of at most four words; \<open>what\<close> names it in the refusal.\<close>

definition skip_words :: "string \<Rightarrow> (reader, unit) op" where
  "skip_words what =
     bindM (read_usize 3) (\<lambda>n.
     if n > 4 then fail (native_text (''channel config has too many '' @ what))
     else bindM (forM [0..<n] (\<lambda>_. read_bits 32)) (\<lambda>_. ret ()))"

definition decode_channel_config :: "(reader, unit) op" where
  "decode_channel_config =
     bindM (read_bits 8) (\<lambda>_.
     bindM (read_bits 16) (\<lambda>_.
     bindM (skip_words ''programs'') (\<lambda>_.
     bindM (read_bits 32) (\<lambda>_.
     bindM (skip_words ''realms'') (\<lambda>_.
     bindM (read_bits 32) (\<lambda>_. ret ()))))))"

definition decode_channel_name :: "(reader, u16 option \<times> u16) op" where
  "decode_channel_name =
     bindM (read_u16 16) (\<lambda>shard_index.
     bindM (read_bits 29) (\<lambda>_.
     bindM (read_bits 2) (\<lambda>variant.
     bindM (if variant = 2 then bindM (read_bits 32) (\<lambda>_. bindM (read_u16 16) (\<lambda>i. ret (Some i)))
            else if variant = 1 \<or> variant = 3 then bindM (read_bits 16) (\<lambda>_. bindM (read_bits 32) (\<lambda>_. ret None))
            else if variant = 0 then bindM (decode_generated_utf8 7 0 124 31) (\<lambda>_. ret None)
            else fail (Panic Unreachable))
       (\<lambda>public_id. ret (public_id, shard_index)))))"

abbreviation join_index_error :: error where
  "join_index_error \<equiv> native_text ''chat join channel index is invalid''"

definition joined :: "u32 \<Rightarrow> u8 \<Rightarrow> u8 \<Rightarrow> u16 option \<Rightarrow> u16 option \<Rightarrow> u32 option \<Rightarrow> payload" where
  "joined member_handle channel_index channel_type name_id shard token =
     ChatJoin \<lparr>cj_success = True, cj_channel_index = Some channel_index, cj_member_handle = Some member_handle,
       cj_channel_type = Some channel_type, cj_channel_name_id = name_id, cj_channel_shard_index = shard,
       cj_reason = None, cj_token = token\<rparr>"

definition refused :: "u16 \<Rightarrow> u8 option \<Rightarrow> u32 option \<Rightarrow> payload" where
  "refused reason channel_type token =
     ChatJoin \<lparr>cj_success = False, cj_channel_index = None, cj_member_handle = None, cj_channel_type = channel_type,
       cj_channel_name_id = None, cj_channel_shard_index = None, cj_reason = Some reason, cj_token = token\<rparr>"

definition chat_join_accepted :: "(reader, payload) op" where
  "chat_join_accepted =
     bindM (read_u32 32) (\<lambda>member_handle.
     bindM (read_u8 3) (\<lambda>channel_index.
     if \<not> unat channel_index < CHANNEL_INDEX_COUNT then fail join_index_error
     else
     bindM (read_bits 32) (\<lambda>_.
     bindM (read_bits 32) (\<lambda>_.
     bindM (read_u8 4) (\<lambda>channel_type.
     bindM (read_bits 1) (\<lambda>named.
     bindM (when_set named decode_channel_name) (\<lambda>name.
     bindM (read_bits 1) (\<lambda>configured.
     bindM (when_set configured decode_channel_config) (\<lambda>_.
     bindM (read_bits 1) (\<lambda>reserved.
     bindM (when_set reserved (read_bits 32)) (\<lambda>_.
     bindM (read_bits 1) (\<lambda>answered.
     bindM (when_set answered (read_u32 32)) (\<lambda>token.
     ret (joined member_handle channel_index channel_type (Option.bind name fst) (map_option snd name) token))))))))))))))"

definition chat_join_refused :: "(reader, payload) op" where
  "chat_join_refused =
     bindM (read_u16 16) (\<lambda>reason.
     bindM (read_bits 1) (\<lambda>typed.
     bindM (when_set typed (read_u8 4)) (\<lambda>channel_type.
     bindM (read_bits 1) (\<lambda>answered.
     bindM (when_set answered (read_u32 32)) (\<lambda>token.
     ret (refused reason channel_type token))))))"

definition decode_chat_join :: "(reader, payload) op" where
  "decode_chat_join = bindM (read_bits 1) (\<lambda>b. if b = 0 then chat_join_accepted else chat_join_refused)"

section \<open>The decoder with provenance\<close>

text \<open>Every operation is given the fields so far and returns them with its own.\<close>

definition trace_integer :: "decoded_field list \<Rightarrow> bytes \<Rightarrow> string \<Rightarrow> nat \<Rightarrow> nat \<Rightarrow> (reader, u64 \<times> decoded_field list) op" where
  "trace_integer fs path knd width depth =
     bindM here_bit (\<lambda>start. bindM (read_bits width) (\<lambda>v. bindM here_bit (\<lambda>stop.
     ret (v, fs @ [plain_field path knd (word_text v) start stop depth]))))"

definition presence_text :: "bool \<Rightarrow> bytes" where
  "presence_text b = (if b then ascii ''present'' else ascii ''none'')"

definition trace_optional_bits :: "decoded_field list \<Rightarrow> string \<Rightarrow> nat \<Rightarrow> nat \<Rightarrow> (reader, u64 option \<times> decoded_field list) op" where
  "trace_optional_bits fs path value_bits depth =
     bindM here_bit (\<lambda>start.
     bindM (trace_integer fs (ascii path @ ascii ''.present'') ''optional flag'' 1 (depth + 1)) (\<lambda>(flg, fs).
     bindM (if flg \<noteq> 0
            then bindM (trace_integer fs (ascii path @ ascii ''.value'') ''bits'' value_bits (depth + 1)) (\<lambda>(v, fs). ret (Some v, fs))
            else ret (None, fs)) (\<lambda>(v, fs).
     bindM here_bit (\<lambda>stop.
     ret (v, fs @ [plain_field (ascii path) ''optional'' (presence_text (flg \<noteq> 0)) start stop depth])))))"

definition trace_optional_config :: "decoded_field list \<Rightarrow> (reader, unit \<times> decoded_field list) op" where
  "trace_optional_config fs =
     bindM here_bit (\<lambda>start.
     bindM (trace_integer fs (ascii ''value.channel_config.present'') ''optional flag'' 1 2) (\<lambda>(flg, fs).
     bindM (if flg \<noteq> 0 then decode_channel_config else ret ()) (\<lambda>_.
     bindM here_bit (\<lambda>stop.
     ret ((), fs @ [plain_field (ascii ''value.channel_config'') ''optional'' (presence_text (flg \<noteq> 0)) start stop 1])))))"

definition trace_name_variant :: "u64 \<Rightarrow> decoded_field list \<Rightarrow> (reader, u16 option \<times> decoded_field list) op" where
  "trace_name_variant variant fs =
     (if variant = 2 then
        bindM (trace_integer fs (ascii ''value.channel_name.locale'') ''fourcc'' 32 2) (\<lambda>(_, fs).
        bindM (trace_integer fs (ascii ''value.channel_name.id'') ''uint16'' 16 2) (\<lambda>(v, fs).
        bindM (liftR (expect_u16 v)) (\<lambda>i. ret (Some i, fs))))
      else if variant = 1 \<or> variant = 3 then
        bindM (trace_integer fs (ascii ''value.channel_name.index'') ''uint16'' 16 2) (\<lambda>(_, fs).
        bindM (trace_integer fs (ascii ''value.channel_name.owner'') ''uint32'' 32 2) (\<lambda>(_, fs). ret (None, fs)))
      else if variant = 0 then
        bindM here_bit (\<lambda>start.
        bindM (decode_generated_utf8 7 0 124 31) (\<lambda>s.
        bindM here_bit (\<lambda>stop.
        ret (None, fs @ [plain_field (ascii ''value.channel_name.literal'') ''utf8'' s start stop 2]))))
      else fail (Panic Unreachable))"

definition trace_channel_name :: "decoded_field list \<Rightarrow> (reader, (u16 option \<times> u16) option \<times> decoded_field list) op" where
  "trace_channel_name fs =
     bindM here_bit (\<lambda>start.
     bindM (trace_integer fs (ascii ''value.channel_name.present'') ''optional flag'' 1 2) (\<lambda>(flg, fs).
     if flg = 0 then ret (None, fs)
     else
     bindM (trace_integer fs (ascii ''value.channel_name.shard_index'') ''uint16'' 16 2) (\<lambda>(v, fs).
     bindM (liftR (expect_u16 v)) (\<lambda>shard_index.
     bindM (trace_integer fs (ascii ''value.channel_name.namespace'') ''uint29'' 29 2) (\<lambda>(_, fs).
     bindM (trace_integer fs (ascii ''value.channel_name.kind'') ''choice selector'' 2 2) (\<lambda>(variant, fs).
     bindM (trace_name_variant variant fs) (\<lambda>(public_id, fs).
     bindM here_bit (\<lambda>stop.
     ret (Some (public_id, shard_index),
       fs @ [plain_field (ascii ''value.channel_name'') ''optional choice'' (ascii ''present'') start stop 1])))))))))"

text \<open>\<open>u32::try_from(v).expect(..)\<close> and \<open>u8::try_from(v).expect(..)\<close>.\<close>

definition expect_u32 :: "u64 \<Rightarrow> u32 result" where
  "expect_u32 v = (if unat v < 2 ^ 32 then Inr (ucast v) else Inl (Panic ExpectFailed))"

definition expect_u8 :: "u64 \<Rightarrow> u8 result" where
  "expect_u8 v = (if unat v < 2 ^ 8 then Inr (ucast v) else Inl (Panic ExpectFailed))"

definition expect_some :: "(u64 \<Rightarrow> 'a result) \<Rightarrow> u64 option \<Rightarrow> 'a option result" where
  "expect_some f v = (case v of None \<Rightarrow> Inr None | Some x \<Rightarrow> rbind (f x) (\<lambda>y. Inr (Some y)))"

definition trace_join_accepted :: "decoded_field list \<Rightarrow> (reader, payload \<times> decoded_field list) op" where
  "trace_join_accepted fs =
     bindM (trace_integer fs (ascii ''value.member_handle'') ''uint32'' 32 1) (\<lambda>(v, fs).
     bindM (liftR (expect_u32 v)) (\<lambda>member_handle.
     bindM (trace_integer fs (ascii ''value.channel_index'') ''uint3'' 3 1) (\<lambda>(v, fs).
     bindM (liftR (expect_u8 v)) (\<lambda>channel_index.
     if \<not> unat channel_index < CHANNEL_INDEX_COUNT then fail join_index_error
     else
     bindM (trace_integer fs (ascii ''value.conference_id'') ''uint32'' 32 1) (\<lambda>(_, fs).
     bindM (trace_integer fs (ascii ''value.owner_id'') ''uint32'' 32 1) (\<lambda>(_, fs).
     bindM (trace_integer fs (ascii ''value.channel_type'') ''uint4'' 4 1) (\<lambda>(v, fs).
     bindM (liftR (expect_u8 v)) (\<lambda>channel_type.
     bindM (trace_channel_name fs) (\<lambda>(name, fs).
     bindM (trace_optional_config fs) (\<lambda>(_, fs).
     bindM (trace_optional_bits fs ''value.reserved'' 32 1) (\<lambda>(_, fs).
     bindM (trace_optional_bits fs ''value.token'' 32 1) (\<lambda>(v, fs).
     bindM (liftR (expect_some expect_u32 v)) (\<lambda>token.
     ret (joined member_handle channel_index channel_type (Option.bind name fst) (map_option snd name) token, fs))))))))))))))"

definition trace_join_refused :: "decoded_field list \<Rightarrow> (reader, payload \<times> decoded_field list) op" where
  "trace_join_refused fs =
     bindM (trace_integer fs (ascii ''value.reason'') ''uint16'' 16 1) (\<lambda>(v, fs).
     bindM (liftR (expect_u16 v)) (\<lambda>reason.
     bindM (trace_optional_bits fs ''value.channel_type'' 4 1) (\<lambda>(v, fs).
     bindM (liftR (expect_some expect_u8 v)) (\<lambda>channel_type.
     bindM (trace_optional_bits fs ''value.token'' 32 1) (\<lambda>(v, fs).
     bindM (liftR (expect_some expect_u32 v)) (\<lambda>token.
     ret (refused reason channel_type token, fs)))))))"

text \<open>The flag on the wire is inverted, and so is the text of its field, which is set after it was read.\<close>

definition chat_join_with_provenance :: "(reader, decoded_payload) op" where
  "chat_join_with_provenance =
     bindM here_bit (\<lambda>start.
     bindM (trace_integer [] (ascii ''value.success'') ''bool (inverted)'' 1 1) (\<lambda>(b, fs).
     bindM (liftR (ok_or (Panic ExpectFailed) (if fs = [] then None else Some (last fs)))) (\<lambda>f.
     let success = (b = 0); fs = butlast fs @ [f\<lparr>df_value := bool_text success\<rparr>] in
     bindM (if success then trace_join_accepted fs else trace_join_refused fs) (\<lambda>(p, fs).
     bindM here_bit (\<lambda>stop.
     ret \<lparr>dp_payload = p, dp_provenance = sort_provenance (fs @ [plain_field (ascii ''value'') ''Chat.JoinNotify2''
            (if success then ascii ''success'' else ascii ''failure'') start stop 0])\<rparr>)))))"

section \<open>Invitations\<close>

definition decode_chat_invite :: "(reader, payload) op" where
  "decode_chat_invite =
     bindM (read_u8 4) (\<lambda>channel_type.
     bindM (read_u32 32) (\<lambda>inviter.
     bindM (read_u8 3) (\<lambda>channel_index.
     ret (ChatInvite \<lparr>ci_channel_type = channel_type, ci_channel_index = channel_index, ci_inviter_presence = inviter\<rparr>))))"

definition chat_invite_with_provenance :: "(reader, decoded_payload) op" where
  "chat_invite_with_provenance =
     bindM here_bit (\<lambda>start.
     bindM (read_spanned_u8 4) (\<lambda>channel_type.
     bindM (read_spanned_u32 32) (\<lambda>inviter.
     bindM (read_spanned_u8 3) (\<lambda>channel_index.
     bindM here_bit (\<lambda>stop.
     ret (custom_payload (ChatInvite \<lparr>ci_channel_type = sv_value channel_type, ci_channel_index = sv_value channel_index,
            ci_inviter_presence = sv_value inviter\<rparr>)
       [spanned_field word_text (ascii ''value.m_channelType'') ''ChatChannelType2'' channel_type 1,
        spanned_field word_text (ascii ''value.m_inviterPresence'') ''uint32'' inviter 1,
        spanned_field word_text (ascii ''value.m_channelIndex'') ''uint3'' channel_index 1]
       ''ChatInvite'' (ascii ''3 fields'') start stop))))))"

section \<open>Both decoders agree\<close>

text \<open>A tracing operation is the plain one with fields beside its value.\<close>

definition traces :: "(reader, 'a \<times> decoded_field list) op \<Rightarrow> (reader, 'a) op \<Rightarrow> bool" where
  "traces m m' \<longleftrightarrow> bindM m (\<lambda>(x, fs). ret x) = m'"

definition untraced :: "('a \<times> decoded_field list) result \<times> reader \<Rightarrow> 'a result \<times> reader" where
  "untraced = (\<lambda>(v, r). (case v of Inl e \<Rightarrow> Inl e | Inr (x, fs) \<Rightarrow> Inr x, r))"

lemma untraced_simps [simp]: "untraced (Inl e, r) = (Inl e, r)" "untraced (Inr (x, fs), r) = (Inr x, r)"
  by (simp_all add: untraced_def)

lemma traces_iff: "traces m m' \<longleftrightarrow> (\<forall>r. m' r = untraced (m r))"
  by (auto simp: traces_def untraced_def fun_eq_iff bindM_def split: prod.split sum.split)

lemma traces_bind:
  assumes "traces m m'" and "\<And>x fs. traces (f x fs) (f' x)"
  shows "traces (bindM m (\<lambda>(x, fs). f x fs)) (bindM m' f')"
  unfolding traces_iff
proof
  fix r
  obtain v r1 where m: "m r = (v, r1)" by (cases "m r")
  show "bindM m' f' r = untraced (bindM m (\<lambda>(x, fs). f x fs) r)"
    using assms m by (cases v) (auto simp: traces_iff bindM_def)
qed

lemma traces_lift:
  assumes "\<And>x. traces (f x) (f' x)"
  shows "traces (bindM m f) (bindM m f')"
  unfolding traces_iff
proof
  fix r
  obtain v r1 where m: "m r = (v, r1)" by (cases "m r")
  show "bindM m f' r = untraced (bindM m f r)"
    using assms m by (cases v) (auto simp: traces_iff bindM_def)
qed

lemma traces_here: "(\<And>p. traces (f p) m') \<Longrightarrow> traces (bindM (getsM g) f) m'"
  by (auto simp: traces_iff)

lemma traces_if: "(c \<Longrightarrow> traces a a') \<Longrightarrow> (\<not> c \<Longrightarrow> traces b b') \<Longrightarrow> traces (if c then a else b) (if c then a' else b')"
  by simp

lemma traces_ret: "traces (ret (x, fs)) (ret x)"
  by (simp add: traces_iff)

lemma traces_fail: "traces (fail e) (fail e)"
  by (simp add: traces_iff)

end
