(* ===== verification/Decode_Presence.thy ===== *)
theory Decode_Presence
  imports Native_Decode
begin

text \<open>
  The decoders of presence records, of the current season, of the club settings and of the start of a friends
  list (\<open>core/src/games/sc2/native/decode.rs\<close>), each with the provenance of its fields.
\<close>

section \<open>Presence\<close>

definition presence_flags :: "u64 \<Rightarrow> u64 \<Rightarrow> u64 \<Rightarrow> u64 \<Rightarrow> u8" where
  "presence_flags writable ephemeral server_only client_only =
     (let fl = 0;
          fl = (if writable \<noteq> 0 then fl OR FLAG_WRITABLE else fl);
          fl = (if ephemeral \<noteq> 0 then fl OR FLAG_EPHEMERAL else fl);
          fl = (if server_only \<noteq> 0 then fl OR FLAG_SERVER_ONLY else fl);
          fl = (if client_only \<noteq> 0 then fl OR FLAG_CLIENT_ONLY else fl) in
      flags_from_bits fl)"

definition presence_item :: "nat \<Rightarrow> (reader, presence_field \<times> decoded_field list) op" where
  "presence_item i =
     bindM here_bit (\<lambda>item_start.
     bindM (read_spanned_u64 1) (\<lambda>client_only.
     bindM (read_spanned_u64 1) (\<lambda>writable.
     bindM (read_spanned_u64 1) (\<lambda>ephemeral.
     bindM here_bit (\<lambda>fixed_start.
     bindM (read_bits 1) (\<lambda>fixed_absent.
     bindM (if fixed_absent \<noteq> 0 then ret None else bindM (read_bits 16) (\<lambda>n. ret (Some n))) (\<lambda>fixed_size.
     bindM here_bit (\<lambda>fixed_end.
     bindM (read_spanned_u64 1) (\<lambda>server_only.
     bindM (read_spanned_u8 8) (\<lambda>identifier.
     if unat (sv_value identifier) > 25 \<and> sv_value identifier \<noteq> 255
     then fail (native_text ''presence announcement contains an unknown field type'')
     else
     bindM (read_spanned_u32 32) (\<lambda>handle.
     bindM here_bit (\<lambda>item_end.
     bindM (liftR (case fixed_size of None \<Rightarrow> Inr None | Some n \<Rightarrow> rbind (expect_u16 n) (\<lambda>n. Inr (Some n)))) (\<lambda>size_value.
     let path = indexed ''value.entries'' i in
     ret (\<lparr>pf_handle = sv_value handle, pf_identifier = sv_value identifier,
           pf_flags = presence_flags (sv_value writable) (sv_value ephemeral) (sv_value server_only) (sv_value client_only),
           pf_fixed_size = size_value\<rparr>,
       [plain_field path ''PresenceField'' (ascii ''7 fields'') item_start item_end 2,
        spanned_field word_text (path @ ascii ''.client_only'') ''bool'' client_only 3,
        spanned_field word_text (path @ ascii ''.writable'') ''bool'' writable 3,
        spanned_field word_text (path @ ascii ''.ephemeral'') ''bool'' ephemeral 3,
        plain_field (path @ ascii ''.fixed_size'') ''optional uint16''
          (case fixed_size of None \<Rightarrow> ascii ''none'' | Some n \<Rightarrow> word_text n) fixed_start fixed_end 3,
        spanned_field word_text (path @ ascii ''.server_only'') ''bool'' server_only 3,
        spanned_field word_text (path @ ascii ''.identifier'') ''uint8'' identifier 3,
        spanned_field word_text (path @ ascii ''.handle'') ''uint32'' handle 3]))))))))))))))"

definition presence_fields_with_provenance :: "(reader, decoded_payload) op" where
  "presence_fields_with_provenance =
     bindM here_bit (\<lambda>start.
     bindM (read_spanned_usize 7) (\<lambda>count.
     if sv_value count > 100 then fail (native_text ''presence announcement contains too many field definitions'')
     else
     bindM (read_items (sv_value count) presence_item) (\<lambda>(entries, fs).
     bindM here_bit (\<lambda>stop.
     ret (custom_payload (PresenceFields \<lparr>pfs_entries = entries\<rparr>)
       ([spanned_field decimal_nat (ascii ''value.entries.count'') ''array length'' count 2] @ fs @
        [array_field ''value.entries'' (length entries) (sv_start count) stop])
       ''PresenceFields'' (ascii ''1 field'') start stop)))))"

definition decode_presence_fields :: "(reader, payload) op" where
  "decode_presence_fields = payload_of presence_fields_with_provenance"

definition integer_item :: "string \<Rightarrow> nat \<Rightarrow> string \<Rightarrow> nat \<Rightarrow> (reader, u64 \<times> decoded_field list) op" where
  "integer_item path item_bits item_kind i =
     bindM (read_spanned_u64 item_bits) (\<lambda>item.
     ret (sv_value item, [spanned_field word_text (indexed path i) item_kind item 2]))"

definition trace_integer_array :: "string \<Rightarrow> nat \<Rightarrow> nat \<Rightarrow> string \<Rightarrow> (reader, u64 list \<times> decoded_field list) op" where
  "trace_integer_array path count_bits item_bits item_kind =
     bindM here_bit (\<lambda>start.
     bindM (read_spanned_usize count_bits) (\<lambda>count.
     bindM (read_items (sv_value count) (integer_item path item_bits item_kind)) (\<lambda>(xs, fs).
     bindM here_bit (\<lambda>stop.
     ret (xs, [spanned_field decimal_nat (ascii path @ ascii ''.count'') ''array length'' count 2] @ fs @
       [array_field path (length xs) start stop])))))"

definition optional_target :: "(reader, bytes) op" where
  "optional_target =
     bindM (read_bits 1) (\<lambda>b.
     if b \<noteq> 0 then
       bindM (read_bits 1) (\<lambda>flg. bindM (read_bits 32) (\<lambda>i.
       ret (ascii ''flag '' @ word_text flg @ ascii '', id '' @ word_text i)))
     else ret (ascii ''none''))"

definition expect_words :: "u64 list \<Rightarrow> u32 list result" where
  "expect_words xs = rmap (\<lambda>x. if unat x < 2 ^ 32 then Inr (ucast x) else Inl (Panic ExpectFailed)) xs"

definition presence_update_with_provenance :: "(reader, decoded_payload) op" where
  "presence_update_with_provenance =
     bindM here_bit (\<lambda>start.
     bindM (read_spanned_u64 19) (\<lambda>prefix.
     bindM (read_spanned_u64 1) (\<lambda>online_wire.
     bindM (read_spanned_u32 32) (\<lambda>local_id.
     bindM (read_spanned_u32 32) (\<lambda>master_id.
     bindM (read_spanned_usize 11) (\<lambda>field_bytes.
     if sv_value field_bytes > 1024 then fail (native_text ''presence update field data is too large'')
     else
     bindM here_bit (\<lambda>field_start.
     bindM (read_bytes (sv_value field_bytes) True) (\<lambda>field_data.
     bindM here_bit (\<lambda>field_end.
     bindM (read_spanned_u64 11) (\<lambda>reserved.
     bindM (trace_integer_array ''value.cleared_handles'' 4 32 ''uint32'') (\<lambda>(cleared, cleared_fs).
     bindM (liftR (expect_words cleared)) (\<lambda>cleared_handles.
     bindM (trace_integer_array ''value.handles'' 4 32 ''uint32'') (\<lambda>(hs, handle_fs).
     bindM (liftR (expect_words hs)) (\<lambda>handles.
     bindM (trace_integer_array ''value.variable_sizes'' 4 16 ''uint16'') (\<lambda>(sizes, size_fs).
     bindM (liftR (rmap expect_u16 sizes)) (\<lambda>variable_sizes.
     bindM here_bit (\<lambda>optional_start.
     bindM optional_target (\<lambda>target.
     bindM here_bit (\<lambda>optional_end.
     bindM (read_spanned_u64 8) (\<lambda>suffix.
     bindM here_bit (\<lambda>stop.
     ret (custom_payload
       (PresenceUpdate \<lparr>pu_local_presence_id = sv_value local_id, pu_master_presence_id = sv_value master_id,
          pu_field_data = field_data, pu_cleared_handles = cleared_handles, pu_handles = handles,
          pu_variable_sizes = variable_sizes, pu_online = (sv_value online_wire = 0)\<rparr>)
       ([spanned_field word_text (ascii ''value.wire_layout_selector'') ''obfuscation selector'' prefix 1,
         plain_field (ascii ''value.online'') ''bool (inverted)'' (bool_text (sv_value online_wire = 0))
           (sv_start online_wire) (sv_end online_wire) 1,
         spanned_field word_text (ascii ''value.local_presence_id'') ''uint32'' local_id 1,
         spanned_field word_text (ascii ''value.master_presence_id'') ''uint32'' master_id 1,
         plain_field (ascii ''value.field_data'') ''bytes'' (decimal_nat (length field_data) @ ascii '' bytes'') field_start field_end 1,
         spanned_field word_text (ascii ''value.reserved'') ''reserved bits'' reserved 1] @
        cleared_fs @ handle_fs @ size_fs @
        [plain_field (ascii ''value.optional_target'') ''optional'' target optional_start optional_end 1,
         spanned_field word_text (ascii ''value.trailing_selector'') ''obfuscation selector'' suffix 1])
       ''PresenceUpdate'' (ascii ''10 fields'') start stop))))))))))))))))))))))"

definition decode_presence_update :: "(reader, payload) op" where
  "decode_presence_update = payload_of presence_update_with_provenance"

section \<open>The current season\<close>

definition decode_profile_address :: "(reader, unit) op" where
  "decode_profile_address = skip_bits [32, 64]"

definition decode_ranked_key :: "(reader, unit) op" where
  "decode_ranked_key = skip_bits [32, 16, 32, 2]"

definition decode_league_key :: "(reader, unit) op" where
  "decode_league_key = bindM decode_ranked_key (\<lambda>_. skip_bits [3])"

definition decode_ranked_matchmaker :: "(reader, unit) op" where
  "decode_ranked_matchmaker =
     bindM (skip_bits [64, 16, 19, 64, 16, 20, 16]) (\<lambda>_.
     bindM decode_profile_address (\<lambda>_.
     bindM decode_ranked_key (\<lambda>_. skip_bits [32])))"

definition skip_optional :: "nat \<Rightarrow> (reader, unit) op" where
  "skip_optional width = bindM (read_bits 1) (\<lambda>b. if b \<noteq> 0 then skip_bits [width] else ret ())"

definition decode_season_info :: "(reader, unit) op" where
  "decode_season_info =
     bindM (skip_bits [32, 10]) (\<lambda>_.
     bindM (skip_optional 32) (\<lambda>_.
     bindM (skip_bits [16]) (\<lambda>_.
     bindM (skip_optional 16) (\<lambda>_.
     bindM (skip_bits [32, 16, 16, 25]) (\<lambda>_.
     bindM (skip_optional 16) (\<lambda>_.
     bindM (skip_optional 32) (\<lambda>_.
     bindM (skip_optional 16) (\<lambda>_. skip_bits [64]))))))))"

text \<open>An array of records that are read and dropped.\<close>

definition wire_records :: "nat \<Rightarrow> string \<Rightarrow> string \<Rightarrow> (reader, unit) op \<Rightarrow> (reader, decoded_field list) op" where
  "wire_records count path knd item =
     bindM (read_items count (\<lambda>i. bindM here_bit (\<lambda>item_start. bindM item (\<lambda>_. bindM here_bit (\<lambda>item_end.
       ret ((), [plain_field (indexed path i) knd (ascii ''wire record'') item_start item_end 2]))))))
     (\<lambda>(_, fs). ret fs)"

definition season_array :: "nat \<Rightarrow> nat \<Rightarrow> string \<Rightarrow> string \<Rightarrow> string \<Rightarrow> (reader, unit) op \<Rightarrow> (reader, nat \<times> decoded_field list) op" where
  "season_array width greatest too_many path knd item =
     bindM (read_spanned_usize width) (\<lambda>count.
     if sv_value count > greatest then fail (native_text too_many)
     else
     bindM (wire_records (sv_value count) path knd item) (\<lambda>fs.
     bindM here_bit (\<lambda>stop.
     ret (sv_value count, [spanned_field decimal_nat (ascii path @ ascii ''.count'') ''array length'' count 2] @ fs @
       [array_field path (sv_value count) (sv_start count) stop]))))"

definition decode_league :: "(reader, unit) op" where
  "decode_league = bindM decode_profile_address (\<lambda>_. bindM (skip_bits [8]) (\<lambda>_. decode_league_key))"

definition decode_league_configuration :: "(reader, unit) op" where
  "decode_league_configuration = bindM decode_league_key (\<lambda>_. bindM (skip_bits [64]) (\<lambda>_. skip_optional 32))"

definition season_failure :: "nat \<Rightarrow> decoded_field list \<Rightarrow> (reader, decoded_payload) op" where
  "season_failure start fs =
     bindM (read_spanned_u64 16) (\<lambda>code.
     bindM here_bit (\<lambda>stop.
     ret (custom_payload (StartupSummary \<lparr>su_kind = ascii ''current-season-error'', su_item_count = unat (sv_value code),
            su_complete = None\<rparr>)
       (fs @ [spanned_field word_text (ascii ''value.error'') ''uint16'' code 1])
       ''CurrentSeason'' (ascii ''failure'') start stop)))"

definition season_success :: "nat \<Rightarrow> decoded_field list \<Rightarrow> (reader, decoded_payload) op" where
  "season_success start fs =
     bindM (read_spanned_u64 1) (\<lambda>authority.
     bindM (season_array 7 100 ''current season has too many matchmakers'' ''value.ranked'' ''RankedMatchmaker''
       decode_ranked_matchmaker) (\<lambda>(ranked, ranked_fs).
     bindM (season_array 9 448 ''current season has too many leagues'' ''value.leagues'' ''League'' decode_league) (\<lambda>(leagues, league_fs).
     bindM here_bit (\<lambda>season_start.
     bindM decode_season_info (\<lambda>_.
     bindM here_bit (\<lambda>season_end.
     bindM (season_array 9 448 ''current season has too many league configurations'' ''value.configurations''
       ''LeagueConfiguration'' decode_league_configuration) (\<lambda>(configurations, configuration_fs).
     bindM here_bit (\<lambda>stop.
     ret (custom_payload (StartupSummary \<lparr>su_kind = ascii ''current-season'',
            su_item_count = ranked + leagues + configurations, su_complete = Some (sv_value authority \<noteq> 0)\<rparr>)
       (fs @ [spanned_field word_text (ascii ''value.authority'') ''bool'' authority 1] @ ranked_fs @ league_fs @
        [plain_field (ascii ''value.season'') ''SeasonInfo'' (ascii ''wire record'') season_start season_end 1] @ configuration_fs)
       ''CurrentSeason'' (ascii ''5 fields'') start stop)))))))))"

definition current_season_with_provenance :: "(reader, decoded_payload) op" where
  "current_season_with_provenance =
     bindM here_bit (\<lambda>start.
     bindM (read_spanned_u64 1) (\<lambda>failure.
     let fs = [spanned_field word_text (ascii ''value.failure'') ''bool'' failure 1] in
     if sv_value failure \<noteq> 0 then season_failure start fs else season_success start fs))"

definition decode_current_season :: "(reader, payload) op" where
  "decode_current_season = payload_of current_season_with_provenance"

section \<open>Club settings\<close>

definition club_settings_with_provenance :: "(reader, decoded_payload) op" where
  "club_settings_with_provenance =
     bindM here_bit (\<lambda>start.
     bindM (decode_spanned_generated_utf8 13 0 4096 1024) (\<lambda>description.
     bindM (decode_spanned_generated_utf8 13 0 4096 1024) (\<lambda>message_text.
     bindM (read_spanned_u32 32) (\<lambda>first.
     bindM (read_spanned_u32 32) (\<lambda>second.
     bindM read_spanned_i32 (\<lambda>first_signed.
     bindM read_spanned_i32 (\<lambda>second_signed.
     bindM read_spanned_i32 (\<lambda>third_signed.
     bindM here_bit (\<lambda>stop.
     ret (custom_payload (StartupSummary \<lparr>su_kind = ascii ''club-settings'', su_item_count = 0, su_complete = None\<rparr>)
       [spanned_field (\<lambda>s. s) (ascii ''value.description'') ''string'' description 1,
        spanned_field (\<lambda>s. s) (ascii ''value.message'') ''string'' message_text 1,
        spanned_field word_text (ascii ''value.setting_0'') ''uint32'' first 1,
        spanned_field word_text (ascii ''value.setting_1'') ''uint32'' second 1,
        spanned_field int32_text (ascii ''value.setting_2'') ''int32'' first_signed 1,
        spanned_field int32_text (ascii ''value.setting_3'') ''int32'' second_signed 1,
        spanned_field int32_text (ascii ''value.setting_4'') ''int32'' third_signed 1]
       ''ClubSettings'' (ascii ''7 fields'') start stop))))))))))"

definition decode_club_settings :: "(reader, payload) op" where
  "decode_club_settings = payload_of club_settings_with_provenance"

end
