(* ===== verification/Native_Stream.thy ===== *)
theory Native_Stream
  imports Native_Records Native_Crypto Io_Stream
begin

text \<open>
  The record stream of the native connection (\<open>core/src/games/sc2/native/stream.rs\<close>): records in a buffer that
  is filled chunk by chunk, with a stream cipher per direction once protection is on.  What a record means is
  the protocol's part: its two decoders, of what a client receives and of what it sends, are the record
  \<open>decoders\<close> here.  Diagnostics on standard error and the capture of traffic are left out.
\<close>

section \<open>Records\<close>

record native_record =
  rec_header :: routing_header
  rec_type_id :: u32
  rec_value :: payload
  rec_payload_bit_count :: nat
  rec_byte_count :: nat

record decoders =
  incoming_record :: "routing_header \<Rightarrow> (reader, u32 \<times> payload) op"
  client_record :: "routing_header \<Rightarrow> (reader, u32 \<times> payload) op"

record 'k record_stream =
  link :: wire_stream
  protocol :: decoders
  buffer :: bytes
  inbound_cipher :: "'k option"
  outbound_cipher :: "'k option"
  server_mode :: bool

definition stream_new :: "wire_stream \<Rightarrow> decoders \<Rightarrow> 'k record_stream" where
  "stream_new st p = \<lparr>link = st, protocol = p, buffer = [], inbound_cipher = None, outbound_cipher = None, server_mode = False\<rparr>"

definition stream_new_server :: "wire_stream \<Rightarrow> decoders \<Rightarrow> 'k record_stream" where
  "stream_new_server st p = (stream_new st p)\<lparr>server_mode := True\<rparr>"

definition protection_enabled :: "'k record_stream \<Rightarrow> bool" where
  "protection_enabled s \<longleftrightarrow> inbound_cipher s \<noteq> None"

abbreviation on_link :: "(wire_stream, 'a) op \<Rightarrow> ('k record_stream, 'a) op" where
  "on_link m s \<equiv> (case m (link s) of (v, st) \<Rightarrow> (v, s\<lparr>link := st\<rparr>))"

section \<open>Protection\<close>

text \<open>The tail both ways of enabling share: the bytes in the buffer arrived protected.\<close>

definition install_ciphers :: "'k suite \<Rightarrow> bytes \<Rightarrow> bytes \<Rightarrow> ('k record_stream, unit) op" where
  "install_ciphers S inbound_key outbound_key =
     bindM (liftR (rc4_new S inbound_key)) (\<lambda>inbound.
     bindM (liftR (rc4_new S outbound_key)) (\<lambda>outbound.
     modifyM (\<lambda>s. s\<lparr>buffer := fst (rc4_apply S inbound (buffer s)),
       inbound_cipher := Some (snd (rc4_apply S inbound (buffer s))), outbound_cipher := Some outbound\<rparr>)))"

definition enable_protection :: "'k suite \<Rightarrow> bytes \<Rightarrow> ('k record_stream, unit) op" where
  "enable_protection S key s =
     (if inbound_cipher s \<noteq> None \<or> outbound_cipher s \<noteq> None then (native_error ProtectionAlreadyEnabled, s)
      else bindM (liftR (derive_transport_rc4_keys S key)) (\<lambda>(inbound_key, outbound_key).
           install_ciphers S inbound_key outbound_key) s)"

definition enable_protection_server :: "'k suite \<Rightarrow> bytes \<Rightarrow> ('k record_stream, unit) op" where
  "enable_protection_server S key s =
     (if inbound_cipher s \<noteq> None \<or> outbound_cipher s \<noteq> None then (native_error ProtectionAlreadyEnabled, s)
      else bindM (liftR (derive_transport_rc4_keys S key)) (\<lambda>(client_inbound_key, client_outbound_key).
           install_ciphers S client_outbound_key client_inbound_key) s)"

section \<open>Decoding the buffer\<close>

text \<open>\<open>u8::try_from(..).expect(..)\<close> on six and four bits, \<open>u16::try_from(..).expect(..)\<close> on nine.\<close>

definition small :: "nat \<Rightarrow> u64 \<Rightarrow> u64 result" where
  "small width v = (if unat v < 2 ^ width then Inr v else Inl (Panic ExpectFailed))"

definition decode_command_response :: "u8 \<Rightarrow> (reader, native_record) op" where
  "decode_command_response command =
     bindM (getsM rposition) (\<lambda>payload_start.
     bindM (read_bits 9) (\<lambda>raw.
     bindM (liftR (small 16 raw)) (\<lambda>code.
     bindM (getsM rposition) (\<lambda>logical_bits.
     ret \<lparr>rec_header = \<lparr>command_id = command, service_slot = None, header_bit_count = payload_start\<rparr>,
          rec_type_id = 0,
          rec_value = CommandResponse \<lparr>cr_command_id = command, cr_result = ucast code\<rparr>,
          rec_payload_bit_count = logical_bits - payload_start,
          rec_byte_count = div_ceil logical_bits 8\<rparr>))))"

definition decode_service_record :: "(routing_header \<Rightarrow> (reader, u32 \<times> payload) op) \<Rightarrow> u8 \<Rightarrow> u8 \<Rightarrow> (reader, native_record) op" where
  "decode_service_record dec command slot =
     bindM (getsM rposition) (\<lambda>payload_start.
     let header = \<lparr>command_id = command, service_slot = Some slot, header_bit_count = payload_start\<rparr> in
     bindM (dec header) (\<lambda>(tid, v).
     bindM (getsM rposition) (\<lambda>logical_bits.
     let byte_count = div_ceil logical_bits 8; padding = byte_count * 8 - logical_bits in
     bindM (if padding \<noteq> 0 then bindM (read_bits padding) (\<lambda>_. ret ()) else ret ()) (\<lambda>_.
     ret \<lparr>rec_header = header, rec_type_id = tid, rec_value = v,
          rec_payload_bit_count = logical_bits - payload_start, rec_byte_count = byte_count\<rparr>))))"

definition read_record :: "(routing_header \<Rightarrow> (reader, u32 \<times> payload) op) \<Rightarrow> (reader, native_record) op" where
  "read_record dec =
     bindM (read_bits 6) (\<lambda>raw.
     bindM (liftR (small 8 raw)) (\<lambda>command.
     bindM (read_bits 1) (\<lambda>explicit.
     if explicit = 0 then decode_command_response (ucast command)
     else
       bindM (read_bits 4) (\<lambda>raw.
       bindM (liftR (small 8 raw)) (\<lambda>slot.
       decode_service_record dec (ucast command) (ucast slot))))))"

text \<open>\<open>drain(..n)\<close> of the buffer aborts beyond its end.\<close>

definition drain :: "nat \<Rightarrow> ('k record_stream, unit) op" where
  "drain n s = (if n \<le> length (buffer s) then (Inr (), s\<lparr>buffer := drop n (buffer s)\<rparr>) else (Inl (Panic SliceOutOfBounds), s))"

definition record_decoder :: "'k record_stream \<Rightarrow> routing_header \<Rightarrow> (reader, u32 \<times> payload) op" where
  "record_decoder s = (if server_mode s then client_record (protocol s) else incoming_record (protocol s))"

definition decode_buffer :: "('k record_stream, native_record) op" where
  "decode_buffer s =
     (case rbind (reader_new (buffer s) None) (\<lambda>r. fst (read_record (record_decoder s) r)) of
        Inl e \<Rightarrow> (Inl e, s)
      | Inr g \<Rightarrow> bindM (drain (rec_byte_count g)) (\<lambda>_. ret g) s)"

section \<open>Reading and writing\<close>

abbreviation READ_CHUNK_SIZE :: nat where "READ_CHUNK_SIZE \<equiv> 4096"

text \<open>What both readers do with the bytes of a chunk.\<close>

definition take_chunk :: "'k suite \<Rightarrow> bytes \<Rightarrow> 'k record_stream \<Rightarrow> 'k record_stream" where
  "take_chunk S chunk s =
     (case inbound_cipher s of
        None \<Rightarrow> s\<lparr>buffer := buffer s @ chunk\<rparr>
      | Some k \<Rightarrow> s\<lparr>buffer := buffer s @ fst (rc4_apply S k chunk), inbound_cipher := Some (snd (rc4_apply S k chunk))\<rparr>)"

definition read_more :: "'k suite \<Rightarrow> ('k record_stream, bool) op" where
  "read_more S =
     bindM (on_link (stream_read READ_CHUNK_SIZE)) (\<lambda>chunk.
     if chunk = [] then ret False else bindM (modifyM (take_chunk S chunk)) (\<lambda>_. ret True))"

definition consume_buffered :: "nat \<Rightarrow> 'k record_stream \<Rightarrow> 'k record_stream" where
  "consume_buffered n s = s\<lparr>buffer := drop (min n (length (buffer s))) (buffer s)\<rparr>"

function drain_raw :: "(wire_stream, unit) op" where
  "drain_raw st =
     (case stream_read 8192 st of
        (Inr [], st') \<Rightarrow> (Inr (), st')
      | (Inr (b # bs), st') \<Rightarrow> drain_raw st'
      | (Inl e, st') \<Rightarrow> if e = Io WouldBlock \<or> e = Io TimedOut then drain_raw st' else (Inl e, st'))"
  by pat_completeness auto

termination drain_raw
  by (relation "measure (\<lambda>st. length (incoming st) + length (pending st))")
    (auto dest: stream_read_shrinks[OF sym] stream_read_error_shrinks[OF sym])

declare drain_raw.simps [simp del]

definition send_record :: "'k suite \<Rightarrow> bytes \<Rightarrow> ('k record_stream, unit) op" where
  "send_record S data s =
     (case outbound_cipher s of
        None \<Rightarrow> bindM (on_link (write_all data)) (\<lambda>_. on_link flush) s
      | Some k \<Rightarrow> bindM (on_link (write_all (fst (rc4_apply S k data)))) (\<lambda>_. on_link flush)
          (s\<lparr>outbound_cipher := Some (snd (rc4_apply S k data))\<rparr>))"

text \<open>Routes without a type whose records are known to be of a fixed length.\<close>

definition unmapped_record_length :: "u8 \<Rightarrow> u8 \<Rightarrow> nat option" where
  "unmapped_record_length slot command =
     (if slot = PARTY_SLOT \<and> command = 0 then Some 18
      else if slot = 13 \<and> command = 50 then Some 38
      else None)"

text \<open>What \<open>receive\<close> does with the buffer: a record or an error, the skipped record, or more data.\<close>

datatype verdict = Done "native_record result" | Skipped | Starved

definition judge_buffer :: "'k record_stream \<Rightarrow> verdict \<times> 'k record_stream" where
  "judge_buffer s =
     (if length (buffer s) < 2 then (Starved, s)
      else case decode_buffer s of
        (Inr g, s') \<Rightarrow> (Done (Inr g), s')
      | (Inl (IncompleteFrame _), s') \<Rightarrow> (Starved, s')
      | (Inl (UnmappedNativeRoute slot command), s') \<Rightarrow>
          (case unmapped_record_length slot command of
             Some n \<Rightarrow> if n \<le> length (buffer s') then (Skipped, s'\<lparr>buffer := drop n (buffer s')\<rparr>) else (Starved, s')
           | None \<Rightarrow> (Done (Inl (UnmappedNativeRoute slot command)), s'))
      | (Inl e, s') \<Rightarrow> (Done (Inl e), s'))"

function receive_record :: "'k suite \<Rightarrow> ('k record_stream, native_record) op" where
  "receive_record S s =
     (case judge_buffer s of
        (Done v, s') \<Rightarrow> (v, s')
      | (Skipped, s') \<Rightarrow> receive_record S s'
      | (Starved, s') \<Rightarrow>
          (case stream_read READ_CHUNK_SIZE (link s') of
             (Inr [], st) \<Rightarrow> (Inl (Io UnexpectedEof), s'\<lparr>link := st\<rparr>)
           | (Inr (b # bs), st) \<Rightarrow> receive_record S (take_chunk S (b # bs) (s'\<lparr>link := st\<rparr>))
           | (Inl e, st) \<Rightarrow> (Inl e, s'\<lparr>link := st\<rparr>)))"
  by pat_completeness auto

lemma decode_buffer_cases:
  "decode_buffer s = (v, s') \<Longrightarrow> link s' = link s \<and> (\<forall>e. v = Inl e \<longrightarrow> s' = s)"
  by (auto simp: decode_buffer_def drain_def bindM_def split: sum.splits if_split_asm)

lemma judge_buffer_link: "judge_buffer s = (v, s') \<Longrightarrow> link s' = link s"
  by (auto simp: judge_buffer_def dest: decode_buffer_cases split: prod.splits sum.splits error.splits option.splits if_split_asm)

lemma unmapped_record_length_pos: "unmapped_record_length slot command = Some n \<Longrightarrow> 0 < n"
  by (auto simp: unmapped_record_length_def split: if_split_asm)

lemma judge_buffer_skips:
  assumes "judge_buffer s = (Skipped, s')"
  shows "length (buffer s') < length (buffer s)"
  using assms unmapped_record_length_pos
  by (auto simp: judge_buffer_def dest!: decode_buffer_cases split: prod.splits sum.splits error.splits option.splits if_split_asm) fastforce

lemma starved_shrinks:
  assumes "(Starved, s') = judge_buffer s" and "(Inr (b # bs), st) = stream_read n (link s')"
  shows "length (incoming st) + length (pending st) < length (incoming (link s)) + length (pending (link s))"
  using stream_read_shrinks[OF assms(2)[symmetric]] judge_buffer_link[OF assms(1)[symmetric]] by simp

termination receive_record
  by (relation "measures [\<lambda>(S, s). length (incoming (link s)) + length (pending (link s)), \<lambda>(S, s). length (buffer s)]")
    (auto simp: take_chunk_def dest: starved_shrinks judge_buffer_skips[OF sym] judge_buffer_link[OF sym]
      split: option.splits)

declare receive_record.simps [simp del]

end
