(* ===== verification/Native_Protocol.thy ===== *)
theory Native_Protocol
  imports Decode_Clubs Decode_Join Decode_Presence Native_Requests Native_Stream
begin

text \<open>
  The dispatch of records to their decoders, the transport of message frames and the logon parameters of the front
  (\<open>core/src/games/sc2/native/protocol.rs\<close>).  With it the record stream has the decoders it runs on.
\<close>

section \<open>Dispatch\<close>

fun append_route_context :: "u8 \<Rightarrow> u8 \<Rightarrow> u32 \<Rightarrow> nat \<Rightarrow> nat \<Rightarrow> error \<Rightarrow> error" where
  "append_route_context slot command tid payload_start failure_position (BsnWire m) =
     BsnWire (InRoute m (unat slot) (unat command) (unat tid) (failure_position - payload_start))"
| "append_route_context slot command tid payload_start failure_position (Native m) =
     Native (NativeInRoute m (unat slot) (unat command) (unat tid) (failure_position - payload_start))"
| "append_route_context slot command tid payload_start failure_position e = e"

definition custom_decoders :: "env \<Rightarrow> u32 \<Rightarrow> ((u8 \<times> u8) \<times> (reader, payload) op) list" where
  "custom_decoders E tid =
     [((CACHE_SLOT, CACHE_GET_STREAM_ITEMS_COMMAND), decode_cache_stream_items),
      ((CHAT_SLOT, CHAT_CONFERENCE_DESCRIPTIONS_COMMAND), decode_conference_descriptions),
      ((CHAT_SLOT, CHAT_CONFERENCE_MEMBER_COUNTS_COMMAND), decode_conference_member_counts),
      ((CHAT_SLOT, CHAT_CHANNEL_LIST_RESPONSE_COMMAND), decode_channel_list),
      ((CHAT_SLOT, CHAT_JOIN_NOTIFY_COMMAND), decode_chat_join),
      ((CHAT_SLOT, CHAT_INVITE_NOTIFY_COMMAND), decode_chat_invite),
      ((PRESENCE_SLOT, PRESENCE_FIELDS_COMMAND), decode_presence_fields),
      ((PRESENCE_SLOT, PRESENCE_UPDATE_COMMAND), decode_presence_update),
      ((S2_MASTER_SLOT, S2_MASTER_CURRENT_SEASON_COMMAND), decode_current_season),
      ((S2_MULTIPLAYER_SLOT, S2_MULTIPLAYER_CLUB_SETTINGS_COMMAND), decode_club_settings),
      ((S2_MULTIPLAYER_SLOT, S2_MULTIPLAYER_GET_TOON_CLUBS_COMMAND), decode_club_summaries E tid),
      ((S2_MULTIPLAYER_SLOT, S2_MULTIPLAYER_SEARCH_CLUBS_COMMAND), decode_club_search E tid),
      ((S2_MULTIPLAYER_SLOT, S2_MULTIPLAYER_INVITE_ACTION_COMMAND), decode_club_invite_action E tid),
      ((S2_MULTIPLAYER_SLOT, S2_MULTIPLAYER_GET_CLUB_INFO_COMMAND), decode_club_info E tid),
      ((S2_MULTIPLAYER_SLOT, S2_MULTIPLAYER_MEMBER_CLAN_TAGS_RESPONSE_COMMAND), decode_member_clan_tag E tid),
      ((CONNECTION_SLOT, CONNECTION_MESSAGE_FRAME_COMMAND), decode_message_frame E tid),
      ((CONNECTION_SLOT, CONNECTION_GAME_SITE_INFO_COMMAND), decode_game_site_info E tid),
      ((FRIENDS_SLOT, FRIENDS_LIST_COMMAND), decode_friends_list E),
      ((FRIENDS_SLOT, FRIENDS_TOONS_COMMAND), decode_friend_toons),
      ((FRIENDS_SLOT, FRIENDS_ACCOUNT_BLOCK_COMMAND), decode_account_blocks E),
      ((FRIENDS_SLOT, FRIENDS_TOON_BLOCK_COMMAND), decode_toon_blocks E),
      ((CHAT_SLOT, CHAT_MEMBERSHIP_COMMAND), decode_chat_membership E tid),
      ((CHAT_SLOT, CHAT_MESSAGE_COMMAND), decode_chat_message E tid),
      ((CHAT_SLOT, CHAT_WHISPER_RECV_COMMAND), decode_chat_whisper E tid False),
      ((CHAT_SLOT, CHAT_WHISPER_ECHO_COMMAND), decode_chat_whisper E tid True),
      ((PROFILE_SLOT, PROFILE_SETTINGS_AVAILABLE_COMMAND), decode_profile_settings E tid),
      ((PROFILE_SLOT, PROFILE_READ_COMMAND), decode_profile_read E (profile_data_response_type (proto E)) (token_type (proto E))),
      ((PROFILE_SLOT, PROFILE_ADDRESS_QUERY_COMMAND), decode_profile_address_query E tid),
      ((PROFILE_SLOT, PROFILE_RESOLVE_TOON_NAME_RESPONSE_COMMAND), decode_toon_name_resolved E tid),
      ((TOON_SLOT, TOON_LIST_COMMAND), decode_toon_list E tid),
      ((TOON_SLOT, TOON_SELECTED_COMMAND), decode_toon_selected E tid),
      ((TOON_SLOT, TOON_WELCOME_COMMAND), decode_toon_welcome E tid)]"

definition decode_reflected_payload :: "env \<Rightarrow> u32 \<Rightarrow> (reader, payload) op" where
  "decode_reflected_payload E tid = bindM (decode_from (code E) (stack E) (pcodec (proto E)) tid) (\<lambda>v. ret (payload.Reflected v))"

definition decode_payload :: "env \<Rightarrow> u8 \<times> u8 \<Rightarrow> u32 \<Rightarrow> (reader, payload) op" where
  "decode_payload E route tid =
     (if \<not> has_custom_incoming_decoder route then decode_reflected_payload E tid
      else case map_of (custom_decoders E tid) route of
        Some m \<Rightarrow> m
      | None \<Rightarrow> fail (Panic Unreachable))"

definition decode_incoming_from :: "env \<Rightarrow> routing_header \<Rightarrow> (reader, u32 \<times> payload) op" where
  "decode_incoming_from E h =
     bindM (liftR (ok_or (Native NoServiceSlot) (service_slot h))) (\<lambda>slot.
     bindM (liftR (incoming_type (proto E) slot (command_id h))) (\<lambda>tid.
     bindM here_bit (\<lambda>payload_start.
     bindM (map_errM (\<lambda>r. append_route_context slot (command_id h) tid payload_start (rposition r))
              (decode_payload E (slot, command_id h) tid)) (\<lambda>p.
     ret (tid, p)))))"

section \<open>Dispatch with provenance\<close>

definition traced_decoders :: "env \<Rightarrow> u32 \<Rightarrow> ((u8 \<times> u8) \<times> (reader, decoded_payload) op) list" where
  "traced_decoders E tid =
     [((CACHE_SLOT, CACHE_GET_STREAM_ITEMS_COMMAND), cache_stream_items_with_provenance),
      ((CHAT_SLOT, CHAT_INVITE_NOTIFY_COMMAND), chat_invite_with_provenance),
      ((CHAT_SLOT, CHAT_CONFERENCE_DESCRIPTIONS_COMMAND), conference_descriptions_with_provenance),
      ((CHAT_SLOT, CHAT_CONFERENCE_MEMBER_COUNTS_COMMAND), conference_member_counts_with_provenance),
      ((CHAT_SLOT, CHAT_CHANNEL_LIST_RESPONSE_COMMAND), channel_list_with_provenance),
      ((CHAT_SLOT, CHAT_JOIN_NOTIFY_COMMAND), chat_join_with_provenance),
      ((PRESENCE_SLOT, PRESENCE_FIELDS_COMMAND), presence_fields_with_provenance),
      ((PRESENCE_SLOT, PRESENCE_UPDATE_COMMAND), presence_update_with_provenance),
      ((S2_MASTER_SLOT, S2_MASTER_CURRENT_SEASON_COMMAND), current_season_with_provenance),
      ((S2_MULTIPLAYER_SLOT, S2_MULTIPLAYER_CLUB_SETTINGS_COMMAND), club_settings_with_provenance),
      ((S2_MULTIPLAYER_SLOT, S2_MULTIPLAYER_SEARCH_CLUBS_COMMAND), club_search_with_provenance E tid),
      ((S2_MULTIPLAYER_SLOT, S2_MULTIPLAYER_INVITE_ACTION_COMMAND), club_invite_action_with_provenance E tid),
      ((S2_MULTIPLAYER_SLOT, S2_MULTIPLAYER_GET_TOON_CLUBS_COMMAND), club_summaries_with_provenance E tid),
      ((S2_MULTIPLAYER_SLOT, S2_MULTIPLAYER_GET_CLUB_INFO_COMMAND), club_info_with_provenance E tid),
      ((S2_MULTIPLAYER_SLOT, S2_MULTIPLAYER_MEMBER_CLAN_TAGS_RESPONSE_COMMAND), member_clan_tag_with_provenance E tid),
      ((CONNECTION_SLOT, CONNECTION_GAME_SITE_INFO_COMMAND), game_site_info_with_provenance E tid),
      ((CONNECTION_SLOT, CONNECTION_MESSAGE_FRAME_COMMAND), message_frame_with_provenance E tid),
      ((FRIENDS_SLOT, FRIENDS_TOONS_COMMAND), friend_toons_with_provenance),
      ((FRIENDS_SLOT, FRIENDS_LIST_COMMAND), friends_list_with_provenance E),
      ((FRIENDS_SLOT, FRIENDS_ACCOUNT_BLOCK_COMMAND), account_blocks_with_provenance E),
      ((FRIENDS_SLOT, FRIENDS_TOON_BLOCK_COMMAND), toon_blocks_with_provenance E),
      ((PROFILE_SLOT, PROFILE_SETTINGS_AVAILABLE_COMMAND), profile_settings_with_provenance E tid),
      ((PROFILE_SLOT, PROFILE_READ_COMMAND),
        profile_read_with_provenance E (profile_data_response_type (proto E)) (token_type (proto E))),
      ((PROFILE_SLOT, PROFILE_ADDRESS_QUERY_COMMAND), profile_address_query_with_provenance E tid),
      ((PROFILE_SLOT, PROFILE_RESOLVE_TOON_NAME_RESPONSE_COMMAND), toon_name_resolved_with_provenance E tid),
      ((TOON_SLOT, TOON_LIST_COMMAND), toon_list_with_provenance E tid),
      ((TOON_SLOT, TOON_SELECTED_COMMAND), toon_selected_with_provenance E tid),
      ((TOON_SLOT, TOON_WELCOME_COMMAND), toon_welcome_with_provenance E tid),
      ((CHAT_SLOT, CHAT_MESSAGE_COMMAND), chat_message_with_provenance E tid),
      ((CHAT_SLOT, CHAT_MEMBERSHIP_COMMAND), chat_membership_with_provenance E tid),
      ((CHAT_SLOT, CHAT_WHISPER_RECV_COMMAND), chat_whisper_with_provenance E tid False),
      ((CHAT_SLOT, CHAT_WHISPER_ECHO_COMMAND), chat_whisper_with_provenance E tid True)]"

record decoded_incoming =
  di_type_id :: u32
  di_payload :: payload
  di_provenance :: "decoded_field list"

text \<open>The trace of a payload that no decoder traced: what the codec reads, where it ends at the same bit.\<close>

definition trace_payload :: "env \<Rightarrow> bytes \<Rightarrow> u32 \<Rightarrow> nat \<Rightarrow> nat \<Rightarrow> decoded_field list result" where
  "trace_payload E data tid start_bit end_bit =
     (case rbind (reader_new data (Some end_bit)) (\<lambda>r.
             case bindM (set_position start_bit) (\<lambda>_.
                    decode_traced_from (code E) (stack E) (pcodec (proto E)) tid) r of
               (Inl e, _) \<Rightarrow> Inl e
             | (Inr d, r') \<Rightarrow> Inr (if rposition r' = end_bit then tv_fields d else [])) of
        Inl e \<Rightarrow> if aborting e then Inl e else Inr []
      | Inr fs \<Rightarrow> Inr fs)"

definition decode_incoming_with_provenance_from :: "env \<Rightarrow> routing_header \<Rightarrow> (reader, decoded_incoming) op" where
  "decode_incoming_with_provenance_from E h =
     bindM (liftR (ok_or (Native NoServiceSlot) (service_slot h))) (\<lambda>slot.
     bindM (liftR (incoming_type (proto E) slot (command_id h))) (\<lambda>tid.
     bindM here_bit (\<lambda>payload_start.
     bindM (case map_of (traced_decoders E tid) (slot, command_id h) of
              Some m \<Rightarrow> bindM m (\<lambda>d. ret (dp_payload d, dp_provenance d))
            | None \<Rightarrow> bindM (decode_incoming_from E h) (\<lambda>(_, p). ret (p, []))) (\<lambda>(p, custom).
     bindM here_bit (\<lambda>payload_end.
     bindM (getsM rdata) (\<lambda>data.
     bindM (liftR (if custom = [] then trace_payload E data tid payload_start payload_end else Inr custom)) (\<lambda>provenance.
     ret \<lparr>di_type_id = tid, di_payload = p, di_provenance = provenance\<rparr>)))))))"

section \<open>Requests of a client\<close>

definition decode_client_request_from :: "env \<Rightarrow> routing_header \<Rightarrow> (reader, u32 \<times> payload) op" where
  "decode_client_request_from E h =
     bindM (liftR (ok_or (Native NoServiceSlot) (service_slot h))) (\<lambda>slot.
     if slot = CONNECTION_SLOT \<and> command_id h = CONNECTION_ENABLE_ENCRYPTION_COMMAND
     then ret (enable_encryption_type (proto E), payload.Reflected Void)
     else if slot = CONNECTION_SLOT \<and> command_id h = CONNECTION_MESSAGE_FRAME_COMMAND
     then bindM (decode_message_frame E (message_frame_type (proto E))) (\<lambda>p. ret (message_frame_type (proto E), p))
     else
       bindM (liftR (client_request_type (proto E) slot (command_id h))) (\<lambda>tid.
       bindM (decode_reflected_payload E tid) (\<lambda>p. ret (tid, p))))"

text \<open>What the record stream runs on.\<close>

definition protocol_decoders :: "env \<Rightarrow> decoders" where
  "protocol_decoders E = \<lparr>incoming_record = decode_incoming_from E, client_record = decode_client_request_from E\<rparr>"

definition decode_server_record :: "env \<Rightarrow> bytes \<Rightarrow> (u8 option \<times> u8 \<times> payload) result" where
  "decode_server_record E data =
     rbind (reader_new data None) (\<lambda>r. fst (
       bindM (read_bits 6) (\<lambda>raw.
       bindM (liftR (small 8 raw)) (\<lambda>command.
       bindM (read_bits 1) (\<lambda>explicit.
       bindM (if explicit \<noteq> 0 then bindM (read_bits 4) (\<lambda>raw. bindM (liftR (small 8 raw)) (\<lambda>s. ret (Some (ucast s))))
              else ret None) (\<lambda>slot.
       bindM here_bit (\<lambda>bits.
       bindM (decode_incoming_from E \<lparr>command_id = ucast command, service_slot = slot, header_bit_count = bits\<rparr>) (\<lambda>(_, p).
       ret (slot, ucast command, p))))))) r))"

section \<open>Message frames\<close>

record message_frame_transport =
  mft_frame_type :: int
  mft_payload_len :: nat
  mft_command :: "u8 option"
  mft_correlation_id :: "u32 option"
  mft_reply :: "bool option"
  mft_sequence :: "u32 option"

definition int_field :: "bsn_field list \<Rightarrow> string \<Rightarrow> int option" where
  "int_field fs name = Option.bind (struct_get fs (ascii name)) as_integer"

definition word_of_int_opt :: "nat \<Rightarrow> int \<Rightarrow> 'a::len word option" where
  "word_of_int_opt width i = (if 0 \<le> i \<and> i < 2 ^ width then Some (of_int i) else None)"

definition transport_command :: "bsn_field list \<Rightarrow> message_frame_transport \<Rightarrow> message_frame_transport" where
  "transport_command fs info =
     (case int_field fs ''m_command'' of None \<Rightarrow> info | Some i \<Rightarrow> info\<lparr>mft_command := word_of_int_opt 8 i\<rparr>)"

definition transport_id :: "bsn_field list \<Rightarrow> message_frame_transport \<Rightarrow> message_frame_transport" where
  "transport_id fs info =
     (case int_field fs ''m_id'' of None \<Rightarrow> info | Some i \<Rightarrow> info\<lparr>mft_correlation_id := word_of_int_opt 32 i\<rparr>)"

definition transport_reply :: "bsn_field list \<Rightarrow> message_frame_transport \<Rightarrow> message_frame_transport" where
  "transport_reply fs info =
     (case struct_get fs (ascii ''m_reply'') of Some (Bool b) \<Rightarrow> info\<lparr>mft_reply := Some b\<rparr> | _ \<Rightarrow> info)"

definition transport_sequence :: "bsn_field list \<Rightarrow> message_frame_transport \<Rightarrow> message_frame_transport" where
  "transport_sequence fs info =
     (case int_field fs ''m_sequenceId'' of None \<Rightarrow> info | Some i \<Rightarrow> info\<lparr>mft_sequence := word_of_int_opt 32 i\<rparr>)"

definition transport_header :: "u32 \<times> bsn_field list \<Rightarrow> message_frame_transport \<Rightarrow> message_frame_transport" where
  "transport_header h info =
     (case struct_get (snd h) (ascii ''m_data'') of
        Some (Choice _ v) \<Rightarrow>
          (case struct_fields v of
             None \<Rightarrow> info
           | Some inner \<Rightarrow>
               transport_sequence inner (transport_reply inner (transport_id inner (transport_command inner info))))
      | _ \<Rightarrow> info)"

definition transport_fields :: "connection_message_frame \<Rightarrow> message_frame_transport" where
  "transport_fields frame =
     fold transport_header (cm_headers frame)
       \<lparr>mft_frame_type = cm_frame_type frame, mft_payload_len = length (cm_payload frame), mft_command = None,
        mft_correlation_id = None, mft_reply = None, mft_sequence = None\<rparr>"

definition message_frame_transport_of :: "env \<Rightarrow> bytes \<Rightarrow> message_frame_transport result" where
  "message_frame_transport_of E data =
     rbind (reader_new data None) (\<lambda>r. fst (
       bindM (read_bits 6) (\<lambda>_.
       bindM (read_bits 1) (\<lambda>explicit.
       bindM (if explicit \<noteq> 0 then bindM (read_bits 4) (\<lambda>_. ret ()) else ret ()) (\<lambda>_.
       bindM (decode_message_frame E (message_frame_type (proto E))) (\<lambda>p.
       case p of
         MessageFrame frame \<Rightarrow> ret (transport_fields frame)
       | _ \<Rightarrow> fail (native_text ''record is not a message frame''))))) r))"

text \<open>The headers of a frame: a choice in the field \<open>m_data\<close>.\<close>

definition wrap_header :: "env \<Rightarrow> u32 \<Rightarrow> int \<Rightarrow> bsn_value \<Rightarrow> bsn_value result" where
  "wrap_header E header_type index v = struct_value (proto E) header_type [(''m_data'', Choice index v)]"

definition correlation_value :: "env \<Rightarrow> u32 \<Rightarrow> u32 \<Rightarrow> bool \<Rightarrow> bsn_value result" where
  "correlation_value E tid correlation reply =
     struct_value (proto E) tid [(''m_id'', int_of_word correlation), (''m_reply'', Bool reply)]"

definition content_value :: "env \<Rightarrow> u32 \<Rightarrow> bytes \<Rightarrow> bsn_value result" where
  "content_value E tid data =
     struct_value (proto E) tid [(''m_size'', Integer (int (length data))), (''m_encoding'', Integer 1)]"

definition stream_value :: "env \<Rightarrow> u32 \<Rightarrow> u32 \<Rightarrow> bsn_value result" where
  "stream_value E tid sequence =
     struct_value (proto E) tid [(''m_sequenceId'', int_of_word sequence), (''m_more'', Bool False)]"

text \<open>Both frames end with the payload, the frame type and the headers, in that order.\<close>

definition frame_record :: "env \<Rightarrow> u32 \<Rightarrow> bytes \<Rightarrow> int \<Rightarrow> bsn_value list \<Rightarrow> bytes result" where
  "frame_record E header_list_type data frame_type headers =
     (let tid = message_frame_type (proto E) in
      rbind (member_type (proto E) tid ''m_payload'') (\<lambda>payload_type.
      rbind (member_type (proto E) tid ''m_frameType'') (\<lambda>frame_type_type.
      record_bytes CONNECTION_MESSAGE_FRAME_COMMAND CONNECTION_SLOT (seqM
        [write_reflected E payload_type (Bytes data), write_reflected E frame_type_type (Integer frame_type),
         write_reflected E header_list_type (Array headers)]))))"

definition transport_control_frame :: "env \<Rightarrow> u8 \<Rightarrow> u32 \<Rightarrow> bool \<Rightarrow> u32 \<Rightarrow> bytes \<Rightarrow> bytes result" where
  "transport_control_frame E command correlation_id reply sequence data =
     rbind (member_type (proto E) (message_frame_type (proto E)) ''m_headers'') (\<lambda>header_list_type.
     rbind (array_element (proto E) header_list_type) (\<lambda>header_type.
     rbind (member_type (proto E) header_type ''m_data'') (\<lambda>data_type.
     rbind (choice_variant (proto E) data_type ''route'') (\<lambda>(route_index, route_type).
     rbind (choice_variant (proto E) data_type ''correlation'') (\<lambda>(correlation_index, correlation_type).
     rbind (choice_variant (proto E) data_type ''content'') (\<lambda>(content_index, content_type).
     rbind (choice_variant (proto E) data_type ''stream'') (\<lambda>(stream_index, stream_type).
     rbind (struct_value (proto E) route_type
              [(''m_name'', four_cc ''TrnC''), (''m_hash'', Integer 0), (''m_command'', int_of_word command),
               (''m_node'', Optional None)]) (\<lambda>route.
     rbind (correlation_value E correlation_type correlation_id reply) (\<lambda>correlation.
     rbind (content_value E content_type data) (\<lambda>content.
     rbind (stream_value E stream_type sequence) (\<lambda>strm.
     rbind (rmap (\<lambda>(index, v). wrap_header E header_type index v)
              [(route_index, route), (correlation_index, correlation), (content_index, content), (stream_index, strm)]) (\<lambda>headers.
     frame_record E header_list_type data 129 headers))))))))))))"

definition transport_control_maintenance :: "env \<Rightarrow> u32 \<Rightarrow> (bytes \<times> bytes) result" where
  "transport_control_maintenance E correlation_id =
     rbind (transport_control_frame E 3 correlation_id False 1 (replicate 4 0)) (\<lambda>a.
     rbind (transport_control_frame E 2 (correlation_id - 1) False 1
              [0x03, 0x00, 0x80, 0x05, 0x7e, 0x40, 0x02, 0x02, 0x0a, 0x03, 0x01]) (\<lambda>b. Inr (a, b)))"

definition template_header :: "connection_message_frame \<Rightarrow> int \<Rightarrow> string \<Rightarrow> bsn_value result" where
  "template_header template wanted name =
     ok_or (native_text (''transport context omits '' @ name @ '' header''))
       (map_option (\<lambda>(tid, fs). Struct tid fs)
         (find (\<lambda>(tid, fs). case struct_get fs (ascii ''m_data'') of
             Some (Choice index _) \<Rightarrow> index = wanted | _ \<Rightarrow> False) (cm_headers template)))"

definition game_account_target :: "env \<Rightarrow> u32 \<Rightarrow> u8 \<Rightarrow> u32 \<Rightarrow> bsn_value result" where
  "game_account_target E target_type region account =
     rbind (member_type (proto E) target_type ''m_ids'') (\<lambda>ids_type.
     rbind (choice_variant (proto E) ids_type ''GameAccount'') (\<lambda>(index, accounts_type).
     rbind (array_element (proto E) accounts_type) (\<lambda>account_type.
     rbind (struct_value (proto E) account_type
              [(''m_region'', int_of_word region), (''m_programId'', four_cc ''S2''), (''m_id'', int_of_word account)]) (\<lambda>game_account.
     struct_value (proto E) target_type
       [(''m_type'', Integer 5), (''m_ids'', Choice index (Array [game_account]))]))))"

definition transport_routed_reply ::
    "env \<Rightarrow> connection_message_frame \<Rightarrow> u8 \<Rightarrow> u32 \<Rightarrow> u32 \<Rightarrow> u32 \<Rightarrow> u32 \<Rightarrow> bytes \<Rightarrow> bytes result" where
  "transport_routed_reply E template region account correlation_id sequence timestamp data =
     rbind (member_type (proto E) (message_frame_type (proto E)) ''m_headers'') (\<lambda>header_list_type.
     rbind (array_element (proto E) header_list_type) (\<lambda>header_type.
     rbind (member_type (proto E) header_type ''m_data'') (\<lambda>data_type.
     rbind (choice_variant (proto E) data_type ''route'') (\<lambda>(route_index, _).
     rbind (choice_variant (proto E) data_type ''service'') (\<lambda>(service_index, _).
     rbind (choice_variant (proto E) data_type ''target'') (\<lambda>(target_index, target_type).
     rbind (choice_variant (proto E) data_type ''correlation'') (\<lambda>(correlation_index, correlation_type).
     rbind (choice_variant (proto E) data_type ''content'') (\<lambda>(content_index, content_type).
     rbind (choice_variant (proto E) data_type ''timestamp'') (\<lambda>(timestamp_index, _).
     rbind (choice_variant (proto E) data_type ''stream'') (\<lambda>(stream_index, stream_type).
     rbind (correlation_value E correlation_type correlation_id True) (\<lambda>correlation.
     rbind (content_value E content_type data) (\<lambda>content.
     rbind (stream_value E stream_type sequence) (\<lambda>strm.
     rbind (game_account_target E target_type region account) (\<lambda>target.
     rbind (template_header template route_index ''route'') (\<lambda>route.
     rbind (template_header template service_index ''service'') (\<lambda>service.
     rbind (rmap (\<lambda>(index, v). wrap_header E header_type index v)
              [(correlation_index, correlation), (content_index, content), (timestamp_index, int_of_word timestamp),
               (target_index, target), (stream_index, strm)]) (\<lambda>headers.
     frame_record E header_list_type data 66 (route # service # headers))))))))))))))))))"

section \<open>The logon parameters of the front\<close>

record logon_parameters =
  lp_ping_timeout :: int
  lp_game_account_region :: u8
  lp_logon_failures :: int
  lp_raf_present :: bool
  lp_encoded_bit_count :: nat

definition required_field :: "bsn_field list \<Rightarrow> string \<Rightarrow> bsn_value result" where
  "required_field fs name = ok_or (native_text (''native struct is missing '' @ name)) (struct_get fs (ascii name))"

definition value_struct :: "bsn_value \<Rightarrow> string \<Rightarrow> bsn_field list result" where
  "value_struct v label = ok_or (native_label label '' is not a struct'') (struct_fields (transparent v))"

definition value_choice :: "bsn_value \<Rightarrow> string \<Rightarrow> (int \<times> bsn_value) result" where
  "value_choice v label = ok_or (native_label label '' is not a choice'') (as_choice (transparent v))"

definition value_integer :: "bsn_value \<Rightarrow> string \<Rightarrow> int result" where
  "value_integer v label = ok_or (native_label label '' is not an integer'') (as_integer (transparent v))"

definition value_bytes :: "bsn_value \<Rightarrow> string \<Rightarrow> bytes result" where
  "value_bytes v label = (case transparent v of Bytes bs \<Rightarrow> Inr bs | _ \<Rightarrow> Inl (native_label label '' is not bytes''))"

definition check_padding :: "bytes \<Rightarrow> nat \<Rightarrow> unit result" where
  "check_padding data bit_count =
     rbind (reader_new data None) (\<lambda>r. fst (
       bindM (set_position bit_count) (\<lambda>_.
       bindM (getsM remaining) (\<lambda>left.
       if left = 0 then ret ()
       else bindM (read_bits left) (\<lambda>v.
         if v \<noteq> 0 then fail (native_text ''Front logon response has non-zero trailing padding'') else ret ()))) r))"

definition decode_logon_parameters :: "env \<Rightarrow> native_handoff \<Rightarrow> logon_parameters result" where
  "decode_logon_parameters E bootstrap =
     rbind (decode_value (code E) (stack E) (pcodec (proto E)) (front_logon_response_type (proto E))
              (nh_logon_response bootstrap) None 0) (\<lambda>encoded.
     rbind (check_padding (nh_logon_response bootstrap) (dv_bit_count encoded)) (\<lambda>_.
     rbind (value_struct (dv_value encoded) ''Front LogonResponse3'') (\<lambda>wrapper.
     rbind (required_field wrapper ''LogonResponse'') (\<lambda>response.
     rbind (value_struct response ''Front LogonResponse wrapper'') (\<lambda>response.
     rbind (required_field response ''m_result'') (\<lambda>res.
     rbind (value_choice res ''Front logon result'') (\<lambda>(result_index, res).
     if result_index \<noteq> 0 then Inl (native_text ''Front native logon was rejected'')
     else
     rbind (value_struct res ''Front logon success'') (\<lambda>success.
     rbind (required_field success ''ResponseSuccessCommon'') (\<lambda>common.
     rbind (value_struct common ''Front logon common state'') (\<lambda>common.
     rbind (required_field success ''m_accountRegion'') (\<lambda>v.
     rbind (value_integer v ''Front account region'') (\<lambda>account_region.
     if account_region \<noteq> uint (nh_account_region bootstrap) then Inl (native_text ''Front logon account region is inconsistent'')
     else
     rbind (required_field success ''m_gameAccountRegion'') (\<lambda>v.
     rbind (value_integer v ''Front game-account region'') (\<lambda>i.
     rbind (narrow_int 8 (native_text ''Front game-account region is outside byte range'') i) (\<lambda>game_account_region.
     rbind (required_field success ''m_gameAccountName'') (\<lambda>v.
     rbind (value_bytes v ''Front game-account name'') (\<lambda>game_account_name.
     if game_account_name \<noteq> nh_game_account_name bootstrap then Inl (native_text ''Front logon game-account name is inconsistent'')
     else
     rbind (required_field common ''m_pingTimeout'') (\<lambda>v.
     rbind (value_integer v ''Front ping timeout'') (\<lambda>ping_timeout.
     rbind (required_field success ''m_logonFailures'') (\<lambda>v.
     rbind (value_integer v ''Front logon failure count'') (\<lambda>logon_failures.
     rbind (required_field wrapper ''m_raf'') (\<lambda>raf.
     Inr \<lparr>lp_ping_timeout = ping_timeout, lp_game_account_region = game_account_region, lp_logon_failures = logon_failures,
          lp_raf_present = (raf \<noteq> Optional None), lp_encoded_bit_count = dv_bit_count encoded\<rparr>))))))))))))))))))))))"

end
