(* ===== verification/Native_Client.thy ===== *)
theory Native_Client
  imports Bgs_Model Native_Protocol Native_Auth
begin

text \<open>
  The logon of the native client (\<open>core/src/games/sc2/native/client.rs\<close>, with the peer's context of
  \<open>crypto.rs\<close>): it connects, resumes the session of the handoff, lets the server prove itself, and turns the
  protection of the stream on.  Names, sockets and the random nonce are outside: the record \<open>network\<close> and an
  argument.
\<close>

section \<open>Parts\<close>

definition CONNECTION_BOOM_COMMAND :: u8 where "CONNECTION_BOOM_COMMAND = 1"
definition CONNECTION_REGULATOR_COMMAND :: u8 where "CONNECTION_REGULATOR_COMMAND = 11"

definition route :: "native_record \<Rightarrow> u8 option \<times> u8" where
  "route g = (service_slot (rec_header g), command_id (rec_header g))"

definition expect_route :: "native_record \<Rightarrow> u8 \<Rightarrow> u8 \<Rightarrow> unit result" where
  "expect_route g slot command =
     (if route g = (Some slot, command) then Inr ()
      else native_error (UnexpectedRoute (service_slot (rec_header g)) (command_id (rec_header g))))"

definition record_struct :: "native_record \<Rightarrow> string \<Rightarrow> bsn_field list result" where
  "record_struct g label =
     (case reflected (rec_value g) of
        Some (Struct tid fs) \<Rightarrow> Inr fs
      | _ \<Rightarrow> Inl (native_text (label @ '' is not a struct'')))"

definition required_bool :: "bsn_field list \<Rightarrow> string \<Rightarrow> bool result" where
  "required_bool fs name =
     (case struct_get fs (ascii name) of
        Some (Bool b) \<Rightarrow> Inr b
      | _ \<Rightarrow> Inl (native_text (''native struct field '' @ name @ '' is not a bool'')))"

definition raise_if_boom :: "native_record \<Rightarrow> unit result" where
  "raise_if_boom g =
     (if route g \<noteq> (Some CONNECTION_SLOT, CONNECTION_BOOM_COMMAND) then Inr ()
      else rbind (record_struct g ''Connection/Boom'') (\<lambda>fs. rbind (native_server_error fs) Inl))"

text \<open>The context both sides sign: the octets of the peer's address, without the zone of an IPv6 literal.\<close>

definition thumbprint_context_for_peer :: "bytes \<Rightarrow> bytes result" where
  "thumbprint_context_for_peer address =
     (let host = (case split_at_byte 0x25 address of Some (host, _) \<Rightarrow> host | None \<Rightarrow> address) in
      rbind (ok_or (native_text ''native peer address is not an IPv4 or IPv6 literal'') (parse_ip host)) (\<lambda>a.
      Inr (ipv6_octets a)))"

section \<open>Connecting\<close>

text \<open>Name resolution, a connection attempt, the three options of the socket, and the text of the peer's address.\<close>

record 'a network =
  resolve :: "bytes \<Rightarrow> u16 \<Rightarrow> 'a list result"
  connect_to :: "'a \<Rightarrow> wire_stream result"
  set_options :: "'a \<Rightarrow> unit result"
  peer_text :: "'a \<Rightarrow> bytes result"

fun try_addresses :: "'a network \<Rightarrow> 'a list \<Rightarrow> error option \<Rightarrow> ('a \<times> wire_stream) result" where
  "try_addresses net [] last_error = Inl (case last_error of Some e \<Rightarrow> e | None \<Rightarrow> Panic ExpectFailed)"
| "try_addresses net (a # as) last_error =
     (case connect_to net a of
        Inr st \<Rightarrow> Inr (a, st)
      | Inl e \<Rightarrow> try_addresses net as (Some e))"

definition connect :: "'a network \<Rightarrow> bytes \<Rightarrow> u16 \<Rightarrow> ('a \<times> wire_stream) result" where
  "connect net host port =
     rbind (resolve net host port) (\<lambda>addresses.
     if addresses = [] then Inl (Transport (NoAddresses host (unat port)))
     else try_addresses net addresses None)"

section \<open>The handshake\<close>

text \<open>What the handshake yields: whether the depot of the third generation is used, and the proof of the session.\<close>

text \<open>A record of the server that is not a \<open>Boom\<close>.\<close>

definition receive_calm :: "'k suite \<Rightarrow> ('k record_stream, native_record) op" where
  "receive_calm S =
     bindM (receive_record S) (\<lambda>g.
     bindM (liftR (raise_if_boom g)) (\<lambda>_. ret g))"

text \<open>The resume response, after at most one update of the regulator.\<close>

definition receive_resume :: "'k suite \<Rightarrow> ('k record_stream, native_record) op" where
  "receive_resume S =
     bindM (receive_calm S) (\<lambda>g.
     if route g = (Some CONNECTION_SLOT, CONNECTION_REGULATOR_COMMAND) then receive_calm S else ret g)"

text \<open>The configuration and the answer to the proof request, up to the point where the answer is sent.\<close>

definition answer_server :: "'k suite \<Rightarrow> bytes option \<Rightarrow> bytes \<Rightarrow> bytes \<Rightarrow> ('k record_stream, bool \<times> proof_answer) op" where
  "answer_server S random session_key peer_address =
     bindM (receive_calm S) (\<lambda>g.
     bindM (liftR (expect_route g AUTHENTICATION_SLOT AUTH_CONFIGURATION_COMMAND)) (\<lambda>_.
     bindM (liftR (record_struct g ''configuration response'')) (\<lambda>configuration.
     bindM (liftR (required_bool configuration ''m_useS3Depot'')) (\<lambda>use_s3_depot.
     bindM (receive_calm S) (\<lambda>g.
     bindM (liftR (expect_route g AUTHENTICATION_SLOT AUTH_PROOF_COMMAND)) (\<lambda>_.
     bindM (liftR (record_struct g ''proof request'')) (\<lambda>request.
     bindM (liftR (thumbprint_context_for_peer peer_address)) (\<lambda>context.
     bindM (liftR (answer_proof_request S random request session_key context)) (\<lambda>answer.
     ret (use_s3_depot, answer))))))))))"

text \<open>The rest: the answer goes out, the server's own proof comes in, and protection starts.\<close>

definition finish_logon :: "'k suite \<Rightarrow> env \<Rightarrow> proof_answer \<Rightarrow> ('k record_stream, unit) op" where
  "finish_logon S E answer =
     bindM (liftR (proof_response E (outputs answer))) (\<lambda>bs.
     bindM (send_record S bs) (\<lambda>_.
     bindM (receive_resume S) (\<lambda>g.
     bindM (liftR (expect_route g AUTHENTICATION_SLOT AUTH_RESUME_COMMAND)) (\<lambda>_.
     bindM (liftR (record_struct g ''resume response'')) (\<lambda>resume.
     bindM (liftR (validate_resume_server_proof resume (session answer))) (\<lambda>_.
     bindM (liftR (enable_encryption E)) (\<lambda>bs.
     bindM (send_record S bs) (\<lambda>_.
     enable_protection S (transport_key (session answer))))))))))"

definition handshake ::
    "'k suite \<Rightarrow> env \<Rightarrow> bytes option \<Rightarrow> native_handoff \<Rightarrow> u8 \<Rightarrow> bytes \<Rightarrow> ('k record_stream, bool \<times> session_proof) op" where
  "handshake S E random bootstrap region peer_address =
     bindM (liftR (resume_request E bootstrap (Some region))) (\<lambda>bs.
     bindM (send_record S bs) (\<lambda>_.
     bindM (answer_server S random (nh_session_key bootstrap) peer_address) (\<lambda>(use_s3_depot, answer).
     bindM (finish_logon S E answer) (\<lambda>_.
     ret (use_s3_depot, session answer)))))"

record 'k native_session =
  ns_records :: "'k record_stream"
  ns_transport_key :: bytes
  ns_use_s3_depot :: bool

definition from_protected :: "'k record_stream \<Rightarrow> bytes \<Rightarrow> 'k native_session" where
  "from_protected s key = \<lparr>ns_records = s, ns_transport_key = key, ns_use_s3_depot = False\<rparr>"

text \<open>\<open>authenticate_with_handoff\<close>; the callback runs once the stream is open.  \<open>authenticate\<close> passes one that succeeds.\<close>

definition authenticate_with_handoff ::
    "'k suite \<Rightarrow> env \<Rightarrow> 'a network \<Rightarrow> bytes option \<Rightarrow> native_handoff \<Rightarrow> unit result \<Rightarrow> 'k native_session result" where
  "authenticate_with_handoff S E net random bootstrap before_resume =
     (if length (nh_session_key bootstrap) \<noteq> 64 then native_error SeedNot64
      else
        rbind (decode_logon_parameters E bootstrap) (\<lambda>logon.
        rbind (endpoint bootstrap 1119) (\<lambda>(host, port).
        rbind (connect net host port) (\<lambda>(a, st).
        rbind (set_options net a) (\<lambda>_.
        rbind (peer_text net a) (\<lambda>peer_address.
        rbind before_resume (\<lambda>_.
        case handshake S E random bootstrap (lp_game_account_region logon) peer_address (stream_new st (protocol_decoders E)) of
          (Inl e, _) \<Rightarrow> Inl e
        | (Inr (use_s3_depot, p), records) \<Rightarrow>
            Inr \<lparr>ns_records = records, ns_transport_key = transport_key p, ns_use_s3_depot = use_s3_depot\<rparr>)))))))"

definition authenticate :: "'k suite \<Rightarrow> env \<Rightarrow> 'a network \<Rightarrow> bytes option \<Rightarrow> native_handoff \<Rightarrow> 'k native_session result" where
  "authenticate S E net random bootstrap = authenticate_with_handoff S E net random bootstrap (Inr ())"

end
