(* ===== verification/Decode_Laws.thy ===== *)
theory Decode_Laws
  imports Decode_Join Decode_Presence
begin

text \<open>
  What a decoder of native records promises: it takes an image off the unread bits and yields a value with a
  property, and asks for more data when the image is cut short.  The property leaves open where in the stream
  the image started, which the provenance of a value depends on.
\<close>

section \<open>Decoders and images\<close>

definition yields :: "(reader, 'a) op \<Rightarrow> ('a \<Rightarrow> bool) \<Rightarrow> image \<Rightarrow> bool" where
  "yields m P img \<longleftrightarrow> (\<forall>r. wf_reader r \<longrightarrow>
     (\<forall>rest. rbits r = img (rposition r) @ rest \<longrightarrow>
        (\<exists>x. P x \<and> m r = (Inr x, advance (length (img (rposition r))) r))) \<and>
     (\<forall>missing. img (rposition r) = rbits r @ missing \<and> missing \<noteq> [] \<longrightarrow>
        (\<exists>i r'. m r = (Inl (IncompleteFrame i), r'))))"

named_theorems yields_intros \<open>rules that build a decoder promise along the code\<close>

lemma parses_yields: "parses m x i \<Longrightarrow> yields m (\<lambda>y. y = x) i"
  by (auto simp: parses_def yields_def)

lemma yields_parses: "yields m (\<lambda>y. y = x) i \<Longrightarrow> parses m x i"
  by (auto simp: parses_def yields_def)

lemma yields_weaken: "yields m P i \<Longrightarrow> (\<And>x. P x \<Longrightarrow> Q x) \<Longrightarrow> yields m Q i"
  unfolding yields_def by metis

lemma yields_ret [yields_intros]: "P x \<Longrightarrow> yields (ret x) P nothing"
  by (auto simp: yields_def nothing_def)

lemma yields_gets [yields_intros]: "(\<And>p. yields (f p) P i) \<Longrightarrow> yields (bindM (getsM g) f) P i"
  by (auto simp: yields_def)

lemma yields_lift [yields_intros]: "v = Inr x \<Longrightarrow> yields (f x) P i \<Longrightarrow> yields (bindM (liftR v) f) P i"
  by (auto simp: yields_def)

lemma yields_unless [yields_intros]: "\<not> c \<Longrightarrow> yields m P i \<Longrightarrow> yields (if c then fail e else m) P i"
  by simp

lemma yields_bind:
  assumes m: "yields m P i" and f: "\<And>x. P x \<Longrightarrow> yields (f x) Q j"
  shows "yields (bindM m f) Q (then_bits i j)"
  unfolding yields_def
proof (intro allI impI conjI)
  fix r rest assume r: "wf_reader r" and bits: "rbits r = then_bits i j (rposition r) @ rest"
  let ?n = "length (i (rposition r))"
  have bits': "rbits r = i (rposition r) @ j (rposition r + ?n) @ rest"
    using bits by (simp add: then_bits_def)
  obtain x where x: "P x" "m r = (Inr x, advance ?n r)"
    using m r bits' unfolding yields_def by blast
  have "rbits (advance ?n r) = j (rposition (advance ?n r)) @ rest"
    using wf_reader_rest(2)[OF r bits'] by simp
  then obtain y where "Q y" "f x (advance ?n r) = (Inr y, advance (length (j (rposition (advance ?n r)))) (advance ?n r))"
    using f[OF x(1)] wf_reader_rest(1)[OF r bits'] unfolding yields_def by blast
  then show "\<exists>y. Q y \<and> bindM m f r = (Inr y, advance (length (then_bits i j (rposition r))) r)"
    using x(2) by (auto simp: then_bits_def add.assoc)
next
  fix r missing assume r: "wf_reader r" and cut: "then_bits i j (rposition r) = rbits r @ missing \<and> missing \<noteq> []"
  let ?n = "length (i (rposition r))"
  have split: "i (rposition r) @ j (rposition r + ?n) = rbits r @ missing" and some: "missing \<noteq> []"
    using cut by (simp_all add: then_bits_def)
  show "\<exists>e r'. bindM m f r = (Inl (IncompleteFrame e), r')"
  proof (cases "\<exists>rest. rbits r = i (rposition r) @ rest")
    case True
    then obtain rest where rest: "rbits r = i (rposition r) @ rest" ..
    obtain x where x: "P x" "m r = (Inr x, advance ?n r)"
      using m r rest unfolding yields_def by blast
    have "j (rposition (advance ?n r)) = rbits (advance ?n r) @ missing"
      using split wf_reader_rest(2)[OF r rest] rest by simp
    then obtain e r' where "f x (advance ?n r) = (Inl (IncompleteFrame e), r')"
      using f[OF x(1)] wf_reader_rest(1)[OF r rest] some unfolding yields_def by blast
    then show ?thesis
      using x(2) by simp
  next
    case False
    then obtain us where "i (rposition r) = rbits r @ us" "us \<noteq> []"
      using split by (metis append_Nil2 append_eq_append_conv2)
    then obtain e r' where "m r = (Inl (IncompleteFrame e), r')"
      using m r unfolding yields_def by blast
    then show ?thesis by simp
  qed
qed

text \<open>A value that is determined needs no property: it is substituted in what follows.\<close>

lemma yields_bind_value [yields_intros]:
  "parses m x i \<Longrightarrow> yields (f x) Q j \<Longrightarrow> yields (bindM m f) Q (then_bits i j)"
  by (rule yields_bind[OF parses_yields]) auto

lemma parses_payload_of: "yields m (\<lambda>d. dp_payload d = p) i \<Longrightarrow> parses (payload_of m) p i"
  using yields_bind[of m "\<lambda>d. dp_payload d = p" i "\<lambda>d. ret (dp_payload d)" "\<lambda>y. y = p" nothing]
  by (intro yields_parses) (auto intro: yields_ret)

section \<open>Fields\<close>

lemma fits_of_bool [simp]: "fits 1 (of_bool b)" "fits (Suc 0) (of_bool b)"
  by (cases b; simp)+

lemma fits_ucast_word: "LENGTH('a) \<le> n \<Longrightarrow> n \<le> 64 \<Longrightarrow> fits n (ucast (w :: 'a::len word))"
proof -
  assume n: "LENGTH('a) \<le> n" "n \<le> 64"
  have "unat (ucast w :: u64) = unat w"
    using n by (intro unat_ucast_up) simp
  moreover have "unat w < 2 ^ n"
    using n by (meson less_le_trans one_le_numeral power_increasing unsigned_less)
  ultimately show ?thesis
    using n by (simp add: fits_unat)
qed

lemma ucast_roundtrip: "LENGTH('a) \<le> 64 \<Longrightarrow> ucast (ucast (w :: 'a::len word) :: u64) = w"
  by (rule ucast_up_ucast_id) (simp add: is_up)

lemma unat_ucast_64: "LENGTH('a) \<le> 64 \<Longrightarrow> unat (ucast (w :: 'a::len word) :: u64) = unat w"
  by (rule unat_ucast_up) simp


lemma yields_spanned_u64 [yields_intros]:
  assumes "fits n v"
  shows "yields (read_spanned_u64 n) (\<lambda>s. sv_value s = v) (field n v)"
proof -
  have "yields (bindM (read_bits n) (\<lambda>v. bindM here_bit (\<lambda>stop. ret \<lparr>sv_value = v, sv_start = st, sv_end = stop\<rparr>)))
      (\<lambda>s. sv_value s = v) (then_bits (field n v) nothing)" for st
    by (intro yields_bind_value[OF parses_read_bits[OF assms]] yields_gets yields_ret) simp
  then show ?thesis
    unfolding read_spanned_u64_def by (intro yields_gets) simp
qed

lemma yields_map:
  assumes "yields m P i" and "\<And>x. P x \<Longrightarrow> f x = ret (g x)" and "\<And>x. P x \<Longrightarrow> Q (g x)"
  shows "yields (bindM m f) Q i"
proof -
  have "yields (bindM m f) Q (then_bits i nothing)"
    by (rule yields_bind[OF assms(1)]) (simp only: assms(2), intro yields_ret assms(3))
  then show ?thesis by simp
qed

lemma yields_spanned_usize [yields_intros]:
  "fits n v \<Longrightarrow> yields (read_spanned_usize n) (\<lambda>s. sv_value s = unat v) (field n v)"
  unfolding read_spanned_usize_def by (rule yields_map[OF yields_spanned_u64]) (auto simp: respan_def)

lemma word32_less: "unat (w :: 32 word) < 4294967296" and word16_less: "unat (x :: 16 word) < 65536" and word8_less: "unat (y :: 8 word) < 256"
  using unsigned_less[of w] unsigned_less[of x] unsigned_less[of y] by simp_all

lemma yields_spanned_u32 [yields_intros]:
  "fits n (ucast w) \<Longrightarrow> yields (read_spanned_u32 n) (\<lambda>s. sv_value s = w) (field n (ucast w))"
  unfolding read_spanned_u32_def
  by (rule yields_map[OF yields_spanned_u64, where g = "\<lambda>v. respan (ucast (sv_value v)) v"])
    (simp_all add: respan_def unat_ucast_64 ucast_roundtrip word32_less)

lemma yields_spanned_u8 [yields_intros]:
  "fits n (ucast w) \<Longrightarrow> yields (read_spanned_u8 n) (\<lambda>s. sv_value s = w) (field n (ucast w))"
  unfolding read_spanned_u8_def
  by (rule yields_map[OF yields_spanned_u64, where g = "\<lambda>v. respan (ucast (sv_value v)) v"])
    (simp_all add: respan_def unat_ucast_64 ucast_roundtrip word8_less)

lemma yields_spanned_i32 [yields_intros]:
  "yields read_spanned_i32 (\<lambda>s. sv_value s = w XOR 0x80000000) (field 32 (ucast w))"
  unfolding read_spanned_i32_def
  by (rule yields_map[OF yields_spanned_u32]) (auto simp: respan_def fits_ucast_word)

lemma yields_read_bits [yields_intros]: "fits n v \<Longrightarrow> yields (read_bits n) (\<lambda>x. x = v) (field n v)"
  by (intro parses_yields parses_read_bits)

lemma expect_u16_ucast [simp]: "expect_u16 (ucast (w :: u16)) = Inr w"
  by (simp add: expect_u16_def unat_ucast_64 ucast_roundtrip word16_less)

section \<open>Arrays\<close>

lemma yields_forM:
  assumes "\<And>k. k < length xs \<Longrightarrow> yields (item (n + k)) (P (xs ! k)) (img (xs ! k))"
  shows "yields (forM [n..<n + length xs] item) (list_all2 P xs) (images (map img xs))"
  using assms
proof (induction xs arbitrary: n)
  case (Cons x xs)
  have tail: "yields (forM [Suc n..<Suc n + length xs] item) (list_all2 P xs) (images (map img xs))"
  proof (rule Cons.IH)
    fix k assume "k < length xs"
    then show "yields (item (Suc n + k)) (P (xs ! k)) (img (xs ! k))"
      using Cons.prems[of "Suc k"] by simp
  qed
  have split: "[n..<n + length (x # xs)] = n # [Suc n..<Suc n + length xs]"
    by (simp add: upt_conv_Cons del: upt_Suc)
  have "yields (bindM (item n) (\<lambda>y. bindM (forM [Suc n..<Suc n + length xs] item) (\<lambda>ys. ret (y # ys))))
      (list_all2 P (x # xs)) (then_bits (img x) (images (map img xs)))"
  proof (rule yields_bind)
    show "yields (item n) (P x) (img x)"
      using Cons.prems[of 0] by simp
    show "P x y \<Longrightarrow> yields (bindM (forM [Suc n..<Suc n + length xs] item) (\<lambda>ys. ret (y # ys)))
        (list_all2 P (x # xs)) (images (map img xs))" for y
      by (rule yields_map[OF tail]) auto
  qed
  then show ?case
    unfolding split by simp
qed (simp add: yields_ret del: ret_apply)

lemma yields_items:
  assumes "\<And>k. k < length xs \<Longrightarrow> yields (item k) (\<lambda>d. fst d = f (xs ! k)) (img (xs ! k))"
  shows "yields (read_items (length xs) item) (\<lambda>d. fst d = map f xs) (images (map img xs))"
proof -
  have "yields (forM [0..<0 + length xs] item) (list_all2 (\<lambda>x d. fst d = f x) xs) (images (map img xs))"
    using assms by (intro yields_forM) simp
  then have "yields (forM [0..<length xs] item) (list_all2 (\<lambda>x d. fst d = f x) xs) (images (map img xs))"
    by simp
  then show ?thesis
    unfolding read_items_def
    by (rule yields_map[where g = "\<lambda>xs. (map fst xs, concat (map snd xs))"])
      (auto simp: list_all2_conv_all_nth intro!: nth_equalityI split: prod.splits)
qed

lemma yields_pair: "(\<And>a b. d = (a, b) \<Longrightarrow> yields (f a b) Q i) \<Longrightarrow> yields (case d of (a, b) \<Rightarrow> f a b) Q i"
  by (cases d) simp

text \<open>The rules in the order in which they are tried along the code of a decoder.\<close>

lemmas along_code = yields_pair yields_gets yields_lift yields_unless yields_ret yields_spanned_u64 yields_spanned_usize
  yields_spanned_u32 yields_spanned_u8 yields_spanned_i32 yields_read_bits yields_bind

section \<open>Sizes of images\<close>

definition bounded :: "nat \<Rightarrow> image \<Rightarrow> bool" where
  "bounded n i \<longleftrightarrow> (\<forall>p. length (i p) \<le> n)"

lemma bounded_rules:
  "bounded 0 nothing" "bounded n (field n v)" "bounded (length bs) (raw_image bs)" "bounded 7 padding"
  "bounded a i \<Longrightarrow> bounded b j \<Longrightarrow> bounded (a + b) (then_bits i j)"
  by (auto simp: bounded_def image_defs align_skip_eq add_mono)

lemma bounded_items: "(\<And>x. bounded k (f x)) \<Longrightarrow> bounded (length xs * k) (images (map f xs))"
  by (induction xs) (simp_all add: bounded_rules)

lemma bounded_mono: "bounded n i \<Longrightarrow> n \<le> m \<Longrightarrow> bounded m i"
  unfolding bounded_def using le_trans by blast

section \<open>Writers\<close>

lemma emits_seq_Nil [emits_intros]: "emits (seqM []) nothing"
  by (simp add: emits_ret del: ret_apply)

lemma emits_seq_Cons [emits_intros]: "emits m i \<Longrightarrow> emits (seqM ms) j \<Longrightarrow> emits (seqM (m # ms)) (then_bits i j)"
  by (simp add: emits_bind)

lemma unat_count: "n < 2 ^ 64 \<Longrightarrow> unat (count_u64 n) = n"
  by (simp add: count_u64_def unat_of_nat)

lemma fits_count: "n < 2 ^ k \<Longrightarrow> k < 64 \<Longrightarrow> fits k (count_u64 n)"
proof -
  assume n: "n < 2 ^ k" "k < 64"
  have "(2::nat) ^ k \<le> 2 ^ 64"
    using n(2) by (intro power_increasing) simp_all
  then show ?thesis
    using n unat_count[of n] by (simp add: fits_unat)
qed

end
