(* ===== verification/Record_Laws.thy ===== *)
theory Record_Laws
  imports Decode_Laws Native_Stream
begin

text \<open>
  What crosses between the ends of a native connection: a record whose body a writer emits and a decoder
  reads is taken off the front of the buffer, and asks for more data while it is not complete.
\<close>

section \<open>Records in a buffer\<close>

definition record_image :: "u8 \<Rightarrow> u8 \<Rightarrow> image \<Rightarrow> image" where
  "record_image command slot body =
     then_bits (field 6 (ucast command)) (then_bits (field 1 1) (then_bits (field 4 (ucast slot)) body))"

abbreviation routed :: "u8 \<Rightarrow> u8 \<Rightarrow> routing_header" where
  "routed command slot \<equiv> \<lparr>command_id = command, service_slot = Some slot, header_bit_count = 11\<rparr>"

definition read_front :: "(routing_header \<Rightarrow> (reader, u32 \<times> payload) op) \<Rightarrow> bytes \<Rightarrow> native_record result" where
  "read_front dec data = rbind (reader_new data None) (\<lambda>r. fst (read_record dec r))"

text \<open>The bytes of a record: whatever follows, it is read; a part of it is not enough.\<close>

definition crosses :: "(routing_header \<Rightarrow> (reader, u32 \<times> payload) op) \<Rightarrow> bytes \<Rightarrow> native_record \<Rightarrow> bool" where
  "crosses dec bs g \<longleftrightarrow> rec_byte_count g = length bs \<and> 2 \<le> length bs
     \<and> (\<forall>rest. length (bs @ rest) < 2 ^ 59 \<longrightarrow> read_front dec (bs @ rest) = Inr g)
     \<and> (\<forall>k < length bs. \<exists>i. read_front dec (take k bs) = Inl (IncompleteFrame i))"

text \<open>A reader over a whole buffer.\<close>

lemma whole_reader:
  assumes "length data < 2 ^ 59"
  obtains r where "reader_new data None = Inr r" "wf_reader r" "rposition r = 0" "rbits r = raw_bits data (8 * length data)"
proof
  let ?r = "\<lparr>rdata = data, rbit_count = length data * 8, rposition = 0\<rparr>"
  show "reader_new data None = Inr ?r"
    by (simp add: reader_new_def)
  show "wf_reader ?r" "rposition ?r = 0" "rbits ?r = raw_bits data (8 * length data)"
    using assms by (simp_all add: bits_defs mult.commute)
qed

lemma raw_bits_append:
  "raw_bits (a @ b) (8 * length (a @ b)) = raw_bits a (8 * length a) @ raw_bits b (8 * length b)"
proof (rule nth_equalityI)
  fix i assume "i < length (raw_bits (a @ b) (8 * length (a @ b)))"
  then have i: "i < 8 * (length a + length b)"
    by simp
  show "raw_bits (a @ b) (8 * length (a @ b)) ! i = (raw_bits a (8 * length a) @ raw_bits b (8 * length b)) ! i"
  proof (cases "i < 8 * length a")
    case True
    then have "i div 8 < length a"
      by simp
    then show ?thesis
      using i True by (simp add: raw_bits_def nth_append bit_at_def del: div_less_iff_less_mult)
  next
    case False
    then obtain j where j: "i = 8 * length a + j"
      by (metis le_Suc_ex not_less)
    then show ?thesis
      using i by (simp add: raw_bits_def nth_append bit_at_def)
  qed
qed simp

lemma fits_route: "c < 64 \<Longrightarrow> fits 6 (ucast (c :: u8))" "t < 16 \<Longrightarrow> fits 4 (ucast (t :: u8))"
  by (auto intro!: fits_ucast simp: word_less_nat_alt)

lemma round_up_8: "n + (8 - n mod 8) mod 8 = 8 * ((n + 7) div 8)" for n :: nat
proof -
  obtain q m where n: "n = 8 * q + m" and "m < 8"
    by (metis mod_less_divisor mult_div_mod_eq zero_less_numeral)
  then have "m \<in> {0, 1, 2, 3, 4, 5, 6, 7}"
    by auto
  then show ?thesis
    unfolding n by auto
qed

lemma byte_padding: "div_ceil n 8 * 8 - n = align_skip n"
  using round_up_8[of n] by (simp add: align_skip_eq div_ceil_8)

text \<open>What is written and aligned in a fresh writer.\<close>

definition written :: "(writer, unit) op \<Rightarrow> bytes result" where
  "written m = (case bindM m (\<lambda>_. writer_align) writer_new of (Inl e, _) \<Rightarrow> Inl e | (Inr _, w) \<Rightarrow> Inr (into_bytes w))"

lemma written_image:
  assumes "emits m img"
  shows "\<exists>bs. written m = Inr bs \<and> raw_bits bs (8 * length bs) = img 0 @ replicate (align_skip (length (img 0))) False
    \<and> length bs = div_ceil (length (img 0)) 8"
proof -
  obtain w where w: "m writer_new = (Inr (), w)" "wf_writer w" "wbits w = img 0" "wposition w = length (img 0)"
    using emits_run[OF assms wf_writer_new(1)] by force
  obtain w' where w': "writer_align w = (Inr (align_skip (wposition w)), w')" "wf_writer w'"
      "wbits w' = wbits w @ replicate (align_skip (wposition w)) False"
    using writer_align_ok[OF w(2)] by blast
  have rec: "written m = Inr (pack (wbits w'))"
    using w(1) w'(1) by (simp add: written_def into_bytes_pack[OF w'(2)])
  have len: "length (wbits w') = 8 * div_ceil (length (img 0)) 8"
    using w(3,4) w'(3) by (simp add: align_skip_eq div_ceil_8 round_up_8)
  have "8 * length (pack (wbits w')) = length (wbits w')"
    using len by (simp add: div_ceil_8)
  then show ?thesis
    using rec raw_bits_pack[of "wbits w'"] w(3,4) w'(3) len by (intro exI[of _ "pack (wbits w')"]) simp
qed

lemma record_bytes_image:
  assumes c: "c < 64" "s < 16" and body: "emits body img"
  shows "\<exists>bs. record_bytes c s body = Inr bs
    \<and> raw_bits bs (8 * length bs) = record_image c s img 0 @ replicate (align_skip (length (record_image c s img 0))) False
    \<and> length bs = div_ceil (length (record_image c s img 0)) 8"
proof -
  have "emits (bindM (record_writer c s) (\<lambda>_. body)) (then_bits
      (then_bits (field 6 (ucast c)) (then_bits (field 1 1) (then_bits (field 4 (ucast s)) nothing))) img)"
    unfolding record_writer_def using c by (intro emits_intros body fits_route | simp)+
  then have "emits (bindM (record_writer c s) (\<lambda>_. body)) (record_image c s img)"
    by (simp add: record_image_def then_bits_assoc)
  moreover have "record_bytes c s body = written (bindM (record_writer c s) (\<lambda>_. body))"
    by (simp add: record_bytes_def written_def bindM_def split: prod.split sum.split)
  ultimately show ?thesis
    using written_image by metis
qed

section \<open>Decoders at a position\<close>

text \<open>The decoder of a record looks at positions, so its promise is one for readers that stand at one.\<close>

definition parses_at :: "nat \<Rightarrow> (reader, 'a) op \<Rightarrow> 'a \<Rightarrow> bool list \<Rightarrow> bool" where
  "parses_at p m x bs \<longleftrightarrow> (\<forall>r. wf_reader r \<and> rposition r = p \<longrightarrow>
     (\<forall>rest. rbits r = bs @ rest \<longrightarrow> m r = (Inr x, advance (length bs) r)) \<and>
     (\<forall>missing. bs = rbits r @ missing \<and> missing \<noteq> [] \<longrightarrow> (\<exists>i r'. m r = (Inl (IncompleteFrame i), r'))))"

lemma parses_atD: "parses m x i \<Longrightarrow> parses_at p m x (i p)"
  by (auto simp: parses_def parses_at_def)

lemma parses_at_ret: "parses_at p (ret x) x []"
  by (simp add: parses_at_def)

lemma parses_at_gets: "parses_at p (f p) x bs \<Longrightarrow> parses_at p (bindM (getsM rposition) f) x bs"
  by (auto simp: parses_at_def)

lemma parses_at_lift: "v = Inr y \<Longrightarrow> parses_at p (f y) x bs \<Longrightarrow> parses_at p (bindM (liftR v) f) x bs"
  by (auto simp: parses_at_def)

lemma parses_at_unless: "\<not> c \<Longrightarrow> parses_at p m x bs \<Longrightarrow> parses_at p (if c then m' else m) x bs"
  by simp

lemma parses_at_bind:
  assumes m: "parses_at p m x as" and f: "parses_at (p + length as) (f x) y bs"
  shows "parses_at p (bindM m f) y (as @ bs)"
  unfolding parses_at_def
proof (intro allI impI conjI)
  fix r rest assume r: "wf_reader r \<and> rposition r = p" and bits: "rbits r = (as @ bs) @ rest"
  then have "m r = (Inr x, advance (length as) r)"
    using m unfolding parses_at_def by simp
  moreover have "f x (advance (length as) r) = (Inr y, advance (length bs) (advance (length as) r))"
    using f r wf_reader_rest[of r as "bs @ rest"] bits unfolding parses_at_def by simp
  ultimately show "bindM m f r = (Inr y, advance (length (as @ bs)) r)"
    by (simp add: add.assoc)
next
  fix r missing assume r: "wf_reader r \<and> rposition r = p" and cut: "as @ bs = rbits r @ missing \<and> missing \<noteq> []"
  show "\<exists>i r'. bindM m f r = (Inl (IncompleteFrame i), r')"
  proof (cases "\<exists>rest. rbits r = as @ rest")
    case True
    then obtain rest where rest: "rbits r = as @ rest" ..
    then have "bs = rbits (advance (length as) r) @ missing"
      using cut wf_reader_rest(2)[of r as rest] r by simp
    then obtain i r' where "f x (advance (length as) r) = (Inl (IncompleteFrame i), r')"
      using f r cut wf_reader_rest(1)[of r as rest] rest unfolding parses_at_def by fastforce
    moreover have "m r = (Inr x, advance (length as) r)"
      using m r rest unfolding parses_at_def by blast
    ultimately show ?thesis by simp
  next
    case False
    then obtain us where "as = rbits r @ us" "us \<noteq> []"
      using cut by (metis append_Nil2 append_eq_append_conv2)
    then obtain i r' where "m r = (Inl (IncompleteFrame i), r')"
      using m r unfolding parses_at_def by blast
    then show ?thesis by simp
  qed
qed

lemma parses_at_bits: "fits n v \<Longrightarrow> q = p + n \<Longrightarrow> parses_at q (f v) y bs \<Longrightarrow> parses_at p (bindM (read_bits n) f) y (field n v p @ bs)"
  using parses_at_bind[OF parses_atD[OF parses_read_bits[of n v], of p], of f y bs] by (simp add: field_def)

lemma field_zero: "field n 0 p = replicate n False"
proof -
  have "field_bits p n v = replicate n False" if "v = 0" for v
    using that
  proof (induction p n v rule: field_bits.induct)
    case (1 p n v)
    show ?case
    proof (cases "n = 0")
      case False
      define tk where "tk = min (8 - p mod 8) n"
      have "tk \<le> n"
        by (simp add: tk_def)
      then show ?thesis
        using 1 False by (subst field_bits.simps)
          (simp add: Let_def map_replicate_const flip: tk_def replicate_add)
    qed (simp add: field_bits.simps)
  qed
  then show ?thesis
    by (simp add: field_def)
qed

section \<open>A routed record\<close>

lemma small_ucast: "small 8 (ucast (b :: u8)) = Inr (ucast b)"
  by (simp add: small_def unat_ucast_64 word8_less)

text \<open>The record a route yields; \<open>n\<close> is the number of bits of its body.\<close>

definition routed_record :: "u8 \<Rightarrow> u8 \<Rightarrow> u32 \<Rightarrow> payload \<Rightarrow> nat \<Rightarrow> native_record" where
  "routed_record c s tid v n = \<lparr>rec_header = routed c s, rec_type_id = tid, rec_value = v, rec_payload_bit_count = n,
     rec_byte_count = div_ceil (11 + n) 8\<rparr>"

lemma parses_padding:
  fixes n p :: nat
  defines "k \<equiv> div_ceil n 8 * 8 - n"
  shows "parses_at p (if k \<noteq> 0 then bindM (read_bits k) (\<lambda>_. ret ()) else ret ()) () (replicate k False)"
proof (cases "k = 0")
  case False
  have "k \<le> 64"
    using mod_less_divisor[of 8 "8 - n mod 8"] by (simp add: k_def byte_padding align_skip_eq)
  then have "parses_at p (bindM (read_bits k) (\<lambda>_. ret ())) () (field k 0 p @ [])"
    by (intro parses_at_bits[OF _ refl] parses_at_ret) simp
  then show ?thesis
    using False by (simp add: field_zero)
qed (simp add: parses_at_ret del: ret_apply)

lemma service_record_at:
  assumes "parses_at 11 (dec (routed c s)) (tid, v) bs"
  defines "n \<equiv> length bs"
  shows "parses_at 11 (decode_service_record dec c s) (routed_record c s tid v n)
    (bs @ replicate (align_skip (11 + n)) False)"
proof -
  let ?k = "div_ceil (11 + n) 8 * 8 - (11 + n)"
  have k: "align_skip (11 + n) = ?k"
    by (simp only: byte_padding)
  have tail: "parses_at (11 + n) (bindM (getsM rposition) (\<lambda>logical_bits.
       let byte_count = div_ceil logical_bits 8; padding = byte_count * 8 - logical_bits in
       bindM (if padding \<noteq> 0 then bindM (read_bits padding) (\<lambda>_. ret ()) else ret ()) (\<lambda>_.
       ret \<lparr>rec_header = routed c s, rec_type_id = tid, rec_value = v,
            rec_payload_bit_count = logical_bits - 11, rec_byte_count = byte_count\<rparr>)))
      (routed_record c s tid v n) (replicate ?k False)"
  proof (rule parses_at_gets)
    show "parses_at (11 + n) (let byte_count = div_ceil (11 + n) 8; padding = byte_count * 8 - (11 + n) in
       bindM (if padding \<noteq> 0 then bindM (read_bits padding) (\<lambda>_. ret ()) else ret ()) (\<lambda>_.
       ret \<lparr>rec_header = routed c s, rec_type_id = tid, rec_value = v,
            rec_payload_bit_count = 11 + n - 11, rec_byte_count = byte_count\<rparr>))
      (routed_record c s tid v n) (replicate ?k False)"
      using parses_at_bind[OF parses_padding[of "11 + n" "11 + n"] parses_at_ret[of _ "routed_record c s tid v n"]]
      by (simp only: Let_def routed_record_def diff_add_inverse append_Nil2)
  qed
  show ?thesis
    unfolding decode_service_record_def Let_def[of "routed_header"] k
    apply (rule parses_at_gets)
    unfolding Let_def[of "\<lparr>command_id = c, service_slot = Some s, header_bit_count = 11\<rparr>"]
    apply (rule parses_at_bind[OF assms(1)])
    unfolding prod.case n_def[symmetric]
    by (rule tail)
qed

text \<open>The whole record, as the front of a buffer.\<close>

lemma record_at:
  assumes c: "c < 64" "s < 16" and body: "parses_at 11 (dec (routed c s)) (tid, v) bs"
  shows "parses_at 0 (read_record dec) (routed_record c s tid v (length bs))
    (record_image c s nothing 0 @ bs @ replicate (align_skip (11 + length bs)) False)"
proof -
  have "parses_at 0 (read_record dec) (routed_record c s tid v (length bs))
    (field 6 (ucast c) 0 @ field 1 1 6 @ field 4 (ucast s) 7 @ bs @ replicate (align_skip (11 + length bs)) False)"
    unfolding read_record_def
    apply (rule parses_at_bits, rule fits_route(1)[OF c(1)], simp)
    apply (rule parses_at_lift[OF small_ucast])
    apply (rule parses_at_bits, simp, simp)
    apply (rule parses_at_unless, simp)
    apply (rule parses_at_bits, rule fits_route(2)[OF c(2)], simp)
    apply (rule parses_at_lift[OF small_ucast])
    using service_record_at[where dec = dec and c = c and s = s, OF body] by (simp add: ucast_byte)
  moreover have "length (field n x p) = n" for n x p
    by (simp add: field_def)
  ultimately show ?thesis
    by (simp add: record_image_def then_bits_def nothing_def)
qed

lemma parses_record:
  assumes "c < 64" "s < 16" and "parses (dec (routed c s)) (tid, v) img"
  shows "parses_at 0 (read_record dec) (routed_record c s tid v (length (img 11)))
    (record_image c s img 0 @ replicate (align_skip (11 + length (img 11))) False)"
  using record_at[where dec = dec, OF assms(1,2) parses_atD[OF assms(3)]]
  by (simp add: record_image_def then_bits_def nothing_def field_def)

lemma length_record_image: "length (record_image c s img 0) = 11 + length (img 11)"
  by (simp add: record_image_def then_bits_def field_def)

lemma record_written:
  assumes c: "c < 64" "s < 16" and run: "record_bytes c s body = Inr bs"
  obtains w w' where "wf_writer w" and "wposition w = 11" and "wbits w = record_image c s nothing 0"
    and "body w = (Inr (), w')"
    and "wf_writer w' \<Longrightarrow> raw_bits bs (8 * length bs) = wbits w' @ replicate (align_skip (wposition w')) False
      \<and> length bs = div_ceil (wposition w') 8"
proof -
  have "emits (record_writer c s) (then_bits (field 6 (ucast c)) (then_bits (field 1 1) (then_bits (field 4 (ucast s)) nothing)))"
    unfolding record_writer_def using c by (intro emits_intros fits_route | simp)+
  then have head: "emits (record_writer c s) (record_image c s nothing)"
    by (simp add: record_image_def)
  obtain w where w: "record_writer c s writer_new = (Inr (), w)" "wf_writer w" "wbits w = record_image c s nothing 0" "wposition w = 11"
    using emits_run[OF head wf_writer_new(1)] by (force simp: length_record_image nothing_def)
  obtain w' where w': "body w = (Inr (), w')" "fst (writer_align w') \<noteq> Inl e \<or> True" "record_bytes c s body =
      (case writer_align w' of (Inl e, _) \<Rightarrow> Inl e | (Inr _, w) \<Rightarrow> Inr (into_bytes w))" for e
    using run w(1) by (auto simp: record_bytes_def bindM_def split: prod.splits sum.splits)
  have "raw_bits bs (8 * length bs) = wbits w' @ replicate (align_skip (wposition w')) False
      \<and> length bs = div_ceil (wposition w') 8" if wf: "wf_writer w'"
  proof -
    obtain w2 where w2: "writer_align w' = (Inr (align_skip (wposition w')), w2)" "wf_writer w2"
        "wbits w2 = wbits w' @ replicate (align_skip (wposition w')) False"
      using writer_align_ok[OF wf] by blast
    have bs: "bs = pack (wbits w2)"
      using run w'(3) w2(1) into_bytes_pack[OF w2(2)] by simp
    have len: "length (wbits w2) = 8 * div_ceil (wposition w') 8"
      using w2(3) by (simp add: align_skip_eq div_ceil_8 round_up_8)
    then have "8 * length bs = length (wbits w2)"
      unfolding bs by (simp add: div_ceil_8)
    then show ?thesis
      using raw_bits_pack[of "wbits w2"] w2(3) len unfolding bs by simp
  qed
  then show thesis
    using that[OF w(2,4,3) w'(1)] by blast
qed

text \<open>What a record decoder reads at the start of a buffer crosses.\<close>

lemma parses_crosses:
  assumes "parses_at 0 (read_record dec) g (raw_bits bs (8 * length bs))"
    and "rec_byte_count g = length bs" and "2 \<le> length bs" and small: "length bs < 2 ^ 59"
  shows "crosses dec bs g"
proof -
  note whole = assms(1)[unfolded parses_at_def]
  have "read_front dec (bs @ rest) = Inr g" if big: "length (bs @ rest) < 2 ^ 59" for rest
  proof -
    obtain r where r: "reader_new (bs @ rest) None = Inr r" "wf_reader r" "rposition r = 0"
        "rbits r = raw_bits bs (8 * length bs) @ raw_bits rest (8 * length rest)"
      using whole_reader[OF big] unfolding raw_bits_append by blast
    then have "read_record dec r = (Inr g, advance (length (raw_bits bs (8 * length bs))) r)"
      using whole by blast
    then show ?thesis
      using r(1) by (simp add: read_front_def)
  qed
  moreover have "\<exists>i. read_front dec (take k bs) = Inl (IncompleteFrame i)" if k: "k < length bs" for k
  proof -
    have short: "length (take k bs) < 2 ^ 59"
      using k small by simp
    obtain r where r: "reader_new (take k bs) None = Inr r" "wf_reader r" "rposition r = 0"
        "rbits r = raw_bits (take k bs) (8 * length (take k bs))"
      using whole_reader[OF short] by blast
    have "raw_bits bs (8 * length bs) = rbits r @ raw_bits (drop k bs) (8 * length (drop k bs))"
      using raw_bits_append[of "take k bs" "drop k bs"] unfolding append_take_drop_id r(4) .
    moreover have "raw_bits (drop k bs) (8 * length (drop k bs)) \<noteq> []"
      using k by (metis length_0_conv length_drop length_raw_bits mult_eq_0_iff zero_less_diff less_irrefl zero_neq_numeral)
    ultimately obtain i r' where "read_record dec r = (Inl (IncompleteFrame i), r')"
      using whole r(2,3) by blast
    then show ?thesis
      using r(1) by (simp add: read_front_def)
  qed
  ultimately show ?thesis
    using assms(2,3) unfolding crosses_def by blast
qed

lemma record_crosses:
  assumes c: "c < 64" "s < 16" and body: "emits body img" "parses (dec (routed c s)) (tid, v) img"
    and small: "length (img 11) < 2 ^ 60"
  shows "\<exists>bs. record_bytes c s body = Inr bs \<and> crosses dec bs (routed_record c s tid v (length (img 11)))"
proof -
  obtain bs where bs: "record_bytes c s body = Inr bs" "length bs = div_ceil (11 + length (img 11)) 8"
      "raw_bits bs (8 * length bs) = record_image c s img 0 @ replicate (align_skip (11 + length (img 11))) False"
    using record_bytes_image[OF c body(1)] by (auto simp: length_record_image)
  have "crosses dec bs (routed_record c s tid v (length (img 11)))"
  proof (rule parses_crosses)
    show "parses_at 0 (read_record dec) (routed_record c s tid v (length (img 11))) (raw_bits bs (8 * length bs))"
      unfolding bs(3) by (rule parses_record[where dec = dec and c = c and s = s and img = img, OF c body(2)])
  qed (use small in \<open>simp_all add: bs(2) routed_record_def div_ceil_8\<close>)
  then show ?thesis
    using bs(1) by blast
qed

end
