(* ===== verification/Stream_Laws.thy ===== *)
theory Stream_Laws
  imports Record_Laws
begin

text \<open>
  Records over the native stream: what a receiver gets depends on the bytes that arrive and on the key, not
  on their chunks nor on when protection was enabled.
\<close>

section \<open>The clear view\<close>

text \<open>What a reader holds and is still to get, decrypted.\<close>

definition decrypted :: "'k suite \<Rightarrow> 'k option \<Rightarrow> bytes \<Rightarrow> bytes" where
  "decrypted S k bs = (case k of None \<Rightarrow> bs | Some k \<Rightarrow> fst (rc4_apply S k bs))"

definition clear_view :: "'k suite \<Rightarrow> 'k record_stream \<Rightarrow> bytes" where
  "clear_view S s = buffer s @ decrypted S (inbound_cipher s) (pending (link s))"

lemma cipher_append:
  "lawful_cipher S \<Longrightarrow> rc4_apply S k (a @ b) =
     (fst (rc4_apply S k a) @ fst (rc4_apply S (snd (rc4_apply S k a)) b), snd (rc4_apply S (snd (rc4_apply S k a)) b))"
  unfolding lawful_cipher_def by blast

lemma cipher_length [simp]: "lawful_cipher S \<Longrightarrow> length (fst (rc4_apply S k a)) = length a"
  unfolding lawful_cipher_def by blast

lemma cipher_involution [simp]: "lawful_cipher S \<Longrightarrow> fst (rc4_apply S k (fst (rc4_apply S k a))) = a"
  unfolding lawful_cipher_def by blast

lemma cipher_state: "lawful_cipher S \<Longrightarrow> length a = length b \<Longrightarrow> snd (rc4_apply S k a) = snd (rc4_apply S k b)"
  unfolding lawful_cipher_def by blast

lemma decrypted_length [simp]: "lawful_cipher S \<Longrightarrow> length (decrypted S k bs) = length bs"
  by (simp add: decrypted_def split: option.split)

lemma decrypted_empty [simp]: "lawful_cipher S \<Longrightarrow> decrypted S k [] = []"
  using decrypted_length[of S k "[]"] by (metis length_0_conv)

lemma take_chunk_view:
  assumes "lawful_cipher S" and "pending (link s) = chunk @ pending st"
  shows "clear_view S (take_chunk S chunk (s\<lparr>link := st\<rparr>)) = clear_view S s"
  using assms by (simp add: clear_view_def take_chunk_def decrypted_def cipher_append split: option.split)

lemma take_chunk_same [simp]:
  "link (take_chunk S chunk s) = link s" "protocol (take_chunk S chunk s) = protocol s"
  "server_mode (take_chunk S chunk s) = server_mode s" "outbound_cipher (take_chunk S chunk s) = outbound_cipher s"
  "record_decoder (take_chunk S chunk s) = record_decoder s"
  by (simp_all add: take_chunk_def record_decoder_def split: option.split)

section \<open>Receiving\<close>

lemma record_decoder_update [simp]:
  "record_decoder (s\<lparr>buffer := x\<rparr>) = record_decoder s" "record_decoder (s\<lparr>link := y\<rparr>) = record_decoder s"
  by (simp_all add: record_decoder_def)

lemma decode_buffer_front:
  "decode_buffer s = (case read_front (record_decoder s) (buffer s) of
     Inl e \<Rightarrow> (Inl e, s) | Inr g \<Rightarrow> bindM (drain (rec_byte_count g)) (\<lambda>_. ret g) s)"
  by (simp add: decode_buffer_def read_front_def)

lemma judge_complete:
  assumes "crosses (record_decoder s) bs g" and "buffer s = bs @ rest" and "length (buffer s) < 2 ^ 59"
  shows "judge_buffer s = (Done (Inr g), s\<lparr>buffer := rest\<rparr>)"
proof -
  have "read_front (record_decoder s) (buffer s) = Inr g" and "rec_byte_count g = length bs" and "2 \<le> length bs"
    using assms unfolding crosses_def by auto
  then show ?thesis
    using assms(2) by (simp add: judge_buffer_def decode_buffer_front drain_def)
qed

lemma judge_partial:
  assumes "crosses (record_decoder s) bs g" and "buffer s = take k bs" and "k < length bs"
  shows "judge_buffer s = (Starved, s)"
proof (cases "length (buffer s) < 2")
  case False
  obtain i where "read_front (record_decoder s) (buffer s) = Inl (IncompleteFrame i)"
    using assms unfolding crosses_def by metis
  then show ?thesis
    using False by (simp add: judge_buffer_def decode_buffer_front)
qed (simp add: judge_buffer_def)

text \<open>A record on an unmapped route of known length: from its second byte on, it is refused for its route.\<close>

definition skippable :: "(routing_header \<Rightarrow> (reader, u32 \<times> payload) op) \<Rightarrow> bytes \<Rightarrow> bool" where
  "skippable dec sk \<longleftrightarrow> (\<exists>slot c. unmapped_record_length slot c = Some (length sk)
     \<and> (\<forall>k rest. 2 \<le> k \<longrightarrow> length (sk @ rest) < 2 ^ 59 \<longrightarrow> read_front dec (take k (sk @ rest)) = Inl (UnmappedNativeRoute slot c)))"

lemma skippable_long: "skippable dec sk \<Longrightarrow> 2 \<le> length sk"
  by (auto simp: skippable_def unmapped_record_length_def split: if_split_asm)

lemma judge_skippable:
  assumes "skippable (record_decoder s) sk" and "buffer s = take k (sk @ rest)" and "2 \<le> k" and "length (sk @ rest) < 2 ^ 59"
  shows "judge_buffer s = (if length sk \<le> length (buffer s) then (Skipped, s\<lparr>buffer := drop (length sk) (buffer s)\<rparr>) else (Starved, s))"
proof -
  obtain slot c where "unmapped_record_length slot c = Some (length sk)"
      "read_front (record_decoder s) (buffer s) = Inl (UnmappedNativeRoute slot c)"
    using assms unfolding skippable_def by metis
  moreover have "\<not> length (buffer s) < 2"
    using assms skippable_long[OF assms(1)] by simp
  ultimately show ?thesis
    by (simp add: judge_buffer_def decode_buffer_front)
qed

text \<open>What receiving leaves alone.\<close>

definition same_ends :: "'k record_stream \<Rightarrow> 'k record_stream \<Rightarrow> bool" where
  "same_ends s s' \<longleftrightarrow> protocol s' = protocol s \<and> server_mode s' = server_mode s \<and> outbound_cipher s' = outbound_cipher s
     \<and> (inbound_cipher s' = None \<longleftrightarrow> inbound_cipher s = None)"

lemma same_ends_decoder: "same_ends s s' \<Longrightarrow> record_decoder s' = record_decoder s"
  by (simp add: same_ends_def record_decoder_def)

lemma same_ends_trans: "same_ends a b \<Longrightarrow> same_ends b c \<Longrightarrow> same_ends a c"
  by (simp add: same_ends_def)

text \<open>The cases of the loop: the buffer starts the bytes still to come, so it holds a record, a part of one, or skips.\<close>

lemma judge_front:
  assumes "crosses (record_decoder s) bs g" and "\<forall>sk \<in> set sks. skippable (record_decoder s) sk"
    and view: "buffer s @ coming = concat sks @ bs @ rest" and big: "length (buffer s @ coming) < 2 ^ 59"
  obtains (complete) r where "sks = []" "buffer s = bs @ r" "rest = r @ coming" "judge_buffer s = (Done (Inr g), s\<lparr>buffer := r\<rparr>)"
    | (skipped) sk sks' r where "sks = sk # sks'" "buffer s = sk @ r" "r @ coming = concat sks' @ bs @ rest"
        "judge_buffer s = (Skipped, s\<lparr>buffer := r\<rparr>)"
    | (starved) "judge_buffer s = (Starved, s)" "coming \<noteq> []"
proof (cases sks)
  case Nil
  show ?thesis
  proof (cases "length bs \<le> length (buffer s)")
    case True
    then obtain r where r: "buffer s = bs @ r" "rest = r @ coming"
      using view Nil by (auto simp: append_eq_append_conv2)
    then show ?thesis
      using complete Nil judge_complete[OF assms(1) r(1)] big by simp
  next
    case False
    then have "buffer s = take (length (buffer s)) bs" and "coming \<noteq> []"
      using view Nil by (auto simp: append_eq_append_conv_if split: if_split_asm)
    then show ?thesis
      using starved judge_partial[OF assms(1)] False by (metis not_le)
  qed
next
  case (Cons sk sks')
  then have sk: "skippable (record_decoder s) sk"
    using assms(2) by simp
  have whole: "buffer s @ coming = sk @ (concat sks' @ bs @ rest)"
    using view Cons by simp
  show ?thesis
  proof (cases "length (buffer s) < 2")
    case True
    then have "judge_buffer s = (Starved, s)"
      by (simp add: judge_buffer_def)
    moreover have "coming \<noteq> []"
      using True skippable_long[OF sk] arg_cong[OF whole, of length] by auto
    ultimately show ?thesis
      using starved by blast
  next
    case False
    have front: "buffer s = take (length (buffer s)) (sk @ (concat sks' @ bs @ rest))"
      unfolding whole[symmetric] by simp
    have verdict: "judge_buffer s = (if length sk \<le> length (buffer s) then (Skipped, s\<lparr>buffer := drop (length sk) (buffer s)\<rparr>) else (Starved, s))"
      by (rule judge_skippable[OF sk front]) (use False big whole in auto)
    show ?thesis
    proof (cases "length sk \<le> length (buffer s)")
      case True
      define r where "r = drop (length sk) (buffer s)"
      have "buffer s = sk @ r"
        using True arg_cong[OF whole, of "take (length sk)"] append_take_drop_id[of "length sk" "buffer s"] by (simp add: r_def)
      then have "buffer s = sk @ r" "r @ coming = concat sks' @ bs @ rest"
        using whole by simp_all
      then show ?thesis
        using skipped[OF Cons] verdict by simp
    next
      case False
      then have "coming \<noteq> []"
        using arg_cong[OF whole, of length] by auto
      then show ?thesis
        using starved verdict False by simp
    qed
  qed
qed

lemma receive_next:
  shows "lawful_cipher S \<Longrightarrow> steady (link s) \<Longrightarrow> crosses (record_decoder s) bs g \<Longrightarrow> \<forall>sk \<in> set sks. skippable (record_decoder s) sk \<Longrightarrow>
    clear_view S s = concat sks @ bs @ rest \<Longrightarrow> length (clear_view S s) < 2 ^ 59 \<Longrightarrow>
    \<exists>s'. receive_record S s = (Inr g, s') \<and> clear_view S s' = rest \<and> steady (link s') \<and> same_ends s s'"
proof (induction S s arbitrary: sks rule: receive_record.induct)
  case (1 S s)
  let ?coming = "decrypted S (inbound_cipher s) (pending (link s))"
  have view: "buffer s @ ?coming = concat sks @ bs @ rest" "length (buffer s @ ?coming) < 2 ^ 59"
    using "1.prems"(5,6) by (simp_all add: clear_view_def)
  show ?case
  proof (rule judge_front[OF "1.prems"(3,4) view])
    fix r assume r: "buffer s = bs @ r" "rest = r @ ?coming" "judge_buffer s = (Done (Inr g), s\<lparr>buffer := r\<rparr>)"
    then show ?case
      using "1.prems"(2) by (subst receive_record.simps) (simp add: clear_view_def same_ends_def)
  next
    fix sk sks' r assume r: "sks = sk # sks'" "buffer s = sk @ r" "r @ ?coming = concat sks' @ bs @ rest"
      "judge_buffer s = (Skipped, s\<lparr>buffer := r\<rparr>)"
    have "\<exists>s'. receive_record S (s\<lparr>buffer := r\<rparr>) = (Inr g, s') \<and> clear_view S s' = rest \<and> steady (link s')
        \<and> same_ends (s\<lparr>buffer := r\<rparr>) s'"
      using "1.prems" r view
      by (intro "1.IH"(1)[OF r(4)[symmetric] refl, of sks']) (simp_all add: clear_view_def)
    then show ?case
      using r(4) by (subst receive_record.simps) (auto simp: same_ends_def)
  next
    assume starved: "judge_buffer s = (Starved, s)" "?coming \<noteq> []"
    then have "pending (link s) \<noteq> []"
      using "1.prems"(1) by auto
    then obtain chunk st where st: "stream_read READ_CHUNK_SIZE (link s) = (Inr chunk, st)" "chunk \<noteq> []"
        "pending (link s) = chunk @ pending st" "steady st" "same_writer (link s) st"
      using stream_read_steady[OF "1.prems"(2), of READ_CHUNK_SIZE] by (metis zero_less_numeral)
    obtain b tl' where chunk: "chunk = b # tl'"
      using st(2) by (cases chunk) auto
    let ?s1 = "take_chunk S (b # tl') (s\<lparr>link := st\<rparr>)"
    have same: "clear_view S ?s1 = clear_view S s"
      using take_chunk_view[OF "1.prems"(1) st(3)] chunk by simp
    have "\<exists>s'. receive_record S ?s1 = (Inr g, s') \<and> clear_view S s' = rest \<and> steady (link s') \<and> same_ends ?s1 s'"
      using "1.prems" st(4) same
      by (intro "1.IH"(2)[OF starved(1)[symmetric] refl st(1)[unfolded chunk, symmetric] refl refl, of sks]) simp_all
    moreover have "same_ends s ?s1"
      by (simp add: same_ends_def take_chunk_def split: option.split)
    moreover have "receive_record S s = receive_record S ?s1"
      using starved(1) st(1) chunk by (subst receive_record.simps) simp
    ultimately show ?case
      using same_ends_trans by metis
  qed
qed

lemma same_ends_refl [simp]: "same_ends s s"
  by (simp add: same_ends_def)

lemma receive_all:
  "lawful_cipher S \<Longrightarrow> steady (link s) \<Longrightarrow> \<forall>(bs, g) \<in> set ps. crosses (record_decoder s) bs g \<Longrightarrow>
    clear_view S s = concat (map fst ps) @ rest \<Longrightarrow> length (clear_view S s) < 2 ^ 59 \<Longrightarrow>
    \<exists>s'. forM ps (\<lambda>_. receive_record S) s = (Inr (map snd ps), s') \<and> clear_view S s' = rest \<and> steady (link s') \<and> same_ends s s'"
proof (induction ps arbitrary: s)
  case (Cons p ps)
  obtain bs g where p: "p = (bs, g)" by (cases p)
  obtain s1 where s1: "receive_record S s = (Inr g, s1)" "clear_view S s1 = concat (map fst ps) @ rest" "steady (link s1)" "same_ends s s1"
    using receive_next[OF Cons.prems(1,2), of bs g "[]" "concat (map fst ps) @ rest"] Cons.prems by (auto simp: p)
  have "length (clear_view S s1) < 2 ^ 59"
    using Cons.prems(4,5) s1(2) by simp
  then obtain s2 where "forM ps (\<lambda>_. receive_record S) s1 = (Inr (map snd ps), s2)" "clear_view S s2 = rest" "steady (link s2)" "same_ends s1 s2"
    using Cons.IH[OF Cons.prems(1) s1(3) _ s1(2)] Cons.prems(3) same_ends_decoder[OF s1(4)] by auto
  then show ?case
    using s1(1) same_ends_trans[OF s1(4)] by (intro exI[of _ s2]) (simp add: p)
qed simp

text \<open>At the end of a stream that stops inside a record the reader reports it.\<close>

lemma receive_cut:
  "lawful_cipher S \<Longrightarrow> steady (link s) \<Longrightarrow> crosses (record_decoder s) bs g \<Longrightarrow> clear_view S s = take k bs \<Longrightarrow> k < length bs \<Longrightarrow>
    \<exists>s'. receive_record S s = (Inl (Io UnexpectedEof), s')"
proof (induction S s rule: receive_record.induct)
  case (1 S s)
  let ?coming = "decrypted S (inbound_cipher s) (pending (link s))"
  have "buffer s = take (length (buffer s)) (take k bs)"
    using "1.prems"(4) unfolding clear_view_def by (metis append_eq_conv_conj)
  then have "buffer s = take (min (length (buffer s)) k) bs" and "min (length (buffer s)) k < length bs"
    using "1.prems"(5) by (simp_all add: take_take)
  then have starved: "judge_buffer s = (Starved, s)"
    using judge_partial[OF "1.prems"(3)] by blast
  show ?case
  proof (cases "pending (link s) = []")
    case True
    then have "incoming (link s) = []"
      using "1.prems"(2) by (cases "incoming (link s)"; cases "hd (incoming (link s))") (auto simp: pending_def steady_def quiet_def)
    then show ?thesis
      using starved by (subst receive_record.simps) (simp add: stream_read.simps)
  next
    case False
    then obtain chunk st where st: "stream_read READ_CHUNK_SIZE (link s) = (Inr chunk, st)" "chunk \<noteq> []"
        "pending (link s) = chunk @ pending st" "steady st"
      using stream_read_steady[OF "1.prems"(2), of READ_CHUNK_SIZE] by (metis zero_less_numeral)
    obtain b tl' where chunk: "chunk = b # tl'"
      using st(2) by (cases chunk) auto
    let ?s1 = "take_chunk S (b # tl') (s\<lparr>link := st\<rparr>)"
    have "clear_view S ?s1 = clear_view S s"
      using take_chunk_view[OF "1.prems"(1) st(3)] chunk by simp
    then have "\<exists>s'. receive_record S ?s1 = (Inl (Io UnexpectedEof), s')"
      using "1.prems" st(4)
      by (intro "1.IH"(2)[OF starved[symmetric] refl st(1)[unfolded chunk, symmetric] refl refl]) simp_all
    moreover have "receive_record S s = receive_record S ?s1"
      using starved st(1) chunk by (subst receive_record.simps) simp
    ultimately show ?thesis by simp
  qed
qed

section \<open>Protection\<close>

lemma install_ciphers_ok:
  assumes "install_ciphers S inkey outkey s = (Inr u, s')"
  obtains ki ko where "rc4_new S inkey = Inr ki" "rc4_new S outkey = Inr ko"
    "s' = s\<lparr>buffer := fst (rc4_apply S ki (buffer s)), inbound_cipher := Some (snd (rc4_apply S ki (buffer s))), outbound_cipher := Some ko\<rparr>"
  using assms by (auto simp: install_ciphers_def bindM_Inr_iff)

lemma installed_view:
  assumes "lawful_cipher S" and "install_ciphers S inkey outkey s = (Inr u, s')" and "rc4_new S inkey = Inr ki"
  shows "clear_view S s' = fst (rc4_apply S ki (buffer s @ pending (link s)))"
  using assms by (auto elim!: install_ciphers_ok simp: clear_view_def decrypted_def cipher_append)

lemma enable_install:
  "enable_protection S key s = (Inr u, s') \<longleftrightarrow> inbound_cipher s = None \<and> outbound_cipher s = None \<and>
     (\<exists>i out. derive_transport_rc4_keys S key = Inr (i, out) \<and> install_ciphers S i out s = (Inr u, s'))"
  "enable_protection_server S key s = (Inr u, s') \<longleftrightarrow> inbound_cipher s = None \<and> outbound_cipher s = None \<and>
     (\<exists>i out. derive_transport_rc4_keys S key = Inr (i, out) \<and> install_ciphers S out i s = (Inr u, s'))"
  by (auto simp: enable_protection_def enable_protection_server_def bindM_Inr_iff)

section \<open>Sending\<close>

lemma write_all_ok: "write_all bs st = (Inr u, st') \<Longrightarrow> outgoing st' = outgoing st @ bs"
  by (auto simp: write_all_def split: option.splits if_split_asm)

lemma send_record_ok:
  assumes "send_record S bs s = (Inr u, s')"
  shows "outgoing (link s') = outgoing (link s) @ decrypted S (outbound_cipher s) bs"
    and "outbound_cipher s' = map_option (\<lambda>k. snd (rc4_apply S k bs)) (outbound_cipher s)"
  using assms
  by (auto simp: send_record_def bindM_Inr_iff decrypted_def flush_def split: option.splits prod.splits if_split_asm dest!: write_all_ok)

lemma send_all_ok:
  "lawful_cipher S \<Longrightarrow> forM bss (send_record S) s = (Inr us, s') \<Longrightarrow>
    outgoing (link s') = outgoing (link s) @ decrypted S (outbound_cipher s) (concat bss)"
proof (induction bss arbitrary: s us)
  case (Cons bs bss)
  then obtain u s1 us' where 1: "send_record S bs s = (Inr u, s1)" "forM bss (send_record S) s1 = (Inr us', s')"
    by (auto simp: bindM_Inr_iff)
  show ?case
    using Cons.IH[OF Cons.prems(1) 1(2)] send_record_ok[OF 1(1)] Cons.prems(1)
    by (auto simp: decrypted_def cipher_append split: option.splits)
qed simp

section \<open>Routes that are skipped\<close>

abbreviation header_image :: "u8 \<Rightarrow> u8 \<Rightarrow> image" where
  "header_image c slot \<equiv> record_image c slot nothing"

lemma length_header [simp]: "length (header_image c slot 0) = 11"
  by (simp add: length_record_image nothing_def)

lemma read_bits_then:
  assumes "fits n v" and "wf_reader r" and "rposition r = p" and "rbits r = field n v p @ rest"
  shows "bindM (read_bits n) f r = f v (advance n r) \<and> wf_reader (advance n r) \<and> rposition (advance n r) = p + n
    \<and> rbits (advance n r) = rest"
proof -
  have "read_bits n r = (Inr v, advance n r)"
    using parses_ok[OF parses_read_bits[OF assms(1)] assms(2), of rest] assms(3,4) by (simp add: field_def)
  moreover have "length (field n v p) = n"
    by (simp add: field_def)
  ultimately show ?thesis
    using wf_reader_rest[OF assms(2,4)] assms(3) by simp
qed

lemma read_routed:
  assumes c: "c < 64" "s < 16" and r: "wf_reader r" "rposition r = 0" "rbits r = header_image c s 0 @ rest"
  shows "read_record dec r = decode_service_record dec c s (advance 11 r)"
proof -
  have bits: "rbits r = field 6 (ucast c) 0 @ field 1 1 6 @ field 4 (ucast s) 7 @ rest"
    using r(3) by (simp add: record_image_def then_bits_def nothing_def field_def)
  define r6 where "r6 = advance 6 r"
  define r7 where "r7 = advance 1 r6"
  have 1: "bindM (read_bits 6) f r = f (ucast c) r6" "wf_reader r6" "rposition r6 = 6"
      "rbits r6 = field 1 1 6 @ field 4 (ucast s) 7 @ rest" for f :: "u64 \<Rightarrow> (reader, native_record) op"
    using read_bits_then[OF fits_route(1)[OF c(1)] r(1,2) bits, where f = f, folded r6_def] by simp_all
  have one: "fits 1 1" by simp
  have 2: "bindM (read_bits 1) f r6 = f 1 r7" "wf_reader r7" "rposition r7 = 7" "rbits r7 = field 4 (ucast s) 7 @ rest"
    for f :: "u64 \<Rightarrow> (reader, native_record) op"
    using read_bits_then[OF one 1(2-4), where f = f, folded r7_def] by simp_all
  have 3: "bindM (read_bits 4) f r7 = f (ucast s) (advance 11 r)" for f :: "u64 \<Rightarrow> (reader, native_record) op"
    using read_bits_then[OF fits_route(2)[OF c(2)] 2(2-4), where f = f] r(2) by (simp add: r7_def r6_def)
  have lift: "bindM (liftR (Inr x)) f = f x" for x :: u64 and f :: "u64 \<Rightarrow> (reader, native_record) op"
    by (simp add: fun_eq_iff)
  show ?thesis
    unfolding read_record_def 1(1) small_ucast lift 2(1) if_not_P[OF zero_neq_one[symmetric]] 3 ucast_byte ..
qed

lemma skippable_header:
  assumes c: "c < 64" "slot < 16" and known: "unmapped_record_length slot c = Some (length sk)"
    and header: "take 11 (raw_bits sk (8 * length sk)) = header_image c slot 0"
    and unmapped: "dec (routed c slot) = fail (UnmappedNativeRoute slot c)"
  shows "skippable dec sk"
proof -
  have "read_front dec (take k (sk @ rest)) = Inl (UnmappedNativeRoute slot c)"
    if k: "2 \<le> k" and small: "length (sk @ rest) < 2 ^ 59" for k rest
  proof -
    let ?data = "take k (sk @ rest)"
    have "length ?data < 2 ^ 59"
      using small by simp
    then obtain r where r: "reader_new ?data None = Inr r" "wf_reader r" "rposition r = 0" "rbits r = raw_bits ?data (8 * length ?data)"
      by (rule whole_reader)
    have sk: "2 \<le> length sk"
      using known by (auto simp: unmapped_record_length_def split: if_split_asm)
    have "raw_bits (sk @ rest) (8 * length (sk @ rest)) = raw_bits ?data (8 * length ?data) @ raw_bits (drop k (sk @ rest)) (8 * length (drop k (sk @ rest)))"
      using raw_bits_append[of ?data "drop k (sk @ rest)"] unfolding append_take_drop_id .
    moreover have "11 \<le> length (raw_bits ?data (8 * length ?data))"
      using k sk by simp
    ultimately have "take 11 (raw_bits ?data (8 * length ?data)) = take 11 (raw_bits (sk @ rest) (8 * length (sk @ rest)))"
      by simp
    also have "\<dots> = header_image c slot 0"
      using header sk unfolding raw_bits_append by simp
    finally have "rbits r = header_image c slot 0 @ drop 11 (rbits r)"
      unfolding r(4) by (metis append_take_drop_id)
    then have "read_record dec r = decode_service_record dec c slot (advance 11 r)"
      by (rule read_routed[OF c r(2,3)])
    also have "fst \<dots> = Inl (UnmappedNativeRoute slot c)"
      using r(3) unmapped by (simp add: decode_service_record_def Let_def)
    finally show ?thesis
      using r(1) by (simp add: read_front_def)
  qed
  then show ?thesis
    using known unfolding skippable_def by blast
qed

section \<open>Command responses\<close>

lemma fits_result: "c < 512 \<Longrightarrow> fits 9 (ucast (c :: u16))"
  by (simp add: fits_unat unat_ucast_64 word_less_nat_alt)

definition response_record :: "u8 \<Rightarrow> u16 \<Rightarrow> native_record" where
  "response_record c code = \<lparr>rec_header = \<lparr>command_id = c, service_slot = None, header_bit_count = 7\<rparr>, rec_type_id = 0,
     rec_value = CommandResponse \<lparr>cr_command_id = c, cr_result = code\<rparr>, rec_payload_bit_count = 9, rec_byte_count = 2\<rparr>"

lemma parses_response:
  assumes c: "c < 64" "code < 512"
  shows "parses_at 0 (read_record dec) (response_record c code) (field 6 (ucast c) 0 @ field 1 0 6 @ field 9 (ucast code) 7)"
proof -
  have small: "small 16 (ucast code :: u64) = Inr (ucast code)"
    by (simp add: small_def unat_ucast_64 word16_less)
  have "parses_at 0 (read_record dec) (response_record c code) (field 6 (ucast c) 0 @ field 1 0 6 @ field 9 (ucast code) 7 @ [])"
    unfolding read_record_def
    apply (rule parses_at_bits, rule fits_route(1)[OF c(1)], simp)
    apply (rule parses_at_lift[OF small_ucast])
    apply (rule parses_at_bits, simp, simp)
    unfolding if_P[OF refl] decode_command_response_def
    apply (rule parses_at_gets)
    apply (rule parses_at_bits, rule fits_result[OF c(2)], simp)
    apply (rule parses_at_lift[OF small])
    apply (rule parses_at_gets)
    using parses_at_ret[of 16 "response_record c code"]
    by (simp add: response_record_def ucast_byte ucast_roundtrip div_ceil_def del: ret_apply)
  then show ?thesis by simp
qed

lemma command_response_written: "command_response_bytes c code body = written (seqM
    [write_bits (ucast c) 6, write_bits 0 1, write_bits (ucast code) 9, if body \<noteq> [] then write_bytes body False else ret ()])"
  unfolding command_response_bytes_def written_def ..

lemma response_crosses:
  assumes "c < 64" and "code < 512"
  shows "\<exists>bs. command_response_bytes c code [] = Inr bs \<and> crosses dec bs (response_record c code)"
proof -
  let ?img = "then_bits (field 6 (ucast c)) (then_bits (field 1 0) (then_bits (field 9 (ucast code)) (then_bits nothing nothing)))"
  have len: "length (field n v p) = n" for n v p
    by (simp add: field_def)
  have "emits (seqM [write_bits (ucast c) 6, write_bits 0 1, write_bits (ucast code) 9, if ([] :: bytes) \<noteq> [] then write_bytes [] False else ret ()]) ?img"
    using assms by (intro emits_seq_Cons emits_seq_Nil emits_write_bits) (simp_all add: fits_route fits_result emits_ret del: ret_apply)
  from written_image[OF this, folded command_response_written] obtain bs where bs: "command_response_bytes c code [] = Inr bs"
      "raw_bits bs (8 * length bs) = ?img 0 @ replicate (align_skip (length (?img 0))) False" "length bs = div_ceil (length (?img 0)) 8"
    by blast
  have img: "?img 0 = field 6 (ucast c) 0 @ field 1 0 6 @ field 9 (ucast code) 7"
    by (simp add: then_bits_def len nothing_def)
  have "raw_bits bs (8 * length bs) = field 6 (ucast c) 0 @ field 1 0 6 @ field 9 (ucast code) 7"
    unfolding bs(2) img by (simp add: len align_skip_eq)
  moreover have "length bs = 2"
    unfolding bs(3) img by (simp add: len div_ceil_def)
  ultimately have "crosses dec bs (response_record c code)"
    using parses_response[OF assms] by (intro parses_crosses) (simp_all add: response_record_def)
  then show ?thesis
    using bs(1) by blast
qed

end
