(* ===== verification/Layout_Laws.thy ===== *)
theory Layout_Laws
  imports Wire_Layout Codec_Safety "HOL-Library.Code_Target_Nat"
begin

text \<open>
  What holds of the registered layouts: the tables are permutations, the registration keeps the codec
  well-formed and registers no code but the three layouts, and those satisfy what the laws of the codec ask
  of custom code.
\<close>

section \<open>The table of the code\<close>

lemma layout_program_simps [simp]:
  "run_encode (layout_program B d) = (\<lambda>code n. layout_encode code)"
  "run_decode (layout_program B (Suc d)) = (\<lambda>code n c tid. layout_decode code (decode_from (layout_program B d) n c) c tid)"
  "run_decode_traced (layout_program B (Suc d)) = (\<lambda>code n c tid path depth.
     layout_decode_traced B code (decode_from (layout_program B d) n c) c tid path depth)"
  "max_capacity (layout_program B d) = max_capacity B"
  by (cases d; simp)+

text \<open>The layouts that are code are inbound, so whatever they could encode is decoded.\<close>

lemma layout_program_lawful: "lawful_program (layout_program B d) c nf"
  by (simp add: lawful_program_def layout_encode_def)

text \<open>The only code a codec of this protocol refers to.\<close>

definition native_layouts :: "codec \<Rightarrow> bool" where
  "native_layouts c \<longleftrightarrow> (\<forall>tid layout. wire_layouts c tid = Some (CustomLayout layout) \<longrightarrow>
     wl_decode layout \<in> {CLUB_SUMMARY_CODE, CLUB_USER_TEXT_CODE, CATEGORY_CODE}
     \<and> wl_decode_traced layout = Some (wl_decode layout))"

lemma native_layoutsD:
  "native_layouts c \<Longrightarrow> wire_layouts c tid = Some (CustomLayout layout) \<Longrightarrow>
    (wl_decode layout = CLUB_SUMMARY_CODE \<or> wl_decode layout = CLUB_USER_TEXT_CODE \<or> wl_decode layout = CATEGORY_CODE)
    \<and> wl_decode_traced layout = Some (wl_decode layout)"
  by (auto simp: native_layouts_def)

section \<open>What the layouts have read\<close>

lemma read_club_field_Inr:
  assumes "read_club_field dec c root position fs r = (Inr fs', r')"
  shows "\<exists>sh v start stop. schema_shape (cschema c) root = Inr sh \<and> position < length (member_types sh)
    \<and> fs' = fs @ [(position, v, start, stop)]"
  using assms by (auto simp: read_club_field_def bindM_Inr_iff get_at_Some)

lemma read_club_fields_Inr:
  assumes "read_club_fields dec c root positions fs r = (Inr fs', r')"
  shows "map fst fs' = map fst fs @ positions
    \<and> (positions \<noteq> [] \<longrightarrow> (\<exists>sh. schema_shape (cschema c) root = Inr sh \<and> (\<forall>p \<in> set positions. p < length (member_types sh))))"
  using assms unfolding read_club_fields_def
proof (induction positions arbitrary: fs r)
  case (Cons p ps)
  obtain fs1 r1 where 1: "read_club_field dec c root p fs r = (Inr fs1, r1)"
      "loopM ps (read_club_field dec c root) fs1 r1 = (Inr fs', r')"
    using Cons.prems by (auto simp: bindM_Inr_iff)
  show ?case
    using read_club_field_Inr[OF 1(1)] Cons.IH[OF 1(2)] by auto
qed simp

lemma read_placed_Inr: "read_placed p m fs r = (Inr fs', r') \<Longrightarrow> map fst fs' = map fst fs @ [p]"
  by (auto simp: read_placed_def bindM_Inr_iff)

text \<open>All positions a layout fills are positions of the type, the name and the tag that it reads itself included.\<close>

definition placed_in :: "codec \<Rightarrow> u32 \<Rightarrow> layout_values \<Rightarrow> bool" where
  "placed_in c root vals \<longleftrightarrow> (\<exists>sh. schema_shape (cschema c) root = Inr sh
     \<and> (\<forall>p \<in> set (map fst (lv_fields vals)). p < length (member_types sh)))"

lemma read_club_summary_info_placed:
  assumes "read_club_summary_info dec c root r = (Inr vals, r')"
  shows "placed_in c root vals"
proof -
  obtain fs1 fs2 fs3 fs4 fs5 r1 r2 r3 r4 r5 r6 r7 where
    1: "read_club_fields dec c root [6, 10, 0, 5] [] r = (Inr fs1, r1)" and
    2: "read_placed 2 (bindM (read_generated_string 8 32) (\<lambda>s. ret (Str s))) fs1 r1 = (Inr fs2, r2)" and
    3: "read_club_fields dec c root [9, 7, 4, 1, 11] fs2 r3 = (Inr fs3, r4)" and
    4: "read_placed 3 read_club_tag fs3 r4 = (Inr fs4, r5)" and
    5: "read_club_field dec c root 8 fs4 r6 = (Inr fs5, r7)" and
    v: "lv_fields vals = fs5"
    using assms by (auto simp: read_club_summary_info_def bindM_Inr_iff)
  obtain sh where sh: "schema_shape (cschema c) root = Inr sh" and "\<forall>p \<in> {9, 7, 4, 1, 11}. p < length (member_types sh)"
    using read_club_fields_Inr[OF 3] by auto
  then have "11 < length (member_types sh)"
    by simp
  moreover have "map fst fs5 = [6, 10, 0, 5, 2, 9, 7, 4, 1, 11, 3, 8]"
    using read_club_fields_Inr[OF 1] read_placed_Inr[OF 2] read_club_fields_Inr[OF 3] read_placed_Inr[OF 4]
      read_club_field_Inr[OF 5] by auto
  ultimately show ?thesis
    using sh v by (simp add: placed_in_def del: set_map length_greater_0_conv)
qed

lemma read_club_user_text_placed:
  assumes "read_club_user_text dec c root r = (Inr vals, r')"
  shows "placed_in c root vals"
proof -
  obtain fs1 fs2 fs3 r1 r2 r3 where
    1: "read_club_fields dec c root [0, 3] [] r = (Inr fs1, r1)" and
    2: "read_placed 2 (bindM (read_generated_string 13 4096) (\<lambda>s. ret (Str s))) fs1 r1 = (Inr fs2, r2)" and
    3: "read_club_field dec c root 1 fs2 r2 = (Inr fs3, r3)" and
    v: "lv_fields vals = fs3"
    using assms by (auto simp: read_club_user_text_def bindM_Inr_iff)
  obtain sh where sh: "schema_shape (cschema c) root = Inr sh" and "\<forall>p \<in> {0, 3}. p < length (member_types sh)"
    using read_club_fields_Inr[OF 1] by auto
  then have "3 < length (member_types sh)"
    by simp
  moreover have "map fst fs3 = [0, 3, 2, 1]"
    using read_club_fields_Inr[OF 1] read_placed_Inr[OF 2] read_club_field_Inr[OF 3] by auto
  ultimately show ?thesis
    using sh v by (simp add: placed_in_def del: set_map length_greater_0_conv)
qed

section \<open>Tracing\<close>

text \<open>On a shape with a name slot for each member the trace is built whenever the value is.\<close>

lemma trace_part_ok:
  "p < length (member_names sh) \<Longrightarrow> \<exists>f. trace_part B path depth sh (p, v, start, stop) = Inr f"
  by (simp add: trace_part_def get_at_def)

lemma rmap_total: "\<forall>x \<in> set xs. \<exists>y. f x = Inr y \<Longrightarrow> \<exists>ys. rmap f xs = Inr ys"
  by (induction xs) auto

lemma shape_of: "wf_codec c \<Longrightarrow> schema_shape (cschema c) tid = Inr sh \<Longrightarrow> wf_shape sh"
  by (simp add: wf_codec_def wf_schema_def)

lemma trace_values_value:
  assumes "wf_codec c" and "placed_in c root vals"
  shows "\<exists>g. trace_values B c root path depth vals = rbind (build_struct c root (lv_fields vals)) (\<lambda>v. Inr (v, g))"
proof -
  obtain sh where sh: "schema_shape (cschema c) root = Inr sh"
      "\<forall>p \<in> set (map fst (lv_fields vals)). p < length (member_types sh)"
    using assms(2) by (auto simp: placed_in_def)
  have "\<forall>x \<in> set (lv_fields vals). \<exists>y. trace_part B path depth sh x = Inr y"
  proof
    fix x assume x: "x \<in> set (lv_fields vals)"
    obtain p v start stop where p: "x = (p, v, start, stop)"
      by (cases x)
    then have "p < length (member_types sh)"
      using sh(2) x by force
    then show "\<exists>y. trace_part B path depth sh x = Inr y"
      unfolding p using wf_shape_lengths[OF shape_of[OF assms(1) sh(1)]] by (intro trace_part_ok) simp
  qed
  then obtain parts where "rmap (trace_part B path depth sh) (lv_fields vals) = Inr parts"
    using rmap_total by blast
  then show ?thesis
    using sh(1) by (auto simp: trace_values_def)
qed

lemma layout_traces_agree:
  assumes "wf_codec c" and "native_layouts c"
  shows "traces_agree (layout_program B d) c"
proof -
  have parts: "bindM (bindM m (\<lambda>vals. liftR (trace_values B c root path depth vals))) (\<lambda>(v, fs). ret v)
      = bindM m (\<lambda>vals. liftR (build_struct c root (lv_fields vals)))"
    if placed: "\<And>r vals r'. m r = (Inr vals, r') \<Longrightarrow> placed_in c root vals" for m :: "(reader, layout_values) op" and root path depth
  proof
    fix r
    show "bindM (bindM m (\<lambda>vals. liftR (trace_values B c root path depth vals))) (\<lambda>(v, fs). ret v) r
      = bindM m (\<lambda>vals. liftR (build_struct c root (lv_fields vals))) r"
    proof (cases "m r")
      case (Pair v r')
      show ?thesis
      proof (cases v)
        case (Inr vals)
        obtain g where "trace_values B c root path depth vals = rbind (build_struct c root (lv_fields vals)) (\<lambda>v. Inr (v, g))"
          using trace_values_value[OF assms(1) placed] Pair Inr by blast
        then show ?thesis
          using Pair Inr by (cases "build_struct c root (lv_fields vals)") (simp_all add: bindM_def)
      qed (simp add: Pair bindM_def)
    qed
  qed
  have category: "bindM (decode_category_description_traced c root path depth) (\<lambda>(v, fs). ret v) = decode_category_description c root"
    for root path depth
    by (auto simp: decode_category_description_traced_def decode_category_description_def bindM_def fun_eq_iff
        split: prod.split sum.split)
  have "bindM (layout_decode_traced B code dec c root path depth) (\<lambda>(v, fs). ret v) = layout_decode code dec c root" for code dec root path depth
    unfolding layout_decode_traced_def layout_decode_def
    using parts[OF read_club_summary_info_placed] parts[OF read_club_user_text_placed] category
    by (auto simp: decode_club_summary_info_traced_def decode_club_summary_info_def decode_club_user_text_traced_def
        decode_club_user_text_def fun_eq_iff bindM_def)
  moreover have "bindM (fail StackOverflow) (\<lambda>(v, fs). ret v) = (fail StackOverflow :: (reader, bsn_value) op)"
    by (simp add: fun_eq_iff bindM_def)
  ultimately show ?thesis
    using native_layoutsD[OF assms(2)]
    by (cases d) (auto simp: traces_agree_def)
qed

end
