(* ===== verification/Record_Routes.thy ===== *)
theory Record_Routes
  imports Record_Laws Decode_Join Decode_Presence
begin

text \<open>
  The routes of the native protocol on which both ends are in this program: the server side's answer is what
  the client's decoder reads.  The contract of such a route is a locale, interpreted on every pair of an
  answer of \<open>protocol.rs\<close> and a decoder of \<open>decode.rs\<close>.
\<close>

section \<open>The contract\<close>

lemma bounded_below: "bounded (2 ^ 59) i \<Longrightarrow> length (i p) < 2 ^ 60"
  unfolding bounded_def by (rule le_less_trans[of _ "2 ^ 59"]) simp_all

locale record_route =
  fixes enc :: "'a \<Rightarrow> (writer, unit) op" and dec :: "(reader, payload) op" and view :: "'a \<Rightarrow> payload"
    and canon :: "'a \<Rightarrow> bool" and image :: "'a \<Rightarrow> image"
  assumes body_emitted: "canon v \<Longrightarrow> emits (enc v) (image v)"
    and body_parsed: "canon v \<Longrightarrow> parses dec (view v) (image v)"
    and body_small: "canon v \<Longrightarrow> bounded (2 ^ 59) (image v)"
begin

lemma delivered:
  assumes "canon v" and "c < 64" "s < 16" and route: "decs (routed c s) = bindM dec (\<lambda>p. ret (tid, p))"
  shows "\<exists>bs. record_bytes c s (enc v) = Inr bs \<and> crosses decs bs (routed_record c s tid (view v) (length (image v 11)))"
proof -
  have "parses (decs (routed c s)) (tid, view v) (image v)"
    unfolding route using parses_bind[OF body_parsed[OF assms(1)] parses_ret, of "\<lambda>p. (tid, p)"]
    by (simp del: ret_apply)
  then show ?thesis
    using record_crosses[where dec = decs, OF assms(2,3) body_emitted[OF assms(1)]] bounded_below[OF body_small[OF assms(1)]]
    by blast
qed

lemma encoded:
  assumes "canon v" and "c < 64" "s < 16"
  obtains bs where "record_bytes c s (enc v) = Inr bs"
  using record_bytes_image[OF assms(2,3) body_emitted[OF assms(1)]] by blast

end

section \<open>Reading along a plain decoder\<close>

lemma yields_read_u32:
  "fits n (ucast w) \<Longrightarrow> yields (read_u32 n) (\<lambda>x. x = w) (field n (ucast w))"
  unfolding read_u32_def by (rule yields_map[OF yields_read_bits, where g = ucast])
    (simp_all add: unat_ucast_64 ucast_roundtrip word32_less)

lemma yields_read_u16:
  "fits n (ucast w) \<Longrightarrow> yields (read_u16 n) (\<lambda>x. x = w) (field n (ucast w))"
  unfolding read_u16_def by (rule yields_map[OF yields_read_bits, where g = ucast])
    (simp_all add: unat_ucast_64 ucast_roundtrip word16_less)

lemma yields_read_u8:
  "fits n (ucast w) \<Longrightarrow> yields (read_u8 n) (\<lambda>x. x = w) (field n (ucast w))"
  unfolding read_u8_def by (rule yields_map[OF yields_read_bits, where g = ucast])
    (simp_all add: unat_ucast_64 ucast_roundtrip word8_less)

lemma yields_unset: "b = 0 \<Longrightarrow> yields (f None) Q i \<Longrightarrow> yields (bindM (when_set b m) f) Q i"
  by (auto simp: when_set_def yields_def)

lemma yields_skip_if: "\<not> c \<Longrightarrow> yields (f x) Q i \<Longrightarrow> yields (bindM (if c then m else ret x) f) Q i"
  by (auto simp: yields_def)

lemma yields_unless_set: "\<not> c \<Longrightarrow> yields m' Q i \<Longrightarrow> yields (if c then m else m') Q i"
  by simp

lemma yields_then: "c \<Longrightarrow> yields m Q i \<Longrightarrow> yields (if c then m else m') Q i"
  by simp

lemmas along_plain = yields_unset yields_read_u32 yields_read_u16 yields_read_u8 along_code

lemma yields_dp: "yields m (\<lambda>d. dp_payload d = v) i \<Longrightarrow> parses (payload_of m) v i"
  by (rule parses_payload_of)

lemma dp_custom [simp]: "dp_payload (custom_payload p fs k sm a b) = p"
  by (simp add: custom_payload_def)


section \<open>Chat channels\<close>

definition channel_image :: "u8 \<times> u16 \<times> u16 \<Rightarrow> image" where
  "channel_image = (\<lambda>(k, i, d). images [field 8 (ucast k), field 16 (ucast i), field 24 0, field 16 (ucast d)])"

definition channels_image :: "(u8 \<times> u16 \<times> u16) list \<Rightarrow> image" where
  "channels_image es = images
     [field 27 0, field 1 0, field 9 0, field 6 (count_u64 (length es)), images (map channel_image es)]"

definition channel_of :: "u8 \<times> u16 \<times> u16 \<Rightarrow> channel_descriptor" where
  "channel_of = (\<lambda>(k, i, d). \<lparr>chd_kind = k, chd_index = i, chd_identifier = d\<rparr>)"

lemma yields_channel_item: "yields (channel_item n) (\<lambda>d. fst d = channel_of x) (channel_image x)"
  unfolding channel_item_def channel_image_def channel_of_def Let_def
  by (cases x, simp only: prod.case images.simps) (rule along_code | simp add: fits_ucast_word)+

text \<open>The rules in the order in which they are tried along the code of a writer.\<close>

lemmas along_writer = emits_seq_Nil emits_seq_Cons emits_write_bits emits_write_bytes emits_loop

lemma emits_channel: "emits ((\<lambda>(k, i, d) _. seqM [write_bits (ucast k) 8, write_bits (ucast i) 16, write_bits 0 24,
    write_bits (ucast d) 16]) x ()) (channel_image x)"
  unfolding channel_image_def
  by (cases x, simp only: prod.case images.simps) (rule along_writer | simp add: fits_ucast_word)+

lemma bounded_channel: "bounded (8 + (16 + (24 + (16 + 0)))) (channel_image x)"
  unfolding channel_image_def by (cases x, simp only: prod.case images.simps) (intro bounded_rules)

interpretation channels: record_route write_channels decode_channel_list
  "\<lambda>es. ChannelList \<lparr>cl_entries = map channel_of es\<rparr>" "\<lambda>es. length es < 64" channels_image
proof
  fix es :: "(u8 \<times> u16 \<times> u16) list" assume es: "length es < 64"
  show "emits (write_channels es) (channels_image es)"
    unfolding write_channels_def channels_image_def images.simps
    using es by (intro along_writer emits_channel) (simp_all add: fits_count)
  show "parses decode_channel_list (ChannelList \<lparr>cl_entries = map channel_of es\<rparr>) (channels_image es)"
    unfolding decode_channel_list_def channels_image_def images.simps channel_list_with_provenance_def
    using es
    by (intro parses_payload_of)
      (rule along_code yields_items yields_channel_item fits_count | simp add: unat_count)+
  show "bounded (2 ^ 59) (channels_image es)"
    unfolding channels_image_def images.simps
    by (rule bounded_mono, (rule bounded_rules bounded_items bounded_channel)+) (use es in simp)
qed

section \<open>Conferences\<close>

definition member_count_image :: "u32 \<times> u16 \<times> bool \<Rightarrow> image" where
  "member_count_image = (\<lambda>(c, n, full). images [field 23 0, field 32 (ucast c), field 16 (ucast n), field 1 (flag full)])"

definition member_counts_image :: "(u32 \<times> u16 \<times> bool) list \<times> bool \<Rightarrow> image" where
  "member_counts_image = (\<lambda>(es, is_last). images
     [field 1 (flag is_last), field 27 0, field 1 0, field 6 (count_u64 (length es)), images (map member_count_image es)])"

definition member_count_of :: "u32 \<times> u16 \<times> bool \<Rightarrow> conference_member_count" where
  "member_count_of = (\<lambda>(c, n, full). \<lparr>cmc_conference_id = c, cmc_members = n, cmc_full = full\<rparr>)"

lemma fits_small [simp]: "1 \<le> n \<Longrightarrow> n \<le> 64 \<Longrightarrow> fits n 1"
  using one_less_power[of "2 :: nat" n] by (simp add: fits_unat)

lemma flag_set [simp]: "flag b \<noteq> 0 \<longleftrightarrow> b" "flag b = 0 \<longleftrightarrow> \<not> b"
  by (cases b; simp)+

lemma yields_member_count: "yields (member_count_item n) (\<lambda>d. fst d = member_count_of x) (member_count_image x)"
  unfolding member_count_item_def member_count_image_def member_count_of_def Let_def
  by (cases x, simp only: prod.case images.simps) (rule along_code | simp add: fits_ucast_word)+

lemma emits_member_count: "emits ((\<lambda>(c, n, full) _. seqM [write_bits 0 23, write_bits (ucast c) 32, write_bits (ucast n) 16,
    write_bits (flag full) 1]) x ()) (member_count_image x)"
  unfolding member_count_image_def
  by (cases x, simp only: prod.case images.simps) (rule along_writer | simp add: fits_ucast_word)+

lemma bounded_member_count: "bounded (23 + (32 + (16 + (1 + 0)))) (member_count_image x)"
  unfolding member_count_image_def by (cases x, simp only: prod.case images.simps) (rule bounded_rules)+

interpretation member_counts: record_route "\<lambda>(es, is_last). write_member_counts es is_last" decode_conference_member_counts
  "\<lambda>(es, is_last). ConferenceMemberCounts \<lparr>cmcs_entries = map member_count_of es, cmcs_is_last = is_last, cmcs_sampled_at = None\<rparr>"
  "\<lambda>(es, is_last). length es < 64" member_counts_image
proof
  fix v :: "(u32 \<times> u16 \<times> bool) list \<times> bool"
  obtain es is_last where v: "v = (es, is_last)" by (cases v)
  assume "case v of (es, is_last) \<Rightarrow> length es < 64"
  then have es: "length es < 64" by (simp add: v)
  show "emits (case v of (es, is_last) \<Rightarrow> write_member_counts es is_last) (member_counts_image v)"
    unfolding v write_member_counts_def member_counts_image_def images.simps prod.case
    using es by (intro along_writer emits_member_count) (simp_all add: fits_count)
  show "parses decode_conference_member_counts (case v of (es, is_last) \<Rightarrow> ConferenceMemberCounts
      \<lparr>cmcs_entries = map member_count_of es, cmcs_is_last = is_last, cmcs_sampled_at = None\<rparr>) (member_counts_image v)"
    unfolding v decode_conference_member_counts_def member_counts_image_def images.simps conference_member_counts_with_provenance_def prod.case
    using es
    by (intro parses_payload_of)
      (rule along_plain yields_items yields_member_count fits_count | simp add: unat_count)+
  show "bounded (2 ^ 59) (member_counts_image v)"
    unfolding v member_counts_image_def images.simps prod.case
    by (rule bounded_mono, (rule bounded_rules bounded_items bounded_member_count)+) (use es in simp)
qed

definition no_descriptions_image :: "bool \<Rightarrow> image" where
  "no_descriptions_image is_last = images [field 1 (flag is_last), field 6 0]"

lemma yields_no_items: "n = 0 \<Longrightarrow> yields (f ([], [])) Q i \<Longrightarrow> yields (bindM (read_items n item) f) Q i"
  by (auto simp: read_items_def yields_def)

interpretation descriptions: record_route "\<lambda>is_last. seqM [write_bits (flag is_last) 1, write_bits 0 6]"
  decode_conference_descriptions "\<lambda>is_last. ConferenceDescriptions \<lparr>cds_entries = [], cds_is_last = is_last\<rparr>"
  "\<lambda>_. True" no_descriptions_image
proof
  fix is_last
  show "emits (seqM [write_bits (flag is_last) 1, write_bits 0 6]) (no_descriptions_image is_last)"
    unfolding no_descriptions_image_def images.simps by (intro along_writer) simp_all
  show "parses decode_conference_descriptions (ConferenceDescriptions \<lparr>cds_entries = [], cds_is_last = is_last\<rparr>)
      (no_descriptions_image is_last)"
    unfolding decode_conference_descriptions_def no_descriptions_image_def images.simps conference_descriptions_with_provenance_def
    by (intro parses_payload_of) (rule yields_no_items along_code | simp)+
  show "bounded (2 ^ 59) (no_descriptions_image is_last)"
    unfolding no_descriptions_image_def images.simps by (rule bounded_mono, (rule bounded_rules)+) simp
qed

section \<open>Joining\<close>

definition join_image :: "u8 \<times> u32 \<times> u8 \<Rightarrow> image" where
  "join_image = (\<lambda>(i, h, t). images [field 1 0, field 32 (ucast h), field 3 (ucast i), field 32 0, field 32 0,
     field 4 (ucast t), field 1 0, field 1 0, field 1 0, field 1 0])"

interpretation joins: record_route "\<lambda>(i, h, t). write_join_result i h t" decode_chat_join
  "\<lambda>(i, h, t). joined h i t None None None" "\<lambda>(i, h, t). unat i < 7 \<and> unat t < 16" join_image
proof
  fix v :: "u8 \<times> u32 \<times> u8"
  obtain i h t where v: "v = (i, h, t)" by (cases v)
  assume "case v of (i, h, t) \<Rightarrow> unat i < 7 \<and> unat t < 16"
  then have it: "unat i < 7" "fits 3 (ucast i)" "fits 4 (ucast t)"
    by (auto simp: v intro!: fits_ucast)
  show "emits (case v of (i, h, t) \<Rightarrow> write_join_result i h t) (join_image v)"
    unfolding v write_join_result_def join_image_def images.simps prod.case
    using it by (intro along_writer) (simp_all add: fits_ucast_word)
  show "parses decode_chat_join (case v of (i, h, t) \<Rightarrow> joined h i t None None None) (join_image v)"
    unfolding v decode_chat_join_def chat_join_accepted_def join_image_def images.simps prod.case
    using it
    by (intro yields_parses) (rule yields_then along_plain | simp add: fits_ucast_word CHANNEL_INDEX_COUNT_def)+
  show "bounded (2 ^ 59) (join_image v)"
    unfolding v join_image_def images.simps prod.case by (rule bounded_mono, (rule bounded_rules)+) simp
qed

section \<open>Presence\<close>

lemma yields_read_bytes: "n = length d \<Longrightarrow> n < 2 ^ 59 \<Longrightarrow> yields (read_bytes n aligned) (\<lambda>x. x = d) (bytes_image aligned d)"
  using parses_yields[OF parses_read_bytes[of d aligned]] by simp

lemma bounded_bytes: "bounded (7 + 8 * length d) (bytes_image aligned d)"
  by (auto simp: bounded_def bytes_image_def image_defs align_skip_eq)

lemma yields_integer_item: "fits ib x \<Longrightarrow> yields (integer_item path ib k n) (\<lambda>d. fst d = x) (field ib x)"
  unfolding integer_item_def by (rule yields_map[OF yields_spanned_u64]) auto

definition array_image :: "nat \<Rightarrow> nat \<Rightarrow> u64 list \<Rightarrow> image" where
  "array_image cb ib xs = then_bits (field cb (count_u64 (length xs))) (images (map (field ib) xs))"

lemma yields_integer_array:
  assumes "length xs < 2 ^ cb" and "cb < 64" and "\<forall>x \<in> set xs. fits ib x"
  shows "yields (trace_integer_array path cb ib k) (\<lambda>d. fst d = xs) (array_image cb ib xs)"
proof -
  have n: "unat (count_u64 (length xs)) = length xs"
    using less_le_trans[OF assms(1) power_increasing[of cb 64]] assms(2) by (simp add: unat_count)
  have items: "yields (read_items (length xs) (integer_item path ib k)) (\<lambda>d. fst d = map (\<lambda>x. x) xs) (images (map (field ib) xs))"
    using assms(3) by (intro yields_items yields_integer_item) auto
  have "yields (trace_integer_array path cb ib k) (\<lambda>d. fst d = xs)
      (then_bits (field cb (count_u64 (length xs))) (then_bits (images (map (field ib) xs)) nothing))"
    unfolding trace_integer_array_def
  proof (rule yields_gets, rule yields_bind[OF yields_spanned_usize[OF fits_count[OF assms(1,2)]]], unfold n)
    fix p and count :: "nat spanned_value" assume "sv_value count = length xs"
    then show "yields (bindM (read_items (sv_value count) (integer_item path ib k)) (\<lambda>(xs, fs). bindM here_bit (\<lambda>stop.
        ret (xs, [spanned_field decimal_nat (ascii path @ ascii ''.count'') ''array length'' count 2] @ fs @
          [array_field path (length xs) p stop])))) (\<lambda>d. fst d = xs) (then_bits (images (map (field ib) xs)) nothing)"
      using items by (simp only:) (rule yields_bind, assumption, auto intro!: yields_gets yields_ret simp del: ret_apply)
  qed
  then show ?thesis by (simp add: array_image_def)
qed

definition presence_image :: "u32 \<times> u32 \<times> bool \<Rightarrow> image" where
  "presence_image = (\<lambda>(i, h, online). images
     [field 19 0, field 1 (flag (\<not> online)), field 32 (ucast i), field 32 (ucast i), field 11 0, bytes_image True [],
      field 11 0, field 4 0, field 4 1, field 32 (ucast h), field 4 0, field 1 0, field 8 0])"

lemma presence_image_arrays: "presence_image (i, h, online) = images
     [field 19 0, field 1 (flag (\<not> online)), field 32 (ucast i), field 32 (ucast i), field 11 0, bytes_image True [],
      field 11 0, array_image 4 32 [], array_image 4 32 [ucast h], array_image 4 16 [], field 1 0, field 8 0]"
  by (simp add: presence_image_def array_image_def then_bits_assoc count_u64_def)

definition presence_of :: "u32 \<times> u32 \<times> bool \<Rightarrow> payload" where
  "presence_of = (\<lambda>(i, h, online). PresenceUpdate \<lparr>pu_local_presence_id = i, pu_master_presence_id = i, pu_field_data = [],
     pu_cleared_handles = [], pu_handles = [h], pu_variable_sizes = [], pu_online = online\<rparr>)"

lemma yields_no_target: "yields optional_target (\<lambda>x. x = ascii ''none'') (field 1 0)"
proof -
  have "yields optional_target (\<lambda>x. x = ascii ''none'') (then_bits (field 1 0) nothing)"
    unfolding optional_target_def by (rule yields_unless_set along_code | simp)+
  then show ?thesis by simp
qed

interpretation presences: record_route "\<lambda>(i, h, online). write_presence_update i h online" decode_presence_update
  presence_of "\<lambda>_. True" presence_image
proof
  fix v :: "u32 \<times> u32 \<times> bool"
  obtain i h online where v: "v = (i, h, online)" by (cases v)
  show "emits (case v of (i, h, online) \<Rightarrow> write_presence_update i h online) (presence_image v)"
    unfolding v write_presence_update_def presence_image_def images.simps prod.case
    by (intro along_writer) (simp_all add: fits_ucast_word)
  show "parses decode_presence_update (presence_of v) (presence_image v)"
    unfolding v decode_presence_update_def presence_of_def presence_image_arrays prod.case presence_update_with_provenance_def
      images.simps
    by (intro parses_payload_of)
      (rule yields_integer_array yields_read_bytes yields_no_target along_code
        | simp add: fits_ucast_word expect_words_def unat_ucast_64 ucast_roundtrip word32_less)+
  show "bounded (2 ^ 59) (presence_image v)"
    unfolding v presence_image_def images.simps prod.case
    by (rule bounded_mono, (rule bounded_rules bounded_bytes)+) simp
qed

section \<open>The dictionary of presence fields\<close>

definition presence_field_image :: "presence_field \<Rightarrow> image" where
  "presence_field_image f = images
     [field 1 (flag (flag_set (pf_flags f) FLAG_CLIENT_ONLY)), field 1 (flag (flag_set (pf_flags f) FLAG_WRITABLE)),
      field 1 (flag (flag_set (pf_flags f) FLAG_EPHEMERAL)),
      (case pf_fixed_size f of None \<Rightarrow> field 1 1 | Some n \<Rightarrow> then_bits (field 1 0) (field 16 (ucast n))),
      field 1 (flag (flag_set (pf_flags f) FLAG_SERVER_ONLY)), field 8 (ucast (pf_identifier f)), field 32 (ucast (pf_handle f))]"

definition known_field :: "presence_field \<Rightarrow> bool" where
  "known_field f \<longleftrightarrow> flags_from_bits (pf_flags f) = pf_flags f \<and> (unat (pf_identifier f) \<le> 25 \<or> pf_identifier f = 255)"

definition presence_fields_image :: "presence_field list \<Rightarrow> image" where
  "presence_fields_image fs = images [field 7 (count_u64 (length fs)), images (map presence_field_image fs)]"

lemma emits_presence_field: "emits (write_presence_field f) (presence_field_image f)"
proof -
  have size: "emits (case pf_fixed_size f of None \<Rightarrow> write_bits 1 1 | Some n \<Rightarrow> seqM [write_bits 0 1, write_bits (ucast n) 16])
      (case pf_fixed_size f of None \<Rightarrow> field 1 1 | Some n \<Rightarrow> then_bits (field 1 0) (field 16 (ucast n)))"
  proof (cases "pf_fixed_size f")
    case (Some n)
    have "emits (seqM [write_bits 0 1, write_bits (ucast n) 16]) (then_bits (field 1 0) (then_bits (field 16 (ucast n)) nothing))"
      by (intro along_writer) (simp_all add: fits_ucast_word)
    then show ?thesis by (simp add: Some)
  qed (simp add: emits_write_bits)
  show ?thesis
    unfolding write_presence_field_def presence_field_image_def images.simps
    by (intro along_writer size) (simp_all add: fits_ucast_word)
qed

lemma bounded_presence_field: "bounded (1 + (1 + (1 + (17 + (1 + (8 + (32 + 0))))))) (presence_field_image f)"
proof -
  have "bounded 17 (case pf_fixed_size f of None \<Rightarrow> field 1 1 | Some n \<Rightarrow> then_bits (field 1 0) (field 16 (ucast n)))"
    by (auto simp: bounded_def image_defs split: option.split)
  then show ?thesis
    unfolding presence_field_image_def images.simps by (intro bounded_rules)
qed

lemmas presence_flag_defs = FLAG_WRITABLE_def FLAG_EPHEMERAL_def FLAG_SERVER_ONLY_def FLAG_CLIENT_ONLY_def

lemma presence_flags_back:
  assumes "flags_from_bits fl = fl"
  shows "presence_flags (flag (flag_set fl FLAG_WRITABLE)) (flag (flag_set fl FLAG_EPHEMERAL)) (flag (flag_set fl FLAG_SERVER_ONLY))
    (flag (flag_set fl FLAG_CLIENT_ONLY)) = fl"
proof -
  have "fl \<le> 15"
    using word_and_le1[of fl 15] assms by (simp add: flags_from_bits_def)
  then have "unat fl \<in> set [0..<16]"
    by (simp add: word_le_nat_alt)
  moreover have "fl = of_nat (unat fl)"
    by simp
  ultimately have "fl \<in> set (map of_nat [0..<16])"
    by (metis image_eqI image_set)
  then have "fl \<in> {0, 1, 2, 3, 4, 5, 6, 7, 8, 9, 10, 11, 12, 13, 14, 15}"
    by (simp add: upt_rec numeral_eq_Suc)
  then show ?thesis
    by (elim insertE emptyE) (simp_all add: presence_flags_def flag_set_def flags_from_bits_def presence_flag_defs Let_def)
qed

lemma yields_presence_item:
  assumes "known_field f"
  shows "yields (presence_item n) (\<lambda>d. fst d = f) (presence_field_image f)"
proof -
  define size where "size = map_option (ucast :: u16 \<Rightarrow> u64) (pf_fixed_size f)"
  have size: "yields (bindM (read_bits 1) (\<lambda>fixed_absent.
        bindM (if fixed_absent \<noteq> 0 then ret None else bindM (read_bits 16) (\<lambda>n. ret (Some n))) g)) Q
      (then_bits (case pf_fixed_size f of None \<Rightarrow> field 1 1 | Some n \<Rightarrow> then_bits (field 1 0) (field 16 (ucast n))) i)"
    if g: "yields (g size) Q i" for g :: "u64 option \<Rightarrow> (reader, presence_field \<times> decoded_field list) op" and Q i
  proof (cases "pf_fixed_size f")
    case None
    then show ?thesis
      using g yields_bind[OF yields_read_bits[of 1 1]] by (auto simp: size_def bind_ret intro!: yields_bind[OF yields_read_bits])
  next
    case (Some n)
    have "yields (bindM (read_bits 16) (\<lambda>n. ret (Some n))) (\<lambda>x. x = size) (field 16 (ucast n))"
      by (rule yields_map[OF yields_read_bits]) (simp_all add: Some size_def fits_ucast_word)
    then show ?thesis
      using g by (auto simp: Some then_bits_assoc intro!: yields_bind[OF yields_read_bits] intro: yields_bind)
  qed
  have width: "(case size of None \<Rightarrow> Inr None | Some n \<Rightarrow> rbind (expect_u16 n) (\<lambda>n. Inr (Some n))) = Inr (pf_fixed_size f)"
    by (cases "pf_fixed_size f") (simp_all add: size_def)
  note flags = presence_flags_back[of "pf_flags f"]
  show ?thesis
    unfolding presence_item_def presence_field_image_def images.simps Let_def
    apply (rule yields_gets)
    apply (rule yields_bind, rule yields_spanned_u64, simp)+
    apply (rule yields_gets)
    apply (rule size)
    apply (rule yields_gets)
    apply (rule yields_bind, rule yields_spanned_u64, simp)+
    apply (rule yields_bind, rule yields_spanned_u8, simp add: fits_ucast_word)+
    apply (rule yields_unless)
    subgoal using assms by (auto simp: known_field_def)
    apply (rule yields_bind, rule yields_spanned_u32, simp add: fits_ucast_word)+
    apply (rule yields_gets)
    apply (rule yields_lift[OF width])
    apply (rule yields_ret)
    using assms apply (simp add: known_field_def flags)
    done
qed

interpretation dictionary: record_route write_presence_fields decode_presence_fields
  "\<lambda>fs. PresenceFields \<lparr>pfs_entries = fs\<rparr>" "\<lambda>fs. length fs \<le> 100 \<and> (\<forall>f \<in> set fs. known_field f)" presence_fields_image
proof
  fix fs :: "presence_field list" assume fs: "length fs \<le> 100 \<and> (\<forall>f \<in> set fs. known_field f)"
  show "emits (write_presence_fields fs) (presence_fields_image fs)"
    unfolding write_presence_fields_def presence_fields_image_def images.simps
    using fs by (intro along_writer emits_presence_field) (simp_all add: fits_count)
  have items: "yields (read_items (length fs) presence_item) (\<lambda>d. fst d = map (\<lambda>f. f) fs) (images (map presence_field_image fs))"
    using fs by (intro yields_items yields_presence_item) simp
  show "parses decode_presence_fields (PresenceFields \<lparr>pfs_entries = fs\<rparr>) (presence_fields_image fs)"
    unfolding decode_presence_fields_def presence_fields_image_def images.simps presence_fields_with_provenance_def
    using fs
    by (intro parses_payload_of) (rule along_code items fits_count | simp add: unat_count)+
  show "bounded (2 ^ 59) (presence_fields_image fs)"
    unfolding presence_fields_image_def images.simps
    by (rule bounded_mono, (rule bounded_rules bounded_items bounded_presence_field)+) (use fs in simp)
qed

section \<open>The season and the settings of a club\<close>

definition season_image :: "bool \<Rightarrow> image" where
  "season_image authority = images
     [field 1 0, field 1 (flag authority), field 7 0, field 9 0, field 32 0, field 10 0, field 1 0, field 16 0, field 1 0,
      field 32 0, field 16 0, field 16 0, field 25 0, field 1 0, field 1 0, field 1 0, field 64 0, field 9 0]"

lemma yields_read_zero: "n \<le> 64 \<Longrightarrow> yields (f 0) Q i \<Longrightarrow> yields (bindM (read_bits n) f) Q (then_bits (field n 0) i)"
  by (rule yields_bind[OF yields_read_bits]) auto

lemma yields_no_records: "n = 0 \<Longrightarrow> yields (f []) Q i \<Longrightarrow> yields (bindM (wire_records n path k item) f) Q i"
  by (auto simp: wire_records_def read_items_def yields_def)

lemma yields_skip_branch: "\<not> c \<Longrightarrow> yields (bindM m f) Q i \<Longrightarrow> yields (bindM (if c then m' else m) f) Q i"
  by simp

lemma yields_ret_then: "yields (f x) Q i \<Longrightarrow> yields (bindM (ret x) f) Q i"
  by (simp add: bind_ret)

lemma yields_assoc: "yields (bindM m (\<lambda>x. bindM (f x) g)) Q i \<Longrightarrow> yields (bindM (bindM m f) g) Q i"
  by (simp add: bind_assoc)

text \<open>Reads whose value is dropped, one after the other.\<close>

lemmas skipping = skip_bits.simps decode_season_info_def skip_optional_def bind_assoc bind_ret

interpretation season: record_route write_season decode_current_season
  "\<lambda>authority. StartupSummary \<lparr>su_kind = ascii ''current-season'', su_item_count = 0, su_complete = Some authority\<rparr>"
  "\<lambda>_. True" season_image
proof
  fix authority
  show "emits (write_season authority) (season_image authority)"
    unfolding write_season_def season_image_def images.simps by (intro along_writer) simp_all
  show "parses decode_current_season (StartupSummary \<lparr>su_kind = ascii ''current-season'', su_item_count = 0,
      su_complete = Some authority\<rparr>) (season_image authority)"
    unfolding decode_current_season_def
    by (rule parses_payload_of, unfold season_image_def images.simps current_season_with_provenance_def Let_def
        season_success_def season_array_def skipping)
      (rule yields_ret_then yields_skip_if yields_skip_branch yields_assoc yields_no_records yields_unless_set along_code | simp add: bind_ret)+
  show "bounded (2 ^ 59) (season_image authority)"
    unfolding season_image_def images.simps by (rule bounded_mono, (rule bounded_rules)+) simp
qed

text \<open>A text within its bounds.\<close>

definition text_image :: "nat \<Rightarrow> bytes \<Rightarrow> image" where
  "text_image lb s = then_bits (field lb (of_nat (length s))) (bytes_image True s)"

definition bounded_text :: "nat \<Rightarrow> nat \<Rightarrow> nat \<Rightarrow> bytes \<Rightarrow> bool" where
  "bounded_text lb mb mc s \<longleftrightarrow> lb < 59 \<and> length s < 2 ^ lb \<and> length s \<le> mb \<and> char_count s \<le> mc \<and> utf8_valid s"

lemma bounded_textD:
  assumes "bounded_text lb mb mc s"
  shows "length s < 2 ^ 59" and "unat (of_nat (length s) :: u64) = length s" and "fits lb (of_nat (length s))"
proof -
  have "length s < 2 ^ lb" and lb: "lb < 59"
    using assms by (simp_all add: bounded_text_def)
  then show small: "length s < 2 ^ 59"
    using less_le_trans[OF _ power_increasing[of lb 59 "2 :: nat"]] by simp
  show "unat (of_nat (length s) :: u64) = length s"
    using small by (simp add: unat_of_nat)
  then show "fits lb (of_nat (length s))"
    using \<open>length s < 2 ^ lb\<close> lb by (simp add: fits_unat)
qed

lemma emits_text: "bounded_text lb mb mc s \<Longrightarrow> emits (encode_generated_utf8 s lb mb mc) (text_image lb s)"
proof -
  assume s: "bounded_text lb mb mc s"
  have "emits (seqM [write_bits (of_nat (length s)) lb, write_bytes s True])
      (then_bits (field lb (of_nat (length s))) (then_bits (bytes_image True s) nothing))"
    by (intro along_writer bounded_textD(3)[OF s])
  then show ?thesis
    using s by (simp add: encode_generated_utf8_def text_image_def bounded_text_def)
qed

lemma yields_text:
  assumes "bounded_text lb mb mc s"
  shows "yields (decode_generated_utf8 lb 0 mb mc) (\<lambda>x. x = s) (text_image lb s)"
proof -
  note d = bounded_textD[OF assms]
  have bounds: "length s \<le> mb" "char_count s \<le> mc" "from_utf8 s = Some s"
    using assms by (simp_all add: bounded_text_def from_utf8_def)
  have "yields (decode_generated_utf8 lb 0 mb mc) (\<lambda>x. x = s)
      (then_bits (field lb (of_nat (length s))) (then_bits (bytes_image True s) nothing))"
    unfolding decode_generated_utf8_def read_usize_def bind_assoc bind_ret
  proof (rule yields_bind[OF yields_read_bits[OF d(3)]])
    fix v :: u64 assume "v = of_nat (length s)"
    then have v: "unat v + 0 = length s"
      using d(2) by simp
    have "yields (bindM (read_bytes (length s) True) (\<lambda>bs.
        bindM (liftR (ok_or (native_text ''generated native string is not UTF-8'') (from_utf8 bs))) (\<lambda>s.
        if char_count s > mc then fail (native_text ''generated native string has too many characters'') else ret s)))
      (\<lambda>x. x = s) (then_bits (bytes_image True s) nothing)"
      using bounds d(1) by (intro yields_bind[OF yields_read_bytes]) (auto intro!: yields_lift yields_unless yields_ret simp del: ret_apply)
    then show "yields (if unat v + 0 > mb then fail (native_text ''generated native string is too long'')
        else bindM (read_bytes (unat v + 0) True) (\<lambda>bs.
        bindM (liftR (ok_or (native_text ''generated native string is not UTF-8'') (from_utf8 bs))) (\<lambda>s.
        if char_count s > mc then fail (native_text ''generated native string has too many characters'') else ret s)))
      (\<lambda>x. x = s) (then_bits (bytes_image True s) nothing)"
      unfolding v using bounds by simp
  qed
  then show ?thesis by (simp add: text_image_def)
qed

lemma yields_spanned_text:
  assumes "bounded_text lb mb mc s"
  shows "yields (decode_spanned_generated_utf8 lb 0 mb mc) (\<lambda>x. sv_value x = s) (text_image lb s)"
proof -
  have "yields (decode_spanned_generated_utf8 lb 0 mb mc) (\<lambda>x. sv_value x = s) (then_bits (text_image lb s) nothing)"
    unfolding decode_spanned_generated_utf8_def
    by (intro yields_gets yields_bind[OF yields_text[OF assms]] yields_ret) simp
  then show ?thesis by simp
qed

definition club_settings_image :: image where
  "club_settings_image = images [text_image 13 [], text_image 13 [], field 32 0, field 32 0, field 32 0, field 32 0, field 32 0]"

lemma yields_zero32: "yields (read_spanned_u32 32) (\<lambda>s. sv_value s = 0) (field 32 0)"
  and yields_zero_i32: "yields read_spanned_i32 (\<lambda>s. sv_value s = 0x80000000) (field 32 0)"
  using yields_spanned_u32[of 32 0] yields_spanned_i32[of 0] by simp_all

lemma no_text: "bounded_text 13 4096 1024 []"
  by (simp add: bounded_text_def char_count_def)

interpretation club_settings: record_route "\<lambda>_. write_club_settings" decode_club_settings
  "\<lambda>_. StartupSummary \<lparr>su_kind = ascii ''club-settings'', su_item_count = 0, su_complete = None\<rparr>"
  "\<lambda>_ :: unit. True" "\<lambda>_. club_settings_image"
proof
  show "emits write_club_settings club_settings_image"
    unfolding write_club_settings_def club_settings_image_def images.simps
    by (intro along_writer emits_text no_text) simp_all
  show "parses decode_club_settings (StartupSummary \<lparr>su_kind = ascii ''club-settings'', su_item_count = 0,
      su_complete = None\<rparr>) club_settings_image"
    unfolding decode_club_settings_def club_settings_image_def images.simps club_settings_with_provenance_def
    by (intro parses_payload_of) (rule yields_bind[OF yields_spanned_text[OF no_text]] yields_bind[OF yields_zero32]
      yields_bind[OF yields_zero_i32] along_code | simp)+
  show "bounded (2 ^ 59) club_settings_image"
    unfolding club_settings_image_def images.simps text_image_def
    by (rule bounded_mono, (rule bounded_rules bounded_bytes)+) simp
qed

section \<open>The items of a cache stream\<close>

definition stream_item_image :: "32 word \<times> bytes \<Rightarrow> image" where
  "stream_item_image = (\<lambda>(time, handle). images [field 23 0, bytes_image True handle, field 32 (ucast time)])"

definition stream_items_image :: "u32 \<times> (32 word \<times> bytes) list \<Rightarrow> image" where
  "stream_items_image = (\<lambda>(token, items). images
     [field 6 (count_u64 (length items)), images (map stream_item_image items), field 32 (ucast token),
      field 16 (count_u64 (length items)), field 16 0])"

lemma expect_u16_zero: "expect_u16 0 = Inr 0"
  by (simp add: expect_u16_def)

text \<open>The decoder takes the publication time for biased, the encoder writes it unbiased: its sign bit flips.\<close>

definition stream_item_of :: "32 word \<times> bytes \<Rightarrow> cache_stream_item" where
  "stream_item_of = (\<lambda>(time, handle). \<lparr>publication_time = time XOR 0x80000000, content_handle = handle\<rparr>)"

lemma yields_stream_item:
  assumes "length (snd x) = 40"
  shows "yields (stream_item n) (\<lambda>d. fst d = stream_item_of x) (stream_item_image x)"
  unfolding stream_item_def stream_item_image_def stream_item_of_def Let_def
  using assms
  by (cases x, simp only: prod.case images.simps) (rule yields_bind[OF yields_read_bytes] along_code | simp)+

lemma emits_stream_item: "emits ((\<lambda>(time, handle) _. seqM [write_bits 0 23, write_bytes handle True, write_bits (ucast time) 32]) x ())
    (stream_item_image x)"
  unfolding stream_item_image_def
  by (cases x, simp only: prod.case images.simps) (rule along_writer | simp add: fits_ucast_word)+

lemma bounded_stream_items:
  "\<forall>x \<in> set items. length (snd x) = 40 \<Longrightarrow> bounded (length items * 382) (images (map stream_item_image items))"
proof (induction items)
  case (Cons x items)
  have "bounded (23 + (7 + 8 * length (snd x) + (32 + 0))) (stream_item_image x)"
    unfolding stream_item_image_def by (cases x, simp only: prod.case images.simps snd_conv) (rule bounded_rules bounded_bytes)+
  then show ?case
    using Cons bounded_rules(5)[of 382 "stream_item_image x"] by simp
qed (simp add: bounded_rules)

interpretation stream_items: record_route "\<lambda>(token, items). write_stream_items token items" decode_cache_stream_items
  "\<lambda>(token, items). CacheStreamItems \<lparr>csi_items = map stream_item_of items, csi_offset = 0,
     csi_total_items = of_nat (length items), csi_token = token\<rparr>"
  "\<lambda>(token, items). length items \<le> 49 \<and> (\<forall>x \<in> set items. length (snd x) = 40)" stream_items_image
proof
  fix v :: "u32 \<times> (32 word \<times> bytes) list"
  obtain token items where v: "v = (token, items)" by (cases v)
  assume "case v of (token, items) \<Rightarrow> length items \<le> 49 \<and> (\<forall>x \<in> set items. length (snd x) = 40)"
  then have items: "length items \<le> 49" "\<forall>x \<in> set items. length (snd x) = 40" by (auto simp: v)
  show "emits (case v of (token, items) \<Rightarrow> write_stream_items token items) (stream_items_image v)"
    unfolding v write_stream_items_def stream_items_image_def images.simps prod.case
    using items by (intro along_writer emits_stream_item) (simp_all add: fits_count fits_ucast_word)
  have read: "yields (read_items (length items) stream_item) (\<lambda>d. fst d = map stream_item_of items) (images (map stream_item_image items))"
    using items by (intro yields_items yields_stream_item) simp
  have total: "expect_u16 (count_u64 (length items)) = Inr (of_nat (length items))"
    using items(1) by (simp add: expect_u16_def count_u64_def unat_of_nat)
      (simp add: word_unat_eq_iff unsigned_ucast_eq unat_of_nat take_bit_eq_mod)
  show "parses decode_cache_stream_items (case v of (token, items) \<Rightarrow> CacheStreamItems \<lparr>csi_items = map stream_item_of items,
      csi_offset = 0, csi_total_items = of_nat (length items), csi_token = token\<rparr>) (stream_items_image v)"
    unfolding v decode_cache_stream_items_def stream_items_image_def images.simps cache_stream_items_with_provenance_def prod.case
    using items
    by (intro parses_payload_of)
      (rule read along_code fits_count | simp add: unat_count fits_ucast_word total expect_u16_zero)+
  show "bounded (2 ^ 59) (stream_items_image v)"
    unfolding v stream_items_image_def images.simps prod.case
    by (rule bounded_mono, (rule bounded_rules bounded_stream_items[OF items(2)])+) (use items in simp)
qed

end
