(* ===== verification/Join_Laws.thy ===== *)
theory Join_Laws
  imports Record_Laws Record_Routes Decode_Join
begin

text \<open>
  The decoders of a join answer and of an invitation are written twice, once with the provenance of every
  field: they read the same bits to the same value, on any input, errors included.
\<close>

section \<open>What a read yields fits its width\<close>

lemma read_loop_fits:
  "read_loop data pos rem acc = Inr (v, p) \<Longrightarrow> fits k acc \<Longrightarrow> k + rem \<le> 64 \<Longrightarrow> fits (k + rem) v"
proof (induction data pos rem acc arbitrary: k rule: read_loop.induct)
  case (1 data pos rem acc)
  show ?case
  proof (cases "rem = 0")
    case False
    define tk where "tk = min rem (8 - pos mod 8)"
    define chunk :: u16 where "chunk = drop_bit (pos mod 8) (ucast (data ! (pos div 8))) AND (push_bit tk 1 - 1)"
    have tk: "tk \<le> rem" by (simp add: tk_def)
    have step: "pos div 8 < length data" "read_loop data (pos + tk) (rem - tk) (push_bit tk acc OR ucast chunk) = Inr (v, p)"
      using "1.prems"(1) False by (subst (asm) read_loop.simps, auto simp: Let_def tk_def chunk_def split: if_split_asm)+
    have "bit chunk i \<Longrightarrow> i < tk" for i
      unfolding chunk_def push_bit_of_1 mask_eq_exp_minus_1[symmetric] by (simp add: bit_and_iff bit_mask_iff)
    then have "bit (push_bit tk acc OR ucast chunk :: u64) i \<Longrightarrow> i < k + tk" for i
      using "1.prems"(2) by (auto simp: bit_or_iff bit_push_bit_iff bit_ucast_iff fits_def intro: trans_less_add2)
    then have "fits (k + tk) (push_bit tk acc OR ucast chunk)"
      using "1.prems"(3) tk by (auto simp: fits_def)
    then have "fits (k + tk + (rem - tk)) v"
      using "1.prems"(3) tk step
      by (intro "1.IH"[OF False refl refl tk_def refl step(1) refl]) (simp_all add: chunk_def tk_def)
    then show ?thesis
      using tk by simp
  qed (use 1 in \<open>simp add: read_loop.simps\<close>)
qed

lemma read_bits_fits: "read_bits n r = (Inr v, r') \<Longrightarrow> fits n v"
  using read_loop_fits[of "rdata r" "rposition r" n 0 v _ 0]
  by (auto simp: read_bits_def split: if_split_asm sum.splits prod.splits)

section \<open>Tracing a field\<close>

lemma bind_read_bits_cong:
  assumes "\<And>v. fits n v \<Longrightarrow> f v = g v"
  shows "bindM (read_bits n) f = bindM (read_bits n) g"
proof
  fix r
  obtain x r' where "read_bits n r = (x, r')" by (cases "read_bits n r")
  then show "bindM (read_bits n) f r = bindM (read_bits n) g r"
    using assms[OF read_bits_fits] by (cases x) (auto simp: bindM_def)
qed

lemma lift_Inr: "bindM (liftR (Inr x)) f = f x"
  by (simp add: fun_eq_iff)

lemma fits_u32: "fits 32 v \<Longrightarrow> expect_u32 v = Inr (ucast v)" "fits 32 v \<Longrightarrow> unat v < 2 ^ 32"
  and fits_u16: "fits 16 v \<Longrightarrow> expect_u16 v = Inr (ucast v)" "fits 16 v \<Longrightarrow> unat v < 2 ^ 16"
  by (simp_all add: fits_unat expect_u32_def expect_u16_def)

lemma fits_u8: "fits n v \<Longrightarrow> n \<le> 8 \<Longrightarrow> expect_u8 v = Inr (ucast v)" "fits n v \<Longrightarrow> n \<le> 8 \<Longrightarrow> unat v < 2 ^ 8"
proof -
  assume "fits n v" "n \<le> 8"
  then show small: "unat v < 2 ^ 8"
    using power_increasing[of n 8 "2 :: nat"] by (simp add: fits_unat)
  then show "expect_u8 v = Inr (ucast v)"
    by (simp add: expect_u8_def)
qed

text \<open>Reads whose value always converts.\<close>

lemma read_u32_exact: "bindM (read_u32 32) f = bindM (read_bits 32) (\<lambda>v. f (ucast v))"
  and read_u16_exact: "bindM (read_u16 16) g = bindM (read_bits 16) (\<lambda>v. g (ucast v))"
  unfolding read_u32_def read_u16_def bind_assoc
  by (rule bind_read_bits_cong, simp only: if_P[OF fits_u32(2)] if_P[OF fits_u16(2)] bind_ret)+

lemma read_u8_exact: "n \<le> 8 \<Longrightarrow> bindM (read_u8 n) f = bindM (read_bits n) (\<lambda>v. f (ucast v))"
  unfolding read_u8_def bind_assoc
  by (rule bind_read_bits_cong) (simp only: if_P[OF fits_u8(2)] bind_ret)

lemma traces_integer:
  assumes "\<And>v fs. fits n v \<Longrightarrow> traces (f v fs) (f' v)"
  shows "traces (bindM (trace_integer fs path k n d) (\<lambda>(v, fs). f v fs)) (bindM (read_bits n) f')"
  unfolding traces_iff
proof
  fix r
  obtain x r' where x: "read_bits n r = (x, r')" by (cases "read_bits n r")
  show "bindM (read_bits n) f' r = untraced (bindM (trace_integer fs path k n d) (\<lambda>(v, fs). f v fs) r)"
    using x assms[OF read_bits_fits] by (cases x) (auto simp: trace_integer_def traces_iff bindM_def)
qed

lemma traces_optional_bits:
  assumes "\<And>x fs. (\<forall>v. x = Some v \<longrightarrow> fits n v) \<Longrightarrow> traces (f x fs) (f' x)"
  shows "traces (bindM (trace_optional_bits fs path n d) (\<lambda>(x, fs). f x fs))
    (bindM (read_bits 1) (\<lambda>b. bindM (when_set b (read_bits n)) f'))"
  unfolding traces_iff
proof
  fix r
  obtain x r1 where x: "read_bits (Suc 0) r = (x, r1)" by (cases "read_bits (Suc 0) r")
  show "bindM (read_bits 1) (\<lambda>b. bindM (when_set b (read_bits n)) f') r
    = untraced (bindM (trace_optional_bits fs path n d) (\<lambda>(x, fs). f x fs) r)"
  proof (cases x)
    case (Inr b)
    obtain y r2 where y: "read_bits n r1 = (y, r2)" by (cases "read_bits n r1")
    show ?thesis
      using x y Inr assms[of None] assms[of "Some v" for v] read_bits_fits
      by (cases y; cases "b = 0") (auto simp: trace_optional_bits_def trace_integer_def when_set_def traces_iff bindM_def)
  qed (simp add: x trace_optional_bits_def trace_integer_def bindM_def)
qed

lemma traces_optional_config:
  assumes "\<And>fs. traces (f () fs) f'"
  shows "traces (bindM (trace_optional_config fs) (\<lambda>(u, fs). f u fs))
    (bindM (read_bits 1) (\<lambda>b. bindM (when_set b decode_channel_config) (\<lambda>_. f')))"
  unfolding traces_iff
proof
  fix r
  obtain x r1 where x: "read_bits (Suc 0) r = (x, r1)" by (cases "read_bits (Suc 0) r")
  show "bindM (read_bits 1) (\<lambda>b. bindM (when_set b decode_channel_config) (\<lambda>_. f')) r
    = untraced (bindM (trace_optional_config fs) (\<lambda>(u, fs). f u fs) r)"
  proof (cases x)
    case (Inr b)
    obtain y r2 where y: "decode_channel_config r1 = (y, r2)" by (cases "decode_channel_config r1")
    show ?thesis
      using x y Inr assms
      by (cases y; cases "b = 0") (auto simp: trace_optional_config_def trace_integer_def when_set_def traces_iff bindM_def)
  qed (simp add: x trace_optional_config_def trace_integer_def bindM_def)
qed

lemma traces_name_variant:
  "traces (trace_name_variant v fs)
     (if v = 2 then bindM (read_bits 32) (\<lambda>_. bindM (read_u16 16) (\<lambda>i. ret (Some i)))
      else if v = 1 \<or> v = 3 then bindM (read_bits 16) (\<lambda>_. bindM (read_bits 32) (\<lambda>_. ret None))
      else if v = 0 then bindM (decode_generated_utf8 7 0 124 31) (\<lambda>_. ret None)
      else fail (Panic Unreachable))"
  unfolding trace_name_variant_def read_u16_exact
  by (intro traces_if traces_fail traces_integer traces_ret traces_here traces_lift)
    (auto simp: fits_u16 lift_Inr intro!: traces_ret traces_lift traces_here simp del: ret_apply)

lemma traces_channel_name:
  "traces (trace_channel_name fs) (bindM (read_bits 1) (\<lambda>b. when_set b decode_channel_name))"
  unfolding trace_channel_name_def
proof (intro traces_here traces_integer)
  fix start b fs assume "fits 1 b"
  show "traces (if b = 0 then ret (None, fs)
     else bindM (trace_integer fs (ascii ''value.channel_name.shard_index'') ''uint16'' 16 2) (\<lambda>(v, fs).
     bindM (liftR (expect_u16 v)) (\<lambda>shard_index.
     bindM (trace_integer fs (ascii ''value.channel_name.namespace'') ''uint29'' 29 2) (\<lambda>(_, fs).
     bindM (trace_integer fs (ascii ''value.channel_name.kind'') ''choice selector'' 2 2) (\<lambda>(variant, fs).
     bindM (trace_name_variant variant fs) (\<lambda>(public_id, fs).
     bindM here_bit (\<lambda>stop.
     ret (Some (public_id, shard_index),
       fs @ [plain_field (ascii ''value.channel_name'') ''optional choice'' (ascii ''present'') start stop 1])))))))) (when_set b decode_channel_name)"
    unfolding when_set_def decode_channel_name_def bind_assoc read_u16_exact bind_ret
    apply (cases "b = 0")
     apply (simp add: traces_ret del: ret_apply)
    apply (simp only: if_False if_True not_True_eq_False not_False_eq_True)
    apply (rule traces_integer)
    apply (simp only: fits_u16 lift_Inr)
    apply (rule traces_integer)+
    apply (rule traces_bind[OF traces_name_variant[unfolded read_u16_exact]])
    apply (rule traces_here)
    apply (rule traces_ret)
    done
qed

section \<open>The two join decoders\<close>

lemma traces_name:
  assumes "\<And>x fs. traces (f x fs) (f' x)"
  shows "traces (bindM (trace_channel_name fs) (\<lambda>(x, fs). f x fs)) (bindM (read_bits 1) (\<lambda>b. bindM (when_set b decode_channel_name) f'))"
  unfolding bind_assoc[symmetric] by (rule traces_bind[OF traces_channel_name assms])

text \<open>A token or a channel type behind a flag converts when it is there.\<close>

lemma when_u32: "bindM (when_set b (read_u32 32)) f = bindM (when_set b (read_bits 32)) (\<lambda>v. f (map_option ucast v))"
  and when_u8: "n \<le> 8 \<Longrightarrow> bindM (when_set b (read_u8 n)) g = bindM (when_set b (read_bits n)) (\<lambda>v. g (map_option ucast v))"
  by (simp_all add: when_set_def bind_assoc read_u32_exact read_u8_exact bind_ret del: ret_apply)

lemma some_u32: "\<forall>v. x = Some v \<longrightarrow> fits 32 v \<Longrightarrow> expect_some expect_u32 x = Inr (map_option ucast x)"
  and some_u8: "n \<le> 8 \<Longrightarrow> \<forall>v. x = Some v \<longrightarrow> fits n v \<Longrightarrow> expect_some expect_u8 x = Inr (map_option ucast x)"
  by (auto simp: expect_some_def fits_u32 fits_u8 split: option.split)

lemma traces_accepted: "traces (trace_join_accepted fs) chat_join_accepted"
proof -
  have widths: "(3::nat) \<le> 8" "(4::nat) \<le> 8" by simp_all
  show ?thesis
    unfolding trace_join_accepted_def chat_join_accepted_def read_u32_exact read_u8_exact[OF widths(1)] read_u8_exact[OF widths(2)] when_u32
    apply (rule traces_integer, simp only: fits_u32 lift_Inr)
    apply (rule traces_integer, simp only: fits_u8[OF _ widths(1)] lift_Inr)
    apply (rule traces_if, rule traces_fail)
    apply (rule traces_integer)+
    apply (simp only: fits_u8[OF _ widths(2)] lift_Inr)
    apply (rule traces_name)
    apply (rule traces_optional_config)
    apply (rule traces_optional_bits)
    apply (rule traces_optional_bits)
    apply (simp only: some_u32 lift_Inr)
    apply (rule traces_ret)
    done
qed

lemma traces_refused: "traces (trace_join_refused fs) chat_join_refused"
proof -
  have width: "(4::nat) \<le> 8" by simp
  show ?thesis
    unfolding trace_join_refused_def chat_join_refused_def read_u16_exact when_u32 when_u8[OF width]
    apply (rule traces_integer, simp only: fits_u16 lift_Inr)
    apply (rule traces_optional_bits, simp only: some_u8[OF width] lift_Inr)
    apply (rule traces_optional_bits, simp only: some_u32 lift_Inr)
    apply (rule traces_ret)
    done
qed

lemma tracesD: "traces m m' \<Longrightarrow> m' r = untraced (m r)"
  by (simp add: traces_iff)

lemma join_decoders_agree: "payload_of chat_join_with_provenance = decode_chat_join"
proof
  fix r
  obtain x r1 where x: "read_bits (Suc 0) r = (x, r1)" by (cases "read_bits (Suc 0) r")
  show "payload_of chat_join_with_provenance r = decode_chat_join r"
  proof (cases x)
    case (Inr b)
    define y where "y = (\<lambda>fs. fst ((if b = 0 then trace_join_accepted fs else trace_join_refused fs) r1))"
    define r2 where "r2 = (\<lambda>fs. snd ((if b = 0 then trace_join_accepted fs else trace_join_refused fs) r1))"
    have y: "(if b = 0 then trace_join_accepted fs else trace_join_refused fs) r1 = (y fs, r2 fs)" for fs
      by (simp add: y_def r2_def)
    have plain: "(if b = 0 then chat_join_accepted else chat_join_refused) r1 = untraced (y fs, r2 fs)" for fs
      using tracesD[OF traces_accepted, of r1 fs] tracesD[OF traces_refused, of r1 fs] y[of fs] by (auto split: if_split_asm)
    obtain fs where "payload_of chat_join_with_provenance r = untraced (y fs, r2 fs)"
    proof -
      define f where "f = plain_field (ascii ''value.success'') ''bool (inverted)'' (word_text b) (rposition r) (rposition r1) 1"
      define fs where "fs = [f\<lparr>df_value := bool_text (b = 0)\<rparr>]"
      have "payload_of chat_join_with_provenance r = untraced (y fs, r2 fs)"
        using x Inr y[of fs]
        by (cases "y fs") (auto simp: chat_join_with_provenance_def trace_integer_def bindM_def Let_def fs_def f_def untraced_def)
      then show thesis ..
    qed
    then show ?thesis
      using plain[of fs] x Inr by (auto simp: decode_chat_join_def bindM_def)
  qed (simp add: x chat_join_with_provenance_def decode_chat_join_def trace_integer_def bindM_def)
qed

lemma spanned_exact:
  "bindM (read_spanned_u32 32) f = bindM (read_spanned_u64 32) (\<lambda>v. f (respan (ucast (sv_value v)) v))"
  "n \<le> 8 \<Longrightarrow> bindM (read_spanned_u8 n) g = bindM (read_spanned_u64 n) (\<lambda>v. g (respan (ucast (sv_value v)) v))"
proof -
  have fit: "read_spanned_u64 k r = (Inr v, r') \<Longrightarrow> fits k (sv_value v)" for k r v r'
    by (auto simp: read_spanned_u64_def bindM_Inr_iff dest: read_bits_fits)
  show "bindM (read_spanned_u32 32) f = bindM (read_spanned_u64 32) (\<lambda>v. f (respan (ucast (sv_value v)) v))"
    unfolding read_spanned_u32_def bind_assoc
    by (rule bindM_cong[OF refl]) (simp only: if_P[OF fits_u32(2)[OF fit]] bind_ret)
  show "bindM (read_spanned_u8 n) g = bindM (read_spanned_u64 n) (\<lambda>v. g (respan (ucast (sv_value v)) v))" if "n \<le> 8"
    unfolding read_spanned_u8_def bind_assoc
    by (rule bindM_cong[OF refl]) (simp only: if_P[OF fits_u8(2)[OF fit that]] bind_ret)
qed

lemma spanned_plain: "bindM (read_spanned_u64 n) (\<lambda>v. f (sv_value v)) = bindM (read_bits n) f"
  by (simp add: read_spanned_u64_def bind_assoc bind_ret) (auto simp: fun_eq_iff bindM_def split: prod.split sum.split)

lemma invite_decoders_agree: "payload_of chat_invite_with_provenance = decode_chat_invite"
proof -
  have widths: "(3::nat) \<le> 8" "(4::nat) \<le> 8" by simp_all
  have here: "bindM here_bit (\<lambda>p. m) = (m :: (reader, payload) op)" for m
    by (simp add: fun_eq_iff bindM_def)
  show ?thesis
    unfolding chat_invite_with_provenance_def decode_chat_invite_def bind_assoc bind_ret
      read_u32_exact read_u8_exact[OF widths(1)] read_u8_exact[OF widths(2)] spanned_exact(1) spanned_exact(2)[OF widths(1)] spanned_exact(2)[OF widths(2)]
    by (simp add: custom_payload_def bind_ret here respan_def del: ret_apply)
      (simp only: spanned_plain[of 4 "\<lambda>x. bindM (read_bits 32) (\<lambda>y. bindM (read_bits 3) (\<lambda>z. ret (ChatInvite
          \<lparr>ci_channel_type = ucast x, ci_channel_index = ucast z, ci_inviter_presence = ucast y\<rparr>)))"]
        spanned_plain[of 32 "\<lambda>y. bindM (read_bits 3) (\<lambda>z. ret (ChatInvite
          \<lparr>ci_channel_type = c, ci_channel_index = ucast z, ci_inviter_presence = ucast y\<rparr>))" for c]
        spanned_plain[of 3 "\<lambda>z. ret (ChatInvite \<lparr>ci_channel_type = c, ci_channel_index = ucast z, ci_inviter_presence = d\<rparr>)" for c d])
qed

end
