(* ===== verification/Trace_Laws.thy ===== *)
theory Trace_Laws
  imports Native_Protocol Layout_Laws Join_Laws
begin

text \<open>
  The decoders with provenance decode what the plain ones do: the path and the depth a value is traced under do
  not change it, a growing trace does not change what is read, and the two dispatches agree on every route.
\<close>

section \<open>Paths do not change a value\<close>

definition alike :: "(tstate, 'a) op \<Rightarrow> (tstate, 'a) op \<Rightarrow> bool" where
  "alike m m' \<longleftrightarrow> (\<forall>r tr tr'. fst (m (r, tr)) = fst (m' (r, tr')) \<and> fst (snd (m (r, tr))) = fst (snd (m' (r, tr'))))"

named_theorems alike_intros \<open>rules for operations that differ in their trace only\<close>

lemma alikeI:
  "(\<And>r tr tr'. fst (m (r, tr)) = fst (m' (r, tr')) \<and> fst (snd (m (r, tr))) = fst (snd (m' (r, tr')))) \<Longrightarrow> alike m m'"
  by (simp add: alike_def)

lemma alikeD:
  assumes "alike m m'" and "m (r, tr) = (v, (r', t))"
  shows "\<exists>t'. m' (r, tr') = (v, (r', t'))"
proof -
  have "fst (m' (r, tr')) = v" "fst (snd (m' (r, tr'))) = r'"
    using assms unfolding alike_def by (metis fst_conv snd_conv)+
  then show ?thesis
    by (metis prod.collapse)
qed

lemma alike_blind: "blind m \<Longrightarrow> alike m m"
  by (simp add: blind_def alike_def)

lemma alike_push [alike_intros]: "alike (push_field f) (push_field g)"
  by (rule alikeI) (simp add: push_field_def)

lemma alike_relabel [alike_intros]: "alike (relabel_error prog c tid path v) (relabel_error prog c tid path' v)"
  by (rule alikeI) (auto simp: relabel_error_def split: sum.split option.split)

lemma alike_bind [alike_intros]:
  assumes m: "alike m m'" and f: "\<And>x. alike (f x) (f' x)"
  shows "alike (bindM m f) (bindM m' f')"
proof (rule alikeI)
  fix r tr tr'
  obtain v r' t where run: "m (r, tr) = (v, (r', t))"
    by (metis prod.collapse)
  then obtain t' where run': "m' (r, tr') = (v, (r', t'))"
    using alikeD[OF m] by blast
  show "fst (bindM m f (r, tr)) = fst (bindM m' f' (r, tr')) \<and>
      fst (snd (bindM m f (r, tr))) = fst (snd (bindM m' f' (r, tr')))"
    using f run run' by (cases v) (auto simp: alike_def)
qed

lemma alike_map_err [alike_intros]:
  assumes m: "alike m m'"
  shows "alike (map_errM (\<lambda>s. g (fst s)) m) (map_errM (\<lambda>s. g (fst s)) m')"
proof (rule alikeI)
  fix r tr tr'
  obtain v r' t where run: "m (r, tr) = (v, (r', t))"
    by (metis prod.collapse)
  then obtain t' where run': "m' (r, tr') = (v, (r', t'))"
    using alikeD[OF m] by blast
  show "fst (map_errM (\<lambda>s. g (fst s)) m (r, tr)) = fst (map_errM (\<lambda>s. g (fst s)) m' (r, tr')) \<and>
      fst (snd (map_errM (\<lambda>s. g (fst s)) m (r, tr))) = fst (snd (map_errM (\<lambda>s. g (fst s)) m' (r, tr')))"
    using run run' by (cases v) (simp_all add: map_errM_def)
qed

lemma alike_context [alike_intros]:
  "alike m m' \<Longrightarrow> alike (map_errM (\<lambda>_. append_decode_context h) m) (map_errM (\<lambda>_. append_decode_context h) m')"
  by (rule alike_map_err[where g = "\<lambda>_. append_decode_context h"])

lemma alike_forM [alike_intros]:
  "(\<And>x. x \<in> set xs \<Longrightarrow> alike (f x) (f' x)) \<Longrightarrow> alike (forM xs f) (forM xs f')"
proof (induction xs)
  case Nil
  then show ?case
    using alike_blind[OF blind_ret, of "[]"] by (simp del: ret_apply)
next
  case (Cons x xs)
  have "alike (bindM (f x) (\<lambda>y. bindM (forM xs f) (\<lambda>ys. ret (y # ys))))
      (bindM (f' x) (\<lambda>y. bindM (forM xs f') (\<lambda>ys. ret (y # ys))))"
    using Cons by (intro alike_bind alike_blind[OF blind_ret]) auto
  then show ?case by (simp del: ret_apply)
qed

lemma alike_loopM [alike_intros]:
  "(\<And>x acc. alike (f x acc) (f' x acc)) \<Longrightarrow> alike (loopM xs f acc) (loopM xs f' acc)"
proof (induction xs arbitrary: acc)
  case Nil
  then show ?case
    using alike_blind[OF blind_ret, of acc] by (simp del: ret_apply)
next
  case (Cons x xs)
  have "alike (bindM (f x acc) (\<lambda>acc'. loopM xs f acc')) (bindM (f' x acc) (\<lambda>acc'. loopM xs f' acc'))"
    by (intro alike_bind Cons.IH Cons.prems)
  then show ?case by simp
qed

lemmas alike_same [alike_intros] = alike_blind[OF blind_ret] alike_blind[OF blind_fail] alike_blind[OF blind_lift]
  alike_blind[OF blind_position] alike_blind[OF blind_reader] alike_blind[OF blind_member_label]

lemma alike_custom:
  assumes "traces_agree prog c" and "wire_layouts c tid = Some (CustomLayout layout)"
  shows "alike (run_custom prog c n layout path depth tid) (run_custom prog c n layout path' depth' tid)"
proof (rule alikeI)
  fix r tr tr'
  have here: "blind (run_custom prog c n layout path depth tid)" "blind (run_custom prog c n layout path' depth' tid)"
    by (rule blind_custom[OF assms])+
  have "run_custom prog c n layout path depth tid (r, None) = run_custom prog c n layout path' depth' tid (r, None)"
    by (cases "wl_decode_traced layout") (simp_all add: run_custom_def bindM_def)
  then show "fst (run_custom prog c n layout path depth tid (r, tr)) = fst (run_custom prog c n layout path' depth' tid (r, tr')) \<and>
      fst (snd (run_custom prog c n layout path depth tid (r, tr))) = fst (snd (run_custom prog c n layout path' depth' tid (r, tr')))"
    using here unfolding blind_def by metis
qed

lemma alike_decode:
  assumes "traces_agree prog c"
  shows "alike (decode_scoped prog c n scope path depth tid) (decode_scoped prog c n scope path' depth' tid)"
proof (induction n arbitrary: scope path depth path' depth' tid)
  case 0
  then show ?case
    using alike_blind[OF blind_fail, of StackOverflow] by (simp del: fail_apply)
next
  case (Suc n)
  have kind: "alike (decode_kind prog c (decode_scoped prog c n) scope path depth tid sh)
      (decode_kind prog c (decode_scoped prog c n) scope path' depth' tid sh)" for scope sh
    unfolding decode_kind_def
    by (cases "kind sh") (auto intro!: alike_intros Suc.IH split: option.split
        simp: decode_struct_member_def simp del: ret_apply fail_apply)
  have layout: "alike (decode_struct_layout (decode_scoped prog c n) path depth tid sh l)
      (decode_struct_layout (decode_scoped prog c n) path' depth' tid sh l)" for sh l
    unfolding decode_struct_layout_def decode_layout_entry_def Let_def
    by (auto intro!: alike_intros Suc.IH simp del: ret_apply fail_apply)
  have inner: "alike (decode_inner prog c n (decode_scoped prog c n) scope path depth tid)
      (decode_inner prog c n (decode_scoped prog c n) scope path' depth' tid)"
    unfolding decode_inner_def
    by (intro alike_bind alike_blind[OF blind_lift]) (auto intro!: alike_intros kind layout alike_custom[OF assms]
        split: option.split registered_wire_layout.split)
  show ?case
    unfolding decode_scoped.simps decode_body_def
    by (intro alike_bind alike_same alike_map_err[where g = "\<lambda>r. append_decode_context (h r)" for h] inner)
      (auto intro: alike_intros simp del: ret_apply)
qed

lemma traced_value:
  assumes "traces_agree prog c"
  shows "bindM (decode_scoped_traced prog n c scope path depth tid) (\<lambda>d. ret (dv_value d))
    = Codec.untraced (decode_scoped prog c n scope (ascii ''value'') 0 tid)"
proof
  fix r
  obtain v r' t where run: "decode_scoped prog c n scope path depth tid (r, Some []) = (v, (r', t))"
    by (metis prod.collapse)
  then obtain t' where "decode_scoped prog c n scope (ascii ''value'') 0 tid (r, None) = (v, (r', t'))"
    using alikeD[OF alike_decode[OF assms]] by blast
  then show "bindM (decode_scoped_traced prog n c scope path depth tid) (\<lambda>d. ret (dv_value d)) r
      = Codec.untraced (decode_scoped prog c n scope (ascii ''value'') 0 tid) r"
    using run by (cases v) (simp_all add: decode_scoped_traced_def Codec.untraced_def bindM_def)
qed

definition traced_env :: "env \<Rightarrow> bool" where
  "traced_env E \<longleftrightarrow> traces_agree (code E) (pcodec (proto E))"

lemma reflected_value:
  assumes "traced_env E"
  shows "bindM (reflected_at E tid path depth) (\<lambda>d. ret (dv_value d)) = reflected_plain E tid"
  using traced_value assms
  by (simp add: reflected_at_def reflected_plain_def decode_reflected_traced_from_def decode_reflected_from_def traced_env_def)

lemma club_value:
  assumes "traced_env E"
  shows "bindM (decode_traced_from (code E) (stack E) (pcodec (proto E)) tid) (\<lambda>d. ret (dv_value d)) = club_from E tid"
  using traced_value assms by (simp add: decode_traced_from_def club_from_def decode_from_def traced_env_def)

section \<open>A growing trace changes nothing\<close>

definition simulates :: "'a tracer \<Rightarrow> (reader, 'a) op \<Rightarrow> bool" where
  "simulates m m' \<longleftrightarrow> (\<forall>s. (fst (m s), fst (snd (m s))) = m' (fst s))"

lemma simulates_reading: "simulates (reading m) m"
  by (simp add: simulates_def reading_def split: prod.split)

lemma simulates_lift: "simulates (liftR v) (liftR v)"
  by (simp add: simulates_def)

lemma simulates_ret: "simulates (ret x) (ret x)"
  by (simp add: simulates_def)

lemma simulates_push: "simulates (push_fields fs) (ret ())"
  by (simp add: simulates_def push_fields_def split: prod.split)

lemma simulates_bind:
  assumes "simulates m m'" and "\<And>x. simulates (f x) (f' x)"
  shows "simulates (bindM m f) (bindM m' f')"
  unfolding simulates_def
proof
  fix s
  obtain v s' where run: "m s = (v, s')" by (cases "m s")
  then have "m' (fst s) = (v, fst s')"
    using assms(1) unfolding simulates_def by (metis fst_conv snd_conv)
  then show "(fst (bindM m f s), fst (snd (bindM m f s))) = bindM m' f' (fst s)"
    using run assms(2) by (cases v) (simp_all add: simulates_def bindM_def del: split_paired_All)
qed

lemma simulates_push_then:
  "simulates m m' \<Longrightarrow> simulates (bindM (push_fields fs) (\<lambda>_. m)) m'"
  using simulates_bind[OF simulates_push, of "\<lambda>_. m" "\<lambda>_. m'"] by (simp add: bindM_def fun_eq_iff simulates_def)

lemma simulates_payload:
  assumes "simulates m m'"
  shows "payload_of (custom_decoder m knd summary) = m'"
proof
  fix r
  obtain v s where run: "m (r, []) = (v, s)" by (cases "m (r, [])")
  then have "m' r = (v, fst s)"
    using assms unfolding simulates_def by (metis fst_conv snd_conv)
  then show "payload_of (custom_decoder m knd summary) r = m' r"
    using run by (cases v) (simp_all add: custom_decoder_def with_trace_def custom_payload_def bindM_def)
qed

lemma simulates_reflected:
  assumes "traced_env E"
  shows "simulates (trace_reflected E tid path depth) (reflected_plain E tid)"
proof -
  have "simulates (trace_reflected E tid path depth) (bindM (reflected_at E tid path depth) (\<lambda>d. ret (dv_value d)))"
    unfolding trace_reflected_def
    by (intro simulates_bind simulates_reading simulates_push_then simulates_ret)
  then show ?thesis
    by (simp only: reflected_value[OF assms])
qed

lemma simulates_field:
  assumes "traced_env E"
  shows "simulates (traced_reflected_field E tid name path depth)
    (bindM (liftR (member_type (proto E) tid name)) (reflected_plain E))"
  unfolding traced_reflected_field_def
  by (intro simulates_bind simulates_lift simulates_reflected[OF assms])

section \<open>The decoders agree\<close>

text \<open>Two decoders succeed alike: on the same records, with the same payload and the same end.\<close>

definition agrees :: "(reader, 'a) op \<Rightarrow> (reader, 'a) op \<Rightarrow> bool" where
  "agrees m m' \<longleftrightarrow> (\<forall>r x r'. m r = (Inr x, r') \<longleftrightarrow> m' r = (Inr x, r'))"

lemma agrees_eq: "m = m' \<Longrightarrow> agrees m m'"
  by (simp add: agrees_def)

lemma reflected_payload_value:
  assumes "traced_env E"
  shows "payload_of (reflected_payload E tid project) = bindM (reflected_plain E tid) (\<lambda>v. liftR (project v))"
  unfolding reflected_value[OF assms, of tid "ascii ''value''" 0, symmetric] reflected_payload_def
  by (auto simp: fun_eq_iff bindM_def liftR_def split: prod.split sum.split)

lemma profile_settings_agrees:
  assumes "traced_env E"
  shows "payload_of (profile_settings_with_provenance E tid) = decode_profile_settings E tid"
proof -
  have "simulates (trace_fields E tid names path depth) (skip_reflected E tid names)" for names path depth
  proof (induction names)
    case Nil
    then show ?case by (simp add: simulates_def)
  next
    case (Cons name names)
    have "simulates (trace_fields E tid (name # names) path depth)
        (bindM (bindM (liftR (member_type (proto E) tid name)) (reflected_plain E)) (\<lambda>_. skip_reflected E tid names))"
      unfolding trace_fields.simps by (intro simulates_bind simulates_field[OF assms] Cons.IH)
    then show ?case by (simp add: bind_assoc)
  qed
  then show ?thesis
    unfolding profile_settings_with_provenance_def decode_profile_settings_def
    by (intro simulates_payload simulates_bind simulates_ret)
qed

lemma game_site_info_agrees:
  assumes "traced_env E"
  shows "agrees (payload_of (game_site_info_with_provenance E tid)) (decode_game_site_info E tid)"
proof -
  have "payload_of (game_site_info_with_provenance E tid) =
    bindM (bindM (liftR (member_type (proto E) tid ''m_externalIp4Addr'')) (reflected_plain E)) (\<lambda>_.
    bindM (bindM (liftR (member_type (proto E) tid ''m_siteData'')) (reflected_plain E)) (\<lambda>v.
    ret (startup ''game-site-info'' (array_count v) None)))"
    unfolding game_site_info_with_provenance_def
    by (intro simulates_payload simulates_bind simulates_ret simulates_field[OF assms])
  then show ?thesis
    by (cases "member_type (proto E) tid ''m_externalIp4Addr''"; cases "member_type (proto E) tid ''m_siteData''")
      (auto simp: agrees_def decode_game_site_info_def bindM_def liftR_def split: prod.split sum.split)
qed

lemma club_records_agree:
  "payload_of (club_summaries_with_provenance E tid) = decode_club_summaries E tid"
  "payload_of (club_info_with_provenance E tid) = decode_club_info E tid"
  unfolding club_summaries_with_provenance_def decode_club_summaries_def club_info_with_provenance_def decode_club_info_def
  by (auto simp: fun_eq_iff bindM_def split: prod.split sum.split)

lemma club_invite_action_agrees:
  assumes "traced_env E"
  shows "payload_of (club_invite_action_with_provenance E tid) = decode_club_invite_action E tid"
  unfolding decode_club_invite_action_def club_value[OF assms, symmetric] club_invite_action_with_provenance_def
  by (auto simp: fun_eq_iff bindM_def liftR_def split: prod.split sum.split)

lemmas reflected_routes = toon_name_resolved_with_provenance_def decode_toon_name_resolved_def
  member_clan_tag_with_provenance_def decode_member_clan_tag_def club_search_with_provenance_def decode_club_search_def

lemma reflected_routes_agree:
  assumes "traced_env E"
  shows "payload_of (toon_name_resolved_with_provenance E tid) = decode_toon_name_resolved E tid"
    "payload_of (member_clan_tag_with_provenance E tid) = decode_member_clan_tag E tid"
    "payload_of (club_search_with_provenance E tid) = decode_club_search E tid"
  unfolding reflected_routes reflected_payload_value[OF assms] by (simp_all add: fun_eq_iff bindM_def split: prod.split sum.split)

lemmas route_ids = route_constants more_route_constants

lemma custom_routes:
  "has_custom_incoming_decoder route \<longleftrightarrow> route \<in> fst ` set (custom_decoders E tid)"
  "has_custom_incoming_decoder route \<longleftrightarrow> route \<in> fst ` set (traced_decoders E tid)"
  by (auto simp: has_custom_incoming_decoder_def custom_decoders_def traced_decoders_def)

lemmas plain_projections = decode_cache_stream_items_def decode_conference_descriptions_def
  decode_conference_member_counts_def decode_channel_list_def decode_presence_fields_def decode_presence_update_def
  decode_current_season_def decode_club_settings_def decode_message_frame_def decode_friends_list_def
  decode_friend_toons_def decode_account_blocks_def decode_toon_blocks_def decode_chat_membership_def
  decode_chat_message_def decode_chat_whisper_def decode_profile_read_def decode_profile_address_query_def
  decode_toon_list_def decode_toon_selected_def decode_toon_welcome_def join_decoders_agree invite_decoders_agree

lemma traced_decoders_agree:
  assumes "traced_env E"
  shows "\<forall>(route, m) \<in> set (traced_decoders E tid). \<exists>m'. map_of (custom_decoders E tid) route = Some m' \<and> agrees (payload_of m) m'"
  unfolding traced_decoders_def list.set ball_simps
  by (simp add: custom_decoders_def route_ids plain_projections agrees_eq game_site_info_agrees[OF assms] profile_settings_agrees[OF assms]
     club_records_agree club_invite_action_agrees[OF assms] reflected_routes_agree[OF assms])

section \<open>The dispatches agree\<close>

lemma traced_route:
  assumes "traced_env E" and "map_of (traced_decoders E tid) route = Some m"
  shows "\<exists>m'. decode_payload E route tid = m' \<and> agrees (payload_of m) m'"
proof -
  have "(route, m) \<in> set (traced_decoders E tid)"
    using assms(2) by (rule map_of_SomeD)
  then obtain m' where m': "map_of (custom_decoders E tid) route = Some m'" "agrees (payload_of m) m'"
    using traced_decoders_agree[OF assms(1)] by blast
  have "has_custom_incoming_decoder route"
    using m'(1) custom_routes(1) by (metis map_of_eq_None_iff option.distinct(1))
  then show ?thesis
    using m' by (simp add: decode_payload_def)
qed

lemma traced_payload:
  assumes "agrees (payload_of m) m'"
  shows "(\<exists>d. m r = (Inr d, r') \<and> dp_payload d = p) \<longleftrightarrow> m' r = (Inr p, r')"
proof -
  have "payload_of m r = (Inr p, r') \<longleftrightarrow> (\<exists>d. m r = (Inr d, r') \<and> dp_payload d = p)"
    by (auto simp: bindM_def split: prod.split sum.split)
  then show ?thesis
    using assms by (simp add: agrees_def)
qed

lemma trace_payload_error: "trace_payload E bs tid a b = Inl e \<Longrightarrow> aborting e"
  by (auto simp: trace_payload_def split: sum.splits if_split_asm)

text \<open>What the traced dispatch runs, and the payload the plain one decodes there.\<close>

definition traced_body :: "env \<Rightarrow> routing_header \<Rightarrow> u8 \<Rightarrow> u32 \<Rightarrow> (reader, payload \<times> decoded_field list) op" where
  "traced_body E h slot tid =
     (case map_of (traced_decoders E tid) (slot, command_id h) of
        Some m \<Rightarrow> bindM m (\<lambda>d. ret (dp_payload d, dp_provenance d))
      | None \<Rightarrow> bindM (decode_incoming_from E h) (\<lambda>(_, p). ret (p, [])))"

lemma traced_body_payload:
  assumes "traced_env E" and "service_slot h = Some slot" and "incoming_type (proto E) slot (command_id h) = Inr tid"
  shows "(\<exists>fs. traced_body E h slot tid r = (Inr (p, fs), r')) \<longleftrightarrow> decode_incoming_from E h r = (Inr (tid, p), r')"
proof (cases "map_of (traced_decoders E tid) (slot, command_id h)")
  case None
  then show ?thesis
    using assms(2,3) by (auto simp: traced_body_def decode_incoming_from_def bindM_def map_errM_def split: prod.split sum.split)
next
  case (Some m)
  have "(\<exists>fs. traced_body E h slot tid r = (Inr (p, fs), r')) \<longleftrightarrow> (\<exists>d. m r = (Inr d, r') \<and> dp_payload d = p)"
    using Some by (auto simp: traced_body_def bindM_def split: prod.split sum.split)
  also have "\<dots> \<longleftrightarrow> decode_payload E (slot, command_id h) tid r = (Inr p, r')"
    using traced_route[OF assms(1) Some] traced_payload by blast
  also have "\<dots> \<longleftrightarrow> decode_incoming_from E h r = (Inr (tid, p), r')"
    using assms(2,3) by (auto simp: decode_incoming_from_def bindM_def map_errM_def split: prod.split sum.split)
  finally show ?thesis .
qed

lemma with_provenance_routed:
  assumes "service_slot h = Some slot" and "incoming_type (proto E) slot (command_id h) = Inr tid"
  shows "decode_incoming_with_provenance_from E h r =
    (case traced_body E h slot tid r of
       (Inl e, r') \<Rightarrow> (Inl e, r')
     | (Inr (p, fs), r') \<Rightarrow>
         (case (if fs = [] then trace_payload E (rdata r') tid (rposition r) (rposition r') else Inr fs) of
            Inl e \<Rightarrow> (Inl e, r')
          | Inr gs \<Rightarrow> (Inr \<lparr>di_type_id = tid, di_payload = p, di_provenance = gs\<rparr>, r')))"
  using assms
  by (auto simp: decode_incoming_with_provenance_from_def traced_body_def[symmetric] bindM_def split: prod.split sum.split)

lemma provenance_sound:
  assumes "traced_env E" and "decode_incoming_with_provenance_from E h r = (Inr d, r')"
  shows "decode_incoming_from E h r = (Inr (di_type_id d, di_payload d), r')"
proof -
  obtain slot where slot: "service_slot h = Some slot"
    using assms(2) by (cases "service_slot h") (auto simp: decode_incoming_with_provenance_from_def bindM_def)
  obtain tid where tid: "incoming_type (proto E) slot (command_id h) = Inr tid"
    using assms(2) slot
    by (cases "incoming_type (proto E) slot (command_id h)") (auto simp: decode_incoming_with_provenance_from_def bindM_def)
  obtain fs where "traced_body E h slot tid r = (Inr (di_payload d, fs), r')" and "di_type_id d = tid"
    using assms(2) unfolding with_provenance_routed[OF slot tid] by (auto split: prod.splits sum.splits if_split_asm)
  then show ?thesis
    using traced_body_payload[OF assms(1) slot tid] by blast
qed

lemma provenance_complete:
  assumes "traced_env E" and run: "decode_incoming_from E h r = (Inr (tid, p), r')"
  shows "case decode_incoming_with_provenance_from E h r of
      (Inr d, r'') \<Rightarrow> di_type_id d = tid \<and> di_payload d = p \<and> r'' = r'
    | (Inl e, _) \<Rightarrow> aborting e"
proof -
  obtain slot where slot: "service_slot h = Some slot"
    using run by (cases "service_slot h") (auto simp: decode_incoming_from_def bindM_def)
  have tid: "incoming_type (proto E) slot (command_id h) = Inr tid"
    using run slot
    by (cases "incoming_type (proto E) slot (command_id h)") (auto simp: decode_incoming_from_def bindM_def split: prod.splits sum.splits)
  obtain fs where "traced_body E h slot tid r = (Inr (p, fs), r')"
    using traced_body_payload[OF assms(1) slot tid] run by blast
  then show ?thesis
    unfolding with_provenance_routed[OF slot tid]
    by (auto split: sum.split dest: trace_payload_error)
qed

end
