(* ===== verification/Logon_Laws.thy ===== *)
theory Logon_Laws
  imports Native_Client Stream_Laws Trace_Laws
begin

text \<open>
  The native logon: what leaves the client before the server is known, and what a session that comes out of it is.
\<close>

section \<open>Listening\<close>

text \<open>Operations that write nothing and leave the protection as it is.\<close>

definition listening :: "('k record_stream, 'a) op \<Rightarrow> bool" where
  "listening m \<longleftrightarrow> (\<forall>s v s'. m s = (v, s') \<longrightarrow> same_writer (link s) (link s')
     \<and> outbound_cipher s' = outbound_cipher s \<and> protection_enabled s' = protection_enabled s)"

lemma listeningD:
  "listening m \<Longrightarrow> m s = (v, s') \<Longrightarrow> same_writer (link s) (link s')
    \<and> outbound_cipher s' = outbound_cipher s \<and> protection_enabled s' = protection_enabled s"
  by (simp add: listening_def)

lemma listening_pure [intro]: "listening (ret x)" "listening (liftR v)"
  by (auto simp: listening_def liftR_def split: sum.splits)

lemma listening_bind [intro]: "listening m \<Longrightarrow> (\<And>x. listening (f x)) \<Longrightarrow> listening (bindM m f)"
  unfolding listening_def bindM_def same_writer_def by (fastforce split: prod.splits sum.splits)

lemma judge_buffer_same: "judge_buffer s = (v, s') \<Longrightarrow> s' = s\<lparr>buffer := buffer s'\<rparr>"
  by (auto simp: judge_buffer_def decode_buffer_def drain_def bindM_def
      split: prod.splits sum.splits error.splits option.splits if_split_asm)

lemma stream_read_writer: "stream_read n st = (v, st') \<Longrightarrow> same_writer st st'"
  by (auto simp: stream_read.simps same_writer_def split: list.splits read_event.splits)

lemma listening_receive [intro]: "listening (receive_record S)"
proof -
  have "same_writer (link s) (link s') \<and> outbound_cipher s' = outbound_cipher s
      \<and> protection_enabled s' = protection_enabled s" if "receive_record S s = (v, s')" for s v s'
    using that
  proof (induction S s arbitrary: v s' rule: receive_record.induct)
    case (1 S s)
    obtain d s1 where judge: "judge_buffer s = (d, s1)"
      by fastforce
    then have s1: "link s1 = link s" "outbound_cipher s1 = outbound_cipher s"
        "protection_enabled s1 = protection_enabled s"
      using judge_buffer_same[OF judge] by (metis (no_types) record_stream.select_convs(1,4,5) record_stream.surjective
          record_stream.update_convs(3) protection_enabled_def)+
    show ?case
    proof (cases d)
      case (Done r)
      then show ?thesis
        using "1.prems" judge s1 by (subst (asm) receive_record.simps) simp
    next
      case Skipped
      then show ?thesis
        using "1.prems" "1.IH"(1)[OF judge[symmetric] Skipped] judge s1 by (subst (asm) receive_record.simps) simp
    next
      case Starved
      obtain r st where read: "stream_read READ_CHUNK_SIZE (link s1) = (r, st)"
        by fastforce
      note out = stream_read_writer[OF read]
      show ?thesis
      proof (cases r)
        case (Inl e)
        then show ?thesis
          using "1.prems" judge Starved read out s1 by (subst (asm) receive_record.simps) (auto simp: protection_enabled_def)
      next
        case (Inr bs)
        show ?thesis
        proof (cases bs)
          case Nil
          then show ?thesis
            using "1.prems" judge Starved read out s1 Inr
            by (subst (asm) receive_record.simps) (auto simp: protection_enabled_def)
        next
          case (Cons b cs)
          have "receive_record S (take_chunk S (b # cs) (s1\<lparr>link := st\<rparr>)) = (v, s')"
            using "1.prems" judge Starved read Inr Cons by (subst (asm) receive_record.simps) simp
          then show ?thesis
            using "1.IH"(2)[OF judge[symmetric] Starved read[symmetric] Inr Cons] out s1
            by (auto simp: take_chunk_def protection_enabled_def same_writer_def split: option.splits)
        qed
      qed
    qed
  qed
  then show ?thesis
    by (simp add: listening_def)
qed

lemma listening_logon:
  "listening (receive_calm S)" "listening (receive_resume S)" "listening (answer_server S random key peer)"
proof -
  show calm: "listening (receive_calm S)" for S :: "'k suite"
    unfolding receive_calm_def by (intro listening_bind listening_receive listening_pure)
  show "listening (receive_resume S)"
    unfolding receive_resume_def by (auto simp del: ret_apply intro!: listening_bind calm)
  show "listening (answer_server S random key peer)"
    unfolding answer_server_def by (intro listening_bind calm listening_pure)
qed

section \<open>Sending in the clear\<close>

lemma send_clear:
  assumes "send_record S bs s = (v, s')" and "outbound_cipher s = None"
  shows "\<exists>n. outgoing (link s') = outgoing (link s) @ take n bs \<and> (v = Inr () \<longrightarrow> take n bs = bs)"
    and "outbound_cipher s' = None" and "protection_enabled s' = protection_enabled s"
  using assms
  by (auto simp: send_record_def bindM_def write_all_def flush_def protection_enabled_def
      split: prod.splits sum.splits option.splits if_split_asm)
    (metis take_all order_refl)+

section \<open>Both proofs\<close>

definition modules_of :: "bsn_field list \<Rightarrow> bsn_value list result" where
  "modules_of request = rbind (require_field request (ascii ''m_request'')) expect_array"

text \<open>The final modules of a resume response that reports success.\<close>

definition final_modules :: "bsn_field list \<Rightarrow> bsn_value list result" where
  "final_modules resume =
     rbind (rbind (require_field resume (ascii ''m_result'')) expect_choice) (\<lambda>(i, outer).
     if i \<noteq> 0 then native_error (ResumeRejected i)
     else rbind (expect_struct outer) (\<lambda>success.
          rbind (rbind (require_field success (ascii ''ResponseSuccessCommon'')) expect_struct) (\<lambda>common.
          rbind (require_field common (ascii ''m_finalRequest'')) expect_array)))"

lemma module_parts_iff:
  "module_parts m = Some (a, d) \<longleftrightarrow>
    (\<exists>fs. expect_struct m = Inr fs \<and> rbind (require_field fs (ascii ''m_id'')) expect_bytes = Inr a
      \<and> rbind (require_field fs (ascii ''m_data'')) expect_bytes = Inr d)"
  unfolding module_parts_def
  by (cases "expect_struct m"; simp) (auto simp: rbind_Inr_iff split: sum.splits)

lemma phase_split: "length d = Suc n \<and> d ! 0 = b \<longleftrightarrow> (\<exists>r. d = b # r \<and> length r = n)"
  by (cases d) auto

lemma validate_iff:
  "validate_resume_server_proof resume p = Inr () \<longleftrightarrow>
    (\<exists>m. final_modules resume = Inr [m] \<and> length (expected_server_proof p) = 32
      \<and> module_parts m = Some (SESSION_PROOF_MODULE_ID, 2 # expected_server_proof p))"
proof -
  have last: "(if length ms \<noteq> 1 then native_error FinalModuleSet
       else
         rbind (expect_struct (ms ! 0)) (\<lambda>module.
         rbind (rbind (require_field module (ascii ''m_id'')) expect_bytes) (\<lambda>identifier.
         rbind (rbind (require_field module (ascii ''m_data'')) expect_bytes) (\<lambda>data.
         if identifier \<noteq> SESSION_PROOF_MODULE_ID then native_error UnknownFinalModule
         else if length data \<noteq> 33 \<or> data ! 0 \<noteq> 2 then native_error InvalidProofPhase
         else if tl data \<noteq> expected_server_proof p then native_error ServerProofFailed
         else Inr ())))) = Inr ()
    \<longleftrightarrow> (\<exists>m. ms = [m] \<and> length (expected_server_proof p) = 32
      \<and> module_parts m = Some (SESSION_PROOF_MODULE_ID, 2 # expected_server_proof p))" for ms
  proof (cases "length ms = 1")
    case True
    then obtain m where ms: "ms = [m]"
      by (auto simp: length_Suc_conv)
    have phase: "\<not> (length d \<noteq> 33 \<or> d ! 0 \<noteq> 2) \<and> tl d = e \<longleftrightarrow> d = 2 # e \<and> length e = 32" for d e :: bytes
      using phase_split[of d 32 2] by (cases d) auto
    show ?thesis
    proof (cases "module_parts m")
      case None
      have "rbind (expect_struct m) (\<lambda>module.
         rbind (rbind (require_field module (ascii ''m_id'')) expect_bytes) (\<lambda>identifier.
         rbind (rbind (require_field module (ascii ''m_data'')) expect_bytes) (f identifier))) \<noteq> Inr ()" for f
        using None unfolding module_parts_def
        by (cases "expect_struct m"; simp split: sum.splits) (auto simp: rbind_def split: sum.splits)
      then show ?thesis
        using None by (simp add: ms)
    next
      case (Some q)
      obtain a d fs where q: "q = (a, d)" "expect_struct m = Inr fs"
          "rbind (require_field fs (ascii ''m_id'')) expect_bytes = Inr a"
          "rbind (require_field fs (ascii ''m_data'')) expect_bytes = Inr d"
        using Some by (cases q) (auto simp: module_parts_iff)
      show ?thesis
        using phase[of d "expected_server_proof p"] unfolding ms by (auto simp: q Some)
    qed
  qed auto
  show ?thesis
    unfolding validate_resume_server_proof_def final_modules_def
    by (cases "rbind (require_field resume (ascii ''m_result'')) expect_choice")
      (auto simp: rbind_Inr_iff last simp del: One_nat_def split: prod.splits)
qed

text \<open>The modules that were asked for: a thumbprint that verifies, and a session nonce that was answered with \<open>p\<close>.\<close>

definition thumbprint_module :: "'k suite \<Rightarrow> bytes \<Rightarrow> bsn_value \<Rightarrow> bool" where
  "thumbprint_module S ctx v \<longleftrightarrow>
     (\<exists>sig. module_parts v = Some (THUMBPRINT_MODULE_ID, sig) \<and> verify_thumbprint_proof S ctx sig)"

definition session_module :: "'k suite \<Rightarrow> bytes option \<Rightarrow> bytes \<Rightarrow> session_proof \<Rightarrow> bsn_value \<Rightarrow> bool" where
  "session_module S random seed p v \<longleftrightarrow>
     (\<exists>srv. module_parts v = Some (SESSION_PROOF_MODULE_ID, 0 # srv) \<and> build_session_proof S random seed srv = Inr p)"

lemma scan_module_step:
  assumes "scan_module S random seed ctx v s = Inr s'"
  shows "(thumbprint_module S ctx v \<and> \<not> saw_thumbprint s \<and> s' = s\<lparr>saw_thumbprint := True\<rparr>)
    \<or> (\<not> thumbprint_module S ctx v \<and> \<not> saw_session s \<and> (\<exists>p. session_module S random seed p v
        \<and> s' = s\<lparr>saw_session := True, scan_outputs := scan_outputs s @ [proof_output p], scan_session := Some p\<rparr>))"
  using scan_module_parts[OF assms] by (auto simp: thumbprint_module_def session_module_def)

lemma scan_modules_first:
  assumes "scan_modules S random seed ctx (v # vs) s = Inr s'"
  obtains s1 where "scan_modules S random seed ctx vs s1 = Inr s'"
    and "(thumbprint_module S ctx v \<and> \<not> saw_thumbprint s \<and> s1 = s\<lparr>saw_thumbprint := True\<rparr>)
      \<or> (\<not> thumbprint_module S ctx v \<and> \<not> saw_session s \<and> (\<exists>p. session_module S random seed p v
        \<and> s1 = s\<lparr>saw_session := True, scan_outputs := scan_outputs s @ [proof_output p], scan_session := Some p\<rparr>))"
  using assms that scan_module_step unfolding scan_modules.simps rbind_Inr_iff by blast

lemma scan_modules_thumbprint:
  "scan_modules S random seed ctx vs s = Inr s' \<Longrightarrow> saw_thumbprint s' \<longleftrightarrow> saw_thumbprint s \<or> list_ex (thumbprint_module S ctx) vs"
proof (induction vs arbitrary: s)
  case (Cons v vs)
  from Cons.prems show ?case
    by (rule scan_modules_first) (use Cons.IH in fastforce)
qed simp

lemma scan_modules_answered:
  "scan_modules S random seed ctx vs s = Inr s' \<Longrightarrow> saw_session s \<Longrightarrow>
    saw_session s' \<and> scan_session s' = scan_session s \<and> scan_outputs s' = scan_outputs s"
proof (induction vs arbitrary: s)
  case (Cons v vs)
  from Cons.prems(1) show ?case
    by (rule scan_modules_first) (use Cons.IH Cons.prems(2) in fastforce)
qed simp

lemma scan_modules_session:
  "scan_modules S random seed ctx vs s = Inr s' \<Longrightarrow> \<not> saw_session s \<Longrightarrow> saw_session s' \<Longrightarrow>
    \<exists>p. list_ex (session_module S random seed p) vs \<and> scan_session s' = Some p \<and> scan_outputs s' = scan_outputs s @ [proof_output p]"
proof (induction vs arbitrary: s)
  case (Cons v vs)
  from Cons.prems(1) show ?case
    by (rule scan_modules_first) (use Cons.IH Cons.prems(2,3) scan_modules_answered in fastforce)
qed simp

lemma scan_modules_count:
  "scan_modules S random seed ctx vs s = Inr s' \<Longrightarrow>
    length vs + of_bool (saw_thumbprint s) + of_bool (saw_session s) = of_bool (saw_thumbprint s') + of_bool (saw_session s')"
proof (induction vs arbitrary: s)
  case (Cons v vs)
  from Cons.prems show ?case
    by (rule scan_modules_first) (use Cons.IH in fastforce)
qed simp

text \<open>A request that is answered has exactly the two modules, and the answer is the one proof.\<close>

lemma answered:
  assumes "answer_proof_request S random request seed ctx = Inr a"
  obtains ms where "modules_of request = Inr ms" and "length ms = 2" and "list_ex (thumbprint_module S ctx) ms"
    and "list_ex (session_module S random seed (session a)) ms" and "outputs a = [proof_output (session a)]"
proof -
  obtain ms s where s: "modules_of request = Inr ms" "scan_modules S random seed ctx ms scan_new = Inr s"
      "saw_thumbprint s" "saw_session s" "scan_session s = Some (session a)" "outputs a = scan_outputs s"
    using assms by (auto simp: answer_proof_request_def modules_of_def rbind_Inr_iff split: if_split_asm)
  have "list_ex (thumbprint_module S ctx) ms" "length ms = 2"
    using scan_modules_thumbprint[OF s(2)] scan_modules_count[OF s(2)] s(3,4) by (simp_all add: scan_new_def)
  moreover have "list_ex (session_module S random seed (session a)) ms" "scan_outputs s = [proof_output (session a)]"
    using scan_modules_session[OF s(2)] s(4,5) by (auto simp: scan_new_def)
  ultimately show thesis
    using that s(1,6) by simp
qed

section \<open>The handshake\<close>

lemma answer_server_ok:
  assumes "answer_server S random key peer s = (Inr (depot, a), s')"
  shows "\<exists>ctx request. thumbprint_context_for_peer peer = Inr ctx \<and> answer_proof_request S random request key ctx = Inr a"
  using assms unfolding answer_server_def by (auto simp: bindM_Inr_iff)

text \<open>A peer that cannot sign for its own address gets the resume request, or a part of it, and nothing else.\<close>

lemma impostor_learns_nothing:
  assumes impostor: "\<And>ctx sig. thumbprint_context_for_peer peer = Inr ctx \<Longrightarrow> \<not> thumbprint_ok S ctx sig"
    and clear: "outbound_cipher s = None" and run: "handshake S E random bootstrap region peer s = (v, s')"
  shows "(\<exists>e. v = Inl e) \<and> (\<exists>n. outgoing (link s') = outgoing (link s) @
      take n (case resume_request E bootstrap (Some region) of Inr bs \<Rightarrow> bs | Inl _ \<Rightarrow> []))"
proof (cases "resume_request E bootstrap (Some region)")
  case (Inl e)
  then show ?thesis
    using run by (auto simp: handshake_def bindM_def)
next
  case (Inr bs)
  obtain u s1 where send: "send_record S bs s = (u, s1)"
    by fastforce
  obtain n where out: "outgoing (link s1) = outgoing (link s) @ take n bs"
    using send_clear(1)[OF send clear] by blast
  show ?thesis
  proof (cases u)
    case (Inl e)
    then show ?thesis
      using run Inr send out by (auto simp: handshake_def bindM_def)
  next
    case sent: (Inr u')
    obtain w s2 where answer: "answer_server S random (nh_session_key bootstrap) peer s1 = (w, s2)"
      by fastforce
    have "w \<noteq> Inr x" for x
    proof
      assume "w = Inr x"
      then obtain ctx request where "thumbprint_context_for_peer peer = Inr ctx"
          "answer_proof_request S random request (nh_session_key bootstrap) ctx = Inr (snd x)"
        using answer_server_ok[of S random "nh_session_key bootstrap" peer s1 "fst x" "snd x" s2] answer by auto
      then show False
        using impostor by (auto elim!: answered simp: thumbprint_module_def verify_thumbprint_proof_def list_ex_iff)
    qed
    then obtain e where w: "w = Inl e"
      by (cases w) auto
    have "outgoing (link s2) = outgoing (link s1)"
      using listeningD[OF listening_logon(3) answer] by (simp add: same_writer_def)
    then show ?thesis
      using run Inr send sent answer w out by (auto simp: handshake_def bindM_def)
  qed
qed

lemma finish_logon_ok:
  assumes "finish_logon S E a s = (Inr (), s')" and "outbound_cipher s = None"
  obtains b2 b3 resume s2 where "proof_response E (outputs a) = Inr b2" and "enable_encryption E = Inr b3"
    and "validate_resume_server_proof resume (session a) = Inr ()"
    and "enable_protection S (transport_key (session a)) s2 = (Inr (), s')"
    and "outgoing (link s2) = outgoing (link s) @ b2 @ b3"
proof -
  obtain b2 s1 g s3 resume b3 s2 where run: "proof_response E (outputs a) = Inr b2" "send_record S b2 s = (Inr (), s1)"
      "receive_resume S s1 = (Inr g, s3)" "validate_resume_server_proof resume (session a) = Inr ()"
      "enable_encryption E = Inr b3" "send_record S b3 s3 = (Inr (), s2)"
      "enable_protection S (transport_key (session a)) s2 = (Inr (), s')"
    using assms(1) unfolding finish_logon_def by (auto simp: bindM_Inr_iff)
  have s1: "outgoing (link s1) = outgoing (link s) @ b2" "outbound_cipher s1 = None"
    using send_clear[OF run(2) assms(2)] by auto
  have s3: "outgoing (link s3) = outgoing (link s1)" "outbound_cipher s3 = None"
    using listeningD[OF listening_logon(2) run(3)] s1(2) by (simp_all add: same_writer_def)
  have "outgoing (link s2) = outgoing (link s3) @ b3"
    using send_clear(1)[OF run(6) s3(2)] by auto
  then show thesis
    using that[OF run(1,5,4,7)] s1(1) s3(1) by simp
qed

lemma handshake_ok:
  assumes run: "handshake S E random bootstrap region peer s = (Inr (depot, p), s')" and clear: "outbound_cipher s = None"
  obtains b1 b2 b3 ctx request a resume s2 where "resume_request E bootstrap (Some region) = Inr b1"
    and "thumbprint_context_for_peer peer = Inr ctx"
    and "answer_proof_request S random request (nh_session_key bootstrap) ctx = Inr a" and "p = session a"
    and "proof_response E (outputs a) = Inr b2" and "enable_encryption E = Inr b3"
    and "validate_resume_server_proof resume p = Inr ()" and "enable_protection S (transport_key p) s2 = (Inr (), s')"
    and "outgoing (link s2) = outgoing (link s) @ b1 @ b2 @ b3"
proof -
  obtain b1 s1 a s3 where parts: "resume_request E bootstrap (Some region) = Inr b1" "send_record S b1 s = (Inr (), s1)"
      "answer_server S random (nh_session_key bootstrap) peer s1 = (Inr (depot, a), s3)"
      "finish_logon S E a s3 = (Inr (), s')" "p = session a"
    using run unfolding handshake_def by (auto simp: bindM_Inr_iff)
  have s1: "outgoing (link s1) = outgoing (link s) @ b1" "outbound_cipher s1 = None"
    using send_clear[OF parts(2) clear] by auto
  have s3: "outgoing (link s3) = outgoing (link s1)" "outbound_cipher s3 = None"
    using listeningD[OF listening_logon(3) parts(3)] s1(2) by (simp_all add: same_writer_def)
  obtain ctx request where known: "thumbprint_context_for_peer peer = Inr ctx"
      "answer_proof_request S random request (nh_session_key bootstrap) ctx = Inr a"
    using answer_server_ok[OF parts(3)] by blast
  show thesis
  proof (rule finish_logon_ok[OF parts(4) s3(2)])
    fix b2 b3 resume s2
    assume "proof_response E (outputs a) = Inr b2" "enable_encryption E = Inr b3"
      "validate_resume_server_proof resume (session a) = Inr ()"
      "enable_protection S (transport_key (session a)) s2 = (Inr (), s')"
      "outgoing (link s2) = outgoing (link s3) @ b2 @ b3"
    then show thesis
      using that[OF parts(1) known parts(5)] s1(1) s3(1) parts(5) by simp
  qed
qed

section \<open>An honest server\<close>

text \<open>A stream in the clear on which nothing fails, with the bytes still to come.\<close>

definition ready :: "env \<Rightarrow> 'k record_stream \<Rightarrow> bytes \<Rightarrow> bool" where
  "ready E s coming \<longleftrightarrow> protocol s = protocol_decoders E \<and> \<not> server_mode s \<and> inbound_cipher s = None \<and> outbound_cipher s = None
     \<and> steady (link s) \<and> room (link s) = None \<and> \<not> flush_fails (link s)
     \<and> buffer s @ pending (link s) = coming \<and> length coming < 2 ^ 59"

lemma ready_decoder: "ready E s coming \<Longrightarrow> record_decoder s = decode_incoming_from E"
  by (simp add: ready_def record_decoder_def protocol_decoders_def)

lemma ready_receive:
  assumes "lawful_cipher S" and "ready E s (bs @ rest)" and "crosses (decode_incoming_from E) bs g"
  shows "\<exists>s'. receive_record S s = (Inr g, s') \<and> ready E s' rest \<and> outgoing (link s') = outgoing (link s)"
proof -
  have "clear_view S s = concat [] @ bs @ rest" "length (clear_view S s) < 2 ^ 59"
    using assms(2) by (simp_all add: ready_def clear_view_def decrypted_def)
  then obtain s' where s': "receive_record S s = (Inr g, s')" "clear_view S s' = rest" "steady (link s')" "same_ends s s'"
    using receive_next[OF assms(1), of s bs g "[]" rest] assms(2,3) ready_decoder[OF assms(2)] by (auto simp: ready_def)
  moreover have "same_writer (link s) (link s')"
    using listeningD[OF listening_receive s'(1)] by simp
  ultimately show ?thesis
    using assms(2)
    by (auto simp: ready_def same_ends_def same_writer_def clear_view_def decrypted_def)
qed

lemma ready_send:
  assumes "ready E s coming"
  shows "\<exists>s'. send_record S bs s = (Inr (), s') \<and> ready E s' coming \<and> outgoing (link s') = outgoing (link s) @ bs"
  using assms by (auto simp: ready_def send_record_def bindM_def write_all_def flush_def steady_def quiet_def pending_def)

lemma ready_calm:
  assumes "lawful_cipher S" and "ready E s (bs @ rest)" and "crosses (decode_incoming_from E) bs g"
    and "route g = (Some AUTHENTICATION_SLOT, c)"
  shows "\<exists>s'. receive_calm S s = (Inr g, s') \<and> ready E s' rest \<and> outgoing (link s') = outgoing (link s)"
  using ready_receive[OF assms(1-3)] assms(4)
  by (auto simp: receive_calm_def raise_if_boom_def route_ids)

text \<open>A record of the authentication slot with a struct for a value.\<close>

definition struct_record :: "native_record \<Rightarrow> u8 \<Rightarrow> bsn_field list \<Rightarrow> bool" where
  "struct_record g command fs \<longleftrightarrow> route g = (Some AUTHENTICATION_SLOT, command)
     \<and> (\<exists>tid. reflected (rec_value g) = Some (Struct tid fs))"

lemma struct_recordD:
  assumes "struct_record g command fs"
  shows "route g = (Some AUTHENTICATION_SLOT, command)" "expect_route g AUTHENTICATION_SLOT command = Inr ()"
    "record_struct g label = Inr fs"
  using assms by (auto simp: struct_record_def expect_route_def record_struct_def)

lemma honest_logon:
  assumes S: "lawful_cipher S" and s: "ready E s (c1 @ c2 @ c3 @ rest)"
    and cross: "crosses (decode_incoming_from E) c1 g1" "crosses (decode_incoming_from E) c2 g2" "crosses (decode_incoming_from E) c3 g3"
    and g: "struct_record g1 AUTH_CONFIGURATION_COMMAND conf" "struct_record g2 AUTH_PROOF_COMMAND request"
      "struct_record g3 AUTH_RESUME_COMMAND resume"
    and conf: "struct_get conf (ascii ''m_useS3Depot'') = Some (Bool depot)"
    and ctx: "thumbprint_context_for_peer peer = Inr ctx"
    and answer: "answer_proof_request S random request (nh_session_key bootstrap) ctx = Inr a"
    and final: "validate_resume_server_proof resume (session a) = Inr ()"
    and own: "resume_request E bootstrap (Some region) = Inr b1" "proof_response E (outputs a) = Inr b2" "enable_encryption E = Inr b3"
  shows "\<exists>s2. ready E s2 rest \<and> outgoing (link s2) = outgoing (link s) @ b1 @ b2 @ b3
    \<and> handshake S E random bootstrap region peer s =
      (case enable_protection S (transport_key (session a)) s2 of
         (Inl e, s') \<Rightarrow> (Inl e, s') | (Inr u, s') \<Rightarrow> (Inr (depot, session a), s'))"
proof -
  note r = struct_recordD[OF g(1)] struct_recordD[OF g(2)] struct_recordD[OF g(3)]
  obtain s1 where s1: "send_record S b1 s = (Inr (), s1)" "ready E s1 (c1 @ c2 @ c3 @ rest)" "outgoing (link s1) = outgoing (link s) @ b1"
    using ready_send[OF s] by blast
  obtain s2 where s2: "receive_calm S s1 = (Inr g1, s2)" "ready E s2 (c2 @ c3 @ rest)" "outgoing (link s2) = outgoing (link s1)"
    using ready_calm[OF S s1(2) cross(1) r(1)] by blast
  obtain s3 where s3: "receive_calm S s2 = (Inr g2, s3)" "ready E s3 (c3 @ rest)" "outgoing (link s3) = outgoing (link s2)"
    using ready_calm[OF S s2(2) cross(2) r(4)] by blast
  obtain s4 where s4: "send_record S b2 s3 = (Inr (), s4)" "ready E s4 (c3 @ rest)" "outgoing (link s4) = outgoing (link s3) @ b2"
    using ready_send[OF s3(2)] by blast
  obtain s5 where s5: "receive_calm S s4 = (Inr g3, s5)" "ready E s5 rest" "outgoing (link s5) = outgoing (link s4)"
    using ready_calm[OF S s4(2) cross(3) r(7)] by blast
  obtain s6 where s6: "send_record S b3 s5 = (Inr (), s6)" "ready E s6 rest" "outgoing (link s6) = outgoing (link s5) @ b3"
    using ready_send[OF s5(2)] by blast
  have "required_bool conf ''m_useS3Depot'' = Inr depot"
    using conf by (simp add: required_bool_def)
  then have server: "answer_server S random (nh_session_key bootstrap) peer s1 = (Inr (depot, a), s3)"
    using s2(1) s3(1) r(2,3,5,6) ctx answer by (simp add: answer_server_def)
  have "receive_resume S s4 = (Inr g3, s5)"
    using s5(1) r(7) by (simp add: receive_resume_def route_ids)
  then have finish: "finish_logon S E a s3 = enable_protection S (transport_key (session a)) s6"
    using own(2,3) s4(1) s6(1) r(8,9) final by (simp add: finish_logon_def)
  have "handshake S E random bootstrap region peer s =
      (case enable_protection S (transport_key (session a)) s6 of
         (Inl e, s') \<Rightarrow> (Inl e, s') | (Inr u, s') \<Rightarrow> (Inr (depot, session a), s'))"
    using own(1) s1(1) server finish by (simp add: handshake_def bindM_def split: prod.split sum.split)
  then show ?thesis
    using s6(2,3) s5(3) s4(3) s3(3) s2(3) s1(3) by (intro exI[of _ s6]) simp
qed

text \<open>
  What an honest server with the seed sends in the clear: its configuration, a request with a thumbprint that
  verifies for its address and with a nonce, and, for the proof of the client, the success with its own.
\<close>

definition honest_script ::
    "'k suite \<Rightarrow> env \<Rightarrow> bytes option \<Rightarrow> bytes \<Rightarrow> bytes \<Rightarrow> bool \<Rightarrow> session_proof \<Rightarrow> server_session_proof \<Rightarrow> bytes \<Rightarrow> bool" where
  "honest_script S E random seed peer depot p q script \<longleftrightarrow>
     (\<exists>c1 c2 c3 g1 g2 g3 conf request resume ctx m1 m2 m3 sig srv.
        script = c1 @ c2 @ c3 \<and> crosses (decode_incoming_from E) c1 g1 \<and> crosses (decode_incoming_from E) c2 g2
        \<and> crosses (decode_incoming_from E) c3 g3
        \<and> struct_record g1 AUTH_CONFIGURATION_COMMAND conf \<and> struct_get conf (ascii ''m_useS3Depot'') = Some (Bool depot)
        \<and> struct_record g2 AUTH_PROOF_COMMAND request \<and> modules_of request = Inr [m1, m2]
        \<and> thumbprint_context_for_peer peer = Inr ctx
        \<and> module_parts m1 = Some (THUMBPRINT_MODULE_ID, sig) \<and> verify_thumbprint_proof S ctx sig
        \<and> module_parts m2 = Some (SESSION_PROOF_MODULE_ID, 0 # srv) \<and> build_session_proof S random seed srv = Inr p
        \<and> verify_client_session_proof S seed srv (proof_output p) = Inr q
        \<and> struct_record g3 AUTH_RESUME_COMMAND resume \<and> final_modules resume = Inr [m3]
        \<and> module_parts m3 = Some (SESSION_PROOF_MODULE_ID, 2 # ssp_server_proof q))"

lemma proof_parts:
  assumes "lawful_mac S" and "build_session_proof S random seed srv = Inr p"
  shows "length srv = 16" "length seed = 64" "length (transport_key p) = 64" "length (expected_server_proof p) = 32"
    "verify_client_session_proof S seed srv (proof_output p) =
      Inr \<lparr>ssp_server_proof = expected_server_proof p, ssp_transport_key = transport_key p\<rparr>"
proof -
  obtain cli where cli: "build_session_proof_with_nonce S seed srv cli = Inr p"
    using assms(2) by (auto simp: build_session_proof_def rbind_Inr_iff)
  then show "length srv = 16" "length seed = 64"
    by (auto simp: build_session_proof_with_nonce_def rbind_Inr_iff)
  show "length (transport_key p) = 64" "length (expected_server_proof p) = 32"
    using cli hmac_sha256_length[OF assms(1)]
    by (auto simp: build_session_proof_with_nonce_def derive_session_auth_key_def rbind_Inr_iff)
  show "verify_client_session_proof S seed srv (proof_output p) =
      Inr \<lparr>ssp_server_proof = expected_server_proof p, ssp_transport_key = transport_key p\<rparr>"
    by (rule session_proof_accepted[OF assms(1) cli])
qed

lemma module_scanned:
  "module_parts m = Some (THUMBPRINT_MODULE_ID, sig) \<Longrightarrow> verify_thumbprint_proof S ctx sig \<Longrightarrow> \<not> saw_thumbprint s \<Longrightarrow>
    scan_module S random seed ctx m s = Inr (s\<lparr>saw_thumbprint := True\<rparr>)"
  "module_parts m = Some (SESSION_PROOF_MODULE_ID, 0 # srv) \<Longrightarrow> length srv = 16 \<Longrightarrow> \<not> saw_session s \<Longrightarrow>
    build_session_proof S random seed srv = Inr p \<Longrightarrow> scan_module S random seed ctx m s =
      Inr (s\<lparr>saw_session := True, scan_outputs := scan_outputs s @ [proof_output p], scan_session := Some p\<rparr>)"
  by (auto simp: scan_module_def module_parts_iff)

lemma enables:
  assumes "lawful_suite S" and "length key = 64" and "inbound_cipher s = None" and "outbound_cipher s = None"
  shows "\<exists>s'. enable_protection S key s = (Inr (), s')"
proof -
  obtain a b where "hmac_sha256 S key [INBOUND_RC4_LABEL] = Inr a" "length a = 32"
      "hmac_sha256 S key [OUTBOUND_RC4_LABEL] = Inr b" "length b = 32"
    using hmac_sha256_ok[of S key] assms(1) unfolding lawful_suite_def by meson
  moreover have key: "\<exists>k. rc4_new S x = Inr k" if "length x = 32" for x
  proof -
    have "rc4_key S x \<noteq> None"
      using assms(1) that unfolding lawful_suite_def lawful_cipher_def by simp
    then show ?thesis
      by (auto simp: rc4_new_def)
  qed
  moreover obtain ka kb where "rc4_new S a = Inr ka" "rc4_new S b = Inr kb"
    using key calculation(2,4) by blast
  ultimately show ?thesis
    using assms(2-4) by (simp add: enable_protection_def derive_transport_rc4_keys_def install_ciphers_def bindM_def modifyM_def)
qed

text \<open>The handshake with an honest server yields a session under the key the server derived.\<close>

lemma honest_handshake:
  assumes S: "lawful_suite S" and s: "ready E s (script @ rest)"
    and script: "honest_script S E random (nh_session_key bootstrap) peer depot p q script"
    and own: "resume_request E bootstrap (Some region) = Inr b1" "proof_response E [proof_output p] = Inr b2" "enable_encryption E = Inr b3"
  obtains s2 s' where "ready E s2 rest" and "outgoing (link s2) = outgoing (link s) @ b1 @ b2 @ b3"
    and "enable_protection S (ssp_transport_key q) s2 = (Inr (), s')"
    and "handshake S E random bootstrap region peer s = (Inr (depot, p), s')"
    and "transport_key p = ssp_transport_key q"
proof -
  obtain c1 c2 c3 g1 g2 g3 conf request resume ctx m1 m2 m3 sig srv where
    sc: "script = c1 @ c2 @ c3" "crosses (decode_incoming_from E) c1 g1" "crosses (decode_incoming_from E) c2 g2"
        "crosses (decode_incoming_from E) c3 g3" "struct_record g1 AUTH_CONFIGURATION_COMMAND conf"
        "struct_get conf (ascii ''m_useS3Depot'') = Some (Bool depot)"
        "struct_record g2 AUTH_PROOF_COMMAND request" "modules_of request = Inr [m1, m2]"
        "thumbprint_context_for_peer peer = Inr ctx"
        "module_parts m1 = Some (THUMBPRINT_MODULE_ID, sig)" "verify_thumbprint_proof S ctx sig"
        "module_parts m2 = Some (SESSION_PROOF_MODULE_ID, 0 # srv)" "build_session_proof S random (nh_session_key bootstrap) srv = Inr p"
        "verify_client_session_proof S (nh_session_key bootstrap) srv (proof_output p) = Inr q"
        "struct_record g3 AUTH_RESUME_COMMAND resume" "final_modules resume = Inr [m3]"
        "module_parts m3 = Some (SESSION_PROOF_MODULE_ID, 2 # ssp_server_proof q)"
    using script unfolding honest_script_def by blast
  have mac: "lawful_mac S" and cipher: "lawful_cipher S"
    using S by (simp_all add: lawful_suite_def)
  note parts = proof_parts[OF mac sc(13)]
  have q: "ssp_server_proof q = expected_server_proof p" "ssp_transport_key q = transport_key p"
    using sc(14) parts(5) by auto
  let ?a = "\<lparr>outputs = [proof_output p], session = p\<rparr>"
  have "scan_modules S random (nh_session_key bootstrap) ctx [m1, m2] scan_new =
      Inr \<lparr>saw_thumbprint = True, saw_session = True, scan_outputs = [proof_output p], scan_session = Some p\<rparr>"
    using module_scanned(1)[OF sc(10,11)] module_scanned(2)[OF sc(12) parts(1) _ sc(13)] by (simp add: scan_new_def)
  then have answer: "answer_proof_request S random request (nh_session_key bootstrap) ctx = Inr ?a"
    using sc(8) by (simp add: answer_proof_request_def modules_of_def)
  have final: "validate_resume_server_proof resume (session ?a) = Inr ()"
    using sc(16,17) q(1) parts(4) unfolding validate_iff by simp
  have s3: "ready E s (c1 @ c2 @ c3 @ rest)"
    using s sc(1) by simp
  have own2: "proof_response E (outputs ?a) = Inr b2"
    using own(2) by simp
  obtain s2 where s2: "ready E s2 rest" "outgoing (link s2) = outgoing (link s) @ b1 @ b2 @ b3"
      "handshake S E random bootstrap region peer s =
        (case enable_protection S (transport_key (session ?a)) s2 of
           (Inl e, s') \<Rightarrow> (Inl e, s') | (Inr u, s') \<Rightarrow> (Inr (depot, session ?a), s'))"
    using honest_logon[OF cipher s3 sc(2-5,7,15,6,9) answer final own(1) own2 own(3)] by (elim exE conjE) (rule that)
  have clear: "inbound_cipher s2 = None" "outbound_cipher s2 = None"
    using s2(1) by (simp_all add: ready_def)
  obtain s' where on: "enable_protection S (transport_key p) s2 = (Inr (), s')"
    using enables[OF S parts(3) clear] by blast
  show thesis
  proof (rule that[OF s2(1,2) _ _ q(2)[symmetric]])
    show "enable_protection S (ssp_transport_key q) s2 = (Inr (), s')"
      unfolding q(2) by (rule on)
    show "handshake S E random bootstrap region peer s = (Inr (depot, p), s')"
      unfolding s2(3) proof_answer.select_convs on by (simp only: prod.case sum.case)
  qed
qed

end
