(* ===== verification/Protocol_Laws.thy ===== *)
theory Protocol_Laws
  imports Trace_Laws Record_Routes Stream_Laws
begin

text \<open>
  What a protocol that was built from a schema guarantees to the rest of the client, and how records reach a
  decoder through its dispatch.
\<close>

section \<open>Registration\<close>

text \<open>The codec of a protocol over a schema: well-formed, and the only code it refers to is that of the layouts.\<close>

definition protocol_codec :: "schema \<Rightarrow> codec \<Rightarrow> bool" where
  "protocol_codec s c \<longleftrightarrow> wf_codec c \<and> native_layouts c \<and> cschema c = s"

definition native_layout :: "registered_wire_layout \<Rightarrow> bool" where
  "native_layout l \<longleftrightarrow> (\<forall>layout. l = CustomLayout layout \<longrightarrow>
     wl_decode layout \<in> {CLUB_SUMMARY_CODE, CLUB_USER_TEXT_CODE, CATEGORY_CODE} \<and> wl_decode_traced layout = Some (wl_decode layout))"

lemma native_layouts_insert:
  "native_layouts c \<Longrightarrow> native_layout l \<Longrightarrow> native_layouts (c\<lparr>wire_layouts := (wire_layouts c)(tid \<mapsto> l)\<rparr>)"
  by (auto simp: native_layouts_def native_layout_def)

lemma register_named_keeps:
  assumes "protocol_codec s c" and "native_layout l" and "\<And>sh. obfuscated sh \<Longrightarrow> layout_fits l sh"
  shows "protocol_codec s (snd (register_named name l c))"
  using assms register_named_wf[of c l name] native_layouts_insert[of c l]
  by (auto simp: protocol_codec_def register_named_def register_obfuscated_def split: sum.splits)

lemma register_struct_keeps:
  assumes "protocol_codec s c"
  shows "protocol_codec s (snd (register_struct name layout candidate c))"
  using assms register_struct_wf[of c name layout candidate] native_layouts_insert[of c]
  by (auto simp: protocol_codec_def register_struct_def native_layout_def split: sum.splits)

definition native_entry :: "layout_entry \<Rightarrow> bool" where
  "native_entry e \<longleftrightarrow> (\<forall>t n k. e = CustomEntry t n k \<longrightarrow> k \<in> {CLUB_SUMMARY_CODE, CLUB_USER_TEXT_CODE, CATEGORY_CODE})"

lemma native_entry_simps [simp]:
  "native_entry (StructEntry t n fs)" "native_entry (CandidateStructEntry t n fs)"
  "native_entry (CustomEntry t n k) \<longleftrightarrow> k \<in> {CLUB_SUMMARY_CODE, CLUB_USER_TEXT_CODE, CATEGORY_CODE}"
  by (simp_all add: native_entry_def)

lemma register_entry_keeps:
  assumes "protocol_codec s c" and "native_entry e"
  shows "protocol_codec s (snd (register_entry e c))"
proof (cases e)
  case (CustomEntry t n k)
  then show ?thesis
    using assms register_named_keeps[OF assms(1)]
    by (simp add: register_wire_layout_def native_layout_def layout_fits_def)
qed (use register_struct_keeps[OF assms(1)] in \<open>simp_all add: register_struct_wire_layout_def register_candidate_struct_wire_layout_def\<close>)

lemma register_reflected_keeps:
  assumes "protocol_codec s c"
  shows "protocol_codec s (snd (register_verified_reflected name c))"
    and "protocol_codec s (snd (register_candidate_reflected name c))"
  using register_named_keeps[OF assms]
  by (simp_all add: register_verified_reflected_def register_candidate_reflected_def native_layout_def layout_fits_def)

lemma bindM_keeps:
  "P (snd (m c)) \<Longrightarrow> (\<And>x c. P c \<Longrightarrow> P (snd (f x c))) \<Longrightarrow> P (snd (bindM m f c))"
  by (auto simp: bindM_def split: prod.splits sum.splits)

lemma forM_keeps:
  assumes "P c" and "\<And>x c. x \<in> set xs \<Longrightarrow> P c \<Longrightarrow> P (snd (f x c))"
  shows "P (snd (forM xs f c))"
  using assms
proof (induction xs arbitrary: c)
  case (Cons x xs)
  have "P (snd (bindM (f x) (\<lambda>y. bindM (forM xs f) (\<lambda>ys. ret (y # ys))) c))"
    by (rule bindM_keeps[where m = "f x" and P = P])
      (simp_all add: Cons.prems, rule bindM_keeps[where m = "forM xs f" and P = P], simp_all add: Cons)
  then show ?case
    by simp
qed simp

lemma native_entries_intros:
  "list_all native_entry []"
  "list_all native_entry es \<Longrightarrow> list_all native_entry (StructEntry t n fs # es)"
  "list_all native_entry es \<Longrightarrow> list_all native_entry (CandidateStructEntry t n fs # es)"
  "list_all native_entry es \<Longrightarrow> list_all native_entry (CustomEntry t n CLUB_SUMMARY_CODE # es)"
  "list_all native_entry es \<Longrightarrow> list_all native_entry (CustomEntry t n CLUB_USER_TEXT_CODE # es)"
  "list_all native_entry es \<Longrightarrow> list_all native_entry (CustomEntry t n CATEGORY_CODE # es)"
  by simp_all

lemma native_entries:
  "list_all native_entry shared_layouts" "list_all native_entry session_and_toon_layouts" "list_all native_entry empty_layouts"
  unfolding shared_layouts_def friend_and_club_layouts_def channel_layouts_def session_and_toon_layouts_def
      empty_layouts_def append.simps
  by (rule native_entries_intros)+

lemma register_layouts_keeps:
  assumes "protocol_codec s c"
  shows "protocol_codec s (snd (register_layouts c))"
proof -
  have keeps: "protocol_codec s (snd (forM es register_entry c))" if "list_all native_entry es" "protocol_codec s c" for es c
    using that by (intro forM_keeps[where P = "protocol_codec s"] register_entry_keeps) (auto simp: list_all_iff)
  have reflected: "protocol_codec s (snd (forM names register_verified_reflected c))"
      "protocol_codec s (snd (forM names register_candidate_reflected c))" if "protocol_codec s c" for names c
    by (rule forM_keeps[where P = "protocol_codec s", OF that register_reflected_keeps(1)], assumption,
        rule forM_keeps[where P = "protocol_codec s", OF that register_reflected_keeps(2)], assumption)
  have next_step: "protocol_codec s (snd (bindM m f c))"
    if "\<And>c. protocol_codec s c \<Longrightarrow> protocol_codec s (snd (m c))"
      and "\<And>x c. protocol_codec s c \<Longrightarrow> protocol_codec s (snd (f x c))" and "protocol_codec s c"
    for c and m :: "(codec, unit list) op" and f :: "unit list \<Rightarrow> (codec, unit) op"
    by (rule bindM_keeps[where P = "protocol_codec s"]) (simp_all add: that)
  show ?thesis
    unfolding register_layouts_def
    by (intro next_step keeps reflected native_entries assms) simp_all
qed

lemma rbind_resultE: "rbind m f = Inr y \<Longrightarrow> (\<And>x. f x = Inr y \<Longrightarrow> Q) \<Longrightarrow> Q"
  by (auto simp: rbind_Inr_iff)

lemma registered_result:
  "(case x of (Inl e, _) \<Rightarrow> Inl e | (Inr u, c) \<Rightarrow> Inr (f c)) = Inr y \<Longrightarrow> y = f (snd x)"
  by (auto split: prod.splits sum.splits)

lemma from_schema_codec:
  assumes "from_schema s = Inr P"
  shows "snd (register_layouts (codec_from_schema s)) = pcodec P"
  using assms unfolding from_schema_def
  by - ((erule rbind_resultE)+, drule registered_result, simp only: protocol.simps)

theorem protocol_new_codec:
  assumes "protocol_new m = Inr P"
  shows "protocol_codec (Runtime m) (pcodec P)"
proof -
  have "protocol_codec (Runtime m) (codec_from_schema (Runtime m))"
    using wf_codec_new by (simp add: protocol_codec_def native_layouts_def codec_from_schema_def)
  then show ?thesis
    using register_layouts_keeps from_schema_codec[of "Runtime m" P] assms by (metis protocol_new_def)
qed

section \<open>Dispatch\<close>

lemma parses_dispatch:
  assumes "incoming_types (proto E) (s, c) = Some tid" and "map_of (custom_decoders E tid) (s, c) = Some dec"
    and "parses dec v img"
  shows "parses (decode_incoming_from E (routed c s)) (tid, v) img"
proof -
  have "(s, c) \<in> fst ` set (custom_decoders E tid)"
    using assms(2) by (metis map_of_eq_None_iff option.distinct(1))
  then have payload: "decode_payload E (s, c) tid = dec"
    using assms(2) custom_routes(1)[of "(s, c)" E tid] by (simp add: decode_payload_def)
  have "parses (bindM (map_errM (\<lambda>r. append_route_context s c tid start (rposition r)) dec) (\<lambda>p. ret (tid, p))) (tid, v) img" for start
    using parses_bind[OF parses_map_err[OF assms(3), of "\<lambda>r. append_route_context s c tid start (rposition r)"] parses_ret, of "\<lambda>p. (tid, p)"]
    by (simp del: ret_apply)
  then show ?thesis
    unfolding decode_incoming_from_def
    by (simp only: routing_header.simps payload incoming_type_def assms(1) ok_or_simps lift_Inr) (rule parses_bind_gets)
qed

context record_route
begin

lemma reaches_client:
  assumes "canon v" and "c < 64" "s < 16" and "incoming_types (proto E) (s, c) = Some tid"
    and "map_of (custom_decoders E tid) (s, c) = Some dec"
  shows "\<exists>bs. record_bytes c s (enc v) = Inr bs
    \<and> crosses (decode_incoming_from E) bs (routed_record c s tid (view v) (length (image v 11)))"
  by (rule record_crosses[where dec = "decode_incoming_from E", OF assms(2,3) body_emitted[OF assms(1)] parses_dispatch[OF assms(4,5) body_parsed[OF assms(1)]]])
    (rule bounded_below[OF body_small[OF assms(1)]])

end

end
