(* ===== verification/Encode_Room.thy ===== *)
theory Encode_Room
  imports Record_Routes Codec_Laws Join_Laws
begin

text \<open>
  Values that conform to their types: a function that checks a value along the schema and computes the room it
  needs, and the proof that the encoder accepts every such value and writes no more than that.
\<close>

section \<open>Writers with a bound\<close>

definition writes :: "(writer, unit) op \<Rightarrow> nat \<Rightarrow> bool" where
  "writes m k \<longleftrightarrow> (\<exists>i. emits m i \<and> bounded k i)"

lemma writes_run:
  assumes "writes m k" and "wf_writer w"
  obtains w' where "m w = (Inr (), w')" and "wf_writer w'" and "wposition w' \<le> wposition w + k"
proof -
  obtain i where i: "emits m i" "bounded k i"
    using assms(1) by (auto simp: writes_def)
  obtain w' where "m w = (Inr (), w')" "wf_writer w'" "wposition w' = wposition w + length (i (wposition w))"
    using emits_run[OF i(1) assms(2)] by blast
  then show thesis
    using that i(2) by (auto simp: bounded_def)
qed

lemma writes_ret: "writes (ret ()) 0"
  unfolding writes_def using emits_ret bounded_rules(1) by blast

lemma writes_bind: "writes m k \<Longrightarrow> writes (f ()) l \<Longrightarrow> writes (bindM m f) (k + l)"
  unfolding writes_def using emits_bind bounded_rules(5) by blast

lemma writes_bits: "fits n v \<Longrightarrow> writes (write_bits v n) n"
  unfolding writes_def using emits_write_bits bounded_rules(2) by blast

lemma writes_bytes: "writes (write_bytes d aligned) (7 + 8 * length d)"
  unfolding writes_def using emits_write_bytes bounded_bytes by blast

lemma writes_raw: "n \<le> 8 * length d \<Longrightarrow> writes (write_raw d (Some n)) n"
  unfolding writes_def using emits_write_raw bounded_rules(3)[of "raw_bits d n"] by fastforce

lemma writes_lift: "v = Inr x \<Longrightarrow> writes (f x) k \<Longrightarrow> writes (bindM (liftR v) f) k"
  by (simp add: lift_Inr)

section \<open>The room of a value\<close>

definition range_room :: "integer_range option \<Rightarrow> int \<Rightarrow> nat option" where
  "range_room rg i =
     (case rg of
        None \<Rightarrow> None
      | Some r \<Rightarrow>
          if \<not> (minimum r \<le> i \<and> i \<le> maximum r) then None
          else case bit_width r of
            None \<Rightarrow> if i = minimum r then Some 0 else None
          | Some width \<Rightarrow> if width \<le> 64 \<and> i - minimum r < 2 ^ width then Some width else None)"

fun sum_rooms :: "nat option list \<Rightarrow> nat option" where
  "sum_rooms [] = Some 0"
| "sum_rooms (None # rs) = None"
| "sum_rooms (Some k # rs) = map_option (\<lambda>n. k + n) (sum_rooms rs)"

definition text_room :: "integer_range option \<Rightarrow> bytes option \<Rightarrow> nat option" where
  "text_room rg d = Option.bind d (\<lambda>d. map_option (\<lambda>k. k + (7 + 8 * length d)) (range_room rg (int (length d))))"

type_synonym room_rec = "u32 \<Rightarrow> bsn_value \<Rightarrow> nat option"

definition member_room :: "codec \<Rightarrow> nat \<Rightarrow> room_rec \<Rightarrow> type_shape \<Rightarrow> bsn_field list \<Rightarrow> nat \<Rightarrow> nat option" where
  "member_room c n rec sh fs position =
     Option.bind (get_at (index_values sh) position) (\<lambda>index.
     Option.bind (get_at (member_types sh) position) (\<lambda>member.
     case by_index fs index of
       Some v \<Rightarrow> rec member v
     | None \<Rightarrow> (case default_value c n member of Inr d \<Rightarrow> rec member d | Inl _ \<Rightarrow> None)))"

definition kind_room :: "codec \<Rightarrow> nat \<Rightarrow> room_rec \<Rightarrow> type_shape \<Rightarrow> bsn_value \<Rightarrow> nat option" where
  "kind_room c n rec sh v =
     (case kind sh of
        KAlias \<Rightarrow> Option.bind (element_type sh) (\<lambda>t. rec t v)
      | KVoid \<Rightarrow> if v = Void then Some 0 else None
      | KBool \<Rightarrow> map_option (\<lambda>_. 1) (as_bool v)
      | KInteger \<Rightarrow> Option.bind (as_integer v) (range_room (value_range sh))
      | KEnum \<Rightarrow> Option.bind (as_integer v) (\<lambda>i. if i \<in> set (index_values sh) then range_room (value_range sh) i else None)
      | KFourCc \<Rightarrow> map_option (\<lambda>_. 32) (as_four_cc v)
      | KFloat32 \<Rightarrow> map_option (\<lambda>_. 32) (as_float32 v)
      | KFloat64 \<Rightarrow> map_option (\<lambda>_. 64) (as_float64 v)
      | KByteString \<Rightarrow> text_room (value_range sh) (as_binary v)
      | KBlob \<Rightarrow> text_room (value_range sh) (as_binary v)
      | KString \<Rightarrow> text_room (map_option byte_counted (value_range sh)) (as_string v)
      | KBitArray \<Rightarrow> Option.bind (as_bit_array v) (\<lambda>b.
          if ba_bit_count b > length (ba_data b) * 8 then None
          else map_option (\<lambda>k. k + ba_bit_count b) (range_room (value_range sh) (int (ba_bit_count b))))
      | KArray \<Rightarrow> Option.bind (as_array v) (\<lambda>vs. Option.bind (element_type sh) (\<lambda>t.
          sum_rooms (range_room (value_range sh) (int (length vs)) # map (rec t) vs)))
      | KOptional \<Rightarrow> Option.bind (as_optional v) (\<lambda>x.
          case x of None \<Rightarrow> Some 1 | Some y \<Rightarrow> Option.bind (element_type sh) (\<lambda>t. map_option Suc (rec t y)))
      | KChoice \<Rightarrow> Option.bind (as_choice v) (\<lambda>(index, x).
          Option.bind (position_of (\<lambda>i. i = index) (index_values sh)) (\<lambda>position.
          Option.bind (get_at (member_types sh) position) (\<lambda>member.
          sum_rooms [range_room (value_range sh) index, rec member x])))
      | KStruct \<Rightarrow> Option.bind (as_struct v) (\<lambda>(_, fs).
          sum_rooms (map (member_room c n rec sh fs) [0..<length (member_types sh)])))"

text \<open>The types of the value are reflected: none has a layout of its own.\<close>

definition plain_layout :: "registered_wire_layout option \<Rightarrow> bool" where
  "plain_layout l \<longleftrightarrow> l \<in> {None, Some CandidateReflected, Some VerifiedReflected}"

primrec value_room :: "codec \<Rightarrow> nat \<Rightarrow> room_rec" where
  "value_room c 0 = (\<lambda>tid v. None)"
| "value_room c (Suc n) = (\<lambda>tid v.
     case schema_shape (cschema c) tid of
       Inl _ \<Rightarrow> None
     | Inr sh \<Rightarrow> if plain_layout (wire_layouts c tid) then kind_room c n (value_room c n) sh v else None)"

section \<open>The encoder accepts what has room\<close>

lemma writes_range:
  assumes "range_room rg i = Some k"
  obtains r where "rg = Some r" and "writes (write_range r i) k"
proof -
  obtain r where r: "rg = Some r" "minimum r \<le> i" "i \<le> maximum r"
    using assms by (auto simp: range_room_def split: option.splits if_split_asm)
  have "writes (write_range r i) k"
  proof (cases "bit_width r")
    case None
    then have "i = minimum r" "k = 0"
      using assms r by (auto simp: range_room_def split: if_split_asm)
    then show ?thesis
      using r None writes_ret by (simp add: write_range_def del: ret_apply)
  next
    case (Some width)
    then have w: "width \<le> 64" "i - minimum r < 2 ^ width" "k = width"
      using assms r by (auto simp: range_room_def split: if_split_asm)
    have "(2 :: int) ^ width \<le> 2 ^ 64"
      using w(1) by (intro power_increasing) simp_all
    then have small: "i - minimum r < 2 ^ 64"
      using w(2) by linarith
    define d where "d = i - minimum r"
    have "0 \<le> d" "d < 2 ^ 64"
      using small r(2) by (simp_all add: d_def)
    then have "uint (of_int d :: u64) = d"
      by (simp add: unsigned_of_int take_bit_int_eq_self)
    then have "int (unat (of_int d :: u64)) < int (2 ^ width)"
      using w(2) by (simp add: d_def)
    then have "unat (of_int (i - minimum r) :: u64) < 2 ^ width"
      unfolding d_def of_nat_less_iff .
    then have "fits width (of_int (i - minimum r))"
      using w(1) by (simp add: fits_unat)
    then show ?thesis
      using r Some small w(3) writes_bits by (simp add: write_range_def)
  qed
  then show thesis
    using that r(1) by blast
qed

lemma sum_rooms_Cons: "sum_rooms (r # rs) = Some k \<longleftrightarrow> (\<exists>a b. r = Some a \<and> sum_rooms rs = Some b \<and> k = a + b)"
  by (cases r) auto

lemma writes_loop:
  assumes "sum_rooms (map f xs) = Some k" and "\<And>x l. x \<in> set xs \<Longrightarrow> f x = Some l \<Longrightarrow> writes (g x ()) l"
  shows "writes (loopM xs g ()) k"
  using assms
proof (induction xs arbitrary: k)
  case (Cons x xs)
  then obtain a b where k: "f x = Some a" "sum_rooms (map f xs) = Some b" "k = a + b"
    by (auto simp: sum_rooms_Cons)
  have "writes (bindM (g x ()) (\<lambda>acc. loopM xs g acc)) (a + b)"
    using Cons.IH[OF k(2)] Cons.prems(2) k(1) by (intro writes_bind) simp_all
  then show ?case
    by (simp add: k(3))
qed (simp add: writes_ret del: ret_apply)

lemma writes_text:
  assumes "text_room rg v = Some k"
  obtains r d where "rg = Some r" "v = Some d" "writes (bindM (write_length r (length d)) (\<lambda>_. write_bytes d True)) k"
proof -
  obtain d j where d: "v = Some d" "range_room rg (int (length d)) = Some j" "k = j + (7 + 8 * length d)"
    using assms by (auto simp: text_room_def split: bind_splits)
  obtain r where r: "rg = Some r" "writes (write_range r (int (length d))) j"
    using writes_range[OF d(2)] by blast
  then show thesis
    using that[OF r(1) d(1)] writes_bind[OF r(2), of "\<lambda>_. write_bytes d True"] writes_bytes[of d True]
    by (simp add: write_length_def d(3))
qed

lemma expects: "v = Some x \<Longrightarrow> bindM (expect_kind l v) f = f x"
  by (simp add: expect_kind_def lift_Inr)

lemma requires:
  "value_range sh = Some r \<Longrightarrow> bindM (liftR (required_range sh)) f = f r"
  "element_type sh = Some t \<Longrightarrow> bindM (liftR (required_element sh)) g = g t"
  by (simp_all add: required_range_def required_element_def lift_Inr)

lemma indexes: "get_at xs i = Some x \<Longrightarrow> bindM (index_op xs i) f = f x"
  by (simp add: lift_Inr)

lemma word_fits: "fits 32 (ucast (x :: u32))"
  by (rule fits_ucast_word) simp_all

lemma member_writes:
  assumes rec: "\<And>tid v k. rr tid v = Some k \<Longrightarrow> writes (rec scope tid v) k" and room: "member_room c n rr sh fs p = Some k"
  shows "writes (encode_member c n rec scope sh fs p) k"
proof -
  obtain index member where m: "get_at (index_values sh) p = Some index" "get_at (member_types sh) p = Some member"
      "(case by_index fs index of Some v \<Rightarrow> rr member v
        | None \<Rightarrow> (case default_value c n member of Inr d \<Rightarrow> rr member d | Inl _ \<Rightarrow> None)) = Some k"
    using room by (auto simp: member_room_def split: bind_splits)
  show ?thesis
    unfolding encode_member_def indexes[OF m(1)] indexes[OF m(2)]
    using m(3) rec by (cases "by_index fs index"; cases "default_value c n member") (auto simp: lift_Inr)
qed

lemma kind_writes:
  assumes rec: "\<And>tid v k. rr tid v = Some k \<Longrightarrow> writes (rec scope tid v) k" and room: "kind_room c n rr sh v = Some k"
  shows "writes (encode_kind c n rec scope tid sh v) k"
proof (cases "kind sh")
  case KArray
  then obtain vs t j l where a: "as_array v = Some vs" "element_type sh = Some t"
      "range_room (value_range sh) (int (length vs)) = Some j" "sum_rooms (map (rr t) vs) = Some l" "k = j + l"
    using room by (auto simp: kind_room_def sum_rooms_Cons split: bind_splits)
  obtain r where r: "value_range sh = Some r" "writes (write_range r (int (length vs))) j"
    using writes_range[OF a(3)] by blast
  have "writes (loopM vs (\<lambda>x _. rec scope t x) ()) l"
    by (rule writes_loop[OF a(4)]) (rule rec)
  then show ?thesis
    using writes_bind[OF r(2), of "\<lambda>_. loopM vs (\<lambda>x _. rec scope t x) ()"]
    by (simp add: encode_kind_def KArray expects[OF a(1)] requires(1)[OF r(1)] requires(2)[OF a(2)] write_length_def a(5))
next
  case KByteString
  then have "text_room (value_range sh) (as_binary v) = Some k"
    using room by (simp add: kind_room_def)
  then show ?thesis
    by (rule writes_text) (simp add: encode_kind_def KByteString expects requires)
next
  case KBlob
  then have "text_room (value_range sh) (as_binary v) = Some k"
    using room by (simp add: kind_room_def)
  then show ?thesis
    by (rule writes_text) (simp add: encode_kind_def KBlob expects requires)
next
  case KString
  then have "text_room (map_option byte_counted (value_range sh)) (as_string v) = Some k"
    using room by (simp add: kind_room_def)
  then show ?thesis
    by (rule writes_text) (auto simp: encode_kind_def KString expects requires)
next
  case KBitArray
  then obtain b j where b: "as_bit_array v = Some b" "ba_bit_count b \<le> length (ba_data b) * 8"
      "range_room (value_range sh) (int (ba_bit_count b)) = Some j" "k = j + ba_bit_count b"
    using room by (auto simp: kind_room_def split: bind_splits if_split_asm)
  obtain r where r: "value_range sh = Some r" "writes (write_range r (int (ba_bit_count b))) j"
    using writes_range[OF b(3)] by blast
  show ?thesis
    using writes_bind[OF r(2), of "\<lambda>_. write_raw (ba_data b) (Some (ba_bit_count b))"] writes_raw[of "ba_bit_count b" "ba_data b"] b(2)
    by (simp add: encode_kind_def KBitArray expects[OF b(1)] requires(1)[OF r(1)] write_length_def b(4) mult.commute)
next
  case KBool
  have "writes (write_bits (of_bool b) 1) 1" for b
    by (rule writes_bits) simp
  then show ?thesis
    using KBool room by (auto simp: kind_room_def encode_kind_def expects)
next
  case KChoice
  then obtain index x p member j l where a: "as_choice v = Some (index, x)" "position_of (\<lambda>i. i = index) (index_values sh) = Some p"
      "get_at (member_types sh) p = Some member" "range_room (value_range sh) index = Some j" "rr member x = Some l" "k = j + l"
    using room by (auto simp: kind_room_def sum_rooms_Cons split: bind_splits)
  obtain r where r: "value_range sh = Some r" "writes (write_range r index) j"
    using writes_range[OF a(4)] by blast
  show ?thesis
    using writes_bind[OF r(2), of "\<lambda>_. rec scope member x"] rec[OF a(5)]
    by (simp add: encode_kind_def KChoice expects[OF a(1)] a(2) requires(1)[OF r(1)] indexes[OF a(3)] a(6))
next
  case KEnum
  then obtain i where i: "as_integer v = Some i" "i \<in> set (index_values sh)" "range_room (value_range sh) i = Some k"
    using room by (auto simp: kind_room_def split: bind_splits if_split_asm)
  show ?thesis
    by (rule writes_range[OF i(3)]) (simp add: encode_kind_def KEnum expects[OF i(1)] i(2) requires)
next
  case KFourCc
  then show ?thesis
    using room by (auto simp: kind_room_def encode_kind_def expects intro!: writes_bits word_fits fits_64)
next
  case KInteger
  then obtain i where i: "as_integer v = Some i" "range_room (value_range sh) i = Some k"
    using room by (auto simp: kind_room_def split: bind_splits)
  show ?thesis
    by (rule writes_range[OF i(2)]) (simp add: encode_kind_def KInteger expects[OF i(1)] requires)
next
  case KVoid
  then show ?thesis
    using room writes_ret by (auto simp: kind_room_def encode_kind_def simp del: ret_apply split: if_split_asm)
next
  case KOptional
  then obtain x where x: "as_optional v = Some x"
      "(case x of None \<Rightarrow> Some (Suc 0) | Some y \<Rightarrow> Option.bind (element_type sh) (\<lambda>t. map_option Suc (rr t y))) = Some k"
    using room by (auto simp: kind_room_def split: bind_splits)
  have flag: "writes (write_bits (of_bool b) 1) 1" for b
    by (rule writes_bits) simp
  have enc: "encode_kind c n rec scope tid sh v = bindM (write_bits (of_bool (x \<noteq> None)) 1) (\<lambda>_.
      case x of None \<Rightarrow> ret () | Some y \<Rightarrow> bindM (liftR (required_element sh)) (\<lambda>element. rec scope element y))"
    unfolding encode_kind_def KOptional type_kind.case expects[OF x(1)] ..
  show ?thesis
  proof (cases x)
    case None
    then show ?thesis
      using writes_bind[OF flag, of "\<lambda>_. ret ()" 0 False] writes_ret x
      unfolding enc None by (auto simp del: ret_apply)
  next
    case (Some y)
    then obtain t l where t: "element_type sh = Some t" "rr t y = Some l" "k = 1 + l"
      using x(2) by (auto split: bind_splits)
    show ?thesis
      using writes_bind[OF flag, of "\<lambda>_. rec scope t y" l True] rec[OF t(2)]
      by (simp add: enc Some requires(2)[OF t(1)] t(3))
  qed
next
  case KFloat32
  then show ?thesis
    using room by (auto simp: kind_room_def encode_kind_def expects intro!: writes_bits word_fits fits_64)
next
  case KFloat64
  then show ?thesis
    using room by (auto simp: kind_room_def encode_kind_def expects intro!: writes_bits word_fits fits_64)
next
  case KStruct
  then obtain i fs where fs: "as_struct v = Some (i, fs)"
      "sum_rooms (map (member_room c n rr sh fs) [0..<length (member_types sh)]) = Some k"
    using room by (auto simp: kind_room_def split: bind_splits)
  have "writes (loopM [0..<length (member_types sh)] (\<lambda>position _. encode_member c n rec scope sh fs position) ()) k"
    by (rule writes_loop[OF fs(2)]) (rule member_writes[where rr = rr], rule rec)
  then show ?thesis
    by (simp add: encode_kind_def KStruct encode_struct_def fs(1))
next
  case KAlias
  then obtain t where t: "element_type sh = Some t" "rr t v = Some k"
    using room by (auto simp: kind_room_def split: bind_splits)
  show ?thesis
    using rec[OF t(2)] by (simp add: encode_kind_def KAlias requires(2)[OF t(1)])
qed

theorem conforming_values_encode:
  assumes "value_room c n tid v = Some k"
  shows "writes (encode_reflected_into prog n c tid v) k"
proof -
  have "value_room c n tid v = Some k \<Longrightarrow> writes (encode_scoped prog c n True tid v) k" for n tid v k
  proof (induction n arbitrary: tid v k)
    case (Suc n)
    then obtain sh where sh: "schema_shape (cschema c) tid = Inr sh" "plain_layout (wire_layouts c tid)"
        "kind_room c n (value_room c n) sh v = Some k"
      by (auto split: sum.splits if_split_asm)
    have "writes (encode_kind c n (encode_scoped prog c n) True tid sh v) k"
      by (rule kind_writes[where rr = "value_room c n" and rec = "encode_scoped prog c n", OF _ sh(3)]) (rule Suc.IH)
    then show ?case
      using sh(1,2) by (auto simp: encode_body_def lift_Inr plain_layout_def reflected_scope_def)
  qed simp
  then show ?thesis
    using assms by (simp add: encode_reflected_into_def)
qed

declare value_room.simps [simp del]

end
