(* ===== verification/Reflected_Laws.thy ===== *)
theory Reflected_Laws
  imports Protocol_Laws Encode_Room
begin

text \<open>
  Records built along the schema: what an end writes with the codec is what the other end's dispatch reads, up to
  the normal form of the value.
\<close>

section \<open>The scope of a value\<close>

text \<open>Where every obfuscated type has a layout, the scope a value is decoded in is never asked for.\<close>

definition layouts_cover :: "codec \<Rightarrow> bool" where
  "layouts_cover c \<longleftrightarrow> (\<forall>tid sh. schema_shape (cschema c) tid = Inr sh \<and> obfuscated sh \<longrightarrow> wire_layouts c tid \<noteq> None)"

lemma scope_irrelevant:
  assumes "layouts_cover c"
  shows "decode_scoped prog c n scope = decode_scoped prog c n scope'"
proof (induction n arbitrary: scope scope')
  case (Suc n)
  define D where "D = decode_scoped prog c n False"
  have const: "decode_scoped prog c n = (\<lambda>_. D)"
    using Suc.IH by (simp add: D_def fun_eq_iff)
  have kind: "decode_kind prog c (decode_scoped prog c n) scope = decode_kind prog c (decode_scoped prog c n) scope'" for scope scope'
    unfolding const by (intro ext) (simp only: decode_kind_def decode_struct_member_def[abs_def])
  have "bindM (liftR (reflected_scope c tid sh scope)) (\<lambda>scope. decode_kind prog c (decode_scoped prog c n) scope path depth tid sh)
      = bindM (liftR (reflected_scope c tid sh scope')) (\<lambda>scope. decode_kind prog c (decode_scoped prog c n) scope path depth tid sh)"
    if "schema_shape (cschema c) tid = Inr sh" "\<forall>l. wire_layouts c tid \<noteq> Some (StructLayout l)"
      "\<forall>l. wire_layouts c tid \<noteq> Some (CandidateStruct l)" "\<forall>l. wire_layouts c tid \<noteq> Some (CustomLayout l)"
    for tid sh path depth
  proof -
    have "\<exists>a. reflected_scope c tid sh scope = Inr a" for scope
      using that assms unfolding reflected_scope_def layouts_cover_def
      by (auto split: option.split registered_wire_layout.split)
    then show ?thesis
      using kind by (metis lift_Inr)
  qed
  then have "decode_inner prog c n (decode_scoped prog c n) scope path depth tid
      = decode_inner prog c n (decode_scoped prog c n) scope' path depth tid" for path depth tid
    unfolding decode_inner_def
    by (cases "schema_shape (cschema c) tid")
      (auto simp: fun_eq_iff bindM_def Suc.IH[of scope scope'] split: option.split registered_wire_layout.split)
  then show ?case
    unfolding decode_scoped.simps decode_body_def by (intro ext) (simp only:)
qed simp

section \<open>Reflected records\<close>

lemma reads_parses_at:
  assumes "reads (decode_scoped prog c n False (ascii ''value'') 0 tid) x p bs"
  shows "parses_at p (decode_from prog n c tid) x bs"
  unfolding parses_at_def
proof (intro allI impI conjI)
  fix r rest assume r: "wf_reader r \<and> rposition r = p" "rbits r = bs @ rest"
  have "rposition r mod 8 = p mod 8"
    using r(1) by simp
  then obtain tr where "decode_scoped prog c n False (ascii ''value'') 0 tid (r, None) = (Inr x, (advance (length bs) r, tr))"
    using reads_run[OF assms conjunct1[OF r(1)] _ r(2), of None] by blast
  then show "decode_from prog n c tid r = (Inr x, advance (length bs) r)"
    unfolding decode_from_def Codec.untraced_def by (simp only: prod.case)
next
  fix r missing assume r: "wf_reader r \<and> rposition r = p" "bs = rbits r @ missing \<and> missing \<noteq> []"
  have "rposition r mod 8 = p mod 8"
    using r(1) by simp
  then obtain i s where "decode_scoped prog c n False (ascii ''value'') 0 tid (r, None) = (Inl (IncompleteFrame i), s)"
    using reads_cut[OF assms conjunct1[OF r(1)] _ conjunct1[OF r(2)] conjunct2[OF r(2)], of None] by blast
  then show "\<exists>i r'. decode_from prog n c tid r = (Inl (IncompleteFrame i), r')"
    unfolding decode_from_def Codec.untraced_def by (cases s) (simp only: prod.case, blast)
qed

lemma parses_at_map_err:
  assumes "parses_at p m x bs" and "\<And>r i. f r (IncompleteFrame i) = IncompleteFrame i"
  shows "parses_at p (map_errM f m) x bs"
  using assms unfolding parses_at_def map_errM_def by (fastforce split: prod.splits sum.splits)

theorem reflected_record_crosses:
  assumes codec: "wf_codec (pcodec (proto E))" "lawful_program (code E) (pcodec (proto E)) nf" "layouts_cover (pcodec (proto E))"
    and route: "c < 64" "s < 16" "incoming_types (proto E) (s, c) = Some tid" "\<not> has_custom_incoming_decoder (s, c)"
    and v: "live (max_capacity (code E)) v" "encode_record E c s tid v = Inr bs" "length bs < 2 ^ 59"
  shows "\<exists>n. crosses (decode_incoming_from E) bs
    (routed_record c s tid (payload.Reflected (normal_form (pcodec (proto E)) nf (stack E) tid v)) n)"
proof -
  let ?c = "pcodec (proto E)" let ?x = "normal_form ?c nf (stack E) tid v"
  obtain w w' where w: "wf_writer w" "wposition w = 11" "wbits w = record_image c s nothing 0"
      "write_reflected E tid v w = (Inr (), w')"
    and read: "wf_writer w' \<Longrightarrow> raw_bits bs (8 * length bs) = wbits w' @ replicate (align_skip (wposition w')) False
      \<and> length bs = div_ceil (wposition w') 8"
    using record_written[OF route(1,2) v(2)[unfolded encode_record_def]] by metis
  have "in_step w w' (decode_scoped (code E) ?c (stack E) True (ascii ''value'') 0 tid) ?x"
    using agreeD[OF codec_agree[OF codec(1,2)] w(1) v(1)] w(4) by (simp add: write_reflected_def encode_reflected_into_def)
  then obtain body where body: "wf_writer w'" "wbits w' = wbits w @ body"
      "reads (decode_scoped (code E) ?c (stack E) False (ascii ''value'') 0 tid) ?x 11 body"
    using scope_irrelevant[OF codec(3), of "code E" "stack E" True False] w(2) by (auto simp: in_step_def)
  have payload: "parses_at 11 (decode_payload E (s, c) tid) (payload.Reflected ?x) body"
    using parses_at_bind[OF reads_parses_at[OF body(3)] parses_at_ret, of payload.Reflected] route(4)
    by (simp add: decode_payload_def decode_reflected_payload_def del: ret_apply)
  have "parses_at 11 (bindM (map_errM (\<lambda>r. append_route_context s c tid 11 (rposition r)) (decode_payload E (s, c) tid)) (\<lambda>p. ret (tid, p)))
      (tid, payload.Reflected ?x) (body @ [])"
    by (rule parses_at_bind[OF parses_at_map_err[OF payload] parses_at_ret]) simp
  then have "parses_at 11 (decode_incoming_from E (routed c s)) (tid, payload.Reflected ?x) body"
    unfolding decode_incoming_from_def
    by (simp only: routing_header.simps incoming_type_def route(3) ok_or_simps lift_Inr append_Nil2) (rule parses_at_gets)
  note whole = record_at[where dec = "decode_incoming_from E", OF route(1,2) this]
  have pos: "wposition w' = 11 + length body"
    using body(2) w(2,3) by (metis length_append length_wbits)
  have bits: "raw_bits bs (8 * length bs) = record_image c s nothing 0 @ body @ replicate (align_skip (11 + length body)) False"
    using conjunct1[OF read[OF body(1)]] body(2) w(3) pos by simp
  have "crosses (decode_incoming_from E) bs (routed_record c s tid (payload.Reflected ?x) (length body))"
  proof (rule parses_crosses)
    show "parses_at 0 (read_record (decode_incoming_from E)) (routed_record c s tid (payload.Reflected ?x) (length body))
        (raw_bits bs (8 * length bs))"
      unfolding bits by (rule whole)
  qed (use read[OF body(1)] pos v(3) in \<open>simp_all add: routed_record_def div_ceil_8\<close>)
  then show ?thesis ..
qed

text \<open>A record with a value that conforms is built, and its length is bounded beforehand.\<close>

lemma conforming_record:
  assumes "value_room (pcodec (proto E)) (stack E) tid v = Some k" and "c < 64" and "s < 16"
  obtains bs where "encode_record E c s tid v = Inr bs" and "length bs \<le> div_ceil (11 + k) 8"
proof -
  obtain i where i: "emits (write_reflected E tid v) i" "bounded k i"
    using conforming_values_encode[OF assms(1)] by (auto simp: writes_def write_reflected_def)
  obtain bs where bs: "encode_record E c s tid v = Inr bs" "length bs = div_ceil (length (record_image c s i 0)) 8"
    using record_bytes_image[OF assms(2,3) i(1)] by (auto simp: encode_record_def)
  moreover have "length (record_image c s i 0) \<le> 11 + k"
    using i(2) by (simp add: length_record_image bounded_def)
  ultimately show thesis
    using that by (simp add: div_ceil_8 div_le_mono)
qed

end
