(* ===== verification/Native_Answers.thy ===== *)
theory Native_Answers
  imports Protocol_Laws
begin

text \<open>
  The answers of the server side that this program writes bit by bit, as one type: what is sent, on which
  route, and the payload a client decodes.  Every answer that was built crosses to the client's dispatch, but for
  announcements of field identifiers the reader refuses, and a stream of them crosses a protected connection.
  The response of stream items is not among them: its builder and its reader disagree, which is stated apart.
\<close>

section \<open>Answers\<close>

datatype server_answer =
    ChannelListAnswer "(u8 \<times> u16 \<times> u16) list"
  | MemberCountsAnswer "(u32 \<times> u16 \<times> bool) list" bool
  | DescriptionsAnswer bool
  | JoinAnswer u8 u32 u8
  | PresenceUpdateAnswer u32 u32 bool
  | PresenceFieldsAnswer "presence_field list"
  | SeasonAnswer bool
  | ClubSettingsAnswer

fun answer_bytes :: "server_answer \<Rightarrow> bytes result" where
  "answer_bytes (ChannelListAnswer es) = channel_list_response es"
| "answer_bytes (MemberCountsAnswer es is_last) = conference_member_counts_response es is_last"
| "answer_bytes (DescriptionsAnswer is_last) = conference_descriptions_response is_last"
| "answer_bytes (JoinAnswer i h t) = chat_join_result i h t"
| "answer_bytes (PresenceUpdateAnswer i h online) = presence_update_response i h online"
| "answer_bytes (PresenceFieldsAnswer fs) = presence_fields_response fs"
| "answer_bytes (SeasonAnswer authority) = current_season_response authority"
| "answer_bytes ClubSettingsAnswer = club_settings_response"

fun answer_route :: "server_answer \<Rightarrow> u8 \<times> u8" where
  "answer_route (ChannelListAnswer es) = (CHAT_SLOT, CHAT_CHANNEL_LIST_RESPONSE_COMMAND)"
| "answer_route (MemberCountsAnswer es is_last) = (CHAT_SLOT, CHAT_CONFERENCE_MEMBER_COUNTS_COMMAND)"
| "answer_route (DescriptionsAnswer is_last) = (CHAT_SLOT, CHAT_CONFERENCE_DESCRIPTIONS_COMMAND)"
| "answer_route (JoinAnswer i h t) = (CHAT_SLOT, CHAT_JOIN_NOTIFY_COMMAND)"
| "answer_route (PresenceUpdateAnswer i h online) = (PRESENCE_SLOT, PRESENCE_UPDATE_COMMAND)"
| "answer_route (PresenceFieldsAnswer fs) = (PRESENCE_SLOT, PRESENCE_FIELDS_COMMAND)"
| "answer_route (SeasonAnswer authority) = (S2_MASTER_SLOT, S2_MASTER_CURRENT_SEASON_COMMAND)"
| "answer_route ClubSettingsAnswer = (S2_MULTIPLAYER_SLOT, S2_MULTIPLAYER_CLUB_SETTINGS_COMMAND)"

text \<open>What the client sees: the numbers of the answer, and fixed values in the fields the server leaves blank.\<close>

fun answer_payload :: "server_answer \<Rightarrow> payload" where
  "answer_payload (ChannelListAnswer es) = ChannelList \<lparr>cl_entries = map channel_of es\<rparr>"
| "answer_payload (MemberCountsAnswer es is_last) = ConferenceMemberCounts
     \<lparr>cmcs_entries = map member_count_of es, cmcs_is_last = is_last, cmcs_sampled_at = None\<rparr>"
| "answer_payload (DescriptionsAnswer is_last) = ConferenceDescriptions \<lparr>cds_entries = [], cds_is_last = is_last\<rparr>"
| "answer_payload (JoinAnswer i h t) = joined h i t None None None"
| "answer_payload (PresenceUpdateAnswer i h online) = presence_of (i, h, online)"
| "answer_payload (PresenceFieldsAnswer fs) = PresenceFields \<lparr>pfs_entries = fs\<rparr>"
| "answer_payload (SeasonAnswer authority) =
     StartupSummary \<lparr>su_kind = ascii ''current-season'', su_item_count = 0, su_complete = Some authority\<rparr>"
| "answer_payload ClubSettingsAnswer = StartupSummary \<lparr>su_kind = ascii ''club-settings'', su_item_count = 0, su_complete = None\<rparr>"

text \<open>
  The one thing the builders let through and the client refuses: an announced field whose identifier is none of
  those the reader knows, which are those up to 25, and 255.  (The flags of a field are made from their four
  bits only.)
\<close>

fun readable :: "server_answer \<Rightarrow> bool" where
  "readable (PresenceFieldsAnswer fs) \<longleftrightarrow> (\<forall>f \<in> set fs. known_field f)"
| "readable _ \<longleftrightarrow> True"

text \<open>The parts of an answer fit their fields.\<close>

fun fits_fields :: "server_answer \<Rightarrow> bool" where
  "fits_fields (ChannelListAnswer es) \<longleftrightarrow> length es < 64"
| "fits_fields (MemberCountsAnswer es is_last) \<longleftrightarrow> length es < 64"
| "fits_fields (JoinAnswer i h t) \<longleftrightarrow> unat i < 7 \<and> unat t < 16"
| "fits_fields (PresenceFieldsAnswer fs) \<longleftrightarrow> length fs \<le> 100"
| "fits_fields _ \<longleftrightarrow> True"

section \<open>What was built fits\<close>

lemma seqM_parts: "seqM ms w = (Inr (), w') \<Longrightarrow> m \<in> set ms \<Longrightarrow> \<exists>v v'. m v = (Inr (), v')"
  by (induction ms arbitrary: w) (auto simp: bindM_Inr_iff)

lemma record_bytes_body: "record_bytes c s body = Inr bs \<Longrightarrow> \<exists>w w'. body w = (Inr (), w')"
  by (auto simp: record_bytes_def bindM_Inr_iff split: sum.split_asm prod.split_asm)

lemma push_one: "k < 64 \<Longrightarrow> unat (push_bit k 1 :: u64) = 2 ^ k"
proof -
  assume "k < 64"
  then have "(2 :: nat) ^ k < 2 ^ LENGTH(64)"
    by (intro power_strict_increasing) simp_all
  then have "unat (of_nat (2 ^ k) :: u64) = 2 ^ k"
    unfolding unsigned_of_nat by (simp only: take_bit_nat_eq_self of_nat_id)
  then show ?thesis
    by (simp add: push_bit_eq_mult)
qed

lemma built_part:
  assumes "record_bytes c s (seqM ms) = Inr bs" and "write_bits val k \<in> set ms" and "k < 64"
  shows "unat val < 2 ^ k"
proof -
  obtain w w' where "seqM ms w = (Inr (), w')"
    using record_bytes_body[OF assms(1)] by blast
  from seqM_parts[OF this assms(2)] obtain v v' where "write_bits val k v = (Inr (), v')"
    by blast
  then have "\<not> push_bit k 1 \<le> val"
    using assms(3) by (auto simp: write_bits_def split: if_split_asm)
  then have "unat val < unat (push_bit k 1 :: u64)"
    by (simp add: word_less_nat_alt not_le)
  also have "unat (push_bit k 1 :: u64) = 2 ^ k"
    by (rule push_one[OF assms(3)])
  finally show ?thesis .
qed

lemma built_count: "unat (count_u64 n) < 2 ^ k \<Longrightarrow> k < 64 \<Longrightarrow> n < 2 ^ k"
proof -
  assume k: "unat (count_u64 n) < 2 ^ k" "k < 64"
  have "(2 :: nat) ^ k \<le> 2 ^ 63"
    using k(2) by (intro power_increasing) simp_all
  moreover have "unat (- 1 :: u64) = 2 ^ 64 - 1"
    by (simp add: unsigned_minus_1_eq_mask mask_eq_exp_minus_1)
  ultimately show "n < 2 ^ k"
    using k(1) by (cases "n < 2 ^ 64") (simp_all add: unat_count, simp add: count_u64_def)
qed

lemma built_fits: "answer_bytes a = Inr bs \<Longrightarrow> fits_fields a"
proof (cases a)
  case (ChannelListAnswer es)
  assume "answer_bytes a = Inr bs"
  from built_part[OF this[unfolded ChannelListAnswer answer_bytes.simps channel_list_response_def write_channels_def], of "count_u64 (length es)" 6]
  show ?thesis
    using built_count[of "length es" 6] by (simp add: ChannelListAnswer)
next
  case (MemberCountsAnswer es is_last)
  assume "answer_bytes a = Inr bs"
  from built_part[OF this[unfolded MemberCountsAnswer answer_bytes.simps conference_member_counts_response_def write_member_counts_def],
      of "count_u64 (length es)" 6]
  show ?thesis
    using built_count[of "length es" 6] by (simp add: MemberCountsAnswer)
next
  case (JoinAnswer i h t)
  assume built: "answer_bytes a = Inr bs"
  then have "channel_index_ok i" and body: "record_bytes CHAT_JOIN_NOTIFY_COMMAND CHAT_SLOT (write_join_result i h t) = Inr bs"
    by (auto simp: JoinAnswer chat_join_result_def split: if_split_asm)
  moreover have "unat (ucast t :: u64) < 2 ^ 4"
    by (rule built_part[OF body[unfolded write_join_result_def]]) simp_all
  ultimately show ?thesis
    by (simp add: JoinAnswer channel_index_ok_def CHANNEL_INDEX_COUNT_def unat_ucast_64)
next
  case (PresenceFieldsAnswer fs)
  assume "answer_bytes a = Inr bs"
  then show ?thesis
    by (auto simp: PresenceFieldsAnswer presence_fields_response_def split: if_split_asm)
qed simp_all

section \<open>Every answer crosses\<close>

definition answer_record :: "env \<Rightarrow> server_answer \<Rightarrow> native_record \<Rightarrow> bool" where
  "answer_record E a g \<longleftrightarrow> rec_header g = routed (snd (answer_route a)) (fst (answer_route a))
     \<and> Some (rec_type_id g) = incoming_types (proto E) (answer_route a) \<and> rec_value g = answer_payload a"

lemma answer_crosses:
  assumes built: "answer_bytes a = Inr bs" and read: "readable a" and known: "incoming_types (proto E) (answer_route a) = Some tid"
  shows "\<exists>g. crosses (decode_incoming_from E) bs g \<and> answer_record E a g"
proof -
  note ok = built_fits[OF built] read
  have "\<exists>bs n. answer_bytes a = Inr bs \<and> crosses (decode_incoming_from E) bs
      (routed_record (snd (answer_route a)) (fst (answer_route a)) tid (answer_payload a) n)"
  proof (cases a)
    case (ChannelListAnswer es)
    then show ?thesis
      using channels.reaches_client[where v = es and c = CHAT_CHANNEL_LIST_RESPONSE_COMMAND and s = CHAT_SLOT and E = E and tid = tid] ok known
      by (auto simp: channel_list_response_def custom_decoders_def route_ids)
  next
    case (MemberCountsAnswer es is_last)
    then show ?thesis
      using member_counts.reaches_client[where v = "(es, is_last)" and c = CHAT_CONFERENCE_MEMBER_COUNTS_COMMAND and s = CHAT_SLOT and E = E and tid = tid] ok known
      by (auto simp: conference_member_counts_response_def custom_decoders_def route_ids)
  next
    case (DescriptionsAnswer is_last)
    then show ?thesis
      using descriptions.reaches_client[where v = is_last and c = CHAT_CONFERENCE_DESCRIPTIONS_COMMAND and s = CHAT_SLOT and E = E and tid = tid] known
      by (auto simp: conference_descriptions_response_def custom_decoders_def route_ids)
  next
    case (JoinAnswer i h t)
    then show ?thesis
      using joins.reaches_client[where v = "(i, h, t)" and c = CHAT_JOIN_NOTIFY_COMMAND and s = CHAT_SLOT and E = E and tid = tid] ok known
      by (auto simp: chat_join_result_def channel_index_ok_def CHANNEL_INDEX_COUNT_def custom_decoders_def route_ids)
  next
    case (PresenceUpdateAnswer i h online)
    then show ?thesis
      using presences.reaches_client[where v = "(i, h, online)" and c = PRESENCE_UPDATE_COMMAND and s = PRESENCE_SLOT and E = E and tid = tid] known
      by (auto simp: presence_update_response_def custom_decoders_def route_ids)
  next
    case (PresenceFieldsAnswer fs)
    then show ?thesis
      using dictionary.reaches_client[where v = fs and c = PRESENCE_FIELDS_COMMAND and s = PRESENCE_SLOT and E = E and tid = tid] ok known
      by (auto simp: presence_fields_response_def custom_decoders_def route_ids)
  next
    case (SeasonAnswer authority)
    then show ?thesis
      using season.reaches_client[where v = authority and c = S2_MASTER_CURRENT_SEASON_COMMAND and s = S2_MASTER_SLOT and E = E and tid = tid] known
      by (auto simp: current_season_response_def custom_decoders_def route_ids)
  next
    case ClubSettingsAnswer
    then show ?thesis
      using club_settings.reaches_client[where c = S2_MULTIPLAYER_CLUB_SETTINGS_COMMAND and s = S2_MULTIPLAYER_SLOT and E = E and tid = tid] known
      by (auto simp: club_settings_response_def custom_decoders_def route_ids)
  qed
  then show ?thesis
    using known built unfolding answer_record_def routed_record_def
    by (metis native_record.select_convs(1,2,3) sum.inject(2))
qed

section \<open>A stream of answers\<close>

lemma forM_const: "length xs = length ys \<Longrightarrow> forM xs (\<lambda>_. m) = forM ys (\<lambda>_. m)"
  by (induction xs ys rule: list_induct2) simp_all

lemma answers_cross:
  assumes "rmap answer_bytes as = Inr bss" and "\<forall>a \<in> set as. readable a \<and> incoming_types (proto E) (answer_route a) \<noteq> None"
  obtains ps where "bss = map fst ps" and "list_all2 (\<lambda>a p. answer_record E a (snd p)) as ps"
    and "\<forall>(bs, g) \<in> set ps. crosses (decode_incoming_from E) bs g"
  using assms
proof (induction as arbitrary: bss thesis)
  case Nil
  then show ?case
    by (auto intro: Nil(1)[of "[]"])
next
  case (Cons a as)
  obtain bs bss' where built: "answer_bytes a = Inr bs" "rmap answer_bytes as = Inr bss'" "bss = bs # bss'"
    using Cons.prems(2) by (auto simp: rbind_Inr_iff)
  obtain ps where ps: "bss' = map fst ps" "list_all2 (\<lambda>a p. answer_record E a (snd p)) as ps"
      "\<forall>(bs, g) \<in> set ps. crosses (decode_incoming_from E) bs g"
    using Cons.IH[OF _ built(2)] Cons.prems(3) by auto
  obtain tid where "readable a" "incoming_types (proto E) (answer_route a) = Some tid"
    using Cons.prems(3) by auto
  then obtain g where "crosses (decode_incoming_from E) bs g" "answer_record E a g"
    using answer_crosses[OF built(1)] by blast
  then show ?case
    using ps built(3) by (intro Cons.prems(1)[of "(bs, g) # ps"]) simp_all
qed

lemma answers_received:
  assumes S: "lawful_cipher S" and as: "\<forall>a \<in> set as. readable a \<and> incoming_types (proto E) (answer_route a) \<noteq> None"
    and bytes: "rmap answer_bytes as = Inr bss"
    and client: "record_decoder client = decode_incoming_from E" "steady (link client)"
    and view: "clear_view S client = concat bss @ rest" "length (clear_view S client) < 2 ^ 59"
  shows "\<exists>gs client'. forM as (\<lambda>_. receive_record S) client = (Inr gs, client') \<and> list_all2 (answer_record E) as gs
    \<and> clear_view S client' = rest \<and> steady (link client') \<and> same_ends client client'"
proof -
  obtain ps where ps: "bss = map fst ps" "list_all2 (\<lambda>a p. answer_record E a (snd p)) as ps"
      "\<forall>(bs, g) \<in> set ps. crosses (decode_incoming_from E) bs g"
    using answers_cross[OF bytes as] by blast
  then have "clear_view S client = concat (map fst ps) @ rest" and "length as = length ps"
    using bytes view(1) by (auto dest: list_all2_lengthD)
  then show ?thesis
    using receive_all[OF S client(2), of ps rest] ps(2,3) client(1) view(2) forM_const[of as ps "receive_record S"]
    by (auto simp: list_all2_map2)
qed

text \<open>Both ends enable protection with the same secret; what the client had received by then is protected already.\<close>

lemma protected_answers:
  assumes S: "lawful_cipher S" and as: "\<forall>a \<in> set as. readable a \<and> incoming_types (proto E) (answer_route a) \<noteq> None"
    and bytes: "rmap answer_bytes as = Inr bss"
    and server: "enable_protection_server S key server = (Inr (), server1)" "forM bss (send_record S) server1 = (Inr us, server2)"
    and client: "enable_protection S key client = (Inr (), client1)" "protocol client = protocol_decoders E" "\<not> server_mode client"
      "steady (link client)"
    and wire: "outgoing (link server2) = outgoing (link server) @ buffer client @ pending (link client)"
      "length (buffer client @ pending (link client)) < 2 ^ 59"
  shows "\<exists>gs client2. forM as (\<lambda>_. receive_record S) client1 = (Inr gs, client2) \<and> list_all2 (answer_record E) as gs
    \<and> buffer client2 = [] \<and> pending (link client2) = []"
proof -
  obtain i out where keys: "derive_transport_rc4_keys S key = Inr (i, out)"
      and ends: "install_ciphers S out i server = (Inr (), server1)" "install_ciphers S i out client = (Inr (), client1)"
    using server(1) client(1) unfolding enable_install by auto
  obtain ko ki where "rc4_new S out = Inr ko" and s1: "rc4_new S i = Inr ki"
      "server1 = server\<lparr>buffer := fst (rc4_apply S ko (buffer server)), inbound_cipher := Some (snd (rc4_apply S ko (buffer server))),
         outbound_cipher := Some ki\<rparr>"
    by (rule install_ciphers_ok[OF ends(1)])
  have "outgoing (link server2) = outgoing (link server) @ fst (rc4_apply S ki (concat bss))"
    using send_all_ok[OF S server(2)] by (simp add: s1(2) decrypted_def)
  then have "buffer client @ pending (link client) = fst (rc4_apply S ki (concat bss))"
    using wire(1) by simp
  then have view: "clear_view S client1 = concat bss @ []"
    using installed_view[OF S ends(2) s1(1)] S by simp
  have len: "length (clear_view S client1) < 2 ^ 59"
    unfolding installed_view[OF S ends(2) s1(1)] cipher_length[OF S] by (rule wire(2))
  have c1: "record_decoder client1 = decode_incoming_from E" "steady (link client1)" "inbound_cipher client1 \<noteq> None"
    by (rule install_ciphers_ok[OF ends(2)], use client(2-4) in \<open>simp add: record_decoder_def protocol_decoders_def\<close>)+
  obtain gs client2 where "forM as (\<lambda>_. receive_record S) client1 = (Inr gs, client2)" "list_all2 (answer_record E) as gs"
      "clear_view S client2 = []"
    using answers_received[OF S as bytes c1(1,2) view len] by blast
  then show ?thesis
    using S by (auto simp: clear_view_def decrypted_def split: option.splits) (metis cipher_length length_0_conv)+
qed

section \<open>Stream items\<close>

text \<open>
  The response of stream items is received, when it carries at most 49, but every publication time arrives with its
  top bit flipped.
\<close>

lemma stream_items_arrive_flipped:
  assumes "length items \<le> 49" and "\<forall>x \<in> set items. length (snd x) = 40"
    and "incoming_types (proto E) (CACHE_SLOT, CACHE_GET_STREAM_ITEMS_COMMAND) = Some tid"
  shows "\<exists>bs g. cache_stream_items_response token items = Inr bs \<and> crosses (decode_incoming_from E) bs g
    \<and> rec_value g = CacheStreamItems \<lparr>csi_items = map stream_item_of items, csi_offset = 0,
         csi_total_items = of_nat (length items), csi_token = token\<rparr>
    \<and> (\<forall>x \<in> set items. publication_time (stream_item_of x) = fst x XOR 0x80000000
         \<and> publication_time (stream_item_of x) \<noteq> fst x)"
proof -
  obtain bs n where "cache_stream_items_response token items = Inr bs"
      "crosses (decode_incoming_from E) bs (routed_record CACHE_GET_STREAM_ITEMS_COMMAND CACHE_SLOT tid
        (CacheStreamItems \<lparr>csi_items = map stream_item_of items, csi_offset = 0,
           csi_total_items = of_nat (length items), csi_token = token\<rparr>) n)"
    using stream_items.reaches_client[where v = "(token, items)" and c = CACHE_GET_STREAM_ITEMS_COMMAND and s = CACHE_SLOT and E = E and tid = tid] assms
    by (auto simp: cache_stream_items_response_def custom_decoders_def route_ids)
  moreover have "t XOR 0x80000000 \<noteq> t" for t :: u32
  proof
    assume "t XOR 0x80000000 = t"
    then have "t XOR (t XOR 0x80000000) = t XOR t"
      by simp
    then have "(t XOR t) XOR 0x80000000 = t XOR t"
      by (simp only: xor.assoc)
    then show False
      by simp
  qed
  ultimately show ?thesis
    by (auto simp: stream_item_of_def routed_record_def split: prod.split)
qed

end
