(* ===== verification/Alias_Laws.thy ===== *)
theory Alias_Laws
  imports Native_Schema Metadata_Laws
begin

text \<open>
  Aliases of a schema: the bounded walk \<open>peel_alias\<close> reports exactly the chains on which the unbounded walk of
  \<open>coerce_field_value\<close> does not return.
\<close>

definition alias_next :: "protocol \<Rightarrow> u32 \<Rightarrow> u32 option" where
  "alias_next P t = (case pshape P t of Inl e \<Rightarrow> None | Inr sh \<Rightarrow> if kind sh = KAlias then element_type sh else None)"

primrec alias_chain :: "protocol \<Rightarrow> nat \<Rightarrow> u32 \<Rightarrow> u32 option" where
  "alias_chain P 0 t = Some t"
| "alias_chain P (Suc n) t = Option.bind (alias_next P t) (alias_chain P n)"

lemma alias_chain_add: "alias_chain P (m + n) t = Option.bind (alias_chain P m t) (alias_chain P n)"
  by (induction m arbitrary: t) (simp_all split: bind_split)

text \<open>No more types have a shape than the schema counts, and no shape fails with the error of a cycle.\<close>

definition counts_types :: "schema \<Rightarrow> bool" where
  "counts_types s \<longleftrightarrow> card {t. \<exists>sh. schema_shape s t = Inr sh} \<le> schema_type_count s"

definition no_native :: "'a result \<Rightarrow> bool" where
  "no_native v \<longleftrightarrow> (\<forall>r. v \<noteq> Inl (Native r))"

lemma no_native_bind: "no_native m \<Longrightarrow> (\<And>x. m = Inr x \<Longrightarrow> no_native (f x)) \<Longrightarrow> no_native (rbind m f)"
  by (cases m) (simp_all add: no_native_def)

lemma no_native_base:
  "no_native (Inr x)" "no_native (meta_error r)" "no_native (Inl (Panic p))"
  "no_native (ok_or (error.Metadata r) v)" "no_native (ok_or (Panic p) v)" "meta_only w \<Longrightarrow> no_native w"
  "(c \<Longrightarrow> no_native a) \<Longrightarrow> (\<not> c \<Longrightarrow> no_native b) \<Longrightarrow> no_native (if c then a else b)"
  by (auto simp: no_native_def meta_only_def)

lemma no_native_rmap: "(\<And>x. x \<in> set xs \<Longrightarrow> no_native (f x)) \<Longrightarrow> no_native (rmap f xs)"
  by (induction xs) (auto intro!: no_native_bind no_native_base(1))

lemmas no_native_intros = no_native_bind no_native_rmap no_native_base(1-5,7)

lemma metadata_type_no_native: "no_native (metadata_type m t)"
  unfolding metadata_type_def dump_record_def strings_def string_offsets_def string_at_def blob_slice_def checked_offset_def
  by (intro no_native_intros) (rule no_native_base(6)[OF meta_only_u32_at] no_native_intros)+

lemma parts_no_native: "no_native (read_shape_parts k implicit dump)"
  using parts_errors[of k implicit dump] by (cases "read_shape_parts k implicit dump") (auto simp: no_native_def)

lemma shape_no_native: "no_native (schema_shape s t)"
proof (cases s)
  case (Runtime m)
  show ?thesis
    unfolding Runtime schema_shape.simps metadata_shape_def Let_def
    by (intro no_native_bind no_native_base(5) metadata_type_no_native no_native_base(6)[OF meta_only_kind]
        parts_no_native)
      (auto split: prod.splits intro!: no_native_intros)
next
  case (Static st)
  then show ?thesis
    by (auto simp: static_get_def no_native_def split: option.splits)
qed

lemma shape_error_not_native: "schema_shape s t \<noteq> Inl (Native r)"
  using shape_no_native[of s t] by (simp add: no_native_def)

section \<open>The bounded walk\<close>

lemma peel_loop_cycle:
  "depth \<le> schema_type_count (cschema (pcodec P)) \<Longrightarrow>
    peel_loop P depth t = native_error AliasCycle \<longleftrightarrow> alias_chain P (Suc (schema_type_count (cschema (pcodec P)) - depth)) t \<noteq> None"
proof (induction P depth t rule: peel_loop.induct)
  case (1 P depth t)
  let ?n = "schema_type_count (cschema (pcodec P))"
  show ?case
  proof (cases "alias_next P t")
    case None
    then show ?thesis
      using shape_error_not_native[of "cschema (pcodec P)" t AliasCycle]
      by (subst peel_loop.simps) (auto simp: alias_next_def split: sum.splits option.splits)
  next
    case (Some t')
    then obtain sh where sh: "pshape P t = Inr sh" "kind sh = KAlias" "element_type sh = Some t'"
      by (auto simp: alias_next_def split: sum.splits if_split_asm)
    then show ?thesis
      using "1.IH"[OF sh(1) _ sh(3)] "1.prems" Some
      by (subst peel_loop.simps) (auto simp: Suc_diff_Suc not_less split: bind_split)
  qed
qed

section \<open>The unbounded walk\<close>

lemma coerce_loop_step: "alias_next P t = Some t' \<Longrightarrow> coerce_loop P t v = coerce_loop P t' v"
  by (subst coerce_loop.simps) (auto simp: alias_next_def split: sum.splits if_split_asm)

lemma coerce_loop_stop: "alias_next P t = None \<Longrightarrow> coerce_loop P t v \<noteq> None"
  by (subst coerce_loop.simps) (auto simp: alias_next_def split: sum.splits if_split_asm option.splits)

lemma coerce_loop_ends: "alias_chain P n t = None \<Longrightarrow> coerce_loop P t v \<noteq> None"
proof (induction n arbitrary: t)
  case (Suc n)
  then show ?case
    using coerce_loop_stop[of P t v] coerce_loop_step[of P t _ v] by (cases "alias_next P t") (simp_all del: not_None_eq)
qed simp

lemma coerce_loop_ended:
  assumes "coerce_loop P t v = Some r"
  shows "\<exists>n. alias_chain P n t = None"
proof -
  have "(\<lambda>((P, t), v) r. \<exists>n. alias_chain P n t = None) ((P, t), v) r"
  proof (rule coerce_loop.raw_induct[OF _ assms], unfold prod.case)
  fix rec :: "protocol \<Rightarrow> u32 \<Rightarrow> bsn_value \<Rightarrow> bsn_value result option" and P t v r
  assume rec: "\<And>P t v r. rec P t v = Some r \<Longrightarrow> \<exists>n. alias_chain P n t = None"
    and run: "(case pshape P t of Inl e \<Rightarrow> Some (Inl e)
      | Inr sh \<Rightarrow> if kind sh = KAlias then (case element_type sh of None \<Rightarrow> Some (native_error AliasWithoutElement) | Some t \<Rightarrow> rec P t v)
          else if kind sh = KOptional \<and> \<not> is_optional v then Some (Inr (Optional (Some v))) else Some (Inr v)) = Some r"
  show "\<exists>n. alias_chain P n t = None"
  proof (cases "alias_next P t")
    case None
    then have "alias_chain P (Suc 0) t = None"
      by simp
    then show ?thesis ..
  next
    case (Some t')
    then have "rec P t' v = Some r"
      using run by (auto simp: alias_next_def split: sum.splits if_split_asm)
    then obtain n where "alias_chain P n t' = None"
      using rec by blast
    then have "alias_chain P (Suc n) t = None"
      using Some by simp
    then show ?thesis ..
  qed
  qed
  then show ?thesis
    by simp
qed

section \<open>Both\<close>

text \<open>A chain of more steps than there are types meets a type twice, and so never ends.\<close>

lemma long_chain_endless:
  assumes "counts_types (cschema (pcodec P))" and "alias_chain P (Suc (schema_type_count (cschema (pcodec P)))) t \<noteq> None"
  shows "alias_chain P n t \<noteq> None"
proof
  let ?n = "schema_type_count (cschema (pcodec P))" and ?S = "{t. \<exists>sh. pshape P t = Inr sh}"
  assume ends: "alias_chain P n t = None"
  define k where "k = (LEAST n. alias_chain P n t = None)"
  have k: "alias_chain P k t = None" and least: "\<And>i. i < k \<Longrightarrow> alias_chain P i t \<noteq> None"
    using LeastI[of "\<lambda>n. alias_chain P n t = None", OF ends] not_less_Least unfolding k_def by auto
  have before: "alias_chain P i t \<noteq> None" if "i \<le> Suc ?n" for i
    using assms(2) alias_chain_add[of P i "Suc ?n - i" t] that by (auto split: bind_splits)
  then have "Suc ?n < k"
    using k by (metis not_less)
  define x where "x = (\<lambda>i. the (alias_chain P i t))"
  have x: "alias_chain P i t = Some (x i)" if "i \<le> Suc ?n" for i
    using before[OF that] by (auto simp: x_def)
  have "x i \<in> ?S" if "i \<le> ?n" for i
  proof -
    have "alias_chain P (i + 1) t = Option.bind (Some (x i)) (alias_chain P 1)"
      using alias_chain_add[of P i 1 t] x[of i] that by simp
    then have "alias_next P (x i) \<noteq> None"
      using before[of "i + 1"] that by (auto split: bind_splits)
    then show ?thesis
      by (auto simp: alias_next_def split: sum.splits)
  qed
  then have "x ` {..?n} \<subseteq> ?S"
    by auto
  then have "card (x ` {..?n}) \<le> ?n"
    using assms(1) card_mono[of ?S "x ` {..?n}"] by (simp add: counts_types_def)
  then have "\<not> inj_on x {..?n}"
    by (intro pigeonhole) simp
  then obtain i j where ij: "i < j" "j \<le> ?n" "x i = x j"
    unfolding inj_on_def using linorder_neqE_nat by (metis (no_types, lifting) atMost_iff)
  have "j \<le> k"
    using ij(2) \<open>Suc ?n < k\<close> by simp
  then have "alias_chain P k t = alias_chain P (k - j) (x j)"
    using alias_chain_add[of P j "k - j" t] x[of j] ij(2) by simp
  also have "\<dots> = alias_chain P (i + (k - j)) t"
    using alias_chain_add[of P i "k - j" t] x[of i] ij by simp
  finally have "alias_chain P (i + (k - j)) t = None"
    using k by simp
  moreover have "i + (k - j) < k"
    using ij(1) \<open>j \<le> k\<close> by linarith
  ultimately show False
    using least by blast
qed

theorem endless_iff_cycle:
  assumes "counts_types (cschema (pcodec P))"
  shows "coerce_loop P t v = None \<longleftrightarrow> peel_alias P t = native_error AliasCycle"
proof -
  have "peel_alias P t = native_error AliasCycle \<longleftrightarrow> alias_chain P (Suc (schema_type_count (cschema (pcodec P)))) t \<noteq> None"
    unfolding peel_alias_def using peel_loop_cycle[of 0 P t] by simp
  then show ?thesis
    using long_chain_endless[OF assms] coerce_loop_ended[of P t v] coerce_loop_ends[of P _ t v] by (metis not_Some_eq)
qed

lemma runtime_counts:
  assumes "length (dump_offsets m) \<le> type_count (Metadata.header m)"
  shows "counts_types (Runtime m)"
proof -
  have "t \<in> of_nat ` {..<length (dump_offsets m)}" if "schema_shape (Runtime m) t = Inr sh" for t sh
  proof -
    have "unat t < length (dump_offsets m)"
      using that by (auto simp: metadata_shape_def metadata_type_def dump_record_def checked_offset_def rbind_Inr_iff get_at_Some)
    then show ?thesis
      by (intro image_eqI[of _ _ "unat t"]) simp_all
  qed
  then have "{t. \<exists>sh. schema_shape (Runtime m) t = Inr sh} \<subseteq> of_nat ` {..<length (dump_offsets m)}"
    by blast
  then have "card {t. \<exists>sh. schema_shape (Runtime m) t = Inr sh} \<le> card {..<length (dump_offsets m)}"
    by (meson card_image_le card_mono finite_imageI finite_lessThan order_trans)
  then show ?thesis
    using assms by (simp add: counts_types_def)
qed

lemma parsed_counts: "parse_metadata data = Inr m \<Longrightarrow> counts_types (Runtime m)"
  by (rule runtime_counts)
    (auto simp: parse_metadata_def read_offset_table_def rbind_Inr_iff Let_def split: if_split_asm dest!: rmap_Inr_length)

end
