(* ===== verification/Native_Demo.thy ===== *)
theory Native_Demo
  imports Logon_Laws Reflected_Laws Native_Answers Alias_Laws "HOL-Library.Code_Target_Nat"
begin

text \<open>
  An example of a native connection for the witnesses of its properties: a small schema with the types of the
  logon, a protocol on it, cryptography with fixed answers, and a server's records.
\<close>

section \<open>The schema\<close>

definition wide :: integer_range where
  "wide = \<lparr>encoding = 0, bit_width = Some 10, control_flag = False, minimum = 0, maximum = 1023\<rparr>"

definition version_range :: integer_range where
  "version_range = \<lparr>encoding = 0, bit_width = Some 32, control_flag = False, minimum = 0, maximum = 4294967295\<rparr>"

definition sample_type :: "u32 \<Rightarrow> type_kind \<Rightarrow> integer_range option \<Rightarrow> u32 option \<Rightarrow> static_type_shape" where
  "sample_type tid k r element = \<lparr>st_type_id = tid, st_name = None, st_kind = k, st_implicit_indices = True,
     st_obfuscated = False, st_value_range = r, st_element_type = element, st_index_values = [], st_member_types = [],
     st_member_names = []\<rparr>"

definition sample_members :: "type_kind \<Rightarrow> u32 \<Rightarrow> (string \<times> u32) list \<Rightarrow> static_type_shape" where
  "sample_members k tid ms = (sample_type tid k (Some wide) None)\<lparr>st_index_values := map int [0..<length ms],
     st_member_types := map snd ms, st_member_names := map (\<lambda>m. Some (ascii (fst m))) ms\<rparr>"

abbreviation sample_struct :: "u32 \<Rightarrow> (string \<times> u32) list \<Rightarrow> static_type_shape" where
  "sample_struct \<equiv> sample_members KStruct"

definition native_schema :: static_schema where
  "native_schema = \<lparr>ss_type_count = 25, ss_types =
     [sample_type 1 KBool None None,
      sample_type 2 KBlob (Some wide) None,
      sample_type 3 KInteger (Some version_range) None,
      sample_type 4 KFourCc None None,
      sample_struct 5 [(''m_useS3Depot'', 1)],
      sample_struct 6 [(''m_id'', 2), (''m_data'', 2)],
      sample_type 7 KArray (Some wide) (Some 6),
      sample_struct 8 [(''m_request'', 7)],
      sample_struct 9 [(''m_finalRequest'', 7), (''m_pingTimeout'', 3)],
      sample_struct 10 [(''ResponseSuccessCommon'', 9), (''m_accountRegion'', 3), (''m_gameAccountRegion'', 3),
        (''m_gameAccountName'', 2), (''m_logonFailures'', 3)],
      sample_members KChoice 11 [(''success'', 10)],
      sample_struct 12 [(''m_result'', 11)],
      sample_struct 13 [(''m_programId'', 4), (''m_component'', 4), (''m_version'', 3)],
      sample_type 14 KArray (Some wide) (Some 13),
      sample_struct 15 [(''m_program'', 4), (''m_platform'', 4), (''m_locale'', 4), (''m_versions'', 14)],
      sample_struct 16 [(''RequestCommon'', 15), (''m_account'', 2), (''m_gameAccountRegion'', 3), (''m_gameAccountName'', 2)],
      sample_struct 17 [(''m_data'', 2)],
      sample_type 18 KArray (Some wide) (Some 17),
      sample_struct 19 [(''m_response'', 18)],
      sample_struct 20 [],
      sample_struct 21 [(''LogonResponse'', 12), (''m_raf'', 22)],
      sample_type 22 KOptional None (Some 1),
      sample_type 23 KAlias None (Some 24),
      sample_type 24 KAlias None (Some 23),
      sample_type 25 KAlias None (Some 1)]\<rparr>"

definition native_codec :: codec where
  "native_codec = codec_from_schema (Static native_schema)"

definition sample_program :: program where
  "sample_program = \<lparr>run_encode = (\<lambda>_ _ _ _ _. fail ProtobufDecode), run_decode = (\<lambda>_ _ _ _. fail ProtobufDecode),
     run_decode_traced = (\<lambda>_ _ _ _ _ _. fail ProtobufDecode), f32_text = (\<lambda>_. []), f64_text = (\<lambda>_. []),
     error_text = (\<lambda>_. []), max_capacity = 1000\<rparr>"

definition sample_routes :: "((u8 \<times> u8) \<times> u32) list" where
  "sample_routes =
     [((AUTHENTICATION_SLOT, AUTH_CONFIGURATION_COMMAND), 5), ((AUTHENTICATION_SLOT, AUTH_PROOF_COMMAND), 8),
      ((AUTHENTICATION_SLOT, AUTH_RESUME_COMMAND), 12), ((CHAT_SLOT, CHAT_CHANNEL_LIST_RESPONSE_COMMAND), 30),
      ((CHAT_SLOT, CHAT_JOIN_NOTIFY_COMMAND), 31), ((S2_MULTIPLAYER_SLOT, S2_MULTIPLAYER_CLUB_SETTINGS_COMMAND), 32)]"

definition sample_protocol :: protocol where
  "sample_protocol = \<lparr>pcodec = native_codec, incoming_types = map_of sample_routes, resume_request_type = 16,
     logon_request_type = 16, single_sign_on_request_type = 16, proof_response_type = 19, enable_encryption_type = 20,
     configuration_type = 5, proof_request_type = 8, resume_response_type = 12, ping_type = 20, message_frame_type = 20,
     front_logon_response_type = 21, chat_channel_list_request_type = 20, chat_enum_member_counts_type = 20,
     chat_enum_conference_descriptions_type = 20, chat_status_change_type = 20, friends_toons_request_type = 20,
     profile_address_query_request_type = 20, profile_resolve_toon_name_request_type = 20,
     presence_statistics_subscribe_type = 20, temporary_presence_request_type = 20, toon_full_name_type = 20,
     profile_record_address_type = 20, profile_data_response_type = 20, token_type = 20\<rparr>"

definition sample_env :: env where
  "sample_env = \<lparr>code = sample_program, stack = 8, proto = sample_protocol\<rparr>"

section \<open>Cryptography with fixed answers\<close>

definition sample_suite :: "u8 suite" where
  "sample_suite = \<lparr>hmac = (\<lambda>_ _. Some (replicate 32 7)), rc4_key = (\<lambda>key. if key = [] then None else Some (hd key)),
     rc4_apply = (\<lambda>k bs. (map (\<lambda>b. b XOR k) bs, k)), thumbprint_ok = (\<lambda>_ sig. hd sig = 1)\<rparr>"

lemma sample_suite_lawful: "lawful_suite sample_suite"
proof -
  have "(\<lambda>b. b XOR k) \<circ> (\<lambda>b. b XOR k) = id" for k :: u8
    by (simp add: fun_eq_iff xor.assoc)
  then show ?thesis
    by (auto simp: lawful_suite_def lawful_mac_def lawful_cipher_def sample_suite_def)
qed

section \<open>The codec of the example\<close>

lemma sample_wf: "wf_codec (pcodec (proto sample_env))"
proof -
  have "\<forall>sh \<in> set (ss_types native_schema). wf_shape (to_shape sh)"
    by (simp add: native_schema_def wf_shape_def ranged_kind_def to_shape_def sample_members_def sample_type_def)
  then show ?thesis
    by (simp add: sample_env_def sample_protocol_def native_codec_def wf_codec_new wf_schema_static)
qed

lemma sample_no_layouts: "wire_layouts (pcodec (proto sample_env)) tid = None"
  by (simp add: sample_env_def sample_protocol_def native_codec_def codec_from_schema_def)

lemma sample_lawful: "lawful_program (code sample_env) (pcodec (proto sample_env)) nf"
  by (simp add: lawful_program_def sample_no_layouts)

lemma sample_covered: "layouts_cover (pcodec (proto sample_env))"
proof -
  have "\<not> obfuscated sh" if "schema_shape (Static native_schema) tid = Inr sh" for tid sh
    using that static_shape_cases[of native_schema tid]
    by (auto simp: native_schema_def sample_members_def sample_type_def to_shape_def)
  then show ?thesis
    by (auto simp: layouts_cover_def sample_env_def sample_protocol_def native_codec_def codec_from_schema_def simp del: schema_shape.simps)
qed

end
