(* ===== verification/Native_Script.thy ===== *)
theory Native_Script
  imports Native_Demo
begin

text \<open>
  The session of the example: the handoff of the client, the records its server sends, and the proofs that the
  client builds its requests, that the server's records reach it, and that the server is honest.
\<close>

section \<open>The types of the example\<close>

lemma ascii_eq [simp]: "ascii a = ascii b \<longleftrightarrow> a = b"
proof -
  have "inj (\<lambda>c. of_nat (of_char c) :: u8)"
  proof (rule injI)
    fix c d :: char assume "(of_nat (of_char c) :: u8) = of_nat (of_char d)"
    then have "unat (of_nat (of_char c) :: u8) = unat (of_nat (of_char d) :: u8)"
      by simp
    then have "(of_char c :: nat) mod 256 = of_char d mod 256"
      by (simp add: unat_of_nat)
    then show "c = d"
      by simp
  qed
  then show ?thesis
    unfolding ascii_def by (simp add: inj_map_eq_map)
qed

lemma sample_shape:
  assumes "sh \<in> set (ss_types native_schema)" and "st_type_id sh = t"
  shows "schema_shape (cschema native_codec) t = Inr (to_shape sh)"
proof -
  have "sorted_wrt (<) (map st_type_id (ss_types native_schema))"
    by (simp add: native_schema_def sample_members_def sample_type_def)
  then have "static_get native_schema t = Inr sh"
    using static_get_iff assms by blast
  then show ?thesis
    by (simp add: native_codec_def codec_from_schema_def)
qed

lemma shape_members:
  "st_type_id (sample_members k t ms) = t"
  "kind (to_shape (sample_members k t ms)) = k"
  "obfuscated (to_shape (sample_members k t ms)) = False"
  "value_range (to_shape (sample_members k t ms)) = Some wide"
  "element_type (to_shape (sample_members k t ms)) = None"
  "index_values (to_shape (sample_members k t ms)) = map int [0..<length ms]"
  "member_types (to_shape (sample_members k t ms)) = map snd ms"
  "member_names (to_shape (sample_members k t ms)) = map (\<lambda>m. Some (ascii (fst m))) ms"
  by (simp_all add: sample_members_def sample_type_def to_shape_def)

lemma shape_type:
  "st_type_id (sample_type t k r e) = t"
  "kind (to_shape (sample_type t k r e)) = k"
  "obfuscated (to_shape (sample_type t k r e)) = False"
  "value_range (to_shape (sample_type t k r e)) = r"
  "element_type (to_shape (sample_type t k r e)) = e"
  "index_values (to_shape (sample_type t k r e)) = []"
  "member_types (to_shape (sample_type t k r e)) = []"
  "member_names (to_shape (sample_type t k r e)) = []"
  by (simp_all add: sample_type_def to_shape_def)

lemma sample_shapes:
  "schema_shape (cschema native_codec) 1 = Inr (to_shape (sample_type 1 KBool None None))"
  "schema_shape (cschema native_codec) 2 = Inr (to_shape (sample_type 2 KBlob (Some wide) None))"
  "schema_shape (cschema native_codec) 3 = Inr (to_shape (sample_type 3 KInteger (Some version_range) None))"
  "schema_shape (cschema native_codec) 4 = Inr (to_shape (sample_type 4 KFourCc None None))"
  "schema_shape (cschema native_codec) 5 = Inr (to_shape (sample_struct 5 [(''m_useS3Depot'', 1)]))"
  "schema_shape (cschema native_codec) 6 = Inr (to_shape (sample_struct 6 [(''m_id'', 2), (''m_data'', 2)]))"
  "schema_shape (cschema native_codec) 7 = Inr (to_shape (sample_type 7 KArray (Some wide) (Some 6)))"
  "schema_shape (cschema native_codec) 8 = Inr (to_shape (sample_struct 8 [(''m_request'', 7)]))"
  "schema_shape (cschema native_codec) 9 = Inr (to_shape (sample_struct 9 [(''m_finalRequest'', 7), (''m_pingTimeout'', 3)]))"
  "schema_shape (cschema native_codec) 10 = Inr (to_shape (sample_struct 10 [(''ResponseSuccessCommon'', 9), (''m_accountRegion'', 3), (''m_gameAccountRegion'', 3), (''m_gameAccountName'', 2), (''m_logonFailures'', 3)]))"
  "schema_shape (cschema native_codec) 11 = Inr (to_shape (sample_members KChoice 11 [(''success'', 10)]))"
  "schema_shape (cschema native_codec) 12 = Inr (to_shape (sample_struct 12 [(''m_result'', 11)]))"
  "schema_shape (cschema native_codec) 13 = Inr (to_shape (sample_struct 13 [(''m_programId'', 4), (''m_component'', 4), (''m_version'', 3)]))"
  "schema_shape (cschema native_codec) 14 = Inr (to_shape (sample_type 14 KArray (Some wide) (Some 13)))"
  "schema_shape (cschema native_codec) 15 = Inr (to_shape (sample_struct 15 [(''m_program'', 4), (''m_platform'', 4), (''m_locale'', 4), (''m_versions'', 14)]))"
  "schema_shape (cschema native_codec) 16 = Inr (to_shape (sample_struct 16 [(''RequestCommon'', 15), (''m_account'', 2), (''m_gameAccountRegion'', 3), (''m_gameAccountName'', 2)]))"
  "schema_shape (cschema native_codec) 17 = Inr (to_shape (sample_struct 17 [(''m_data'', 2)]))"
  "schema_shape (cschema native_codec) 18 = Inr (to_shape (sample_type 18 KArray (Some wide) (Some 17)))"
  "schema_shape (cschema native_codec) 19 = Inr (to_shape (sample_struct 19 [(''m_response'', 18)]))"
  "schema_shape (cschema native_codec) 20 = Inr (to_shape (sample_struct 20 []))"
  "schema_shape (cschema native_codec) 21 = Inr (to_shape (sample_struct 21 [(''LogonResponse'', 12), (''m_raf'', 22)]))"
  "schema_shape (cschema native_codec) 22 = Inr (to_shape (sample_type 22 KOptional None (Some 1)))"
  by (rule sample_shape, simp add: native_schema_def, simp add: shape_members shape_type)+


lemmas sample_meta = shape_members shape_type

lemma sample_codec: "pcodec (proto sample_env) = native_codec" "stack sample_env = 8" "code sample_env = sample_program"
  "proto sample_env = sample_protocol" "pcodec sample_protocol = native_codec"
  by (simp_all add: sample_env_def sample_protocol_def)


section \<open>The two ends\<close>

definition sample_handoff :: native_handoff where
  "sample_handoff = \<lparr>nh_address = ascii ''10.0.0.7:1119'', nh_session_key = replicate 64 9, nh_account_region = 2,
     nh_game_account_name = ascii ''S2'', nh_account_mail = ascii ''a@b'', nh_logon_response = []\<rparr>"

definition sample_peer :: bytes where
  "sample_peer = ascii ''10.0.0.7''"

text \<open>The digest of the example is always the same, so the proofs are known.\<close>

definition sample_proof :: session_proof where
  "sample_proof = \<lparr>proof_output = 1 # replicate 16 3 @ replicate 32 7, client_nonce = replicate 16 3,
     server_nonce = replicate 16 5, transport_key = replicate 64 7, expected_server_proof = replicate 32 7\<rparr>"

definition sample_server_proof :: server_session_proof where
  "sample_server_proof = \<lparr>ssp_server_proof = replicate 32 7, ssp_transport_key = replicate 64 7\<rparr>"

section \<open>The values of the server\<close>

definition sample_field :: "int \<Rightarrow> string \<Rightarrow> bsn_value \<Rightarrow> bsn_field" where
  "sample_field i name v = Field i (Some (ascii name)) v"

lemma sample_fields:
  "field_index (sample_field i name v) = i" "field_name (sample_field i name v) = Some (ascii name)"
  "field_value (sample_field i name v) = v"
  by (simp_all add: sample_field_def)

definition sample_module :: "bytes \<Rightarrow> bytes \<Rightarrow> bsn_value" where
  "sample_module a d = Struct 6 [sample_field 0 ''m_id'' (Bytes a), sample_field 1 ''m_data'' (Bytes d)]"

definition sample_configuration :: "bsn_field list" where
  "sample_configuration = [sample_field 0 ''m_useS3Depot'' (Bool True)]"

definition sample_request :: "bsn_field list" where
  "sample_request = [sample_field 0 ''m_request'' (Array [sample_module THUMBPRINT_MODULE_ID (replicate 512 1),
     sample_module SESSION_PROOF_MODULE_ID (0 # replicate 16 5)])]"

definition sample_resume :: "bsn_field list" where
  "sample_resume = [sample_field 0 ''m_result'' (Choice 0 (Struct 10
     [sample_field 0 ''ResponseSuccessCommon'' (Struct 9
        [sample_field 0 ''m_finalRequest'' (Array [sample_module SESSION_PROOF_MODULE_ID (2 # replicate 32 7)]),
         sample_field 1 ''m_pingTimeout'' (Integer 60000)]),
      sample_field 1 ''m_accountRegion'' (Integer 0), sample_field 2 ''m_gameAccountRegion'' (Integer 0),
      sample_field 3 ''m_gameAccountName'' (Bytes []), sample_field 4 ''m_logonFailures'' (Integer 0)]))]"

lemma by_index_Cons:
  "by_index (sample_field i name v # fs) j = (case by_index fs j of Some x \<Rightarrow> Some x | None \<Rightarrow> if i = j then Some v else None)"
  "by_index [] j = None"
  by (auto simp: by_index_def sample_field_def map_add_def split: option.split)

lemma room_step:
  assumes "schema_shape (cschema native_codec) t = Inr sh"
  shows "value_room native_codec (Suc n) t v = kind_room native_codec n (value_room native_codec n) sh v"
  using assms by (simp add: value_room.simps plain_layout_def native_codec_def codec_from_schema_def)

lemmas room_steps = sample_shapes[THEN room_step]

lemma eight: "8 = Suc (Suc (Suc (Suc (Suc (Suc (Suc (Suc 0)))))))" by simp

lemma upts: "[0..<Suc 0] = [0]" "[0..<2] = [0, 1]" "[0..<3] = [0, 1, 2]" "[0..<4] = [0, 1, 2, 3]" "[0..<5] = [0, 1, 2, 3, 4]"
  by (simp_all add: upt_rec)

lemma module_ids: "length THUMBPRINT_MODULE_ID = 40" "length SESSION_PROOF_MODULE_ID = 40"
  by (simp_all add: THUMBPRINT_MODULE_ID_def SESSION_PROOF_MODULE_ID_def module_id_def THUMBPRINT_MODULE_HASH_def SESSION_MODULE_HASH_def
      MODULE_USAGE_def ascii_def)

lemma sample_rooms:
  "\<exists>k. value_room native_codec 8 5 (Struct 5 sample_configuration) = Some k \<and> k < 1000"
  "\<exists>k. value_room native_codec 8 8 (Struct 8 sample_request) = Some k \<and> k < 10000"
  "\<exists>k. value_room native_codec 8 12 (Struct 12 sample_resume) = Some k \<and> k < 10000"
  unfolding eight sample_configuration_def sample_request_def sample_resume_def
  subgoal
    by (simp add: room_steps kind_room_def member_room_def get_at_def sample_meta upts by_index_Cons
     range_room_def text_room_def wide_def)
  subgoal
    by (simp add: room_steps kind_room_def member_room_def get_at_def sample_meta upts by_index_Cons sample_module_def module_ids
     range_room_def text_room_def wide_def)
  subgoal
    by (simp add: room_steps kind_room_def member_room_def get_at_def sample_meta upts by_index_Cons sample_module_def module_ids
     range_room_def text_room_def wide_def version_range_def)
  done

section \<open>Their crossing\<close>

lemma normal_step:
  assumes "schema_shape (cschema native_codec) t = Inr sh"
  shows "normal_form native_codec nf (Suc n) t v = kind_normal native_codec n (normal_form native_codec nf n) t sh v"
  using assms by (simp add: native_codec_def codec_from_schema_def)

declare normal_form.simps [simp del]

lemmas normal_steps = sample_shapes[THEN normal_step]

lemma sample_normal:
  "normal_form native_codec (\<lambda>_ v. v) 8 5 (Struct 5 sample_configuration) = Struct 5 sample_configuration"
  "normal_form native_codec (\<lambda>_ v. v) 8 8 (Struct 8 sample_request) = Struct 8 sample_request"
  "normal_form native_codec (\<lambda>_ v. v) 8 12 (Struct 12 sample_resume) = Struct 12 sample_resume"
  unfolding eight sample_configuration_def sample_request_def sample_resume_def sample_module_def
  subgoal
    by (simp add: normal_steps kind_normal_def struct_normal_def struct_member_def sample_meta upts by_index_Cons) (simp add: sample_field_def)
  subgoal
    by (simp add: normal_steps kind_normal_def struct_normal_def struct_member_def sample_meta upts by_index_Cons) (simp add: sample_field_def)
  subgoal
    by (simp add: normal_steps kind_normal_def struct_normal_def struct_member_def sample_meta upts by_index_Cons) (simp add: sample_field_def)
  done

lemma live_sample: "live_field cap (sample_field i name v) = live cap v"
  by (simp add: sample_field_def)

lemma sample_live:
  "live (max_capacity sample_program) (Struct 5 sample_configuration)"
  "live (max_capacity sample_program) (Struct 8 sample_request)"
  "live (max_capacity sample_program) (Struct 12 sample_resume)"
  by (simp_all add: sample_configuration_def sample_request_def sample_resume_def sample_module_def live_sample
      sample_program_def module_ids)

lemma sample_crosses:
  assumes "incoming_types sample_protocol (AUTHENTICATION_SLOT, c) = Some t" and "c < 64"
    and "\<not> has_custom_incoming_decoder (AUTHENTICATION_SLOT, c)"
    and "value_room native_codec 8 t v = Some k" and "k < 2 ^ 58"
    and "live (max_capacity sample_program) v" and "normal_form native_codec (\<lambda>_ v. v) 8 t v = v"
  obtains bs n where "encode_record sample_env c AUTHENTICATION_SLOT t v = Inr bs" and "length bs \<le> div_ceil (11 + k) 8"
    and "crosses (decode_incoming_from sample_env) bs (routed_record c AUTHENTICATION_SLOT t (payload.Reflected v) n)"
proof -
  have slot: "AUTHENTICATION_SLOT < 16"
    by (simp add: route_ids)
  obtain bs where bs: "encode_record sample_env c AUTHENTICATION_SLOT t v = Inr bs" "length bs \<le> div_ceil (11 + k) 8"
    using conforming_record[of sample_env t v k c AUTHENTICATION_SLOT] assms(2,4) slot by (auto simp: sample_codec)
  have "length bs < 2 ^ 59"
    using bs(2) assms(5) by (simp add: div_ceil_8)
  then obtain n where "crosses (decode_incoming_from sample_env) bs
      (routed_record c AUTHENTICATION_SLOT t (payload.Reflected (normal_form native_codec (\<lambda>_ v. v) 8 t v)) n)"
    using reflected_record_crosses[OF sample_wf sample_lawful[where nf = "\<lambda>_ v. v"] sample_covered assms(2) slot, of t v bs] bs(1) assms(1,3,6)
    unfolding sample_codec by auto
  then show thesis
    using that bs assms(7) by simp
qed

section \<open>The records of the client\<close>

lemma plain_steps:
  assumes "schema_shape (cschema native_codec) t = Inr sh" and "kind sh \<noteq> KAlias"
  shows "peel_alias sample_protocol t = Inr t"
    and "kind sh \<noteq> KOptional \<Longrightarrow> coerce_field_value sample_protocol t v = Inr v"
  using assms by (simp_all add: peel_alias_def peel_loop.simps coerce_field_value_def coerce_loop.simps sample_codec)

lemma sample_peels:
  "peel_alias sample_protocol 13 = Inr 13" "peel_alias sample_protocol 14 = Inr 14" "peel_alias sample_protocol 15 = Inr 15"
  "peel_alias sample_protocol 16 = Inr 16" "peel_alias sample_protocol 17 = Inr 17" "peel_alias sample_protocol 18 = Inr 18"
  "peel_alias sample_protocol 19 = Inr 19" "peel_alias sample_protocol 20 = Inr 20"
  by (rule plain_steps, rule sample_shapes, simp add: sample_meta)+

lemma sample_coerces:
  "coerce_field_value sample_protocol 2 v = Inr v" "coerce_field_value sample_protocol 3 v = Inr v"
  "coerce_field_value sample_protocol 4 v = Inr v" "coerce_field_value sample_protocol 14 v = Inr v"
  "coerce_field_value sample_protocol 15 v = Inr v" "coerce_field_value sample_protocol 18 v = Inr v"
  by (rule plain_steps, rule sample_shapes, simp add: sample_meta, simp add: sample_meta)+

lemmas sample_building = sample_peels sample_coerces sample_shapes sample_meta sample_codec get_at_def

lemma sample_struct_value:
  "struct_value sample_protocol 20 [] = Inr (Struct 20 [])"
  "struct_value sample_protocol 19 [(''m_response'', v)] = Inr (Struct 19 [sample_field 0 ''m_response'' v])"
  "struct_value sample_protocol 17 [(''m_data'', v)] = Inr (Struct 17 [sample_field 0 ''m_data'' v])"
  "struct_value sample_protocol 13 [(''m_programId'', a), (''m_component'', b), (''m_version'', c)] =
     Inr (Struct 13 [sample_field 0 ''m_programId'' a, sample_field 1 ''m_component'' b, sample_field 2 ''m_version'' c])"
  "struct_value sample_protocol 15 [(''m_program'', a), (''m_platform'', b), (''m_locale'', c), (''m_versions'', d)] =
     Inr (Struct 15 [sample_field 0 ''m_program'' a, sample_field 1 ''m_platform'' b, sample_field 2 ''m_locale'' c,
       sample_field 3 ''m_versions'' d])"
  "struct_value sample_protocol 16 [(''RequestCommon'', a), (''m_account'', b), (''m_gameAccountRegion'', c), (''m_gameAccountName'', d)] =
     Inr (Struct 16 [sample_field 0 ''RequestCommon'' a, sample_field 1 ''m_account'' b, sample_field 2 ''m_gameAccountRegion'' c,
       sample_field 3 ''m_gameAccountName'' d])"
  by (simp_all add: struct_value_def struct_field_def sample_building sample_field_def)

lemma sample_parts:
  "member_type sample_protocol 16 ''RequestCommon'' = Inr 15" "member_type sample_protocol 15 ''m_versions'' = Inr 14"
  "array_element sample_protocol 14 = Inr 13"
  "member_type sample_protocol 19 ''m_response'' = Inr 18" "array_element sample_protocol 18 = Inr 17"
  by (simp_all add: member_type_def array_element_def sample_building)

lemma sample_record:
  assumes "value_room native_codec 8 t v = Some k" and "c < 64" and "s < 16"
  shows "\<exists>bs. encode_record sample_env c s t v = Inr bs"
  using conforming_record[of sample_env t v k c s] assms by (auto simp: sample_codec)

lemma sample_requests:
  "\<exists>bs. resume_request sample_env sample_handoff (Some 2) = Inr bs"
  "\<exists>bs. proof_response sample_env [proof_output sample_proof] = Inr bs"
  "\<exists>bs. enable_encryption sample_env = Inr bs"
proof -
  have types: "resume_request_type sample_protocol = 16" "proof_response_type sample_protocol = 19"
      "enable_encryption_type sample_protocol = 20"
    by (simp_all add: sample_protocol_def)
  note rooms = room_steps kind_room_def member_room_def get_at_def sample_meta upts by_index_Cons
    range_room_def text_room_def wide_def version_range_def arg_cong[where f = "value_room native_codec", OF eight]
  show "\<exists>bs. enable_encryption sample_env = Inr bs"
    unfolding enable_encryption_def sample_codec types Let_def sample_struct_value rbind_simps
    by (rule sample_record) (simp_all add: rooms route_ids)
  show "\<exists>bs. proof_response sample_env [proof_output sample_proof] = Inr bs"
    unfolding proof_response_def sample_codec types Let_def sample_struct_value sample_parts rmap.simps rbind_simps
    by (rule sample_record) (simp_all add: rooms route_ids sample_proof_def)
  show "\<exists>bs. resume_request sample_env sample_handoff (Some 2) = Inr bs"
    unfolding resume_request_def resume_request_fields_def request_common_def sample_codec types Let_def sample_parts rbind_simps
      SC2_MACOS_NATIVE_VERSIONS_def rmap.simps prod.case sample_struct_value option.case
    by (rule sample_record) (simp_all add: rooms route_ids SC2_NATIVE_VERSION_def sample_handoff_def ascii_def)
qed

definition sample_random :: "bytes option" where
  "sample_random = Some (replicate 16 3)"

section \<open>The script of the server\<close>

lemma sample_get: "struct_get [] name = None"
  "struct_get (sample_field i n v # fs) name = (if ascii n = name then Some v else struct_get fs name)"
  by (simp_all add: sample_field_def struct_get_def)

lemma sample_module_parts: "module_parts (sample_module a d) = Some (a, d)"
  by (simp add: module_parts_def sample_module_def expect_struct_def require_field_def sample_get expect_bytes_def)

lemma sample_modules:
  "modules_of sample_request = Inr [sample_module THUMBPRINT_MODULE_ID (replicate 512 1), sample_module SESSION_PROOF_MODULE_ID (0 # replicate 16 5)]"
  "final_modules sample_resume = Inr [sample_module SESSION_PROOF_MODULE_ID (2 # replicate 32 7)]"
  by (simp_all add: modules_of_def final_modules_def sample_request_def sample_resume_def require_field_def sample_get
      expect_array_def expect_struct_def expect_choice_def)

lemma sample_context: "\<exists>ctx. thumbprint_context_for_peer sample_peer = Inr ctx \<and> length ctx = 16"
proof -
  have "sample_peer = dotted [10, 0, 0, 7]"
    by code_simp
  then have "parse_ip sample_peer = Some (V4 [10, 0, 0, 7])"
    using parse_dotted[of "[10, 0, 0, 7]"] by simp
  moreover have "split_at_byte 0x25 sample_peer = None"
    by code_simp
  ultimately show ?thesis
    using parse_ip_octets by (auto simp: thumbprint_context_for_peer_def)
qed

lemma sample_proofs:
  "build_session_proof sample_suite sample_random (nh_session_key sample_handoff) (replicate 16 5) = Inr sample_proof"
  "verify_client_session_proof sample_suite (nh_session_key sample_handoff) (replicate 16 5) (proof_output sample_proof) =
     Inr sample_server_proof"
  "length ctx = 16 \<Longrightarrow> verify_thumbprint_proof sample_suite ctx (replicate 512 1)"
proof -
  show built: "build_session_proof sample_suite sample_random (nh_session_key sample_handoff) (replicate 16 5) = Inr sample_proof"
    by (simp add: build_session_proof_def build_session_proof_with_nonce_def derive_session_auth_key_def hmac_sha256_def
        require_length_def sample_suite_def sample_random_def sample_handoff_def sample_proof_def flip: replicate_add)
  have "lawful_mac sample_suite"
    using sample_suite_lawful by (simp add: lawful_suite_def)
  from proof_parts(5)[OF this built]
  show "verify_client_session_proof sample_suite (nh_session_key sample_handoff) (replicate 16 5) (proof_output sample_proof) =
     Inr sample_server_proof"
    by (simp add: sample_proof_def sample_server_proof_def)
  show "length ctx = 16 \<Longrightarrow> verify_thumbprint_proof sample_suite ctx (replicate 512 1)"
    by (simp add: verify_thumbprint_proof_def sample_suite_def)
qed

text \<open>The bytes of the script exist, are few, and are honest.\<close>

lemma sample_script:
  obtains script where
    "honest_script sample_suite sample_env sample_random (nh_session_key sample_handoff) sample_peer True
       sample_proof sample_server_proof script" and "length script < 10000"
proof -
  have routes: "incoming_types sample_protocol (AUTHENTICATION_SLOT, AUTH_CONFIGURATION_COMMAND) = Some 5"
      "incoming_types sample_protocol (AUTHENTICATION_SLOT, AUTH_PROOF_COMMAND) = Some 8"
      "incoming_types sample_protocol (AUTHENTICATION_SLOT, AUTH_RESUME_COMMAND) = Some 12"
      "AUTH_CONFIGURATION_COMMAND < 64" "AUTH_PROOF_COMMAND < 64" "AUTH_RESUME_COMMAND < 64"
    by (simp_all add: sample_protocol_def sample_routes_def route_ids)
  have reflected: "\<not> has_custom_incoming_decoder (AUTHENTICATION_SLOT, c)" for c
    by (simp add: has_custom_incoming_decoder_def route_ids)
  obtain k1 k2 k3 where k: "value_room native_codec 8 5 (Struct 5 sample_configuration) = Some k1" "k1 < 1000"
      "value_room native_codec 8 8 (Struct 8 sample_request) = Some k2" "k2 < 10000"
      "value_room native_codec 8 12 (Struct 12 sample_resume) = Some k3" "k3 < 10000"
    using sample_rooms by blast
  obtain c1 n1 where c1: "length c1 \<le> div_ceil (11 + k1) 8" "crosses (decode_incoming_from sample_env) c1
      (routed_record AUTH_CONFIGURATION_COMMAND AUTHENTICATION_SLOT 5 (payload.Reflected (Struct 5 sample_configuration)) n1)"
    by (rule sample_crosses[OF routes(1,4) reflected k(1) _ sample_live(1) sample_normal(1)]) (use k(2) in simp)
  obtain c2 n2 where c2: "length c2 \<le> div_ceil (11 + k2) 8" "crosses (decode_incoming_from sample_env) c2
      (routed_record AUTH_PROOF_COMMAND AUTHENTICATION_SLOT 8 (payload.Reflected (Struct 8 sample_request)) n2)"
    by (rule sample_crosses[OF routes(2,5) reflected k(3) _ sample_live(2) sample_normal(2)]) (use k(4) in simp)
  obtain c3 n3 where c3: "length c3 \<le> div_ceil (11 + k3) 8" "crosses (decode_incoming_from sample_env) c3
      (routed_record AUTH_RESUME_COMMAND AUTHENTICATION_SLOT 12 (payload.Reflected (Struct 12 sample_resume)) n3)"
    by (rule sample_crosses[OF routes(3,6) reflected k(5) _ sample_live(3) sample_normal(3)]) (use k(6) in simp)
  have struct: "struct_record (routed_record c AUTHENTICATION_SLOT t (payload.Reflected (Struct t fs)) n) c fs" for c t fs n
    by (simp add: struct_record_def route_def routed_record_def)
  have depot: "struct_get sample_configuration (ascii ''m_useS3Depot'') = Some (Bool True)"
    by (simp add: sample_configuration_def sample_get)
  obtain ctx where ctx: "thumbprint_context_for_peer sample_peer = Inr ctx" "length ctx = 16"
    using sample_context by blast
  have "honest_script sample_suite sample_env sample_random (nh_session_key sample_handoff) sample_peer True
       sample_proof sample_server_proof (c1 @ c2 @ c3)"
    unfolding honest_script_def
    by (rule exI)+ (intro conjI, rule refl, rule c1(2), rule c2(2), rule c3(2), rule struct, rule depot, rule struct, rule sample_modules(1),
      rule ctx(1), rule sample_module_parts, rule sample_proofs(3)[OF ctx(2)], rule sample_module_parts, rule sample_proofs(1),
      rule sample_proofs(2), rule struct, rule sample_modules(2), simp add: sample_module_parts sample_server_proof_def)
  moreover have "length (c1 @ c2 @ c3) < 10000"
    using c1(1) c2(1) c3(1) k by (simp add: div_ceil_8)
  ultimately show thesis
    by (rule that)
qed

end
