(* ===== verification/Club_Laws.thy ===== *)
theory Club_Laws
  imports Native_Protocol Join_Laws
begin

text \<open>
  The clubs that the bounded walk over a club record yields: at most the limit of the walk, with printable names
  of bounded length; the record ends at a byte inside the buffer.
\<close>

definition club_ok :: "club_summary \<Rightarrow> bool" where
  "club_ok c \<longleftrightarrow> (\<exists>name. cs_name c = Some name \<and> 1 \<le> length name \<and> length name \<le> 32 \<and> utf8_valid name \<and> \<not> has_control name)"

text \<open>What holds of every value an operation returns.\<close>

definition returns :: "('s, 'a) op \<Rightarrow> ('a \<Rightarrow> bool) \<Rightarrow> bool" where
  "returns m P \<longleftrightarrow> (\<forall>s x s'. m s = (Inr x, s') \<longrightarrow> P x)"

lemma returns_ret: "P x \<Longrightarrow> returns (ret x) P"
  by (simp add: returns_def)

lemma returns_bind: "returns m P \<Longrightarrow> (\<And>x. P x \<Longrightarrow> returns (f x) Q) \<Longrightarrow> returns (bindM m f) Q"
  unfolding returns_def by (auto simp: bindM_Inr_iff) blast

lemma returns_any: "returns m (\<lambda>_. True)"
  by (simp add: returns_def)

lemma returns_then: "(\<And>x. returns (f x) Q) \<Longrightarrow> returns (bindM m f) Q"
  by (rule returns_bind[OF returns_any])

lemma returns_if: "(c \<Longrightarrow> returns a P) \<Longrightarrow> (\<not> c \<Longrightarrow> returns b P) \<Longrightarrow> returns (if c then a else b) P"
  by simp

lemma returns_option: "(v = None \<Longrightarrow> returns a P) \<Longrightarrow> (\<And>x. v = Some x \<Longrightarrow> returns (f x) P) \<Longrightarrow>
    returns (case v of None \<Rightarrow> a | Some x \<Rightarrow> f x) P"
  by (cases v) simp_all

fun step_ok :: "club_step \<Rightarrow> bool" where
  "step_ok (Stops clubs incomplete) \<longleftrightarrow> length clubs \<le> 1 \<and> (\<forall>c \<in> set clubs. club_ok c)"
| "step_ok (Goes club trace next_start) \<longleftrightarrow> club_ok club"

lemma club_rest_ok: "club_ok c \<Longrightarrow> returns (club_rest limit start text_at name_end c) step_ok"
  unfolding club_rest_def Let_def
  by (intro returns_if returns_then returns_option returns_ret) simp_all

lemma club_named_ok:
  "1 \<le> length name \<Longrightarrow> length name \<le> 32 \<Longrightarrow> utf8_valid name \<Longrightarrow> \<not> has_control name \<Longrightarrow>
    returns (club_named limit start cid text_at name_end name) step_ok"
  unfolding club_named_def
  by (intro returns_if returns_then club_rest_ok returns_ret) (simp_all add: club_ok_def)

lemma name_length:
  assumes "p mod 8 = 0"
  shows "returns (bindM (set_position p) (\<lambda>_. attempt (read_bytes n False))) (\<lambda>raw. \<forall>bs. raw = Some bs \<longrightarrow> length bs = n)"
  unfolding returns_def
proof (intro allI impI)
  fix r raw r' bs
  assume run: "bindM (set_position p) (\<lambda>_. attempt (read_bytes n False)) r = (Inr raw, r')" and raw: "raw = Some bs"
  define r1 where "r1 = r\<lparr>rposition := p\<rparr>"
  have "attempt (read_bytes n False) r1 = (Inr (Some bs), r')"
    using run raw by (auto simp: bindM_Inr_iff set_position_def r1_def split: if_split_asm)
  then have "read_bytes_here n r1 = (Inr bs, r')"
    by (auto simp: attempt_def read_bytes_def split: prod.splits sum.splits if_split_asm)
  moreover have "rposition r1 mod 8 = 0"
    using assms by (simp add: r1_def)
  ultimately have "get_slice (rdata r1) (rposition r1 div 8) (rposition r1 div 8 + n) = Some bs"
    by (auto simp: read_bytes_here_def checked_add64_def Let_def split: if_split_asm option.splits)
  then show "length bs = n"
    by (auto simp: get_slice_Some)
qed

lemma align_bits_mod: "align_bits n mod 8 = 0"
  by (simp add: align_bits_def)

lemma club_element_ok: "returns (club_element limit start) step_ok"
proof -
  have name: "returns (bindM (set_position p) (\<lambda>_. bindM (attempt (read_bytes n False)) (\<lambda>raw.
        case Option.bind raw from_utf8 of
          None \<Rightarrow> ret (Stops [] False)
        | Some name \<Rightarrow> if has_control name then ret (Stops [] False) else club_named limit start cid p stop name))) step_ok"
    if "p mod 8 = 0" "1 \<le> n" "n \<le> 32" for p n cid stop
  proof -
    have "returns (bindM (bindM (set_position p) (\<lambda>_. attempt (read_bytes n False))) (\<lambda>raw.
        case Option.bind raw from_utf8 of
          None \<Rightarrow> ret (Stops [] False)
        | Some name \<Rightarrow> if has_control name then ret (Stops [] False) else club_named limit start cid p stop name)) step_ok"
    proof (rule returns_bind[OF name_length[OF that(1)]])
      fix raw :: "bytes option"
      assume "\<forall>bs. raw = Some bs \<longrightarrow> length bs = n"
      then show "returns (case Option.bind raw from_utf8 of
          None \<Rightarrow> ret (Stops [] False)
        | Some name \<Rightarrow> if has_control name then ret (Stops [] False) else club_named limit start cid p stop name) step_ok"
        using that(2,3) by (intro returns_option returns_if returns_ret club_named_ok) (auto split: bind_splits)
    qed
    then show ?thesis
      by (simp only: bind_assoc)
  qed
  show ?thesis
    unfolding club_element_def Let_def
    by (intro returns_if returns_then name align_bits_mod returns_ret) (simp_all add: not_less Suc_le_eq)
qed

lemma club_walk_ok: "returns (club_walk n limit start) (\<lambda>(clubs, traces, stop, incomplete). length clubs \<le> n \<and> (\<forall>c \<in> set clubs. club_ok c))"
proof (induction n arbitrary: start)
  case 0
  show ?case
    unfolding club_walk.simps by (rule returns_ret) simp
next
  case (Suc n)
  have "returns (case step of
       Stops clubs incomplete \<Rightarrow> ret (clubs, [], start, incomplete)
     | Goes club trace next_start \<Rightarrow>
         bindM (club_walk n limit next_start) (\<lambda>(clubs, traces, stop, incomplete).
         ret (club # clubs, trace # traces, stop, incomplete)))
     (\<lambda>(clubs, traces, stop, incomplete). length clubs \<le> Suc n \<and> (\<forall>c \<in> set clubs. club_ok c))"
    if "step_ok step" for step :: club_step
  proof (cases step)
    case (Stops clubs incomplete)
    then show ?thesis
      using that unfolding Stops club_step.case by (intro returns_ret) auto
  next
    case (Goes club trace next_start)
    show ?thesis
      unfolding Goes club_step.case
      by (rule returns_bind[OF Suc.IH]) (use that Goes in \<open>auto simp: returns_def\<close>)
  qed
  then show ?case
    unfolding club_walk.simps by (rule returns_bind[OF club_element_ok])
qed

lemma counts_keep_clubs:
  "length (apply_club_counts counts clubs) = length clubs"
  "(\<forall>c \<in> set clubs. club_ok c) \<Longrightarrow> (\<forall>c \<in> set (apply_club_counts counts clubs). club_ok c)"
  by (auto simp: apply_club_counts_def club_ok_def split: option.splits prod.splits)

lemma scrape_clubs_ok:
  "returns (scrape_clubs E tid) (\<lambda>((clubs, traces, stop, incomplete), buffer_bits). length clubs \<le> CLUB_LIMIT \<and> (\<forall>c \<in> set clubs. club_ok c))"
proof -
  have walk: "returns (attempt (walk_club_elements limit)) (\<lambda>w. \<forall>clubs traces stop incomplete.
      w = Some (clubs, traces, stop, incomplete) \<longrightarrow> length clubs \<le> CLUB_LIMIT \<and> (\<forall>c \<in> set clubs. club_ok c))" for limit
  proof -
    have "returns (walk_club_elements limit) (\<lambda>(clubs, traces, stop, incomplete). length clubs \<le> CLUB_LIMIT \<and> (\<forall>c \<in> set clubs. club_ok c))"
      unfolding walk_club_elements_def
      by (rule returns_then) (use club_walk_ok in \<open>fastforce simp: returns_def\<close>)
    then show ?thesis
      unfolding returns_def attempt_def by (fastforce split: prod.splits sum.splits if_split_asm)
  qed
  show ?thesis
    unfolding scrape_clubs_def Let_def
    by (rule returns_then, rule returns_then, rule returns_then, rule returns_then, rule returns_then, rule returns_bind[OF walk])
      (auto simp: returns_def counts_keep_clubs split: option.splits)
qed

lemma summaries_end:
  assumes "bindM (club_summaries_end n stop bits) (\<lambda>_. ret x) r = (Inr y, r')"
  shows "y = x \<and> rposition r' mod 8 = 0 \<and> rposition r' \<le> rbit_count r'"
  using assms by (auto simp: club_summaries_end_def Let_def bindM_Inr_iff set_position_def align_bits_mod split: if_split_asm)

end
