(* ===== verification/Native_Properties.thy ===== *)
theory Native_Properties
  imports Native_Script Club_Laws Join_Laws
begin

text \<open>
  The properties of the native client: the logon with an honest server and with an impostor, what every session
  rests on, the records of its stream, and the decoders behind the dispatch.
\<close>

section \<open>The logon\<close>




definition calm_link :: wire_stream where
  "calm_link = \<lparr>incoming = [], outgoing = [], room = None, flush_fails = False\<rparr>"

definition sample_client :: "bytes \<Rightarrow> u8 record_stream" where
  "sample_client coming = stream_new (calm_link\<lparr>incoming := [Arrived coming]\<rparr>) (protocol_decoders sample_env)"

lemma sample_client_ready:
  assumes "coming \<noteq> []" and "length coming < 2 ^ 59"
  shows "ready sample_env (sample_client coming) coming"
  using assms by (simp add: ready_def sample_client_def stream_new_def calm_link_def steady_def quiet_def pending_def)

lemma honest_script_nonempty: "honest_script S E random seed peer depot p q script \<Longrightarrow> script \<noteq> []"
  unfolding honest_script_def crosses_def by auto









text \<open>C4: a peer that cannot sign for the address it is reached at gets nothing but the resume request: whatever
  it sends, the handshake fails, and all that has left the client is that request or the part of it the link took;
  neither the proof of the client nor the request to start protection is among it.\<close>

theorem impostors_learn_nothing:
  assumes impostor: "\<And>ctx sig. thumbprint_context_for_peer peer = Inr ctx \<Longrightarrow> \<not> thumbprint_ok S ctx sig"
    and clear: "outbound_cipher s = None" and run: "handshake S E random bootstrap region peer s = (v, s')"
  shows "(\<exists>e. v = Inl e) \<and> (\<exists>n. outgoing (link s') = outgoing (link s) @
      take n (case resume_request E bootstrap (Some region) of Inr bs \<Rightarrow> bs | Inl _ \<Rightarrow> []))"
  by (rule impostor_learns_nothing[OF impostor clear run])

theorem impostors_learn_nothing_witness:
  "\<exists>e s' n. handshake (sample_suite\<lparr>thumbprint_ok := \<lambda>_ _. False\<rparr>) sample_env sample_random sample_handoff 2 sample_peer
      (stream_new (calm_link\<lparr>incoming := [Arrived [0xC0, 0x12], Interruption, Arrived [0x01]]\<rparr>) (protocol_decoders sample_env)) = (Inl e, s')
    \<and> outgoing (link s') = take n (case resume_request sample_env sample_handoff (Some 2) of Inr bs \<Rightarrow> bs | Inl _ \<Rightarrow> [])"
proof -
  let ?S = "sample_suite\<lparr>thumbprint_ok := \<lambda>_ _. False\<rparr>"
  let ?s = "stream_new (calm_link\<lparr>incoming := [Arrived [0xC0, 0x12], Interruption, Arrived [0x01]]\<rparr>) (protocol_decoders sample_env) :: u8 record_stream"
  obtain v s' where run: "handshake ?S sample_env sample_random sample_handoff 2 sample_peer ?s = (v, s')"
    by fastforce
  have "(\<exists>e. v = Inl e) \<and> (\<exists>n. outgoing (link s') = outgoing (link ?s) @
      take n (case resume_request sample_env sample_handoff (Some 2) of Inr bs \<Rightarrow> bs | Inl _ \<Rightarrow> []))"
    by (rule impostors_learn_nothing[OF _ _ run]) (simp_all add: stream_new_def)
  then show ?thesis
    using run by (auto simp: stream_new_def calm_link_def)
qed

text \<open>C5: a handshake that succeeds rests on proofs: a thumbprint verified for the address of the peer, the proof
  the client sent is one a server with the seed accepts, and the key the client keeps is the one that server
  derives; the stream is protected, and exactly three records left the client in the clear.\<close>

theorem sessions_are_proven:
  assumes S: "lawful_mac S" and run: "handshake S E random bootstrap region peer s = (Inr (depot, p), s')"
    and clear: "outbound_cipher s = None"
  shows "\<exists>ctx sig srv q b1 b2 b3. thumbprint_context_for_peer peer = Inr ctx \<and> verify_thumbprint_proof S ctx sig
    \<and> verify_client_session_proof S (nh_session_key bootstrap) srv (proof_output p) = Inr q
    \<and> ssp_transport_key q = transport_key p \<and> ssp_server_proof q = expected_server_proof p
    \<and> resume_request E bootstrap (Some region) = Inr b1 \<and> proof_response E [proof_output p] = Inr b2
    \<and> enable_encryption E = Inr b3 \<and> outgoing (link s') = outgoing (link s) @ b1 @ b2 @ b3 \<and> protection_enabled s'"
proof -
  obtain b1 b2 b3 ctx request a resume s2 where h: "resume_request E bootstrap (Some region) = Inr b1"
      "thumbprint_context_for_peer peer = Inr ctx" "answer_proof_request S random request (nh_session_key bootstrap) ctx = Inr a"
      "p = session a" "proof_response E (outputs a) = Inr b2" "enable_encryption E = Inr b3"
      "enable_protection S (transport_key p) s2 = (Inr (), s')" "outgoing (link s2) = outgoing (link s) @ b1 @ b2 @ b3"
    by (rule handshake_ok[OF run clear])
  obtain ms where ms: "list_ex (thumbprint_module S ctx) ms" "list_ex (session_module S random (nh_session_key bootstrap) (session a)) ms"
      "outputs a = [proof_output (session a)]"
    by (rule answered[OF h(3)])
  obtain sig where sig: "verify_thumbprint_proof S ctx sig"
    using ms(1) by (auto simp: list_ex_iff thumbprint_module_def)
  obtain srv where srv: "build_session_proof S random (nh_session_key bootstrap) srv = Inr p"
    using ms(2) h(4) by (auto simp: list_ex_iff session_module_def)
  obtain i out where "install_ciphers S i out s2 = (Inr (), s')"
    using h(7) unfolding enable_install by auto
  then have "link s' = link s2 \<and> protection_enabled s'"
    by (rule install_ciphers_ok) (simp add: protection_enabled_def)
  then show ?thesis
    using h proof_parts(5)[OF S srv] sig ms(3)
    by (intro exI[of _ ctx] exI[of _ sig] exI[of _ srv]
        exI[of _ "\<lparr>ssp_server_proof = expected_server_proof p, ssp_transport_key = transport_key p\<rparr>"]
        exI[of _ b1] exI[of _ b2] exI[of _ b3]) simp
qed

lemma sample_session:
  obtains s s' where "handshake sample_suite sample_env sample_random sample_handoff 2 sample_peer s = (Inr (True, sample_proof), s')"
    and "outbound_cipher s = None"
proof -
  obtain script where script: "honest_script sample_suite sample_env sample_random (nh_session_key sample_handoff) sample_peer True
       sample_proof sample_server_proof script" "length script < 10000"
    by (rule sample_script)
  obtain b1 b2 b3 where own: "resume_request sample_env sample_handoff (Some 2) = Inr b1"
      "proof_response sample_env [proof_output sample_proof] = Inr b2" "enable_encryption sample_env = Inr b3"
    using sample_requests by blast
  have ready: "ready sample_env (sample_client script) (script @ [])"
    using sample_client_ready[OF honest_script_nonempty[OF script(1)]] script(2) by simp
  show thesis
    by (rule honest_handshake[OF sample_suite_lawful ready script(1) own]) (rule that, assumption, simp add: sample_client_def stream_new_def)
qed

theorem sessions_are_proven_witness:
  "\<exists>s s' srv q. handshake sample_suite sample_env sample_random sample_handoff 2 sample_peer s = (Inr (True, sample_proof), s')
    \<and> verify_client_session_proof sample_suite (replicate 64 9) srv (proof_output sample_proof) = Inr q
    \<and> ssp_transport_key q = replicate 64 7 \<and> protection_enabled s'"
proof -
  obtain s s' where run: "handshake sample_suite sample_env sample_random sample_handoff 2 sample_peer s = (Inr (True, sample_proof), s')"
      "outbound_cipher s = None"
    by (rule sample_session)
  have "lawful_mac sample_suite"
    using sample_suite_lawful by (simp add: lawful_suite_def)
  from sessions_are_proven[OF this run] show ?thesis
    using run(1) by (auto simp: sample_handoff_def sample_proof_def)
qed

section \<open>Decoders\<close>

text \<open>C13: with the layouts of this protocol, decoding with provenance and plain decoding agree on every route: what
  the first returns is the type, payload and end the second returns, and it fails only where the second does or
  for a reason that aborts.\<close>

theorem provenance_is_faithful:
  assumes "wf_codec (pcodec (proto E))" and "native_layouts (pcodec (proto E))" and "code E = layout_program B d"
  shows "case decode_incoming_with_provenance_from E h r of
      (Inr x, r') \<Rightarrow> decode_incoming_from E h r = (Inr (di_type_id x, di_payload x), r')
    | (Inl e, _) \<Rightarrow> aborting e \<or> (\<exists>e' r'. decode_incoming_from E h r = (Inl e', r'))"
proof -
  have E: "traced_env E"
    using layout_traces_agree[OF assms(1,2), of B d] assms(3) by (simp add: traced_env_def)
  show ?thesis
  proof (cases "decode_incoming_from E h r")
    case (Pair v r1)
    show ?thesis
    proof (cases v)
      case (Inl e)
      then show ?thesis
        using Pair provenance_sound[OF E, of h r] by (auto split: prod.split sum.split)
    next
      case (Inr y)
      then have "decode_incoming_from E h r = (Inr (fst y, snd y), r1)"
        using Pair by simp
      from provenance_complete[OF E this] show ?thesis
        using Pair Inr by (auto split: prod.splits sum.splits)
    qed
  qed
qed

theorem provenance_is_faithful_witness:
  "case decode_incoming_with_provenance_from (sample_env\<lparr>code := layout_program sample_program 2\<rparr>) (routed AUTH_CONFIGURATION_COMMAND AUTHENTICATION_SLOT)
      \<lparr>rdata = [0xC0, 0x12, 0x01], rbit_count = 24, rposition = 11\<rparr> of
      (Inr x, r') \<Rightarrow> decode_incoming_from (sample_env\<lparr>code := layout_program sample_program 2\<rparr>) (routed AUTH_CONFIGURATION_COMMAND AUTHENTICATION_SLOT)
      \<lparr>rdata = [0xC0, 0x12, 0x01], rbit_count = 24, rposition = 11\<rparr> = (Inr (di_type_id x, di_payload x), r')
    | (Inl e, _) \<Rightarrow> aborting e \<or> (\<exists>e' r'. decode_incoming_from (sample_env\<lparr>code := layout_program sample_program 2\<rparr>)
      (routed AUTH_CONFIGURATION_COMMAND AUTHENTICATION_SLOT) \<lparr>rdata = [0xC0, 0x12, 0x01], rbit_count = 24, rposition = 11\<rparr> = (Inl e', r'))"
proof (rule provenance_is_faithful)
  let ?E = "sample_env\<lparr>code := layout_program sample_program 2\<rparr>"
  show "wf_codec (pcodec (proto ?E))"
    using sample_wf by simp
  show "native_layouts (pcodec (proto ?E))"
    using sample_no_layouts by (simp add: native_layouts_def)
  show "code ?E = layout_program sample_program 2"
    by simp
qed

text \<open>C19: the two decoders of a join notification, the one with spans and the plain one, read the same payload from
  the same bits and stop at the same place or with the same error; so do the two of a chat invitation.\<close>

theorem chat_decoders_agree:
  "payload_of chat_join_with_provenance = decode_chat_join \<and> payload_of chat_invite_with_provenance = decode_chat_invite"
  using join_decoders_agree invite_decoders_agree by blast

text \<open>C17: a protocol that is built from the metadata of the game has a well-formed codec over that very metadata, and
  the only custom layouts registered in it are the three this program implements, each with its tracing decoder.\<close>

theorem protocols_are_lawful:
  "case protocol_new m of
     Inl e \<Rightarrow> True
   | Inr P \<Rightarrow> wf_codec (pcodec P) \<and> native_layouts (pcodec P) \<and> cschema (pcodec P) = Runtime m"
  using protocol_new_codec[of m] by (auto simp: protocol_codec_def split: sum.split)

text \<open>C18: the value coercion follows aliases without a bound: it returns for every value of a type exactly when the
  bounded walk that the other lookups use does not report a cycle of aliases.\<close>

theorem coercion_ends_iff_no_cycle:
  assumes "counts_types (cschema (pcodec P))"
  shows "(\<exists>x. coerce_loop P t v = Some x) \<longleftrightarrow> peel_alias P t \<noteq> native_error AliasCycle"
  using endless_iff_cycle[OF assms, of t v] by (metis not_None_eq)

lemma sample_counts: "counts_types (cschema native_codec)"
proof -
  have "{t. \<exists>sh. schema_shape (Static native_schema) t = Inr sh} \<subseteq> st_type_id ` set (ss_types native_schema)"
  proof
    fix t assume "t \<in> {t. \<exists>sh. schema_shape (Static native_schema) t = Inr sh}"
    then have "\<exists>sh \<in> set (ss_types native_schema). st_type_id sh = t"
      using static_shape_cases[of native_schema t] by (auto simp del: schema_shape.simps)
    then show "t \<in> st_type_id ` set (ss_types native_schema)"
      by blast
  qed
  then have "card {t. \<exists>sh. schema_shape (Static native_schema) t = Inr sh} \<le> card (set (ss_types native_schema))"
    by (meson List.finite_set card_image_le card_mono finite_imageI order_trans)
  also have "\<dots> \<le> length (ss_types native_schema)"
    by (rule card_length)
  finally show ?thesis
    by (simp add: counts_types_def native_codec_def codec_from_schema_def native_schema_def)
qed

lemma sample_aliases:
  "schema_shape (cschema native_codec) 23 = Inr (to_shape (sample_type 23 KAlias None (Some 24)))"
  "schema_shape (cschema native_codec) 24 = Inr (to_shape (sample_type 24 KAlias None (Some 23)))"
  "schema_shape (cschema native_codec) 25 = Inr (to_shape (sample_type 25 KAlias None (Some 1)))"
  by (rule sample_shape, simp add: native_schema_def, simp add: shape_members shape_type)+

lemma sample_count: "schema_type_count (cschema native_codec) = 25"
  by (simp add: native_codec_def codec_from_schema_def native_schema_def)

theorem coercion_ends_iff_no_cycle_witness:
  "coerce_loop sample_protocol 23 (Bool True) = None \<and> coerce_loop sample_protocol 25 (Bool True) = Some (Inr (Bool True))
    \<and> peel_alias sample_protocol 23 = native_error AliasCycle \<and> peel_alias sample_protocol 25 = Inr 1"
proof -
  have counts: "counts_types (cschema (pcodec sample_protocol))"
    using sample_counts by (simp add: sample_codec)
  have walk: "peel_loop sample_protocol n 23 = (if n + 1 > 25 then native_error AliasCycle else peel_loop sample_protocol (n + 1) 24)"
    "peel_loop sample_protocol n 24 = (if n + 1 > 25 then native_error AliasCycle else peel_loop sample_protocol (n + 1) 23)" for n
    by (simp_all add: peel_loop.simps[of _ n] sample_codec sample_aliases shape_type sample_count)
  have cycle: "peel_alias sample_protocol 23 = native_error AliasCycle"
    by (simp add: peel_alias_def walk)
  have ends: "peel_alias sample_protocol 25 = Inr 1" "coerce_loop sample_protocol 25 (Bool True) = Some (Inr (Bool True))"
    by (simp_all add: peel_alias_def peel_loop.simps coerce_loop.simps sample_codec sample_aliases sample_shapes shape_type sample_count)
  have "coerce_loop sample_protocol 23 (Bool True) = None"
    using coercion_ends_iff_no_cycle[OF counts, of 23 "Bool True"] cycle by (metis not_Some_eq)
  then show ?thesis
    using cycle ends by blast
qed

section \<open>Records on the stream\<close>

text \<open>C15: a value that conforms to its type, where the room of its parts is computed along the schema, is encoded,
  from any position of any writer, and takes no more bits than computed; so no conforming value is refused.\<close>

theorem conforming_values_are_accepted:
  assumes "value_room c n tid v = Some k" and "wf_writer w"
  shows "\<exists>w'. encode_reflected_into prog n c tid v w = (Inr (), w') \<and> wf_writer w' \<and> wposition w' \<le> wposition w + k"
  by (rule writes_run[OF conforming_values_encode[OF assms(1)] assms(2)]) blast

theorem conforming_values_are_accepted_witness:
  "\<exists>w'. encode_reflected_into sample_program 8 native_codec 12 (Struct 12 sample_resume) writer_new = (Inr (), w') \<and> wf_writer w'
    \<and> wposition w' \<le> 10000"
proof -
  obtain k where k: "value_room native_codec 8 12 (Struct 12 sample_resume) = Some k" "k < 10000"
    using sample_rooms(3) by blast
  show ?thesis
    using conforming_values_are_accepted[OF k(1) wf_writer_new(1), of sample_program] k(2) by auto
qed

text \<open>C3: a record with a value that conforms to the type of its route is built and bounded beforehand, and a client
  that the bytes reach, in any pieces, under any cipher, with more behind them, receives exactly that record: the
  route, the type, and the normal form of the value; what was behind it is what remains.\<close>

theorem reflected_records_are_received:
  assumes codec: "wf_codec (pcodec (proto E))" "lawful_program (code E) (pcodec (proto E)) nf" "layouts_cover (pcodec (proto E))"
    and route: "c < 64" "slot < 16" "incoming_types (proto E) (slot, c) = Some tid" "\<not> has_custom_incoming_decoder (slot, c)"
    and v: "live (max_capacity (code E)) v" "value_room (pcodec (proto E)) (stack E) tid v = Some k" "k < 2 ^ 58"
  shows "\<exists>bs. encode_record E c slot tid v = Inr bs \<and> length bs \<le> div_ceil (11 + k) 8
    \<and> (\<forall>(S :: 'k suite) s rest. lawful_cipher S \<and> steady (link s) \<and> record_decoder s = decode_incoming_from E
          \<and> clear_view S s = bs @ rest \<and> length (clear_view S s) < 2 ^ 59 \<longrightarrow>
        (\<exists>n s'. receive_record S s = (Inr (routed_record c slot tid
            (payload.Reflected (normal_form (pcodec (proto E)) nf (stack E) tid v)) n), s') \<and> clear_view S s' = rest))"
proof -
  obtain bs where bs: "encode_record E c slot tid v = Inr bs" "length bs \<le> div_ceil (11 + k) 8"
    by (rule conforming_record[OF v(2) route(1,2)])
  have "length bs < 2 ^ 59"
    using bs(2) v(3) by (simp add: div_ceil_8)
  then obtain n where n: "crosses (decode_incoming_from E) bs (routed_record c slot tid
      (payload.Reflected (normal_form (pcodec (proto E)) nf (stack E) tid v)) n)"
    using reflected_record_crosses[OF codec route v(1) bs(1)] by blast
  show ?thesis
  proof (intro exI[of _ bs] conjI bs allI impI)
    fix S :: "'k suite" and s rest
    assume "lawful_cipher S \<and> steady (link s) \<and> record_decoder s = decode_incoming_from E
      \<and> clear_view S s = bs @ rest \<and> length (clear_view S s) < 2 ^ 59"
    then show "\<exists>n s'. receive_record S s = (Inr (routed_record c slot tid
            (payload.Reflected (normal_form (pcodec (proto E)) nf (stack E) tid v)) n), s') \<and> clear_view S s' = rest"
      using receive_next[of S s bs _ "[]" rest] n by fastforce
  qed
qed

theorem reflected_records_are_received_witness:
  "\<exists>bs n s'. encode_record sample_env AUTH_CONFIGURATION_COMMAND AUTHENTICATION_SLOT 5 (Struct 5 sample_configuration) = Inr bs
    \<and> receive_record sample_suite (sample_client (bs @ [1, 2])) = (Inr (routed_record AUTH_CONFIGURATION_COMMAND AUTHENTICATION_SLOT 5
        (payload.Reflected (Struct 5 sample_configuration)) n), s') \<and> clear_view sample_suite s' = [1, 2]"
proof -
  have route: "AUTH_CONFIGURATION_COMMAND < 64" "AUTHENTICATION_SLOT < 16"
      "incoming_types (proto sample_env) (AUTHENTICATION_SLOT, AUTH_CONFIGURATION_COMMAND) = Some 5"
      "\<not> has_custom_incoming_decoder (AUTHENTICATION_SLOT, AUTH_CONFIGURATION_COMMAND)"
    by (simp_all add: sample_codec sample_protocol_def sample_routes_def route_ids has_custom_incoming_decoder_def)
  obtain k where k: "value_room native_codec 8 5 (Struct 5 sample_configuration) = Some k" "k < 1000"
    using sample_rooms(1) by blast
  have small: "k < 2 ^ 58" and room: "value_room (pcodec (proto sample_env)) (stack sample_env) 5 (Struct 5 sample_configuration) = Some k"
      and live: "live (max_capacity (code sample_env)) (Struct 5 sample_configuration)"
    using k sample_live(1) by (simp_all add: sample_codec)
  obtain bs where bs: "encode_record sample_env AUTH_CONFIGURATION_COMMAND AUTHENTICATION_SLOT 5 (Struct 5 sample_configuration) = Inr bs"
      "length bs \<le> div_ceil (11 + k) 8"
      "\<forall>(S :: u8 suite) s rest. lawful_cipher S \<and> steady (link s) \<and> record_decoder s = decode_incoming_from sample_env
          \<and> clear_view S s = bs @ rest \<and> length (clear_view S s) < 2 ^ 59 \<longrightarrow>
        (\<exists>n s'. receive_record S s = (Inr (routed_record AUTH_CONFIGURATION_COMMAND AUTHENTICATION_SLOT 5
            (payload.Reflected (normal_form (pcodec (proto sample_env)) (\<lambda>_ v. v) (stack sample_env) 5 (Struct 5 sample_configuration))) n), s')
          \<and> clear_view S s' = rest)"
    using reflected_records_are_received[where 'k = u8, OF sample_wf sample_lawful[where nf = "\<lambda>_ v. v"] sample_covered route live room small]
    by blast
  let ?s = "sample_client (bs @ [1, 2])"
  have "length (bs @ [1, 2 :: u8]) < 20000"
    using bs(2) k(2) by (simp add: div_ceil_8)
  then have ready: "ready sample_env ?s (bs @ [1, 2])"
    by (intro sample_client_ready) simp_all
  then have "clear_view sample_suite ?s = bs @ [1, 2]" "steady (link ?s)" "length (clear_view sample_suite ?s) < 2 ^ 59"
    by (simp_all add: ready_def clear_view_def decrypted_def)
  then have "\<exists>n s'. receive_record sample_suite ?s = (Inr (routed_record AUTH_CONFIGURATION_COMMAND AUTHENTICATION_SLOT 5
      (payload.Reflected (Struct 5 sample_configuration)) n), s') \<and> clear_view sample_suite s' = [1, 2]"
    using bs(3) ready_decoder[OF ready] sample_suite_lawful sample_normal(1) unfolding lawful_suite_def sample_codec by metis
  then show ?thesis
    using bs(1) by blast
qed









lemma dotted_no_percent: "0x25 \<notin> set (dotted_from i os)"
proof (induction os arbitrary: i)
  case (Cons b os)
  have digit: "of_nat (48 + d) \<noteq> (0x25 :: u8)" if "d < 10" for d
  proof
    assume "of_nat (48 + d) = (0x25 :: u8)"
    from arg_cong[OF this, of unat] have "unat (of_nat (48 + d) :: u8) = 0x25"
      by (simp del: of_nat_add)
    then show False
      using unat_digit[OF that] by simp
  qed
  have "unat b < 256"
    using unsigned_less[of b] by simp
  then have "unat b div 100 < 10" "unat b div 10 mod 10 < 10" "unat b mod 10 < 10"
    by simp_all
  then have "0x25 \<notin> set (decimal (unat b))"
    using digit[of "unat b"] digit[of "unat b div 10"] digit[of "unat b mod 10"] digit[of "unat b div 100"] digit[of "unat b div 10 mod 10"]
    by (auto simp: decimal_def simp del: of_nat_add split: if_splits)
  then show ?case
    using Cons.IH by simp
qed simp

text \<open>C40: the context of a peer is sixteen bytes on both ends: for the dotted text of an IPv4 address, with or without
  a zone behind a percent sign, it is that address mapped into IPv6, so the server that signs its own address and
  the client that reads the text of the peer's agree.\<close>

theorem peer_context_of_ipv4:
  assumes "length os = 4" and "zone = [] \<or> hd zone = 0x25"
  shows "thumbprint_context_for_peer (dotted os @ zone) = Inr (replicate 10 0 @ [0xFF, 0xFF] @ os)"
proof -
  have plain: "0x25 \<notin> set (dotted os)"
    using dotted_no_percent by (simp add: dotted_def)
  have "(case split_at_byte 0x25 (dotted os @ zone) of Some (host, _) \<Rightarrow> host | None \<Rightarrow> dotted os @ zone) = dotted os"
  proof (cases zone)
    case Nil
    then show ?thesis
      using plain by (simp add: split_at_byte_def)
  next
    case (Cons z zs)
    moreover have "takeWhile (\<lambda>b. b \<noteq> 0x25) (dotted os @ 0x25 # zs) = dotted os"
      using plain by (subst takeWhile_append2) auto
    ultimately show ?thesis
      using assms(2) by (simp add: split_at_byte_def)
  qed
  then show ?thesis
    using parse_dotted[OF assms(1)] by (simp add: thumbprint_context_for_peer_def)
qed

theorem peer_context_of_ipv4_witness:
  "thumbprint_context_for_peer (dotted [192, 168, 0, 255] @ [0x25, 0x65]) = Inr (replicate 10 0 @ [0xFF, 0xFF, 192, 168, 0, 255])"
  using peer_context_of_ipv4[of "[192, 168, 0, 255]" "[0x25, 0x65]"] by simp

section \<open>Clubs\<close>

text \<open>C20: what the scan of a club record yields, whatever the buffer holds, is at most 201 clubs, each with a name of 1
  to 32 bytes of valid UTF-8 without control characters; and the reader stops at a byte boundary inside the buffer.\<close>

theorem scanned_clubs_are_sane:
  "case decode_club_summaries E tid r of
     (Inl e, r') \<Rightarrow> True
   | (Inr p, r') \<Rightarrow> (\<exists>clubs. p = ClubSummaries clubs \<and> length clubs \<le> CLUB_LIMIT \<and> list_all club_ok clubs)
       \<and> rposition r' mod 8 = 0 \<and> rposition r' \<le> rbit_count r'"
proof (cases "decode_club_summaries E tid r")
  case (Pair v r')
  show ?thesis
  proof (cases v)
    case (Inr p)
    then have "bindM (scrape_clubs E tid) (\<lambda>((clubs, trs, stop, incomplete), bits).
        bindM (club_summaries_end (length clubs) stop bits) (\<lambda>_. ret (ClubSummaries clubs))) r = (Inr p, r')"
      using Pair by (simp only: decode_club_summaries_def)
    then obtain y r1 where y: "scrape_clubs E tid r = (Inr y, r1)"
        "(\<lambda>((clubs, trs, stop, incomplete), bits).
          bindM (club_summaries_end (length clubs) stop bits) (\<lambda>_. ret (ClubSummaries clubs))) y r1 = (Inr p, r')"
      unfolding bindM_Inr_iff by (elim exE conjE) (rule that)
    obtain clubs trs stop incomplete bits where y_parts: "y = ((clubs, trs, stop, incomplete), bits)"
      by (metis surj_pair)
    have scrape: "scrape_clubs E tid r = (Inr ((clubs, trs, stop, incomplete), bits), r1)"
      and ends: "bindM (club_summaries_end (length clubs) stop bits) (\<lambda>_. ret (ClubSummaries clubs)) r1 = (Inr p, r')"
      using y unfolding y_parts prod.case .
    have "length clubs \<le> CLUB_LIMIT" "list_all club_ok clubs"
      using scrape_clubs_ok[of E tid, unfolded returns_def, rule_format, OF scrape] by (simp_all add: list_all_iff)
    then show ?thesis
      using summaries_end[OF ends] Pair Inr by simp
  qed (simp add: Pair)
qed

end
